(* ===== verification/Prelude.thy ===== *)
theory Prelude
  imports Complex_Main "HOL-Library.Char_ord" "HOL-Library.List_Lexorder" "HOL-Library.Product_Lexorder"
begin

text \<open>
  Shared vocabulary of the development: Python values, exceptions as values, the environment an
  operation runs in (clock, random supply, hash), and generic facts about lists.

  \<^item> Text is \<open>string\<close>; \<open>take n\<close> is the slice \<open>s[:n]\<close>.
  \<^item> A timestamp is an \<open>int\<close> number of microseconds since the epoch. The code keeps timestamps as
    ISO-8601 UTC text written by \<open>_now\<close>, whose text order is the order of the instants.
  \<^item> A JSON column holds the document it encodes, a value of \<open>json\<close>.
\<close>

type_synonym time = int

named_theorems row_simps \<open>how table operations act on membership and keys\<close>
named_theorems ops \<open>definitions of the table primitives and small store helpers\<close>

section \<open>Exceptions and results\<close>

datatype py_error =
    KeyError string
  | ValueError string
  | RuntimeError string
  | IndexError
  | TypeError
  | IntegrityError
  | OSError string

type_synonym 'a result = "py_error + 'a"

fun is_ok :: "'e + 'a \<Rightarrow> bool" where
  "is_ok (Inr _) = True"
| "is_ok (Inl _) = False"

text \<open>Sequencing: the first exception wins.\<close>

fun andThen :: "'e + 'a \<Rightarrow> ('a \<Rightarrow> 'e + 'b) \<Rightarrow> 'e + 'b" where
  "andThen (Inl e) f = Inl e"
| "andThen (Inr x) f = f x"

lemma andThen_Inr [simp]: "andThen m f = Inr y \<longleftrightarrow> (\<exists>x. m = Inr x \<and> f x = Inr y)"
  by (cases m) auto

lemma andThen_Inl: "andThen m f = Inl e \<longleftrightarrow> m = Inl e \<or> (\<exists>x. m = Inr x \<and> f x = Inl e)"
  by (cases m) auto

section \<open>JSON documents\<close>

datatype json =
    JNull
  | JBool bool
  | JNum int
  | JFloat rat
  | JStr string
  | JArr "json list"
  | JObj "(string \<times> json) list"

fun jget :: "string \<Rightarrow> json \<Rightarrow> json option" where
  "jget k (JObj kvs) = map_of kvs k"
| "jget k _ = None"

section \<open>The environment of an operation\<close>

text \<open>
  Everything an operation reads from outside the program: the successive readings of the clock
  (\<open>clk e 0\<close> is the first), the random identifiers it draws (\<open>uuid\<close>, indexed by a path so that a
  loop body draws its own), the random secrets of \<open>secrets.token_*\<close>, the digest function
  \<open>hashlib.sha256(...).hexdigest()\<close>, and the verdict of the workspace-job contract (the configured
  repair retries of a valid job, \<open>None\<close> when validation raises).
\<close>

record env =
  clk :: "nat \<Rightarrow> time"
  uuid :: "nat list \<Rightarrow> string"
  secret :: "nat \<Rightarrow> string"
  sha256 :: "string \<Rightarrow> string"
  job_repairs :: "json \<Rightarrow> int option"

text \<open>
  The environment of an inner call after \<open>i\<close> readings of the clock, with identifiers of its own.
\<close>

definition sub_env :: "env \<Rightarrow> nat \<Rightarrow> env" where
  "sub_env e i = e\<lparr>clk := (\<lambda>j. clk e (i + j)), uuid := (\<lambda>p. uuid e (i # p))\<rparr>"

lemma sub_env_simps [simp]:
  "clk (sub_env e i) j = clk e (i + j)" "uuid (sub_env e i) p = uuid e (i # p)" "secret (sub_env e i) = secret e"
  "sha256 (sub_env e i) = sha256 e" "job_repairs (sub_env e i) = job_repairs e"
  by (simp_all add: sub_env_def)

definition seconds :: "int \<Rightarrow> time" where
  "seconds n = n * 1000000"

lemma seconds_mono [simp]: "seconds a \<le> seconds b \<longleftrightarrow> a \<le> b" "seconds a < seconds b \<longleftrightarrow> a < b"
  by (simp_all add: seconds_def)

section \<open>Python lists\<close>

text \<open>Indexing counts from the end for a negative index and raises outside the list.\<close>

definition py_index :: "'a list \<Rightarrow> int \<Rightarrow> 'a result" where
  "py_index xs i =
     (if i \<ge> int (length xs) \<or> i < - int (length xs) then Inl IndexError
      else Inr (if i < 0 then rev xs ! nat (- i - 1) else xs ! nat i))"

lemma py_index_in [simp]: "0 \<le> i \<Longrightarrow> i < int (length xs) \<Longrightarrow> py_index xs i = Inr (xs ! nat i)"
  by (simp add: py_index_def)

text \<open>A slice \<open>s[-n:]\<close> keeps the last \<open>n\<close> elements.\<close>

definition take_last :: "nat \<Rightarrow> 'a list \<Rightarrow> 'a list" where
  "take_last n xs = drop (length xs - n) xs"

lemma length_take_last [simp]: "length (take_last n xs) = min n (length xs)"
  by (simp add: take_last_def)

fun enumerate_from :: "nat \<Rightarrow> 'a list \<Rightarrow> (nat \<times> 'a) list" where
  "enumerate_from n [] = []"
| "enumerate_from n (x # xs) = (n, x) # enumerate_from (Suc n) xs"

lemma length_enumerate_from [simp]: "length (enumerate_from n xs) = length xs"
  by (induction xs arbitrary: n) auto

lemma enumerate_from_nth: "k < length xs \<Longrightarrow> enumerate_from n xs ! k = (n + k, xs ! k)"
  by (induction xs arbitrary: n k) (auto simp: nth_Cons split: nat.splits)

lemma set_enumerate_from: "set (enumerate_from n xs) = {(n + k, xs ! k) | k. k < length xs}"
proof -
  have "set (enumerate_from n xs) = {enumerate_from n xs ! k | k. k < length xs}"
    by (auto simp: set_conv_nth)
  also have "\<dots> = {(n + k, xs ! k) | k. k < length xs}"
    using enumerate_from_nth by metis
  finally show ?thesis .
qed

lemma map_snd_enumerate_from [simp]: "map snd (enumerate_from n xs) = xs"
  by (induction xs arbitrary: n) auto

lemma map_fst_enumerate_from: "map fst (enumerate_from n xs) = [n..<n + length xs]"
proof (induction xs arbitrary: n)
  case Nil
  then show ?case by simp
next
  case (Cons y ys)
  then show ?case by (simp add: upt_conv_Cons del: upt_Suc)
qed

section \<open>Python text\<close>

text \<open>\<open>str.strip\<close> removes white space at both ends; the white space of ASCII text.\<close>

definition py_space :: "char \<Rightarrow> bool" where
  "py_space c \<longleftrightarrow> of_char c \<in> ({9, 10, 11, 12, 13, 28, 29, 30, 31, 32, 133, 160} :: nat set)"

definition strip :: "string \<Rightarrow> string" where
  "strip s = rev (dropWhile py_space (rev (dropWhile py_space s)))"

lemma strip_Nil [simp]: "strip [] = []"
  by (simp add: strip_def)

lemma length_strip_le: "length (strip s) \<le> length s"
proof -
  have "length (strip s) \<le> length (dropWhile py_space s)"
    unfolding strip_def by (metis length_dropWhile_le length_rev)
  also have "\<dots> \<le> length s" by (rule length_dropWhile_le)
  finally show ?thesis .
qed

definition lower_char :: "char \<Rightarrow> char" where
  "lower_char c = (if 65 \<le> (of_char c :: nat) \<and> (of_char c :: nat) \<le> 90
                   then char_of ((of_char c :: nat) + 32) else c)"

definition lower :: "string \<Rightarrow> string" where
  "lower s = map lower_char s"

text \<open>\<open>value or default\<close> on text: the empty text and \<open>None\<close> are false.\<close>

definition or_text :: "string \<Rightarrow> string \<Rightarrow> string" where
  "or_text s d = (if s = [] then d else s)"

fun opt_or :: "string option \<Rightarrow> string \<Rightarrow> string" where
  "opt_or (Some s) d = (if s = [] then d else s)"
| "opt_or None d = d"

definition starts_with :: "string \<Rightarrow> string \<Rightarrow> bool" where
  "starts_with s p \<longleftrightarrow> take (length p) s = p"

definition ends_with :: "string \<Rightarrow> string \<Rightarrow> bool" where
  "ends_with s p \<longleftrightarrow> starts_with (rev s) (rev p)"

text \<open>\<open>p in s\<close> on text.\<close>

fun contains :: "string \<Rightarrow> string \<Rightarrow> bool" where
  "contains p [] = (p = [])"
| "contains p (c # cs) = (starts_with (c # cs) p \<or> contains p cs)"

text \<open>\<open>str\<close> of an integer.\<close>

definition digit_char :: "nat \<Rightarrow> char" where
  "digit_char d = char_of (48 + d mod 10)"

fun show_nat :: "nat \<Rightarrow> string" where
  "show_nat n = (if n < 10 then [digit_char n] else show_nat (n div 10) @ [digit_char n])"

declare show_nat.simps [simp del]

definition show_int :: "int \<Rightarrow> string" where
  "show_int n = (if n < 0 then CHR ''-'' # show_nat (nat (- n)) else show_nat (nat n))"

definition ascii_alnum :: "char \<Rightarrow> bool" where
  "ascii_alnum c \<longleftrightarrow> (let n = (of_char c :: nat) in (48 \<le> n \<and> n \<le> 57) \<or> (65 \<le> n \<and> n \<le> 90) \<or> (97 \<le> n \<and> n \<le> 122))"

section \<open>Truth and text of JSON values\<close>

fun truth :: "json \<Rightarrow> bool" where
  "truth JNull = False"
| "truth (JBool b) = b"
| "truth (JNum n) = (n \<noteq> 0)"
| "truth (JFloat x) = (x \<noteq> 0)"
| "truth (JStr s) = (s \<noteq> [])"
| "truth (JArr xs) = (xs \<noteq> [])"
| "truth (JObj kvs) = (kvs \<noteq> [])"

text \<open>\<open>str(v or "")\<close>; \<open>show\<close> is \<open>str\<close> on values that are not text.\<close>

definition text_or_empty :: "(json \<Rightarrow> string) \<Rightarrow> json option \<Rightarrow> string" where
  "text_or_empty show v =
     (case v of None \<Rightarrow> [] | Some j \<Rightarrow> if truth j then (case j of JStr s \<Rightarrow> s | _ \<Rightarrow> show j) else [])"

end
