(* ===== verification/Sql.thy ===== *)
theory Sql
  imports Prelude
begin

text \<open>
  Tables and the statements the stores issue against them. A table is the list of its rows in
  insertion order. \<open>filter P t\<close> is \<open>SELECT ... WHERE P\<close>, \<open>upd P f t\<close> is \<open>UPDATE ... SET f WHERE P\<close>,
  \<open>del P t\<close> is \<open>DELETE ... WHERE P\<close>, \<open>t @ [r]\<close> is \<open>INSERT\<close>, \<open>rowcount P t\<close> the \<open>rowcount\<close> of an
  update, \<open>fetchone\<close> the first row of a result. A comparison with NULL is false (\<open>null_lt\<close>,
  \<open>null_le\<close>). The second half states the interfaces several tables share: codes that can be
  redeemed once, and state machines with an invariant.
\<close>

section \<open>Statements\<close>

definition upd :: "('r \<Rightarrow> bool) \<Rightarrow> ('r \<Rightarrow> 'r) \<Rightarrow> 'r list \<Rightarrow> 'r list" where
  "upd P f t = map (\<lambda>r. if P r then f r else r) t"

definition del :: "('r \<Rightarrow> bool) \<Rightarrow> 'r list \<Rightarrow> 'r list" where
  "del P t = filter (\<lambda>r. \<not> P r) t"

definition rowcount :: "('r \<Rightarrow> bool) \<Rightarrow> 'r list \<Rightarrow> nat" where
  "rowcount P t = length (filter P t)"

definition fetchone :: "'r list \<Rightarrow> 'r option" where
  "fetchone rows = (case rows of [] \<Rightarrow> None | r # _ \<Rightarrow> Some r)"

definition null_lt :: "time option \<Rightarrow> time \<Rightarrow> bool" where
  "null_lt x t = (case x of None \<Rightarrow> False | Some v \<Rightarrow> v < t)"

definition null_le :: "time option \<Rightarrow> time \<Rightarrow> bool" where
  "null_le x t = (case x of None \<Rightarrow> False | Some v \<Rightarrow> v \<le> t)"

text \<open>\<open>INSERT\<close> into a table with a unique key that the program does not draw at random.\<close>

definition insert_unique :: "('r \<Rightarrow> 'k) \<Rightarrow> 'r \<Rightarrow> 'r list \<Rightarrow> 'r list result" where
  "insert_unique key r t = (if key r \<in> key ` set t then Inl IntegrityError else Inr (t @ [r]))"

text \<open>\<open>INSERT ... ON CONFLICT(key) DO UPDATE\<close>: the merge gets the stored row and the new one.\<close>

definition upsert :: "('r \<Rightarrow> 'k) \<Rightarrow> ('r \<Rightarrow> 'r \<Rightarrow> 'r) \<Rightarrow> 'r \<Rightarrow> 'r list \<Rightarrow> 'r list" where
  "upsert key merge r t =
     (if key r \<in> key ` set t then upd (\<lambda>x. key x = key r) (\<lambda>x. merge x r) t else t @ [r])"

section \<open>Facts about statements\<close>

lemma upd_Nil [simp]: "upd P f [] = []"
  by (simp add: upd_def)

lemma upd_Cons [simp]: "upd P f (r # t) = (if P r then f r else r) # upd P f t"
  by (simp add: upd_def)

lemma upd_append [simp]: "upd P f (s @ t) = upd P f s @ upd P f t"
  by (simp add: upd_def)

lemma length_upd [simp]: "length (upd P f t) = length t"
  by (simp add: upd_def)

lemma in_upd [row_simps]: "r \<in> set (upd P f t) \<longleftrightarrow> (\<exists>x \<in> set t. r = (if P x then f x else x))"
  by (auto simp: upd_def)

lemma ball_upd [row_simps]:
  "(\<forall>r \<in> set (upd P f t). Q r) \<longleftrightarrow> (\<forall>x \<in> set t. Q (if P x then f x else x))"
  by (auto simp: upd_def)

lemma upd_witness:
  "x \<in> set t \<Longrightarrow> (\<And>r. P r \<Longrightarrow> g (f r) = g r) \<Longrightarrow> \<exists>c \<in> set (upd P f t). g c = g x"
  by (rule bexI [of _ "if P x then f x else x"]) (auto simp: upd_def)

lemma in_del [row_simps]: "r \<in> set (del P t) \<longleftrightarrow> r \<in> set t \<and> \<not> P r"
  by (auto simp: del_def)

lemma upd_preserves:
  "\<forall>r \<in> set t. Q r \<Longrightarrow> (\<And>r. r \<in> set t \<Longrightarrow> P r \<Longrightarrow> Q r \<Longrightarrow> Q (f r)) \<Longrightarrow> \<forall>r \<in> set (upd P f t). Q r"
  by (auto simp: upd_def)

lemma upd_id: "(\<And>r. r \<in> set t \<Longrightarrow> \<not> P r) \<Longrightarrow> upd P f t = t"
  by (induction t) auto

lemma map_upd: "(\<And>r. r \<in> set t \<Longrightarrow> P r \<Longrightarrow> g (f r) = g r) \<Longrightarrow> map g (upd P f t) = map g t"
  by (auto simp: upd_def)

lemma image_upd: "(\<And>r. r \<in> set t \<Longrightarrow> P r \<Longrightarrow> g (f r) = g r) \<Longrightarrow> g ` set (upd P f t) = g ` set t"
  by (metis list.set_map map_upd)

lemma filter_upd_other:
  "(\<And>r. r \<in> set t \<Longrightarrow> P r \<Longrightarrow> \<not> Q r \<and> \<not> Q (f r)) \<Longrightarrow> filter Q (upd P f t) = filter Q t"
  by (induction t) auto

lemma filter_upd_same:
  "(\<And>r. r \<in> set t \<Longrightarrow> P r \<Longrightarrow> Q (f r) = Q r) \<Longrightarrow> filter Q (upd P f t) = upd P f (filter Q t)"
  by (induction t) auto

lemma filter_del_other: "(\<And>r. r \<in> set t \<Longrightarrow> P r \<Longrightarrow> \<not> Q r) \<Longrightarrow> filter Q (del P t) = filter Q t"
  by (induction t) (auto simp: del_def)

lemma fetchone_Nil [simp]: "fetchone [] = None"
  by (simp add: fetchone_def)

lemma fetchone_Cons [simp]: "fetchone (r # rs) = Some r"
  by (simp add: fetchone_def)

lemma fetchone_None [simp]: "fetchone rows = None \<longleftrightarrow> rows = []"
  by (cases rows) auto

lemma fetchone_in: "fetchone rows = Some r \<Longrightarrow> r \<in> set rows"
  by (cases rows) auto

lemma fetchone_SomeD: "fetchone (filter P t) = Some r \<Longrightarrow> r \<in> set t \<and> P r"
  by (auto dest: fetchone_in)

lemma fetchone_unique:
  assumes "distinct (map key t)" and "r \<in> set t"
  shows "fetchone (filter (\<lambda>x. key x = key r) t) = Some r"
  using assms by (induction t) (auto simp: image_iff filter_empty_conv)

lemma key_inj: "distinct (map key t) \<Longrightarrow> r \<in> set t \<Longrightarrow> r' \<in> set t \<Longrightarrow> key r = key r' \<Longrightarrow> r = r'"
  by (auto simp: distinct_map inj_on_def)

lemma upsert_image: "(\<And>x. key (merge x r) = key x) \<Longrightarrow> key ` set (upsert key merge r t) = insert (key r) (key ` set t)"
  by (auto simp: upsert_def image_upd insert_absorb)

lemma upsert_distinct:
  assumes "\<And>x. key (merge x r) = key x" and "distinct (map key t)"
  shows "distinct (map key (upsert key merge r t))"
  using assms by (auto simp: upsert_def map_upd)

lemma null_lt_simps [simp]: "null_lt None t = False" "null_lt (Some v) t = (v < t)"
  by (simp_all add: null_lt_def)

lemma null_le_simps [simp]: "null_le None t = False" "null_le (Some v) t = (v \<le> t)"
  by (simp_all add: null_le_def)

section \<open>Codes that can be redeemed once\<close>

text \<open>
  The keys redeemed by a sequence of attempts, in order. An attempt names a key and the time it
  is made; a refused attempt leaves the state as it is.
\<close>

fun redeemed :: "('k \<Rightarrow> time \<Rightarrow> 's \<Rightarrow> ('s \<times> 'r) option) \<Rightarrow> ('k \<times> time) list \<Rightarrow> 's \<Rightarrow> 'k list" where
  "redeemed redeem [] s = []"
| "redeemed redeem ((k, now) # as) s =
     (case redeem k now s of
        None \<Rightarrow> redeemed redeem as s
      | Some (s', r) \<Rightarrow> k # redeemed redeem as s')"

locale one_time =
  fixes redeem :: "'k \<Rightarrow> time \<Rightarrow> 's \<Rightarrow> ('s \<times> 'r) option"
    and dead :: "'k \<Rightarrow> 's \<Rightarrow> bool"
  assumes redeem_kills: "redeem k now s = Some (s', r) \<Longrightarrow> dead k s'"
    and dead_refuses: "dead k s \<Longrightarrow> redeem k now s = None"
    and dead_stable: "dead k s \<Longrightarrow> redeem k' now s = Some (s', r) \<Longrightarrow> dead k s'"
begin

lemma dead_never: "dead k s \<Longrightarrow> k \<notin> set (redeemed redeem as s)"
proof (induction as arbitrary: s)
  case Nil
  then show ?case by simp
next
  case (Cons a as)
  obtain k' now where a: "a = (k', now)" by (cases a)
  show ?case
  proof (cases "redeem k' now s")
    case None
    with Cons a show ?thesis by simp
  next
    case (Some sr)
    obtain s' r where sr: "sr = (s', r)" by (cases sr)
    have "k \<noteq> k'" using Some Cons.prems dead_refuses by auto
    moreover have "dead k s'" using Cons.prems Some sr dead_stable by blast
    ultimately show ?thesis using Cons.IH Some sr a by simp
  qed
qed

lemma redeemed_distinct: "distinct (redeemed redeem as s)"
proof (induction as arbitrary: s)
  case Nil
  then show ?case by simp
next
  case (Cons a as)
  then show ?case
    by (cases a) (auto split: option.splits dest: redeem_kills dead_never)
qed

end

section \<open>State machines with an invariant\<close>

inductive reach :: "('s \<Rightarrow> 's \<Rightarrow> bool) \<Rightarrow> 's \<Rightarrow> 's \<Rightarrow> bool" for step s0 where
  start: "reach step s0 s0"
| more: "reach step s0 s \<Longrightarrow> step s t \<Longrightarrow> reach step s0 t"

locale inductive_invariant =
  fixes step :: "'s \<Rightarrow> 's \<Rightarrow> bool" and s0 :: 's and inv :: "'s \<Rightarrow> bool"
  assumes inv_start: "inv s0"
    and inv_step: "inv s \<Longrightarrow> step s t \<Longrightarrow> inv t"
begin

lemma inv_reach: "reach step s0 s \<Longrightarrow> inv s"
  by (induction rule: reach.induct) (auto intro: inv_start inv_step)

end

end
