(* ===== verification/Schema.thy ===== *)
theory Schema
  imports Sql
begin

text \<open>
  The tables of the task store (\<open>src/smara/store.py\<close>, \<open>TaskStore._init\<close>): one record per
  \<open>CREATE TABLE\<close>, columns prefixed by a short table tag, nullable columns as options, closed sets
  of column values as datatypes, JSON columns as the value they encode. \<open>store\<close> is the database;
  its last field logs the wake-up signals the store publishes.
\<close>

section \<open>Task engine\<close>

datatype task_status = T_Queued | T_Running | T_Waiting | T_Cancelling | T_Completed | T_Failed | T_Cancelled
datatype run_status = R_Queued | R_Running | R_Completed | R_Failed | R_Cancelled
datatype step_status = S_Queued | S_Running | S_Completed | S_Failed | S_Cancelled
datatype exec_kind = Hosted | Desktop | Sandbox
datatype verdict = Approved | Denied

record task =
  t_id :: string
  t_account :: string
  t_workspace :: string
  t_title :: string
  t_objective :: string
  t_status :: task_status
  t_requires_approval :: bool
  t_approval_mode :: string
  t_created_at :: time
  t_updated_at :: time
  t_cancel_requested :: bool
  t_result :: "string option"

record event =
  e_id :: string
  e_task :: string
  e_type :: string
  e_payload :: json
  e_created_at :: time

record approval =
  a_task :: string
  a_status :: verdict
  a_note :: string
  a_decided_at :: time

record run =
  r_id :: string
  r_task :: string
  r_attempt :: nat
  r_status :: run_status
  r_created_at :: time

record step =
  s_id :: string
  s_task :: string
  s_run :: string
  s_ordinal :: nat
  s_name :: string
  s_status :: step_status
  s_idempotency_key :: string
  s_lease_owner :: "string option"
  s_lease_expires :: "time option"
  s_created_at :: time
  s_attempts :: int
  s_max_attempts :: int
  s_retry_at :: "time option"
  s_last_error :: "string option"
  s_capability :: "string option"
  s_kind :: exec_kind
  s_payload :: json

record dep =
  d_step :: string
  d_parent :: string

record evidence =
  v_id :: string
  v_task :: string
  v_url :: string
  v_title :: "string option"
  v_status :: string
  v_retrieved_at :: "string option"
  v_published_at :: "string option"
  v_content_sha256 :: "string option"
  v_excerpt :: "string option"
  v_claim :: "string option"
  v_confidence :: "rat option"
  v_citation_label :: "string option"
  v_error :: "string option"
  v_domain_policy :: string
  v_quality_flags :: "string list"
  v_agreement_count :: int
  v_verification_notes :: "string option"
  v_created_at :: time

record artifact =
  f_id :: string
  f_task :: string
  f_kind :: string
  f_name :: string
  f_uri :: string
  f_sha256 :: string
  f_content :: string
  f_created_at :: time

record dead_letter =
  l_id :: string
  l_task :: string
  l_step :: string
  l_account :: string
  l_error :: string
  l_attempts :: int
  l_created_at :: time
  l_resolved_at :: "time option"

section \<open>Paired desktops\<close>

datatype executor_status = X_Active | X_Revoked

record executor =
  x_id :: string
  x_account :: string
  x_name :: string
  x_capabilities :: "string list"
  x_token_hash :: string
  x_status :: executor_status
  x_last_seen :: time
  x_created_at :: time

record pairing =
  p_code_hash :: string
  p_account :: string
  p_name :: string
  p_capabilities :: "string list"
  p_expires_at :: time
  p_consumed_at :: "time option"

record lease =
  z_id :: string
  z_step :: string
  z_executor :: string
  z_expires_at :: time
  z_completed_at :: "time option"
  z_created_at :: time

section \<open>Integrations\<close>

datatype act_status = A_Blocked | A_Draft | A_Awaiting | A_Approved | A_Denied | A_Running | A_Completed | A_Failed
datatype act_risk = Read_Risk | External_Risk

record connection =
  c_id :: string
  c_account :: string
  c_provider :: string
  c_display_name :: string
  c_policy :: string
  c_scopes :: "string list"
  c_health :: string
  c_created_at :: time
  c_updated_at :: time

record action =
  q_id :: string
  q_account :: string
  q_connection :: string
  q_action :: string
  q_preview :: string
  q_idempotency_key :: string
  q_risk :: act_risk
  q_status :: act_status
  q_payload :: json
  q_note :: string
  q_lease_owner :: "string option"
  q_lease_expires :: "time option"
  q_attempts :: int
  q_max_attempts :: int
  q_retry_at :: "time option"
  q_last_error :: "string option"
  q_result :: "string option"
  q_created_at :: time

record credential =
  k_connection :: string
  k_kind :: string
  k_secret :: string
  k_updated_at :: time

record oauth_state =
  o_state_hash :: string
  o_account :: string
  o_provider :: string
  o_verifier :: string
  o_expires_at :: time
  o_consumed_at :: "time option"

section \<open>Notifications\<close>

record subscription =
  u_endpoint :: string
  u_account :: string
  u_p256dh :: string
  u_auth :: string
  u_created_at :: time
  u_updated_at :: time

record notification =
  n_id :: string
  n_account :: string
  n_message :: string
  n_title :: string
  n_url :: string
  n_created_at :: time
  n_read_at :: "time option"

section \<open>Command-line devices\<close>

record cli_pairing =
  cp_code_hash :: string
  cp_account :: string
  cp_name :: string
  cp_expires_at :: time
  cp_consumed_at :: "time option"

record cli_request =
  cr_code_hash :: string
  cr_name :: string
  cr_account :: "string option"
  cr_expires_at :: time
  cr_approved_at :: "time option"
  cr_consumed_at :: "time option"

record cli_device =
  cd_jti_hash :: string
  cd_account :: string
  cd_name :: string
  cd_expires_at :: time
  cd_created_at :: time
  cd_last_seen :: "time option"
  cd_revoked_at :: "time option"

section \<open>Conversations\<close>

datatype role = User | Assistant

record conversation =
  cv_id :: string
  cv_account :: string
  cv_workspace :: string
  cv_summary :: string
  cv_summarized :: int
  cv_next_seq :: int
  cv_created_at :: time
  cv_updated_at :: time

record turn =
  tu_id :: string
  tu_conversation :: string
  tu_account :: string
  tu_sequence :: int
  tu_role :: role
  tu_content :: string
  tu_model :: "string option"
  tu_created_at :: time

record fact =
  fa_account :: string
  fa_workspace :: string
  fa_key :: string
  fa_value :: string
  fa_source :: string
  fa_updated_at :: time

section \<open>Schedules and skills\<close>

text \<open>One element of the \<open>steps\<close> argument (\<open>TaskStepInput\<close>), defaults filled in.\<close>

record step_in =
  i_name :: string
  i_depends_on :: "int list"
  i_kind :: exec_kind
  i_capability :: "string option"
  i_payload :: json

record schedule =
  h_id :: string
  h_account :: string
  h_workspace :: string
  h_title :: string
  h_objective :: string
  h_interval :: int
  h_steps :: "step_in list"
  h_requires_approval :: bool
  h_next_run :: time
  h_enabled :: bool
  h_last_run :: "time option"
  h_last_task :: "string option"
  h_lease_owner :: "string option"
  h_lease_expires :: "time option"
  h_created_at :: time
  h_updated_at :: time

datatype skill_state = K_Draft | K_Tested | K_Published | K_Deprecated

record skill =
  sk_id :: string
  sk_account :: string
  sk_name :: string
  sk_version :: string
  sk_manifest :: json
  sk_state :: skill_state
  sk_fingerprint :: string
  sk_tested :: bool
  sk_test_run :: "string option"
  sk_approved_by :: "string option"
  sk_created_at :: time
  sk_updated_at :: time

section \<open>The database\<close>

record store =
  tasks :: "task list"
  events :: "event list"
  approvals :: "approval list"
  runs :: "run list"
  steps :: "step list"
  deps :: "dep list"
  evidences :: "evidence list"
  artifacts :: "artifact list"
  dead_letters :: "dead_letter list"
  executors :: "executor list"
  pairings :: "pairing list"
  leases :: "lease list"
  connections :: "connection list"
  actions :: "action list"
  credentials :: "credential list"
  oauth_states :: "oauth_state list"
  subscriptions :: "subscription list"
  notifications :: "notification list"
  cli_pairings :: "cli_pairing list"
  cli_requests :: "cli_request list"
  cli_devices :: "cli_device list"
  conversations :: "conversation list"
  turns :: "turn list"
  facts :: "fact list"
  schedules :: "schedule list"
  skills :: "skill list"
  signals :: "(string \<times> string option) list"

definition empty_store :: store where
  "empty_store = \<lparr>tasks = [], events = [], approvals = [], runs = [], steps = [], deps = [],
     evidences = [], artifacts = [], dead_letters = [], executors = [], pairings = [], leases = [],
     connections = [], actions = [], credentials = [], oauth_states = [], subscriptions = [],
     notifications = [], cli_pairings = [], cli_requests = [], cli_devices = [], conversations = [],
     turns = [], facts = [], schedules = [], skills = [], signals = []\<rparr>"

text \<open>\<open>self.signals.publish(event, task_id=...)\<close>, a hint sent after the commit.\<close>

definition publish :: "string \<Rightarrow> string option \<Rightarrow> store \<Rightarrow> store" where
  "publish kind tid db = db\<lparr>signals := signals db @ [(kind, tid)]\<rparr>"

text \<open>\<open>INSERT INTO task_events VALUES(...)\<close> with a fresh event id.\<close>

definition add_event :: "string \<Rightarrow> string \<Rightarrow> string \<Rightarrow> json \<Rightarrow> time \<Rightarrow> store \<Rightarrow> store" where
  "add_event u tid kind payload now db =
     db\<lparr>events := events db @ [\<lparr>e_id = ''evt_'' @ u, e_task = tid, e_type = kind,
                                e_payload = payload, e_created_at = now\<rparr>]\<rparr>"

text \<open>\<open>UPDATE\<close> of the task engine's tables.\<close>

definition upd_tasks :: "(task \<Rightarrow> bool) \<Rightarrow> (task \<Rightarrow> task) \<Rightarrow> store \<Rightarrow> store" where
  "upd_tasks P f db = db\<lparr>tasks := upd P f (tasks db)\<rparr>"

definition upd_steps :: "(step \<Rightarrow> bool) \<Rightarrow> (step \<Rightarrow> step) \<Rightarrow> store \<Rightarrow> store" where
  "upd_steps P f db = db\<lparr>steps := upd P f (steps db)\<rparr>"

definition upd_runs :: "(run \<Rightarrow> bool) \<Rightarrow> (run \<Rightarrow> run) \<Rightarrow> store \<Rightarrow> store" where
  "upd_runs P f db = db\<lparr>runs := upd P f (runs db)\<rparr>"

definition upd_leases :: "(lease \<Rightarrow> bool) \<Rightarrow> (lease \<Rightarrow> lease) \<Rightarrow> store \<Rightarrow> store" where
  "upd_leases P f db = db\<lparr>leases := upd P f (leases db)\<rparr>"

lemma publish_simps [simp]:
  "tasks (publish k t db) = tasks db" "events (publish k t db) = events db"
  "approvals (publish k t db) = approvals db" "runs (publish k t db) = runs db"
  "steps (publish k t db) = steps db" "deps (publish k t db) = deps db"
  "leases (publish k t db) = leases db" "dead_letters (publish k t db) = dead_letters db"
  "artifacts (publish k t db) = artifacts db" "executors (publish k t db) = executors db"
  "schedules (publish k t db) = schedules db"
  by (simp_all add: publish_def)

lemma add_event_simps [simp]:
  "tasks (add_event u tid k p n db) = tasks db" "approvals (add_event u tid k p n db) = approvals db"
  "runs (add_event u tid k p n db) = runs db" "steps (add_event u tid k p n db) = steps db"
  "deps (add_event u tid k p n db) = deps db" "leases (add_event u tid k p n db) = leases db"
  "dead_letters (add_event u tid k p n db) = dead_letters db"
  "artifacts (add_event u tid k p n db) = artifacts db"
  "executors (add_event u tid k p n db) = executors db"
  "schedules (add_event u tid k p n db) = schedules db"
  by (simp_all add: add_event_def)

lemma upd_tasks_simps [simp]:
  "tasks (upd_tasks P f db) = upd P f (tasks db)" "events (upd_tasks P f db) = events db"
  "approvals (upd_tasks P f db) = approvals db" "runs (upd_tasks P f db) = runs db"
  "steps (upd_tasks P f db) = steps db" "deps (upd_tasks P f db) = deps db"
  "leases (upd_tasks P f db) = leases db" "dead_letters (upd_tasks P f db) = dead_letters db"
  "artifacts (upd_tasks P f db) = artifacts db" "executors (upd_tasks P f db) = executors db"
  "schedules (upd_tasks P f db) = schedules db"
  by (simp_all add: upd_tasks_def)

lemma upd_steps_simps [simp]:
  "steps (upd_steps P g db) = upd P g (steps db)" "events (upd_steps P g db) = events db"
  "approvals (upd_steps P g db) = approvals db" "runs (upd_steps P g db) = runs db"
  "tasks (upd_steps P g db) = tasks db" "deps (upd_steps P g db) = deps db"
  "leases (upd_steps P g db) = leases db" "dead_letters (upd_steps P g db) = dead_letters db"
  "artifacts (upd_steps P g db) = artifacts db" "executors (upd_steps P g db) = executors db"
  "schedules (upd_steps P g db) = schedules db"
  by (simp_all add: upd_steps_def)

lemma upd_runs_simps [simp]:
  "runs (upd_runs P g db) = upd P g (runs db)" "events (upd_runs P g db) = events db"
  "approvals (upd_runs P g db) = approvals db" "steps (upd_runs P g db) = steps db"
  "tasks (upd_runs P g db) = tasks db" "deps (upd_runs P g db) = deps db"
  "leases (upd_runs P g db) = leases db" "dead_letters (upd_runs P g db) = dead_letters db"
  "artifacts (upd_runs P g db) = artifacts db" "executors (upd_runs P g db) = executors db"
  "schedules (upd_runs P g db) = schedules db"
  by (simp_all add: upd_runs_def)

lemma upd_leases_simps [simp]:
  "leases (upd_leases P g db) = upd P g (leases db)" "events (upd_leases P g db) = events db"
  "approvals (upd_leases P g db) = approvals db" "steps (upd_leases P g db) = steps db"
  "tasks (upd_leases P g db) = tasks db" "deps (upd_leases P g db) = deps db"
  "runs (upd_leases P g db) = runs db" "dead_letters (upd_leases P g db) = dead_letters db"
  "artifacts (upd_leases P g db) = artifacts db" "executors (upd_leases P g db) = executors db"
  "schedules (upd_leases P g db) = schedules db"
  by (simp_all add: upd_leases_def)

end
