(* ===== verification/Models.thy ===== *)
theory Models
  imports Schema
begin

text \<open>
  The validators of the request models (\<open>src/smara/models.py\<close>) that the task graph rests on.
  Field constraints (lengths, ranges) are pydantic's and are not modelled; the bodies of the
  \<open>model_validator\<close>s are.
\<close>

text \<open>\<open>TaskStepInput.validate_executor_contract\<close>. A capability is non-empty by its field constraint,
  so \<open>not self.required_capability\<close> is \<open>None\<close>.\<close>

definition validate_executor_contract :: "step_in \<Rightarrow> step_in result" where
  "validate_executor_contract i =
     (if i_kind i \<in> {Desktop, Sandbox} \<and> (i_capability i = None \<or> i_capability i = Some [])
      then Inl (ValueError ''desktop and sandbox steps must declare a required_capability'')
      else Inr i)"

text \<open>The loop of \<open>validate_step_graph\<close>: every step depends on earlier, distinct steps.\<close>

fun check_depends :: "(nat \<times> step_in) list \<Rightarrow> unit result" where
  "check_depends [] = Inr ()"
| "check_depends ((index, i) # rest) =
     (if card (set (i_depends_on i)) \<noteq> length (i_depends_on i)
      then Inl (ValueError ''a step cannot depend on the same step twice'')
      else if \<exists>parent \<in> set (i_depends_on i). parent < 0 \<or> parent \<ge> int index
      then Inl (ValueError ''steps may only depend on earlier steps'')
      else check_depends rest)"

text \<open>\<open>TaskCreate.validate_step_graph\<close>.\<close>

definition validate_step_graph :: "bool \<Rightarrow> step_in list \<Rightarrow> unit result" where
  "validate_step_graph requires_approval ins =
     (if \<not> requires_approval \<and> (\<exists>i \<in> set ins. i_kind i \<in> {Desktop, Sandbox})
      then Inl (ValueError ''desktop and sandbox work must require approval'')
      else check_depends (enumerate_from 0 ins))"

text \<open>\<open>ScheduleCreate.validate_step_graph\<close>, the same checks on a schedule's steps.\<close>

definition validate_schedule_graph :: "bool \<Rightarrow> step_in list \<Rightarrow> unit result" where
  "validate_schedule_graph requires_approval ins =
     (if \<not> requires_approval \<and> (\<exists>i \<in> set ins. i_kind i \<in> {Desktop, Sandbox})
      then Inl (ValueError ''desktop and sandbox work must require approval'')
      else check_depends (enumerate_from 0 ins))"

text \<open>What an accepted graph is.\<close>

definition graph_ok :: "step_in list \<Rightarrow> bool" where
  "graph_ok ins \<longleftrightarrow> (\<forall>k < length ins. distinct (i_depends_on (ins ! k)) \<and>
     (\<forall>p \<in> set (i_depends_on (ins ! k)). 0 \<le> p \<and> p < int k))"

lemma check_depends_ok:
  "check_depends (enumerate_from n ins) = Inr () \<longleftrightarrow>
     (\<forall>k < length ins. distinct (i_depends_on (ins ! k)) \<and>
        (\<forall>p \<in> set (i_depends_on (ins ! k)). 0 \<le> p \<and> p < int (n + k)))"
proof (induction ins arbitrary: n)
  case Nil
  then show ?case by simp
next
  case (Cons i ins)
  have card: "card (set xs) = length xs \<longleftrightarrow> distinct xs" for xs :: "int list"
    using card_distinct distinct_card by auto
  have guard: "(\<exists>p \<in> A. p < 0 \<or> p \<ge> int n) \<longleftrightarrow> \<not> (\<forall>p \<in> A. 0 \<le> p \<and> p < int n)" for A :: "int set"
    by (meson linorder_not_less)
  show ?case
    by (simp add: Cons.IH card guard All_less_Suc2 ac_simps)
qed

lemma validate_step_graph_ok:
  "validate_step_graph req ins = Inr () \<longleftrightarrow>
     graph_ok ins \<and> (req \<or> (\<forall>i \<in> set ins. i_kind i = Hosted))"
proof -
  have "i_kind i \<notin> {Desktop, Sandbox} \<longleftrightarrow> i_kind i = Hosted" for i :: step_in
    by (cases "i_kind i") auto
  then show ?thesis
    by (auto simp: validate_step_graph_def graph_ok_def check_depends_ok[of 0, simplified])
qed

end
