(* ===== verification/TaskStore.thy ===== *)
theory TaskStore
  imports Models
begin

text \<open>
  \<open>src/smara/store.py\<close>: creating tasks with their step graph, and the account-scoped reads of
  tasks, steps, events and artifacts.
\<close>

section \<open>Inserting a task\<close>

definition default_steps :: "step_in list" where
  "default_steps = [\<lparr>i_name = ''agent.execute'', i_depends_on = [], i_kind = Hosted,
                     i_capability = None, i_payload = JObj []\<rparr>]"

definition step_id :: "env \<Rightarrow> nat \<Rightarrow> string" where
  "step_id e k = ''step_'' @ uuid e [2, k]"

definition idempotency_key :: "string \<Rightarrow> nat \<Rightarrow> string" where
  "idempotency_key tid ordinal = ''task:'' @ tid @ '':step:'' @ show_nat ordinal"

definition step_row :: "env \<Rightarrow> string \<Rightarrow> string \<Rightarrow> time \<Rightarrow> nat \<Rightarrow> step_in \<Rightarrow> step" where
  "step_row e tid rid now k i =
     \<lparr>s_id = step_id e k, s_task = tid, s_run = rid, s_ordinal = Suc k, s_name = i_name i,
      s_status = S_Queued, s_idempotency_key = idempotency_key tid (Suc k),
      s_lease_owner = None, s_lease_expires = None, s_created_at = now, s_attempts = 0,
      s_max_attempts = 3, s_retry_at = None, s_last_error = None, s_capability = i_capability i,
      s_kind = i_kind i, s_payload = i_payload i\<rparr>"

definition step_rows :: "env \<Rightarrow> string \<Rightarrow> string \<Rightarrow> time \<Rightarrow> step_in list \<Rightarrow> step list" where
  "step_rows e tid rid now ins = map (\<lambda>(k, i). step_row e tid rid now k i) (enumerate_from 0 ins)"

text \<open>
  The dependency rows. The table has the primary key \<open>(step_id, depends_on_step_id)\<close> and the check
  \<open>step_id <> depends_on_step_id\<close>; \<open>step_ids[parent]\<close> is Python indexing.
\<close>

definition insert_dep :: "string \<Rightarrow> string \<Rightarrow> dep list \<Rightarrow> dep list result" where
  "insert_dep child parent ds =
     (if child = parent then Inl IntegrityError
      else insert_unique (\<lambda>d. (d_step d, d_parent d)) \<lparr>d_step = child, d_parent = parent\<rparr> ds)"

fun add_parents :: "string list \<Rightarrow> string \<Rightarrow> int list \<Rightarrow> dep list \<Rightarrow> dep list result" where
  "add_parents ids child [] ds = Inr ds"
| "add_parents ids child (p # ps) ds =
     andThen (py_index ids p) (\<lambda>parent.
     andThen (insert_dep child parent ds) (add_parents ids child ps))"

fun add_deps :: "string list \<Rightarrow> (nat \<times> step_in) list \<Rightarrow> dep list \<Rightarrow> dep list result" where
  "add_deps ids [] ds = Inr ds"
| "add_deps ids ((k, i) # rest) ds =
     andThen (add_parents ids (ids ! k) (i_depends_on i) ds) (add_deps ids rest)"

text \<open>
  \<open>_insert_task\<close>. The transaction rolls back on an exception, so an error leaves no new state.
\<close>

definition insert_task ::
  "env \<Rightarrow> string \<Rightarrow> string \<Rightarrow> string \<Rightarrow> string \<Rightarrow> bool \<Rightarrow> step_in list \<Rightarrow> string \<Rightarrow> time \<Rightarrow> store \<Rightarrow>
   (store \<times> string) result" where
  "insert_task e acct ws title objective req ins mode now db =
     (let tid = ''task_'' @ uuid e [0];
          rid = ''run_'' @ uuid e [1];
          ins = (if ins = [] then default_steps else ins);
          mode = (if \<exists>i \<in> set ins. i_kind i = Desktop then ''desktop'' else mode);
          rows = step_rows e tid rid now ins
      in if mode \<noteq> ''hosted'' \<and> mode \<noteq> ''desktop'' then Inl (ValueError ''Unknown approval mode.'')
         else andThen (add_deps (map s_id rows) (enumerate_from 0 ins) (deps db)) (\<lambda>ds.
           let db = db\<lparr>tasks := tasks db @ [\<lparr>t_id = tid, t_account = acct, t_workspace = ws,
                        t_title = title, t_objective = objective, t_status = T_Queued,
                        t_requires_approval = req, t_approval_mode = mode, t_created_at = now,
                        t_updated_at = now, t_cancel_requested = False, t_result = None\<rparr>],
                      runs := runs db @ [\<lparr>r_id = rid, r_task = tid, r_attempt = 1,
                        r_status = R_Queued, r_created_at = now\<rparr>],
                      steps := steps db @ rows, deps := ds\<rparr>
           in Inr (add_event (uuid e [3]) tid ''task.created'' (JObj [(''source'', JStr ''api'')]) now db,
                   tid)))"

section \<open>Reads\<close>

definition get_task :: "string \<Rightarrow> string \<Rightarrow> store \<Rightarrow> task result" where
  "get_task tid acct db =
     (case fetchone (filter (\<lambda>t. t_id t = tid \<and> t_account t = acct) (tasks db)) of
        None \<Rightarrow> Inl (KeyError tid)
      | Some t \<Rightarrow> Inr t)"

definition list_tasks :: "string \<Rightarrow> store \<Rightarrow> task list" where
  "list_tasks acct db = sort_key (\<lambda>t. - t_created_at t) (filter (\<lambda>t. t_account t = acct) (tasks db))"

abbreviation event_key :: "event \<Rightarrow> time \<times> string" where
  "event_key ev \<equiv> (e_created_at ev, e_id ev)"

definition task_events :: "string \<Rightarrow> string \<Rightarrow> store \<Rightarrow> event list result" where
  "task_events tid acct db =
     andThen (get_task tid acct db) (\<lambda>_.
       Inr (sort_key event_key (filter (\<lambda>ev. e_task ev = tid) (events db))))"

definition events_after :: "string \<Rightarrow> string \<Rightarrow> string option \<Rightarrow> store \<Rightarrow> event list result" where
  "events_after tid acct cursor db =
     andThen (get_task tid acct db) (\<lambda>_.
       let all_events = sort_key event_key (filter (\<lambda>ev. e_task ev = tid) (events db)) in
       case cursor of
         None \<Rightarrow> Inr all_events
       | Some eid \<Rightarrow>
           (if eid = [] then Inr all_events
            else case fetchone (filter (\<lambda>ev. e_id ev = eid \<and> e_task ev = tid) (events db)) of
              None \<Rightarrow> Inr all_events
            | Some row \<Rightarrow> Inr (sort_key event_key
                (filter (\<lambda>ev. e_task ev = tid \<and>
                   (e_created_at ev > e_created_at row \<or>
                    e_created_at ev = e_created_at row \<and> e_id ev > e_id row)) (events db)))))"

definition task_steps :: "string \<Rightarrow> string \<Rightarrow> store \<Rightarrow> step list result" where
  "task_steps tid acct db =
     andThen (get_task tid acct db) (\<lambda>_.
       Inr (sort_key s_ordinal (filter (\<lambda>s. s_task s = tid) (steps db))))"

definition task_is_approved :: "string \<Rightarrow> string \<Rightarrow> store \<Rightarrow> bool result" where
  "task_is_approved tid acct db =
     andThen (get_task tid acct db) (\<lambda>_.
       Inr (case fetchone (filter (\<lambda>a. a_task a = tid) (approvals db)) of
              None \<Rightarrow> False
            | Some a \<Rightarrow> a_status a = Approved))"

definition list_dead_letters :: "string \<Rightarrow> store \<Rightarrow> dead_letter list" where
  "list_dead_letters acct db =
     sort_key (\<lambda>l. - l_created_at l) (filter (\<lambda>l. l_account l = acct) (dead_letters db))"

section \<open>Creating and appending\<close>

definition create_task ::
  "env \<Rightarrow> string \<Rightarrow> string \<Rightarrow> string \<Rightarrow> string \<Rightarrow> bool \<Rightarrow> step_in list \<Rightarrow> string \<Rightarrow> store \<Rightarrow>
   (store \<times> task) result" where
  "create_task e acct ws title objective req ins mode db =
     andThen (insert_task e acct ws title objective req ins mode (clk e 0) db) (\<lambda>(db, tid).
     andThen (get_task tid acct db) (\<lambda>t. Inr (publish ''task.created'' (Some tid) db, t)))"

definition append_event :: "env \<Rightarrow> string \<Rightarrow> string \<Rightarrow> json \<Rightarrow> store \<Rightarrow> store" where
  "append_event e tid kind payload db =
     publish kind (Some tid) (add_event (uuid e [0]) tid kind payload (clk e 0) db)"

definition create_artifact ::
  "env \<Rightarrow> string \<Rightarrow> string \<Rightarrow> string \<Rightarrow> string \<Rightarrow> string \<Rightarrow> store \<Rightarrow> (store \<times> artifact) result" where
  "create_artifact e tid acct kind name content db =
     andThen (get_task tid acct db) (\<lambda>_.
       let fid = ''artifact_'' @ uuid e [0];
           row = \<lparr>f_id = fid, f_task = tid, f_kind = kind, f_name = name,
                  f_uri = ''inline://artifacts/'' @ fid, f_sha256 = sha256 e content,
                  f_content = content, f_created_at = clk e 0\<rparr>;
           db = db\<lparr>artifacts := artifacts db @ [row]\<rparr>
       in Inr (append_event (sub_env e 1) tid ''artifact.created'' (JObj [(''kind'', JStr kind)]) db, row))"

definition list_artifacts :: "string \<Rightarrow> string \<Rightarrow> store \<Rightarrow> artifact list result" where
  "list_artifacts tid acct db =
     andThen (get_task tid acct db) (\<lambda>_.
       Inr (sort_key (\<lambda>f. (f_created_at f, f_id f)) (filter (\<lambda>f. f_task f = tid) (artifacts db))))"

text \<open>\<open>create_capture\<close>: a one-step inbox task and the captured content as its artifact.\<close>

definition create_capture ::
  "env \<Rightarrow> string \<Rightarrow> string \<Rightarrow> string \<Rightarrow> string \<Rightarrow> string \<Rightarrow> store \<Rightarrow> (store \<times> task \<times> artifact) result" where
  "create_capture e acct kind title content mime db =
     andThen (create_task (sub_env e 0) acct ''inbox'' title (kind @ '' capture awaiting processing'') False
                [\<lparr>i_name = ''capture.process'', i_depends_on = [], i_kind = Hosted,
                  i_capability = None, i_payload = JObj []\<rparr>] ''hosted'' db) (\<lambda>(db, t).
     andThen (create_artifact (sub_env e 1) (t_id t) acct (''capture:'' @ kind @ '':'' @ mime) title content db)
       (\<lambda>(db, f). Inr (db, t, f)))"

section \<open>Facts\<close>

lemma get_task_Inr:
  "get_task tid acct db = Inr t \<Longrightarrow> t \<in> set (tasks db) \<and> t_id t = tid \<and> t_account t = acct"
  by (auto simp: get_task_def split: option.splits dest: fetchone_SomeD)

lemma get_task_Inl:
  "get_task tid acct db = Inl err \<longleftrightarrow>
     err = KeyError tid \<and> (\<forall>t \<in> set (tasks db). t_id t = tid \<longrightarrow> t_account t \<noteq> acct)"
  by (auto simp: get_task_def filter_empty_conv split: option.splits dest: fetchone_SomeD)

lemma get_task_unique:
  assumes "distinct (map t_id (tasks db))" and "t \<in> set (tasks db)"
  shows "get_task (t_id t) (t_account t) db = Inr t"
proof -
  have "filter (\<lambda>x. t_id x = t_id t \<and> t_account x = t_account t) (tasks db)
      = filter (\<lambda>x. t_id x = t_id t) (tasks db)"
    using assms by (intro filter_cong) (auto dest: key_inj)
  then show ?thesis
    using fetchone_unique [OF assms] by (simp add: get_task_def)
qed

lemma step_rows_simps [simp]:
  "map s_id (step_rows e tid rid now ins) = map (step_id e) [0..<length ins]"
  "length (step_rows e tid rid now ins) = length ins"
proof -
  have "map s_id (step_rows e tid rid now ins) = map (step_id e) (map fst (enumerate_from 0 ins))"
    by (simp add: step_rows_def step_row_def case_prod_beta)
  then show "map s_id (step_rows e tid rid now ins) = map (step_id e) [0..<length ins]"
    by (simp add: map_fst_enumerate_from)
qed (simp add: step_rows_def)

lemma in_step_rows:
  "s \<in> set (step_rows e tid rid now ins) \<longleftrightarrow> (\<exists>k < length ins. s = step_row e tid rid now k (ins ! k))"
  by (auto simp: step_rows_def set_enumerate_from image_iff)

section \<open>An accepted graph is always inserted\<close>

text \<open>The random identifiers are new to the database (what \<open>uuid4\<close> is relied on for).\<close>

definition fresh :: "env \<Rightarrow> store \<Rightarrow> bool" where
  "fresh e db \<longleftrightarrow> inj (uuid e) \<and>
     (\<forall>p. ''task_'' @ uuid e p \<notin> t_id ` set (tasks db) \<and>
          ''run_'' @ uuid e p \<notin> r_id ` set (runs db) \<and>
          ''step_'' @ uuid e p \<notin> s_id ` set (steps db) \<and>
          ''step_'' @ uuid e p \<notin> d_step ` set (deps db) \<and>
          ''step_'' @ uuid e p \<notin> d_parent ` set (deps db))"

lemma step_id_inj: "inj (uuid e) \<Longrightarrow> step_id e j = step_id e k \<longleftrightarrow> j = k"
  by (auto simp: step_id_def dest: injD)

text \<open>The dependency rows of a graph, in insertion order.\<close>

definition parent_deps :: "env \<Rightarrow> nat \<Rightarrow> int list \<Rightarrow> dep list" where
  "parent_deps e k ps = map (\<lambda>p. \<lparr>d_step = step_id e k, d_parent = step_id e (nat p)\<rparr>) ps"

definition graph_deps :: "env \<Rightarrow> nat \<Rightarrow> step_in list \<Rightarrow> dep list" where
  "graph_deps e n ins = concat (map (\<lambda>(k, i). parent_deps e k (i_depends_on i)) (enumerate_from n ins))"

lemma add_parents_ok:
  assumes "inj (uuid e)" and "k < n" and "distinct ps" and "\<forall>p \<in> set ps. 0 \<le> p \<and> p < int k"
    and "\<forall>p \<in> set ps. (step_id e k, step_id e (nat p)) \<notin> (\<lambda>d. (d_step d, d_parent d)) ` set ds"
  shows "add_parents (map (step_id e) [0..<n]) (step_id e k) ps ds = Inr (ds @ parent_deps e k ps)"
  using assms(3,4,5)
proof (induction ps arbitrary: ds)
  case Nil
  then show ?case by (simp add: parent_deps_def)
next
  case (Cons p ps)
  let ?d = "\<lparr>d_step = step_id e k, d_parent = step_id e (nat p)\<rparr>"
  have p: "0 \<le> p" "p < int k" using Cons.prems(2) by auto
  have ins: "insert_dep (step_id e k) (step_id e (nat p)) ds = Inr (ds @ [?d])"
    using Cons.prems(3) p by (auto simp: insert_dep_def insert_unique_def step_id_inj [OF assms(1)])
  have "(step_id e k, step_id e (nat q)) \<notin> (\<lambda>d. (d_step d, d_parent d)) ` set (ds @ [?d])"
    if "q \<in> set ps" for q
  proof -
    have "0 \<le> q" "q \<noteq> p" using that Cons.prems(1,2) by auto
    then have "nat q \<noteq> nat p" using p(1) by simp
    then show ?thesis using Cons.prems(3) that by (auto simp: step_id_inj [OF assms(1)])
  qed
  then have "add_parents (map (step_id e) [0..<n]) (step_id e k) ps (ds @ [?d])
      = Inr ((ds @ [?d]) @ parent_deps e k ps)"
    using Cons.prems by (intro Cons.IH) auto
  then show ?case using ins p assms(2) by (simp add: parent_deps_def)
qed

lemma add_deps_ok:
  assumes "inj (uuid e)" and "n + length ins \<le> m"
    and "\<forall>k < length ins. distinct (i_depends_on (ins ! k)) \<and>
           (\<forall>p \<in> set (i_depends_on (ins ! k)). 0 \<le> p \<and> p < int (n + k))"
    and "\<forall>k \<ge> n. step_id e k \<notin> d_step ` set ds"
  shows "add_deps (map (step_id e) [0..<m]) (enumerate_from n ins) ds = Inr (ds @ graph_deps e n ins)"
  using assms(2,3,4)
proof (induction ins arbitrary: n ds)
  case Nil
  then show ?case by (simp add: graph_deps_def)
next
  case (Cons i ins)
  have first: "distinct (i_depends_on i)" "\<forall>p \<in> set (i_depends_on i). 0 \<le> p \<and> p < int n"
    using Cons.prems(2) by (auto dest: spec [of _ 0])
  have rest: "\<forall>k < length ins. distinct (i_depends_on (ins ! k)) \<and>
      (\<forall>p \<in> set (i_depends_on (ins ! k)). 0 \<le> p \<and> p < int (Suc n + k))"
  proof (intro allI impI)
    fix k assume "k < length ins"
    then show "distinct (i_depends_on (ins ! k)) \<and>
      (\<forall>p \<in> set (i_depends_on (ins ! k)). 0 \<le> p \<and> p < int (Suc n + k))"
      using Cons.prems(2) [rule_format, of "Suc k"] by (simp add: ac_simps)
  qed
  have new: "step_id e n \<notin> d_step ` set ds" using Cons.prems(3) by blast
  have par: "add_parents (map (step_id e) [0..<m]) (step_id e n) (i_depends_on i) ds
      = Inr (ds @ parent_deps e n (i_depends_on i))"
    using first new Cons.prems(1) by (intro add_parents_ok [OF assms(1)]) (auto simp: image_iff)
  have "\<forall>k \<ge> Suc n. step_id e k \<notin> d_step ` set (ds @ parent_deps e n (i_depends_on i))"
  proof (intro allI impI)
    fix k assume "Suc n \<le> k"
    then have "step_id e k \<notin> d_step ` set ds" using Cons.prems(3) by simp
    with \<open>Suc n \<le> k\<close> show "step_id e k \<notin> d_step ` set (ds @ parent_deps e n (i_depends_on i))"
      by (auto simp: parent_deps_def step_id_inj [OF assms(1)])
  qed
  then have "add_deps (map (step_id e) [0..<m]) (enumerate_from (Suc n) ins)
        (ds @ parent_deps e n (i_depends_on i))
      = Inr ((ds @ parent_deps e n (i_depends_on i)) @ graph_deps e (Suc n) ins)"
    using Cons.prems(1) rest by (intro Cons.IH) auto
  moreover have "map (step_id e) [0..<m] ! n = step_id e n" using Cons.prems(1) by simp
  ultimately show ?case using par by (simp add: graph_deps_def)
qed

lemma graph_ok_default: "graph_ok default_steps"
  by (simp add: graph_ok_def default_steps_def)

lemma insert_task_deps:
  assumes "fresh e db" and "graph_ok ins"
  shows "add_deps (map (step_id e) [0..<length ins]) (enumerate_from 0 ins) (deps db)
         = Inr (deps db @ graph_deps e 0 ins)"
  using assms by (intro add_deps_ok) (auto simp: fresh_def graph_ok_def step_id_def)

end
