(* ===== verification/Lifecycle.thy ===== *)
theory Lifecycle
  imports TaskStore
begin

text \<open>
  \<open>src/smara/store.py\<close>: the user's decisions on a task: \<open>request_approval\<close>, \<open>decide\<close>, \<open>cancel\<close>
  and \<open>retry_task\<close>. Every operation returns the new database and its result, or the exception.
\<close>

abbreviation task_is :: "string \<Rightarrow> task \<Rightarrow> bool" where
  "task_is tid t \<equiv> t_id t = tid"

section \<open>Asking for approval\<close>

definition request_approval :: "env \<Rightarrow> string \<Rightarrow> string \<Rightarrow> store \<Rightarrow> (store \<times> task) result" where
  "request_approval e tid acct db =
     andThen (get_task tid acct db) (\<lambda>t.
       if \<not> t_requires_approval t then Inl (ValueError ''Task does not require approval.'')
       else if t_status t = T_Queued then
         (let now = clk e 0;
              db = upd_tasks (\<lambda>r. t_id r = tid \<and> t_account r = acct \<and> t_status r = T_Queued)
                     (\<lambda>r. r\<lparr>t_status := T_Waiting, t_updated_at := now\<rparr>) db;
              source = (if t_approval_mode t = ''desktop'' then ''desktop'' else ''agent'');
              db = add_event (uuid e [0]) tid ''approval.requested'' (JObj [(''source'', JStr source)]) now db
          in Inr (publish ''approval.requested'' (Some tid) db, t\<lparr>t_status := T_Waiting\<rparr>))
       else Inr (db, t))"

section \<open>Deciding\<close>

text \<open>\<open>INSERT INTO approvals ... ON CONFLICT(task_id) DO UPDATE\<close>.\<close>

definition put_approval :: "string \<Rightarrow> verdict \<Rightarrow> string \<Rightarrow> time \<Rightarrow> store \<Rightarrow> store" where
  "put_approval tid st note now db =
     db\<lparr>approvals := upsert a_task
          (\<lambda>old new. old\<lparr>a_status := a_status new, a_note := a_note new, a_decided_at := a_decided_at new\<rparr>)
          \<lparr>a_task = tid, a_status = st, a_note = note, a_decided_at = now\<rparr> (approvals db)\<rparr>"

text \<open>The transaction of \<open>decide\<close>.\<close>

definition apply_decision :: "env \<Rightarrow> time \<Rightarrow> string \<Rightarrow> bool \<Rightarrow> string \<Rightarrow> string \<Rightarrow> store \<Rightarrow> store" where
  "apply_decision e now tid approved note source db =
     (let db = put_approval tid (if approved then Approved else Denied) note now db;
          db = upd_tasks (task_is tid)
                 (\<lambda>r. r\<lparr>t_status := (if approved then T_Queued else T_Cancelled),
                       t_requires_approval := \<not> approved, t_updated_at := now\<rparr>) db;
          db = (if approved then db
                else upd_runs (\<lambda>r. r_task r = tid \<and> r_status r \<noteq> R_Completed) (\<lambda>r. r\<lparr>r_status := R_Cancelled\<rparr>)
                      (upd_steps (\<lambda>s. s_task s = tid \<and> s_status s = S_Queued) (\<lambda>s. s\<lparr>s_status := S_Cancelled\<rparr>) db))
      in add_event (uuid e [0]) tid (if approved then ''approval.approved'' else ''approval.denied'')
           (JObj [(''source'', JStr source)]) now db)"

definition decide ::
  "env \<Rightarrow> string \<Rightarrow> string \<Rightarrow> bool \<Rightarrow> string \<Rightarrow> string \<Rightarrow> store \<Rightarrow> (store \<times> task) result" where
  "decide e tid acct approved note source db =
     andThen (get_task tid acct db) (\<lambda>t.
       if \<not> t_requires_approval t \<or> t_status t \<notin> {T_Queued, T_Waiting}
       then Inl (ValueError ''Task is not awaiting approval.'')
       else
         (let db = apply_decision e (clk e 0) tid approved note source db
          in andThen (get_task tid acct db) (\<lambda>r. Inr (publish ''approval.resolved'' (Some tid) db, r))))"

section \<open>Cancelling\<close>

definition running_steps :: "string \<Rightarrow> store \<Rightarrow> nat" where
  "running_steps tid db = rowcount (\<lambda>s. s_task s = tid \<and> s_status s = S_Running) (steps db)"

definition apply_cancel :: "env \<Rightarrow> time \<Rightarrow> string \<Rightarrow> store \<Rightarrow> store" where
  "apply_cancel e now tid db =
     (let db = upd_tasks (task_is tid)
                 (\<lambda>r. r\<lparr>t_status := T_Cancelling, t_cancel_requested := True, t_updated_at := now\<rparr>) db;
          db = upd_steps (\<lambda>s. s_task s = tid \<and> s_status s = S_Queued) (\<lambda>s. s\<lparr>s_status := S_Cancelled\<rparr>) db;
          db = (if running_steps tid db = 0
                then upd_runs (\<lambda>r. r_task r = tid \<and> r_status r \<noteq> R_Completed) (\<lambda>r. r\<lparr>r_status := R_Cancelled\<rparr>)
                      (upd_tasks (task_is tid) (\<lambda>r. r\<lparr>t_status := T_Cancelled, t_updated_at := now\<rparr>) db)
                else db)
      in add_event (uuid e [0]) tid ''task.cancel_requested'' (JObj [(''source'', JStr ''user'')]) now db)"

definition cancel :: "env \<Rightarrow> string \<Rightarrow> string \<Rightarrow> store \<Rightarrow> (store \<times> task) result" where
  "cancel e tid acct db =
     andThen (get_task tid acct db) (\<lambda>t.
       if t_status t \<in> {T_Completed, T_Failed, T_Cancelled} then Inr (db, t)
       else
         (let db = apply_cancel e (clk e 0) tid db
          in andThen (get_task tid acct db) (\<lambda>r. Inr (publish ''task.cancel_requested'' (Some tid) db, r))))"

section \<open>Retrying a failed task\<close>

definition reopen_step :: "step \<Rightarrow> step" where
  "reopen_step s = s\<lparr>s_status := S_Queued, s_lease_owner := None, s_lease_expires := None,
     s_retry_at := None, s_last_error := None, s_attempts := 0\<rparr>"

definition reopen_task :: "time \<Rightarrow> bool \<Rightarrow> task \<Rightarrow> task" where
  "reopen_task now req r = r\<lparr>t_status := (if req then T_Waiting else T_Queued), t_requires_approval := req,
     t_cancel_requested := False, t_result := None, t_updated_at := now\<rparr>"

definition apply_retry :: "env \<Rightarrow> time \<Rightarrow> string \<Rightarrow> string \<Rightarrow> bool \<Rightarrow> store \<Rightarrow> store" where
  "apply_retry e now tid acct req db =
     (let db = upd_steps (\<lambda>s. s_task s = tid \<and> s_status s \<in> {S_Failed, S_Cancelled}) reopen_step db;
          db = upd_runs (\<lambda>r. r_task r = tid \<and> r_status r \<noteq> R_Completed) (\<lambda>r. r\<lparr>r_status := R_Queued\<rparr>) db;
          db = db\<lparr>dead_letters := upd (\<lambda>l. l_task l = tid \<and> l_resolved_at l = None)
                    (\<lambda>l. l\<lparr>l_resolved_at := Some now\<rparr>) (dead_letters db)\<rparr>;
          db = db\<lparr>approvals := del (\<lambda>a. a_task a = tid) (approvals db)\<rparr>;
          db = upd_tasks (\<lambda>r. t_id r = tid \<and> t_account r = acct) (reopen_task now req) db;
          db = add_event (uuid e [0]) tid ''task.retry_requested''
                 (JObj [(''source'', JStr ''user''), (''requires_approval'', JBool req)]) now db
      in if req then add_event (uuid e [1]) tid ''approval.requested'' (JObj [(''source'', JStr ''retry'')]) now db
         else db)"

definition retry_task :: "env \<Rightarrow> string \<Rightarrow> string \<Rightarrow> store \<Rightarrow> (store \<times> task) result" where
  "retry_task e tid acct db =
     andThen (get_task tid acct db) (\<lambda>t.
       if t_status t \<noteq> T_Failed then Inl (ValueError ''Only failed tasks can be retried.'')
       else andThen (task_steps tid acct db) (\<lambda>ss.
         if \<not> (\<exists>s \<in> set ss. s_status s = S_Failed)
         then Inl (ValueError ''The task has no failed step to retry.'')
         else
           (let req = (t_requires_approval t \<or> (\<exists>s \<in> set ss. s_kind s \<in> {Desktop, Sandbox}));
                db = apply_retry e (clk e 0) tid acct req db
            in andThen (get_task tid acct db) (\<lambda>r. Inr (publish ''task.retry_requested'' (Some tid) db, r)))))"

end
