(* ===== verification/Worker.thy ===== *)
theory Worker
  imports Lifecycle
begin

text \<open>
  \<open>src/smara/store.py\<close>: the hosted worker's side of the task engine: lease recovery and claiming
  (\<open>claim_one\<close>), completing (\<open>complete_step\<close>) and failing (\<open>fail_step\<close>) a step.
\<close>

section \<open>Claims\<close>

text \<open>
  The row a claim returns: the task with the columns selected from its step. Only the desktop claim
  selects the capability.
\<close>

record claim =
  cl_task :: task
  cl_step :: string
  cl_run :: string
  cl_key :: string
  cl_name :: string
  cl_kind :: exec_kind
  cl_capability :: "string option"
  cl_payload :: json
  cl_lease_owner :: "string option"
  cl_lease_expires :: "time option"

definition claim_of :: "task \<Rightarrow> step \<Rightarrow> claim" where
  "claim_of t s = \<lparr>cl_task = t, cl_step = s_id s, cl_run = s_run s, cl_key = s_idempotency_key s,
     cl_name = s_name s, cl_kind = s_kind s, cl_capability = None, cl_payload = s_payload s,
     cl_lease_owner = None, cl_lease_expires = None\<rparr>"

abbreviation step_is :: "string \<Rightarrow> step \<Rightarrow> bool" where
  "step_is sid s \<equiv> s_id s = sid"

text \<open>\<open>NOT EXISTS (... depends_on ... WHERE parent.status!='completed')\<close>.\<close>

definition parents_done :: "store \<Rightarrow> step \<Rightarrow> bool" where
  "parents_done db s \<longleftrightarrow>
     \<not> (\<exists>d \<in> set (deps db). d_step d = s_id s \<and>
          (\<exists>p \<in> set (steps db). s_id p = d_parent d \<and> s_status p \<noteq> S_Completed))"

definition retry_due :: "time \<Rightarrow> step \<Rightarrow> bool" where
  "retry_due now s \<longleftrightarrow> s_retry_at s = None \<or> null_le (s_retry_at s) now"

text \<open>\<open>tasks t JOIN task_steps s ON s.task_id=t.id WHERE ...\<close>, ordered by creation and ordinal.\<close>

definition joined :: "store \<Rightarrow> (task \<times> step) list" where
  "joined db = concat (map (\<lambda>t. map (Pair t) (filter (\<lambda>s. s_task s = t_id t) (steps db))) (tasks db))"

abbreviation claim_order :: "task \<times> step \<Rightarrow> time \<times> nat" where
  "claim_order ts \<equiv> (t_created_at (fst ts), s_ordinal (snd ts))"

definition kind_claimable :: "exec_kind list \<Rightarrow> task \<Rightarrow> step \<Rightarrow> bool" where
  "kind_claimable kinds t s \<longleftrightarrow>
     (if set kinds = {Hosted, Sandbox} then s_kind s \<in> {Hosted, Sandbox} else s_kind s = Hosted)
     \<or> (s_kind s = Desktop \<and> t_requires_approval t)"

definition hosted_ready :: "exec_kind list \<Rightarrow> time \<Rightarrow> store \<Rightarrow> task \<times> step \<Rightarrow> bool" where
  "hosted_ready kinds now db = (\<lambda>(t, s). t_status t \<in> {T_Queued, T_Running} \<and> s_status s = S_Queued \<and>
     kind_claimable kinds t s \<and> retry_due now s \<and> parents_done db s)"

section \<open>Lease recovery\<close>

definition cancel_wanted :: "string \<Rightarrow> store \<Rightarrow> bool" where
  "cancel_wanted tid db =
     (case fetchone (filter (task_is tid) (tasks db)) of None \<Rightarrow> False | Some t \<Rightarrow> t_cancel_requested t)"

abbreviation release :: "step_status \<Rightarrow> step \<Rightarrow> step" where
  "release st s \<equiv> s\<lparr>s_status := st, s_lease_owner := None, s_lease_expires := None\<rparr>"

definition run_of_step :: "string \<Rightarrow> store \<Rightarrow> string option" where
  "run_of_step sid db = map_option s_run (fetchone (filter (step_is sid) (steps db)))"

definition recover_step :: "env \<Rightarrow> time \<Rightarrow> nat \<times> step \<Rightarrow> store \<Rightarrow> store" where
  "recover_step e now = (\<lambda>(k, item) db.
     if cancel_wanted (s_task item) db then
       (let db = upd_steps (step_is (s_id item)) (release S_Cancelled) db;
            db = upd_runs (\<lambda>r. Some (r_id r) = run_of_step (s_id item) db) (\<lambda>r. r\<lparr>r_status := R_Cancelled\<rparr>) db;
            db = upd_tasks (task_is (s_task item)) (\<lambda>t. t\<lparr>t_status := T_Cancelled, t_updated_at := now\<rparr>) db
        in add_event (uuid e [0, k]) (s_task item) ''task.cancelled'' (JObj [(''source'', JStr ''lease_recovery'')]) now db)
     else
       (let db = upd_steps (step_is (s_id item)) (release S_Queued) db;
            db = upd_tasks (\<lambda>t. t_id t = s_task item \<and> t_status t = T_Running)
                   (\<lambda>t. t\<lparr>t_status := T_Queued, t_updated_at := now\<rparr>) db
        in add_event (uuid e [0, k]) (s_task item) ''step.lease_expired'' (JObj [(''recovered'', JBool True)]) now db))"

definition hosted_expired :: "time \<Rightarrow> step \<Rightarrow> bool" where
  "hosted_expired now s \<longleftrightarrow>
     s_status s = S_Running \<and> s_kind s \<in> {Hosted, Sandbox} \<and> null_lt (s_lease_expires s) now"

definition recover_hosted :: "env \<Rightarrow> time \<Rightarrow> store \<Rightarrow> store" where
  "recover_hosted e now db =
     fold (recover_step e now) (enumerate_from 0 (filter (hosted_expired now) (steps db))) db"

section \<open>Claiming a step\<close>

text \<open>Either branch of the claim of a ready pair: surface the approval gate, or lease the step.\<close>

definition surface_approval :: "env \<Rightarrow> time \<Rightarrow> task \<times> step \<Rightarrow> store \<Rightarrow> store \<times> claim" where
  "surface_approval e now = (\<lambda>(t, s) db.
     (let db = upd_tasks (task_is (t_id t)) (\<lambda>r. r\<lparr>t_status := T_Waiting, t_updated_at := now\<rparr>) db;
          db = add_event (uuid e [1]) (t_id t) ''approval.requested'' (JObj [(''source'', JStr ''worker'')]) now db
      in (db, claim_of (t\<lparr>t_status := T_Waiting, t_updated_at := now\<rparr>) s)))"

definition lease_step :: "string \<Rightarrow> time \<Rightarrow> step \<Rightarrow> step" where
  "lease_step owner until s = s\<lparr>s_status := S_Running, s_lease_owner := Some owner,
     s_lease_expires := Some until, s_attempts := s_attempts s + 1, s_retry_at := None\<rparr>"

definition start_work :: "time \<Rightarrow> string \<Rightarrow> time \<Rightarrow> task \<times> step \<Rightarrow> store \<Rightarrow> store" where
  "start_work now owner until = (\<lambda>(t, s) db.
     upd_steps (step_is (s_id s)) (lease_step owner until)
       (upd_runs (\<lambda>r. r_id r = s_run s) (\<lambda>r. r\<lparr>r_status := R_Running\<rparr>)
         (upd_tasks (task_is (t_id t)) (\<lambda>r. r\<lparr>t_status := T_Running, t_updated_at := now\<rparr>) db)))"

definition claim_one ::
  "env \<Rightarrow> string \<Rightarrow> int \<Rightarrow> exec_kind list \<Rightarrow> store \<Rightarrow> store \<times> claim option" where
  "claim_one e worker lease_seconds kinds db =
     (let now = clk e 0;
          db = recover_hosted e now db
      in case fetchone (sort_key claim_order (filter (hosted_ready kinds now db) (joined db))) of
           None \<Rightarrow> (db, None)
         | Some (t, s) \<Rightarrow>
             (if t_requires_approval t \<and> t_status t = T_Queued
              then (let (db, c) = surface_approval e now (t, s) db in (db, Some c))
              else
                (let until = clk e 1 + seconds lease_seconds;
                     db = start_work now worker until (t, s) db;
                     db = add_event (uuid e [1]) (t_id t) ''task.started'' (JObj [(''source'', JStr ''worker'')]) now db
                 in (db, Some ((claim_of (t\<lparr>t_status := T_Running, t_updated_at := now\<rparr>) s)
                               \<lparr>cl_lease_owner := Some worker\<rparr>)))))"

section \<open>Completing a step\<close>

definition account_task_ids :: "string \<Rightarrow> store \<Rightarrow> string set" where
  "account_task_ids acct db = t_id ` set (filter (\<lambda>t. t_account t = acct) (tasks db))"

definition owned_step :: "string \<Rightarrow> string \<Rightarrow> store \<Rightarrow> step result" where
  "owned_step sid acct db =
     (case fetchone (filter (\<lambda>s. s_id s = sid \<and> s_task s \<in> account_task_ids acct db) (steps db)) of
        None \<Rightarrow> Inl (KeyError sid)
      | Some s \<Rightarrow> Inr s)"

text \<open>\<open>if artifact_kind: INSERT INTO artifacts ...\<close>.\<close>

definition record_artifact ::
  "env \<Rightarrow> time \<Rightarrow> string \<Rightarrow> string \<Rightarrow> string option \<Rightarrow> string option \<Rightarrow> string \<Rightarrow> store \<Rightarrow> store" where
  "record_artifact e now tid sid akind aname result db =
     (case akind of
        None \<Rightarrow> db
      | Some kind \<Rightarrow>
          (if kind = [] then db
           else
             (let content = take 20000 result;
                  fid = ''artifact_'' @ uuid e [1];
                  db = db\<lparr>artifacts := artifacts db @ [\<lparr>f_id = fid, f_task = tid, f_kind = kind,
                         f_name = opt_or aname (sid @ ''.txt''), f_uri = ''inline://artifacts/'' @ fid,
                         f_sha256 = sha256 e content, f_content = content, f_created_at = now\<rparr>]\<rparr>
              in add_event (uuid e [2]) tid ''artifact.created'' (JObj [(''kind'', JStr kind)]) now db)))"

text \<open>The end of \<open>complete_step\<close>: finish a cancellation, or the run when no step is pending.\<close>

definition pending_steps :: "string \<Rightarrow> store \<Rightarrow> nat" where
  "pending_steps rid db = rowcount (\<lambda>s. s_run s = rid \<and> s_status s \<noteq> S_Completed) (steps db)"

definition settle_task :: "env \<Rightarrow> time \<Rightarrow> string \<Rightarrow> string \<Rightarrow> string \<Rightarrow> store \<Rightarrow> store" where
  "settle_task e now tid rid result db =
     (if cancel_wanted tid db then
        (let db = upd_runs (\<lambda>r. r_id r = rid) (\<lambda>r. r\<lparr>r_status := R_Cancelled\<rparr>) db;
             db = upd_tasks (task_is tid) (\<lambda>t. t\<lparr>t_status := T_Cancelled, t_updated_at := now\<rparr>) db
         in add_event (uuid e [3]) tid ''task.cancelled'' (JObj [(''source'', JStr ''worker'')]) now db)
      else if pending_steps rid db = 0 then
        (let db = upd_runs (\<lambda>r. r_id r = rid) (\<lambda>r. r\<lparr>r_status := R_Completed\<rparr>) db;
             final = take 2000 result;
             db = upd_tasks (task_is tid)
                    (\<lambda>t. t\<lparr>t_status := T_Completed, t_result := Some final, t_updated_at := now\<rparr>) db
         in add_event (uuid e [3]) tid ''task.completed'' (JObj [(''result'', JStr final)]) now db)
      else db)"

definition finish_step :: "step \<Rightarrow> step" where
  "finish_step s = s\<lparr>s_status := S_Completed, s_lease_owner := None, s_lease_expires := None,
     s_last_error := None, s_retry_at := None\<rparr>"

definition complete_step ::
  "env \<Rightarrow> string \<Rightarrow> string \<Rightarrow> string \<Rightarrow> string option \<Rightarrow> string option \<Rightarrow> store \<Rightarrow> store result" where
  "complete_step e sid acct result akind aname db =
     andThen (owned_step sid acct db) (\<lambda>row.
       let now = clk e 0; tid = s_task row; rid = s_run row;
           db = upd_steps (\<lambda>s. s_id s = sid \<and> s_status s = S_Running) finish_step db;
           db = add_event (uuid e [0]) tid ''step.completed'' (JObj [(''result'', JStr (take 2000 result))]) now db;
           db = record_artifact e now tid sid akind aname result db
       in Inr (settle_task e now tid rid result db))"

section \<open>Failing a step\<close>

text \<open>\<open>_workspace_retry_limit\<close>.\<close>

definition workspace_retry_limit :: "env \<Rightarrow> json \<Rightarrow> int \<Rightarrow> int \<times> int option" where
  "workspace_retry_limit e payload default_max =
     (case jget ''workspace_job'' payload of
        Some (JObj job) \<Rightarrow>
          (case job_repairs e (JObj job) of
             Some n \<Rightarrow> (min default_max (1 + n), Some n)
           | None \<Rightarrow> (default_max, None))
      | _ \<Rightarrow> (default_max, None))"

fun json_int :: "int option \<Rightarrow> json" where
  "json_int None = JNull"
| "json_int (Some n) = JNum n"

definition schedule_retry :: "env \<Rightarrow> time \<Rightarrow> step \<Rightarrow> int option \<Rightarrow> string \<Rightarrow> int \<Rightarrow> store \<Rightarrow> store" where
  "schedule_retry e now row repairs err delay db =
     (let retry_at = clk e 1 + seconds delay;
          db = upd_steps (step_is (s_id row))
                 (\<lambda>s. (release S_Queued s)\<lparr>s_retry_at := Some retry_at, s_last_error := Some (take 2000 err)\<rparr>) db;
          db = upd_tasks (task_is (s_task row)) (\<lambda>t. t\<lparr>t_status := T_Queued, t_updated_at := now\<rparr>) db
      in add_event (uuid e [1]) (s_task row) ''step.retry_scheduled''
           (JObj [(''source'', JStr ''worker''), (''repair_attempt'', JNum (max 0 (s_attempts row - 1))),
                  (''repair_budget'', json_int repairs)]) now db)"

definition fail_terminally ::
  "env \<Rightarrow> time \<Rightarrow> step \<Rightarrow> string \<Rightarrow> int \<Rightarrow> int option \<Rightarrow> string \<Rightarrow> store \<Rightarrow> store" where
  "fail_terminally e now row acct max_attempts repairs err db =
     (let db = upd_steps (step_is (s_id row))
                 (\<lambda>s. (release S_Failed s)\<lparr>s_last_error := Some (take 2000 err)\<rparr>) db;
          db = upd_runs (\<lambda>r. r_id r = s_run row) (\<lambda>r. r\<lparr>r_status := R_Failed\<rparr>) db;
          db = upd_tasks (task_is (s_task row)) (\<lambda>t. t\<lparr>t_status := T_Failed, t_updated_at := now\<rparr>) db;
          db = db\<lparr>dead_letters := dead_letters db @ [\<lparr>l_id = ''dlq_'' @ uuid e [0], l_task = s_task row,
                 l_step = s_id row, l_account = acct, l_error = take 2000 err, l_attempts = s_attempts row,
                 l_created_at = now, l_resolved_at = None\<rparr>]\<rparr>
      in add_event (uuid e [1]) (s_task row) ''step.failed''
           (JObj [(''source'', JStr ''worker''), (''repair_attempt'', JNum (max 0 (s_attempts row - 1))),
                  (''repair_budget'', json_int repairs),
                  (''repair_budget_exhausted'', JBool (repairs \<noteq> None \<and> s_attempts row \<ge> max_attempts))]) now db)"

definition fail_step ::
  "env \<Rightarrow> string \<Rightarrow> string \<Rightarrow> string \<Rightarrow> int \<Rightarrow> bool \<Rightarrow> store \<Rightarrow> (store \<times> string) result" where
  "fail_step e sid acct err delay retryable db =
     andThen (owned_step sid acct db) (\<lambda>row.
       let now = clk e 0;
           (max_attempts, repairs) = workspace_retry_limit e (s_payload row) (s_max_attempts row)
       in if retryable \<and> s_attempts row < max_attempts
          then Inr (schedule_retry e now row repairs err delay db, ''retrying'')
          else Inr (fail_terminally e now row acct max_attempts repairs err db, ''failed''))"

end
