(* ===== verification/Executors.thy ===== *)
theory Executors
  imports Worker
begin

text \<open>
  \<open>src/smara/store.py\<close>: paired desktops. Pairing with a one-time code, authentication by token
  digest, approval at the device, claiming desktop steps, leases and their outcome.
\<close>

section \<open>Pairing and identity\<close>

text \<open>\<open>sorted(set(xs))\<close>.\<close>

definition sorted_set :: "string list \<Rightarrow> string list" where
  "sorted_set xs = sort (remdups xs)"

definition create_executor_pairing ::
  "env \<Rightarrow> string \<Rightarrow> string \<Rightarrow> string list \<Rightarrow> store \<Rightarrow> store \<times> string \<times> time" where
  "create_executor_pairing e acct name caps db =
     (let code = secret e 0; expires = clk e 1 + seconds 600
      in (db\<lparr>pairings := pairings db @ [\<lparr>p_code_hash = sha256 e code, p_account = acct, p_name = name,
             p_capabilities = sorted_set caps, p_expires_at = expires, p_consumed_at = None\<rparr>]\<rparr>,
          code, expires))"

record paired =
  pr_executor :: string
  pr_token :: string
  pr_account :: string
  pr_capabilities :: "string list"

definition pair_executor :: "env \<Rightarrow> string \<Rightarrow> store \<Rightarrow> (store \<times> paired) result" where
  "pair_executor e code db =
     (let now = clk e 0; h = sha256 e code
      in case fetchone (filter (\<lambda>p. p_code_hash p = h \<and> p_consumed_at p = None \<and> p_expires_at p > now) (pairings db)) of
           None \<Rightarrow> Inl (KeyError ''pairing'')
         | Some p \<Rightarrow>
             (let xid = ''desktop_'' @ uuid e [0]; token = secret e 0;
                  db = db\<lparr>executors := executors db @ [\<lparr>x_id = xid, x_account = p_account p, x_name = p_name p,
                         x_capabilities = p_capabilities p, x_token_hash = sha256 e token,
                         x_status = X_Active, x_last_seen = now, x_created_at = now\<rparr>]\<rparr>;
                  db = db\<lparr>pairings := upd (\<lambda>p. p_code_hash p = h) (\<lambda>p. p\<lparr>p_consumed_at := Some now\<rparr>) (pairings db)\<rparr>
              in Inr (db, \<lparr>pr_executor = xid, pr_token = token, pr_account = p_account p,
                           pr_capabilities = p_capabilities p\<rparr>)))"

definition executor_auth :: "env \<Rightarrow> string \<Rightarrow> string \<Rightarrow> store \<Rightarrow> executor result" where
  "executor_auth e xid token db =
     (case fetchone (filter (\<lambda>x. x_id x = xid \<and> x_token_hash x = sha256 e token \<and> x_status x = X_Active) (executors db)) of
        None \<Rightarrow> Inl (KeyError ''executor'')
      | Some x \<Rightarrow> Inr x)"

definition heartbeat_executor ::
  "env \<Rightarrow> string \<Rightarrow> string \<Rightarrow> string list \<Rightarrow> store \<Rightarrow> (store \<times> executor) result" where
  "heartbeat_executor e xid token caps db =
     andThen (executor_auth e xid token db) (\<lambda>x.
       let now = clk e 0;
           requested = set (filter (\<lambda>c. c \<noteq> []) (map strip caps));
           declared = set (x_capabilities x)
       in if requested \<noteq> {} \<and> \<not> requested \<subseteq> declared
          then Inl (ValueError ''Executor heartbeat cannot add capabilities beyond pairing approval.'')
          else Inr (db\<lparr>executors := upd (\<lambda>r. x_id r = xid) (\<lambda>r. r\<lparr>x_last_seen := now\<rparr>) (executors db)\<rparr>,
                    x\<lparr>x_last_seen := now, x_capabilities := sorted_set (x_capabilities x)\<rparr>))"

definition list_executors :: "string \<Rightarrow> store \<Rightarrow> executor list" where
  "list_executors acct db =
     sort_key (\<lambda>x. - x_created_at x) (filter (\<lambda>x. x_account x = acct) (executors db))"

definition revoke_where :: "(executor \<Rightarrow> bool) \<Rightarrow> string \<Rightarrow> store \<Rightarrow> store result" where
  "revoke_where P xid db =
     (if rowcount (\<lambda>x. P x \<and> x_status x = X_Active) (executors db) \<noteq> 1 then Inl (KeyError xid)
      else Inr (db\<lparr>executors := upd (\<lambda>x. P x \<and> x_status x = X_Active) (\<lambda>x. x\<lparr>x_status := X_Revoked\<rparr>) (executors db)\<rparr>))"

text \<open>
  Both revocations commit their update before the row count is looked at; ids are primary keys, so
  the update touches at most one row and a refused call changed none.
\<close>

definition revoke_executor :: "string \<Rightarrow> string \<Rightarrow> store \<Rightarrow> store result" where
  "revoke_executor xid acct db = revoke_where (\<lambda>x. x_id x = xid \<and> x_account x = acct) xid db"

definition revoke_executor_with_token :: "env \<Rightarrow> string \<Rightarrow> string \<Rightarrow> store \<Rightarrow> store result" where
  "revoke_executor_with_token e xid token db =
     revoke_where (\<lambda>x. x_id x = xid \<and> x_token_hash x = sha256 e token) xid db"

section \<open>Deciding a task at the device\<close>

definition decide_for_executor ::
  "env \<Rightarrow> string \<Rightarrow> string \<Rightarrow> string \<Rightarrow> bool \<Rightarrow> string \<Rightarrow> store \<Rightarrow> (store \<times> task) result" where
  "decide_for_executor e xid token tid approved note db =
     andThen (executor_auth e xid token db) (\<lambda>x.
     andThen (get_task tid (x_account x) db) (\<lambda>t.
       if t_approval_mode t \<noteq> ''desktop''
       then Inl (ValueError ''Only Desktop-owned tasks can be decided on this device.'')
       else andThen (task_steps tid (x_account x) db) (\<lambda>ss.
         if ss = [] \<or> (\<exists>s \<in> set ss. s_kind s \<noteq> Desktop)
         then Inl (ValueError ''This task is not exclusively assigned to the paired Desktop.'')
         else if \<exists>s \<in> set ss. (case s_capability s of None \<Rightarrow> False | Some c \<Rightarrow> c \<noteq> [] \<and> c \<notin> set (x_capabilities x))
         then Inl (ValueError ''This Desktop does not have the capability required for the task.'')
         else decide e tid (x_account x) approved
                (take 500 (or_text note ''Decided on paired Desktop'')) ''desktop_user'' db)))"

section \<open>Claiming desktop work\<close>

definition safe_capabilities :: "string set" where
  "safe_capabilities = {''local_file_read'', ''local_browser'', ''local_integration'',
                        ''local_calculate'', ''local_python'', ''local_graph''}"

definition uncertain_error :: string where
  "uncertain_error = ''Desktop lease expired after a potentially side-effecting action; automatic replay was blocked.''"

text \<open>Recovery of one expired desktop lease: \<open>item\<close> is the joined row selected before the loop.\<close>

definition recover_desktop_step :: "env \<Rightarrow> time \<Rightarrow> nat \<times> task \<times> step \<Rightarrow> store \<Rightarrow> store" where
  "recover_desktop_step e now = (\<lambda>(k, t, s) db.
     let (kind, payload, db) =
       (if t_cancel_requested t then
          (''task.cancelled'', JObj [(''source'', JStr ''executor_lease_recovery'')],
           upd_tasks (task_is (s_task s)) (\<lambda>t. t\<lparr>t_status := T_Cancelled, t_updated_at := now\<rparr>)
             (upd_runs (\<lambda>r. r_id r = s_run s) (\<lambda>r. r\<lparr>r_status := R_Cancelled\<rparr>)
               (upd_steps (step_is (s_id s)) (release S_Cancelled) db)))
        else if s_capability s = Some ''local_file_read'' then
          (''executor.lease_expired'', JObj [(''recovered'', JBool True)],
           upd_tasks (\<lambda>t. t_id t = s_task s \<and> t_status t = T_Running)
             (\<lambda>t. t\<lparr>t_status := T_Queued, t_updated_at := now\<rparr>)
             (upd_steps (step_is (s_id s)) (release S_Queued) db))
        else
          (''executor.lease_expired_uncertain'', JObj [(''recovered'', JBool False), (''replay_blocked'', JBool True)],
           (let db = upd_steps (step_is (s_id s)) (\<lambda>s. (release S_Failed s)\<lparr>s_last_error := Some uncertain_error\<rparr>) db;
                db = upd_runs (\<lambda>r. r_id r = s_run s) (\<lambda>r. r\<lparr>r_status := R_Failed\<rparr>) db;
                db = upd_tasks (task_is (s_task s)) (\<lambda>t. t\<lparr>t_status := T_Failed, t_updated_at := now\<rparr>) db
            in db\<lparr>dead_letters := dead_letters db @ [\<lparr>l_id = ''dlq_'' @ uuid e [0, k], l_task = s_task s,
                   l_step = s_id s, l_account = t_account t, l_error = uncertain_error,
                   l_attempts = s_attempts s, l_created_at = now, l_resolved_at = None\<rparr>]\<rparr>)));
         db = upd_leases (\<lambda>z. z_step z = s_id s \<and> z_completed_at z = None) (\<lambda>z. z\<lparr>z_completed_at := Some now\<rparr>) db
     in add_event (uuid e [1, k]) (s_task s) kind payload now db)"

definition desktop_expired :: "time \<Rightarrow> task \<times> step \<Rightarrow> bool" where
  "desktop_expired now = (\<lambda>(t, s). s_status s = S_Running \<and> s_kind s = Desktop \<and> null_lt (s_lease_expires s) now)"

definition recover_desktop :: "env \<Rightarrow> time \<Rightarrow> store \<Rightarrow> store" where
  "recover_desktop e now db =
     fold (recover_desktop_step e now) (enumerate_from 0 (filter (desktop_expired now) (joined db))) db"

text \<open>The tasks the desktop's policy releases, and the release itself.\<close>

definition capability_in :: "string set \<Rightarrow> step \<Rightarrow> bool" where
  "capability_in C s = (case s_capability s of None \<Rightarrow> False | Some c \<Rightarrow> c \<in> C)"

text \<open>\<open>SELECT DISTINCT\<close>: the first row of each value.\<close>

fun first_seen :: "string set \<Rightarrow> string list \<Rightarrow> string list" where
  "first_seen seen [] = []"
| "first_seen seen (x # xs) = (if x \<in> seen then first_seen seen xs else x # first_seen (insert x seen) xs)"

definition auto_candidates :: "executor \<Rightarrow> bool \<Rightarrow> store \<Rightarrow> string list" where
  "auto_candidates x local db =
     (let caps = set (x_capabilities x);
          allowed = (if local then caps else safe_capabilities \<inter> caps);
          safe = (if local then caps else safe_capabilities)
      in if allowed = {} then []
         else first_seen {} (map (\<lambda>(t, s). t_id t) (filter (\<lambda>(t, s).
           t_account t = x_account x \<and> t_status t \<in> {T_Queued, T_Waiting} \<and> t_requires_approval t \<and>
           s_status s = S_Queued \<and> s_kind s = Desktop \<and> capability_in allowed s \<and>
           \<not> (\<exists>u \<in> set (steps db). s_task u = t_id t \<and> (s_kind u \<noteq> Desktop \<or> \<not> capability_in safe u)) \<and>
           \<not> (\<exists>a \<in> set (approvals db). a_task a = t_id t \<and> a_status a \<in> {Approved, Denied}))
           (joined db))))"

definition auto_release :: "env \<Rightarrow> time \<Rightarrow> executor \<Rightarrow> bool \<Rightarrow> nat \<times> string \<Rightarrow> store \<Rightarrow> store" where
  "auto_release e now x local = (\<lambda>(k, tid) db.
     (let db = put_approval tid Approved ''Automatically approved by this desktop's local approval policy.'' now db;
          db = upd_tasks (\<lambda>t. t_id t = tid \<and> t_account t = x_account x \<and> t_requires_approval t)
                 (\<lambda>t. t\<lparr>t_status := T_Queued, t_requires_approval := False, t_updated_at := now\<rparr>) db
      in add_event (uuid e [2, k]) tid ''approval.approved''
           (JObj [(''source'', JStr ''desktop_policy''),
                  (''policy'', JStr (if local then ''approve_for_me'' else ''safe_read''))]) now db))"

definition auto_approve :: "env \<Rightarrow> time \<Rightarrow> executor \<Rightarrow> bool \<Rightarrow> bool \<Rightarrow> store \<Rightarrow> store" where
  "auto_approve e now x safe local db =
     (if safe \<or> local
      then fold (auto_release e now x local) (enumerate_from 0 (auto_candidates x local db)) db
      else db)"

definition desktop_ready :: "string \<Rightarrow> time \<Rightarrow> store \<Rightarrow> task \<times> step \<Rightarrow> bool" where
  "desktop_ready acct now db = (\<lambda>(t, s).
     (\<exists>a \<in> set (approvals db). a_task a = t_id t \<and> a_status a = Approved) \<and>
     t_account t = acct \<and> t_status t \<in> {T_Queued, T_Running} \<and> \<not> t_requires_approval t \<and>
     s_status s = S_Queued \<and> s_kind s = Desktop \<and> retry_due now s \<and> parents_done db s)"

text \<open>\<open>INSERT INTO executor_leases ... ON CONFLICT(step_id) DO UPDATE\<close>.\<close>

definition put_lease :: "env \<Rightarrow> string \<Rightarrow> string \<Rightarrow> time \<Rightarrow> time \<Rightarrow> store \<Rightarrow> store" where
  "put_lease e sid xid until now db =
     db\<lparr>leases := upsert z_step
          (\<lambda>old new. old\<lparr>z_id := z_id new, z_executor := z_executor new, z_expires_at := z_expires_at new,
                        z_completed_at := None, z_created_at := z_created_at new\<rparr>)
          \<lparr>z_id = ''lease_'' @ uuid e [3], z_step = sid, z_executor = xid, z_expires_at = until,
           z_completed_at = None, z_created_at = now\<rparr> (leases db)\<rparr>"

definition claim_for_executor ::
  "env \<Rightarrow> string \<Rightarrow> string \<Rightarrow> int \<Rightarrow> bool \<Rightarrow> bool \<Rightarrow> store \<Rightarrow> (store \<times> claim option) result" where
  "claim_for_executor e xid token lease_seconds safe local db =
     andThen (executor_auth e xid token db) (\<lambda>x.
       let now = clk e 0; caps = set (x_capabilities x);
           db = auto_approve e now x safe local (recover_desktop e now db);
           rows = sort_key claim_order (filter (desktop_ready (x_account x) now db) (joined db))
       in case fetchone (filter (\<lambda>(t, s). capability_in caps s) rows) of
            None \<Rightarrow> Inr (db, None)
          | Some (t, s) \<Rightarrow>
              (let until = clk e 1 + seconds lease_seconds;
                   db = put_lease e (s_id s) xid until now (start_work now xid until (t, s) db);
                   db = add_event (uuid e [4]) (t_id t) ''executor.step_claimed''
                          (JObj [(''executor_id'', JStr xid)]) now db
               in Inr (db, Some ((claim_of (t\<lparr>t_status := T_Running\<rparr>) s)
                           \<lparr>cl_capability := s_capability s, cl_lease_owner := Some xid, cl_lease_expires := Some until\<rparr>))))"

section \<open>Holding and finishing a desktop lease\<close>

datatype beat = Beat_Ok time | Beat_Cancel

definition heartbeat_executor_step ::
  "env \<Rightarrow> string \<Rightarrow> string \<Rightarrow> string \<Rightarrow> int \<Rightarrow> store \<Rightarrow> (store \<times> beat) result" where
  "heartbeat_executor_step e xid token sid lease_seconds db =
     andThen (executor_auth e xid token db) (\<lambda>_.
       let until = clk e 1 + seconds lease_seconds in
       case fetchone (filter (\<lambda>(t, s). s_id s = sid) (joined db)) of
         None \<Rightarrow> Inl (KeyError ''lease'')
       | Some (t, s) \<Rightarrow>
           (if s_status s \<noteq> S_Running \<or> s_lease_owner s \<noteq> Some xid then Inl (KeyError ''lease'')
            else if t_cancel_requested t then Inr (db, Beat_Cancel)
            else
              (let mine = (\<lambda>s. s_id s = sid \<and> s_status s = S_Running \<and> s_lease_owner s = Some xid)
               in if rowcount mine (steps db) \<noteq> 1 then Inl (KeyError ''lease'')
                  else Inr (upd_leases (\<lambda>z. z_step z = sid \<and> z_executor z = xid \<and> z_completed_at z = None)
                              (\<lambda>z. z\<lparr>z_expires_at := until\<rparr>)
                              (upd_steps mine (\<lambda>s. s\<lparr>s_lease_expires := Some until\<rparr>) db),
                            Beat_Ok until))))"

record step_state =
  ss_step :: string
  ss_status :: step_status
  ss_last_error :: "string option"
  ss_key :: string
  ss_lease_owner :: "string option"
  ss_task :: string
  ss_task_status :: task_status
  ss_terminal :: bool

definition executor_step_status :: "env \<Rightarrow> string \<Rightarrow> string \<Rightarrow> string \<Rightarrow> store \<Rightarrow> step_state result" where
  "executor_step_status e xid token sid db =
     andThen (executor_auth e xid token db) (\<lambda>x.
       case fetchone (filter (\<lambda>(t, s). s_id s = sid \<and> t_account t = x_account x) (joined db)) of
         None \<Rightarrow> Inl (KeyError ''step'')
       | Some (t, s) \<Rightarrow> Inr \<lparr>ss_step = s_id s, ss_status = s_status s, ss_last_error = s_last_error s,
           ss_key = s_idempotency_key s, ss_lease_owner = s_lease_owner s, ss_task = t_id t,
           ss_task_status = t_status t,
           ss_terminal = (s_status s \<in> {S_Completed, S_Failed, S_Cancelled})\<rparr>)"

abbreviation holds_lease :: "string \<Rightarrow> string \<Rightarrow> step \<Rightarrow> bool" where
  "holds_lease sid xid s \<equiv> s_id s = sid \<and> s_lease_owner s = Some xid \<and> s_status s = S_Running"

definition mark_lease_done :: "string \<Rightarrow> string \<Rightarrow> time \<Rightarrow> store \<Rightarrow> store" where
  "mark_lease_done sid xid now db =
     upd_leases (\<lambda>z. z_step z = sid \<and> z_executor z = xid) (\<lambda>z. z\<lparr>z_completed_at := Some now\<rparr>) db"

text \<open>
  \<open>complete_executor_step\<close> marks the lease done in one transaction, checks the task belongs to the
  executor's account, and completes the step in another. A refusal after the first commit leaves
  the lease marked, so the result carries the database in both cases.
\<close>

definition complete_executor_step ::
  "env \<Rightarrow> string \<Rightarrow> string \<Rightarrow> string \<Rightarrow> string \<Rightarrow> store \<Rightarrow> store \<times> unit result" where
  "complete_executor_step e xid token sid result db =
     (case executor_auth e xid token db of
        Inl err \<Rightarrow> (db, Inl err)
      | Inr x \<Rightarrow>
          (case fetchone (filter (holds_lease sid xid) (steps db)) of
             None \<Rightarrow> (db, Inl (KeyError ''lease''))
           | Some s \<Rightarrow>
               (let db = mark_lease_done sid xid (clk e 0) db
                in case get_task (s_task s) (x_account x) db of
                     Inl err \<Rightarrow> (db, Inl err)
                   | Inr t \<Rightarrow>
                       (case complete_step (sub_env e 1) sid (t_account t) result
                               (Some ''desktop_step_result'') (Some (sid @ ''.json'')) db of
                          Inl err \<Rightarrow> (db, Inl err)
                        | Inr db \<Rightarrow> (db, Inr ())))))"

text \<open>\<open>" ".join(str(message).split())\<close>.\<close>

fun split_words :: "string \<Rightarrow> string \<Rightarrow> string list" where
  "split_words acc [] = (if acc = [] then [] else [rev acc])"
| "split_words acc (c # cs) =
     (if py_space c then (if acc = [] then split_words [] cs else rev acc # split_words [] cs)
      else split_words (c # acc) cs)"

definition join_words :: "string list \<Rightarrow> string" where
  "join_words ws = (case ws of [] \<Rightarrow> [] | w # rest \<Rightarrow> w @ concat (map (\<lambda>x. CHR '' '' # x) rest))"

definition append_executor_progress ::
  "env \<Rightarrow> string \<Rightarrow> string \<Rightarrow> string \<Rightarrow> string \<Rightarrow> store \<Rightarrow> store result" where
  "append_executor_progress e xid token sid message db =
     andThen (executor_auth e xid token db) (\<lambda>_.
       let safe_message = take 500 (join_words (split_words [] message)) in
       if safe_message = [] then Inl (ValueError ''Executor progress must contain a message.'')
       else case fetchone (filter (holds_lease sid xid) (steps db)) of
         None \<Rightarrow> Inl (KeyError ''lease'')
       | Some s \<Rightarrow> Inr (add_event (uuid e [0]) (s_task s) ''executor.progress''
           (JObj [(''executor_id'', JStr xid), (''message'', JStr safe_message)]) (clk e 0) db))"

definition fail_executor_step ::
  "env \<Rightarrow> string \<Rightarrow> string \<Rightarrow> string \<Rightarrow> string \<Rightarrow> store \<Rightarrow> store \<times> string result" where
  "fail_executor_step e xid token sid err db =
     (case executor_auth e xid token db of
        Inl x \<Rightarrow> (db, Inl x)
      | Inr x \<Rightarrow>
          (case fetchone (filter (\<lambda>(t, s). holds_lease sid xid s) (joined db)) of
             None \<Rightarrow> (db, Inl (KeyError ''lease''))
           | Some (t, s) \<Rightarrow>
               (let db = mark_lease_done sid xid (clk e 0) db
                in if t_cancel_requested t then
                     (let now = clk e 1;
                          db = upd_steps (step_is sid)
                                 (\<lambda>s. (release S_Cancelled s)\<lparr>s_last_error := Some (take 2000 err)\<rparr>) db;
                          db = upd_runs (\<lambda>r. r_id r = s_run s) (\<lambda>r. r\<lparr>r_status := R_Cancelled\<rparr>) db;
                          db = upd_tasks (task_is (s_task s)) (\<lambda>t. t\<lparr>t_status := T_Cancelled, t_updated_at := now\<rparr>) db
                      in (add_event (uuid e [0]) (s_task s) ''task.cancelled''
                            (JObj [(''source'', JStr ''desktop_executor'')]) now db, Inr ''cancelled''))
                   else
                     (case fail_step (sub_env e 1) sid (x_account x) err 30
                             (s_capability s = Some ''local_file_read'') db of
                        Inl x \<Rightarrow> (db, Inl x)
                      | Inr (db, out) \<Rightarrow> (db, Inr out)))))"

lemma first_seen_props: "set (first_seen seen xs) = set xs - seen \<and> distinct (first_seen seen xs)"
  by (induction seen xs rule: first_seen.induct) auto

end
