(* ===== verification/Schedules.thy ===== *)
theory Schedules
  imports TaskStore
begin

text \<open>
  \<open>src/smara/store.py\<close>: recurring schedules. \<open>fire_due_schedules\<close> inserts one task per due schedule
  and moves its next run past the present. The loop that moves it only ends for a positive
  interval; \<open>advance\<close> is \<open>None\<close> when it does not end.
\<close>

definition create_schedule ::
  "env \<Rightarrow> string \<Rightarrow> string \<Rightarrow> string \<Rightarrow> string \<Rightarrow> int \<Rightarrow> time \<Rightarrow> bool \<Rightarrow> step_in list \<Rightarrow> store \<Rightarrow>
   store \<times> schedule" where
  "create_schedule e acct ws title objective interval next_run req ins db =
     (let now = clk e 0;
          row = \<lparr>h_id = ''schedule_'' @ uuid e [0], h_account = acct, h_workspace = ws, h_title = title,
                 h_objective = objective, h_interval = interval, h_steps = ins,
                 h_requires_approval = req, h_next_run = next_run, h_enabled = True,
                 h_last_run = None, h_last_task = None, h_lease_owner = None, h_lease_expires = None,
                 h_created_at = now, h_updated_at = now\<rparr>
      in (publish ''schedule.created'' None (db\<lparr>schedules := schedules db @ [row]\<rparr>), row))"

definition get_schedule :: "string \<Rightarrow> string \<Rightarrow> store \<Rightarrow> schedule result" where
  "get_schedule hid acct db =
     (case fetchone (filter (\<lambda>h. h_id h = hid \<and> h_account h = acct) (schedules db)) of
        None \<Rightarrow> Inl (KeyError hid)
      | Some h \<Rightarrow> Inr h)"

definition list_schedules :: "string \<Rightarrow> store \<Rightarrow> schedule list" where
  "list_schedules acct db =
     sort_key (\<lambda>h. (h_next_run h, h_id h)) (filter (\<lambda>h. h_account h = acct) (schedules db))"

definition cancel_schedule :: "env \<Rightarrow> string \<Rightarrow> string \<Rightarrow> store \<Rightarrow> store result" where
  "cancel_schedule e hid acct db =
     (let mine = (\<lambda>h. h_id h = hid \<and> h_account h = acct)
      in if rowcount mine (schedules db) \<noteq> 1 then Inl (KeyError hid)
         else Inr (db\<lparr>schedules := upd mine (\<lambda>h. h\<lparr>h_enabled := False, h_updated_at := clk e 0\<rparr>) (schedules db)\<rparr>))"

text \<open>\<open>while next_run <= current: next_run += interval\<close>.\<close>

partial_function (option) advance :: "time \<Rightarrow> time \<Rightarrow> time \<Rightarrow> time option" where
  "advance interval current next_run =
     (if next_run \<le> current then advance interval current (next_run + interval) else Some next_run)"

declare advance.simps [code]

definition due_schedule :: "time \<Rightarrow> schedule \<Rightarrow> bool" where
  "due_schedule now h \<longleftrightarrow> h_enabled h \<and> h_next_run h \<le> now \<and>
     (h_lease_expires h = None \<or> null_le (h_lease_expires h) now)"

record fired =
  fi_schedule :: string
  fi_task :: string
  fi_account :: string

text \<open>One iteration of the loop over the due rows.\<close>

definition fire_one ::
  "env \<Rightarrow> time \<Rightarrow> nat \<Rightarrow> schedule \<Rightarrow> store \<Rightarrow> (store \<times> fired) result option" where
  "fire_one e now k h db =
     (case insert_task (sub_env e k) (h_account h) (h_workspace h) (h_title h) (h_objective h)
             (h_requires_approval h) (h_steps h) ''hosted'' now db of
        Inl err \<Rightarrow> Some (Inl err)
      | Inr (db, tid) \<Rightarrow>
          (case advance (seconds (h_interval h)) now (h_next_run h) of
             None \<Rightarrow> None
           | Some next_run \<Rightarrow>
               (let db = db\<lparr>schedules := upd (\<lambda>r. h_id r = h_id h)
                      (\<lambda>r. r\<lparr>h_next_run := next_run, h_last_run := Some now, h_last_task := Some tid,
                            h_lease_owner := None, h_lease_expires := None, h_updated_at := now\<rparr>) (schedules db)\<rparr>;
                    db = add_event (uuid e [k, 4]) tid ''schedule.fired''
                           (JObj [(''schedule_id'', JStr (h_id h))]) now db
                in Some (Inr (db, \<lparr>fi_schedule = h_id h, fi_task = tid, fi_account = h_account h\<rparr>)))))"

fun fire_rows :: "env \<Rightarrow> time \<Rightarrow> nat \<Rightarrow> schedule list \<Rightarrow> store \<Rightarrow> (store \<times> fired list) result option" where
  "fire_rows e now k [] db = Some (Inr (db, []))"
| "fire_rows e now k (h # hs) db =
     (case fire_one e now k h db of
        None \<Rightarrow> None
      | Some (Inl err) \<Rightarrow> Some (Inl err)
      | Some (Inr (db, f)) \<Rightarrow>
          (case fire_rows e now (Suc k) hs db of
             None \<Rightarrow> None
           | Some (Inl err) \<Rightarrow> Some (Inl err)
           | Some (Inr (db, fs)) \<Rightarrow> Some (Inr (db, f # fs))))"

definition clear_stale_leases :: "time \<Rightarrow> store \<Rightarrow> store" where
  "clear_stale_leases now db =
     db\<lparr>schedules := upd (\<lambda>h. null_lt (h_lease_expires h) now)
          (\<lambda>h. h\<lparr>h_lease_owner := None, h_lease_expires := None\<rparr>) (schedules db)\<rparr>"

definition due_rows :: "time \<Rightarrow> nat \<Rightarrow> store \<Rightarrow> schedule list" where
  "due_rows now limit db =
     take limit (sort_key (\<lambda>h. (h_next_run h, h_id h)) (filter (due_schedule now) (schedules db)))"

definition fire_due_schedules :: "env \<Rightarrow> nat \<Rightarrow> store \<Rightarrow> (store \<times> fired list) result option" where
  "fire_due_schedules e limit db =
     (let now = clk e 0;
          db = clear_stale_leases now db
      in map_option (\<lambda>r. andThen r (\<lambda>(db, fs).
           Inr (fold (\<lambda>f. publish ''schedule.fired'' (Some (fi_task f))) fs db, fs)))
           (fire_rows e now 0 (due_rows now limit db) db))"

section \<open>Moving the next run\<close>

lemma advance_done [simp]: "current < next_run \<Longrightarrow> advance interval current next_run = Some next_run"
  by (simp add: advance.simps)

lemma advance_step: "next_run \<le> current \<Longrightarrow>
    advance interval current next_run = advance interval current (next_run + interval)"
  by (simp add: advance.simps [of interval current next_run])

text \<open>With a positive interval the loop ends at the first run after the present.\<close>

lemma advance_positive:
  assumes "0 < interval"
  shows "\<exists>k. advance interval current next_run = Some (next_run + int k * interval) \<and>
             current < next_run + int k * interval \<and>
             (next_run \<le> current \<longrightarrow> next_run + int k * interval \<le> current + interval)"
proof (induction "nat (current + 1 - next_run)" arbitrary: next_run rule: less_induct)
  case less
  show ?case
  proof (cases "next_run \<le> current")
    case False
    then show ?thesis by (intro exI [of _ 0]) simp
  next
    case True
    have "nat (current + 1 - (next_run + interval)) < nat (current + 1 - next_run)"
      using True assms by simp
    from less [OF this] obtain k where k:
      "advance interval current (next_run + interval) = Some (next_run + interval + int k * interval)"
      "current < next_run + interval + int k * interval"
      "next_run + interval \<le> current \<longrightarrow> next_run + interval + int k * interval \<le> current + interval"
      by blast
    have "next_run + interval + int k * interval \<le> current + interval"
    proof (cases "next_run + interval \<le> current")
      case True
      with k(3) show ?thesis by simp
    next
      case False
      then have "k = 0" using k(1) by simp (metis assms mult_eq_0_iff of_nat_eq_0_iff order_less_irrefl)
      with True show ?thesis by simp
    qed
    with k True show ?thesis
      by (intro exI [of _ "Suc k"]) (simp add: advance_step algebra_simps)
  qed
qed

end
