(* ===== verification/Research.thy ===== *)
theory Research
  imports Lifecycle
begin

text \<open>
  \<open>src/smara/store.py\<close>: research tasks and their evidence ledger. The canonical form of a source URL
  (\<open>research.canonical_source_url\<close>, urllib parsing and IDNA) is the parameter \<open>canon\<close>.
\<close>

section \<open>Creating a research task\<close>

text \<open>The loop that keeps the first occurrence of every non-empty canonical source.\<close>

fun unique_sources :: "(string \<Rightarrow> string) \<Rightarrow> string list \<Rightarrow> string list \<Rightarrow> string list" where
  "unique_sources canon seen [] = []"
| "unique_sources canon seen (source # rest) =
     (let c = canon source
      in if c \<noteq> [] \<and> c \<notin> set seen then c # unique_sources canon (c # seen) rest
         else unique_sources canon seen rest)"

definition research_steps :: "string list \<Rightarrow> string list" where
  "research_steps sources =
     (if sources \<noteq> [] then [''research.fetch_sources'', ''research.verify_evidence'', ''research.write_report'']
      else [''research.discover_sources'', ''research.fetch_sources'', ''research.verify_evidence'', ''research.write_report''])"

text \<open>A row of \<open>task_steps\<close> and of \<open>research_evidence\<close> with the column defaults of the schema.\<close>

definition research_step_row :: "env \<Rightarrow> string \<Rightarrow> string \<Rightarrow> time \<Rightarrow> nat \<Rightarrow> string \<Rightarrow> step" where
  "research_step_row e tid rid now k name = step_row e tid rid now k
     \<lparr>i_name = name, i_depends_on = [], i_kind = Hosted, i_capability = None, i_payload = JObj []\<rparr>"

definition pending_evidence :: "string \<Rightarrow> string \<Rightarrow> string \<Rightarrow> string option \<Rightarrow> time \<Rightarrow> evidence" where
  "pending_evidence vid tid url title now =
     \<lparr>v_id = vid, v_task = tid, v_url = url, v_title = title, v_status = ''pending'', v_retrieved_at = None,
      v_published_at = None, v_content_sha256 = None, v_excerpt = None, v_claim = None, v_confidence = None,
      v_citation_label = None, v_error = None, v_domain_policy = ''unclassified'', v_quality_flags = [],
      v_agreement_count = 0, v_verification_notes = None, v_created_at = now\<rparr>"

definition evidence_key :: "evidence \<Rightarrow> string \<times> string" where
  "evidence_key v = (v_task v, v_url v)"

fun insert_sources :: "env \<Rightarrow> string \<Rightarrow> time \<Rightarrow> (nat \<times> string) list \<Rightarrow> evidence list \<Rightarrow> evidence list result" where
  "insert_sources e tid now [] vs = Inr vs"
| "insert_sources e tid now ((k, url) # rest) vs =
     andThen (insert_unique evidence_key (pending_evidence (''evidence_'' @ uuid e [5, k]) tid url None now) vs)
       (insert_sources e tid now rest)"

definition create_research ::
  "(string \<Rightarrow> string) \<Rightarrow> env \<Rightarrow> string \<Rightarrow> string \<Rightarrow> string \<Rightarrow> string \<Rightarrow> string list \<Rightarrow> store \<Rightarrow>
   (store \<times> task) result" where
  "create_research canon e acct ws title question sources db =
     (let tid = ''task_'' @ uuid e [0]; rid = ''run_'' @ uuid e [1]; now = clk e 0;
          sources = unique_sources canon [] sources;
          rows = map (\<lambda>(k, name). research_step_row e tid rid now k name) (enumerate_from 0 (research_steps sources));
          ids = map s_id rows
      in andThen (insert_sources e tid now (enumerate_from 0 sources) (evidences db)) (\<lambda>vs.
           let db = db\<lparr>tasks := tasks db @ [\<lparr>t_id = tid, t_account = acct, t_workspace = ws, t_title = title,
                        t_objective = question, t_status = T_Queued, t_requires_approval = False,
                        t_approval_mode = ''hosted'', t_created_at = now, t_updated_at = now,
                        t_cancel_requested = False, t_result = None\<rparr>],
                      runs := runs db @ [\<lparr>r_id = rid, r_task = tid, r_attempt = 1, r_status = R_Queued,
                        r_created_at = now\<rparr>],
                      steps := steps db @ rows,
                      deps := deps db @ map (\<lambda>(parent, child). \<lparr>d_step = child, d_parent = parent\<rparr>) (zip ids (tl ids)),
                      evidences := vs\<rparr>;
               db = add_event (uuid e [3]) tid ''task.created'' (JObj [(''source'', JStr ''research_api'')]) now db;
               db = add_event (uuid e [4]) tid ''research.planned''
                      (JObj [(''source_count'', JNum (int (length sources)))]) now db
           in andThen (get_task tid acct db) (\<lambda>t. Inr (db, t))))"

section \<open>Reading and updating the ledger\<close>

text \<open>\<open>s.name LIKE 'research.%'\<close>: SQLite's LIKE ignores the case of ASCII letters.\<close>

definition research_prefix :: string where
  "research_prefix = ''research.''"

definition research_tasks :: "string \<Rightarrow> int \<Rightarrow> store \<Rightarrow> task list" where
  "research_tasks acct limit db =
     take (nat (max 1 (min 100 limit)))
       (sort_key (\<lambda>t. - t_updated_at t)
         (filter (\<lambda>t. t_account t = acct \<and>
            (\<exists>s \<in> set (steps db). s_task s = t_id t \<and> lower (take 9 (s_name s)) = research_prefix)) (tasks db)))"

definition add_evidence ::
  "env \<Rightarrow> string \<Rightarrow> string \<Rightarrow> string \<Rightarrow> string option \<Rightarrow> store \<Rightarrow> (store \<times> bool) result" where
  "add_evidence e tid acct url title db =
     andThen (get_task tid acct db) (\<lambda>_.
       if (tid, url) \<in> evidence_key ` set (evidences db) then Inr (db, False)
       else Inr (db\<lparr>evidences := evidences db @
                      [pending_evidence (''evidence_'' @ uuid e [0]) tid url title (clk e 0)]\<rparr>, True))"

definition list_evidence :: "string \<Rightarrow> string \<Rightarrow> store \<Rightarrow> evidence list result" where
  "list_evidence tid acct db =
     andThen (get_task tid acct db) (\<lambda>_.
       Inr (sort_key (\<lambda>v. (v_created_at v, v_id v)) (filter (\<lambda>v. v_task v = tid) (evidences db))))"

text \<open>The keyword arguments of \<open>update_evidence\<close>; \<open>COALESCE\<close> keeps a column when its argument is \<open>None\<close>.\<close>

record evidence_update =
  w_status :: string
  w_title :: "string option"
  w_retrieved_at :: "string option"
  w_published_at :: "string option"
  w_content_sha256 :: "string option"
  w_excerpt :: "string option"
  w_claim :: "string option"
  w_confidence :: "rat option"
  w_citation_label :: "string option"
  w_error :: "string option"
  w_domain_policy :: "string option"
  w_quality_flags :: "string list option"
  w_agreement_count :: "int option"
  w_verification_notes :: "string option"

definition coalesce :: "'a option \<Rightarrow> 'a \<Rightarrow> 'a" where
  "coalesce x d = (case x of None \<Rightarrow> d | Some y \<Rightarrow> y)"

definition coalesce_opt :: "'a option \<Rightarrow> 'a option \<Rightarrow> 'a option" where
  "coalesce_opt x d = (case x of None \<Rightarrow> d | Some y \<Rightarrow> Some y)"

definition update_evidence :: "string \<Rightarrow> string \<Rightarrow> evidence_update \<Rightarrow> store \<Rightarrow> store" where
  "update_evidence vid tid w db =
     db\<lparr>evidences := upd (\<lambda>v. v_id v = vid \<and> v_task v = tid)
          (\<lambda>v. v\<lparr>v_status := w_status w, v_title := w_title w, v_retrieved_at := w_retrieved_at w,
                v_content_sha256 := w_content_sha256 w, v_excerpt := w_excerpt w, v_claim := w_claim w,
                v_confidence := w_confidence w, v_citation_label := w_citation_label w, v_error := w_error w,
                v_published_at := coalesce_opt (w_published_at w) (v_published_at v),
                v_domain_policy := coalesce (w_domain_policy w) (v_domain_policy v),
                v_quality_flags := coalesce (w_quality_flags w) (v_quality_flags v),
                v_agreement_count := coalesce (w_agreement_count w) (v_agreement_count v),
                v_verification_notes := coalesce_opt (w_verification_notes w) (v_verification_notes v)\<rparr>)
          (evidences db)\<rparr>"

section \<open>The ledger never repeats a source\<close>

definition ledger_inv :: "store \<Rightarrow> bool" where
  "ledger_inv db \<longleftrightarrow> distinct (map evidence_key (evidences db))"

lemma unique_sources_distinct:
  "distinct (unique_sources canon seen xs) \<and> set (unique_sources canon seen xs) \<inter> set seen = {} \<and>
   set (unique_sources canon seen xs) = canon ` set xs - set seen - {[]}"
  by (induction xs arbitrary: seen) (auto simp: Let_def)

lemma insert_sources_ok:
  assumes "\<forall>v \<in> set vs. v_task v \<noteq> tid \<or> v_url v \<notin> set us" and "distinct us"
  shows "insert_sources e tid now (enumerate_from n us) vs
       = Inr (vs @ map (\<lambda>(k, url). pending_evidence (''evidence_'' @ uuid e [5, k]) tid url None now) (enumerate_from n us))"
  using assms
proof (induction us arbitrary: n vs)
  case Nil
  then show ?case by simp
next
  case (Cons u us)
  let ?v = "pending_evidence (''evidence_'' @ uuid e [5, n]) tid u None now"
  have ins: "insert_unique evidence_key ?v vs = Inr (vs @ [?v])"
    using Cons.prems(1) by (auto simp: insert_unique_def evidence_key_def pending_evidence_def)
  have "\<forall>v \<in> set (vs @ [?v]). v_task v \<noteq> tid \<or> v_url v \<notin> set us"
    using Cons.prems by (auto simp: pending_evidence_def)
  then show ?case using Cons.IH [of "vs @ [?v]" "Suc n"] Cons.prems(2) ins by simp
qed

lemma insert_sources_distinct:
  "insert_sources e tid now us vs = Inr vs' \<Longrightarrow> distinct (map evidence_key vs) \<Longrightarrow> distinct (map evidence_key vs')"
  by (induction e tid now us vs rule: insert_sources.induct)
     (auto simp: insert_unique_def split: if_splits)

lemma update_evidence_inv: "ledger_inv db \<Longrightarrow> ledger_inv (update_evidence vid tid w db)"
  by (simp add: ledger_inv_def update_evidence_def map_upd evidence_key_def)

lemma add_evidence_inv: "add_evidence e tid acct url title db = Inr (db', b) \<Longrightarrow> ledger_inv db \<Longrightarrow> ledger_inv db'"
  by (auto simp: add_evidence_def ledger_inv_def evidence_key_def pending_evidence_def split: if_splits)

lemma create_research_inv:
  "create_research canon e acct ws title q srcs db = Inr (db', t) \<Longrightarrow> ledger_inv db \<Longrightarrow> ledger_inv db'"
  by (auto simp: create_research_def ledger_inv_def Let_def add_event_def dest: insert_sources_distinct)

text \<open>A new task with its evidence, an added source, or an updated row.\<close>

inductive ledger_step :: "(string \<Rightarrow> string) \<Rightarrow> store \<Rightarrow> store \<Rightarrow> bool" for canon where
  planned: "create_research canon e acct ws title q srcs db = Inr (db', t) \<Longrightarrow> ledger_step canon db db'"
| discovered: "add_evidence e tid acct url title db = Inr (db', b) \<Longrightarrow> ledger_step canon db db'"
| updated: "ledger_step canon db (update_evidence vid tid w db)"

interpretation ledger: inductive_invariant "ledger_step canon" empty_store ledger_inv for canon
proof unfold_locales
  show "ledger_inv empty_store" by (simp add: ledger_inv_def empty_store_def)
next
  fix s t assume "ledger_inv s" "ledger_step canon s t"
  then show "ledger_inv t"
    by (auto elim!: ledger_step.cases intro: create_research_inv add_evidence_inv update_evidence_inv)
qed

end
