(* ===== verification/Accounts.thy ===== *)
theory Accounts
  imports TaskStore
begin

text \<open>
  \<open>src/smara/store.py\<close>: the account-wide operations \<open>audit_export\<close> and \<open>delete_account\<close>.
\<close>

section \<open>Export\<close>

record export =
  ex_tasks :: "task list"
  ex_events :: "event list"
  ex_steps :: "step list"
  ex_artifacts :: "artifact list"
  ex_dead_letters :: "dead_letter list"
  ex_conversations :: "conversation list"
  ex_turns :: "turn list"
  ex_facts :: "(string \<times> string \<times> string \<times> time) list"
  ex_cli_devices :: "(string \<times> time \<times> time \<times> time option \<times> time option) list"
  ex_integrations :: "connection list"
  ex_actions :: "action list"

definition audit_export :: "string \<Rightarrow> store \<Rightarrow> export" where
  "audit_export acct db =
     (let ts = sort_key t_created_at (filter (\<lambda>t. t_account t = acct) (tasks db));
          ids = set (map t_id ts)
      in \<lparr>ex_tasks = ts,
          ex_events = sort_key e_created_at (filter (\<lambda>ev. e_task ev \<in> ids) (events db)),
          ex_steps = sort_key s_ordinal (filter (\<lambda>s. s_task s \<in> ids) (steps db)),
          ex_artifacts = sort_key f_created_at (filter (\<lambda>f. f_task f \<in> ids) (artifacts db)),
          ex_dead_letters = list_dead_letters acct db,
          ex_conversations = sort_key cv_created_at (filter (\<lambda>c. cv_account c = acct) (conversations db)),
          ex_turns = sort_key (\<lambda>u. (tu_conversation u, tu_sequence u)) (filter (\<lambda>u. tu_account u = acct) (turns db)),
          ex_facts = map (\<lambda>f. (fa_key f, fa_value f, fa_source f, fa_updated_at f))
                       (sort_key fa_updated_at (filter (\<lambda>f. fa_account f = acct) (facts db))),
          ex_cli_devices = map (\<lambda>d. (cd_name d, cd_expires_at d, cd_created_at d, cd_last_seen d, cd_revoked_at d))
                       (sort_key cd_created_at (filter (\<lambda>d. cd_account d = acct) (cli_devices db))),
          ex_integrations = filter (\<lambda>c. c_account c = acct) (connections db),
          ex_actions = sort_key q_created_at (filter (\<lambda>q. q_account q = acct) (actions db))\<rparr>)"

section \<open>Deletion\<close>

text \<open>
  The rows owned through a task: only touched when the account has a task, and leases and
  dependencies only when those tasks have a step.
\<close>

definition delete_step_links :: "string set \<Rightarrow> store \<Rightarrow> store" where
  "delete_step_links sids db =
     (if sids = {} then db
      else db\<lparr>leases := del (\<lambda>z. z_step z \<in> sids) (leases db),
             deps := del (\<lambda>d. d_step d \<in> sids \<or> d_parent d \<in> sids) (deps db)\<rparr>)"

definition delete_task_rows :: "string set \<Rightarrow> store \<Rightarrow> store" where
  "delete_task_rows tids db =
     (if tids = {} then db
      else
        (let db = delete_step_links (s_id ` set (filter (\<lambda>s. s_task s \<in> tids) (steps db))) db
         in db\<lparr>approvals := del (\<lambda>a. a_task a \<in> tids) (approvals db),
               events := del (\<lambda>ev. e_task ev \<in> tids) (events db),
               artifacts := del (\<lambda>f. f_task f \<in> tids) (artifacts db),
               evidences := del (\<lambda>v. v_task v \<in> tids) (evidences db),
               dead_letters := del (\<lambda>l. l_task l \<in> tids) (dead_letters db),
               steps := del (\<lambda>s. s_task s \<in> tids) (steps db),
               runs := del (\<lambda>r. r_task r \<in> tids) (runs db)\<rparr>))"

definition delete_account :: "string \<Rightarrow> store \<Rightarrow> store" where
  "delete_account acct db =
     (let db = delete_task_rows (t_id ` set (filter (\<lambda>t. t_account t = acct) (tasks db))) db;
          cids = c_id ` set (filter (\<lambda>c. c_account c = acct) (connections db))
      in db\<lparr>credentials := del (\<lambda>k. k_connection k \<in> cids) (credentials db),
            actions := del (\<lambda>q. q_account q = acct) (actions db),
            oauth_states := del (\<lambda>w. o_account w = acct) (oauth_states db),
            connections := del (\<lambda>c. c_account c = acct) (connections db),
            subscriptions := del (\<lambda>u. u_account u = acct) (subscriptions db),
            notifications := del (\<lambda>n. n_account n = acct) (notifications db),
            turns := del (\<lambda>u. tu_account u = acct) (turns db),
            facts := del (\<lambda>f. fa_account f = acct) (facts db),
            conversations := del (\<lambda>c. cv_account c = acct) (conversations db),
            cli_devices := del (\<lambda>d. cd_account d = acct) (cli_devices db),
            executors := del (\<lambda>x. x_account x = acct) (executors db),
            pairings := del (\<lambda>p. p_account p = acct) (pairings db),
            tasks := del (\<lambda>t. t_account t = acct) (tasks db)\<rparr>)"

section \<open>Facts\<close>

definition empty_export :: export where
  "empty_export = \<lparr>ex_tasks = [], ex_events = [], ex_steps = [], ex_artifacts = [], ex_dead_letters = [],
     ex_conversations = [], ex_turns = [], ex_facts = [], ex_cli_devices = [], ex_integrations = [],
     ex_actions = []\<rparr>"

lemma del_filter_empty: "(\<And>r. r \<in> set t \<Longrightarrow> Q r \<Longrightarrow> P r) \<Longrightarrow> filter Q (del P t) = []"
  by (auto simp: del_def filter_empty_conv)

lemma del_none: "(\<And>r. r \<in> set t \<Longrightarrow> \<not> P r) \<Longrightarrow> del P t = t"
  by (simp add: del_def)

lemma delete_step_links_tables [simp]:
  "tasks (delete_step_links sids db) = tasks db" "steps (delete_step_links sids db) = steps db"
  "runs (delete_step_links sids db) = runs db" "events (delete_step_links sids db) = events db"
  "approvals (delete_step_links sids db) = approvals db" "artifacts (delete_step_links sids db) = artifacts db"
  "evidences (delete_step_links sids db) = evidences db" "dead_letters (delete_step_links sids db) = dead_letters db"
  "executors (delete_step_links sids db) = executors db"
  "leases (delete_step_links sids db) = del (\<lambda>z. z_step z \<in> sids) (leases db)"
  "deps (delete_step_links sids db) = del (\<lambda>d. d_step d \<in> sids \<or> d_parent d \<in> sids) (deps db)"
  by (auto simp: delete_step_links_def del_none)

lemma delete_task_rows_tables [simp]:
  "tasks (delete_task_rows tids db) = tasks db" "executors (delete_task_rows tids db) = executors db"
  "approvals (delete_task_rows tids db) = del (\<lambda>a. a_task a \<in> tids) (approvals db)"
  "events (delete_task_rows tids db) = del (\<lambda>ev. e_task ev \<in> tids) (events db)"
  "artifacts (delete_task_rows tids db) = del (\<lambda>f. f_task f \<in> tids) (artifacts db)"
  "evidences (delete_task_rows tids db) = del (\<lambda>v. v_task v \<in> tids) (evidences db)"
  "dead_letters (delete_task_rows tids db) = del (\<lambda>l. l_task l \<in> tids) (dead_letters db)"
  "steps (delete_task_rows tids db) = del (\<lambda>s. s_task s \<in> tids) (steps db)"
  "runs (delete_task_rows tids db) = del (\<lambda>r. r_task r \<in> tids) (runs db)"
  "leases (delete_task_rows tids db) = del (\<lambda>z. z_step z \<in> s_id ` set (filter (\<lambda>s. s_task s \<in> tids) (steps db))) (leases db)"
  "deps (delete_task_rows tids db) = del (\<lambda>d. d_step d \<in> s_id ` set (filter (\<lambda>s. s_task s \<in> tids) (steps db)) \<or>
     d_parent d \<in> s_id ` set (filter (\<lambda>s. s_task s \<in> tids) (steps db))) (deps db)"
  by (cases "tids = {}"; simp add: delete_task_rows_def Let_def del_none)+

text \<open>The dead letters of an account belong to its tasks (\<open>fail_step\<close> and lease recovery write them so).\<close>

definition letters_owned :: "store \<Rightarrow> bool" where
  "letters_owned db \<longleftrightarrow>
     (\<forall>l \<in> set (dead_letters db). \<exists>t \<in> set (tasks db). t_id t = l_task l \<and> t_account t = l_account l)"

end
