(* ===== verification/Invariants.thy ===== *)
theory Invariants
  imports Executors Schedules Research Accounts
begin

text \<open>
  The invariant of the task engine over its tables of tasks, steps, dependencies, dead letters and
  executors, and that every operation of \<open>src/smara/store.py\<close> on those tables preserves it.
\<close>

section \<open>The invariant\<close>

text \<open>A step carries a lease, owner and expiry, exactly while it runs.\<close>

definition step_ok :: "step \<Rightarrow> bool" where
  "step_ok s \<longleftrightarrow> (s_status s = S_Running \<longleftrightarrow> s_lease_owner s \<noteq> None) \<and>
                  (s_lease_owner s = None \<longleftrightarrow> s_lease_expires s = None)"

text \<open>A running task needs no approval; a task waits only while it needs one.\<close>

definition task_ok :: "task \<Rightarrow> bool" where
  "task_ok t \<longleftrightarrow> (t_status t = T_Running \<longrightarrow> \<not> t_requires_approval t) \<and>
                  (t_status t = T_Waiting \<longrightarrow> t_requires_approval t)"

text \<open>A step that was started: it ran, and it has not been put back into the queue.\<close>

definition started :: "step \<Rightarrow> bool" where
  "started s \<longleftrightarrow> s_status s \<in> {S_Running, S_Completed, S_Failed}"

definition prior_done :: "dep list \<Rightarrow> step list \<Rightarrow> step \<Rightarrow> bool" where
  "prior_done D S s \<longleftrightarrow> (\<forall>d \<in> set D. \<forall>p \<in> set S. d_step d = s_id s \<longrightarrow> s_id p = d_parent d \<longrightarrow> s_status p = S_Completed)"

text \<open>An open dead letter of a failed step, and the paired desktop that holds a running step.\<close>

definition letter_for :: "step \<Rightarrow> dead_letter \<Rightarrow> bool" where
  "letter_for s l \<longleftrightarrow> l_step l = s_id s \<and> l_task l = s_task s \<and> l_resolved_at l = None"

definition held_by :: "task list \<Rightarrow> step \<Rightarrow> executor \<Rightarrow> bool" where
  "held_by T s x \<longleftrightarrow> s_lease_owner s = Some (x_id x) \<and> capability_in (set (x_capabilities x)) s \<and>
     (\<forall>t \<in> set T. t_id t = s_task s \<longrightarrow> t_account t = x_account x)"

definition keys_inv :: "task list \<Rightarrow> step list \<Rightarrow> bool" where
  "keys_inv T S \<longleftrightarrow> distinct (map t_id T) \<and> distinct (map s_id S) \<and> s_task ` set S \<subseteq> t_id ` set T"

definition core_inv :: "task list \<Rightarrow> step list \<Rightarrow> dep list \<Rightarrow> dead_letter list \<Rightarrow> executor list \<Rightarrow> bool" where
  "core_inv T S D L X \<longleftrightarrow> keys_inv T S \<and> (\<forall>t \<in> set T. task_ok t) \<and> (\<forall>s \<in> set S. step_ok s) \<and>
     (\<forall>s \<in> set S. started s \<longrightarrow> prior_done D S s) \<and>
     (\<forall>s \<in> set S. s_status s = S_Failed \<longrightarrow> (\<exists>l \<in> set L. letter_for s l)) \<and>
     (\<forall>s \<in> set S. s_status s = S_Running \<longrightarrow> s_kind s = Desktop \<longrightarrow> (\<exists>x \<in> set X. held_by T s x))"

definition engine_inv :: "store \<Rightarrow> bool" where
  "engine_inv db \<longleftrightarrow> core_inv (tasks db) (steps db) (deps db) (dead_letters db) (executors db)"

lemma engine_invD:
  assumes "engine_inv db"
  shows "distinct (map t_id (tasks db))" "distinct (map s_id (steps db))"
    "\<And>t. t \<in> set (tasks db) \<Longrightarrow> task_ok t" "\<And>s. s \<in> set (steps db) \<Longrightarrow> step_ok s"
    "\<And>s. s \<in> set (steps db) \<Longrightarrow> started s \<Longrightarrow> prior_done (deps db) (steps db) s"
    "\<And>s. s \<in> set (steps db) \<Longrightarrow> s_status s = S_Failed \<Longrightarrow> \<exists>l \<in> set (dead_letters db). letter_for s l"
    "\<And>s. s \<in> set (steps db) \<Longrightarrow> s_status s = S_Running \<Longrightarrow> s_kind s = Desktop \<Longrightarrow>
       \<exists>x \<in> set (executors db). held_by (tasks db) s x"
    "\<And>s. s \<in> set (steps db) \<Longrightarrow> \<exists>t \<in> set (tasks db). t_id t = s_task s"
  using assms by (auto simp: engine_inv_def core_inv_def keys_inv_def subset_iff image_iff) (metis imageI image_iff)

section \<open>Updates preserve it\<close>

text \<open>What no update of a step row changes.\<close>

definition same_step :: "step \<Rightarrow> step \<Rightarrow> bool" where
  "same_step s s' \<longleftrightarrow> s_id s' = s_id s \<and> s_task s' = s_task s \<and> s_kind s' = s_kind s \<and> s_capability s' = s_capability s"

definition same_task :: "task \<Rightarrow> task \<Rightarrow> bool" where
  "same_task t t' \<longleftrightarrow> t_id t' = t_id t \<and> t_account t' = t_account t"

text \<open>A legal move of a step row: the abstract state machine of a step.\<close>

definition legal :: "dep list \<Rightarrow> step list \<Rightarrow> step \<Rightarrow> step \<Rightarrow> bool" where
  "legal D S s s' \<longleftrightarrow> same_step s s' \<and> step_ok s' \<and>
     (s_status s = S_Completed \<longrightarrow> s_status s' = S_Completed) \<and>
     (started s' \<longrightarrow> started s \<or> prior_done D S s)"

lemma same_task_ids:
  assumes "\<And>t. t \<in> set T \<Longrightarrow> P t \<Longrightarrow> same_task t (f t)"
  shows "map t_id (upd P f T) = map t_id T"
    and "t' \<in> set (upd P f T) \<Longrightarrow> \<exists>t \<in> set T. t_id t = t_id t' \<and> t_account t = t_account t'"
proof -
  show "map t_id (upd P f T) = map t_id T" using assms by (intro map_upd) (simp add: same_task_def)
  assume "t' \<in> set (upd P f T)"
  then obtain t where t: "t \<in> set T" "t' = (if P t then f t else t)" by (auto simp: in_upd)
  then show "\<exists>t \<in> set T. t_id t = t_id t' \<and> t_account t = t_account t'"
    using assms [of t] by (intro bexI [OF _ t(1)]) (auto simp: same_task_def)
qed

lemma prior_done_legal:
  assumes "prior_done D S s" and "\<And>s. s \<in> set S \<Longrightarrow> Q s \<Longrightarrow> legal D S s (g s)" and "s_id s' = s_id s"
  shows "prior_done D (upd Q g S) s'"
  unfolding prior_done_def
proof (intro ballI impI)
  fix d p' assume d: "d \<in> set D" and p': "p' \<in> set (upd Q g S)" and e: "d_step d = s_id s'" "s_id p' = d_parent d"
  from p' obtain p where p: "p \<in> set S" "p' = (if Q p then g p else p)" by (auto simp: in_upd)
  have "s_id p = s_id p'" "s_status p = S_Completed \<longrightarrow> s_status p' = S_Completed"
    using p assms(2) [of p] by (auto simp: legal_def same_step_def)
  with d e p(1) assms(1,3) show "s_status p' = S_Completed" by (auto simp: prior_done_def)
qed

lemma core_upd:
  assumes inv: "core_inv T S D L X"
    and T: "\<And>t. t \<in> set T \<Longrightarrow> P t \<Longrightarrow> same_task t (f t) \<and> (task_ok t \<longrightarrow> task_ok (f t))"
    and S: "\<And>s. s \<in> set S \<Longrightarrow> Q s \<Longrightarrow> legal D S s (g s)"
    and L: "\<And>s. s \<in> set S \<Longrightarrow> Q s \<Longrightarrow> s_status (g s) = S_Failed \<Longrightarrow> \<exists>l \<in> set L'. letter_for s l"
    and L': "\<And>s. s \<in> set S \<Longrightarrow> \<not> Q s \<Longrightarrow> s_status s = S_Failed \<Longrightarrow> \<exists>l \<in> set L'. letter_for s l"
    and X: "\<And>s. s \<in> set S \<Longrightarrow> Q s \<Longrightarrow> s_status (g s) = S_Running \<Longrightarrow> s_kind s = Desktop \<Longrightarrow>
              \<exists>x \<in> set X. held_by T (g s) x"
  shows "core_inv (upd P f T) (upd Q g S) D L' X"
proof -
  have g: "same_step s (if Q s then g s else s)" if "s \<in> set S" for s
    using S [OF that] by (simp add: legal_def same_step_def)
  have Tids: "map t_id (upd P f T) = map t_id T" using T by (intro same_task_ids(1)) simp
  have Sids: "map s_id (upd Q g S) = map s_id S" "s_task ` set (upd Q g S) = s_task ` set S"
    using S by (auto simp: legal_def same_step_def intro!: map_upd image_upd)
  have keys: "keys_inv (upd P f T) (upd Q g S)"
    using inv Sids Tids unfolding core_inv_def keys_inv_def by (metis list.set_map)
  have tasks: "\<forall>t \<in> set (upd P f T). task_ok t"
    using inv T by (intro upd_preserves) (auto simp: core_inv_def)
  have steps: "\<forall>s \<in> set (upd Q g S). step_ok s"
    using inv S by (intro upd_preserves) (auto simp: core_inv_def legal_def)
  have order: "\<forall>s \<in> set (upd Q g S). started s \<longrightarrow> prior_done D (upd Q g S) s"
  proof (intro ballI impI)
    fix s' assume s': "s' \<in> set (upd Q g S)" "started s'"
    then obtain s where s: "s \<in> set S" "s' = (if Q s then g s else s)" by (auto simp: in_upd)
    have "prior_done D S s"
      using s s'(2) S [OF s(1)] inv by (cases "Q s") (auto simp: legal_def core_inv_def)
    then show "prior_done D (upd Q g S) s'"
      using S g [OF s(1)] s(2) by (intro prior_done_legal) (auto simp: same_step_def)
  qed
  have letters: "\<forall>s \<in> set (upd Q g S). s_status s = S_Failed \<longrightarrow> (\<exists>l \<in> set L'. letter_for s l)"
  proof (intro ballI impI)
    fix s' assume s': "s' \<in> set (upd Q g S)" "s_status s' = S_Failed"
    then obtain s where s: "s \<in> set S" "s' = (if Q s then g s else s)" by (auto simp: in_upd)
    have "\<exists>l \<in> set L'. letter_for s l" using s s'(2) L [OF s(1)] L' [OF s(1)] by (cases "Q s") auto
    moreover have "letter_for s l \<longleftrightarrow> letter_for s' l" for l
      using g [OF s(1)] s(2) by (simp add: letter_for_def same_step_def)
    ultimately show "\<exists>l \<in> set L'. letter_for s' l" by blast
  qed
  have holder: "\<forall>s \<in> set (upd Q g S). s_status s = S_Running \<longrightarrow> s_kind s = Desktop \<longrightarrow> (\<exists>x \<in> set X. held_by (upd P f T) s x)"
  proof (intro ballI impI)
    fix s' assume s': "s' \<in> set (upd Q g S)" "s_status s' = S_Running" "s_kind s' = Desktop"
    then obtain s where s: "s \<in> set S" "s' = (if Q s then g s else s)" by (auto simp: in_upd)
    have "s_kind s = Desktop" using g [OF s(1)] s'(3) s(2) by (simp add: same_step_def)
    then have "\<exists>x \<in> set X. held_by T s' x"
      using s s'(2) X [OF s(1)] inv by (cases "Q s") (auto simp: core_inv_def)
    then obtain x where x: "x \<in> set X" "held_by T s' x" by blast
    have "t_account t' = x_account x" if "t' \<in> set (upd P f T)" "t_id t' = s_task s'" for t'
    proof -
      have "\<exists>t \<in> set T. t_id t = t_id t' \<and> t_account t = t_account t'"
        by (rule same_task_ids(2) [OF _ that(1)]) (use T in blast)
      then show ?thesis using that(2) x(2) by (auto simp: held_by_def)
    qed
    with x show "\<exists>x \<in> set X. held_by (upd P f T) s' x" by (auto simp: held_by_def)
  qed
  show ?thesis unfolding core_inv_def using keys tasks steps order letters holder by blast
qed

lemma upd_False [simp]: "upd (\<lambda>_. False) f t = t"
  by (induction t) auto

lemma upd_upd: "(\<And>r. P r \<Longrightarrow> Q (f r) = Q r) \<Longrightarrow> upd Q h (upd P f t) = upd (\<lambda>r. P r \<or> Q r) (\<lambda>r. if Q r then h (if P r then f r else r) else f r) t"
  by (induction t) auto

text \<open>Updates of tasks only, and of steps that neither fail nor start.\<close>

lemma core_upd_tasks:
  assumes "core_inv T S D L X"
    and "\<And>t. t \<in> set T \<Longrightarrow> P t \<Longrightarrow> same_task t (f t) \<and> (task_ok t \<longrightarrow> task_ok (f t))"
  shows "core_inv (upd P f T) S D L X"
proof -
  have "core_inv (upd P f T) (upd (\<lambda>_. False) (\<lambda>s. s) S) D L X"
    using assms(1) by (rule core_upd) (use assms in \<open>auto simp: core_inv_def\<close>)
  then show ?thesis by simp
qed

lemma core_upd_steps:
  assumes "core_inv T S D L X"
    and "\<And>s. s \<in> set S \<Longrightarrow> Q s \<Longrightarrow> legal D S s (g s)"
    and "\<And>s. s \<in> set S \<Longrightarrow> Q s \<Longrightarrow> s_status (g s) \<noteq> S_Failed"
    and "\<And>s. s \<in> set S \<Longrightarrow> Q s \<Longrightarrow> s_status (g s) = S_Running \<Longrightarrow> s_kind s = Desktop \<Longrightarrow>
              \<exists>x \<in> set X. held_by T (g s) x"
  shows "core_inv T (upd Q g S) D L X"
proof -
  have "core_inv (upd (\<lambda>_. False) (\<lambda>t. t) T) (upd Q g S) D L X"
    using assms(1) by (rule core_upd) (use assms in \<open>auto simp: core_inv_def\<close>)
  then show ?thesis by simp
qed

section \<open>New tasks\<close>

lemma core_add_task:
  assumes inv: "core_inv T S D L X" and "task_ok t" and "t_id t \<notin> t_id ` set T"
    and rows: "\<And>s. s \<in> set R \<Longrightarrow> s_status s = S_Queued \<and> s_lease_owner s = None \<and> s_lease_expires s = None \<and> s_task s = t_id t"
    and ids: "distinct (map s_id R)" "s_id ` set R \<inter> s_id ` set S = {}"
    and ds: "\<And>d. d \<in> set D' \<Longrightarrow> d_step d \<in> s_id ` set R"
    and old: "\<And>d. d \<in> set D \<Longrightarrow> d_step d \<notin> s_id ` set R \<and> d_parent d \<notin> s_id ` set R"
  shows "core_inv (T @ [t]) (S @ R) (D @ D') L X"
proof -
  have keys: "keys_inv (T @ [t]) (S @ R)"
    using inv assms(3) rows ids by (auto simp: core_inv_def keys_inv_def)
  have order: "prior_done (D @ D') (S @ R) s" if s: "s \<in> set (S @ R)" "started s" for s
  proof -
    have sS: "s \<in> set S" using s rows by (auto simp: started_def)
    then have pd: "prior_done D S s" using inv s(2) by (simp add: core_inv_def)
    show ?thesis
      unfolding prior_done_def
    proof (intro ballI impI)
      fix d p assume d: "d \<in> set (D @ D')" "p \<in> set (S @ R)" "d_step d = s_id s" "s_id p = d_parent d"
      have "d_step d \<notin> s_id ` set R" using d(3) sS ids(2) by auto
      then have "d \<in> set D" using d(1) ds by auto
      moreover have "p \<in> set S" using d(2,4) old [OF \<open>d \<in> set D\<close>] by (metis Un_iff imageI set_append)
      ultimately show "s_status p = S_Completed" using pd d(3,4) by (auto simp: prior_done_def)
    qed
  qed
  have holder: "\<exists>x \<in> set X. held_by (T @ [t]) s x"
    if s: "s \<in> set (S @ R)" "s_status s = S_Running" "s_kind s = Desktop" for s
  proof -
    have sS: "s \<in> set S" using s rows by auto
    then obtain x where x: "x \<in> set X" "held_by T s x" using inv s by (auto simp: core_inv_def)
    have "s_task s \<in> t_id ` set T" using inv sS by (auto simp: core_inv_def keys_inv_def)
    then have "s_task s \<noteq> t_id t" using assms(3) by auto
    then show ?thesis using x by (auto simp: held_by_def)
  qed
  have steps: "step_ok s" if "s \<in> set (S @ R)" for s
    using that inv rows [of s] by (auto simp: core_inv_def step_ok_def)
  have letters: "\<exists>l \<in> set L. letter_for s l" if "s \<in> set (S @ R)" "s_status s = S_Failed" for s
    using that inv rows [of s] by (auto simp: core_inv_def)
  show ?thesis
    unfolding core_inv_def using keys order holder steps letters inv assms(2) by (auto simp: core_inv_def)
qed

end
