(* ===== verification/Engine.thy ===== *)
theory Engine
  imports Invariants
begin

text \<open>
  Every operation of the task engine preserves \<open>engine_inv\<close>; the relation \<open>engine\<close> of one successful
  operation by anyone, and the invariant of the stores reachable from the empty one.
\<close>

section \<open>Rows found by key\<close>

lemma same_row:
  assumes "engine_inv db" and "t \<in> set (tasks db)" and "t' \<in> set (tasks db)" and "t_id t' = t_id t"
  shows "t' = t"
  using engine_invD(1) [OF assms(1)] assms(3,2,4) by (rule key_inj)

lemma same_step_row:
  assumes "engine_inv db" and "s \<in> set (steps db)" and "s' \<in> set (steps db)" and "s_id s' = s_id s"
  shows "s' = s"
  using engine_invD(2) [OF assms(1)] assms(3,2,4) by (rule key_inj)

text \<open>Tables other than the five of the invariant do not matter.\<close>

lemma engine_frame:
  assumes "engine_inv db" and "tasks db' = tasks db" and "steps db' = steps db" and "deps db' = deps db"
    and "dead_letters db' = dead_letters db" and "executors db' = executors db"
  shows "engine_inv db'"
  using assms by (simp add: engine_inv_def)

lemma engine_tasks:
  assumes "engine_inv db" and "tasks db' = upd P f (tasks db)" and "steps db' = steps db" and "deps db' = deps db"
    and "dead_letters db' = dead_letters db" and "executors db' = executors db"
    and "\<And>t. t \<in> set (tasks db) \<Longrightarrow> P t \<Longrightarrow> same_task t (f t) \<and> (task_ok t \<longrightarrow> task_ok (f t))"
  shows "engine_inv db'"
  using assms unfolding engine_inv_def by (auto intro!: core_upd_tasks)

lemma engine_steps:
  assumes "engine_inv db" and "steps db' = upd Q g (steps db)" and "tasks db' = tasks db" and "deps db' = deps db"
    and "dead_letters db' = dead_letters db" and "executors db' = executors db"
    and "\<And>s. s \<in> set (steps db) \<Longrightarrow> Q s \<Longrightarrow> legal (deps db) (steps db) s (g s)"
    and "\<And>s. s \<in> set (steps db) \<Longrightarrow> Q s \<Longrightarrow> s_status (g s) \<noteq> S_Failed"
    and "\<And>s. s \<in> set (steps db) \<Longrightarrow> Q s \<Longrightarrow> s_status (g s) = S_Running \<Longrightarrow> s_kind s = Desktop \<Longrightarrow>
              \<exists>x \<in> set (executors db). held_by (tasks db) (g s) x"
  shows "engine_inv db'"
  using assms unfolding engine_inv_def by (auto intro!: core_upd_steps)

lemma engine_inv_ignores [simp]:
  "engine_inv (publish k o' db) = engine_inv db" "engine_inv (add_event u tid k p n db) = engine_inv db"
  "engine_inv (upd_runs R h db) = engine_inv db" "engine_inv (upd_leases Z w db) = engine_inv db"
  by (simp_all add: engine_inv_def)

section \<open>New tasks\<close>

lemma py_index_set: "py_index xs i = Inr x \<Longrightarrow> x \<in> set xs"
  using nth_mem [of "nat (- i - 1)" "rev xs"] nth_mem [of "nat i" xs] by (auto simp: py_index_def split: if_splits)

lemma add_parents_ext:
  "add_parents ids child ps ds = Inr ds' \<Longrightarrow>
     \<exists>D. ds' = ds @ D \<and> (\<forall>d \<in> set D. d_step d = child \<and> d_parent d \<in> set ids)"
proof (induction ps arbitrary: ds)
  case Nil
  then show ?case by simp
next
  case (Cons p ps)
  then obtain parent where p: "py_index ids p = Inr parent"
      and "add_parents ids child ps (ds @ [\<lparr>d_step = child, d_parent = parent\<rparr>]) = Inr ds'"
    by (auto simp: insert_dep_def insert_unique_def split: if_splits)
  from Cons.IH [OF this(2)] py_index_set [OF p] show ?case by auto
qed

lemma add_deps_ext:
  "add_deps ids rest ds = Inr ds' \<Longrightarrow> \<forall>(k, i) \<in> set rest. k < length ids \<Longrightarrow>
     \<exists>D. ds' = ds @ D \<and> d_step ` set D \<subseteq> set ids \<and> d_parent ` set D \<subseteq> set ids"
proof (induction ids rest ds rule: add_deps.induct)
  case (2 ids k i rest ds)
  then obtain ds1 where ds1: "add_parents ids (ids ! k) (i_depends_on i) ds = Inr ds1" "add_deps ids rest ds1 = Inr ds'"
    by auto
  obtain D1 where "ds1 = ds @ D1" "\<forall>d \<in> set D1. d_step d = ids ! k \<and> d_parent d \<in> set ids"
    using add_parents_ext [OF ds1(1)] by blast
  moreover obtain D2 where "ds' = ds1 @ D2" "d_step ` set D2 \<subseteq> set ids" "d_parent ` set D2 \<subseteq> set ids"
    using "2.IH" [OF ds1(2)] "2.prems"(2) by auto
  moreover have "ids ! k \<in> set ids" using "2.prems"(2) by auto
  ultimately show ?case by (intro exI [of _ "D1 @ D2"]) auto
qed simp

lemma step_rows_queued:
  "s \<in> set (step_rows e tid rid now ins) \<Longrightarrow>
     s_status s = S_Queued \<and> s_lease_owner s = None \<and> s_lease_expires s = None \<and> s_task s = tid"
  by (auto simp: in_step_rows step_row_def)

lemma fresh_ids:
  assumes "fresh e db"
  shows "distinct (map (step_id e) [0..<n])" and "step_id e ` A \<inter> s_id ` set (steps db) = {}"
    and "d \<in> set (deps db) \<Longrightarrow> d_step d \<notin> step_id e ` A \<and> d_parent d \<notin> step_id e ` A"
    and "''task_'' @ uuid e p \<notin> t_id ` set (tasks db)"
proof -
  have "inj (uuid e)" using assms by (simp add: fresh_def)
  then show "distinct (map (step_id e) [0..<n])" by (auto simp: distinct_map inj_on_def step_id_inj)
  show "step_id e ` A \<inter> s_id ` set (steps db) = {}" using assms by (auto simp: fresh_def step_id_def image_iff)
  show "d \<in> set (deps db) \<Longrightarrow> d_step d \<notin> step_id e ` A \<and> d_parent d \<notin> step_id e ` A"
    using assms unfolding fresh_def step_id_def by (metis (no_types, lifting) imageE imageI)
  show "''task_'' @ uuid e p \<notin> t_id ` set (tasks db)" using assms by (simp add: fresh_def)
qed

lemma insert_task_tables:
  assumes "insert_task e acct ws title objective req ins mode now db = Inr (db', tid)"
  shows "\<exists>t rows D. tasks db' = tasks db @ [t] \<and> steps db' = steps db @ rows \<and> deps db' = deps db @ D \<and>
     dead_letters db' = dead_letters db \<and> executors db' = executors db \<and> schedules db' = schedules db \<and>
     tid = ''task_'' @ uuid e [0] \<and> t_id t = tid \<and> t_account t = acct \<and> t_status t = T_Queued \<and>
     rows = step_rows e tid (''run_'' @ uuid e [1]) now (if ins = [] then default_steps else ins) \<and>
     d_step ` set D \<subseteq> s_id ` set rows \<and> d_parent ` set D \<subseteq> s_id ` set rows \<and> runs db' = runs db @ [\<lparr>r_id = ''run_'' @ uuid e [1], r_task = tid,
       r_attempt = 1, r_status = R_Queued, r_created_at = now\<rparr>] \<and> approvals db' = approvals db"
proof -
  define ins' where "ins' = (if ins = [] then default_steps else ins)"
  obtain ds where ds: "add_deps (map (step_id e) [0..<length ins']) (enumerate_from 0 ins') (deps db) = Inr ds"
    using assms by (auto simp: insert_task_def Let_def ins'_def [symmetric] split: if_splits)
  have "\<forall>(k, i) \<in> set (enumerate_from 0 ins'). k < length (map (step_id e) [0..<length ins'])"
    by (auto simp: set_enumerate_from)
  from add_deps_ext [OF ds this] obtain D where D: "ds = deps db @ D" "d_step ` set D \<subseteq> step_id e ` {0..<length ins'}"
      "d_parent ` set D \<subseteq> step_id e ` {0..<length ins'}"
    by auto
  have "s_id ` set (step_rows e (''task_'' @ uuid e [0]) (''run_'' @ uuid e [1]) now ins') = step_id e ` {0..<length ins'}"
    by (metis list.set_map set_upt step_rows_simps(1))
  then show ?thesis
    using assms ds D by (auto simp: insert_task_def Let_def ins'_def [symmetric] split: if_splits)
qed

lemma insert_task_inv:
  assumes "insert_task e acct ws title objective req ins mode now db = Inr (db', tid)"
    and "fresh e db" and "engine_inv db"
  shows "engine_inv db'"
proof -
  define rows where "rows = step_rows e tid (''run_'' @ uuid e [1]) now (if ins = [] then default_steps else ins)"
  obtain t D where t: "tasks db' = tasks db @ [t]" "steps db' = steps db @ rows" "deps db' = deps db @ D"
      "dead_letters db' = dead_letters db" "executors db' = executors db" "tid = ''task_'' @ uuid e [0]"
      "t_id t = tid" "t_status t = T_Queued" "d_step ` set D \<subseteq> s_id ` set rows"
    using insert_task_tables [OF assms(1)] unfolding rows_def by blast
  have ids: "s_id ` set rows = step_id e ` {0..<length (if ins = [] then default_steps else ins)}"
    unfolding rows_def by (metis list.set_map set_upt step_rows_simps(1))
  have "core_inv (tasks db @ [t]) (steps db @ rows) (deps db @ D) (dead_letters db) (executors db)"
  proof (rule core_add_task)
    show "core_inv (tasks db) (steps db) (deps db) (dead_letters db) (executors db)"
      using assms(3) by (simp add: engine_inv_def)
    show "task_ok t" using t(8) by (simp add: task_ok_def)
    show "t_id t \<notin> t_id ` set (tasks db)" using fresh_ids(4) [OF assms(2)] t(6,7) by simp
    show "s_status s = S_Queued \<and> s_lease_owner s = None \<and> s_lease_expires s = None \<and> s_task s = t_id t"
      if "s \<in> set rows" for s using step_rows_queued that t(7) unfolding rows_def by blast
    show "distinct (map s_id rows)" unfolding rows_def by (simp add: fresh_ids(1) [OF assms(2)])
    show "s_id ` set rows \<inter> s_id ` set (steps db) = {}" unfolding ids by (rule fresh_ids(2) [OF assms(2)])
    show "\<And>d. d \<in> set D \<Longrightarrow> d_step d \<in> s_id ` set rows" using t(9) by auto
    show "\<And>d. d \<in> set (deps db) \<Longrightarrow> d_step d \<notin> s_id ` set rows \<and> d_parent d \<notin> s_id ` set rows"
      unfolding ids by (rule fresh_ids(3) [OF assms(2)])
  qed
  with t show ?thesis by (simp add: engine_inv_def)
qed

lemma create_task_inv:
  assumes "create_task e acct ws title objective req ins mode db = Inr (db', t)" and "fresh e db" and "engine_inv db"
  shows "engine_inv db'"
proof -
  obtain db1 tid where "insert_task e acct ws title objective req ins mode (clk e 0) db = Inr (db1, tid)"
      and db': "db' = publish ''task.created'' (Some tid) db1"
    using assms(1) by (auto simp: create_task_def split: prod.splits)
  then have "engine_inv db1" using assms by (blast intro: insert_task_inv)
  then show ?thesis unfolding db' by (rule engine_frame) simp_all
qed

lemma zip_tl_snd: "(a, b) \<in> set (zip xs (tl xs)) \<Longrightarrow> b \<in> set xs"
  by (cases xs) (auto dest: set_zip_rightD)

lemma create_research_engine:
  assumes "create_research canon e acct ws title q srcs db = Inr (db', t)" and "fresh e db" and "engine_inv db"
  shows "engine_inv db'"
proof -
  define srcs' where "srcs' = unique_sources canon [] srcs"
  define tid where "tid = ''task_'' @ uuid e [0]"
  define rows where "rows = map (\<lambda>(k, name). research_step_row e tid (''run_'' @ uuid e [1]) (clk e 0) k name)
      (enumerate_from 0 (research_steps srcs'))"
  define row where "row = \<lparr>t_id = tid, t_account = acct, t_workspace = ws, t_title = title,
      t_objective = q, t_status = T_Queued, t_requires_approval = False, t_approval_mode = ''hosted'',
      t_created_at = clk e 0, t_updated_at = clk e 0, t_cancel_requested = False, t_result = None\<rparr>"
  define D where "D = map (\<lambda>(parent, child). \<lparr>d_step = child, d_parent = parent\<rparr>) (zip (map s_id rows) (tl (map s_id rows)))"
  have db': "tasks db' = tasks db @ [row] \<and> steps db' = steps db @ rows \<and> deps db' = deps db @ D \<and>
      dead_letters db' = dead_letters db \<and> executors db' = executors db"
    using assms(1) unfolding create_research_def
    unfolding tid_def [symmetric] srcs'_def [symmetric] Let_def
    unfolding rows_def [symmetric] D_def [symmetric] row_def [symmetric] by auto
  have sids: "map s_id rows = map (step_id e) [0..<length (research_steps srcs')]"
  proof -
    have "map s_id rows = map (step_id e) (map fst (enumerate_from 0 (research_steps srcs')))"
      by (simp add: rows_def research_step_row_def step_row_def case_prod_beta)
    then show ?thesis by (simp add: map_fst_enumerate_from)
  qed
  then have ids: "s_id ` set rows = step_id e ` {0..<length (research_steps srcs')}"
    by (metis list.set_map set_upt)
  have "core_inv (tasks db @ [row]) (steps db @ rows) (deps db @ D) (dead_letters db) (executors db)"
  proof (rule core_add_task)
    show "core_inv (tasks db) (steps db) (deps db) (dead_letters db) (executors db)"
      using assms(3) by (simp add: engine_inv_def)
    show "task_ok row" by (simp add: task_ok_def row_def)
    show "t_id row \<notin> t_id ` set (tasks db)" using fresh_ids(4) [OF assms(2)] by (simp add: row_def tid_def)
    show "s_status s = S_Queued \<and> s_lease_owner s = None \<and> s_lease_expires s = None \<and> s_task s = t_id row"
      if "s \<in> set rows" for s
      using that by (auto simp: rows_def row_def research_step_row_def step_row_def)
    show "distinct (map s_id rows)" unfolding sids by (rule fresh_ids(1) [OF assms(2)])
    show "s_id ` set rows \<inter> s_id ` set (steps db) = {}" unfolding ids by (rule fresh_ids(2) [OF assms(2)])
    show "d_step d \<in> s_id ` set rows" if "d \<in> set D" for d
      using that zip_tl_snd by (fastforce simp: D_def)
    show "\<And>d. d \<in> set (deps db) \<Longrightarrow> d_step d \<notin> s_id ` set rows \<and> d_parent d \<notin> s_id ` set rows"
      unfolding ids by (rule fresh_ids(3) [OF assms(2)])
  qed
  with db' show ?thesis by (simp add: engine_inv_def)
qed

section \<open>The user's decisions\<close>

lemma request_approval_inv:
  assumes "request_approval e tid acct db = Inr (db', r)" and "engine_inv db"
  shows "engine_inv db'"
proof -
  obtain t where t: "get_task tid acct db = Inr t" "t_requires_approval t"
    using assms(1) by (auto simp: request_approval_def split: if_splits)
  note tD = get_task_Inr [OF t(1)]
  have req: "t_requires_approval x" if "x \<in> set (tasks db)" "t_id x = tid" for x
    using same_row [OF assms(2), of t x] tD that t(2) by simp
  show ?thesis
  proof (cases "t_status t = T_Queued")
    case False
    then show ?thesis using assms t by (simp add: request_approval_def)
  next
    case True
    show ?thesis
      by (rule engine_tasks [OF assms(2), where P = "\<lambda>r. t_id r = tid \<and> t_account r = acct \<and> t_status r = T_Queued"
              and f = "\<lambda>r. r\<lparr>t_status := T_Waiting, t_updated_at := clk e 0\<rparr>"])
        (use assms(1) t True req in \<open>auto simp: request_approval_def Let_def same_task_def task_ok_def\<close>)
  qed
qed

lemma legal_cancelled:
  "step_ok s \<Longrightarrow> s_status s = S_Queued \<Longrightarrow> legal D S s (s\<lparr>s_status := S_Cancelled\<rparr>)"
  by (auto simp: legal_def same_step_def step_ok_def started_def)

lemma put_approval_simps [simp]:
  "tasks (put_approval tid st n t db) = tasks db" "steps (put_approval tid st n t db) = steps db"
  "deps (put_approval tid st n t db) = deps db" "dead_letters (put_approval tid st n t db) = dead_letters db"
  "executors (put_approval tid st n t db) = executors db" "leases (put_approval tid st n t db) = leases db"
  "runs (put_approval tid st n t db) = runs db" "schedules (put_approval tid st n t db) = schedules db"
  by (simp_all add: put_approval_def)

lemma apply_decision_inv:
  assumes "engine_inv db"
  shows "engine_inv (apply_decision e now tid approved note source db)"
proof -
  let ?f = "\<lambda>r. r\<lparr>t_status := (if approved then T_Queued else T_Cancelled), t_requires_approval := \<not> approved, t_updated_at := now\<rparr>"
  let ?db1 = "upd_tasks (task_is tid) ?f db"
  have db1: "engine_inv ?db1"
    by (rule engine_tasks [OF assms, where P = "task_is tid" and f = ?f]) (auto simp: same_task_def task_ok_def)
  show ?thesis
  proof (cases approved)
    case True
    then show ?thesis by (intro engine_frame [OF db1]) (simp_all add: apply_decision_def Let_def)
  next
    case False
    show ?thesis
      by (rule engine_steps [OF db1, where Q = "\<lambda>s. s_task s = tid \<and> s_status s = S_Queued" and g = "\<lambda>s. s\<lparr>s_status := S_Cancelled\<rparr>"])
        (use False engine_invD(4) [OF db1] in \<open>simp_all add: apply_decision_def Let_def legal_cancelled\<close>)
  qed
qed

lemma decide_inv:
  assumes "decide e tid acct approved note source db = Inr (db', r)" and "engine_inv db"
  shows "engine_inv db'"
  using assms apply_decision_inv [OF assms(2)]
  by (auto simp: decide_def Let_def split: if_splits intro: engine_frame)

lemma apply_cancel_inv:
  assumes "engine_inv db"
  shows "engine_inv (apply_cancel e now tid db)"
proof -
  let ?f = "\<lambda>r. r\<lparr>t_status := T_Cancelling, t_cancel_requested := True, t_updated_at := now\<rparr>"
  let ?g = "\<lambda>r. r\<lparr>t_status := T_Cancelled, t_updated_at := now\<rparr>"
  define db1 where "db1 = upd_steps (\<lambda>s. s_task s = tid \<and> s_status s = S_Queued) (\<lambda>s. s\<lparr>s_status := S_Cancelled\<rparr>)
      (upd_tasks (task_is tid) ?f db)"
  have "engine_inv (upd_tasks (task_is tid) ?f db)"
    by (rule engine_tasks [OF assms, where P = "task_is tid" and f = ?f]) (auto simp: same_task_def task_ok_def)
  then have db1: "engine_inv db1"
    by (rule engine_steps [where Q = "\<lambda>s. s_task s = tid \<and> s_status s = S_Queued" and g = "\<lambda>s. s\<lparr>s_status := S_Cancelled\<rparr>"])
      (use engine_invD(4) [OF assms] in \<open>simp_all add: db1_def legal_cancelled\<close>)
  have db2: "engine_inv (upd_tasks (task_is tid) ?g db1)"
    by (rule engine_tasks [OF db1, where P = "task_is tid" and f = ?g]) (auto simp: same_task_def task_ok_def)
  show ?thesis
    unfolding apply_cancel_def Let_def db1_def [symmetric]
    using db1 db2 by simp
qed

lemma cancel_inv:
  assumes "cancel e tid acct db = Inr (db', r)" and "engine_inv db"
  shows "engine_inv db'"
  using assms apply_cancel_inv [OF assms(2), of e "clk e 0" tid]
  by (auto simp: cancel_def Let_def split: if_splits intro: engine_frame)

lemma letter_for_retry:
  assumes "\<exists>l \<in> set L. letter_for s l" and "s_task s \<noteq> tid"
  shows "\<exists>l \<in> set (upd (\<lambda>l. l_task l = tid \<and> l_resolved_at l = None) f L). letter_for s l"
  using assms by (force simp: letter_for_def upd_def)

lemma apply_retry_tables [simp]:
  "tasks (apply_retry e now tid acct req db) = upd (\<lambda>r. t_id r = tid \<and> t_account r = acct) (reopen_task now req) (tasks db)"
  "steps (apply_retry e now tid acct req db) = upd (\<lambda>s. s_task s = tid \<and> s_status s \<in> {S_Failed, S_Cancelled}) reopen_step (steps db)"
  "deps (apply_retry e now tid acct req db) = deps db" "executors (apply_retry e now tid acct req db) = executors db"
  "dead_letters (apply_retry e now tid acct req db) = upd (\<lambda>l. l_task l = tid \<and> l_resolved_at l = None)
     (\<lambda>l. l\<lparr>l_resolved_at := Some now\<rparr>) (dead_letters db)"
  by (simp_all add: apply_retry_def Let_def)

lemma apply_retry_inv:
  assumes "engine_inv db"
  shows "engine_inv (apply_retry e now tid acct req db)"
  unfolding engine_inv_def apply_retry_tables
proof (rule core_upd)
  show "core_inv (tasks db) (steps db) (deps db) (dead_letters db) (executors db)"
    using assms by (simp add: engine_inv_def)
  show "\<exists>l \<in> set (upd (\<lambda>l. l_task l = tid \<and> l_resolved_at l = None) (\<lambda>l. l\<lparr>l_resolved_at := Some now\<rparr>) (dead_letters db)). letter_for s l"
    if "s \<in> set (steps db)" "\<not> (s_task s = tid \<and> s_status s \<in> {S_Failed, S_Cancelled})" "s_status s = S_Failed" for s
    using engine_invD(6) [OF assms that(1,3)] that by (intro letter_for_retry) auto
qed (auto simp: reopen_task_def reopen_step_def same_task_def task_ok_def legal_def same_step_def step_ok_def started_def)

lemma retry_task_inv:
  assumes "retry_task e tid acct db = Inr (db', r)" and "engine_inv db"
  shows "engine_inv db'"
  using assms(1) apply_retry_inv [OF assms(2), of e "clk e 0" tid acct]
  by (auto simp: retry_task_def Let_def split: if_splits intro: engine_frame)

section \<open>Lease recovery\<close>

text \<open>A running step may be released into any status but running; failing needs a dead letter.\<close>

lemma legal_release:
  "s_status s = S_Running \<Longrightarrow> same_step (release st s) s' \<Longrightarrow> s_status s' = st \<Longrightarrow> st \<noteq> S_Running \<Longrightarrow>
   s_lease_owner s' = None \<Longrightarrow> s_lease_expires s' = None \<Longrightarrow> legal D S s s'"
  by (auto simp: legal_def same_step_def step_ok_def started_def)

lemma legal_release_same: "s_status s = S_Running \<Longrightarrow> st \<noteq> S_Running \<Longrightarrow> legal D S s (release st s)"
  by (rule legal_release) (auto simp: same_step_def)

lemma engine_release:
  assumes inv: "engine_inv db" and s: "s \<in> set (steps db)" "s_status s = S_Running" "st \<notin> {S_Running, S_Failed}"
  shows "engine_inv (upd_steps (step_is (s_id s)) (release st) db)"
  by (rule engine_steps [OF inv, where Q = "step_is (s_id s)" and g = "release st"])
    (use s same_step_row [OF inv s(1)] in \<open>auto intro!: legal_release_same\<close>)

lemma engine_task_status:
  assumes "engine_inv db" and "\<And>t. P t \<Longrightarrow> same_task t (f t) \<and> t_status (f t) \<notin> {T_Running, T_Waiting}"
  shows "engine_inv (upd_tasks P f db)"
  using assms by (intro engine_tasks [OF assms(1), where P = P and f = f]) (auto simp: task_ok_def)

lemma recover_step_inv:
  assumes "engine_inv db" and "s \<in> set (steps db)" and "s_status s = S_Running"
  shows "engine_inv (recover_step e now (k, s) db)"
  unfolding recover_step_def Let_def prod.case
  using assms by (auto intro!: engine_release engine_task_status simp: same_task_def)

lemma recover_step_others:
  "r \<in> set (steps db) \<Longrightarrow> s_id r \<noteq> s_id s \<Longrightarrow> r \<in> set (steps (recover_step e now (k, s) db))"
  by (auto simp: recover_step_def Let_def in_upd intro!: bexI [of _ r])

text \<open>A loop over running rows, each iteration of which changes no other row.\<close>

lemma fold_running:
  assumes "engine_inv db" and "distinct (map (s_id \<circ> row) items)"
    and "\<forall>i \<in> set items. row i \<in> set (steps db) \<and> s_status (row i) = S_Running \<and> ok i"
    and step: "\<And>i db. engine_inv db \<Longrightarrow> row i \<in> set (steps db) \<Longrightarrow> s_status (row i) = S_Running \<Longrightarrow> ok i \<Longrightarrow> engine_inv (F i db)"
    and others: "\<And>i db r. r \<in> set (steps db) \<Longrightarrow> s_id r \<noteq> s_id (row i) \<Longrightarrow> r \<in> set (steps (F i db))"
  shows "engine_inv (fold F items db)"
  using assms(1,2,3)
proof (induction items arbitrary: db)
  case Nil
  then show ?case by simp
next
  case (Cons i items)
  have "engine_inv (F i db)" using Cons.prems by (intro step) auto
  moreover have "\<forall>j \<in> set items. row j \<in> set (steps (F i db)) \<and> s_status (row j) = S_Running \<and> ok j"
  proof
    fix j assume j: "j \<in> set items"
    moreover have "(s_id \<circ> row) i \<notin> (s_id \<circ> row) ` set items" using Cons.prems(2) by simp
    ultimately have "s_id (row j) \<noteq> s_id (row i)" by (metis comp_apply imageI)
    then show "row j \<in> set (steps (F i db)) \<and> s_status (row j) = S_Running \<and> ok j"
      using others Cons.prems(3) j by simp
  qed
  ultimately show ?case using Cons.IH Cons.prems(2) by simp
qed

lemma map_snd_items: "map (g \<circ> snd) (enumerate_from n xs) = map g xs"
  by (metis map_map map_snd_enumerate_from)

lemma snd_in_items: "i \<in> set (enumerate_from n xs) \<Longrightarrow> snd i \<in> set xs"
  by (metis image_eqI list.set_map map_snd_enumerate_from)

lemma recover_hosted_inv:
  assumes "engine_inv db"
  shows "engine_inv (recover_hosted e now db)"
  unfolding recover_hosted_def
proof (rule fold_running [where row = snd and ok = "\<lambda>_. True"])
  show "engine_inv db" by fact
  show "distinct (map (s_id \<circ> snd) (enumerate_from 0 (filter (hosted_expired now) (steps db))))"
    unfolding map_snd_items using engine_invD(2) [OF assms] by (simp add: distinct_map_filter)
  show "\<forall>i \<in> set (enumerate_from 0 (filter (hosted_expired now) (steps db))).
      snd i \<in> set (steps db) \<and> s_status (snd i) = S_Running \<and> True"
    using snd_in_items by (fastforce simp: hosted_expired_def)
  show "engine_inv (recover_step e now i db)"
    if "engine_inv db" "snd i \<in> set (steps db)" "s_status (snd i) = S_Running" for i db
    using recover_step_inv [OF that, of e now "fst i"] by simp
  show "r \<in> set (steps (recover_step e now i db))" if "r \<in> set (steps db)" "s_id r \<noteq> s_id (snd i)" for i db r
    using recover_step_others [OF that, of e now "fst i"] by simp
qed

section \<open>Claims\<close>

lemma in_joined: "(t, s) \<in> set (joined db) \<longleftrightarrow> t \<in> set (tasks db) \<and> s \<in> set (steps db) \<and> s_task s = t_id t"
  by (auto simp: joined_def)

lemma parents_done_prior: "parents_done db s \<longleftrightarrow> prior_done (deps db) (steps db) s"
  by (auto simp: parents_done_def prior_done_def)

lemma claimed_in: "fetchone (sort_key f (filter P xs)) = Some x \<Longrightarrow> x \<in> set xs \<and> P x"
  by (auto dest: fetchone_in)

lemma legal_lease:
  "s_status s = S_Queued \<Longrightarrow> prior_done D S s \<Longrightarrow> legal D S s (lease_step owner until s)"
  by (auto simp: legal_def same_step_def step_ok_def started_def lease_step_def)

lemma start_work_inv:
  assumes inv: "engine_inv db" and ts: "(t, s) \<in> set (joined db)" "\<not> t_requires_approval t" "s_status s = S_Queued"
    "parents_done db s"
    and X: "s_kind s = Desktop \<Longrightarrow> \<exists>x \<in> set (executors db). x_id x = owner \<and> capability_in (set (x_capabilities x)) s \<and>
              t_account t = x_account x"
  shows "engine_inv (start_work now owner until (t, s) db)"
proof -
  let ?f = "\<lambda>r. r\<lparr>t_status := T_Running, t_updated_at := now\<rparr>"
  have ts': "t \<in> set (tasks db)" "s \<in> set (steps db)" "s_task s = t_id t" using ts(1) by (simp_all add: in_joined)
  have db1: "engine_inv (upd_tasks (task_is (t_id t)) ?f db)"
    by (rule engine_tasks [OF inv, where P = "task_is (t_id t)" and f = ?f])
      (use same_row [OF inv ts'(1)] ts(2) in \<open>auto simp: same_task_def task_ok_def\<close>)
  show ?thesis
  proof (rule engine_steps [OF db1, where Q = "step_is (s_id s)" and g = "lease_step owner until"])
    fix r assume "r \<in> set (steps (upd_tasks (task_is (t_id t)) ?f db))" "step_is (s_id s) r"
    then have r: "r = s" using same_step_row [OF inv ts'(2)] by simp
    show "legal (deps (upd_tasks (task_is (t_id t)) ?f db)) (steps (upd_tasks (task_is (t_id t)) ?f db)) r (lease_step owner until r)"
      using ts(3,4) r by (simp add: legal_lease parents_done_prior)
    show "s_status (lease_step owner until r) \<noteq> S_Failed" by (simp add: lease_step_def)
    assume "s_kind r = Desktop"
    then obtain x where x: "x \<in> set (executors db)" "x_id x = owner" "capability_in (set (x_capabilities x)) s"
        "t_account t = x_account x"
      using X r by blast
    have "t_account u = x_account x" if "u \<in> set (tasks db)" "t_id u = s_task s" for u
      using same_row [OF inv ts'(1) that(1)] that(2) ts'(3) x(4) by simp
    then have "held_by (tasks (upd_tasks (task_is (t_id t)) ?f db)) (lease_step owner until r) x"
      using x r by (auto simp: held_by_def lease_step_def capability_in_def in_upd split: if_splits)
    then show "\<exists>x \<in> set (executors (upd_tasks (task_is (t_id t)) ?f db)).
        held_by (tasks (upd_tasks (task_is (t_id t)) ?f db)) (lease_step owner until r) x"
      using x(1) by auto
  qed (simp_all add: start_work_def)
qed

text \<open>The gate of the hosted claim: what it leases is released work that is not for a desktop.\<close>

lemma hosted_gate:
  assumes "engine_inv db" and "hosted_ready kinds now db (t, s)" and "t \<in> set (tasks db)"
    and "\<not> (t_requires_approval t \<and> t_status t = T_Queued)"
  shows "\<not> t_requires_approval t \<and> s_kind s \<noteq> Desktop"
proof -
  have "t_status t = T_Queued \<or> t_status t = T_Running" and kind: "kind_claimable kinds t s"
    using assms(2) by (simp_all add: hosted_ready_def)
  then have "\<not> t_requires_approval t" using engine_invD(3) [OF assms(1,3)] assms(4) by (auto simp: task_ok_def)
  with kind show ?thesis
    by (cases "set kinds = {Hosted, Sandbox}"; cases "s_kind s") (simp_all add: kind_claimable_def)
qed

lemma surface_approval_inv:
  assumes "engine_inv db" and "t \<in> set (tasks db)" and "t_requires_approval t"
  shows "engine_inv (fst (surface_approval e now (t, s) db))"
  by (rule engine_tasks [OF assms(1), where P = "task_is (t_id t)" and f = "\<lambda>r. r\<lparr>t_status := T_Waiting, t_updated_at := now\<rparr>"])
    (use same_row [OF assms(1,2)] assms(3) in \<open>auto simp: surface_approval_def Let_def same_task_def task_ok_def\<close>)

text \<open>The outcomes of a hosted claim.\<close>

lemma claim_one_cases:
  assumes "claim_one e worker secs kinds db = (db', c)"
  obtains (none) "db' = recover_hosted e (clk e 0) db" "c = None"
  | (surfaced) t s where "(t, s) \<in> set (joined (recover_hosted e (clk e 0) db))"
      "hosted_ready kinds (clk e 0) (recover_hosted e (clk e 0) db) (t, s)"
      "t_requires_approval t" "t_status t = T_Queued"
      "(db', c) = (let (db, c) = surface_approval e (clk e 0) (t, s) (recover_hosted e (clk e 0) db) in (db, Some c))"
  | (leased) t s where "(t, s) \<in> set (joined (recover_hosted e (clk e 0) db))"
      "hosted_ready kinds (clk e 0) (recover_hosted e (clk e 0) db) (t, s)"
      "\<not> (t_requires_approval t \<and> t_status t = T_Queued)"
      "db' = add_event (uuid e [1]) (t_id t) ''task.started'' (JObj [(''source'', JStr ''worker'')]) (clk e 0)
         (start_work (clk e 0) worker (clk e 1 + seconds secs) (t, s) (recover_hosted e (clk e 0) db))"
      "c = Some ((claim_of (t\<lparr>t_status := T_Running, t_updated_at := clk e 0\<rparr>) s)\<lparr>cl_lease_owner := Some worker\<rparr>)"
proof -
  let ?db = "recover_hosted e (clk e 0) db"
  show thesis
  proof (cases "fetchone (sort_key claim_order (filter (hosted_ready kinds (clk e 0) ?db) (joined ?db)))")
    case None
    with assms show thesis by (intro none) (auto simp: claim_one_def Let_def)
  next
    case (Some ts)
    obtain t s where ts: "ts = (t, s)" by (cases ts)
    note in_j = claimed_in [OF Some]
    show thesis
    proof (cases "t_requires_approval t \<and> t_status t = T_Queued")
      case True
      with assms Some ts in_j show thesis by (intro surfaced [of t s]) (simp_all add: claim_one_def Let_def)
    next
      case False
      with assms Some ts in_j show thesis by (intro leased [of t s]) (auto simp: claim_one_def Let_def)
    qed
  qed
qed

lemma claim_one_inv:
  assumes "claim_one e worker secs kinds db = (db', c)" and "engine_inv db"
  shows "engine_inv db'"
  using assms(1)
proof (cases rule: claim_one_cases)
  case none
  then show ?thesis using recover_hosted_inv [OF assms(2)] by simp
next
  case (surfaced t s)
  then show ?thesis
    using surface_approval_inv [OF recover_hosted_inv [OF assms(2)], of t e "clk e 0" e "clk e 0" s]
    by (auto simp: in_joined case_prod_beta)
next
  case (leased t s)
  have inv: "engine_inv (recover_hosted e (clk e 0) db)" using assms(2) by (rule recover_hosted_inv)
  have "\<not> t_requires_approval t \<and> s_kind s \<noteq> Desktop"
    using leased by (intro hosted_gate [OF inv]) (auto simp: in_joined)
  then have "engine_inv (start_work (clk e 0) worker (clk e 1 + seconds secs) (t, s) (recover_hosted e (clk e 0) db))"
    using leased by (intro start_work_inv [OF inv]) (auto simp: hosted_ready_def)
  then show ?thesis unfolding leased(4) by simp
qed

end
