(* ===== verification/Reachable.thy ===== *)
theory Reachable
  imports Engine
begin

text \<open>
  The rest of the operations preserve \<open>engine_inv\<close>: completing and failing a step, the desktop's
  claims and leases, schedules, pairing and account deletion. \<open>engine\<close> relates two stores by one
  operation of any caller, and every store reachable from the empty one satisfies the invariant.
\<close>

section \<open>Completing and failing a step\<close>

lemma owned_step_Inr: "owned_step sid acct db = Inr s \<Longrightarrow> s \<in> set (steps db) \<and> s_id s = sid"
  by (auto simp: owned_step_def split: option.splits dest: fetchone_SomeD)

lemma record_artifact_inv [simp]: "engine_inv (record_artifact e now tid sid ak an r db) = engine_inv db"
  by (auto simp: record_artifact_def engine_inv_def Let_def split: option.splits)

lemma settle_task_inv: "engine_inv db \<Longrightarrow> engine_inv (settle_task e now tid rid result db)"
  by (auto simp: settle_task_def Let_def same_task_def intro!: engine_task_status)

lemma complete_step_inv:
  assumes "complete_step e sid acct result ak an db = Inr db'" and "engine_inv db"
  shows "engine_inv db'"
proof -
  have "engine_inv (upd_steps (\<lambda>s. s_id s = sid \<and> s_status s = S_Running) finish_step db)"
    by (rule engine_steps [OF assms(2), where Q = "\<lambda>s. s_id s = sid \<and> s_status s = S_Running" and g = finish_step])
      (auto simp: finish_step_def legal_def same_step_def step_ok_def started_def)
  then show ?thesis using assms(1) by (auto simp: complete_step_def Let_def intro!: settle_task_inv)
qed

lemma schedule_retry_inv:
  assumes "engine_inv db" and "row \<in> set (steps db)" and "s_status row = S_Running"
  shows "engine_inv (schedule_retry e now row repairs err delay db)"
proof -
  let ?g = "\<lambda>s. (release S_Queued s)\<lparr>s_retry_at := Some (clk e 1 + seconds delay), s_last_error := Some (take 2000 err)\<rparr>"
  have "engine_inv (upd_steps (step_is (s_id row)) ?g db)"
    by (rule engine_steps [OF assms(1), where Q = "step_is (s_id row)" and g = ?g])
      (use same_step_row [OF assms(1,2)] assms(3) in \<open>auto simp: same_step_def intro!: legal_release\<close>)
  then show ?thesis by (simp add: schedule_retry_def Let_def engine_task_status same_task_def)
qed

lemma fail_with_letter:
  assumes inv: "engine_inv db" and s: "s \<in> set (steps db)" "s_status s = S_Running"
    and db': "steps db' = upd (step_is (s_id s)) (\<lambda>r. (release S_Failed r)\<lparr>s_last_error := err\<rparr>) (steps db)"
      "tasks db' = tasks db" "deps db' = deps db" "executors db' = executors db"
      "dead_letters db' = dead_letters db @ [l]" and l: "letter_for s l"
  shows "engine_inv db'"
proof -
  have "core_inv (upd (\<lambda>_. False) (\<lambda>t. t) (tasks db))
      (upd (step_is (s_id s)) (\<lambda>r. (release S_Failed r)\<lparr>s_last_error := err\<rparr>) (steps db))
      (deps db) (dead_letters db @ [l]) (executors db)"
  proof (rule core_upd)
    show "core_inv (tasks db) (steps db) (deps db) (dead_letters db) (executors db)"
      using inv by (simp add: engine_inv_def)
    fix r assume r: "r \<in> set (steps db)"
    {
      assume "step_is (s_id s) r"
      then have eq: "r = s" using same_step_row [OF inv s(1) r] by simp
      show "legal (deps db) (steps db) r ((release S_Failed r)\<lparr>s_last_error := err\<rparr>)"
        unfolding eq by (rule legal_release [OF s(2), where st = S_Failed]) (simp_all add: same_step_def)
      show "\<exists>l' \<in> set (dead_letters db @ [l]). letter_for r l'" using l eq by auto
    }
    assume "s_status r = S_Failed"
    then show "\<exists>l' \<in> set (dead_letters db @ [l]). letter_for r l'" using engine_invD(6) [OF inv r] by auto
  qed simp_all
  then show ?thesis using db' by (simp add: engine_inv_def)
qed

lemma fail_terminally_inv:
  assumes "engine_inv db" and "row \<in> set (steps db)" and "s_status row = S_Running"
  shows "engine_inv (fail_terminally e now row acct mx repairs err db)"
proof -
  define l where "l = \<lparr>l_id = ''dlq_'' @ uuid e [0], l_task = s_task row, l_step = s_id row, l_account = acct,
      l_error = take 2000 err, l_attempts = s_attempts row, l_created_at = now, l_resolved_at = None\<rparr>"
  define db1 where "db1 = (upd_steps (step_is (s_id row)) (\<lambda>s. (release S_Failed s)\<lparr>s_last_error := Some (take 2000 err)\<rparr>) db)
      \<lparr>dead_letters := dead_letters db @ [l]\<rparr>"
  have "engine_inv db1"
    by (rule fail_with_letter [OF assms, where err = "Some (take 2000 err)" and l = l]) (simp_all add: db1_def l_def letter_for_def)
  then have "engine_inv (upd_tasks (task_is (s_task row)) (\<lambda>t. t\<lparr>t_status := T_Failed, t_updated_at := now\<rparr>) db1)"
    by (rule engine_task_status) (simp add: same_task_def)
  then show ?thesis
    by (rule engine_frame) (simp_all add: fail_terminally_def Let_def db1_def l_def)
qed

text \<open>The caller holds the step: \<open>fail_step\<close> itself does not look at its status.\<close>

definition step_held :: "string \<Rightarrow> store \<Rightarrow> bool" where
  "step_held sid db \<longleftrightarrow> (\<exists>s \<in> set (steps db). s_id s = sid \<and> s_status s = S_Running)"

lemma fail_step_inv:
  assumes "fail_step e sid acct err delay retryable db = Inr (db', out)" and "engine_inv db" and "step_held sid db"
  shows "engine_inv db'"
proof -
  obtain row where row: "owned_step sid acct db = Inr row" using assms(1) by (auto simp: fail_step_def)
  note rowD = owned_step_Inr [OF row]
  have run: "s_status row = S_Running"
    using assms(3) same_step_row [OF assms(2)] rowD by (auto simp: step_held_def)
  show ?thesis
    using assms(1) row rowD run assms(2)
    by (auto simp: fail_step_def Let_def split: if_splits prod.splits intro: schedule_retry_inv fail_terminally_inv)
qed

section \<open>Desktop leases\<close>

lemma recover_desktop_step_inv:
  assumes inv: "engine_inv db" and s: "s \<in> set (steps db)" "s_status s = S_Running"
  shows "engine_inv (recover_desktop_step e now (k, t, s) db)"
proof -
  let ?done = "\<lambda>db. upd_leases (\<lambda>z. z_step z = s_id s \<and> z_completed_at z = None) (\<lambda>z. z\<lparr>z_completed_at := Some now\<rparr>) db"
  consider (cancel) "t_cancel_requested t" | (read) "\<not> t_cancel_requested t" "s_capability s = Some ''local_file_read''"
    | (uncertain) "\<not> t_cancel_requested t" "s_capability s \<noteq> Some ''local_file_read''" by blast
  then show ?thesis
  proof cases
    case cancel
    then show ?thesis
      using engine_release [OF inv s, of S_Cancelled]
      by (simp add: recover_desktop_step_def engine_task_status same_task_def)
  next
    case read
    then show ?thesis
      using engine_release [OF inv s, of S_Queued]
      by (simp add: recover_desktop_step_def engine_task_status same_task_def)
  next
    case uncertain
    define l where "l = \<lparr>l_id = ''dlq_'' @ uuid e [0, k], l_task = s_task s, l_step = s_id s, l_account = t_account t,
        l_error = uncertain_error, l_attempts = s_attempts s, l_created_at = now, l_resolved_at = None\<rparr>"
    define db1 where "db1 = (upd_steps (step_is (s_id s)) (\<lambda>s. (release S_Failed s)\<lparr>s_last_error := Some uncertain_error\<rparr>) db)
        \<lparr>dead_letters := dead_letters db @ [l]\<rparr>"
    have "engine_inv db1"
      by (rule fail_with_letter [OF inv s, where err = "Some uncertain_error" and l = l]) (simp_all add: db1_def l_def letter_for_def)
    then have "engine_inv (upd_tasks (task_is (s_task s)) (\<lambda>t. t\<lparr>t_status := T_Failed, t_updated_at := now\<rparr>) db1)"
      by (rule engine_task_status) (simp add: same_task_def)
    then show ?thesis
      by (rule engine_frame) (use uncertain in \<open>simp_all add: recover_desktop_step_def Let_def db1_def l_def\<close>)
  qed
qed

lemma recover_desktop_step_others:
  "r \<in> set (steps db) \<Longrightarrow> s_id r \<noteq> s_id s \<Longrightarrow> r \<in> set (steps (recover_desktop_step e now (k, t, s) db))"
  by (auto simp: recover_desktop_step_def Let_def in_upd intro!: bexI [of _ r])

lemma joined_distinct:
  assumes "distinct (map t_id (tasks db))" and "distinct (map s_id (steps db))"
  shows "distinct (map (s_id \<circ> snd) (joined db))"
proof -
  have "distinct (map (s_id \<circ> snd) (concat (map (\<lambda>t. map (Pair t) (filter (\<lambda>s. s_task s = t_id t) (steps db))) T)))"
    if "distinct (map t_id T)" for T
    using that
  proof (induction T)
    case Nil
    then show ?case by simp
  next
    case (Cons t T)
    have "s_id s \<noteq> s_id r" if "s \<in> set (steps db)" "s_task s = t_id t" "u \<in> set T" "r \<in> set (steps db)" "s_task r = t_id u" for s u r
    proof -
      have "t_id u \<noteq> t_id t" using Cons.prems that(3) by (auto simp: image_iff)
      then show ?thesis using that key_inj [OF assms(2) that(1,4)] by auto
    qed
    moreover have "distinct (map s_id (filter (\<lambda>s. s_task s = t_id t) (steps db)))"
      using assms(2) by (simp add: distinct_map_filter)
    ultimately show ?case using Cons by (force simp: comp_def)
  qed
  then show ?thesis using assms(1) by (simp add: joined_def)
qed

lemma recover_desktop_inv:
  assumes "engine_inv db"
  shows "engine_inv (recover_desktop e now db)"
  unfolding recover_desktop_def
proof (rule fold_running [where row = "\<lambda>i. snd (snd i)" and ok = "\<lambda>_. True"])
  let ?items = "enumerate_from 0 (filter (desktop_expired now) (joined db))"
  show "engine_inv db" by fact
  have "map (s_id \<circ> (\<lambda>i. snd (snd i))) ?items = map ((s_id \<circ> snd) \<circ> snd) ?items" by (simp add: comp_def)
  also have "\<dots> = map (s_id \<circ> snd) (filter (desktop_expired now) (joined db))" by (rule map_snd_items)
  finally show "distinct (map (s_id \<circ> (\<lambda>i. snd (snd i))) ?items)"
    using joined_distinct engine_invD(1,2) [OF assms] by (simp add: distinct_map_filter)
  show "\<forall>i \<in> set ?items. snd (snd i) \<in> set (steps db) \<and> s_status (snd (snd i)) = S_Running \<and> True"
  proof
    fix i assume "i \<in> set ?items"
    then have i: "snd i \<in> set (filter (desktop_expired now) (joined db))" by (rule snd_in_items)
    obtain t s where ts: "snd i = (t, s)" by (cases "snd i")
    show "snd (snd i) \<in> set (steps db) \<and> s_status (snd (snd i)) = S_Running \<and> True"
      using i unfolding ts by (simp add: desktop_expired_def in_joined)
  qed
  show "engine_inv (recover_desktop_step e now i db)"
    if "engine_inv db" "snd (snd i) \<in> set (steps db)" "s_status (snd (snd i)) = S_Running" for i db
    using recover_desktop_step_inv [OF that, of e now "fst i" "fst (snd i)"] by simp
  show "r \<in> set (steps (recover_desktop_step e now i db))" if "r \<in> set (steps db)" "s_id r \<noteq> s_id (snd (snd i))" for i db r
    using recover_desktop_step_others [OF that, of e now "fst i" "fst (snd i)"] by simp
qed

lemma auto_release_inv: "engine_inv db \<Longrightarrow> engine_inv (auto_release e now x local ki db)"
  by (cases ki) (auto simp: auto_release_def Let_def same_task_def intro!: engine_task_status intro: engine_frame)

lemma auto_approve_inv:
  assumes "engine_inv db"
  shows "engine_inv (auto_approve e now x safe local db)"
proof -
  have "engine_inv (fold (auto_release e now x local) items db)" for items
    using assms by (induction items arbitrary: db) (auto intro: auto_release_inv)
  then show ?thesis using assms by (simp add: auto_approve_def)
qed

lemma executor_auth_Inr:
  "executor_auth e xid token db = Inr x \<Longrightarrow>
     x \<in> set (executors db) \<and> x_id x = xid \<and> x_token_hash x = sha256 e token \<and> x_status x = X_Active"
  by (auto simp: executor_auth_def split: option.splits dest: fetchone_SomeD)

lemma executors_recover_desktop [simp]: "executors (recover_desktop e now db) = executors db"
proof -
  have "executors (recover_desktop_step e now ki db) = executors db" for ki db
    by (cases ki) (auto simp: recover_desktop_step_def Let_def)
  then have "executors (fold (recover_desktop_step e now) items db) = executors db" for items
    by (induction items arbitrary: db) auto
  then show ?thesis by (simp add: recover_desktop_def)
qed

lemma executors_auto_approve [simp]: "executors (auto_approve e now x safe local db) = executors db"
proof -
  have "executors (auto_release e now x local ki db) = executors db" for ki db
    by (cases ki) (simp add: auto_release_def Let_def)
  then have "executors (fold (auto_release e now x local) items db) = executors db" for items
    by (induction items arbitrary: db) auto
  then show ?thesis by (simp add: auto_approve_def)
qed

text \<open>The outcomes of a desktop claim; \<open>mid\<close> is the store after recovery and automatic approval.\<close>

definition desktop_mid :: "env \<Rightarrow> executor \<Rightarrow> bool \<Rightarrow> bool \<Rightarrow> store \<Rightarrow> store" where
  "desktop_mid e x safe local db = auto_approve e (clk e 0) x safe local (recover_desktop e (clk e 0) db)"

lemma claim_for_executor_cases:
  assumes "claim_for_executor e xid token secs safe local db = Inr (db', c)"
  obtains (none) x where "executor_auth e xid token db = Inr x" "db' = desktop_mid e x safe local db" "c = None"
  | (leased) x t s where "executor_auth e xid token db = Inr x"
      "(t, s) \<in> set (joined (desktop_mid e x safe local db))"
      "desktop_ready (x_account x) (clk e 0) (desktop_mid e x safe local db) (t, s)"
      "capability_in (set (x_capabilities x)) s"
      "db' = add_event (uuid e [4]) (t_id t) ''executor.step_claimed'' (JObj [(''executor_id'', JStr xid)]) (clk e 0)
         (put_lease e (s_id s) xid (clk e 1 + seconds secs) (clk e 0)
           (start_work (clk e 0) xid (clk e 1 + seconds secs) (t, s) (desktop_mid e x safe local db)))"
      "c = Some ((claim_of (t\<lparr>t_status := T_Running\<rparr>) s)
         \<lparr>cl_capability := s_capability s, cl_lease_owner := Some xid, cl_lease_expires := Some (clk e 1 + seconds secs)\<rparr>)"
proof -
  obtain x where x: "executor_auth e xid token db = Inr x" using assms by (auto simp: claim_for_executor_def)
  let ?db = "desktop_mid e x safe local db"
  let ?rows = "sort_key claim_order (filter (desktop_ready (x_account x) (clk e 0) ?db) (joined ?db))"
  let ?can = "\<lambda>(t, s). capability_in (set (x_capabilities x)) s"
  show thesis
  proof (cases "fetchone (filter ?can ?rows)")
    case None
    with assms x show thesis
      by (intro none [OF x]) (auto simp: claim_for_executor_def Let_def desktop_mid_def [symmetric])
  next
    case (Some ts)
    obtain t s where ts: "ts = (t, s)" by (cases ts)
    have "(t, s) \<in> set ?rows \<and> ?can (t, s)" using fetchone_SomeD [OF Some] ts by simp
    with assms x Some ts show thesis
      by (intro leased [of x t s]) (auto simp: claim_for_executor_def Let_def desktop_mid_def [symmetric])
  qed
qed

lemma put_lease_inv [simp]: "engine_inv (put_lease e sid xid until now db) = engine_inv db"
  by (simp add: put_lease_def engine_inv_def)

lemma claim_for_executor_inv:
  assumes "claim_for_executor e xid token secs safe local db = Inr (db', c)" and "engine_inv db"
  shows "engine_inv db'"
proof -
  have mid: "engine_inv (desktop_mid e x safe local db)" for x
    unfolding desktop_mid_def using assms(2) by (intro auto_approve_inv recover_desktop_inv)
  show ?thesis
    using assms(1)
  proof (cases rule: claim_for_executor_cases)
    case (none x)
    then show ?thesis using mid by simp
  next
    case (leased x t s)
    note xD = executor_auth_Inr [OF leased(1)]
    have "engine_inv (start_work (clk e 0) xid (clk e 1 + seconds secs) (t, s) (desktop_mid e x safe local db))"
    proof (rule start_work_inv [OF mid leased(2)])
      show "\<exists>y \<in> set (executors (desktop_mid e x safe local db)). x_id y = xid \<and>
          capability_in (set (x_capabilities y)) s \<and> t_account t = x_account y"
        using xD leased(3,4) by (intro bexI [of _ x]) (auto simp: desktop_mid_def desktop_ready_def)
    qed (use leased(3) in \<open>auto simp: desktop_ready_def\<close>)
    then show ?thesis unfolding leased(5) by simp
  qed
qed

lemma heartbeat_executor_step_inv:
  assumes "heartbeat_executor_step e xid token sid secs db = Inr (db', b)" and "engine_inv db"
  shows "engine_inv db'"
proof -
  let ?mine = "\<lambda>s. s_id s = sid \<and> s_status s = S_Running \<and> s_lease_owner s = Some xid"
  let ?g = "\<lambda>s. s\<lparr>s_lease_expires := Some (clk e 1 + seconds secs)\<rparr>"
  have "engine_inv (upd_steps ?mine ?g db)"
  proof (rule engine_steps [OF assms(2), where Q = ?mine and g = ?g])
    fix s assume s: "s \<in> set (steps db)" "?mine s"
    show "legal (deps db) (steps db) s (?g s)" using s(2) by (auto simp: legal_def same_step_def step_ok_def started_def)
    assume "s_kind s = Desktop"
    then show "\<exists>x \<in> set (executors db). held_by (tasks db) (?g s) x"
      using engine_invD(7) [OF assms(2) s(1)] s(2) by (auto simp: held_by_def capability_in_def)
  qed auto
  then show ?thesis
    using assms by (auto simp: heartbeat_executor_step_def Let_def split: option.splits if_splits)
qed

lemma complete_executor_step_inv:
  assumes "complete_executor_step e xid token sid result db = (db', r)" and "engine_inv db"
  shows "engine_inv db'"
proof -
  have "engine_inv (mark_lease_done sid xid now db)" for now using assms(2) by (simp add: mark_lease_done_def)
  then show ?thesis
    using assms by (auto simp: complete_executor_step_def Let_def split: sum.splits option.splits intro: complete_step_inv)
qed

lemma fail_executor_step_inv:
  assumes "fail_executor_step e xid token sid err db = (db', r)" and "engine_inv db"
  shows "engine_inv db'"
proof (cases "executor_auth e xid token db")
  case (Inl x)
  then show ?thesis using assms by (simp add: fail_executor_step_def)
next
  case x: (Inr x)
  show ?thesis
  proof (cases "fetchone (filter (\<lambda>(t, s). holds_lease sid xid s) (joined db))")
    case None
    then show ?thesis using assms x by (simp add: fail_executor_step_def)
  next
    case (Some ts)
    obtain t s where ts: "ts = (t, s)" by (cases ts)
    have s: "s \<in> set (steps db)" "s_status s = S_Running" "s_id s = sid"
      using fetchone_SomeD [OF Some] ts by (auto simp: in_joined)
    let ?db = "mark_lease_done sid xid (clk e 0) db"
    have db: "engine_inv ?db" and held: "step_held sid ?db" and s': "s \<in> set (steps ?db)"
      using assms(2) s by (auto simp: mark_lease_done_def step_held_def)
    show ?thesis
    proof (cases "t_cancel_requested t")
      case True
      let ?g = "\<lambda>s. (release S_Cancelled s)\<lparr>s_last_error := Some (take 2000 err)\<rparr>"
      have "engine_inv (upd_steps (step_is sid) ?g ?db)"
        by (rule engine_steps [OF db, where Q = "step_is sid" and g = ?g])
          (use same_step_row [OF db s'] s in \<open>auto simp: same_step_def intro!: legal_release\<close>)
      then show ?thesis
        using assms(1) x Some ts True
        by (auto simp: fail_executor_step_def Let_def same_task_def intro!: engine_task_status)
    next
      case False
      then show ?thesis
        using assms(1) x Some ts db held
        by (auto simp: fail_executor_step_def Let_def split: sum.splits intro: fail_step_inv)
    qed
  qed
qed

section \<open>Schedules\<close>

lemma fresh_sub_env: "fresh e db \<Longrightarrow> fresh (sub_env e k) db"
  by (auto simp: fresh_def inj_def)

text \<open>The identifiers of later iterations stay new: a path names the iteration that drew it.\<close>

lemma insert_task_fresh_later:
  assumes ins: "insert_task (sub_env e k) acct ws title objective req ins mode now db = Inr (db1, tid)"
    and "inj (uuid e)" and "k < j" and "fresh (sub_env e j) db"
  shows "fresh (sub_env e j) db1"
proof -
  let ?e = "sub_env e k"
  define rows where "rows = step_rows ?e tid (''run_'' @ uuid ?e [1]) now (if ins = [] then default_steps else ins)"
  obtain t D where t: "tasks db1 = tasks db @ [t]" "steps db1 = steps db @ rows" "deps db1 = deps db @ D"
      "t_id t = ''task_'' @ uuid ?e [0]" "d_step ` set D \<subseteq> s_id ` set rows" "d_parent ` set D \<subseteq> s_id ` set rows"
      "map r_id (runs db1) = map r_id (runs db) @ [''run_'' @ uuid ?e [1]]"
    using insert_task_tables [OF ins] unfolding rows_def by fastforce
  have ids: "s_id ` set rows \<subseteq> range (step_id ?e)"
    unfolding rows_def by (auto simp: in_step_rows step_row_def)
  have ne: "uuid e (j # p) \<noteq> uuid e (k # q)" for p q using assms(2,3) by (auto dest: injD)
  have new: "''step_'' @ uuid e (j # p) \<notin> s_id ` set rows" for p
    using ids ne by (auto simp: step_id_def)
  have newD: "''step_'' @ uuid e (j # p) \<notin> d_step ` set D" "''step_'' @ uuid e (j # p) \<notin> d_parent ` set D" for p
    using new t(5,6) by blast+
  have "r_id ` set (runs db1) = insert (''run_'' @ uuid ?e [1]) (r_id ` set (runs db))"
    using t(7) by (metis list.set_map list.simps(15) rotate1.simps(2) set_rotate1)
  then show ?thesis
    using assms(4) t(1,2,3,4) ne new newD by (simp add: fresh_def image_Un)
qed

lemma fire_one_task:
  assumes "fire_one e now k h db = Some (Inr (db', f))"
  obtains db1 tid where
    "insert_task (sub_env e k) (h_account h) (h_workspace h) (h_title h) (h_objective h)
       (h_requires_approval h) (h_steps h) ''hosted'' now db = Inr (db1, tid)"
    "tasks db' = tasks db1" "steps db' = steps db1" "deps db' = deps db1" "runs db' = runs db1"
    "dead_letters db' = dead_letters db1" "executors db' = executors db1" "fi_task f = tid"
  using assms by (auto simp: fire_one_def Let_def split: sum.splits option.splits)

lemma fresh_cong:
  "tasks db' = tasks db \<Longrightarrow> steps db' = steps db \<Longrightarrow> deps db' = deps db \<Longrightarrow> runs db' = runs db \<Longrightarrow> fresh e db' = fresh e db"
  by (simp add: fresh_def)

lemma fire_rows_inv:
  assumes "fire_rows e now k hs db = Some (Inr (db', fs))" and "inj (uuid e)"
    and "\<forall>j \<ge> k. fresh (sub_env e j) db" and "engine_inv db"
  shows "engine_inv db'"
  using assms
proof (induction e now k hs db arbitrary: db' fs rule: fire_rows.induct)
  case (2 e now k h hs db)
  from "2.prems"(1) obtain db2 f fs' where f: "fire_one e now k h db = Some (Inr (db2, f))"
      and r: "fire_rows e now (Suc k) hs db2 = Some (Inr (db', fs'))"
    by (auto split: option.splits sum.splits)
  obtain db1 tid where ins: "insert_task (sub_env e k) (h_account h) (h_workspace h) (h_title h) (h_objective h)
       (h_requires_approval h) (h_steps h) ''hosted'' now db = Inr (db1, tid)"
    and eqs: "tasks db2 = tasks db1" "steps db2 = steps db1" "deps db2 = deps db1" "runs db2 = runs db1"
      "dead_letters db2 = dead_letters db1" "executors db2 = executors db1"
    using fire_one_task [OF f] by metis
  have "engine_inv db1" using insert_task_inv [OF ins] "2.prems"(3,4) by simp
  then have "engine_inv db2" by (rule engine_frame) (simp_all add: eqs)
  moreover have "fresh (sub_env e j) db2" if "Suc k \<le> j" for j
    using insert_task_fresh_later [OF ins "2.prems"(2), of j] "2.prems"(3) that fresh_cong [OF eqs(1-4)] by simp
  ultimately show ?case using "2.IH" [OF f refl refl r] "2.prems"(2) by auto
qed simp

lemma fresh_clear: "fresh e (clear_stale_leases now db) = fresh e db"
  by (rule fresh_cong) (simp_all add: clear_stale_leases_def)

lemma engine_inv_publish_fold [simp]:
  "engine_inv (fold (\<lambda>f. publish k (g f)) fs db) = engine_inv db"
  by (induction fs arbitrary: db) auto

lemma fire_due_inv:
  assumes "fire_due_schedules e limit db = Some (Inr (db', fs))" and "fresh e db" and "engine_inv db"
  shows "engine_inv db'"
proof -
  let ?db = "clear_stale_leases (clk e 0) db"
  obtain db1 where f: "fire_rows e (clk e 0) 0 (due_rows (clk e 0) limit ?db) ?db = Some (Inr (db1, fs))"
      and db': "db' = fold (\<lambda>f. publish ''schedule.fired'' (Some (fi_task f))) fs db1"
    using assms(1) by (auto simp: fire_due_schedules_def Let_def split: prod.splits)
  have "engine_inv db1"
  proof (rule fire_rows_inv [OF f])
    show "inj (uuid e)" using assms(2) by (simp add: fresh_def)
    show "\<forall>j \<ge> 0. fresh (sub_env e j) ?db" using assms(2) by (simp add: fresh_clear fresh_sub_env)
    show "engine_inv ?db" using assms(3) by (simp add: engine_inv_def clear_stale_leases_def)
  qed
  then show ?thesis by (simp add: db')
qed

section \<open>The executor table and account deletion\<close>

definition same_executor :: "executor \<Rightarrow> executor \<Rightarrow> bool" where
  "same_executor x y \<longleftrightarrow> x_id y = x_id x \<and> x_account y = x_account x \<and> x_capabilities y = x_capabilities x"

lemma engine_executors:
  assumes "engine_inv db" and "\<And>x. x \<in> set (executors db) \<Longrightarrow> \<exists>y \<in> set (executors db'). same_executor x y"
    and "tasks db' = tasks db" "steps db' = steps db" "deps db' = deps db" "dead_letters db' = dead_letters db"
  shows "engine_inv db'"
proof -
  have "\<exists>y \<in> set (executors db'). held_by (tasks db) s y"
    if s: "s \<in> set (steps db)" "s_status s = S_Running" "s_kind s = Desktop" for s
  proof -
    obtain x where x: "x \<in> set (executors db)" "held_by (tasks db) s x" using engine_invD(7) [OF assms(1) s] by blast
    obtain y where "y \<in> set (executors db')" "same_executor x y" using assms(2) [OF x(1)] by blast
    with x(2) show ?thesis by (intro bexI [of _ y]) (auto simp: held_by_def same_executor_def)
  qed
  then show ?thesis using assms(1) unfolding engine_inv_def assms(3-6) by (simp add: core_inv_def)
qed

lemma pair_executor_inv:
  assumes "pair_executor e code db = Inr (db', p)" and "engine_inv db"
  shows "engine_inv db'"
proof (rule engine_executors [OF assms(2)])
  show "\<exists>y \<in> set (executors db'). same_executor x y" if "x \<in> set (executors db)" for x
    using assms(1) that by (intro bexI [of _ x]) (auto simp: pair_executor_def Let_def same_executor_def split: option.splits)
qed (use assms(1) in \<open>auto simp: pair_executor_def Let_def split: option.splits\<close>)

lemma upd_executors:
  "x \<in> set X \<Longrightarrow> (\<And>y. same_executor y (f y)) \<Longrightarrow> \<exists>y \<in> set (upd P f X). same_executor x y"
  by (rule bexI [of _ "if P x then f x else x"]) (auto simp: in_upd same_executor_def)

lemma engine_upd_executors:
  assumes "engine_inv db" and "\<And>y. same_executor y (f y)"
  shows "engine_inv (db\<lparr>executors := upd P f (executors db)\<rparr>)"
  by (rule engine_executors [OF assms(1)]) (use assms(2) in \<open>simp_all add: upd_executors\<close>)

lemma heartbeat_executor_inv:
  assumes "heartbeat_executor e xid token caps db = Inr (db', x)" and "engine_inv db"
  shows "engine_inv db'"
proof -
  have "db' = db\<lparr>executors := upd (\<lambda>r. x_id r = xid) (\<lambda>r. r\<lparr>x_last_seen := clk e 0\<rparr>) (executors db)\<rparr>"
    using assms(1) by (auto simp: heartbeat_executor_def Let_def split: if_splits)
  then show ?thesis using assms(2) by (simp add: engine_upd_executors same_executor_def)
qed

lemma revoke_where_inv:
  assumes "revoke_where P xid db = Inr db'" and "engine_inv db"
  shows "engine_inv db'"
proof -
  have "db' = db\<lparr>executors := upd (\<lambda>x. P x \<and> x_status x = X_Active) (\<lambda>x. x\<lparr>x_status := X_Revoked\<rparr>) (executors db)\<rparr>"
    using assms(1) by (auto simp: revoke_where_def split: if_splits)
  then show ?thesis using assms(2) by (simp add: engine_upd_executors same_executor_def)
qed

abbreviation account_tids :: "string \<Rightarrow> store \<Rightarrow> string set" where
  "account_tids acct db \<equiv> t_id ` set (filter (\<lambda>t. t_account t = acct) (tasks db))"

lemma delete_account_tables:
  "tasks (delete_account acct db) = del (\<lambda>t. t_account t = acct) (tasks db)"
  "executors (delete_account acct db) = del (\<lambda>x. x_account x = acct) (executors db)"
  "steps (delete_account acct db) = steps (delete_task_rows (account_tids acct db) db)"
  "dead_letters (delete_account acct db) = dead_letters (delete_task_rows (account_tids acct db) db)"
  "deps (delete_account acct db) = deps (delete_task_rows (account_tids acct db) db)"
  by (simp_all add: delete_account_def Let_def)

lemma delete_account_inv:
  assumes inv: "engine_inv db"
  shows "engine_inv (delete_account acct db)"
proof -
  define tids where "tids = account_tids acct db"
  note K = engine_invD [OF inv]
  have kept: "\<exists>t \<in> set (tasks db). t_id t = s_task s \<and> t_account t \<noteq> acct"
    if s: "s \<in> set (steps db)" "s_task s \<notin> tids" for s
  proof -
    obtain t where "t \<in> set (tasks db)" "t_id t = s_task s" using K(8) [OF s(1)] by blast
    then show ?thesis using s(2) by (auto simp: tids_def image_iff)
  qed
  have "keys_inv (tasks (delete_account acct db)) (steps (delete_account acct db))"
    unfolding keys_inv_def
  proof (intro conjI subsetI)
    show "distinct (map t_id (tasks (delete_account acct db)))" "distinct (map s_id (steps (delete_account acct db)))"
      using K(1,2) by (simp_all add: delete_account_tables del_def distinct_map_filter)
    fix k assume "k \<in> s_task ` set (steps (delete_account acct db))"
    then obtain s where s: "s \<in> set (steps db)" "s_task s \<notin> tids" "k = s_task s"
      by (auto simp: delete_account_tables tids_def in_del)
    obtain t where "t \<in> set (tasks db)" "t_id t = s_task s" "t_account t \<noteq> acct" using kept [OF s(1,2)] by blast
    then show "k \<in> t_id ` set (tasks (delete_account acct db))"
      using s(3) by (intro image_eqI [of _ _ t]) (simp_all add: delete_account_tables in_del)
  qed
  moreover have "\<exists>l \<in> set (dead_letters (delete_account acct db)). letter_for s l"
    if f: "s \<in> set (steps (delete_account acct db))" "s_status s = S_Failed" for s
  proof -
    have s: "s \<in> set (steps db)" "s_task s \<notin> tids"
      using f(1) by (auto simp: delete_account_tables tids_def in_del)
    obtain l where "l \<in> set (dead_letters db)" "letter_for s l" using K(6) [OF s(1) f(2)] by blast
    with s(2) show ?thesis
      by (intro bexI [of _ l]) (auto simp: delete_account_tables tids_def in_del letter_for_def)
  qed
  moreover have "\<exists>x \<in> set (executors (delete_account acct db)). held_by (tasks (delete_account acct db)) s x"
    if s: "s \<in> set (steps (delete_account acct db))" "s_status s = S_Running" "s_kind s = Desktop" for s
  proof -
    have s': "s \<in> set (steps db)" "s_task s \<notin> tids"
      using s(1) by (auto simp: delete_account_tables tids_def in_del)
    obtain x where x: "x \<in> set (executors db)" "held_by (tasks db) s x" using K(7) [OF s'(1) s(2,3)] by blast
    obtain t where "t \<in> set (tasks db)" "t_id t = s_task s" "t_account t \<noteq> acct" using kept [OF s'] by blast
    then have "x_account x \<noteq> acct" using x(2) by (auto simp: held_by_def)
    with x show ?thesis by (intro bexI [of _ x]) (auto simp: delete_account_tables in_del held_by_def)
  qed
  moreover have "prior_done (deps (delete_account acct db)) (steps (delete_account acct db)) s"
    if "s \<in> set (steps (delete_account acct db))" "started s" for s
    using that K(5) [of s] by (auto simp: delete_account_tables in_del prior_done_def)
  ultimately show ?thesis
    using K(3,4) by (auto simp: engine_inv_def core_inv_def delete_account_tables(1,3) in_del)
qed

section \<open>One operation of any caller\<close>

text \<open>
  The operations that change a table of the invariant, under what their environment relies on:
  identifiers drawn by \<open>uuid4\<close> are new, and a failure is reported by a caller that holds the step.
  \<open>elsewhere\<close> stands for the operations on the other tables.
\<close>

inductive engine :: "store \<Rightarrow> store \<Rightarrow> bool" where
  created: "create_task e acct ws title obj req ins mode db = Inr (db', t) \<Longrightarrow> fresh e db \<Longrightarrow> engine db db'"
| researched: "create_research canon e acct ws title q srcs db = Inr (db', t) \<Longrightarrow> fresh e db \<Longrightarrow> engine db db'"
| scheduled: "fire_due_schedules e limit db = Some (Inr (db', fs)) \<Longrightarrow> fresh e db \<Longrightarrow> engine db db'"
| approval_requested: "request_approval e tid acct db = Inr (db', t) \<Longrightarrow> engine db db'"
| decided: "decide e tid acct ok note_text source db = Inr (db', t) \<Longrightarrow> engine db db'"
| cancelled: "cancel e tid acct db = Inr (db', t) \<Longrightarrow> engine db db'"
| retried: "retry_task e tid acct db = Inr (db', t) \<Longrightarrow> engine db db'"
| claimed: "claim_one e worker secs kinds db = (db', c) \<Longrightarrow> engine db db'"
| completed: "complete_step e sid acct result ak an db = Inr db' \<Longrightarrow> engine db db'"
| failed: "fail_step e sid acct err delay retryable db = Inr (db', out) \<Longrightarrow> step_held sid db \<Longrightarrow> engine db db'"
| paired: "pair_executor e code db = Inr (db', p) \<Longrightarrow> engine db db'"
| executor_seen: "heartbeat_executor e xid token caps db = Inr (db', x) \<Longrightarrow> engine db db'"
| revoked: "revoke_executor xid acct db = Inr db' \<Longrightarrow> engine db db'"
| self_revoked: "revoke_executor_with_token e xid token db = Inr db' \<Longrightarrow> engine db db'"
| desktop_decided: "decide_for_executor e xid token tid ok note_text db = Inr (db', t) \<Longrightarrow> engine db db'"
| desktop_claimed: "claim_for_executor e xid token secs safe local db = Inr (db', c) \<Longrightarrow> engine db db'"
| desktop_beat: "heartbeat_executor_step e xid token sid secs db = Inr (db', b) \<Longrightarrow> engine db db'"
| desktop_completed: "complete_executor_step e xid token sid result db = (db', r) \<Longrightarrow> engine db db'"
| desktop_failed: "fail_executor_step e xid token sid err db = (db', res) \<Longrightarrow> engine db db'"
| deleted: "engine db (delete_account acct db)"
| elsewhere: "tasks db' = tasks db \<Longrightarrow> steps db' = steps db \<Longrightarrow> deps db' = deps db \<Longrightarrow>
    dead_letters db' = dead_letters db \<Longrightarrow> executors db' = executors db \<Longrightarrow> engine db db'"

lemma decide_for_executor_inv:
  "decide_for_executor e xid token tid ok note_text db = Inr (db', t) \<Longrightarrow> engine_inv db \<Longrightarrow> engine_inv db'"
  by (auto simp: decide_for_executor_def split: if_splits intro: decide_inv)

lemma engine_step_inv: "engine db db' \<Longrightarrow> engine_inv db \<Longrightarrow> engine_inv db'"
proof (induction rule: engine.induct)
  case (revoked xid acct db db')
  then show ?case unfolding revoke_executor_def by (rule revoke_where_inv)
next
  case (self_revoked e xid token db db')
  then show ?case unfolding revoke_executor_with_token_def by (rule revoke_where_inv)
next
  case (elsewhere db' db)
  then show ?case by (intro engine_frame [of db db'])
qed ((rule create_task_inv create_research_engine fire_due_inv request_approval_inv decide_inv cancel_inv
    retry_task_inv claim_one_inv complete_step_inv fail_step_inv pair_executor_inv heartbeat_executor_inv
    decide_for_executor_inv claim_for_executor_inv heartbeat_executor_step_inv complete_executor_step_inv
    fail_executor_step_inv delete_account_inv; assumption)+)

interpretation engine_machine: inductive_invariant engine empty_store engine_inv
proof unfold_locales
  show "engine_inv empty_store" by (simp add: engine_inv_def core_inv_def keys_inv_def empty_store_def)
  show "engine_inv s \<Longrightarrow> engine s t \<Longrightarrow> engine_inv t" for s t by (rule engine_step_inv)
qed

end
