(* ===== verification/CliAuth.thy ===== *)
theory CliAuth
  imports Schema
begin

text \<open>
  \<open>src/smara/store.py\<close>: pairing and device authorization of command-line clients. Codes are stored
  as digests; a pairing code and a device request can each be used once, and every code path that
  hands one out is an instance of the \<open>one_time\<close> interface.
\<close>

section \<open>Pairing codes\<close>

definition create_cli_pairing :: "env \<Rightarrow> string \<Rightarrow> string \<Rightarrow> int \<Rightarrow> store \<Rightarrow> store \<times> string \<times> time" where
  "create_cli_pairing e acct name ttl db =
     (let code = ''smara_'' @ secret e 0; expires = clk e 0 + seconds ttl
      in (db\<lparr>cli_pairings := cli_pairings db @ [\<lparr>cp_code_hash = sha256 e code, cp_account = acct,
             cp_name = name, cp_expires_at = expires, cp_consumed_at = None\<rparr>]\<rparr>, code, expires))"

definition consume_cli_pairing :: "env \<Rightarrow> string \<Rightarrow> store \<Rightarrow> (store \<times> cli_pairing) result" where
  "consume_cli_pairing e code db =
     (let now = clk e 0; h = sha256 e code
      in case fetchone (filter (\<lambda>p. cp_code_hash p = h \<and> cp_consumed_at p = None \<and> cp_expires_at p > now) (cli_pairings db)) of
           None \<Rightarrow> Inl (KeyError ''cli pairing'')
         | Some row \<Rightarrow>
             Inr (db\<lparr>cli_pairings := upd (\<lambda>p. cp_code_hash p = h \<and> cp_consumed_at p = None)
                       (\<lambda>p. p\<lparr>cp_consumed_at := Some now\<rparr>) (cli_pairings db)\<rparr>, row))"

section \<open>Device requests\<close>

definition create_cli_device_request :: "env \<Rightarrow> string \<Rightarrow> int \<Rightarrow> store \<Rightarrow> store \<times> string \<times> time" where
  "create_cli_device_request e name ttl db =
     (let code = ''smara_device_'' @ secret e 0; expires = clk e 0 + seconds ttl
      in (db\<lparr>cli_requests := cli_requests db @ [\<lparr>cr_code_hash = sha256 e code, cr_name = name,
             cr_account = None, cr_expires_at = expires, cr_approved_at = None, cr_consumed_at = None\<rparr>]\<rparr>,
          code, expires))"

text \<open>Truth of a nullable text column: NULL and the empty text are false.\<close>

definition truthy :: "string option \<Rightarrow> bool" where
  "truthy x \<longleftrightarrow> (case x of None \<Rightarrow> False | Some s \<Rightarrow> s \<noteq> [])"

lemma truthy_simps [simp]: "\<not> truthy None" "truthy (Some s) \<longleftrightarrow> s \<noteq> []"
  by (simp_all add: truthy_def)

definition authorize_cli_device :: "env \<Rightarrow> string \<Rightarrow> string \<Rightarrow> store \<Rightarrow> (store \<times> string \<times> time) result" where
  "authorize_cli_device e code acct db =
     (let now = clk e 0; h = sha256 e code
      in case fetchone (filter (\<lambda>r. cr_code_hash r = h \<and> cr_consumed_at r = None \<and> cr_expires_at r > now) (cli_requests db)) of
           None \<Rightarrow> Inl (KeyError ''cli device request'')
         | Some row \<Rightarrow>
             (if truthy (cr_account row) then Inl (KeyError ''cli device request'')
              else Inr (db\<lparr>cli_requests := upd (\<lambda>r. cr_code_hash r = h \<and> cr_account r = None \<and> cr_consumed_at r = None)
                          (\<lambda>r. r\<lparr>cr_account := Some acct, cr_approved_at := Some now\<rparr>) (cli_requests db)\<rparr>,
                        cr_name row, now)))"

datatype poll = Poll_Expired | Poll_Used | Poll_Pending | Poll_Approved string string

definition poll_cli_device :: "env \<Rightarrow> string \<Rightarrow> store \<Rightarrow> store \<times> poll" where
  "poll_cli_device e code db =
     (let now = clk e 0; h = sha256 e code
      in case fetchone (filter (\<lambda>r. cr_code_hash r = h) (cli_requests db)) of
           None \<Rightarrow> (db, Poll_Expired)
         | Some row \<Rightarrow>
             (if cr_consumed_at row \<noteq> None then (db, Poll_Used)
              else if cr_expires_at row \<le> now then (db, Poll_Expired)
              else case cr_account row of
                None \<Rightarrow> (db, Poll_Pending)
              | Some acct \<Rightarrow>
                  (if acct = [] then (db, Poll_Pending)
                   else let open_row = (\<lambda>r. cr_code_hash r = h \<and> cr_consumed_at r = None);
                            n = rowcount open_row (cli_requests db);
                            db = db\<lparr>cli_requests := upd open_row (\<lambda>r. r\<lparr>cr_consumed_at := Some now\<rparr>) (cli_requests db)\<rparr>
                        in if n \<noteq> 1 then (db, Poll_Used) else (db, Poll_Approved acct (cr_name row)))))"

section \<open>Devices\<close>

definition register_cli_device ::
  "env \<Rightarrow> string \<Rightarrow> string \<Rightarrow> string \<Rightarrow> time \<Rightarrow> store \<Rightarrow> store result" where
  "register_cli_device e acct name jti expires db =
     andThen (insert_unique cd_jti_hash \<lparr>cd_jti_hash = sha256 e jti, cd_account = acct, cd_name = name,
                cd_expires_at = expires, cd_created_at = clk e 0, cd_last_seen = Some (clk e 0),
                cd_revoked_at = None\<rparr> (cli_devices db))
       (\<lambda>ds. Inr (db\<lparr>cli_devices := ds\<rparr>))"

definition cli_device_active :: "env \<Rightarrow> string \<Rightarrow> string \<Rightarrow> bool \<Rightarrow> store \<Rightarrow> store \<times> bool" where
  "cli_device_active e acct jti touch db =
     (let h = sha256 e jti; now = clk e 0
      in case fetchone (filter (\<lambda>d. cd_jti_hash d = h \<and> cd_account d = acct \<and> cd_revoked_at d = None \<and> cd_expires_at d > now) (cli_devices db)) of
           None \<Rightarrow> (db, False)
         | Some row \<Rightarrow>
             (if touch then
                (let threshold = clk e 1 - seconds 300
                 in (db\<lparr>cli_devices := upd (\<lambda>d. cd_jti_hash d = h \<and> (cd_last_seen d = None \<or> null_lt (cd_last_seen d) threshold))
                          (\<lambda>d. d\<lparr>cd_last_seen := Some now\<rparr>) (cli_devices db)\<rparr>, True))
              else (db, True)))"

record device_view =
  dv_id :: string
  dv_name :: string
  dv_expires_at :: time
  dv_created_at :: time
  dv_last_seen :: "time option"
  dv_revoked_at :: "time option"

definition list_cli_devices :: "string \<Rightarrow> store \<Rightarrow> device_view list" where
  "list_cli_devices acct db =
     map (\<lambda>d. \<lparr>dv_id = ''cli_'' @ take 16 (cd_jti_hash d), dv_name = cd_name d,
               dv_expires_at = cd_expires_at d, dv_created_at = cd_created_at d,
               dv_last_seen = cd_last_seen d, dv_revoked_at = cd_revoked_at d\<rparr>)
       (sort_key (\<lambda>d. - cd_created_at d) (filter (\<lambda>d. cd_account d = acct) (cli_devices db)))"

definition revoke_cli_jti :: "env \<Rightarrow> string \<Rightarrow> string \<Rightarrow> store \<Rightarrow> store result" where
  "revoke_cli_jti e acct jti db =
     (let live = (\<lambda>d. cd_account d = acct \<and> cd_jti_hash d = sha256 e jti \<and> cd_revoked_at d = None)
      in if rowcount live (cli_devices db) \<noteq> 1 then Inl (KeyError ''cli device'')
         else Inr (db\<lparr>cli_devices := upd live (\<lambda>d. d\<lparr>cd_revoked_at := Some (clk e 0)\<rparr>) (cli_devices db)\<rparr>))"

text \<open>\<open>str.removeprefix\<close>, and \<open>x LIKE 'prefix%'\<close> for a prefix without wildcards: SQLite ignores the
  case of ASCII letters.\<close>

definition removeprefix :: "string \<Rightarrow> string \<Rightarrow> string" where
  "removeprefix p s = (if take (length p) s = p then drop (length p) s else s)"

definition like_prefix :: "string \<Rightarrow> string \<Rightarrow> bool" where
  "like_prefix p s \<longleftrightarrow> take (length p) (lower s) = lower p"

definition revoke_cli_device :: "env \<Rightarrow> string \<Rightarrow> string \<Rightarrow> store \<Rightarrow> store result" where
  "revoke_cli_device e acct device_id db =
     (let prefix = removeprefix ''cli_'' device_id
      in if length prefix \<noteq> 16 \<or> \<not> set (lower prefix) \<subseteq> set ''0123456789abcdef''
         then Inl (KeyError device_id)
         else (case filter (\<lambda>d. cd_account d = acct \<and> like_prefix prefix (cd_jti_hash d) \<and> cd_revoked_at d = None) (cli_devices db) of
                 [row] \<Rightarrow> Inr (db\<lparr>cli_devices := upd (\<lambda>d. cd_account d = acct \<and> cd_jti_hash d = cd_jti_hash row)
                            (\<lambda>d. d\<lparr>cd_revoked_at := Some (clk e 0)\<rparr>) (cli_devices db)\<rparr>)
               | _ \<Rightarrow> Inl (KeyError device_id)))"

section \<open>Codes are redeemed once\<close>

text \<open>The digest of the code is the key; redeeming at a time is an attempt of the interface.\<close>

definition redeem_pairing :: "env \<Rightarrow> string \<Rightarrow> time \<Rightarrow> store \<Rightarrow> (store \<times> cli_pairing) option" where
  "redeem_pairing e code now db =
     (case consume_cli_pairing (e\<lparr>clk := (\<lambda>_. now)\<rparr>) code db of Inl _ \<Rightarrow> None | Inr r \<Rightarrow> Some r)"

definition redeem_device :: "env \<Rightarrow> string \<Rightarrow> time \<Rightarrow> store \<Rightarrow> (store \<times> string) option" where
  "redeem_device e code now db =
     (case poll_cli_device (e\<lparr>clk := (\<lambda>_. now)\<rparr>) code db of
        (db', Poll_Approved acct name) \<Rightarrow> Some (db', acct) | _ \<Rightarrow> None)"

definition pairing_dead :: "env \<Rightarrow> string \<Rightarrow> store \<Rightarrow> bool" where
  "pairing_dead e code db \<longleftrightarrow> (\<forall>p \<in> set (cli_pairings db). cp_code_hash p = sha256 e code \<longrightarrow> cp_consumed_at p \<noteq> None)"

definition request_dead :: "env \<Rightarrow> string \<Rightarrow> store \<Rightarrow> bool" where
  "request_dead e code db \<longleftrightarrow> (\<forall>r \<in> set (cli_requests db). cr_code_hash r = sha256 e code \<longrightarrow> cr_consumed_at r \<noteq> None)"

lemma redeem_pairing_Some:
  "redeem_pairing e code now db = Some (db', row) \<Longrightarrow>
     db' = db\<lparr>cli_pairings := upd (\<lambda>p. cp_code_hash p = sha256 e code \<and> cp_consumed_at p = None)
                (\<lambda>p. p\<lparr>cp_consumed_at := Some now\<rparr>) (cli_pairings db)\<rparr> \<and>
     row \<in> set (cli_pairings db) \<and> cp_code_hash row = sha256 e code \<and> cp_consumed_at row = None \<and> now < cp_expires_at row"
  by (auto simp: redeem_pairing_def consume_cli_pairing_def Let_def dest: fetchone_SomeD
           split: option.splits sum.splits)

interpretation cli_code: one_time "redeem_pairing e" "pairing_dead e" for e
proof unfold_locales
  fix code code' now db db' row
  show "redeem_pairing e code now db = Some (db', row) \<Longrightarrow> pairing_dead e code db'"
    by (drule redeem_pairing_Some) (auto simp: pairing_dead_def row_simps)
  show "pairing_dead e code db \<Longrightarrow> redeem_pairing e code now db = None"
    by (cases "redeem_pairing e code now db")
       (auto dest!: redeem_pairing_Some simp: pairing_dead_def)
  show "pairing_dead e code db \<Longrightarrow> redeem_pairing e code' now db = Some (db', row) \<Longrightarrow> pairing_dead e code db'"
    by (drule redeem_pairing_Some) (auto simp: pairing_dead_def row_simps)
qed

lemma redeem_device_Some:
  assumes "redeem_device e code now db = Some (db', acct)"
  shows "db' = db\<lparr>cli_requests := upd (\<lambda>r. cr_code_hash r = sha256 e code \<and> cr_consumed_at r = None)
                (\<lambda>r. r\<lparr>cr_consumed_at := Some now\<rparr>) (cli_requests db)\<rparr> \<and>
     (\<exists>row \<in> set (cli_requests db). cr_code_hash row = sha256 e code \<and> cr_consumed_at row = None \<and>
        cr_account row = Some acct \<and> now < cr_expires_at row)"
  using assms
  by (auto simp: redeem_device_def poll_cli_device_def Let_def dest!: fetchone_SomeD
           split: option.splits prod.splits poll.splits if_splits)

interpretation cli_request: one_time "redeem_device e" "request_dead e" for e
proof unfold_locales
  fix code code' now db db' row
  show "redeem_device e code now db = Some (db', row) \<Longrightarrow> request_dead e code db'"
    by (drule redeem_device_Some) (auto simp: request_dead_def row_simps)
  show "request_dead e code db \<Longrightarrow> redeem_device e code now db = None"
    by (cases "redeem_device e code now db")
       (auto dest!: redeem_device_Some simp: request_dead_def)
  show "request_dead e code db \<Longrightarrow> redeem_device e code' now db = Some (db', row) \<Longrightarrow> request_dead e code db'"
    by (drule redeem_device_Some) (auto simp: request_dead_def row_simps)
qed

end
