(* ===== verification/Conversations.thy ===== *)
theory Conversations
  imports Schema
begin

text \<open>
  \<open>src/smara/store.py\<close>: conversations with a rolling summary, and vetted profile facts. An exchange
  appends two turns; when more than 32 turns are unsummarized, all but the last 16 are folded into
  the summary and deleted.
\<close>

section \<open>Reading\<close>

definition clamp_limit :: "int \<Rightarrow> int" where
  "clamp_limit n = max 1 (min 40 n)"

definition clamp_chars :: "int \<Rightarrow> int" where
  "clamp_chars n = max 1000 (min 30000 n)"

text \<open>The budgeted copy of the newest turns: \<open>rows\<close> come newest first, \<open>used\<close> counts characters.\<close>

fun select_turns :: "int \<Rightarrow> int \<Rightarrow> turn list \<Rightarrow> turn list" where
  "select_turns max_chars used [] = []"
| "select_turns max_chars used (r # rows) =
     (let remaining = max_chars - used in
      if remaining \<le> 0 then []
      else let content = take (nat remaining) (tu_content r)
           in r\<lparr>tu_content := content\<rparr> # select_turns max_chars (used + int (length content)) rows)"

definition recent_turns :: "string \<Rightarrow> string \<Rightarrow> int \<Rightarrow> store \<Rightarrow> turn list" where
  "recent_turns cid acct limit db =
     take (nat limit) (sort_key (\<lambda>t. - tu_sequence t)
       (filter (\<lambda>t. tu_conversation t = cid \<and> tu_account t = acct) (turns db)))"

definition conversation_history ::
  "string \<Rightarrow> string \<Rightarrow> string \<Rightarrow> int \<Rightarrow> int \<Rightarrow> store \<Rightarrow> turn list result" where
  "conversation_history cid acct ws limit max_chars db =
     (let limit = clamp_limit limit; max_chars = clamp_chars max_chars;
          refused = (case fetchone (filter (\<lambda>c. cv_id c = cid) (conversations db)) of
                       None \<Rightarrow> False | Some c \<Rightarrow> cv_account c \<noteq> acct \<or> cv_workspace c \<noteq> ws)
      in if refused then Inl (KeyError cid)
         else Inr (rev (select_turns max_chars 0 (recent_turns cid acct limit db))))"

definition conversation_summary :: "string \<Rightarrow> string \<Rightarrow> string \<Rightarrow> store \<Rightarrow> string" where
  "conversation_summary cid acct ws db =
     (case fetchone (filter (\<lambda>c. cv_id c = cid \<and> cv_account c = acct \<and> cv_workspace c = ws) (conversations db)) of
        None \<Rightarrow> [] | Some c \<Rightarrow> cv_summary c)"

definition conversation_context ::
  "string \<Rightarrow> string \<Rightarrow> string \<Rightarrow> int \<Rightarrow> int \<Rightarrow> store \<Rightarrow> (turn list \<times> string) result" where
  "conversation_context cid acct ws limit max_chars db =
     (let limit = clamp_limit limit; max_chars = clamp_chars max_chars;
          owner = fetchone (filter (\<lambda>c. cv_id c = cid) (conversations db));
          refused = (case owner of None \<Rightarrow> False | Some c \<Rightarrow> cv_account c \<noteq> acct \<or> cv_workspace c \<noteq> ws)
      in if refused then Inl (KeyError cid)
         else Inr (rev (select_turns max_chars 0 (recent_turns cid acct limit db)),
                   case owner of None \<Rightarrow> [] | Some c \<Rightarrow> cv_summary c))"

section \<open>Appending an exchange\<close>

definition ensure_conversation :: "string \<Rightarrow> string \<Rightarrow> string \<Rightarrow> time \<Rightarrow> store \<Rightarrow> store" where
  "ensure_conversation cid acct ws now db =
     (if cid \<in> cv_id ` set (conversations db) then db
      else db\<lparr>conversations := conversations db @ [\<lparr>cv_id = cid, cv_account = acct, cv_workspace = ws,
             cv_summary = [], cv_summarized = 0, cv_next_seq = 0, cv_created_at = now, cv_updated_at = now\<rparr>]\<rparr>)"

definition turn_line :: "turn \<Rightarrow> string" where
  "turn_line t = (case tu_role t of User \<Rightarrow> ''User'' | Assistant \<Rightarrow> ''Smara'') @ '': '' @ take 2000 (tu_content t)"

definition newline :: string where
  "newline = [CHR 0x0A]"

definition join_lines :: "string list \<Rightarrow> string" where
  "join_lines xs = (case xs of [] \<Rightarrow> [] | x # rest \<Rightarrow> x @ concat (map (\<lambda>y. newline @ y) rest))"

definition compact_turns :: "string \<Rightarrow> int \<Rightarrow> string \<Rightarrow> int \<Rightarrow> store \<Rightarrow> store" where
  "compact_turns cid summarized summary cutoff db =
     (let rows = sort_key tu_sequence (filter (\<lambda>t. tu_conversation t = cid \<and>
                   summarized < tu_sequence t \<and> tu_sequence t \<le> cutoff) (turns db));
          summary = take_last 8000 (strip (summary @ newline @ join_lines (map turn_line rows)))
      in db\<lparr>conversations := upd (\<lambda>c. cv_id c = cid)
              (\<lambda>c. c\<lparr>cv_summary := summary, cv_summarized := cutoff\<rparr>) (conversations db),
            turns := del (\<lambda>t. tu_conversation t = cid \<and> tu_sequence t \<le> cutoff) (turns db)\<rparr>)"

definition new_turn ::
  "string \<Rightarrow> string \<Rightarrow> string \<Rightarrow> int \<Rightarrow> role \<Rightarrow> string \<Rightarrow> string option \<Rightarrow> time \<Rightarrow> turn" where
  "new_turn u cid acct sequence r content model now =
     \<lparr>tu_id = ''turn_'' @ u, tu_conversation = cid, tu_account = acct, tu_sequence = sequence,
      tu_role = r, tu_content = take 20000 content, tu_model = model, tu_created_at = now\<rparr>"

definition append_exchange ::
  "env \<Rightarrow> string \<Rightarrow> string \<Rightarrow> string \<Rightarrow> string \<Rightarrow> string \<Rightarrow> string option \<Rightarrow> store \<Rightarrow> store result" where
  "append_exchange e cid acct ws user_message assistant_message model db =
     (let now = clk e 0; db = ensure_conversation cid acct ws now db
      in case fetchone (filter (\<lambda>c. cv_id c = cid) (conversations db)) of
           None \<Rightarrow> Inl (KeyError cid)
         | Some owner \<Rightarrow>
             (if cv_account owner \<noteq> acct \<or> cv_workspace owner \<noteq> ws then Inl (KeyError cid)
              else
                (let sequence = cv_next_seq owner + 2;
                     db = db\<lparr>conversations := upd (\<lambda>c. cv_id c = cid)
                            (\<lambda>c. c\<lparr>cv_next_seq := cv_next_seq c + 2, cv_updated_at := now\<rparr>) (conversations db)\<rparr>;
                     db = db\<lparr>turns := turns db @
                            [new_turn (uuid e [0]) cid acct (sequence - 1) User user_message None now,
                             new_turn (uuid e [1]) cid acct sequence Assistant assistant_message model now]\<rparr>;
                     summarized = cv_summarized owner
                 in if sequence - summarized > 32
                    then Inr (compact_turns cid summarized (cv_summary owner) (sequence - 16) db)
                    else Inr db)))"

section \<open>Listing and deleting\<close>

definition first_message :: "conversation \<Rightarrow> store \<Rightarrow> string option" where
  "first_message c db =
     map_option (\<lambda>t. take 120 (tu_content t))
       (fetchone (sort_key tu_sequence (filter (\<lambda>t. tu_conversation t = cv_id c \<and>
          tu_account t = cv_account c \<and> tu_role t = User) (turns db))))"

definition list_conversations :: "string \<Rightarrow> int \<Rightarrow> store \<Rightarrow> (conversation \<times> string option) list" where
  "list_conversations acct limit db =
     map (\<lambda>c. (c, first_message c db))
       (take (nat (max 1 (min 100 limit)))
         (sort_key (\<lambda>c. - cv_updated_at c) (filter (\<lambda>c. cv_account c = acct) (conversations db))))"

definition delete_conversation :: "string \<Rightarrow> string \<Rightarrow> store \<Rightarrow> store result" where
  "delete_conversation cid acct db =
     (case fetchone (filter (\<lambda>c. cv_id c = cid \<and> cv_account c = acct) (conversations db)) of
        None \<Rightarrow> Inl (KeyError cid)
      | Some _ \<Rightarrow> Inr (db\<lparr>turns := del (\<lambda>t. tu_conversation t = cid \<and> tu_account t = acct) (turns db),
                         conversations := del (\<lambda>c. cv_id c = cid \<and> cv_account c = acct) (conversations db)\<rparr>))"

section \<open>Profile facts\<close>

abbreviation fact_id :: "fact \<Rightarrow> string \<times> string \<times> string" where
  "fact_id f \<equiv> (fa_account f, fa_workspace f, fa_key f)"

text \<open>The keys and values are text, so \<open>str(key)\<close> is the identity.\<close>

definition put_fact :: "string \<Rightarrow> string \<Rightarrow> time \<Rightarrow> string \<times> string \<Rightarrow> fact list \<Rightarrow> fact list" where
  "put_fact acct ws now kv fs =
     (let key = take 64 (strip (fst kv)); val = take 500 (strip (snd kv))
      in if key = [] \<or> val = [] then fs
         else upsert fact_id
                (\<lambda>old new. old\<lparr>fa_value := fa_value new, fa_source := fa_source new, fa_updated_at := fa_updated_at new\<rparr>)
                \<lparr>fa_account = acct, fa_workspace = ws, fa_key = key, fa_value = val,
                 fa_source = ''explicit_user_statement'', fa_updated_at = now\<rparr> fs)"

definition remember_facts :: "env \<Rightarrow> string \<Rightarrow> string \<Rightarrow> (string \<times> string) list \<Rightarrow> store \<Rightarrow> store" where
  "remember_facts e acct ws kvs db =
     (if kvs = [] then db
      else db\<lparr>facts := fold (put_fact acct ws (clk e 0)) kvs (facts db)\<rparr>)"

definition account_facts :: "string \<Rightarrow> string \<Rightarrow> store \<Rightarrow> (string \<times> string) list" where
  "account_facts acct ws db =
     map (\<lambda>f. (fa_key f, fa_value f))
       (take 20 (sort_key (\<lambda>f. - fa_updated_at f)
         (filter (\<lambda>f. fa_account f = acct \<and> fa_workspace f = ws) (facts db))))"

definition forget_fact :: "string \<Rightarrow> string \<Rightarrow> string \<Rightarrow> store \<Rightarrow> store \<times> bool" where
  "forget_fact acct ws key db =
     (let k = take 64 (strip key); hit = (\<lambda>f. fact_id f = (acct, ws, k))
      in (db\<lparr>facts := del hit (facts db)\<rparr>, rowcount hit (facts db) \<noteq> 0))"

section \<open>The conversation invariant\<close>

text \<open>
  Conversation ids are unique, and the stored turns of a conversation are exactly the sequence
  numbers after the summarized prefix up to the last one, each once.
\<close>

definition conv_inv :: "store \<Rightarrow> bool" where
  "conv_inv db \<longleftrightarrow> distinct (map cv_id (conversations db)) \<and>
     (\<forall>c \<in> set (conversations db).
        cv_summarized c \<le> cv_next_seq c \<and> cv_next_seq c - cv_summarized c \<le> 32 \<and>
        map tu_sequence (filter (\<lambda>t. tu_conversation t = cv_id c) (turns db))
          = [cv_summarized c + 1 .. cv_next_seq c]) \<and>
     (\<forall>t \<in> set (turns db). \<exists>c \<in> set (conversations db). cv_id c = tu_conversation t \<and> cv_account c = tu_account t)"

lemma filter_upto:
  assumes "a \<le> m" and "m \<le> (b::int)"
  shows "filter (\<lambda>i. \<not> i \<le> m) [a + 1 .. b] = [m + 1 .. b]"
proof -
  have split: "[a + 1 .. b] = [a + 1 .. m] @ [m + 1 .. b]"
    using assms by (cases "m = b") (auto simp: upto_split1 [of "a + 1" "m + 1" b])
  have "filter (\<lambda>i. \<not> i \<le> m) [a + 1 .. m] = []" by (simp add: filter_empty_conv)
  moreover have "filter (\<lambda>i. \<not> i \<le> m) [m + 1 .. b] = [m + 1 .. b]" by (simp add: filter_id_conv)
  ultimately show ?thesis using split by simp
qed

lemma upto_snoc2: "a \<le> b \<Longrightarrow> [a + 1 .. b + 2] = [a + 1 .. b] @ [b + 1, b + 2]" for a b :: int
  by (simp add: upto_rec2)

lemma ensure_conversation_inv:
  assumes "conv_inv db"
  shows "conv_inv (ensure_conversation cid acct ws now db)"
proof (cases "cid \<in> cv_id ` set (conversations db)")
  case True
  with assms show ?thesis by (simp add: ensure_conversation_def)
next
  case False
  then have "filter (\<lambda>t. tu_conversation t = cid) (turns db) = []"
    using assms by (force simp: conv_inv_def filter_empty_conv)
  with False assms show ?thesis
    by (auto simp: ensure_conversation_def conv_inv_def)
qed

lemma ensure_conversation_simps [simp]:
  "turns (ensure_conversation cid acct ws now db) = turns db"
  "cid \<in> cv_id ` set (conversations (ensure_conversation cid acct ws now db))"
  by (auto simp: ensure_conversation_def)

text \<open>Adding the two turns of an exchange keeps everything but the bound.\<close>

definition add_turns :: "env \<Rightarrow> string \<Rightarrow> string \<Rightarrow> int \<Rightarrow> string \<Rightarrow> string \<Rightarrow> string option \<Rightarrow> store \<Rightarrow> store" where
  "add_turns e cid acct sequence user_message assistant_message model db =
     db\<lparr>conversations := upd (\<lambda>c. cv_id c = cid)
            (\<lambda>c. c\<lparr>cv_next_seq := cv_next_seq c + 2, cv_updated_at := clk e 0\<rparr>) (conversations db),
        turns := turns db @
            [new_turn (uuid e [0]) cid acct (sequence - 1) User user_message None (clk e 0),
             new_turn (uuid e [1]) cid acct sequence Assistant assistant_message model (clk e 0)]\<rparr>"

lemma append_exchange_Inr:
  "append_exchange e cid acct ws um am model db = Inr db' \<longleftrightarrow>
     (\<exists>owner. let db0 = ensure_conversation cid acct ws (clk e 0) db;
               sequence = cv_next_seq owner + 2;
               db1 = add_turns e cid acct sequence um am model db0
           in fetchone (filter (\<lambda>c. cv_id c = cid) (conversations db0)) = Some owner \<and>
              cv_account owner = acct \<and> cv_workspace owner = ws \<and>
              db' = (if sequence - cv_summarized owner > 32
                     then compact_turns cid (cv_summarized owner) (cv_summary owner) (sequence - 16) db1 else db1))"
  by (auto simp: append_exchange_def add_turns_def Let_def split: option.splits if_splits)

lemma add_turns_inv:
  assumes inv: "conv_inv db" and owner: "owner \<in> set (conversations db)" "cv_id owner = cid"
    and acct: "cv_account owner = acct" and seq: "sequence = cv_next_seq owner + 2"
    and db1_def: "db1 = add_turns e cid acct sequence um am model db"
  shows "distinct (map cv_id (conversations db1))"
    and "\<forall>c \<in> set (conversations db1). cv_summarized c \<le> cv_next_seq c \<and>
           (cv_id c \<noteq> cid \<longrightarrow> cv_next_seq c - cv_summarized c \<le> 32) \<and>
           map tu_sequence (filter (\<lambda>t. tu_conversation t = cv_id c) (turns db1))
             = [cv_summarized c + 1 .. cv_next_seq c]"
    and "\<forall>t \<in> set (turns db1). \<exists>c \<in> set (conversations db1). cv_id c = tu_conversation t \<and> cv_account c = tu_account t"
proof -
  have keys: "distinct (map cv_id (conversations db))" using inv by (simp add: conv_inv_def)
  show "distinct (map cv_id (conversations db1))"
    using keys by (simp add: db1_def add_turns_def map_upd)
  have same: "c = owner" if "c \<in> set (conversations db)" "cv_id c = cid" for c
    using key_inj [OF keys that(1) owner(1)] that owner by simp
  show "\<forall>c \<in> set (conversations db1). cv_summarized c \<le> cv_next_seq c \<and>
           (cv_id c \<noteq> cid \<longrightarrow> cv_next_seq c - cv_summarized c \<le> 32) \<and>
           map tu_sequence (filter (\<lambda>t. tu_conversation t = cv_id c) (turns db1))
             = [cv_summarized c + 1 .. cv_next_seq c]"
    using inv same seq
    by (auto simp: db1_def add_turns_def row_simps new_turn_def conv_inv_def upto_snoc2)
  show "\<forall>t \<in> set (turns db1). \<exists>c \<in> set (conversations db1). cv_id c = tu_conversation t \<and> cv_account c = tu_account t"
  proof -
    have "\<exists>c \<in> set (conversations db1). cv_id c = cv_id x \<and> cv_account c = cv_account x"
      if "x \<in> set (conversations db)" for x
      using upd_witness [OF that, where g = "\<lambda>c. (cv_id c, cv_account c)" and P = "\<lambda>c. cv_id c = cid"]
      by (fastforce simp: db1_def add_turns_def)
    then show ?thesis
      using inv owner acct by (fastforce simp: db1_def add_turns_def new_turn_def conv_inv_def)
  qed
qed

lemma compact_turns_inv:
  assumes keys: "distinct (map cv_id (conversations db))"
    and rows: "\<forall>c \<in> set (conversations db). cv_summarized c \<le> cv_next_seq c \<and>
           (cv_id c \<noteq> cid \<longrightarrow> cv_next_seq c - cv_summarized c \<le> 32) \<and>
           map tu_sequence (filter (\<lambda>t. tu_conversation t = cv_id c) (turns db))
             = [cv_summarized c + 1 .. cv_next_seq c]"
    and owned: "\<forall>t \<in> set (turns db). \<exists>c \<in> set (conversations db). cv_id c = tu_conversation t \<and> cv_account c = tu_account t"
    and target: "\<forall>c \<in> set (conversations db). cv_id c = cid \<longrightarrow>
           cv_summarized c \<le> cutoff \<and> cutoff \<le> cv_next_seq c \<and> cv_next_seq c - cutoff \<le> 32"
  shows "conv_inv (compact_turns cid summarized summary cutoff db)"
proof -
  let ?db = "compact_turns cid summarized summary cutoff db"
  have kept: "map tu_sequence (filter (\<lambda>t. tu_conversation t = cid) (turns ?db))
      = filter (\<lambda>i. \<not> i \<le> cutoff) (map tu_sequence (filter (\<lambda>t. tu_conversation t = cid) (turns db)))"
    by (auto simp: compact_turns_def Let_def del_def filter_map comp_def intro!: arg_cong [of _ _ "map tu_sequence"] filter_cong)
  have other: "filter (\<lambda>t. tu_conversation t = k) (turns ?db) = filter (\<lambda>t. tu_conversation t = k) (turns db)"
    if "k \<noteq> cid" for k
    using that by (auto simp: compact_turns_def Let_def intro!: filter_del_other)
  have convs: "conversations ?db = upd (\<lambda>c. cv_id c = cid)
      (\<lambda>c. c\<lparr>cv_summary := take_last 8000 (strip (summary @ newline @ join_lines (map turn_line
          (sort_key tu_sequence (filter (\<lambda>t. tu_conversation t = cid \<and> summarized < tu_sequence t \<and> tu_sequence t \<le> cutoff) (turns db)))))),
            cv_summarized := cutoff\<rparr>) (conversations db)"
    by (simp add: compact_turns_def Let_def)
  have seq_cid: "map tu_sequence (filter (\<lambda>t. tu_conversation t = cid) (turns ?db)) = [cutoff + 1 .. cv_next_seq c]"
    if "c \<in> set (conversations db)" "cv_id c = cid" for c
  proof -
    have "map tu_sequence (filter (\<lambda>t. tu_conversation t = cid) (turns db))
        = [cv_summarized c + 1 .. cv_next_seq c]" using rows that by auto
    then show ?thesis using kept target that by (simp add: filter_upto)
  qed
  have "distinct (map cv_id (conversations ?db))" using keys by (simp add: convs map_upd)
  moreover have "\<exists>c \<in> set (conversations ?db). cv_id c = tu_conversation t \<and> cv_account c = tu_account t"
    if "t \<in> set (turns ?db)" for t
  proof -
    from that owned obtain c where "c \<in> set (conversations db)" "cv_id c = tu_conversation t" "cv_account c = tu_account t"
      by (auto simp: compact_turns_def Let_def row_simps)
    then show ?thesis
      using upd_witness [of c "conversations db" "\<lambda>c. cv_id c = cid" "\<lambda>c. (cv_id c, cv_account c)"]
      by (fastforce simp: convs)
  qed
  ultimately show ?thesis
    using rows target seq_cid other by (simp add: conv_inv_def convs ball_upd)
qed

lemma append_exchange_inv:
  assumes inv: "conv_inv db" and ok: "append_exchange e cid acct ws um am model db = Inr db'"
  shows "conv_inv db'"
proof -
  define db0 where "db0 = ensure_conversation cid acct ws (clk e 0) db"
  from ok [unfolded append_exchange_Inr] obtain owner where
      fetched: "fetchone (filter (\<lambda>c. cv_id c = cid) (conversations db0)) = Some owner"
    and acct: "cv_account owner = acct"
    and result: "db' = (let sequence = cv_next_seq owner + 2; db1 = add_turns e cid acct sequence um am model db0
        in if sequence - cv_summarized owner > 32
           then compact_turns cid (cv_summarized owner) (cv_summary owner) (sequence - 16) db1 else db1)"
    by (auto simp: db0_def Let_def)
  have inv0: "conv_inv db0" unfolding db0_def using inv by (rule ensure_conversation_inv)
  have owner: "owner \<in> set (conversations db0)" "cv_id owner = cid"
    using fetchone_SomeD [OF fetched] by auto
  define db1 where "db1 = add_turns e cid acct (cv_next_seq owner + 2) um am model db0"
  note facts1 = add_turns_inv [OF inv0 owner acct refl db1_def]
  have keys0: "distinct (map cv_id (conversations db0))" using inv0 by (simp add: conv_inv_def)
  have bounds: "cv_summarized owner \<le> cv_next_seq owner" "cv_next_seq owner - cv_summarized owner \<le> 32"
    using inv0 owner by (auto simp: conv_inv_def)
  have target: "cv_summarized c = cv_summarized owner \<and> cv_next_seq c = cv_next_seq owner + 2"
    if c: "c \<in> set (conversations db1)" "cv_id c = cid" for c
  proof -
    from c(1) obtain c0 where "c0 \<in> set (conversations db0)"
      "c = (if cv_id c0 = cid then c0\<lparr>cv_next_seq := cv_next_seq c0 + 2, cv_updated_at := clk e 0\<rparr> else c0)"
      by (auto simp: db1_def add_turns_def row_simps)
    with c(2) have "c = c0\<lparr>cv_next_seq := cv_next_seq c0 + 2, cv_updated_at := clk e 0\<rparr>" "c0 = owner"
      using key_inj [OF keys0 _ owner(1)] owner(2) by (auto split: if_splits)
    then show ?thesis by simp
  qed
  show ?thesis
  proof (cases "cv_next_seq owner + 2 - cv_summarized owner > 32")
    case True
    have "conv_inv (compact_turns cid (cv_summarized owner) (cv_summary owner) (cv_next_seq owner + 2 - 16) db1)"
      using True target bounds by (intro compact_turns_inv facts1) auto
    then show ?thesis using True by (simp add: result db1_def Let_def)
  next
    case False
    have "conv_inv db1"
      using facts1 target False by (auto simp: conv_inv_def)
    then show ?thesis using False by (simp add: result db1_def Let_def)
  qed
qed

end
