(* ===== verification/Integrations.thy ===== *)
theory Integrations
  imports Schema
begin

text \<open>
  \<open>src/smara/store.py\<close>: integration connections, credentials, OAuth states and the log of provider
  actions. An external action is gated by the owner's decision; a worker leases an approved one,
  and only reads are retried.
\<close>

section \<open>Connections and credentials\<close>

abbreviation connection_at :: "string \<Rightarrow> string \<Rightarrow> connection \<Rightarrow> bool" where
  "connection_at acct provider c \<equiv> c_account c = acct \<and> c_provider c = provider"

definition get_integration :: "string \<Rightarrow> string \<Rightarrow> store \<Rightarrow> connection result" where
  "get_integration acct provider db =
     (case fetchone (filter (connection_at acct provider) (connections db)) of
        None \<Rightarrow> Inl (KeyError provider) | Some c \<Rightarrow> Inr c)"

definition configure_integration ::
  "env \<Rightarrow> string \<Rightarrow> string \<Rightarrow> string \<Rightarrow> string \<Rightarrow> string list \<Rightarrow> string \<Rightarrow> store \<Rightarrow>
   (store \<times> connection) result" where
  "configure_integration e acct provider display policy scopes health db =
     (let now = clk e 0;
          db = (case fetchone (filter (connection_at acct provider) (connections db)) of
                  Some old \<Rightarrow> db\<lparr>connections := upd (\<lambda>c. c_id c = c_id old)
                    (\<lambda>c. c\<lparr>c_display_name := display, c_policy := policy, c_scopes := sort (remdups scopes),
                          c_health := health, c_updated_at := now\<rparr>) (connections db)\<rparr>
                | None \<Rightarrow> db\<lparr>connections := connections db @ [\<lparr>c_id = ''integration_'' @ uuid e [0],
                    c_account = acct, c_provider = provider, c_display_name = display, c_policy = policy,
                    c_scopes = sort (remdups scopes), c_health = health, c_created_at = now, c_updated_at = now\<rparr>]\<rparr>)
      in andThen (get_integration acct provider db) (\<lambda>c. Inr (db, c)))"

definition list_integrations :: "string \<Rightarrow> store \<Rightarrow> connection list" where
  "list_integrations acct db = sort_key c_provider (filter (\<lambda>c. c_account c = acct) (connections db))"

definition disconnect_integration :: "string \<Rightarrow> string \<Rightarrow> store \<Rightarrow> store \<times> bool" where
  "disconnect_integration acct provider db =
     (case fetchone (filter (connection_at acct provider) (connections db)) of
        None \<Rightarrow> (db, False)
      | Some row \<Rightarrow> (db\<lparr>credentials := del (\<lambda>k. k_connection k = c_id row) (credentials db),
                       connections := del (\<lambda>c. c_id c = c_id row) (connections db)\<rparr>, True))"

definition store_credential ::
  "env \<Rightarrow> string \<Rightarrow> string \<Rightarrow> string \<Rightarrow> string \<Rightarrow> store \<Rightarrow> store result" where
  "store_credential e acct provider kind encrypted db =
     andThen (get_integration acct provider db) (\<lambda>conn.
       let now = clk e 0 in
       Inr (db\<lparr>credentials := upsert k_connection
                 (\<lambda>old new. old\<lparr>k_kind := k_kind new, k_secret := k_secret new, k_updated_at := k_updated_at new\<rparr>)
                 \<lparr>k_connection = c_id conn, k_kind = kind, k_secret = encrypted, k_updated_at = now\<rparr> (credentials db),
               connections := upd (\<lambda>c. c_id c = c_id conn) (\<lambda>c. c\<lparr>c_health := ''healthy'', c_updated_at := now\<rparr>) (connections db)\<rparr>))"

definition encrypted_credential :: "string \<Rightarrow> store \<Rightarrow> credential result" where
  "encrypted_credential cid db =
     (case fetchone (filter (\<lambda>k. k_connection k = cid) (credentials db)) of
        None \<Rightarrow> Inl (KeyError ''credential'') | Some k \<Rightarrow> Inr k)"

definition integration_by_id :: "string \<Rightarrow> store \<Rightarrow> connection result" where
  "integration_by_id cid db =
     (case fetchone (filter (\<lambda>c. c_id c = cid) (connections db)) of
        None \<Rightarrow> Inl (KeyError ''integration'') | Some c \<Rightarrow> Inr c)"

section \<open>OAuth states\<close>

definition create_oauth_state :: "env \<Rightarrow> string \<Rightarrow> string \<Rightarrow> string \<Rightarrow> string \<Rightarrow> store \<Rightarrow> store" where
  "create_oauth_state e acct provider state verifier db =
     db\<lparr>oauth_states := oauth_states db @ [\<lparr>o_state_hash = sha256 e state, o_account = acct,
          o_provider = provider, o_verifier = verifier, o_expires_at = clk e 1 + seconds 600,
          o_consumed_at = None\<rparr>]\<rparr>"

definition consume_oauth_state :: "env \<Rightarrow> string \<Rightarrow> string \<Rightarrow> store \<Rightarrow> (store \<times> oauth_state) result" where
  "consume_oauth_state e state provider db =
     (let now = clk e 0; h = sha256 e state
      in case fetchone (filter (\<lambda>w. o_state_hash w = h \<and> o_provider w = provider \<and> o_consumed_at w = None \<and> o_expires_at w > now) (oauth_states db)) of
           None \<Rightarrow> Inl (KeyError ''oauth state'')
         | Some row \<Rightarrow> Inr (db\<lparr>oauth_states := upd (\<lambda>w. o_state_hash w = h)
                             (\<lambda>w. w\<lparr>o_consumed_at := Some now\<rparr>) (oauth_states db)\<rparr>, row))"

section \<open>Requesting and deciding an action\<close>

definition read_actions :: "string set" where
  "read_actions = {''gmail.search'', ''calendar.list'', ''telegram.search'', ''github.list'', ''drive.search''}"

definition action_risk :: "string \<Rightarrow> act_risk" where
  "action_risk a = (if a \<in> read_actions then Read_Risk else External_Risk)"

definition initial_status :: "string \<Rightarrow> act_risk \<Rightarrow> act_status" where
  "initial_status policy risk =
     (if policy = ''blocked'' \<or> (policy = ''observe'' \<and> risk = External_Risk) then A_Blocked
      else if policy = ''draft'' \<and> risk = External_Risk then A_Draft
      else if risk = External_Risk then A_Awaiting else A_Draft)"

text \<open>\<open>(account_id, idempotency_key)\<close> is unique: a repeated request returns the prior row.\<close>

definition request_action ::
  "env \<Rightarrow> string \<Rightarrow> string \<Rightarrow> string \<Rightarrow> string \<Rightarrow> string \<Rightarrow> json \<Rightarrow> store \<Rightarrow> (store \<times> action) result" where
  "request_action e acct provider act preview key payload db =
     andThen (get_integration acct provider db) (\<lambda>conn.
       case fetchone (filter (\<lambda>q. q_account q = acct \<and> q_idempotency_key q = key) (actions db)) of
         Some prior \<Rightarrow> Inr (db, prior)
       | None \<Rightarrow>
           (let risk = action_risk act;
                row = \<lparr>q_id = ''iact_'' @ uuid e [0], q_account = acct, q_connection = c_id conn,
                       q_action = act, q_preview = preview, q_idempotency_key = key, q_risk = risk,
                       q_status = initial_status (c_policy conn) risk, q_payload = payload, q_note = [],
                       q_lease_owner = None, q_lease_expires = None, q_attempts = 0, q_max_attempts = 3,
                       q_retry_at = None, q_last_error = None, q_result = None, q_created_at = clk e 0\<rparr>
            in Inr (db\<lparr>actions := actions db @ [row]\<rparr>, row)))"

definition list_actions :: "string \<Rightarrow> store \<Rightarrow> action list" where
  "list_actions acct db = sort_key (\<lambda>q. - q_created_at q) (filter (\<lambda>q. q_account q = acct) (actions db))"

definition decide_action ::
  "string \<Rightarrow> string \<Rightarrow> bool \<Rightarrow> string \<Rightarrow> string option \<Rightarrow> json option \<Rightarrow> store \<Rightarrow> (store \<times> action) result" where
  "decide_action acct aid approved note edited_preview edited_payload db =
     (case fetchone (filter (\<lambda>q. q_id q = aid \<and> q_account q = acct) (actions db)) of
        None \<Rightarrow> Inl (KeyError aid)
      | Some row \<Rightarrow>
          (if q_status row \<noteq> A_Awaiting then Inl (ValueError ''action is not awaiting approval'')
           else
             (let st = (if approved then A_Approved else A_Denied);
                  preview = (case edited_preview of Some p \<Rightarrow> p | None \<Rightarrow> q_preview row);
                  payload = (case edited_payload of Some p \<Rightarrow> p | None \<Rightarrow> q_payload row);
                  f = (\<lambda>q. q\<lparr>q_status := st, q_note := note, q_preview := preview, q_payload := payload\<rparr>)
              in Inr (db\<lparr>actions := upd (\<lambda>q. q_id q = aid) f (actions db)\<rparr>, f row))))"

section \<open>Executing an action\<close>

abbreviation free_action :: "act_status \<Rightarrow> action \<Rightarrow> action" where
  "free_action st q \<equiv> q\<lparr>q_status := st, q_lease_owner := None, q_lease_expires := None\<rparr>"

definition recover_actions :: "time \<Rightarrow> store \<Rightarrow> store" where
  "recover_actions now db =
     db\<lparr>actions := upd (\<lambda>q. q_status q = A_Running \<and> null_lt (q_lease_expires q) now)
          (free_action A_Approved) (actions db)\<rparr>"

definition action_ready :: "time \<Rightarrow> action \<Rightarrow> bool" where
  "action_ready now q \<longleftrightarrow> q_status q = A_Approved \<and> (q_retry_at q = None \<or> null_le (q_retry_at q) now)"

definition lease_action :: "string \<Rightarrow> time \<Rightarrow> action \<Rightarrow> action" where
  "lease_action worker until q = q\<lparr>q_status := A_Running, q_lease_owner := Some worker,
     q_lease_expires := Some until, q_attempts := q_attempts q + 1, q_retry_at := None\<rparr>"

text \<open>The returned row keeps its old \<open>retry_at\<close>; the stored one clears it.\<close>

definition claim_action :: "env \<Rightarrow> string \<Rightarrow> int \<Rightarrow> store \<Rightarrow> store \<times> action option" where
  "claim_action e worker lease_seconds db =
     (let now = clk e 0; db = recover_actions now db
      in case fetchone (sort_key q_created_at (filter (action_ready now) (actions db))) of
           None \<Rightarrow> (db, None)
         | Some row \<Rightarrow>
             (let until = clk e 1 + seconds lease_seconds
              in (db\<lparr>actions := upd (\<lambda>q. q_id q = q_id row) (lease_action worker until) (actions db)\<rparr>,
                  Some ((lease_action worker until row)\<lparr>q_retry_at := q_retry_at row\<rparr>))))"

abbreviation action_lease :: "string \<Rightarrow> string \<Rightarrow> action \<Rightarrow> bool" where
  "action_lease aid worker q \<equiv> q_id q = aid \<and> q_status q = A_Running \<and> q_lease_owner q = Some worker"

definition complete_action ::
  "string \<Rightarrow> string \<Rightarrow> string option \<Rightarrow> string option \<Rightarrow> store \<Rightarrow> store result" where
  "complete_action aid worker result err db =
     (case fetchone (filter (action_lease aid worker) (actions db)) of
        None \<Rightarrow> Inl (KeyError ''integration lease'')
      | Some _ \<Rightarrow>
          Inr (db\<lparr>actions := upd (\<lambda>q. q_id q = aid)
                 (\<lambda>q. case err of
                        Some x \<Rightarrow> (if x = [] then (free_action A_Completed q)\<lparr>q_result := Some (take 2000 (opt_or result ''completed''))\<rparr>
                                   else (free_action A_Failed q)\<lparr>q_last_error := Some (take 2000 x)\<rparr>)
                      | None \<Rightarrow> (free_action A_Completed q)\<lparr>q_result := Some (take 2000 (opt_or result ''completed''))\<rparr>)
                 (actions db)\<rparr>))"

definition fail_action ::
  "env \<Rightarrow> string \<Rightarrow> string \<Rightarrow> string \<Rightarrow> bool \<Rightarrow> int \<Rightarrow> store \<Rightarrow> (store \<times> string) result" where
  "fail_action e aid worker err retryable delay db =
     (case fetchone (filter (action_lease aid worker) (actions db)) of
        None \<Rightarrow> Inl (KeyError ''integration lease'')
      | Some row \<Rightarrow>
          (if retryable \<and> q_risk row = Read_Risk \<and> q_attempts row < q_max_attempts row
           then Inr (db\<lparr>actions := upd (\<lambda>q. q_id q = aid)
                  (\<lambda>q. (free_action A_Approved q)\<lparr>q_retry_at := Some (clk e 0 + seconds (max 1 delay)),
                        q_last_error := Some (take 2000 err)\<rparr>) (actions db)\<rparr>, ''retry'')
           else Inr (db\<lparr>actions := upd (\<lambda>q. q_id q = aid)
                  (\<lambda>q. (free_action A_Failed q)\<lparr>q_retry_at := None, q_last_error := Some (take 2000 err)\<rparr>) (actions db)\<rparr>,
                ''failed'')))"

section \<open>OAuth states are consumed once\<close>

definition redeem_oauth :: "env \<Rightarrow> string \<times> string \<Rightarrow> time \<Rightarrow> store \<Rightarrow> (store \<times> oauth_state) option" where
  "redeem_oauth e sp now db =
     (case consume_oauth_state (e\<lparr>clk := (\<lambda>_. now)\<rparr>) (fst sp) (snd sp) db of Inl _ \<Rightarrow> None | Inr r \<Rightarrow> Some r)"

definition oauth_dead :: "env \<Rightarrow> string \<times> string \<Rightarrow> store \<Rightarrow> bool" where
  "oauth_dead e sp db \<longleftrightarrow> (\<forall>w \<in> set (oauth_states db). o_state_hash w = sha256 e (fst sp) \<longrightarrow> o_consumed_at w \<noteq> None)"

lemma redeem_oauth_Some:
  "redeem_oauth e sp now db = Some (db', row) \<Longrightarrow>
     db' = db\<lparr>oauth_states := upd (\<lambda>w. o_state_hash w = sha256 e (fst sp)) (\<lambda>w. w\<lparr>o_consumed_at := Some now\<rparr>) (oauth_states db)\<rparr> \<and>
     row \<in> set (oauth_states db) \<and> o_state_hash row = sha256 e (fst sp) \<and> o_provider row = snd sp \<and>
     o_consumed_at row = None \<and> now < o_expires_at row"
  by (auto simp: redeem_oauth_def consume_oauth_state_def Let_def dest: fetchone_SomeD
           split: option.splits sum.splits)

interpretation oauth_code: one_time "redeem_oauth e" "oauth_dead e" for e
proof unfold_locales
  fix sp sp' now db db' row
  show "redeem_oauth e sp now db = Some (db', row) \<Longrightarrow> oauth_dead e sp db'"
    by (drule redeem_oauth_Some) (auto simp: oauth_dead_def row_simps)
  show "oauth_dead e sp db \<Longrightarrow> redeem_oauth e sp now db = None"
    by (cases "redeem_oauth e sp now db") (auto dest!: redeem_oauth_Some simp: oauth_dead_def)
  show "oauth_dead e sp db \<Longrightarrow> redeem_oauth e sp' now db = Some (db', row) \<Longrightarrow> oauth_dead e sp db'"
    by (drule redeem_oauth_Some) (auto simp: oauth_dead_def row_simps)
qed

end
