(* ===== verification/Notifications.thy ===== *)
theory Notifications
  imports Schema
begin

text \<open>
  \<open>src/smara/store.py\<close>: web-push subscriptions and in-app notifications. The Postgres class repeats
  these methods with its own parameter markers and the same statements.
\<close>

section \<open>Push subscriptions\<close>

definition save_push_subscription :: "env \<Rightarrow> string \<Rightarrow> string \<Rightarrow> string \<Rightarrow> string \<Rightarrow> store \<Rightarrow> store" where
  "save_push_subscription e acct endpoint p256dh auth db =
     (let now = clk e 0 in
      db\<lparr>subscriptions := upsert u_endpoint
           (\<lambda>old new. old\<lparr>u_account := u_account new, u_p256dh := u_p256dh new, u_auth := u_auth new,
                         u_updated_at := u_updated_at new\<rparr>)
           \<lparr>u_endpoint = endpoint, u_account = acct, u_p256dh = p256dh, u_auth = auth,
            u_created_at = now, u_updated_at = now\<rparr> (subscriptions db)\<rparr>)"

definition push_subscriptions :: "string \<Rightarrow> store \<Rightarrow> (string \<times> string \<times> string) list" where
  "push_subscriptions acct db =
     map (\<lambda>u. (u_endpoint u, u_p256dh u, u_auth u)) (filter (\<lambda>u. u_account u = acct) (subscriptions db))"

definition delete_push_subscription :: "string \<Rightarrow> store \<Rightarrow> store" where
  "delete_push_subscription endpoint db =
     db\<lparr>subscriptions := del (\<lambda>u. u_endpoint u = endpoint) (subscriptions db)\<rparr>"

section \<open>Notifications\<close>

definition create_notification ::
  "env \<Rightarrow> string \<Rightarrow> string \<Rightarrow> string \<Rightarrow> string \<Rightarrow> store \<Rightarrow> (store \<times> notification) result" where
  "create_notification e acct message title url db =
     (if strip message = [] then Inl (ValueError ''notification message must not be empty'')
      else
        (let row = \<lparr>n_id = ''notification_'' @ uuid e [0], n_account = acct, n_message = take 4000 message,
                    n_title = take 200 title, n_url = take 2000 (or_text url ''/''),
                    n_created_at = clk e 0, n_read_at = None\<rparr>
         in Inr (publish ''notification.created'' None (db\<lparr>notifications := notifications db @ [row]\<rparr>), row)))"

abbreviation unread :: "string \<Rightarrow> notification \<Rightarrow> bool" where
  "unread acct n \<equiv> n_account n = acct \<and> n_read_at n = None"

text \<open>\<open>ORDER BY created_at DESC, id DESC LIMIT ?\<close>.\<close>

definition list_notifications :: "string \<Rightarrow> int \<Rightarrow> store \<Rightarrow> notification list" where
  "list_notifications acct limit db =
     take (nat (max 1 (min 200 limit)))
       (rev (sort_key (\<lambda>n. (n_created_at n, n_id n)) (filter (unread acct) (notifications db))))"

definition acknowledge_notification :: "env \<Rightarrow> string \<Rightarrow> string \<Rightarrow> store \<Rightarrow> store \<times> bool" where
  "acknowledge_notification e nid acct db =
     (let mine = (\<lambda>n. n_id n = nid \<and> unread acct n)
      in (db\<lparr>notifications := upd mine (\<lambda>n. n\<lparr>n_read_at := Some (clk e 0)\<rparr>) (notifications db)\<rparr>,
          rowcount mine (notifications db) = 1))"

definition acknowledge_all_notifications :: "env \<Rightarrow> string \<Rightarrow> store \<Rightarrow> store \<times> nat" where
  "acknowledge_all_notifications e acct db =
     (db\<lparr>notifications := upd (unread acct) (\<lambda>n. n\<lparr>n_read_at := Some (clk e 0)\<rparr>) (notifications db)\<rparr>,
      rowcount (unread acct) (notifications db))"

section \<open>Facts\<close>

lemma in_list_notifications:
  "n \<in> set (list_notifications acct limit db) \<Longrightarrow> n \<in> set (notifications db) \<and> unread acct n"
  by (auto simp: list_notifications_def dest: in_set_takeD)

lemma length_list_notifications: "length (list_notifications acct limit db) \<le> 200"
  by (simp add: list_notifications_def)

lemma acknowledged_gone:
  assumes "acknowledge_notification e nid acct db = (db', ok)"
  shows "filter (unread acct) (notifications db')
       = filter (\<lambda>n. unread acct n \<and> n_id n \<noteq> nid) (notifications db)"
proof -
  have "filter (unread acct) (upd (\<lambda>n. n_id n = nid \<and> unread acct n) (\<lambda>n. n\<lparr>n_read_at := Some t\<rparr>) ns)
      = filter (\<lambda>n. unread acct n \<and> n_id n \<noteq> nid) ns" for t ns
    by (induction ns) auto
  then show ?thesis using assms by (auto simp: acknowledge_notification_def Let_def)
qed

lemma acknowledge_keeps_others:
  assumes "acknowledge_notification e nid acct db = (db', ok)" and "other \<noteq> acct"
  shows "filter (\<lambda>n. n_account n = other) (notifications db') = filter (\<lambda>n. n_account n = other) (notifications db)"
  using assms by (auto simp: acknowledge_notification_def Let_def intro!: filter_upd_other)

end
