(* ===== verification/Skills.thy ===== *)
theory Skills
  imports Schema
begin

text \<open>
  \<open>src/smara/store.py\<close>: the reviewed lifecycle of skills, \<open>draft\<close>, \<open>tested\<close>, \<open>published\<close>,
  \<open>deprecated\<close>. \<open>validate_skill_manifest\<close> (\<open>skill_protocol.py\<close>) is a parameter: \<open>vld\<close> returns the
  parsed manifest or the exception, and \<open>dump\<close> is the canonical JSON text \<open>fingerprint\<close> hashes.
\<close>

record manifest =
  m_owner :: string
  m_name :: string
  m_version :: string
  m_doc :: json

definition fingerprint :: "env \<Rightarrow> (json \<Rightarrow> string) \<Rightarrow> manifest \<Rightarrow> string" where
  "fingerprint e dump m = sha256 e (dump (m_doc m))"

abbreviation skill_at :: "string \<Rightarrow> string \<Rightarrow> string \<Rightarrow> skill \<Rightarrow> bool" where
  "skill_at acct name version s \<equiv> sk_account s = acct \<and> sk_name s = name \<and> sk_version s = version"

section \<open>Registration and reads\<close>

definition create_skill ::
  "env \<Rightarrow> (json \<Rightarrow> manifest result) \<Rightarrow> (json \<Rightarrow> string) \<Rightarrow> string \<Rightarrow> json \<Rightarrow> store \<Rightarrow> (store \<times> skill) result" where
  "create_skill e vld dump acct doc db =
     andThen (vld doc) (\<lambda>m.
       if m_owner m \<noteq> acct then Inl (ValueError ''skill owner must match the authenticated account'')
       else if \<exists>s \<in> set (skills db). skill_at acct (m_name m) (m_version m) s
       then Inl (ValueError ''skill is already registered'')
       else
         (let now = clk e 0;
              row = \<lparr>sk_id = ''skill_'' @ uuid e [0], sk_account = acct, sk_name = m_name m,
                     sk_version = m_version m, sk_manifest = m_doc m, sk_state = K_Draft,
                     sk_fingerprint = fingerprint e dump m, sk_tested = False, sk_test_run = None,
                     sk_approved_by = None, sk_created_at = now, sk_updated_at = now\<rparr>
          in Inr (db\<lparr>skills := skills db @ [row]\<rparr>, row)))"

definition get_skill :: "string \<Rightarrow> string \<Rightarrow> string \<Rightarrow> store \<Rightarrow> skill result" where
  "get_skill acct name version db =
     (case fetchone (filter (skill_at acct name version) (skills db)) of
        None \<Rightarrow> Inl (KeyError ''skill'') | Some s \<Rightarrow> Inr s)"

definition list_skills :: "string \<Rightarrow> store \<Rightarrow> skill list" where
  "list_skills acct db =
     sort_key (\<lambda>s. (sk_name s, sk_version s)) (filter (\<lambda>s. sk_account s = acct) (skills db))"

section \<open>Transitions\<close>

text \<open>\<open>UPDATE skills SET ... WHERE id=? AND account_id=? [AND state ...]\<close>, then the row by its key.\<close>

definition move_skill :: "skill \<Rightarrow> string \<Rightarrow> (skill \<Rightarrow> bool) \<Rightarrow> (skill \<Rightarrow> skill) \<Rightarrow> store \<Rightarrow> (store \<times> skill) result" where
  "move_skill cur acct guard f db =
     (let mine = (\<lambda>s. sk_id s = sk_id cur \<and> sk_account s = acct);
          db = db\<lparr>skills := upd (\<lambda>s. mine s \<and> guard s) f (skills db)\<rparr>
      in case fetchone (filter mine (skills db)) of
           None \<Rightarrow> Inl (KeyError ''skill'') | Some s \<Rightarrow> Inr (db, s))"

definition record_skill_test ::
  "env \<Rightarrow> string \<Rightarrow> string \<Rightarrow> string \<Rightarrow> bool \<Rightarrow> string \<Rightarrow> store \<Rightarrow> (store \<times> skill) result" where
  "record_skill_test e acct name version passed run_id db =
     (if strip run_id = [] \<or> length run_id > 200 then Inl (ValueError ''test run id is required'')
      else andThen (get_skill acct name version db) (\<lambda>cur.
        if sk_state cur \<in> {K_Published, K_Deprecated}
        then Inl (ValueError ''published or deprecated skills cannot be retested in place; register a new version'')
        else move_skill cur acct (\<lambda>_. True)
               (\<lambda>s. s\<lparr>sk_state := (if passed then K_Tested else K_Draft), sk_tested := passed,
                     sk_test_run := Some (strip run_id), sk_updated_at := clk e 0\<rparr>) db))"

definition publish_skill ::
  "env \<Rightarrow> string \<Rightarrow> string \<Rightarrow> string \<Rightarrow> store \<Rightarrow> (store \<times> skill) result" where
  "publish_skill e acct name version db =
     andThen (get_skill acct name version db) (\<lambda>cur.
       if sk_state cur \<noteq> K_Tested \<or> \<not> sk_tested cur
       then Inl (ValueError ''skill must pass a disposable test before publishing'')
       else move_skill cur acct (\<lambda>s. sk_state s = K_Tested \<and> sk_tested s)
              (\<lambda>s. s\<lparr>sk_state := K_Published, sk_approved_by := Some acct, sk_updated_at := clk e 0\<rparr>) db)"

definition deprecate_skill ::
  "env \<Rightarrow> string \<Rightarrow> string \<Rightarrow> string \<Rightarrow> store \<Rightarrow> (store \<times> skill) result" where
  "deprecate_skill e acct name version db =
     andThen (get_skill acct name version db) (\<lambda>cur.
       if sk_state cur \<noteq> K_Published then Inl (ValueError ''only published skills can be deprecated'')
       else move_skill cur acct (\<lambda>s. sk_state s = K_Published)
              (\<lambda>s. s\<lparr>sk_state := K_Deprecated, sk_updated_at := clk e 0\<rparr>) db)"

definition assert_skill_runnable ::
  "env \<Rightarrow> (json \<Rightarrow> manifest result) \<Rightarrow> (json \<Rightarrow> string) \<Rightarrow> string \<Rightarrow> string \<Rightarrow> string \<Rightarrow> json option \<Rightarrow> store \<Rightarrow>
   skill result" where
  "assert_skill_runnable e vld dump acct name version doc db =
     andThen (get_skill acct name version db) (\<lambda>cur.
       if sk_state cur \<noteq> K_Published then Inl (ValueError ''skill is not published'')
       else andThen (vld (sk_manifest cur)) (\<lambda>m.
         if fingerprint e dump m \<noteq> sk_fingerprint cur
         then Inl (ValueError ''skill manifest changed after approval; publish a new version'')
         else case doc of
           None \<Rightarrow> Inr cur
         | Some d \<Rightarrow> andThen (vld d) (\<lambda>m'.
             if fingerprint e dump m' \<noteq> sk_fingerprint cur
             then Inl (ValueError ''skill manifest changed after approval; publish a new version'')
             else Inr cur)))"

section \<open>The lifecycle invariant\<close>

text \<open>
  Keys are unique, only a tested skill is past testing, and only a published or deprecated one
  carries its approver, the owning account.
\<close>

definition skill_ok :: "skill \<Rightarrow> bool" where
  "skill_ok s \<longleftrightarrow>
     (sk_state s \<noteq> K_Draft \<longrightarrow> sk_tested s \<and> sk_test_run s \<noteq> None) \<and>
     (sk_state s \<in> {K_Published, K_Deprecated} \<longleftrightarrow> sk_approved_by s = Some (sk_account s)) \<and>
     (sk_state s \<in> {K_Draft, K_Tested} \<longleftrightarrow> sk_approved_by s = None)"

definition skill_key :: "skill \<Rightarrow> string \<times> string \<times> string" where
  "skill_key s = (sk_account s, sk_name s, sk_version s)"

definition skill_inv :: "store \<Rightarrow> bool" where
  "skill_inv db \<longleftrightarrow> distinct (map skill_key (skills db)) \<and> distinct (map sk_id (skills db)) \<and>
     (\<forall>s \<in> set (skills db). skill_ok s)"

lemma get_skill_Inr:
  "get_skill acct name version db = Inr s \<Longrightarrow> s \<in> set (skills db) \<and> skill_at acct name version s"
  by (auto simp: get_skill_def split: option.splits dest: fetchone_SomeD)

lemma move_skill_keeps:
  assumes "move_skill cur acct guard f db = Inr (db', s)" and "skill_inv db" and "cur \<in> set (skills db)"
    and "\<And>x. skill_key (f x) = skill_key x \<and> sk_id (f x) = sk_id x"
    and "sk_account cur = acct \<Longrightarrow> guard cur \<Longrightarrow> skill_ok cur \<Longrightarrow> skill_ok (f cur)"
  shows "skill_inv db'"
proof -
  have db': "skills db' = upd (\<lambda>s. (sk_id s = sk_id cur \<and> sk_account s = acct) \<and> guard s) f (skills db)"
    using assms(1) by (auto simp: move_skill_def Let_def split: option.splits)
  have "map skill_key (skills db') = map skill_key (skills db)" "map sk_id (skills db') = map sk_id (skills db)"
    unfolding db' using assms(4) by (auto intro!: map_upd)
  moreover have "\<forall>s \<in> set (skills db'). skill_ok s"
    unfolding db'
  proof (rule upd_preserves)
    show "\<forall>s \<in> set (skills db). skill_ok s" using assms(2) by (simp add: skill_inv_def)
    fix x assume x: "x \<in> set (skills db)" "(sk_id x = sk_id cur \<and> sk_account x = acct) \<and> guard x" "skill_ok x"
    then have "x = cur" using assms(2,3) by (auto simp: skill_inv_def dest: key_inj)
    then show "skill_ok (f x)" using x assms(5) by simp
  qed
  ultimately show ?thesis using assms(2) by (simp add: skill_inv_def)
qed

lemma create_skill_inv:
  assumes "create_skill e vld dump acct doc db = Inr (db', s)" and "skill_inv db"
    and "''skill_'' @ uuid e [0] \<notin> sk_id ` set (skills db)"
  shows "skill_inv db'"
proof -
  have new: "(acct, m_name m, m_version m) \<notin> skill_key ` set (skills db)"
    if "\<forall>s \<in> set (skills db). \<not> skill_at acct (m_name m) (m_version m) s" for m
    using that by (auto simp: skill_key_def)
  obtain m where m: "vld doc = Inr m" "m_owner m = acct"
      "\<forall>s \<in> set (skills db). \<not> skill_at acct (m_name m) (m_version m) s"
    using assms(1) by (auto simp: create_skill_def split: if_splits)
  have db': "db' = db\<lparr>skills := skills db @ [s]\<rparr>" and s: "skill_key s = (acct, m_name m, m_version m)"
      "sk_id s = ''skill_'' @ uuid e [0]" "skill_ok s"
    using assms(1) m by (auto simp: create_skill_def Let_def skill_key_def skill_ok_def split: if_splits)
  show ?thesis using assms(2,3) new [OF m(3)] s unfolding db' by (simp add: skill_inv_def)
qed

lemma record_skill_test_inv:
  assumes "record_skill_test e acct name version passed run_id db = Inr (db', s)" and "skill_inv db"
  shows "skill_inv db'"
proof -
  obtain cur where cur: "get_skill acct name version db = Inr cur" "sk_state cur \<notin> {K_Published, K_Deprecated}"
    and m: "move_skill cur acct (\<lambda>_. True)
      (\<lambda>s. s\<lparr>sk_state := (if passed then K_Tested else K_Draft), sk_tested := passed,
            sk_test_run := Some (strip run_id), sk_updated_at := clk e 0\<rparr>) db = Inr (db', s)"
    using assms(1) by (auto simp: record_skill_test_def split: if_splits)
  show ?thesis
    using cur(2) get_skill_Inr [OF cur(1)]
    by (intro move_skill_keeps [OF m assms(2)]) (cases "sk_state cur"; auto simp: skill_key_def skill_ok_def)+
qed

lemma publish_skill_inv:
  assumes "publish_skill e acct name version db = Inr (db', s)" and "skill_inv db"
  shows "skill_inv db'"
proof -
  obtain cur where cur: "get_skill acct name version db = Inr cur"
    and m: "move_skill cur acct (\<lambda>s. sk_state s = K_Tested \<and> sk_tested s)
      (\<lambda>s. s\<lparr>sk_state := K_Published, sk_approved_by := Some acct, sk_updated_at := clk e 0\<rparr>) db = Inr (db', s)"
    using assms(1) by (auto simp: publish_skill_def split: if_splits)
  show ?thesis
    using get_skill_Inr [OF cur] by (intro move_skill_keeps [OF m assms(2)]) (auto simp: skill_key_def skill_ok_def)
qed

lemma deprecate_skill_inv:
  assumes "deprecate_skill e acct name version db = Inr (db', s)" and "skill_inv db"
  shows "skill_inv db'"
proof -
  obtain cur where cur: "get_skill acct name version db = Inr cur"
    and m: "move_skill cur acct (\<lambda>s. sk_state s = K_Published)
      (\<lambda>s. s\<lparr>sk_state := K_Deprecated, sk_updated_at := clk e 0\<rparr>) db = Inr (db', s)"
    using assms(1) by (auto simp: deprecate_skill_def split: if_splits)
  show ?thesis
    using get_skill_Inr [OF cur] by (intro move_skill_keeps [OF m assms(2)]) (auto simp: skill_key_def skill_ok_def)
qed

section \<open>Histories of the registry\<close>

text \<open>One call of the registry by some account that returns normally; drawn identifiers are new.\<close>

inductive skill_step :: "(json \<Rightarrow> manifest result) \<Rightarrow> (json \<Rightarrow> string) \<Rightarrow> store \<Rightarrow> store \<Rightarrow> bool" for vld dump where
  registered: "create_skill e vld dump acct doc db = Inr (db', s) \<Longrightarrow>
    ''skill_'' @ uuid e [0] \<notin> sk_id ` set (skills db) \<Longrightarrow> skill_step vld dump db db'"
| recorded: "record_skill_test e acct name version passed run_id db = Inr (db', s) \<Longrightarrow> skill_step vld dump db db'"
| published: "publish_skill e acct name version db = Inr (db', s) \<Longrightarrow> skill_step vld dump db db'"
| deprecated: "deprecate_skill e acct name version db = Inr (db', s) \<Longrightarrow> skill_step vld dump db db'"

interpretation skill_registry: inductive_invariant "skill_step vld dump" empty_store skill_inv for vld dump
proof unfold_locales
  show "skill_inv empty_store" by (simp add: skill_inv_def empty_store_def)
next
  fix s t assume "skill_inv s" "skill_step vld dump s t"
  then show "skill_inv t"
    by (auto elim!: skill_step.cases
        intro: create_skill_inv record_skill_test_inv publish_skill_inv deprecate_skill_inv)
qed

end
