(* ===== verification/PgStore.thy ===== *)
theory PgStore
  imports Executors Schedules Integrations
begin

text \<open>
  \<open>src/smara/store.py\<close>, \<open>PostgresTaskStore\<close>: the operations it overrides. Its claims run without the
  global write lock of SQLite; \<open>FOR UPDATE SKIP LOCKED\<close> leaves out the rows another transaction
  holds. \<open>locked\<close> names the rows that are held by others while the operation runs. With no row held,
  every override is the SQLite operation.
\<close>

section \<open>The hosted claim\<close>

text \<open>The run of an expired step comes from the selected row, not from a subquery.\<close>

definition pg_recover_step :: "env \<Rightarrow> time \<Rightarrow> nat \<times> step \<Rightarrow> store \<Rightarrow> store" where
  "pg_recover_step e now = (\<lambda>(k, item) db.
     if cancel_wanted (s_task item) db then
       (let db = upd_steps (step_is (s_id item)) (release S_Cancelled) db;
            db = upd_runs (\<lambda>r. r_id r = s_run item) (\<lambda>r. r\<lparr>r_status := R_Cancelled\<rparr>) db;
            db = upd_tasks (task_is (s_task item)) (\<lambda>t. t\<lparr>t_status := T_Cancelled, t_updated_at := now\<rparr>) db
        in add_event (uuid e [0, k]) (s_task item) ''task.cancelled'' (JObj [(''source'', JStr ''lease_recovery'')]) now db)
     else
       (let db = upd_steps (step_is (s_id item)) (release S_Queued) db;
            db = upd_tasks (\<lambda>t. t_id t = s_task item \<and> t_status t = T_Running)
                   (\<lambda>t. t\<lparr>t_status := T_Queued, t_updated_at := now\<rparr>) db
        in add_event (uuid e [0, k]) (s_task item) ''step.lease_expired'' (JObj [(''recovered'', JBool True)]) now db))"

definition pg_recover_hosted :: "env \<Rightarrow> time \<Rightarrow> (step \<Rightarrow> bool) \<Rightarrow> store \<Rightarrow> store" where
  "pg_recover_hosted e now locked db =
     fold (pg_recover_step e now)
       (enumerate_from 0 (filter (\<lambda>s. hosted_expired now s \<and> \<not> locked s) (steps db))) db"

definition pg_claim_one ::
  "env \<Rightarrow> (step \<Rightarrow> bool) \<Rightarrow> string \<Rightarrow> int \<Rightarrow> exec_kind list \<Rightarrow> store \<Rightarrow> store \<times> claim option" where
  "pg_claim_one e locked worker lease_seconds kinds db =
     (let now = clk e 0;
          db = pg_recover_hosted e now locked db
      in case fetchone (filter (\<lambda>(t, s). \<not> locked s)
                (sort_key claim_order (filter (hosted_ready kinds now db) (joined db)))) of
           None \<Rightarrow> (db, None)
         | Some (t, s) \<Rightarrow>
             (if t_requires_approval t \<and> t_status t = T_Queued
              then (let (db, c) = surface_approval e now (t, s) db in (db, Some c))
              else
                (let until = clk e 1 + seconds lease_seconds;
                     db = start_work now worker until (t, s) db;
                     db = add_event (uuid e [1]) (t_id t) ''task.started'' (JObj [(''source'', JStr ''worker'')]) now db
                 in (db, Some ((claim_of (t\<lparr>t_status := T_Running, t_updated_at := now\<rparr>) s)
                               \<lparr>cl_lease_owner := Some worker\<rparr>)))))"

section \<open>The desktop claim\<close>

definition pg_recover_desktop :: "env \<Rightarrow> time \<Rightarrow> (step \<Rightarrow> bool) \<Rightarrow> store \<Rightarrow> store" where
  "pg_recover_desktop e now locked db =
     fold (recover_desktop_step e now)
       (enumerate_from 0 (filter (\<lambda>(t, s). desktop_expired now (t, s) \<and> \<not> locked s) (joined db))) db"

text \<open>The candidates may repeat a task; the loop skips the tasks it has approved (\<open>first_seen\<close>).\<close>

definition pg_candidates :: "executor \<Rightarrow> bool \<Rightarrow> store \<Rightarrow> string list" where
  "pg_candidates x local db =
     (let caps = set (x_capabilities x);
          allowed = (if local then caps else safe_capabilities \<inter> caps);
          safe = (if local then caps else safe_capabilities)
      in if allowed = {} then []
         else map (\<lambda>(t, s). t_id t) (filter (\<lambda>(t, s).
           t_account t = x_account x \<and> t_status t \<in> {T_Queued, T_Waiting} \<and> t_requires_approval t \<and>
           s_status s = S_Queued \<and> s_kind s = Desktop \<and> capability_in allowed s \<and>
           \<not> (\<exists>u \<in> set (steps db). s_task u = t_id t \<and> (s_kind u \<noteq> Desktop \<or> \<not> capability_in safe u)) \<and>
           \<not> (\<exists>a \<in> set (approvals db). a_task a = t_id t \<and> a_status a \<in> {Approved, Denied}))
           (joined db)))"

definition pg_auto_approve :: "env \<Rightarrow> time \<Rightarrow> executor \<Rightarrow> bool \<Rightarrow> bool \<Rightarrow> store \<Rightarrow> store" where
  "pg_auto_approve e now x safe local db =
     (if safe \<or> local
      then fold (auto_release e now x local) (enumerate_from 0 (first_seen {} (pg_candidates x local db))) db
      else db)"

definition pg_claim_for_executor ::
  "env \<Rightarrow> (step \<Rightarrow> bool) \<Rightarrow> string \<Rightarrow> string \<Rightarrow> int \<Rightarrow> bool \<Rightarrow> bool \<Rightarrow> store \<Rightarrow> (store \<times> claim option) result" where
  "pg_claim_for_executor e locked xid token lease_seconds safe local db =
     andThen (executor_auth e xid token db) (\<lambda>x.
       let now = clk e 0; caps = set (x_capabilities x);
           db = pg_auto_approve e now x safe local (pg_recover_desktop e now locked db);
           rows = filter (\<lambda>(t, s). \<not> locked s)
             (sort_key claim_order (filter (desktop_ready (x_account x) now db) (joined db)))
       in case fetchone (filter (\<lambda>(t, s). capability_in caps s) rows) of
            None \<Rightarrow> Inr (db, None)
          | Some (t, s) \<Rightarrow>
              (let until = clk e 1 + seconds lease_seconds;
                   db = put_lease e (s_id s) xid until now (start_work now xid until (t, s) db);
                   db = add_event (uuid e [4]) (t_id t) ''executor.step_claimed''
                          (JObj [(''executor_id'', JStr xid)]) now db
               in Inr (db, Some ((claim_of (t\<lparr>t_status := T_Running\<rparr>) s)
                           \<lparr>cl_capability := s_capability s, cl_lease_owner := Some xid, cl_lease_expires := Some until\<rparr>))))"

section \<open>Schedules and integration actions\<close>

text \<open>No stale lease is cleared first: the row condition already accepts an expired one.\<close>

definition pg_fire_due_schedules ::
  "env \<Rightarrow> (schedule \<Rightarrow> bool) \<Rightarrow> nat \<Rightarrow> store \<Rightarrow> (store \<times> fired list) result option" where
  "pg_fire_due_schedules e locked limit db =
     (let now = clk e 0;
          rows = take limit (filter (\<lambda>h. \<not> locked h)
            (sort_key (\<lambda>h. (h_next_run h, h_id h)) (filter (due_schedule now) (schedules db))))
      in map_option (\<lambda>r. andThen r (\<lambda>(db, fs).
           Inr (fold (\<lambda>f. publish ''schedule.fired'' (Some (fi_task f))) fs db, fs)))
           (fire_rows e now 0 rows db))"

definition pg_claim_action :: "env \<Rightarrow> (action \<Rightarrow> bool) \<Rightarrow> string \<Rightarrow> int \<Rightarrow> store \<Rightarrow> store \<times> action option" where
  "pg_claim_action e locked worker lease_seconds db =
     (let now = clk e 0; db = recover_actions now db
      in case fetchone (filter (\<lambda>q. \<not> locked q) (sort_key q_created_at (filter (action_ready now) (actions db)))) of
           None \<Rightarrow> (db, None)
         | Some row \<Rightarrow>
             (let until = clk e 1 + seconds lease_seconds
              in (db\<lparr>actions := upd (\<lambda>q. q_id q = q_id row) (lease_action worker until) (actions db)\<rparr>,
                  Some ((lease_action worker until row)\<lparr>q_retry_at := q_retry_at row\<rparr>))))"

section \<open>Agreement with the SQLite store\<close>

text \<open>The recovery loops agree while the selected rows still name the run of their step.\<close>

definition runs_kept :: "store \<Rightarrow> nat \<times> step \<Rightarrow> bool" where
  "runs_kept db = (\<lambda>(k, item). run_of_step (s_id item) db = Some (s_run item))"

lemma fetchone_upd:
  assumes "\<And>r. P r \<Longrightarrow> Q (f r) = Q r"
  shows "fetchone (filter Q (upd P f t)) = map_option (\<lambda>r. if P r then f r else r) (fetchone (filter Q t))"
  using assms by (induction t) auto

lemma run_of_step_upd:
  "(\<And>s. P s \<Longrightarrow> s_id (f s) = s_id s \<and> s_run (f s) = s_run s) \<Longrightarrow>
   run_of_step sid (upd_steps P f db) = run_of_step sid db"
  by (subst run_of_step_def, subst run_of_step_def) (auto simp: fetchone_upd option.map_comp comp_def intro!: option.map_cong)

lemma run_of_step_simps [simp]:
  "run_of_step sid (upd_runs R g db) = run_of_step sid db"
  "run_of_step sid (upd_tasks T h db) = run_of_step sid db"
  "run_of_step sid (add_event u tid k p n db) = run_of_step sid db"
  by (simp_all add: run_of_step_def)

lemma pg_recover_step_eq:
  assumes "run_of_step (s_id item) db = Some (s_run item)"
  shows "pg_recover_step e now (k, item) db = recover_step e now (k, item) db"
  using assms by (simp add: pg_recover_step_def recover_step_def Let_def run_of_step_upd)

lemma recover_step_keeps_runs: "run_of_step sid (recover_step e now ki db) = run_of_step sid db"
  by (cases ki) (simp add: recover_step_def Let_def run_of_step_upd)

lemma pg_recover_fold:
  "\<forall>ki \<in> set items. runs_kept db ki \<Longrightarrow>
     fold (pg_recover_step e now) items db = fold (recover_step e now) items db"
proof (induction items arbitrary: db)
  case Nil
  then show ?case by simp
next
  case (Cons ki items)
  obtain k item where ki: "ki = (k, item)" by (cases ki)
  have "pg_recover_step e now ki db = recover_step e now ki db"
    using Cons.prems by (simp add: ki runs_kept_def pg_recover_step_eq)
  moreover have "\<forall>x \<in> set items. runs_kept (recover_step e now ki db) x"
    using Cons.prems by (auto simp: runs_kept_def recover_step_keeps_runs)
  ultimately show ?case using Cons.IH by simp
qed

lemma pg_recover_hosted_eq:
  assumes "distinct (map s_id (steps db))"
  shows "pg_recover_hosted e now (\<lambda>_. False) db = recover_hosted e now db"
proof -
  have "runs_kept db ki" if "ki \<in> set (enumerate_from 0 (filter (hosted_expired now) (steps db)))" for ki
  proof -
    have "snd ki \<in> set (map snd (enumerate_from 0 (filter (hosted_expired now) (steps db))))"
      using that by (simp only: set_map) (rule imageI)
    then have "snd ki \<in> set (steps db)" by simp
    then show ?thesis
      using fetchone_unique [OF assms] by (cases ki) (simp add: runs_kept_def run_of_step_def)
  qed
  then show ?thesis by (simp add: pg_recover_hosted_def recover_hosted_def pg_recover_fold)
qed

end
