(* ===== verification/Dag.thy ===== *)
theory Dag
  imports Prelude
begin

text \<open>
  \<open>src/smara/dag_flow.py\<close>: the interactive workflow of nodes with dependencies. A workflow keeps its
  nodes in insertion order, each under its own id. Kahn's algorithm orders them, \<open>step\<close> runs the
  ready ones, \<open>retry_node\<close> resets a node and what depends on it.
\<close>

section \<open>Data\<close>

datatype node_status = PENDING | READY | RUNNING | COMPLETED | FAILED | BLOCKED | SKIPPED

record node =
  nd_id :: string
  nd_title :: string
  nd_capability :: string
  nd_payload :: json
  nd_depends :: "string list"
  nd_status :: node_status
  nd_result :: json
  nd_error :: "string option"
  nd_duration :: int
  nd_retries :: int
  nd_max_retries :: int

record workflow =
  wf_id :: string
  wf_title :: string
  wf_nodes :: "node list"
  wf_paused :: bool

datatype dag_error = Duplicate_Node string | Missing_Dep string string | Cycle "string list" | Bad_Data

definition ids :: "node list \<Rightarrow> string list" where
  "ids ns = map nd_id ns"

definition node_at :: "node list \<Rightarrow> string \<Rightarrow> node option" where
  "node_at ns i = map_of (map (\<lambda>n. (nd_id n, n)) ns) i"

text \<open>Assigning to a field of \<open>self.nodes[i]\<close>.\<close>

definition set_node :: "string \<Rightarrow> (node \<Rightarrow> node) \<Rightarrow> node list \<Rightarrow> node list" where
  "set_node i f ns = map (\<lambda>n. if nd_id n = i then f n else n) ns"

definition add_node :: "node \<Rightarrow> workflow \<Rightarrow> dag_error + workflow" where
  "add_node n w = (if nd_id n \<in> set (ids (wf_nodes w)) then Inl (Duplicate_Node (nd_id n))
                   else Inr (w\<lparr>wf_nodes := wf_nodes w @ [n]\<rparr>))"

section \<open>Validation: Kahn's algorithm\<close>

text \<open>The first dependency that is not a node, in the order of the loops.\<close>

definition missing_deps :: "node list \<Rightarrow> (string \<times> string) list" where
  "missing_deps ns = concat (map (\<lambda>n. map (Pair (nd_id n)) (filter (\<lambda>d. d \<notin> set (ids ns)) (nd_depends n))) ns)"

text \<open>\<open>adj[dep]\<close>, a child once for every mention of \<open>dep\<close>, and the initial \<open>in_degree\<close>.\<close>

definition adj :: "node list \<Rightarrow> string \<Rightarrow> string list" where
  "adj ns dep = concat (map (\<lambda>n. map (\<lambda>_. nd_id n) (filter (\<lambda>d. d = dep) (nd_depends n))) ns)"

definition in_degree :: "node list \<Rightarrow> string \<Rightarrow> int" where
  "in_degree ns i = (case node_at ns i of None \<Rightarrow> 0 | Some n \<Rightarrow> int (length (nd_depends n)))"

text \<open>The inner loop over the neighbours of the node taken from the queue.\<close>

fun relax :: "string list \<Rightarrow> (string \<Rightarrow> int) \<Rightarrow> string list \<Rightarrow> (string \<Rightarrow> int) \<times> string list" where
  "relax [] deg queue = (deg, queue)"
| "relax (x # xs) deg queue =
     (let deg = deg(x := deg x - 1)
      in relax xs deg (if deg x = 0 then queue @ [x] else queue))"

text \<open>The outer loop, with fuel for the number of nodes; \<open>kahn_enough\<close> shows that it never runs out.\<close>

fun kahn :: "nat \<Rightarrow> (string \<Rightarrow> string list) \<Rightarrow> (string \<Rightarrow> int) \<Rightarrow> string list \<Rightarrow> string list \<Rightarrow>
             ((string \<Rightarrow> int) \<times> string list) option" where
  "kahn fuel nb deg [] order = Some (deg, order)"
| "kahn 0 nb deg (x # queue) order = None"
| "kahn (Suc fuel) nb deg (x # queue) order =
     (let (deg, queue) = relax (nb x) deg queue in kahn fuel nb deg queue (order @ [x]))"

definition validate :: "node list \<Rightarrow> (dag_error + string list) option" where
  "validate ns =
     (case missing_deps ns of
        (i, d) # _ \<Rightarrow> Some (Inl (Missing_Dep i d))
      | [] \<Rightarrow>
          map_option (\<lambda>(deg, order).
            if length order \<noteq> length ns then Inl (Cycle (filter (\<lambda>i. deg i > 0) (ids ns))) else Inr order)
            (kahn (length ns) (adj ns) (in_degree ns) (filter (\<lambda>i. in_degree ns i = 0) (ids ns)) []))"

section \<open>Readiness and execution\<close>

definition dep_statuses :: "node list \<Rightarrow> node \<Rightarrow> node_status option list" where
  "dep_statuses ns n = map (\<lambda>d. map_option nd_status (node_at ns d)) (nd_depends n)"

definition refresh_node :: "node list \<Rightarrow> node \<Rightarrow> node" where
  "refresh_node ns n =
     (if nd_status n \<noteq> PENDING then n
      else if \<exists>st \<in> set (dep_statuses ns n). st = Some FAILED \<or> st = Some BLOCKED
      then n\<lparr>nd_status := BLOCKED, nd_error := Some ''Blocked by upstream dependency failure.''\<rparr>
      else if \<forall>st \<in> set (dep_statuses ns n). st = Some COMPLETED then n\<lparr>nd_status := READY\<rparr>
      else n)"

text \<open>
  \<open>update_node_readiness\<close>: one pass in insertion order, each node judged by the statuses at that
  moment. Every dependency is a node (\<open>self.nodes[d]\<close> raises \<open>KeyError\<close> otherwise, \<open>None\<close> here).
\<close>

fun refresh_pass :: "node list \<Rightarrow> node list \<Rightarrow> node list" where
  "refresh_pass done [] = done"
| "refresh_pass done (n # rest) = refresh_pass (done @ [refresh_node (done @ n # rest) n]) rest"

definition deps_known :: "node list \<Rightarrow> bool" where
  "deps_known ns \<longleftrightarrow> (\<forall>n \<in> set ns. nd_status n = PENDING \<longrightarrow> set (nd_depends n) \<subseteq> set (ids ns))"

definition update_node_readiness :: "node list \<Rightarrow> node list option" where
  "update_node_readiness ns = (if deps_known ns then Some (refresh_pass [] ns) else None)"

text \<open>
  The callback is a parameter: the outcome of the \<open>k\<close>-th call on a node, an exception's text or a
  result, and the milliseconds it took.
\<close>

definition execute_node :: "(nat \<Rightarrow> node \<Rightarrow> string + json) \<Rightarrow> (nat \<Rightarrow> int) \<Rightarrow> nat \<Rightarrow> node \<Rightarrow> node" where
  "execute_node cb dur k n =
     (let n = n\<lparr>nd_status := RUNNING\<rparr>
      in (case cb k n of
            Inr r \<Rightarrow> n\<lparr>nd_result := r, nd_status := COMPLETED, nd_error := None\<rparr>
          | Inl err \<Rightarrow>
              (if nd_retries n < nd_max_retries n
               then n\<lparr>nd_error := Some err, nd_retries := nd_retries n + 1, nd_status := READY\<rparr>
               else n\<lparr>nd_error := Some err, nd_status := FAILED\<rparr>))\<lparr>nd_duration := dur k\<rparr>)"

fun execute_all :: "(nat \<Rightarrow> node \<Rightarrow> string + json) \<Rightarrow> (nat \<Rightarrow> int) \<Rightarrow> nat \<Rightarrow> string list \<Rightarrow> node list \<Rightarrow> node list" where
  "execute_all cb dur k [] ns = ns"
| "execute_all cb dur k (i # rest) ns = execute_all cb dur (Suc k) rest (set_node i (execute_node cb dur k) ns)"

definition ready_ids :: "node list \<Rightarrow> string list" where
  "ready_ids ns = ids (filter (\<lambda>n. nd_status n = READY) ns)"

text \<open>\<open>step\<close>: the new workflow and the ids of the executed nodes; \<open>k\<close> counts the callback's calls.\<close>

definition dag_step ::
  "(nat \<Rightarrow> node \<Rightarrow> string + json) \<Rightarrow> (nat \<Rightarrow> int) \<Rightarrow> nat \<Rightarrow> workflow \<Rightarrow> (workflow \<times> string list) option" where
  "dag_step cb dur k w =
     (if wf_paused w then Some (w, [])
      else case update_node_readiness (wf_nodes w) of
        None \<Rightarrow> None
      | Some ns \<Rightarrow>
          (let ready = ready_ids ns
           in if ready = [] then Some (w\<lparr>wf_nodes := ns\<rparr>, [])
              else map_option (\<lambda>ns. (w\<lparr>wf_nodes := ns\<rparr>, ready))
                     (update_node_readiness (execute_all cb dur k ready ns))))"

text \<open>The loop of \<open>run_until_complete\<close>; the bound is the remaining number of steps.\<close>

fun run_steps ::
  "(nat \<Rightarrow> node \<Rightarrow> string + json) \<Rightarrow> (nat \<Rightarrow> int) \<Rightarrow> nat \<Rightarrow> nat \<Rightarrow> nat \<Rightarrow> workflow \<Rightarrow> (workflow \<times> nat) option" where
  "run_steps cb dur k taken 0 w = Some (w, taken)"
| "run_steps cb dur k taken (Suc left) w =
     (if wf_paused w then Some (w, taken)
      else case dag_step cb dur k w of
        None \<Rightarrow> None
      | Some (w, executed) \<Rightarrow>
          (if executed = [] then Some (w, taken)
           else run_steps cb dur (k + length executed) (Suc taken) left w))"

record summary =
  su_complete :: bool
  su_failures :: bool
  su_steps :: nat
  su_statuses :: "(string \<times> node_status) list"

definition settled :: "node_status \<Rightarrow> bool" where
  "settled st \<longleftrightarrow> st \<in> {COMPLETED, FAILED, BLOCKED, SKIPPED}"

definition run_until_complete ::
  "(nat \<Rightarrow> node \<Rightarrow> string + json) \<Rightarrow> (nat \<Rightarrow> int) \<Rightarrow> nat \<Rightarrow> workflow \<Rightarrow> (dag_error + workflow \<times> summary) option" where
  "run_until_complete cb dur max_steps w =
     (case validate (wf_nodes w) of
        None \<Rightarrow> None
      | Some (Inl err) \<Rightarrow> Some (Inl err)
      | Some (Inr _) \<Rightarrow>
          map_option (\<lambda>(w, taken). Inr (w, \<lparr>su_complete = (\<forall>n \<in> set (wf_nodes w). settled (nd_status n)),
             su_failures = (\<exists>n \<in> set (wf_nodes w). nd_status n = FAILED), su_steps = taken,
             su_statuses = map (\<lambda>n. (nd_id n, nd_status n)) (wf_nodes w)\<rparr>))
            (run_steps cb dur 0 0 max_steps w))"

section \<open>Injection and retry\<close>

text \<open>
  \<open>inject_node\<close> edits the nodes in place before it adds and validates, so an exception leaves the
  edits behind: the workflow is returned with the outcome.
\<close>

definition known_ref :: "string option \<Rightarrow> node list \<Rightarrow> string option" where
  "known_ref r ns = (case r of None \<Rightarrow> None | Some i \<Rightarrow> (if i \<noteq> [] \<and> i \<in> set (ids ns) then Some i else None))"

definition link_before :: "string option \<Rightarrow> string \<Rightarrow> node \<Rightarrow> node" where
  "link_before after new_id target =
     (let ds = (case after of
                  Some a \<Rightarrow> (if a \<noteq> [] then remove1 a (nd_depends target) else nd_depends target)
                | None \<Rightarrow> nd_depends target)
      in target\<lparr>nd_depends := (if new_id \<in> set ds then ds else ds @ [new_id])\<rparr>)"

definition inject_node ::
  "node \<Rightarrow> string option \<Rightarrow> string option \<Rightarrow> workflow \<Rightarrow> (workflow \<times> (dag_error + unit)) option" where
  "inject_node n after before w =
     (let n = (case known_ref after (wf_nodes w) of
                 Some a \<Rightarrow> (if a \<in> set (nd_depends n) then n else n\<lparr>nd_depends := nd_depends n @ [a]\<rparr>)
               | None \<Rightarrow> n);
          w = (case known_ref before (wf_nodes w) of
                 Some b \<Rightarrow> w\<lparr>wf_nodes := set_node b (link_before after (nd_id n)) (wf_nodes w)\<rparr>
               | None \<Rightarrow> w)
      in case add_node n w of
           Inl err \<Rightarrow> Some (w, Inl err)
         | Inr w \<Rightarrow>
             (case validate (wf_nodes w) of
                None \<Rightarrow> None
              | Some (Inl err) \<Rightarrow> Some (w, Inl err)
              | Some (Inr _) \<Rightarrow> map_option (\<lambda>ns. (w\<lparr>wf_nodes := ns\<rparr>, Inr ())) (update_node_readiness (wf_nodes w))))"

text \<open>The queue loop of \<open>retry_node\<close>: a popped node joins the set, its new children the queue.\<close>

partial_function (option) collect ::
  "(string \<Rightarrow> string list) \<Rightarrow> string set \<Rightarrow> string list \<Rightarrow> string set option" where
  "collect children to_reset queue =
     (case queue of
        [] \<Rightarrow> Some to_reset
      | cur # rest \<Rightarrow>
          collect children (insert cur to_reset)
            (rest @ filter (\<lambda>c. c \<notin> insert cur to_reset) (children cur)))"

declare collect.simps [code]

definition reset_node :: "node \<Rightarrow> node" where
  "reset_node n = n\<lparr>nd_status := PENDING, nd_error := None, nd_result := JNull, nd_retries := 0\<rparr>"

definition retry_node :: "string \<Rightarrow> workflow \<Rightarrow> workflow option" where
  "retry_node i w =
     (if i \<notin> set (ids (wf_nodes w)) then Some w
      else case collect (adj (wf_nodes w)) {} [i] of
        None \<Rightarrow> None
      | Some to_reset \<Rightarrow>
          map_option (\<lambda>ns. w\<lparr>wf_nodes := ns\<rparr>)
            (update_node_readiness (map (\<lambda>n. if nd_id n \<in> to_reset then reset_node n else n) (wf_nodes w))))"

section \<open>Serialisation\<close>

definition status_text :: "node_status \<Rightarrow> string" where
  "status_text st = (case st of PENDING \<Rightarrow> ''PENDING'' | READY \<Rightarrow> ''READY'' | RUNNING \<Rightarrow> ''RUNNING''
     | COMPLETED \<Rightarrow> ''COMPLETED'' | FAILED \<Rightarrow> ''FAILED'' | BLOCKED \<Rightarrow> ''BLOCKED'' | SKIPPED \<Rightarrow> ''SKIPPED'')"

definition status_of_text :: "string \<Rightarrow> node_status option" where
  "status_of_text s = map_of (map (\<lambda>st. (status_text st, st))
     [PENDING, READY, RUNNING, COMPLETED, FAILED, BLOCKED, SKIPPED]) s"

definition opt_json :: "string option \<Rightarrow> json" where
  "opt_json x = (case x of None \<Rightarrow> JNull | Some s \<Rightarrow> JStr s)"

definition node_to_dict :: "node \<Rightarrow> json" where
  "node_to_dict n = JObj
     [(''id'', JStr (nd_id n)), (''title'', JStr (nd_title n)), (''capability'', JStr (nd_capability n)),
      (''payload'', nd_payload n), (''depends_on'', JArr (map JStr (nd_depends n))),
      (''status'', JStr (status_text (nd_status n))), (''result'', nd_result n), (''error'', opt_json (nd_error n)),
      (''duration_ms'', JNum (nd_duration n)), (''retries'', JNum (nd_retries n)), (''max_retries'', JNum (nd_max_retries n))]"

definition workflow_to_dict :: "workflow \<Rightarrow> json" where
  "workflow_to_dict w = JObj [(''id'', JStr (wf_id w)), (''title'', JStr (wf_title w)),
     (''is_paused'', JBool (wf_paused w)), (''nodes'', JArr (map node_to_dict (wf_nodes w)))]"

text \<open>
  \<open>DAGNode(**data)\<close>: the first three fields are required, the others have defaults, an unknown field
  is a \<open>TypeError\<close>. The dataclass stores what it is given; data of another type is \<open>Bad_Data\<close> here.
\<close>

definition field_str :: "string \<Rightarrow> json \<Rightarrow> string option" where
  "field_str k j = (case jget k j of Some (JStr s) \<Rightarrow> Some s | _ \<Rightarrow> None)"

definition field_int :: "string \<Rightarrow> int \<Rightarrow> json \<Rightarrow> int option" where
  "field_int k d j = (case jget k j of None \<Rightarrow> Some d | Some (JNum i) \<Rightarrow> Some i | _ \<Rightarrow> None)"

definition str_of :: "json \<Rightarrow> string option" where
  "str_of j = (case j of JStr s \<Rightarrow> Some s | _ \<Rightarrow> None)"

definition field_strs :: "string \<Rightarrow> json \<Rightarrow> string list option" where
  "field_strs k j = (case jget k j of None \<Rightarrow> Some [] | Some (JArr xs) \<Rightarrow> those (map str_of xs) | _ \<Rightarrow> None)"

definition field_opt :: "string \<Rightarrow> json \<Rightarrow> string option option" where
  "field_opt k j = (case jget k j of None \<Rightarrow> Some None | Some JNull \<Rightarrow> Some None | Some (JStr s) \<Rightarrow> Some (Some s) | _ \<Rightarrow> None)"

definition field_status :: "json \<Rightarrow> node_status option" where
  "field_status j = (case jget ''status'' j of None \<Rightarrow> Some PENDING | Some (JStr s) \<Rightarrow> status_of_text s | _ \<Rightarrow> None)"

definition field_any :: "string \<Rightarrow> json \<Rightarrow> json \<Rightarrow> json" where
  "field_any k d j = (case jget k j of None \<Rightarrow> d | Some x \<Rightarrow> x)"

definition node_fields :: "string set" where
  "node_fields = {''id'', ''title'', ''capability'', ''payload'', ''depends_on'', ''status'', ''result'',
                  ''error'', ''duration_ms'', ''retries'', ''max_retries''}"

definition unknown_field :: "json \<Rightarrow> bool" where
  "unknown_field j = (case j of JObj kvs \<Rightarrow> \<not> fst ` set kvs \<subseteq> node_fields | _ \<Rightarrow> True)"

definition node_from_dict :: "json \<Rightarrow> dag_error + node" where
  "node_from_dict j =
     (if unknown_field j then Inl Bad_Data
      else case (field_str ''id'' j, field_str ''title'' j, field_str ''capability'' j, field_strs ''depends_on'' j,
            field_status j, field_opt ''error'' j, field_int ''duration_ms'' 0 j, field_int ''retries'' 0 j,
            field_int ''max_retries'' 2 j) of
        (Some i, Some t, Some c, Some ds, Some st, Some err, Some du, Some re, Some mr) \<Rightarrow>
          Inr \<lparr>nd_id = i, nd_title = t, nd_capability = c, nd_payload = field_any ''payload'' (JObj []) j,
               nd_depends = ds, nd_status = st, nd_result = field_any ''result'' JNull j, nd_error = err,
               nd_duration = du, nd_retries = re, nd_max_retries = mr\<rparr>
      | _ \<Rightarrow> Inl Bad_Data)"

fun add_nodes :: "json list \<Rightarrow> workflow \<Rightarrow> dag_error + workflow" where
  "add_nodes [] w = Inr w"
| "add_nodes (j # js) w =
     andThen (node_from_dict j) (\<lambda>n. andThen (add_node n w) (add_nodes js))"

text \<open>\<open>auto_id\<close> is the id the constructor makes from the clock when the data has none.\<close>

definition field_title :: "json \<Rightarrow> string option" where
  "field_title j = (case jget ''title'' j of None \<Rightarrow> Some ''Smara DAG Workflow'' | Some (JStr t) \<Rightarrow> Some t | _ \<Rightarrow> None)"

definition field_paused :: "json \<Rightarrow> bool option" where
  "field_paused j = (case jget ''is_paused'' j of None \<Rightarrow> Some False | Some (JBool p) \<Rightarrow> Some p | _ \<Rightarrow> None)"

definition workflow_from_dict :: "string \<Rightarrow> json \<Rightarrow> dag_error + workflow" where
  "workflow_from_dict auto_id j =
     (case (field_opt ''id'' j, field_title j, field_paused j, jget ''nodes'' j) of
        (Some i, Some t, Some p, ns) \<Rightarrow>
          (let w = \<lparr>wf_id = opt_or i auto_id, wf_title = t, wf_nodes = [], wf_paused = p\<rparr>
           in case ns of
                None \<Rightarrow> Inr w
              | Some (JArr js) \<Rightarrow> add_nodes js w
              | Some _ \<Rightarrow> Inl Bad_Data)
      | _ \<Rightarrow> Inl Bad_Data)"

end
