(* ===== verification/DagOrder.thy ===== *)
theory DagOrder
  imports Dag
begin

text \<open>
  Kahn's algorithm in \<open>DAGWorkflow.validate\<close> (\<open>src/smara/dag_flow.py\<close>) terminates, orders every
  acyclic graph, and reports a cyclic set of nodes otherwise.
\<close>

section \<open>Kahn's algorithm is right\<close>

text \<open>The dependencies of a node that are not among \<open>P\<close>, with multiplicity.\<close>

definition pend :: "node list \<Rightarrow> string list \<Rightarrow> string \<Rightarrow> int" where
  "pend ns P i = (case node_at ns i of None \<Rightarrow> 0 | Some n \<Rightarrow> int (length (filter (\<lambda>d. d \<notin> set P) (nd_depends n))))"

definition topo :: "node list \<Rightarrow> string list \<Rightarrow> bool" where
  "topo ns P \<longleftrightarrow> (\<forall>k < length P. \<forall>n. node_at ns (P ! k) = Some n \<longrightarrow> set (nd_depends n) \<subseteq> set (take k P))"

lemma pend_Nil: "pend ns [] = in_degree ns"
  by (auto simp: pend_def in_degree_def fun_eq_iff split: option.splits)

lemma pend_nonneg [simp]: "0 \<le> pend ns P i"
  by (auto simp: pend_def split: option.splits)

lemma pend_zero: "node_at ns i = Some n \<Longrightarrow> pend ns P i = 0 \<longleftrightarrow> set (nd_depends n) \<subseteq> set P"
  by (auto simp: pend_def filter_empty_conv)

lemma node_at_id: "node_at ns i = Some n \<Longrightarrow> nd_id n = i \<and> n \<in> set ns"
  by (auto simp: node_at_def dest: map_of_SomeD)

lemma node_at_None: "node_at ns i = None \<longleftrightarrow> i \<notin> set (ids ns)"
  by (auto simp: node_at_def ids_def map_of_eq_None_iff image_iff)

lemma node_at_mem: "distinct (ids ns) \<Longrightarrow> n \<in> set ns \<Longrightarrow> node_at ns (nd_id n) = Some n"
  by (auto simp: node_at_def ids_def comp_def intro!: map_of_is_SomeI)

lemma relax_spec:
  "relax xs deg q = (deg', q') \<Longrightarrow>
     deg' = (\<lambda>i. deg i - int (count_list xs i)) \<and>
     ((\<forall>i. int (count_list xs i) \<le> deg i) \<longrightarrow>
       (\<exists>new. q' = q @ new \<and> distinct new \<and> set new = {i \<in> set xs. deg i = int (count_list xs i)}))"
proof (induction xs arbitrary: deg q)
  case Nil
  then show ?case by auto
next
  case (Cons x xs)
  define deg1 where "deg1 = deg(x := deg x - 1)"
  define q1 where "q1 = (if deg1 x = 0 then q @ [x] else q)"
  have r: "relax xs deg1 q1 = (deg', q')" using Cons.prems by (simp add: deg1_def q1_def Let_def)
  note IH = Cons.IH [OF r]
  have A: "deg' = (\<lambda>i. deg i - int (count_list (x # xs) i))" using conjunct1 [OF IH] by (auto simp: deg1_def fun_eq_iff)
  have B: "\<exists>new. q' = q @ new \<and> distinct new \<and> set new = {i \<in> set (x # xs). deg i = int (count_list (x # xs) i)}"
    if le: "\<forall>i. int (count_list (x # xs) i) \<le> deg i"
  proof -
    have le1: "int (count_list xs i) \<le> deg1 i" for i
      using le [rule_format, of i] by (auto simp: deg1_def split: if_splits)
    obtain new where new: "q' = q1 @ new" "distinct new" "set new = {i \<in> set xs. deg1 i = int (count_list xs i)}"
      using mp [OF conjunct2 [OF IH]] le1 by auto
    show ?thesis
    proof (cases "deg1 x = 0")
      case True
      then have fresh: "x \<notin> set xs" using le1 [of x] by (simp add: count_list_0_iff)
      have "set (x # new) = {i \<in> set (x # xs). deg i = int (count_list (x # xs) i)}"
      proof (rule set_eqI)
        fix i
        show "i \<in> set (x # new) \<longleftrightarrow> i \<in> {i \<in> set (x # xs). deg i = int (count_list (x # xs) i)}"
        proof (cases "i = x")
          case True
          then show ?thesis using \<open>deg1 x = 0\<close> fresh by (simp add: deg1_def)
        next
          case False
          then show ?thesis unfolding list.set insert_iff new(3) by (simp add: deg1_def)
        qed
      qed
      then show ?thesis using new fresh True by (intro exI [of _ "x # new"]) (auto simp: q1_def)
    next
      case False
      have "set new = {i \<in> set (x # xs). deg i = int (count_list (x # xs) i)}"
      proof (rule set_eqI)
        fix i
        have "x \<notin> set xs \<Longrightarrow> count_list xs x = 0" by (simp add: count_list_0_iff)
        then show "i \<in> set new \<longleftrightarrow> i \<in> {i \<in> set (x # xs). deg i = int (count_list (x # xs) i)}"
          using new(3) False by (cases "i = x"; cases "x \<in> set xs") (auto simp: deg1_def)
      qed
      then show ?thesis using new False by (intro exI [of _ new]) (auto simp: q1_def)
    qed
  qed
  show ?case using A B by (intro conjI impI)
qed

lemma count_adj:
  assumes "distinct (ids ns)"
  shows "count_list (adj ns x) i = (case node_at ns i of None \<Rightarrow> 0 | Some n \<Rightarrow> count_list (nd_depends n) x)"
proof -
  have gen: "count_list (map (\<lambda>_. c) (filter (\<lambda>d. d = x) ds)) i = (if c = i then count_list ds x else 0)"
    for c and ds :: "string list"
    by (induction ds) auto
  note one = gen [of "nd_id _" "nd_depends _"]
  show ?thesis
    using assms
    by (induction ns) (auto simp: adj_def ids_def node_at_def one image_iff split: option.splits dest: map_of_SomeD)
qed

lemma count_filter_snoc:
  assumes "x \<notin> P"
  shows "length (filter (\<lambda>d. d \<notin> insert x P) ds) = length (filter (\<lambda>d. d \<notin> P) ds) - count_list ds x"
    and "count_list ds x \<le> length (filter (\<lambda>d. d \<notin> P) ds)"
proof -
  have "length (filter (\<lambda>d. d \<notin> P) ds) = length (filter (\<lambda>d. d \<notin> insert x P) ds) + count_list ds x"
    using assms by (induction ds) auto
  then show "length (filter (\<lambda>d. d \<notin> insert x P) ds) = length (filter (\<lambda>d. d \<notin> P) ds) - count_list ds x"
    "count_list ds x \<le> length (filter (\<lambda>d. d \<notin> P) ds)" by simp_all
qed

lemma pend_snoc:
  assumes "distinct (ids ns)" and "x \<notin> set P"
  shows "(\<lambda>i. pend ns P i - int (count_list (adj ns x) i)) = pend ns (P @ [x])"
    and "int (count_list (adj ns x) i) \<le> pend ns P i"
  using count_filter_snoc [OF assms(2)]
  by (auto simp: pend_def count_adj [OF assms(1)] fun_eq_iff of_nat_diff split: option.splits)

lemma adj_ids: "set (adj ns x) \<subseteq> set (ids ns)"
  by (auto simp: adj_def ids_def)

text \<open>The state of the outer loop: what is ordered, what is queued, and the pending degrees.\<close>

definition kahn_inv :: "node list \<Rightarrow> string list \<Rightarrow> string list \<Rightarrow> bool" where
  "kahn_inv ns P Q \<longleftrightarrow> distinct (P @ Q) \<and> set (P @ Q) = {i \<in> set (ids ns). pend ns P i = 0} \<and> topo ns P"

lemma kahn_inv_step:
  assumes dist: "distinct (ids ns)" and inv: "kahn_inv ns P (x # Q)" and r: "relax (adj ns x) (pend ns P) Q = (deg', Q')"
  shows "deg' = pend ns (P @ [x])" and "kahn_inv ns (P @ [x]) Q'"
proof -
  have x: "x \<notin> set P" "x \<in> set (ids ns)" "pend ns P x = 0" using inv by (auto simp: kahn_inv_def)
  show deg': "deg' = pend ns (P @ [x])" using relax_spec [OF r] pend_snoc(1) [OF dist x(1)] by simp
  obtain new where new: "Q' = Q @ new" "distinct new"
      "set new = {i \<in> set (adj ns x). pend ns P i = int (count_list (adj ns x) i)}"
    using relax_spec [OF r] pend_snoc(2) [OF dist x(1)] by blast
  have zero: "pend ns (P @ [x]) i = pend ns P i - int (count_list (adj ns x) i)" for i
    using pend_snoc(1) [OF dist x(1)] by (metis (no_types))
  have new_pos: "0 < pend ns P i" if "i \<in> set new" for i
  proof -
    have "i \<in> set (adj ns x)" "pend ns P i = int (count_list (adj ns x) i)" using that new(3) by auto
    then show ?thesis using count_list_0_iff [of "adj ns x" i] by auto
  qed
  have "distinct ((P @ [x]) @ Q')"
  proof -
    have "set new \<inter> set (P @ x # Q) = {}"
    proof -
      have "pend ns P i = 0" if "i \<in> set (P @ x # Q)" for i using that inv unfolding kahn_inv_def by blast
      then show ?thesis using new_pos by fastforce
    qed
    then show ?thesis using inv new by (auto simp: kahn_inv_def)
  qed
  moreover have "set ((P @ [x]) @ Q') = {i \<in> set (ids ns). pend ns (P @ [x]) i = 0}"
  proof (rule set_eqI)
    fix i
    have old: "i \<in> set (P @ x # Q) \<longleftrightarrow> i \<in> set (ids ns) \<and> pend ns P i = 0" using inv unfolding kahn_inv_def by blast
    have cnt: "0 \<le> pend ns (P @ [x]) i" by simp
    have mem: "i \<in> set (adj ns x) \<longleftrightarrow> count_list (adj ns x) i \<noteq> 0" by (simp add: count_list_0_iff)
    have "i \<in> set ((P @ [x]) @ Q') \<longleftrightarrow> i \<in> set (P @ x # Q) \<or> i \<in> set new" using new(1) by auto
    also have "\<dots> \<longleftrightarrow> i \<in> set (ids ns) \<and> pend ns (P @ [x]) i = 0"
    proof (cases "pend ns P i = 0")
      case True
      then have "pend ns (P @ [x]) i = 0" using zero [of i] cnt by simp
      then show ?thesis using old True new_pos [of i] by auto
    next
      case False
      then show ?thesis using old new(3) zero [of i] mem adj_ids [of ns x] by auto
    qed
    finally show "i \<in> set ((P @ [x]) @ Q') \<longleftrightarrow> i \<in> {i \<in> set (ids ns). pend ns (P @ [x]) i = 0}" by simp
  qed
  moreover have "topo ns (P @ [x])"
    unfolding topo_def
  proof (intro allI impI)
    fix k n assume k: "k < length (P @ [x])" "node_at ns ((P @ [x]) ! k) = Some n"
    show "set (nd_depends n) \<subseteq> set (take k (P @ [x]))"
    proof (cases "k < length P")
      case True
      then show ?thesis using inv k(2) by (auto simp: kahn_inv_def topo_def nth_append)
    next
      case False
      then have "k = length P" using k(1) by simp
      then show ?thesis using k(2) x(3) pend_zero by (simp add: nth_append)
    qed
  qed
  ultimately show "kahn_inv ns (P @ [x]) Q'" by (simp add: kahn_inv_def)
qed

lemma kahn_enough:
  assumes "distinct (ids ns)" and "kahn_inv ns P Q" and "length ns \<le> length P + fuel"
  shows "\<exists>order. kahn fuel (adj ns) (pend ns P) Q P = Some (pend ns order, order) \<and> kahn_inv ns order []"
  using assms(2,3)
proof (induction fuel arbitrary: P Q)
  case 0
  have "length (P @ Q) \<le> length (ids ns)"
  proof -
    have "set (P @ Q) \<subseteq> set (ids ns)" "distinct (P @ Q)" using 0 by (auto simp: kahn_inv_def)
    then show ?thesis by (metis distinct_card card_length card_mono finite_set order_trans)
  qed
  then have "length P + length Q \<le> length ns" by (simp add: ids_def)
  with 0(2) have "length Q = 0" by linarith
  then show ?case using 0(1) by simp
next
  case (Suc fuel)
  show ?case
  proof (cases Q)
    case Nil
    then show ?thesis using Suc.prems by auto
  next
    case (Cons x Q1)
    obtain deg' Q' where r: "relax (adj ns x) (pend ns P) Q1 = (deg', Q')" by (cases "relax (adj ns x) (pend ns P) Q1")
    note step = kahn_inv_step [OF assms(1) Suc.prems(1) [unfolded Cons] r]
    show ?thesis
      using Suc.IH [OF step(2)] Suc.prems(2) r step(1) by (simp add: Cons)
  qed
qed

lemma kahn_inv_start:
  assumes "distinct (ids ns)"
  shows "kahn_inv ns [] (filter (\<lambda>i. in_degree ns i = 0) (ids ns))"
  using assms by (auto simp: kahn_inv_def topo_def pend_Nil)

lemma missing_deps_Nil: "missing_deps ns = [] \<longleftrightarrow> (\<forall>n \<in> set ns. set (nd_depends n) \<subseteq> set (ids ns))"
  by (auto simp: missing_deps_def filter_empty_conv)

text \<open>The result of a validation without a missing dependency.\<close>

lemma validate_order:
  assumes dist: "distinct (ids ns)" and known: "missing_deps ns = []"
  obtains order where "kahn_inv ns order []"
    "validate ns = Some (if length order \<noteq> length ns then Inl (Cycle (filter (\<lambda>i. pend ns order i > 0) (ids ns))) else Inr order)"
proof -
  obtain order where o: "kahn (length ns) (adj ns) (pend ns []) (filter (\<lambda>i. in_degree ns i = 0) (ids ns)) []
        = Some (pend ns order, order)" "kahn_inv ns order []"
    using kahn_enough [OF dist kahn_inv_start [OF dist], of "length ns"] by auto
  show thesis using o known by (intro that [of order]) (simp_all add: validate_def pend_Nil)
qed

text \<open>A cyclic set: every member is a node with a dependency in the set.\<close>

definition cyclic_set :: "node list \<Rightarrow> string list \<Rightarrow> bool" where
  "cyclic_set ns c \<longleftrightarrow> c \<noteq> [] \<and> (\<forall>i \<in> set c. \<exists>n. node_at ns i = Some n \<and> (\<exists>d \<in> set (nd_depends n). d \<in> set c))"

lemma stuck_cyclic:
  assumes dist: "distinct (ids ns)" and known: "missing_deps ns = []" and inv: "kahn_inv ns order []"
    and short: "length order \<noteq> length ns"
  shows "cyclic_set ns (filter (\<lambda>i. pend ns order i > 0) (ids ns))"
proof -
  let ?c = "filter (\<lambda>i. pend ns order i > 0) (ids ns)"
  have order: "set order = {i \<in> set (ids ns). pend ns order i = 0}" "distinct order" using inv by (simp_all add: kahn_inv_def)
  have c: "i \<in> set ?c \<longleftrightarrow> i \<in> set (ids ns) \<and> i \<notin> set order" for i
  proof -
    have "0 < pend ns order i \<longleftrightarrow> pend ns order i \<noteq> 0" using pend_nonneg [of ns order i] by linarith
    moreover have "i \<in> set order \<longleftrightarrow> i \<in> set (ids ns) \<and> pend ns order i = 0" by (simp only: order(1) mem_Collect_eq)
    ultimately show ?thesis unfolding set_filter mem_Collect_eq by blast
  qed
  have "?c \<noteq> []"
  proof
    assume e: "?c = []"
    have "set (ids ns) \<subseteq> set order"
    proof
      fix i assume "i \<in> set (ids ns)"
      moreover have "i \<notin> set ?c" unfolding e by simp
      ultimately show "i \<in> set order" using c by blast
    qed
    moreover have "set order \<subseteq> set (ids ns)" unfolding order(1) by blast
    ultimately have "set order = set (ids ns)" by blast
    then have "length order = length (ids ns)" using order(2) dist by (metis distinct_card)
    then show False using short by (simp add: ids_def)
  qed
  moreover have "\<exists>n. node_at ns i = Some n \<and> (\<exists>d \<in> set (nd_depends n). d \<in> set ?c)" if "i \<in> set ?c" for i
  proof -
    have i: "i \<in> set (ids ns)" "pend ns order i > 0" using that by simp_all
    then obtain n where n: "node_at ns i = Some n" using node_at_None by (cases "node_at ns i") auto
    have "\<not> set (nd_depends n) \<subseteq> set order" using i(2) pend_zero [OF n, of order] by linarith
    then obtain d where d: "d \<in> set (nd_depends n)" "d \<notin> set order" by blast
    have "d \<in> set (ids ns)" using known d(1) node_at_id [OF n] by (auto simp: missing_deps_Nil)
    then have "d \<in> set ?c" using d(2) c by blast
    then show ?thesis using n d(1) by blast
  qed
  ultimately show ?thesis unfolding cyclic_set_def by blast
qed

text \<open>A topological order leaves no room for a cyclic set.\<close>

lemma topo_no_cycle:
  assumes "topo ns order" and "set c \<subseteq> set order" and "cyclic_set ns c"
  shows False
proof -
  have "\<forall>k < length order. order ! k \<notin> set c"
  proof (intro allI impI)
    fix k show "k < length order \<Longrightarrow> order ! k \<notin> set c"
    proof (induction k rule: less_induct)
      case (less k)
      show ?case
      proof
        assume "order ! k \<in> set c"
        then obtain n d where n: "node_at ns (order ! k) = Some n" "d \<in> set (nd_depends n)" "d \<in> set c"
          using assms(3) by (auto simp: cyclic_set_def)
        then have "d \<in> set (take k order)" using assms(1) less.prems by (auto simp: topo_def)
        then obtain j where "j < k" "j < length order" "order ! j = d" by (auto simp: in_set_conv_nth)
        with less.IH n(3) show False by blast
      qed
    qed
  qed
  moreover obtain i where "i \<in> set c" using assms(3) by (auto simp: cyclic_set_def neq_Nil_conv)
  ultimately show False using assms(2) by (metis in_set_conv_nth subsetD)
qed

end
