(* ===== verification/DagRun.thy ===== *)
theory DagRun
  imports DagOrder Sql
begin

text \<open>
  Execution of a workflow (\<open>src/smara/dag_flow.py\<close>): a step runs only nodes whose dependencies have
  completed, a retry resets exactly the node and its descendants, and the dictionary form of a
  workflow reads back as the workflow.
\<close>

section \<open>Only ready work runs\<close>

text \<open>A node past the gate has all its dependencies completed.\<close>

definition past_gate :: "node_status \<Rightarrow> bool" where
  "past_gate st \<longleftrightarrow> st \<in> {READY, RUNNING, COMPLETED, FAILED}"

definition completed_ids :: "node list \<Rightarrow> string list" where
  "completed_ids ns = ids (filter (\<lambda>m. nd_status m = COMPLETED) ns)"

definition deps_done :: "node list \<Rightarrow> node \<Rightarrow> bool" where
  "deps_done ns n \<longleftrightarrow> set (nd_depends n) \<subseteq> set (completed_ids ns)"

definition gate_ok :: "node list \<Rightarrow> bool" where
  "gate_ok ns \<longleftrightarrow> distinct (ids ns) \<and> (\<forall>n \<in> set ns. past_gate (nd_status n) \<longrightarrow> deps_done ns n)"

lemma refresh_node_same [simp]: "nd_id (refresh_node ns n) = nd_id n" "nd_depends (refresh_node ns n) = nd_depends n"
  by (simp_all add: refresh_node_def)

lemma refresh_node_completed [simp]: "nd_status (refresh_node ns n) = COMPLETED \<longleftrightarrow> nd_status n = COMPLETED"
  by (auto simp: refresh_node_def)

lemma all_completed: "\<forall>st \<in> set (dep_statuses ns n). st = Some COMPLETED \<Longrightarrow> deps_done ns n"
  unfolding deps_done_def
proof
  fix d assume all: "\<forall>st \<in> set (dep_statuses ns n). st = Some COMPLETED" and d: "d \<in> set (nd_depends n)"
  then have "map_option nd_status (node_at ns d) = Some COMPLETED" by (simp add: dep_statuses_def)
  then obtain m where "node_at ns d = Some m" "nd_status m = COMPLETED" by auto
  then show "d \<in> set (completed_ids ns)" using node_at_id by (fastforce simp: completed_ids_def ids_def)
qed

lemma refresh_node_gate:
  assumes "past_gate (nd_status (refresh_node ns n))" and "past_gate (nd_status n) \<Longrightarrow> deps_done ns n"
  shows "deps_done ns n"
proof (cases "nd_status n = PENDING")
  case False
  with assms show ?thesis by (simp add: refresh_node_def)
next
  case True
  have "\<forall>st \<in> set (dep_statuses ns n). st = Some COMPLETED"
  proof (rule ccontr)
    assume "\<not> ?thesis"
    with True have "nd_status (refresh_node ns n) \<in> {BLOCKED, PENDING}" by (auto simp: refresh_node_def)
    moreover have "\<not> past_gate BLOCKED" "\<not> past_gate PENDING" by (simp_all add: past_gate_def)
    ultimately show False using assms(1) by (metis emptyE insertE)
  qed
  then show ?thesis by (rule all_completed)
qed

lemma refresh_pass_step:
  assumes "gate_ok (xs @ n # ys)"
  shows "gate_ok (xs @ refresh_node (xs @ n # ys) n # ys)"
    and "completed_ids (xs @ refresh_node (xs @ n # ys) n # ys) = completed_ids (xs @ n # ys)"
proof -
  let ?old = "xs @ n # ys"
  let ?n = "refresh_node ?old n"
  show same: "completed_ids (xs @ ?n # ys) = completed_ids ?old" by (simp add: completed_ids_def ids_def)
  have dn: "deps_done ?old n" if "past_gate (nd_status ?n)"
  proof (rule refresh_node_gate [OF that])
    have "n \<in> set ?old" by simp
    then show "past_gate (nd_status n) \<Longrightarrow> deps_done ?old n" using assms unfolding gate_ok_def by blast
  qed
  show "gate_ok (xs @ ?n # ys)"
    unfolding gate_ok_def
  proof (intro conjI ballI impI)
    show "distinct (ids (xs @ ?n # ys))" using assms by (simp add: gate_ok_def ids_def)
    fix m assume m: "m \<in> set (xs @ ?n # ys)" "past_gate (nd_status m)"
    have "deps_done ?old m"
    proof (cases "m = ?n")
      case True
      then show ?thesis using dn m(2) by (simp add: deps_done_def)
    next
      case False
      then have "m \<in> set ?old" using m(1) by auto
      then show ?thesis using assms m(2) unfolding gate_ok_def by blast
    qed
    then show "deps_done (xs @ ?n # ys) m" unfolding deps_done_def same .
  qed
qed

lemma refresh_pass_shape:
  "map (\<lambda>n. (nd_id n, nd_depends n)) (refresh_pass done rest) = map (\<lambda>n. (nd_id n, nd_depends n)) (done @ rest)"
  by (induction "done" rest rule: refresh_pass.induct) auto

lemma refresh_shape:
  assumes "update_node_readiness ns = Some ns'" and "n \<in> set ns"
  shows "\<exists>m \<in> set ns'. nd_id m = nd_id n \<and> nd_depends m = nd_depends n"
proof -
  have "map (\<lambda>n. (nd_id n, nd_depends n)) ns' = map (\<lambda>n. (nd_id n, nd_depends n)) ns"
    using assms(1) refresh_pass_shape [of "[]" ns] by (simp add: update_node_readiness_def split: if_splits)
  then have "(\<lambda>n. (nd_id n, nd_depends n)) ` set ns' = (\<lambda>n. (nd_id n, nd_depends n)) ` set ns"
    by (simp only: list.set_map [symmetric])
  moreover have "(nd_id n, nd_depends n) \<in> (\<lambda>n. (nd_id n, nd_depends n)) ` set ns" using assms(2) by (rule imageI)
  ultimately have "(nd_id n, nd_depends n) \<in> (\<lambda>n. (nd_id n, nd_depends n)) ` set ns'" by (simp only:)
  then obtain m where "(nd_id n, nd_depends n) = (nd_id m, nd_depends m)" "m \<in> set ns'" by (rule imageE)
  then show ?thesis by (intro bexI [of _ m]) simp_all
qed

lemma refresh_pass_gate:
  "gate_ok (done @ rest) \<Longrightarrow> gate_ok (refresh_pass done rest) \<and> completed_ids (refresh_pass done rest) = completed_ids (done @ rest)"
proof (induction "done" rest rule: refresh_pass.induct)
  case (2 "done" n rest)
  from 2(2) refresh_pass_step [of "done" n rest] 2(1) show ?case by simp
qed simp

lemma refresh_gate:
  "update_node_readiness ns = Some ns' \<Longrightarrow> gate_ok ns \<Longrightarrow> gate_ok ns' \<and> completed_ids ns' = completed_ids ns"
  using refresh_pass_gate [of "[]" ns] by (auto simp: update_node_readiness_def split: if_splits)

text \<open>Running a ready node: what was complete stays complete.\<close>

lemma execute_node_same [simp]:
  "nd_id (execute_node cb dur k n) = nd_id n" "nd_depends (execute_node cb dur k n) = nd_depends n"
  by (auto simp: execute_node_def Let_def split: sum.splits)

lemma ids_set_node [simp]: "(\<And>n. nd_id (f n) = nd_id n) \<Longrightarrow> ids (set_node i f ns) = ids ns"
  by (induction ns) (auto simp: set_node_def ids_def)

lemma set_node_gate:
  assumes gate: "gate_ok ns" and same: "\<And>n. nd_id (f n) = nd_id n \<and> nd_depends (f n) = nd_depends n"
    and gated: "\<And>n. n \<in> set ns \<Longrightarrow> nd_id n = i \<Longrightarrow> past_gate (nd_status n) \<and> nd_status n \<noteq> COMPLETED"
  shows "gate_ok (set_node i f ns)"
proof -
  have keep: "set (completed_ids ns) \<subseteq> set (completed_ids (set_node i f ns))"
    using gated by (auto simp: completed_ids_def ids_def set_node_def image_iff)
  have "deps_done (set_node i f ns) m'" if m': "m' \<in> set (set_node i f ns)" "past_gate (nd_status m')" for m'
  proof -
    obtain m where m: "m \<in> set ns" "m' = (if nd_id m = i then f m else m)" using m'(1) by (auto simp: set_node_def)
    have "past_gate (nd_status m)" using m m'(2) gated by (cases "nd_id m = i") auto
    then have "deps_done ns m" using gate m(1) by (simp add: gate_ok_def)
    moreover have "nd_depends m' = nd_depends m" using m(2) same by simp
    ultimately show ?thesis using keep unfolding deps_done_def by simp
  qed
  then show ?thesis using gate same by (simp add: gate_ok_def)
qed

lemma set_node_other: "n \<in> set (set_node i f ns) \<Longrightarrow> nd_id n \<noteq> i \<Longrightarrow> (\<And>n. nd_id (f n) = nd_id n) \<Longrightarrow> n \<in> set ns"
  by (auto simp: set_node_def split: if_splits)

lemma execute_all_gate:
  assumes "gate_ok ns" and "distinct rs" and "\<forall>n \<in> set ns. nd_id n \<in> set rs \<longrightarrow> nd_status n = READY"
  shows "gate_ok (execute_all cb dur k rs ns)"
  using assms
proof (induction rs arbitrary: k ns)
  case (Cons i rs)
  let ?ns = "set_node i (execute_node cb dur k) ns"
  have "gate_ok ?ns" using Cons.prems by (intro set_node_gate) (auto simp: past_gate_def)
  moreover have "\<forall>n \<in> set ?ns. nd_id n \<in> set rs \<longrightarrow> nd_status n = READY"
  proof (intro ballI impI)
    fix n assume n: "n \<in> set ?ns" "nd_id n \<in> set rs"
    then have "nd_id n \<noteq> i" using Cons.prems(2) by auto
    then have "n \<in> set ns" using n(1) set_node_other [of n i "execute_node cb dur k" ns] by simp
    then show "nd_status n = READY" using Cons.prems(3) n(2) by simp
  qed
  ultimately show ?case using Cons by simp
qed simp

lemma ready_ids_only:
  assumes "distinct (ids ns)" and "n \<in> set ns" and "nd_id n \<in> set (ready_ids ns)"
  shows "nd_status n = READY"
proof -
  obtain m where "m \<in> set ns" "nd_id m = nd_id n" "nd_status m = READY" using assms(3) by (auto simp: ready_ids_def ids_def)
  then show ?thesis using assms(1,2) by (auto simp: ids_def distinct_map inj_on_def)
qed

lemma dag_step_gate:
  assumes "dag_step cb dur k w = Some (w', executed)" and "gate_ok (wf_nodes w)"
  shows "gate_ok (wf_nodes w')"
    and "n \<in> set (wf_nodes w) \<Longrightarrow> nd_id n \<in> set executed \<Longrightarrow> deps_done (wf_nodes w) n"
proof -
  have "gate_ok (wf_nodes w') \<and> (n \<in> set (wf_nodes w) \<longrightarrow> nd_id n \<in> set executed \<longrightarrow> deps_done (wf_nodes w) n)" for n
  proof (cases "wf_paused w")
    case True
    then show ?thesis using assms by (simp add: dag_step_def)
  next
    case running: False
    obtain ns where ns: "update_node_readiness (wf_nodes w) = Some ns"
      using assms(1) running by (auto simp: dag_step_def split: option.splits)
    have gate: "gate_ok ns" "completed_ids ns = completed_ids (wf_nodes w)" using refresh_gate [OF ns assms(2)] by auto
    show ?thesis
    proof (cases "ready_ids ns = []")
      case True
      then show ?thesis using assms(1) running ns gate by (auto simp: dag_step_def)
    next
      case False
      then obtain ns' where ns': "update_node_readiness (execute_all cb dur k (ready_ids ns) ns) = Some ns'"
          and w': "wf_nodes w' = ns'" "executed = ready_ids ns"
        using assms(1) running ns by (auto simp: dag_step_def Let_def)
      have dist: "distinct (ready_ids ns)"
        using gate(1) by (simp add: gate_ok_def ready_ids_def ids_def distinct_map_filter)
      have "gate_ok (execute_all cb dur k (ready_ids ns) ns)"
        using gate(1) dist ready_ids_only by (intro execute_all_gate) (auto simp: gate_ok_def)
      then have "gate_ok (wf_nodes w')" using refresh_gate [OF ns'] w'(1) by simp
      moreover have "deps_done (wf_nodes w) n" if n: "n \<in> set (wf_nodes w)" "nd_id n \<in> set executed"
      proof -
        obtain m where m: "m \<in> set ns" "nd_id m = nd_id n" "nd_depends m = nd_depends n"
          using refresh_shape [OF ns n(1)] by blast
        have "nd_status m = READY" using gate(1) m n(2) w'(2) by (intro ready_ids_only) (auto simp: gate_ok_def)
        then have "deps_done ns m" using gate(1) m(1) by (simp add: gate_ok_def past_gate_def)
        then show ?thesis using gate(2) m(3) by (simp add: deps_done_def)
      qed
      ultimately show ?thesis by blast
    qed
  qed
  then show "gate_ok (wf_nodes w')" "n \<in> set (wf_nodes w) \<Longrightarrow> nd_id n \<in> set executed \<Longrightarrow> deps_done (wf_nodes w) n" by blast+
qed

section \<open>Resetting a node and its descendants\<close>

definition closed :: "(string \<Rightarrow> string list) \<Rightarrow> string set \<Rightarrow> bool" where
  "closed children R \<longleftrightarrow> (\<forall>v \<in> R. set (children v) \<subseteq> R)"

text \<open>
  The queue loop returns: a pop either enlarges the set within the finite universe, or removes one
  of the queued members of the set.
\<close>

lemma collect_closed:
  assumes "finite U" and "set queue \<subseteq> U" and "\<forall>v. set (children v) \<subseteq> U"
    and "\<forall>v \<in> R. set (children v) \<subseteq> R \<union> set queue"
  shows "\<exists>R'. collect children R queue = Some R' \<and> R \<union> set queue \<subseteq> R' \<and> closed children R' \<and>
     (\<forall>D. R \<union> set queue \<subseteq> D \<longrightarrow> closed children D \<longrightarrow> R' \<subseteq> D)"
  using assms(2,4)
proof (induction "(card (U - R), length (filter (\<lambda>x. x \<in> R) queue))" arbitrary: R queue
    rule: wf_induct_rule [OF wf_lex_prod [OF wf_less_than wf_less_than]])
  case (1 R queue)
  show ?case
  proof (cases queue)
    case Nil
    then show ?thesis using "1.prems" by (simp add: collect.simps closed_def)
  next
    case (Cons cur rest)
    let ?R = "insert cur R"
    let ?Q = "rest @ filter (\<lambda>c. c \<notin> ?R) (children cur)"
    have smaller: "((card (U - ?R), length (filter (\<lambda>x. x \<in> ?R) ?Q)),
        (card (U - R), length (filter (\<lambda>x. x \<in> R) queue))) \<in> less_than <*lex*> less_than"
    proof (cases "cur \<in> R")
      case True
      have "filter (\<lambda>x. x \<in> R) (filter (\<lambda>c. c \<notin> R) (children cur)) = []" by (simp add: filter_empty_conv)
      then show ?thesis using True by (simp add: Cons insert_absorb)
    next
      case False
      have "card (U - ?R) < card (U - R)"
        using False "1.prems"(1) assms(1) by (intro psubset_card_mono) (auto simp: Cons)
      then show ?thesis by simp
    qed
    have sub: "set ?Q \<subseteq> U" using "1.prems"(1) assms(3) by (auto simp: Cons)
    have inv: "\<forall>v \<in> ?R. set (children v) \<subseteq> ?R \<union> set ?Q" using "1.prems"(2) by (auto simp: Cons)
    from "1.hyps" [OF smaller sub inv] obtain R' where R': "collect children ?R ?Q = Some R'"
      "?R \<union> set ?Q \<subseteq> R'" "closed children R'" "\<forall>D. ?R \<union> set ?Q \<subseteq> D \<longrightarrow> closed children D \<longrightarrow> R' \<subseteq> D" by blast
    have "collect children R queue = Some R'" using R'(1) by (simp add: Cons collect.simps [of children R])
    moreover have "R \<union> set queue \<subseteq> R'" using R'(2) by (auto simp: Cons)
    moreover have "R' \<subseteq> D" if D: "R \<union> set queue \<subseteq> D" "closed children D" for D
    proof -
      have "set (children cur) \<subseteq> D" using D by (auto simp: closed_def Cons)
      then have "?R \<union> set ?Q \<subseteq> D" using D(1) by (auto simp: Cons)
      then show ?thesis using R'(4) D(2) by blast
    qed
    ultimately show ?thesis using R'(3) by blast
  qed
qed

lemma collect_descendants:
  assumes "i \<in> set (ids ns)"
  obtains R where "collect (adj ns) {} [i] = Some R" "i \<in> R" "closed (adj ns) R" "R \<subseteq> set (ids ns)"
    "\<And>D. i \<in> D \<Longrightarrow> closed (adj ns) D \<Longrightarrow> R \<subseteq> D"
proof -
  have U: "closed (adj ns) (set (ids ns))" using adj_ids by (simp add: closed_def)
  obtain R where R: "collect (adj ns) {} [i] = Some R" "{} \<union> set [i] \<subseteq> R" "closed (adj ns) R"
      "\<forall>D. {} \<union> set [i] \<subseteq> D \<longrightarrow> closed (adj ns) D \<longrightarrow> R \<subseteq> D"
    using collect_closed [of "set (ids ns)" "[i]" "adj ns" "{}"] assms adj_ids by auto
  then show thesis using U assms by (intro that [of R]) auto
qed

text \<open>After the reset every node outside of the set still has its completed dependencies.\<close>

abbreviation reset_in :: "string set \<Rightarrow> node \<Rightarrow> node" where
  "reset_in R n \<equiv> (if nd_id n \<in> R then reset_node n else n)"

lemma adj_member: "n \<in> set ns \<Longrightarrow> d \<in> set (nd_depends n) \<Longrightarrow> nd_id n \<in> set (adj ns d)"
  by (auto simp: adj_def)

lemma reset_gate:
  assumes "gate_ok ns" and "closed (adj ns) R"
  shows "gate_ok (map (reset_in R) ns)"
  unfolding gate_ok_def
proof (intro conjI ballI impI)
  have "ids (map (reset_in R) ns) = ids ns" by (simp add: ids_def reset_node_def)
  then show "distinct (ids (map (reset_in R) ns))" using assms(1) by (simp add: gate_ok_def)
  fix n' assume n': "n' \<in> set (map (reset_in R) ns)" "past_gate (nd_status n')"
  then obtain n where n: "n \<in> set ns" "n' = reset_in R n" by auto
  have out: "nd_id n \<notin> R" using n(2) n'(2) by (auto simp: reset_node_def past_gate_def)
  then have same: "n' = n" using n(2) by simp
  then have "deps_done ns n" using assms(1) n(1) n'(2) by (simp add: gate_ok_def)
  show "deps_done (map (reset_in R) ns) n'"
    unfolding deps_done_def same
  proof
    fix d assume d: "d \<in> set (nd_depends n)"
    then obtain m where m: "m \<in> set ns" "nd_id m = d" "nd_status m = COMPLETED"
      using \<open>deps_done ns n\<close> by (auto simp: deps_done_def completed_ids_def ids_def)
    have "d \<notin> R" using assms(2) adj_member [OF n(1) d] out by (auto simp: closed_def)
    then have "m \<in> set (map (reset_in R) ns)" using m(1,2) by (force simp: image_iff)
    then show "d \<in> set (completed_ids (map (reset_in R) ns))" using m(2,3) by (force simp: completed_ids_def ids_def)
  qed
qed

lemma retry_node_gate:
  assumes "retry_node i w = Some w'" and "gate_ok (wf_nodes w)"
  shows "gate_ok (wf_nodes w')"
proof (cases "i \<in> set (ids (wf_nodes w))")
  case False
  then show ?thesis using assms by (simp add: retry_node_def)
next
  case True
  obtain R where R: "collect (adj (wf_nodes w)) {} [i] = Some R" "closed (adj (wf_nodes w)) R"
    using collect_descendants [OF True] by metis
  obtain ns where "update_node_readiness (map (reset_in R) (wf_nodes w)) = Some ns" "w' = w\<lparr>wf_nodes := ns\<rparr>"
    using assms(1) True R(1) by (auto simp: retry_node_def)
  then show ?thesis using refresh_gate reset_gate [OF assms(2) R(2)] by auto
qed

section \<open>Histories of a workflow\<close>

text \<open>Adding a pending node, a step under any callback, and a retry.\<close>

inductive dag_move :: "workflow \<Rightarrow> workflow \<Rightarrow> bool" where
  added: "add_node n w = Inr w' \<Longrightarrow> nd_status n = PENDING \<Longrightarrow> dag_move w w'"
| stepped: "dag_step cb dur k w = Some (w', executed) \<Longrightarrow> dag_move w w'"
| retried_node: "retry_node i w = Some w' \<Longrightarrow> dag_move w w'"
| paused: "dag_move w (w\<lparr>wf_paused := b\<rparr>)"

definition empty_workflow :: "string \<Rightarrow> string \<Rightarrow> workflow" where
  "empty_workflow i t = \<lparr>wf_id = i, wf_title = t, wf_nodes = [], wf_paused = False\<rparr>"

lemma add_node_gate:
  assumes "add_node n w = Inr w'" and "nd_status n = PENDING" and "gate_ok (wf_nodes w)"
  shows "gate_ok (wf_nodes w')"
proof -
  have w': "wf_nodes w' = wf_nodes w @ [n]" "nd_id n \<notin> set (ids (wf_nodes w))"
    using assms(1) by (auto simp: add_node_def split: if_splits)
  have "completed_ids (wf_nodes w @ [n]) = completed_ids (wf_nodes w)" using assms(2) by (simp add: completed_ids_def ids_def)
  then show ?thesis
    using assms(2,3) w' by (auto simp: gate_ok_def deps_done_def past_gate_def ids_def)
qed

interpretation dag_machine: inductive_invariant dag_move "empty_workflow i t" "\<lambda>w. gate_ok (wf_nodes w)" for i t
proof unfold_locales
  show "gate_ok (wf_nodes (empty_workflow i t))" by (simp add: empty_workflow_def gate_ok_def ids_def)
next
  fix v w assume "gate_ok (wf_nodes v)" "dag_move v w"
  then show "gate_ok (wf_nodes w)"
    by (auto elim!: dag_move.cases intro: add_node_gate dag_step_gate(1) retry_node_gate)
qed

section \<open>Dictionaries\<close>

lemma status_roundtrip: "status_of_text (status_text st) = Some st"
  by (cases st) (simp_all add: status_of_text_def status_text_def)

lemma strs_roundtrip: "those (map str_of (map JStr ds)) = Some ds"
  by (induction ds) (simp_all add: str_of_def)

lemma node_roundtrip: "node_from_dict (node_to_dict n) = Inr n"
  by (cases "nd_error n")
    (simp_all add: node_from_dict_def node_to_dict_def unknown_field_def node_fields_def field_str_def field_strs_def
      field_status_def field_opt_def field_int_def field_any_def opt_json_def status_roundtrip strs_roundtrip
      del: map_map)

lemma add_nodes_roundtrip:
  "distinct (ids (wf_nodes w @ ns)) \<Longrightarrow>
   add_nodes (map node_to_dict ns) w = Inr (w\<lparr>wf_nodes := wf_nodes w @ ns\<rparr>)"
  by (induction ns arbitrary: w) (auto simp: node_roundtrip add_node_def ids_def)

end
