(* ===== verification/RateLimit.thy ===== *)
theory RateLimit
  imports Prelude
begin

text \<open>
  \<open>src/rate_limiter/__init__.py\<close>: the token-bucket limiter. Floating-point seconds and tokens are
  real numbers. The buckets are a map from client to bucket; the clock reading is an argument.
\<close>

section \<open>Configuration and buckets\<close>

record config =
  rl_capacity :: real
  rl_rate :: real
  rl_fail_open :: bool
  rl_header_max :: nat
  rl_ban :: real

definition default_config :: config where
  "default_config = \<lparr>rl_capacity = 60, rl_rate = 1, rl_fail_open = True, rl_header_max = 512, rl_ban = 0\<rparr>"

record bucket =
  tk_tokens :: real
  tk_last :: real
  tk_banned :: real

text \<open>\<open>int(x)\<close> truncates towards zero.\<close>

definition py_int :: "real \<Rightarrow> int" where
  "py_int x = (if 0 \<le> x then \<lfloor>x\<rfloor> else \<lceil>x\<rceil>)"

text \<open>The numbers the response headers carry; \<open>Retry-After\<close> is only sent with a refusal.\<close>

record limit_headers =
  lh_retry_after :: "int option"
  lh_limit :: int
  lh_remaining :: int
  lh_reset :: int

section \<open>Taking tokens\<close>

definition refill :: "config \<Rightarrow> real \<Rightarrow> bucket \<Rightarrow> bucket" where
  "refill c now b = b\<lparr>tk_tokens := min (rl_capacity c) (tk_tokens b + max 0 (now - tk_last b) * rl_rate c), tk_last := now\<rparr>"

definition take_from :: "config \<Rightarrow> real \<Rightarrow> real \<Rightarrow> bucket \<Rightarrow> bucket \<times> bool \<times> limit_headers" where
  "take_from c now req b =
     (if tk_banned b > now then
        (b, False, \<lparr>lh_retry_after = Some (py_int (tk_banned b - now) + 1), lh_limit = py_int (rl_capacity c),
                    lh_remaining = 0, lh_reset = py_int (tk_banned b)\<rparr>)
      else
        (let b = refill c now b
         in if tk_tokens b \<ge> req then
              (let b = b\<lparr>tk_tokens := tk_tokens b - req\<rparr>
               in (b, True, \<lparr>lh_retry_after = None, lh_limit = py_int (rl_capacity c), lh_remaining = py_int (tk_tokens b),
                             lh_reset = py_int (now + (rl_capacity c - tk_tokens b) / max (1/1000) (rl_rate c))\<rparr>))
            else
              (let deficit = req - tk_tokens b;
                   retry = max 1 (py_int (deficit / max (1/1000) (rl_rate c)) + 1);
                   banned = (rl_ban c > 0);
                   b = (if banned then b\<lparr>tk_banned := now + rl_ban c\<rparr> else b);
                   retry = (if banned then py_int (rl_ban c) else retry)
               in (b, False, \<lparr>lh_retry_after = Some retry, lh_limit = py_int (rl_capacity c), lh_remaining = 0,
                              lh_reset = py_int (now + of_int retry)\<rparr>))))"

type_synonym buckets = "string \<rightharpoonup> bucket"

definition acquire :: "config \<Rightarrow> string \<Rightarrow> real \<Rightarrow> real \<Rightarrow> buckets \<Rightarrow> buckets \<times> bool \<times> limit_headers" where
  "acquire c client req now m =
     (let b = (case m client of None \<Rightarrow> \<lparr>tk_tokens = rl_capacity c, tk_last = now, tk_banned = 0\<rparr> | Some b \<Rightarrow> b);
          (b', ok, h) = take_from c now req b
      in (m(client \<mapsto> b'), ok, h))"

definition reset :: "string option \<Rightarrow> buckets \<Rightarrow> buckets" where
  "reset client m = (case client of
       Some c \<Rightarrow> (if c = [] then Map.empty else m(c := None))
     | None \<Rightarrow> Map.empty)"

section \<open>The client of a request\<close>

text \<open>\<open>s.split(sep)\<close> for a one-character separator.\<close>

fun split_char :: "char \<Rightarrow> string \<Rightarrow> string \<Rightarrow> string list" where
  "split_char sep acc [] = [rev acc]"
| "split_char sep acc (c # cs) =
     (if c = sep then rev acc # split_char sep [] cs else split_char sep (c # acc) cs)"

definition header_map :: "(string \<times> string) list \<Rightarrow> string \<Rightarrow> string option" where
  "header_map hs k = map_of (rev (map (\<lambda>(n, v). (lower n, v)) hs)) k"

definition is_alnum :: "char \<Rightarrow> bool" where
  "is_alnum ch = (let n = (of_char ch :: nat) in (48 \<le> n \<and> n \<le> 57) \<or> (65 \<le> n \<and> n \<le> 90) \<or> (97 \<le> n \<and> n \<le> 122))"

text \<open>
  \<open>parse\<close> is \<open>str(ipaddress.ip_address(s))\<close>, \<open>None\<close> when it raises \<open>ValueError\<close>; text is ASCII.
\<close>

definition forwarded :: "config \<Rightarrow> (string \<times> string) list \<Rightarrow> string" where
  "forwarded c hs =
     (case header_map hs ''x-forwarded-for'' of
        None \<Rightarrow> []
      | Some v \<Rightarrow>
          (case filter (\<lambda>p. p \<noteq> []) (map strip (split_char (CHR '','') [] (take (rl_header_max c) v))) of
             [] \<Rightarrow> [] | p # _ \<Rightarrow> p))"

definition real_ip :: "config \<Rightarrow> (string \<times> string) list \<Rightarrow> string" where
  "real_ip c hs = (case header_map hs ''x-real-ip'' of None \<Rightarrow> [] | Some v \<Rightarrow> strip (take (rl_header_max c) v))"

definition extract_client_ip ::
  "config \<Rightarrow> (string \<Rightarrow> string option) \<Rightarrow> (string \<times> string) list \<Rightarrow> string option \<Rightarrow> string" where
  "extract_client_ip c parse hs remote =
     (let raw = forwarded c hs;
          raw = (if raw = [] then real_ip c hs else raw);
          raw = (if raw = [] then (case remote of None \<Rightarrow> [] | Some r \<Rightarrow> strip r) else raw)
      in if raw = [] then ''unknown''
         else
           (let raw = (if CHR '':'' \<in> set raw \<and> CHR ''.'' \<in> set raw then hd (split_char (CHR '':'') [] raw) else raw)
            in case parse raw of
                 Some ip \<Rightarrow> ip
               | None \<Rightarrow> or_text (filter (\<lambda>ch. is_alnum ch \<or> ch \<in> set ''.:-'') raw) ''malformed''))"

section \<open>The middleware\<close>

datatype limit_response = Proceed "limit_headers option" | Too_Many limit_headers | Limiter_Fault string

text \<open>\<open>fault\<close> is an exception raised inside the \<open>try\<close> block, if one is.\<close>

definition on_request ::
  "config \<Rightarrow> (string \<Rightarrow> string option) \<Rightarrow> string option \<Rightarrow> (string \<times> string) list \<Rightarrow> string option \<Rightarrow> real \<Rightarrow> buckets \<Rightarrow>
   buckets \<times> limit_response" where
  "on_request c parse fault hs remote now m =
     (case fault of
        Some err \<Rightarrow> (m, if rl_fail_open c then Proceed None else Limiter_Fault err)
      | None \<Rightarrow>
          (let (m, ok, h) = acquire c (extract_client_ip c parse hs remote) 1 now m
           in (m, if ok then Proceed (Some h) else Too_Many h)))"

section \<open>The bucket never overflows and never lends\<close>

definition config_ok :: "config \<Rightarrow> bool" where
  "config_ok c \<longleftrightarrow> 0 \<le> rl_capacity c \<and> 0 \<le> rl_rate c"

definition bucket_ok :: "config \<Rightarrow> bucket \<Rightarrow> bool" where
  "bucket_ok c b \<longleftrightarrow> 0 \<le> tk_tokens b \<and> tk_tokens b \<le> rl_capacity c"

lemma refill_ok: "config_ok c \<Longrightarrow> bucket_ok c b \<Longrightarrow> bucket_ok c (refill c now b)"
  by (auto simp: config_ok_def bucket_ok_def refill_def)

lemma take_from_ok:
  assumes "config_ok c" and "bucket_ok c b" and "0 \<le> req" and "take_from c now req b = (b', ok, h)"
  shows "bucket_ok c b'"
  using assms refill_ok [OF assms(1,2), of now]
  by (auto simp: take_from_def bucket_ok_def Let_def split: if_splits)

text \<open>
  What one call hands out is paid for by the tokens of the bucket and by the time since the last
  refill, when the clock does not go back.
\<close>

lemma take_from_paid:
  assumes "config_ok c" and "tk_last b \<le> now" and "take_from c now req b = (b', ok, h)"
  shows "(if ok then req else 0) + tk_tokens b' \<le> tk_tokens b + rl_rate c * (tk_last b' - tk_last b)"
    and "tk_last b \<le> tk_last b'" and "tk_last b' \<le> now"
proof -
  have r: "tk_tokens (refill c now b) \<le> tk_tokens b + rl_rate c * (now - tk_last b)"
    using assms(2) by (simp add: refill_def algebra_simps min_def)
  show "(if ok then req else 0) + tk_tokens b' \<le> tk_tokens b + rl_rate c * (tk_last b' - tk_last b)"
    using r assms(3) by (auto simp: take_from_def refill_def Let_def split: if_splits)
  show "tk_last b \<le> tk_last b'" "tk_last b' \<le> now"
    using assms(2,3) by (auto simp: take_from_def refill_def Let_def split: if_splits)
qed

text \<open>The tokens granted to one client by a sequence of requests, each with its time.\<close>

fun granted :: "config \<Rightarrow> string \<Rightarrow> (real \<times> real) list \<Rightarrow> buckets \<Rightarrow> real" where
  "granted c client [] m = 0"
| "granted c client ((now, req) # rest) m =
     (let (m', ok, h) = acquire c client req now m
      in (if ok then req else 0) + granted c client rest m')"

fun ascending :: "real \<Rightarrow> (real \<times> real) list \<Rightarrow> bool" where
  "ascending t [] = True"
| "ascending t ((now, req) # rest) = (t \<le> now \<and> 0 \<le> req \<and> ascending now rest)"

definition last_time :: "real \<Rightarrow> (real \<times> real) list \<Rightarrow> real" where
  "last_time t rs = (if rs = [] then t else fst (last rs))"

lemma granted_from:
  assumes "config_ok c" and "m client = Some b" and "bucket_ok c b" and "tk_last b \<le> t" and "ascending t rs"
  shows "granted c client rs m \<le> tk_tokens b + rl_rate c * (last_time t rs - tk_last b)"
  using assms(2-5)
proof (induction rs arbitrary: m b t)
  case Nil
  then show ?case using assms(1) by (simp add: last_time_def bucket_ok_def config_ok_def)
next
  case (Cons r rs)
  obtain now req where r: "r = (now, req)" by (cases r)
  obtain b' ok h where tf: "take_from c now req b = (b', ok, h)" by (cases "take_from c now req b") auto
  have asc: "tk_last b \<le> now" "0 \<le> req" "ascending now rs" using Cons.prems(3,4) r by auto
  note paid = take_from_paid [OF assms(1) asc(1) tf]
  have "granted c client rs (m(client \<mapsto> b')) \<le> tk_tokens b' + rl_rate c * (last_time now rs - tk_last b')"
    using paid(3) take_from_ok [OF assms(1) Cons.prems(2) asc(2) tf] asc(3) by (intro Cons.IH) auto
  moreover have "last_time t (r # rs) = last_time now rs" by (simp add: last_time_def r)
  ultimately show ?case
    using paid(1) tf by (simp add: r acquire_def Cons.prems(1) Let_def algebra_simps)
qed

end
