(* ===== verification/Gateway.thy ===== *)
theory Gateway
  imports Sql
begin

text \<open>
  \<open>src/smara/local_gateway.py\<close>: the durable message ledger and the gateway that hands each message to
  a handler. The HTTP server and the outbound webhook adapter are not modelled.
\<close>

datatype gw_status = G_Pending | G_Retry | G_Delivered

record gw_event =
  g_key :: string
  g_event :: string
  g_channel :: string
  g_sender :: string
  g_text :: string
  g_session :: string
  g_status :: gw_status
  g_attempts :: int
  g_response :: "string option"
  g_error :: "string option"
  g_created :: time
  g_updated :: time

type_synonym ledger = "gw_event list"

section \<open>The ledger\<close>

definition nul :: string where
  "nul = [char_of (0 :: nat)]"

definition message_key :: "env \<Rightarrow> string \<Rightarrow> string \<Rightarrow> string \<Rightarrow> string option \<Rightarrow> string option \<Rightarrow> string" where
  "message_key e channel sender text session key =
     opt_or key (sha256 e (channel @ nul @ sender @ nul @ text @ nul @ opt_or session []))"

text \<open>\<open>INSERT OR IGNORE\<close>: the key is the primary key. The event's key is returned, cut to 160.\<close>

definition ingest ::
  "env \<Rightarrow> string \<Rightarrow> string \<Rightarrow> string \<Rightarrow> string option \<Rightarrow> string option \<Rightarrow> ledger \<Rightarrow> ledger \<times> string" where
  "ingest e channel sender text session key l =
     (let k = take 160 (message_key e channel sender text session key);
          row = \<lparr>g_key = k, g_event = ''evt_'' @ uuid e [0], g_channel = take 64 channel, g_sender = take 160 sender,
                 g_text = take 20000 text, g_session = take 160 (opt_or session (''gateway_'' @ sender)),
                 g_status = G_Pending, g_attempts = 0, g_response = None, g_error = None,
                 g_created = clk e 0, g_updated = clk e 0\<rparr>
      in (if k \<in> g_key ` set l then l else l @ [row], k))"

definition open_event :: "gw_event \<Rightarrow> bool" where
  "open_event g \<longleftrightarrow> g_status g \<in> {G_Pending, G_Retry}"

definition pending :: "int \<Rightarrow> ledger \<Rightarrow> gw_event list" where
  "pending limit l = take (nat (max 1 (min limit 200))) (sort_key g_created (filter open_event l))"

definition finish :: "time \<Rightarrow> string \<Rightarrow> string \<Rightarrow> ledger \<Rightarrow> ledger" where
  "finish now k response l =
     upd (\<lambda>g. g_key g = k) (\<lambda>g. g\<lparr>g_status := G_Delivered, g_response := Some (take 40000 response),
       g_attempts := g_attempts g + 1, g_updated := now, g_error := None\<rparr>) l"

definition fail_event :: "time \<Rightarrow> string \<Rightarrow> string \<Rightarrow> ledger \<Rightarrow> ledger" where
  "fail_event now k err l =
     upd (\<lambda>g. g_key g = k) (\<lambda>g. g\<lparr>g_status := G_Retry, g_attempts := g_attempts g + 1,
       g_error := Some (take 2000 err), g_updated := now\<rparr>) l"

section \<open>The gateway\<close>

datatype gw_result = Delivered string string | Already string | Retry string string

text \<open>
  The handler is a parameter: the text it returns for a message of a session, or the text of the
  exception it raises. The last component lists the keys it was called for.
\<close>

definition process ::
  "(string \<Rightarrow> string \<Rightarrow> string + string) \<Rightarrow> time \<Rightarrow> string \<Rightarrow> ledger \<Rightarrow> ledger \<times> gw_result \<times> string list" where
  "process handler now k l =
     (case filter (\<lambda>g. g_key g = k) (pending 50 l) of
        [] \<Rightarrow> (l, Already k, [])
      | row # _ \<Rightarrow>
          (case handler (g_text row) (g_session row) of
             Inr response \<Rightarrow> (finish now k response l, Delivered response k, [k])
           | Inl err \<Rightarrow> (fail_event now k err l, Retry err k, [k])))"

definition receive ::
  "env \<Rightarrow> (string \<Rightarrow> string \<Rightarrow> string + string) \<Rightarrow> string \<Rightarrow> string \<Rightarrow> string \<Rightarrow> string option \<Rightarrow> string option \<Rightarrow>
   ledger \<Rightarrow> ledger \<times> gw_result \<times> string list" where
  "receive e handler channel sender text session key l =
     (let (l, k) = ingest e channel sender text session key l in process handler (clk e 1) k l)"

fun process_all ::
  "(string \<Rightarrow> string \<Rightarrow> string + string) \<Rightarrow> (nat \<Rightarrow> time) \<Rightarrow> nat \<Rightarrow> string list \<Rightarrow> ledger \<Rightarrow>
   ledger \<times> gw_result list \<times> string list" where
  "process_all handler now n [] l = (l, [], [])"
| "process_all handler now n (k # ks) l =
     (let (l, r, called) = process handler (now n) k l;
          (l, rs, calls) = process_all handler now (Suc n) ks l
      in (l, r # rs, called @ calls))"

definition retry_pending ::
  "env \<Rightarrow> (string \<Rightarrow> string \<Rightarrow> string + string) \<Rightarrow> int \<Rightarrow> ledger \<Rightarrow> ledger \<times> gw_result list \<times> string list" where
  "retry_pending e handler limit l = process_all handler (clk e) 0 (map g_key (pending limit l)) l"

section \<open>Facts\<close>

definition delivered :: "ledger \<Rightarrow> string \<Rightarrow> bool" where
  "delivered l k \<longleftrightarrow> (\<exists>g \<in> set l. g_key g = k \<and> g_status g = G_Delivered)"

definition keys_unique :: "ledger \<Rightarrow> bool" where
  "keys_unique l \<longleftrightarrow> distinct (map g_key l)"

lemma pending_open: "g \<in> set (pending limit l) \<Longrightarrow> g \<in> set l \<and> open_event g"
  by (auto simp: pending_def dest: in_set_takeD)

lemma ingest_unique: "keys_unique l \<Longrightarrow> ingest e c s t ses key l = (l', k) \<Longrightarrow> keys_unique l'"
  by (auto simp: ingest_def keys_unique_def Let_def split: if_splits)

lemma finish_unique: "keys_unique l \<Longrightarrow> keys_unique (finish now k r l)"
  by (simp add: keys_unique_def finish_def map_upd)

lemma fail_unique: "keys_unique l \<Longrightarrow> keys_unique (fail_event now k r l)"
  by (simp add: keys_unique_def fail_event_def map_upd)

lemma delivered_closed:
  assumes "keys_unique l" and "delivered l k"
  shows "filter (\<lambda>g. g_key g = k) (pending limit l) = []"
proof -
  obtain d where d: "d \<in> set l" "g_key d = k" "g_status d = G_Delivered" using assms(2) by (auto simp: delivered_def)
  have "g_key g \<noteq> k" if "g \<in> set (pending limit l)" for g
  proof
    assume "g_key g = k"
    moreover have "g \<in> set l" "open_event g" using pending_open [OF that] by auto
    ultimately have "g = d" using assms(1) d by (auto simp: keys_unique_def dest: key_inj)
    then show False using \<open>open_event g\<close> d(3) by (simp add: open_event_def)
  qed
  then show ?thesis by (simp add: filter_empty_conv)
qed

lemma process_unique: "keys_unique l \<Longrightarrow> process handler now k l = (l', r, calls) \<Longrightarrow> keys_unique l'"
  by (auto simp: process_def finish_unique fail_unique split: list.splits sum.splits)

lemma process_delivered:
  assumes "keys_unique l" and "delivered l k" and "process handler now k' l = (l', r, calls)"
  shows "delivered l' k \<and> k \<notin> set calls"
proof (cases "k' = k")
  case True
  then show ?thesis using assms delivered_closed [OF assms(1,2)] by (simp add: process_def)
next
  case False
  have "delivered (upd (\<lambda>g. g_key g = k') f l) k" for f
    using assms(2) False by (force simp: delivered_def upd_def)
  then show ?thesis
    using assms False by (auto simp: process_def finish_def fail_event_def split: list.splits sum.splits)
qed

lemma ingest_delivered: "delivered l k \<Longrightarrow> ingest e c s t ses key l = (l', k') \<Longrightarrow> delivered l' k"
  by (auto simp: ingest_def delivered_def Let_def split: if_splits)

lemma process_all_delivered:
  "keys_unique l \<Longrightarrow> delivered l k \<Longrightarrow> process_all handler now n ks l = (l', rs, calls) \<Longrightarrow>
     keys_unique l' \<and> delivered l' k \<and> k \<notin> set calls"
proof (induction ks arbitrary: l l' n rs calls)
  case (Cons k' ks)
  obtain l1 r called where p: "process handler (now n) k' l = (l1, r, called)" by (cases "process handler (now n) k' l") auto
  obtain l2 rs' calls' where q: "process_all handler now (Suc n) ks l1 = (l2, rs', calls')"
    by (cases "process_all handler now (Suc n) ks l1") auto
  show ?case
    using Cons.IH [OF process_unique [OF Cons.prems(1) p] _ q] process_delivered [OF Cons.prems(1,2) p] Cons.prems(3) p q
    by auto
qed simp

text \<open>A message behind fifty older open ones is not among the rows \<open>process\<close> looks at.\<close>

lemma pending_window:
  assumes "g \<in> set (pending limit l)" and "0 < limit" and "limit \<le> 200"
  shows "length (filter (\<lambda>h. g_created h < g_created g) (filter open_event l)) < nat limit"
proof -
  let ?s = "sort_key g_created (filter open_event l)"
  have "g \<in> set (take (nat limit) ?s)" using assms by (simp add: pending_def)
  then obtain k where k: "k < nat limit" "k < length ?s" "?s ! k = g" by (auto simp: in_set_conv_nth)
  have sorted: "sorted (map g_created ?s)" by simp
  have "filter (\<lambda>h. g_created h < g_created g) ?s = filter (\<lambda>h. g_created h < g_created g) (take k ?s)"
  proof -
    have "filter (\<lambda>h. g_created h < g_created g) (drop k ?s) = []"
    proof (simp only: filter_empty_conv, intro ballI)
      fix h assume "h \<in> set (drop k ?s)"
      then obtain j where "j < length ?s - k" "?s ! (k + j) = h" by (auto simp: in_set_conv_nth)
      then have "g_created (?s ! k) \<le> g_created h"
        using sorted_nth_mono [OF sorted, of k "k + j"] by (auto simp: nth_map)
      then show "\<not> g_created h < g_created g" using k(3) by simp
    qed
    then show ?thesis by (metis append_Nil2 append_take_drop_id filter_append)
  qed
  then have "length (filter (\<lambda>h. g_created h < g_created g) ?s) \<le> k"
    by (metis length_filter_le length_take min.cobounded2 order_trans)
  moreover have "length (filter (\<lambda>h. g_created h < g_created g) ?s)
      = length (filter (\<lambda>h. g_created h < g_created g) (filter open_event l))"
    by (simp add: filter_sort)
  ultimately show ?thesis using k(1) by simp
qed

end
