(* ===== verification/LocalSchedule.thy ===== *)
theory LocalSchedule
  imports Sql
begin

text \<open>
  \<open>src/smara/local_scheduler.py\<close>: the SQLite scheduler of local deployments. \<open>tick\<close> claims the due
  rows in one transaction and runs the callback for each outside of it. The background thread is
  not modelled. Times are microseconds.
\<close>

record job =
  j_id :: string
  j_name :: string
  j_payload :: json
  j_interval :: int
  j_next :: time
  j_enabled :: bool
  j_running :: bool
  j_attempts :: int
  j_error :: "string option"
  j_updated :: time

definition add_job ::
  "env \<Rightarrow> string \<Rightarrow> json \<Rightarrow> int \<Rightarrow> string option \<Rightarrow> time option \<Rightarrow> job list \<Rightarrow> (job list \<times> job) result" where
  "add_job e name payload interval sid next_run js =
     (if strip name = [] \<or> \<not> (5 \<le> interval \<and> interval \<le> 31536000)
      then Inl (ValueError ''schedule name and interval are invalid'')
      else
        (let row = \<lparr>j_id = opt_or sid (''sched_'' @ uuid e [0]), j_name = take 160 name, j_payload = payload,
                    j_interval = interval, j_next = (case next_run of None \<Rightarrow> clk e 0 | Some t \<Rightarrow> t),
                    j_enabled = True, j_running = False, j_attempts = 0, j_error = None, j_updated = clk e 1\<rparr>
         in andThen (insert_unique j_id row js) (\<lambda>js. Inr (js, row))))"

definition list_jobs :: "job list \<Rightarrow> job list" where
  "list_jobs js = sort_key j_next js"

definition set_enabled :: "time \<Rightarrow> string \<Rightarrow> bool \<Rightarrow> job list \<Rightarrow> job list" where
  "set_enabled now sid b js = upd (\<lambda>j. j_id j = sid) (\<lambda>j. j\<lparr>j_enabled := b, j_running := False, j_updated := now\<rparr>) js"

definition remove_job :: "string \<Rightarrow> job list \<Rightarrow> job list" where
  "remove_job sid js = del (\<lambda>j. j_id j = sid) js"

definition due_job :: "time \<Rightarrow> job \<Rightarrow> bool" where
  "due_job now j \<longleftrightarrow> j_enabled j \<and> \<not> j_running j \<and> j_next j \<le> now"

text \<open>The claiming transaction: the rows as they were selected, and the table with them running.\<close>

definition claim_jobs :: "time \<Rightarrow> int \<Rightarrow> job list \<Rightarrow> job list \<times> job list" where
  "claim_jobs now limit js =
     (let rows = take (nat (max 1 (min limit 100))) (sort_key j_next (filter (due_job now) js))
      in (upd (\<lambda>j. j_id j \<in> j_id ` set rows)
            (\<lambda>j. j\<lparr>j_running := True, j_attempts := j_attempts j + 1, j_updated := now\<rparr>) js, rows))"

text \<open>The callback of the \<open>n\<close>-th claimed row: \<open>None\<close>, or the text of the exception it raised.\<close>

definition settle_job :: "time \<Rightarrow> time \<Rightarrow> string option \<Rightarrow> job \<Rightarrow> job list \<Rightarrow> job list" where
  "settle_job now t outcome item js =
     (case outcome of
        None \<Rightarrow> upd (\<lambda>j. j_id j = j_id item)
                  (\<lambda>j. j\<lparr>j_running := False, j_next := now + seconds (j_interval item), j_error := None, j_updated := t\<rparr>) js
      | Some err \<Rightarrow> upd (\<lambda>j. j_id j = j_id item)
                  (\<lambda>j. j\<lparr>j_running := False, j_next := now + seconds (min (j_interval item) 300),
                        j_error := Some (take 1000 err), j_updated := t\<rparr>) js)"

fun settle_jobs :: "(nat \<Rightarrow> job \<Rightarrow> string option) \<Rightarrow> (nat \<Rightarrow> time) \<Rightarrow> time \<Rightarrow> nat \<Rightarrow> job list \<Rightarrow> job list \<Rightarrow>
                    job list \<times> (job \<times> string option) list" where
  "settle_jobs cb t now n [] js = (js, [])"
| "settle_jobs cb t now n (item # rest) js =
     (let (js, out) = settle_jobs cb t now (Suc n) rest (settle_job now (t n) (cb n item) item js)
      in (js, (item, map_option (take 1000) (cb n item)) # out))"

text \<open>\<open>now or time.time()\<close>: a zero is replaced by the clock.\<close>

definition tick ::
  "env \<Rightarrow> (nat \<Rightarrow> job \<Rightarrow> string option) \<Rightarrow> time option \<Rightarrow> int \<Rightarrow> job list \<Rightarrow> job list \<times> (job \<times> string option) list" where
  "tick e cb at_time limit js =
     (let now = (case at_time of Some t \<Rightarrow> (if t = 0 then clk e 0 else t) | None \<Rightarrow> clk e 0);
          (js, claimed) = claim_jobs now limit js
      in settle_jobs cb (\<lambda>n. clk e (Suc n)) now 0 claimed js)"

section \<open>Facts\<close>

definition jobs_ok :: "job list \<Rightarrow> bool" where
  "jobs_ok js \<longleftrightarrow> distinct (map j_id js) \<and> (\<forall>i \<in> set (map j_interval js). 5 \<le> i)"

lemma settle_job_shape:
  "map j_id (settle_job now t o' item js) = map j_id js" "map j_interval (settle_job now t o' item js) = map j_interval js"
  by (auto simp: settle_job_def map_upd split: option.splits)

lemma settle_jobs_shape:
  "settle_jobs cb t now n rows js = (js', out) \<Longrightarrow> map j_id js' = map j_id js \<and> map j_interval js' = map j_interval js"
  by (induction rows arbitrary: n js js' out) (auto simp: settle_job_shape split: prod.splits)

lemma claim_jobs_shape:
  "claim_jobs now limit js = (js', rows) \<Longrightarrow> map j_id js' = map j_id js \<and> map j_interval js' = map j_interval js"
  by (auto simp: claim_jobs_def Let_def map_upd)

lemma jobs_ok_shape:
  "map j_id js' = map j_id js \<Longrightarrow> map j_interval js' = map j_interval js \<Longrightarrow> jobs_ok js' = jobs_ok js"
  unfolding jobs_ok_def by (simp only:)

text \<open>After the settlement no claimed row is running, and its next run lies ahead.\<close>

definition resting :: "time \<Rightarrow> job \<Rightarrow> bool" where
  "resting now j \<longleftrightarrow> \<not> j_running j \<and> now < j_next j"

lemma settle_job_rests:
  assumes "5 \<le> j_interval item" and "j \<in> set (settle_job now t o' item js)"
  shows "j_id j = j_id item \<Longrightarrow> resting now j" and "j_id j \<noteq> j_id item \<Longrightarrow> j \<in> set js"
proof -
  have "0 < seconds (j_interval item)" "0 < seconds (min (j_interval item) 300)" using assms(1) by (simp_all add: seconds_def)
  then obtain f where f: "settle_job now t o' item js = upd (\<lambda>j. j_id j = j_id item) f js"
      "\<And>x. resting now (f x)" "\<And>x. j_id (f x) = j_id x"
    by (cases o') (auto simp: settle_job_def resting_def)
  obtain x where x: "x \<in> set js" "j = (if j_id x = j_id item then f x else x)" using assms(2) f(1) by (auto simp: in_upd)
  show "j_id j = j_id item \<Longrightarrow> resting now j" using x(2) f(2,3) by (cases "j_id x = j_id item") simp_all
  show "j_id j \<noteq> j_id item \<Longrightarrow> j \<in> set js" using x f(3) by (cases "j_id x = j_id item") simp_all
qed

lemma settle_jobs_rest:
  assumes "settle_jobs cb t now n rows js = (js', out)" and "\<forall>r \<in> set rows. 5 \<le> j_interval r"
  shows "j \<in> set js' \<Longrightarrow> j_id j \<in> j_id ` set rows \<Longrightarrow> resting now j"
    and "j \<in> set js' \<Longrightarrow> j_id j \<notin> j_id ` set rows \<Longrightarrow> j \<in> set js"
proof -
  have "(j \<in> set js' \<longrightarrow> j_id j \<in> j_id ` set rows \<longrightarrow> resting now j) \<and>
        (j \<in> set js' \<longrightarrow> j_id j \<notin> j_id ` set rows \<longrightarrow> j \<in> set js)"
    using assms
  proof (induction rows arbitrary: n js out)
    case (Cons item rows)
    obtain out' where s: "settle_jobs cb t now (Suc n) rows (settle_job now (t n) (cb n item) item js) = (js', out')"
      using Cons.prems(1) by (auto split: prod.splits)
    note IH = Cons.IH [OF s]
    have iv: "5 \<le> j_interval item" "\<forall>r \<in> set rows. 5 \<le> j_interval r" using Cons.prems(2) by auto
    show ?case
    proof (intro conjI impI)
      assume j: "j \<in> set js'" "j_id j \<in> j_id ` set (item # rows)"
      show "resting now j"
      proof (cases "j_id j \<in> j_id ` set rows")
        case True
        then show ?thesis using IH iv(2) j(1) by blast
      next
        case False
        then have "j \<in> set (settle_job now (t n) (cb n item) item js)" using IH iv(2) j(1) by blast
        moreover have "j_id j = j_id item" using j(2) False by auto
        ultimately show ?thesis using settle_job_rests(1) [OF iv(1)] by blast
      qed
    next
      assume j: "j \<in> set js'" "j_id j \<notin> j_id ` set (item # rows)"
      then have "j \<in> set (settle_job now (t n) (cb n item) item js)" using IH iv(2) by auto
      then show "j \<in> set js" using settle_job_rests(2) [OF iv(1)] j(2) by auto
    qed
  qed simp
  then show "j \<in> set js' \<Longrightarrow> j_id j \<in> j_id ` set rows \<Longrightarrow> resting now j"
    "j \<in> set js' \<Longrightarrow> j_id j \<notin> j_id ` set rows \<Longrightarrow> j \<in> set js" by blast+
qed

lemma claimed_due: "claim_jobs now limit js = (js', rows) \<Longrightarrow> r \<in> set rows \<Longrightarrow> r \<in> set js \<and> due_job now r"
  by (auto simp: claim_jobs_def Let_def dest!: in_set_takeD)

end
