(* ===== verification/Admission.thy ===== *)
theory Admission
  imports Sql
begin

text \<open>
  Admission limits. \<open>src/smara/native_admission.py\<close>: leases and a request window shared by the
  processes that call a provider. \<open>src/smara/hardening.py\<close>: the fixed-window API limiters, local and
  on Redis. Threads, sockets and the HTTP client are not modelled.
\<close>

section \<open>Provider admission\<close>

record prov_lease =
  pv_id :: string
  pv_provider :: string
  pv_expires :: time

record prov_request =
  rq_provider :: string
  rq_created :: time

record admission =
  ad_leases :: "prov_lease list"
  ad_requests :: "prov_request list"

record limits =
  lm_concurrent :: int
  lm_per_minute :: int
  lm_wait :: int
  lm_lease :: int

definition valid_limits :: "limits \<Rightarrow> bool" where
  "valid_limits c \<longleftrightarrow> 1 \<le> lm_concurrent c \<and> 1 \<le> lm_per_minute c \<and> 0 \<le> lm_wait c \<and> 1 \<le> lm_lease c"

text \<open>The transaction of one attempt: drop what has expired, count, and insert when there is room.\<close>

definition expire :: "time \<Rightarrow> admission \<Rightarrow> admission" where
  "expire now s = \<lparr>ad_leases = del (\<lambda>l. pv_expires l \<le> now) (ad_leases s),
                   ad_requests = del (\<lambda>r. rq_created r \<le> now - seconds 60) (ad_requests s)\<rparr>"

definition active :: "string \<Rightarrow> admission \<Rightarrow> int" where
  "active p s = int (rowcount (\<lambda>l. pv_provider l = p) (ad_leases s))"

definition recent :: "string \<Rightarrow> admission \<Rightarrow> int" where
  "recent p s = int (rowcount (\<lambda>r. rq_provider r = p) (ad_requests s))"

definition try_admit :: "limits \<Rightarrow> string \<Rightarrow> string \<Rightarrow> time \<Rightarrow> admission \<Rightarrow> admission \<times> bool" where
  "try_admit c p ident now s =
     (let s = expire now s
      in if active p s < lm_concurrent c \<and> recent p s < lm_per_minute c
         then (\<lparr>ad_leases = ad_leases s @ [\<lparr>pv_id = ident, pv_provider = p, pv_expires = now + seconds (lm_lease c)\<rparr>],
                ad_requests = ad_requests s @ [\<lparr>rq_provider = p, rq_created = now\<rparr>]\<rparr>, True)
         else (s, False))"

text \<open>
  \<open>acquire\<close>: the attempts, each with what it observes: whether the caller cancelled, the clock, and
  whether the deadline has passed. An exhausted list means the call is still waiting.
\<close>

datatype admitted = Admitted string | Cancelled_Before | No_Capacity | Waiting

fun acquire_loop :: "limits \<Rightarrow> string \<Rightarrow> string \<Rightarrow> (bool \<times> time \<times> bool) list \<Rightarrow> admission \<Rightarrow> admission \<times> admitted" where
  "acquire_loop c p ident [] s = (s, Waiting)"
| "acquire_loop c p ident ((cancelled, now, late) # rest) s =
     (if cancelled then (s, Cancelled_Before)
      else
        (let (s, ok) = try_admit c p ident now s
         in if ok then (s, Admitted ident)
            else if late then (s, No_Capacity)
            else acquire_loop c p ident rest s))"

definition release_slot :: "string \<Rightarrow> string \<Rightarrow> admission \<Rightarrow> admission" where
  "release_slot p ident s = s\<lparr>ad_leases := del (\<lambda>l. pv_id l = ident \<and> pv_provider l = p) (ad_leases s)\<rparr>"

definition renew_slot :: "limits \<Rightarrow> string \<Rightarrow> string \<Rightarrow> time \<Rightarrow> admission \<Rightarrow> admission" where
  "renew_slot c p ident now s =
     s\<lparr>ad_leases := upd (\<lambda>l. pv_id l = ident \<and> pv_provider l = p) (\<lambda>l. l\<lparr>pv_expires := now + seconds (lm_lease c)\<rparr>) (ad_leases s)\<rparr>"

definition within_limits :: "limits \<Rightarrow> string \<Rightarrow> admission \<Rightarrow> bool" where
  "within_limits c p s \<longleftrightarrow> active p s \<le> lm_concurrent c \<and> recent p s \<le> lm_per_minute c"

lemma rowcount_del_le: "rowcount P (del Q t) \<le> rowcount P t"
  by (induction t) (auto simp: rowcount_def del_def)

lemma rowcount_upd_same: "(\<And>r. P (f r) = P r) \<Longrightarrow> rowcount P (upd Q f t) = rowcount P t"
  by (induction t) (auto simp: rowcount_def)

lemma fewer_rows:
  "active p (s\<lparr>ad_leases := del Q (ad_leases s)\<rparr>) \<le> active p s"
  "recent p (s\<lparr>ad_requests := del R (ad_requests s)\<rparr>) \<le> recent p s"
  by (simp_all add: active_def recent_def rowcount_del_le)

lemma expire_within:
  assumes "within_limits c p s"
  shows "within_limits c p (expire now s)"
proof -
  have "active p (expire now s) \<le> active p s" "recent p (expire now s) \<le> recent p s"
    by (simp_all add: active_def recent_def expire_def rowcount_del_le)
  then show ?thesis using assms unfolding within_limits_def by linarith
qed

lemma try_admit_within: "try_admit c p ident now s = (s', ok) \<Longrightarrow> within_limits c p s \<Longrightarrow> within_limits c p s'"
  using expire_within [of c p s now]
  by (auto simp: try_admit_def within_limits_def active_def recent_def rowcount_def Let_def split: if_splits)

lemma acquire_loop_within: "acquire_loop c p ident obs s = (s', r) \<Longrightarrow> within_limits c p s \<Longrightarrow> within_limits c p s'"
proof (induction c p ident obs s rule: acquire_loop.induct)
  case (2 c p ident cancelled now late rest s)
  obtain s1 ok where t: "try_admit c p ident now s = (s1, ok)" by (cases "try_admit c p ident now s")
  show ?case using 2 t try_admit_within [OF t] by (auto split: if_splits)
qed simp

text \<open>One operation on the shared database by any of the processes with the same configuration.\<close>

inductive admission_move :: "limits \<Rightarrow> string \<Rightarrow> admission \<Rightarrow> admission \<Rightarrow> bool" for c p where
  acquired: "acquire_loop c p ident obs s = (s', r) \<Longrightarrow> admission_move c p s s'"
| released: "admission_move c p s (release_slot p ident s)"
| renewed: "admission_move c p s (renew_slot c p ident now s)"

definition no_admissions :: admission where
  "no_admissions = \<lparr>ad_leases = [], ad_requests = []\<rparr>"

lemma admission_keeps: "valid_limits c \<Longrightarrow> reach (admission_move c p) no_admissions s \<Longrightarrow> within_limits c p s"
proof -
  assume valid: "valid_limits c"
  have step: "within_limits c p t" if "within_limits c p s" "admission_move c p s t" for s t
    using that(2,1)
  proof cases
    case acquired
    then show ?thesis using that(1) acquire_loop_within by blast
  next
    case (released ident)
    then show ?thesis
      using that(1) fewer_rows(1) [where p = p and s = s and Q = "\<lambda>l. pv_id l = ident \<and> pv_provider l = p"]
      unfolding within_limits_def release_slot_def by (simp add: recent_def)
  next
    case (renewed ident now)
    then show ?thesis using that(1) by (simp add: within_limits_def renew_slot_def active_def recent_def rowcount_upd_same)
  qed
  show "reach (admission_move c p) no_admissions s \<Longrightarrow> within_limits c p s"
  proof (induction rule: reach.induct)
    case start
    show ?case using valid by (simp add: within_limits_def no_admissions_def active_def recent_def rowcount_def valid_limits_def)
  next
    case more
    then show ?case using step by blast
  qed
qed

section \<open>The local window limiter\<close>

text \<open>\<open>deque\<close>s of the times of the admitted calls, per key; \<open>limit\<close> is \<open>max(1, limit)\<close>.\<close>

fun drop_old :: "time \<Rightarrow> time list \<Rightarrow> time list" where
  "drop_old now [] = []"
| "drop_old now (t # ts) = (if t \<le> now - seconds 60 then drop_old now ts else t # ts)"

definition allow :: "int \<Rightarrow> string \<Rightarrow> time \<Rightarrow> (string \<Rightarrow> time list) \<Rightarrow> (string \<Rightarrow> time list) \<times> bool" where
  "allow limit key now hits =
     (let values = drop_old now (hits key)
      in if int (length values) \<ge> max 1 limit then (hits(key := values), False)
         else (hits(key := values @ [now]), True))"

section \<open>The Redis window limiter\<close>

datatype verdict_of_limit = Allowed | Refused | Limiter_Error string

text \<open>
  Redis holds a counter per minute and key. \<open>fault\<close> is an exception of the Redis client. The expiry
  of a counter after 61 seconds never affects the minute it counts.
\<close>

definition redis_allow ::
  "bool \<Rightarrow> bool \<Rightarrow> int \<Rightarrow> string option \<Rightarrow> string \<Rightarrow> time \<Rightarrow> time \<Rightarrow>
   (int \<times> string \<Rightarrow> int) \<times> (string \<Rightarrow> time list) \<Rightarrow>
   ((int \<times> string \<Rightarrow> int) \<times> (string \<Rightarrow> time list)) \<times> verdict_of_limit" where
  "redis_allow has_url fallback limit fault key now local_now = (\<lambda>(counts, hits).
     let local = (let (hits, ok) = allow limit key local_now hits in ((counts, hits), if ok then Allowed else Refused))
     in if \<not> has_url then
          (if fallback then local
           else ((counts, hits), Limiter_Error ''SMARA_REDIS_URL is required for production distributed rate limiting.''))
        else case fault of
          Some err \<Rightarrow> (if fallback then local else ((counts, hits), Limiter_Error err))
        | None \<Rightarrow>
            (let minute = (now div seconds 60, key); counts = counts(minute := counts minute + 1)
             in ((counts, hits), if counts minute \<le> max 1 limit then Allowed else Refused)))"

section \<open>At most \<open>limit\<close> calls in any minute\<close>

text \<open>The times admitted for one key by a sequence of calls.\<close>

fun admitted_times :: "int \<Rightarrow> string \<Rightarrow> time list \<Rightarrow> (string \<Rightarrow> time list) \<Rightarrow> time list" where
  "admitted_times limit key [] hits = []"
| "admitted_times limit key (now # rest) hits =
     (let (hits', ok) = allow limit key now hits
      in (if ok then [now] else []) @ admitted_times limit key rest hits')"

lemma drop_old_filter: "sorted ts \<Longrightarrow> drop_old now ts = filter (\<lambda>t. now - seconds 60 < t) ts"
proof (induction ts)
  case (Cons t ts)
  have "filter ((<) (now - seconds 60)) ts = ts" if "now - seconds 60 < t"
    using that Cons.prems by (force simp: filter_id_conv)
  with Cons show ?case by (cases "t \<le> now - seconds 60") simp_all
qed simp

text \<open>The window of the log: of all admitted times up to now, the deque keeps the last minute's.\<close>

lemma allow_log:
  assumes "sorted hist" and "\<forall>t \<in> set hist. t \<le> now" and "hits key = filter (\<lambda>t. old < t) hist"
    and "old \<le> now - seconds 60" and "allow limit key now hits = (hits', ok)"
  shows "hits' key = filter (\<lambda>t. now - seconds 60 < t) (hist @ (if ok then [now] else []))"
    and "ok \<Longrightarrow> int (length (filter (\<lambda>t. now - seconds 60 < t) (hist @ [now]))) \<le> max 1 limit"
proof -
  have "sorted (hits key)" using assms(1,3) by (simp add: sorted_wrt_filter)
  then have "drop_old now (hits key) = filter (\<lambda>t. now - seconds 60 < t) (hits key)" by (rule drop_old_filter)
  also have "\<dots> = filter (\<lambda>t. now - seconds 60 < t) hist"
    unfolding assms(3) filter_filter using assms(4) by (intro filter_cong) auto
  finally have d: "drop_old now (hits key) = filter (\<lambda>t. now - seconds 60 < t) hist" .
  show "hits' key = filter (\<lambda>t. now - seconds 60 < t) (hist @ (if ok then [now] else []))"
    using assms(5) d by (auto simp: allow_def Let_def seconds_def split: if_splits)
  show "ok \<Longrightarrow> int (length (filter (\<lambda>t. now - seconds 60 < t) (hist @ [now]))) \<le> max 1 limit"
    using assms(5) d by (auto simp: allow_def Let_def split: if_splits)
qed

definition in_window :: "time \<Rightarrow> time list \<Rightarrow> int" where
  "in_window t hist = int (length (filter (\<lambda>u. t - seconds 60 < u \<and> u \<le> t) hist))"

lemma window_bound:
  assumes "sorted (hist @ calls)" and "hits key = filter (\<lambda>t. old < t) hist"
    and "\<forall>now \<in> set calls. old \<le> now - seconds 60" and "\<forall>t. in_window t hist \<le> max 1 limit"
  shows "in_window t (hist @ admitted_times limit key calls hits) \<le> max 1 limit"
  using assms
proof (induction calls arbitrary: hist hits old)
  case Nil
  then show ?case by simp
next
  case (Cons now rest)
  obtain hits' ok where a: "allow limit key now hits = (hits', ok)" by (cases "allow limit key now hits")
  define hist' where "hist' = hist @ (if ok then [now] else [])"
  have le: "\<forall>t \<in> set hist. t \<le> now" "sorted hist" using Cons.prems(1) by (auto simp: sorted_append)
  have old: "old \<le> now - seconds 60" using Cons.prems(3) by simp
  note A = allow_log [OF le(2,1) Cons.prems(2) old a]
  have bound: "in_window u hist' \<le> max 1 limit" for u
  proof (cases "ok \<and> now \<le> u")
    case False
    then have "in_window u hist' = in_window u hist" by (auto simp: hist'_def in_window_def)
    then show ?thesis using Cons.prems(4) by simp
  next
    case True
    have "filter (\<lambda>v. u - seconds 60 < v \<and> v \<le> u) hist' = filter (\<lambda>v. u - seconds 60 < v \<and> v \<le> u) (filter (\<lambda>v. now - seconds 60 < v) hist')"
      unfolding filter_filter using True by (intro filter_cong) auto
    then have "in_window u hist' \<le> int (length (filter (\<lambda>v. now - seconds 60 < v) hist'))"
      unfolding in_window_def by (metis length_filter_le of_nat_le_iff)
    also have "\<dots> \<le> max 1 limit" using A(2) True by (simp add: hist'_def)
    finally show ?thesis .
  qed
  have "in_window t (hist' @ admitted_times limit key rest hits') \<le> max 1 limit"
  proof (rule Cons.IH)
    show "sorted (hist' @ rest)" using Cons.prems(1) by (auto simp: hist'_def sorted_append)
    show "hits' key = filter (\<lambda>t. now - seconds 60 < t) hist'" using A(1) by (simp add: hist'_def)
    show "\<forall>n \<in> set rest. now - seconds 60 \<le> n - seconds 60" using Cons.prems(1) by (auto simp: sorted_append)
    show "\<forall>u. in_window u hist' \<le> max 1 limit" using bound by blast
  qed
  then show ?case using a by (simp add: hist'_def)
qed

end
