(* ===== verification/RuntimeSession.thy ===== *)
theory RuntimeSession
  imports Sql
begin

text \<open>
  \<open>src/smara/runtime_session.py\<close>: the restart-safe ledger of agent sessions. A session row carries the
  current status, result and cancellation flag; its events are numbered by the row's \<open>revision\<close> and
  only the newest \<open>max_events\<close> are kept. The tables of the turn protocol are in the same database and are
  declared here because \<open>checkpoint\<close> reads one of them. The migration of old files is not modelled.
\<close>

section \<open>Tables\<close>

datatype session_status = Created | Running | Waiting | Completed | Failed | Cancelled | Needs_Input

record session =
  ss_id :: string
  ss_workspace :: string
  ss_account :: string
  ss_mode :: string
  ss_status :: session_status
  ss_request :: string
  ss_model :: "string option"
  ss_tools :: "string option"
  ss_research :: "string option"
  ss_result :: json
  ss_unresolved :: "string list"
  ss_created :: time
  ss_updated :: time
  ss_revision :: int
  ss_cancel :: bool
  ss_reason :: "string option"

record session_event =
  se_session :: string
  se_sequence :: int
  se_kind :: string
  se_payload :: json
  se_created :: time

record pturn =
  pt_id :: string
  pt_thread :: string
  pt_status :: session_status
  pt_created :: time
  pt_ended :: "time option"
  pt_owner :: "int option"

datatype item_status = I_Running | I_Completed | I_Failed | I_Cancelled

record pitem =
  pi_id :: string
  pi_turn :: string
  pi_kind :: string
  pi_status :: item_status
  pi_payload :: json

record pevent =
  pe_sequence :: int
  pe_thread :: string
  pe_turn :: string
  pe_kind :: string
  pe_payload :: json
  pe_created :: time

datatype decision = D_Pending | D_Allow | D_Deny | D_Expired

record papproval =
  pa_id :: string
  pa_turn :: string
  pa_item :: string
  pa_sha :: string
  pa_action :: json
  pa_decision :: decision
  pa_created :: time

text \<open>\<open>last_seq\<close> is the AUTOINCREMENT counter of \<open>protocol_events\<close>.\<close>

record sdb =
  sessions :: "session list"
  sevents :: "session_event list"
  pturns :: "pturn list"
  pitems :: "pitem list"
  pevents :: "pevent list"
  papprovals :: "papproval list"
  last_seq :: int

definition empty_sdb :: sdb where
  "empty_sdb = \<lparr>sessions = [], sevents = [], pturns = [], pitems = [], pevents = [], papprovals = [], last_seq = 0\<rparr>"

definition active_status :: "session_status \<Rightarrow> bool" where
  "active_status st \<longleftrightarrow> st \<in> {Running, Waiting}"

definition terminal_status :: "session_status \<Rightarrow> bool" where
  "terminal_status st \<longleftrightarrow> st \<in> {Completed, Failed, Cancelled, Needs_Input}"

text \<open>The text of a status, with the aliases of \<open>SESSION_STATUS_ALIASES\<close>.\<close>

definition parse_status :: "string \<Rightarrow> session_status option" where
  "parse_status s =
     map_of [(''created'', Created), (''running'', Running), (''waiting_approval'', Waiting), (''completed'', Completed),
             (''failed'', Failed), (''cancelled'', Cancelled), (''needs_input'', Needs_Input),
             (''budget_exhausted'', Failed), (''tool_error'', Failed), (''provider_error'', Failed),
             (''interrupted'', Failed)] s"

fun show_status :: "session_status \<Rightarrow> string" where
  "show_status Created = ''created''"
| "show_status Running = ''running''"
| "show_status Waiting = ''waiting_approval''"
| "show_status Completed = ''completed''"
| "show_status Failed = ''failed''"
| "show_status Cancelled = ''cancelled''"
| "show_status Needs_Input = ''needs_input''"

section \<open>Reading\<close>

abbreviation session_at :: "string \<Rightarrow> sdb \<Rightarrow> session option" where
  "session_at sid db \<equiv> fetchone (filter (\<lambda>s. ss_id s = sid) (sessions db))"

text \<open>
  \<open>_row_to_session\<close> with \<open>RuntimeSession.__post_init__\<close>: the envelope of a row. \<open>latest\<close> is the payload of
  the newest \<open>turn.started\<close> event where the query selects it. Rows are written with a positive clock
  and a status of the seven, so the defaults for other values are never taken.
\<close>

definition row_to_session :: "(json \<Rightarrow> string) \<Rightarrow> json option \<Rightarrow> session \<Rightarrow> session result" where
  "row_to_session show latest s =
     (if strip (ss_id s) = [] then Inl (ValueError ''session_id is required'')
      else
        (let text = (case latest of None \<Rightarrow> [] | Some j \<Rightarrow> text_or_empty show (jget ''request'' j));
             request = (if text \<noteq> [] \<and> \<not> starts_with (ss_request s) text then text else ss_request s)
         in Inr (s\<lparr>ss_id := take 160 (strip (ss_id s)), ss_workspace := take 512 (or_text (ss_workspace s) ''default''),
                   ss_account := take 256 (or_text (ss_account s) ''local''), ss_mode := take 64 (or_text (ss_mode s) ''local''),
                   ss_request := request, ss_reason := map_option (take 500) (ss_reason s)\<rparr>)))"

definition latest_turn :: "string \<Rightarrow> sdb \<Rightarrow> json option" where
  "latest_turn sid db =
     map_option se_payload (fetchone (sort_key (\<lambda>v. - se_sequence v)
       (filter (\<lambda>v. se_session v = sid \<and> se_kind v = ''turn.started'') (sevents db))))"

text \<open>\<open>get\<close>: \<open>None\<close> for an unknown session; \<open>Inl\<close> when the envelope of the row cannot be built.\<close>

definition get_session :: "(json \<Rightarrow> string) \<Rightarrow> string \<Rightarrow> sdb \<Rightarrow> session option result" where
  "get_session show sid db =
     (case session_at sid db of
        None \<Rightarrow> Inr None
      | Some s \<Rightarrow> andThen (row_to_session show (latest_turn sid db) s) (\<lambda>x. Inr (Some x)))"

fun all_ok :: "'a result list \<Rightarrow> 'a list result" where
  "all_ok [] = Inr []"
| "all_ok (r # rs) = andThen r (\<lambda>x. andThen (all_ok rs) (\<lambda>xs. Inr (x # xs)))"

definition list_sessions :: "(json \<Rightarrow> string) \<Rightarrow> string option \<Rightarrow> int \<Rightarrow> sdb \<Rightarrow> session list result" where
  "list_sessions show ws limit db =
     all_ok (map (\<lambda>s. row_to_session show (latest_turn (ss_id s) db) s)
       (take (nat (max 1 (min limit 500)))
         (sort_key (\<lambda>s. - ss_updated s) (filter (\<lambda>s. case ws of None \<Rightarrow> True | Some w \<Rightarrow> ss_workspace s = w) (sessions db)))))"

definition session_events :: "int \<Rightarrow> string \<Rightarrow> int \<Rightarrow> int \<Rightarrow> sdb \<Rightarrow> session_event list" where
  "session_events cap sid after limit db =
     take (nat (max 1 (min limit cap)))
       (sort_key se_sequence (filter (\<lambda>v. se_session v = sid \<and> se_sequence v > max 0 after) (sevents db)))"

definition should_cancel :: "(json \<Rightarrow> string) \<Rightarrow> string \<Rightarrow> sdb \<Rightarrow> bool result" where
  "should_cancel show sid db =
     andThen (get_session show sid db) (\<lambda>x. Inr (case x of None \<Rightarrow> False | Some s \<Rightarrow> ss_cancel s))"

definition first_sequence :: "string \<Rightarrow> sdb \<Rightarrow> int" where
  "first_sequence sid db =
     (case map se_sequence (filter (\<lambda>v. se_session v = sid) (sevents db)) of [] \<Rightarrow> 0 | n # ns \<Rightarrow> fold min ns n)"

section \<open>Creating sessions and turns\<close>

text \<open>
  \<open>create_or_get\<close> commits the inserted row before it builds the envelope, so the table changes even
  when the envelope is refused.
\<close>

record envelope =
  en_request :: string
  en_workspace :: string
  en_account :: string
  en_mode :: string
  en_model :: "string option"
  en_tools :: "string option"
  en_research :: "string option"

definition create_or_get ::
  "(json \<Rightarrow> string) \<Rightarrow> env \<Rightarrow> string option \<Rightarrow> envelope \<Rightarrow> sdb \<Rightarrow> sdb \<times> session result" where
  "create_or_get show e sid en db =
     (let sid = take 160 (opt_or sid (''session_'' @ uuid e [0])); now = clk e 0;
          row = \<lparr>ss_id = sid, ss_workspace = take 512 (or_text (en_workspace en) ''default''),
                 ss_account = take 256 (or_text (en_account en) ''local''), ss_mode = take 64 (or_text (en_mode en) ''local''),
                 ss_status = Created, ss_request = en_request en, ss_model = en_model en, ss_tools = en_tools en,
                 ss_research = en_research en, ss_result = JObj [], ss_unresolved = [], ss_created = now,
                 ss_updated = now, ss_revision = 0, ss_cancel = False, ss_reason = None\<rparr>;
          db = (if sid \<in> ss_id ` set (sessions db) then db else db\<lparr>sessions := sessions db @ [row]\<rparr>)
      in (db, case session_at sid db of
                None \<Rightarrow> Inl (RuntimeError ''runtime session could not be created'')
              | Some s \<Rightarrow> row_to_session show None s))"

definition start_turn ::
  "(json \<Rightarrow> string) \<Rightarrow> env \<Rightarrow> string option \<Rightarrow> envelope \<Rightarrow> sdb \<Rightarrow> sdb \<times> session result" where
  "start_turn show e sid en db =
     (let (db, r) = create_or_get show e sid en db
      in case r of
           Inl x \<Rightarrow> (db, Inl x)
         | Inr session \<Rightarrow>
             (let sid = ss_id session;
                  db = db\<lparr>sessions := upd (\<lambda>s. ss_id s = sid)
                    (\<lambda>s. s\<lparr>ss_workspace := take 512 (or_text (en_workspace en) ''default''),
                           ss_account := take 256 (or_text (en_account en) ''local''),
                           ss_mode := take 64 (or_text (en_mode en) ''local''), ss_status := Created,
                           ss_request := en_request en, ss_model := en_model en, ss_tools := en_tools en,
                           ss_research := en_research en, ss_result := JObj [], ss_unresolved := [],
                           ss_cancel := False, ss_reason := None, ss_updated := clk e 1\<rparr>) (sessions db)\<rparr>
              in (db, case session_at sid db of
                        None \<Rightarrow> Inl (RuntimeError ''runtime session disappeared while starting a turn'')
                      | Some s \<Rightarrow> row_to_session show None s)))"

section \<open>Events\<close>

text \<open>
  The three writers of an event insert it under the next revision and drop what is older than the
  newest \<open>cap\<close> revisions. The pair of session and sequence is UNIQUE.
\<close>

definition log_event :: "int \<Rightarrow> string \<Rightarrow> int \<Rightarrow> string \<Rightarrow> json \<Rightarrow> time \<Rightarrow> sdb \<Rightarrow> sdb result" where
  "log_event cap sid seq kind payload now db =
     andThen (insert_unique (\<lambda>v. (se_session v, se_sequence v))
                \<lparr>se_session = sid, se_sequence = seq, se_kind = kind, se_payload = payload, se_created = now\<rparr> (sevents db))
       (\<lambda>rows. Inr (db\<lparr>sevents := del (\<lambda>v. se_session v = sid \<and> se_sequence v \<le> max 0 (seq - cap)) rows\<rparr>))"

definition append_session_event ::
  "int \<Rightarrow> time \<Rightarrow> string \<Rightarrow> string \<Rightarrow> json \<Rightarrow> sdb \<Rightarrow> (sdb \<times> int) result" where
  "append_session_event cap now sid kind payload db =
     (let kind = take 120 (strip (or_text kind ''event''))
      in if kind = [] then Inl (ValueError ''event kind is required'')
         else case session_at sid db of
                None \<Rightarrow> Inl (KeyError sid)
              | Some row \<Rightarrow>
                  (let seq = ss_revision row + 1
                   in andThen (log_event cap sid seq kind payload now db)
                        (\<lambda>db. Inr (db\<lparr>sessions := upd (\<lambda>s. ss_id s = sid)
                                  (\<lambda>s. s\<lparr>ss_revision := seq, ss_updated := now\<rparr>) (sessions db)\<rparr>, seq))))"

section \<open>Checkpoints and cancellation\<close>

record patch =
  pc_status :: "string option"
  pc_result :: "json option"
  pc_unresolved :: "string list option"
  pc_model :: "string option"
  pc_tools :: "string option"
  pc_research :: "string option"
  pc_event :: "string option"
  pc_payload :: json
  pc_turn :: "string option"

definition no_patch :: patch where
  "no_patch = \<lparr>pc_status = None, pc_result = None, pc_unresolved = None, pc_model = None, pc_tools = None,
               pc_research = None, pc_event = None, pc_payload = JObj [], pc_turn = None\<rparr>"

text \<open>The turn the writer holds is stale when it is not the newest of its thread or has ended.\<close>

definition stale_turn :: "string \<Rightarrow> string option \<Rightarrow> sdb \<Rightarrow> bool" where
  "stale_turn sid turn db =
     (case turn of
        None \<Rightarrow> False
      | Some t \<Rightarrow>
          (case fetchone (sort_key (\<lambda>x. - pt_created x) (filter (\<lambda>x. pt_thread x = sid) (pturns db))) of
             None \<Rightarrow> True
           | Some latest \<Rightarrow> pt_id latest \<noteq> t \<or> \<not> active_status (pt_status latest)))"

definition coalesced :: "string option \<Rightarrow> string option \<Rightarrow> string option" where
  "coalesced new old = (case new of None \<Rightarrow> old | Some _ \<Rightarrow> new)"

text \<open>What a checkpoint writes into the row: a requested cancellation wins over any other status.\<close>

definition checkpointed :: "patch \<Rightarrow> session_status option \<Rightarrow> time \<Rightarrow> session \<Rightarrow> session" where
  "checkpointed pc st now row =
     (let next = (case st of None \<Rightarrow> ss_status row | Some x \<Rightarrow> x);
          unresolved = (case pc_unresolved pc of None \<Rightarrow> ss_unresolved row | Some xs \<Rightarrow> map (take 500) xs);
          overruled = ss_cancel row \<and> next \<noteq> Cancelled;
          reason = take 500 (opt_or (ss_reason row) ''cancelled by user'')
      in row\<lparr>ss_status := (if overruled then Cancelled else next),
             ss_result := (case pc_result pc of None \<Rightarrow> ss_result row | Some r \<Rightarrow> r),
             ss_unresolved := (if overruled \<and> reason \<notin> set unresolved then unresolved @ [reason] else unresolved),
             ss_model := coalesced (pc_model pc) (ss_model row), ss_tools := coalesced (pc_tools pc) (ss_tools row),
             ss_research := coalesced (pc_research pc) (ss_research row), ss_updated := now\<rparr>)"

definition checkpoint_event :: "patch \<Rightarrow> session_status option \<Rightarrow> session \<Rightarrow> string option" where
  "checkpoint_event pc st row =
     (let next = (case st of None \<Rightarrow> ss_status row | Some x \<Rightarrow> x)
      in case pc_event pc of
           None \<Rightarrow> None
         | Some ev \<Rightarrow>
             if ev = [] then None
             else if ss_cancel row \<and> next \<noteq> Cancelled \<and> \<not> ends_with ev ''cancelled'' then Some ''turn.cancelled''
             else Some ev)"

text \<open>
  A transaction is rolled back when its body raises; the envelope is built after it is committed, so a
  refused envelope does not undo the write.
\<close>

definition commit :: "sdb \<Rightarrow> sdb result \<Rightarrow> (sdb \<Rightarrow> 'a result) \<Rightarrow> sdb \<times> 'a result" where
  "commit db r f = (case r of Inl x \<Rightarrow> (db, Inl x) | Inr db' \<Rightarrow> (db', f db'))"

definition envelope_of :: "(json \<Rightarrow> string) \<Rightarrow> string \<Rightarrow> string \<Rightarrow> sdb \<Rightarrow> session result" where
  "envelope_of show what sid db =
     (case session_at sid db of
        None \<Rightarrow> Inl (RuntimeError (''runtime session disappeared during '' @ what))
      | Some s \<Rightarrow> row_to_session show None s)"

definition checkpoint_rows :: "int \<Rightarrow> time \<Rightarrow> string \<Rightarrow> patch \<Rightarrow> session_status option \<Rightarrow> session \<Rightarrow> sdb \<Rightarrow> sdb result" where
  "checkpoint_rows cap now sid pc st row db =
     (let db = db\<lparr>sessions := upd (\<lambda>s. ss_id s = sid) (checkpointed pc st now) (sessions db)\<rparr>
      in case checkpoint_event pc st row of
           None \<Rightarrow> Inr db
         | Some ev \<Rightarrow>
             (let rev = ss_revision row + 1
              in log_event cap sid rev (take 120 ev) (pc_payload pc) now
                   (db\<lparr>sessions := upd (\<lambda>s. ss_id s = sid) (\<lambda>s. s\<lparr>ss_revision := rev\<rparr>) (sessions db)\<rparr>)))"

definition checkpoint :: "(json \<Rightarrow> string) \<Rightarrow> int \<Rightarrow> time \<Rightarrow> string \<Rightarrow> patch \<Rightarrow> sdb \<Rightarrow> sdb \<times> session result" where
  "checkpoint show cap now sid pc db =
     (if pc_status pc \<noteq> None \<and> parse_status (the (pc_status pc)) = None
      then (db, Inl (ValueError (''invalid runtime session status: '' @ the (pc_status pc))))
      else
        (let st = Option.bind (pc_status pc) parse_status
         in case session_at sid db of
              None \<Rightarrow> (db, Inl (KeyError sid))
            | Some row \<Rightarrow>
                if stale_turn sid (pc_turn pc) db then (db, row_to_session show None row)
                else commit db (checkpoint_rows cap now sid pc st row db) (envelope_of show ''checkpoint'' sid)))"

text \<open>The outcome is finished, the cancellation was already requested, or it is requested now.\<close>

definition cancel_rows :: "int \<Rightarrow> time \<Rightarrow> string \<Rightarrow> string \<Rightarrow> session \<Rightarrow> sdb \<Rightarrow> sdb result" where
  "cancel_rows cap now sid reason row db =
     (let rev = ss_revision row + 1
      in if terminal_status (ss_status row) \<and> ss_status row \<noteq> Cancelled then
           log_event cap sid rev ''cancel.ignored''
             (JObj [(''reason'', JStr reason), (''status'', JStr (show_status (ss_status row)))]) now
             (db\<lparr>sessions := upd (\<lambda>s. ss_id s = sid) (\<lambda>s. s\<lparr>ss_revision := rev, ss_updated := now\<rparr>) (sessions db)\<rparr>)
         else if ss_cancel row \<and> ss_status row = Cancelled then Inr db
         else
           log_event cap sid rev ''turn.cancel_requested'' (JObj [(''reason'', JStr reason)]) now
             (db\<lparr>sessions := upd (\<lambda>s. ss_id s = sid)
                (\<lambda>s. s\<lparr>ss_status := Cancelled, ss_cancel := True, ss_reason := Some reason,
                       ss_unresolved := [reason], ss_revision := rev, ss_updated := now\<rparr>) (sessions db)\<rparr>))"

definition request_cancel :: "(json \<Rightarrow> string) \<Rightarrow> int \<Rightarrow> time \<Rightarrow> string \<Rightarrow> string \<Rightarrow> sdb \<Rightarrow> sdb \<times> session result" where
  "request_cancel show cap now sid reason db =
     (case session_at sid db of
        None \<Rightarrow> (db, Inl (KeyError sid))
      | Some row \<Rightarrow>
          commit db (cancel_rows cap now sid (take 500 (or_text reason ''cancelled by user'')) row db)
            (envelope_of show ''cancellation'' sid))"

definition resume_session :: "(json \<Rightarrow> string) \<Rightarrow> int \<Rightarrow> time \<Rightarrow> string \<Rightarrow> sdb \<Rightarrow> sdb \<times> session result" where
  "resume_session show cap now sid db =
     (case get_session show sid db of
        Inl x \<Rightarrow> (db, Inl x)
      | Inr None \<Rightarrow> (db, Inl (KeyError sid))
      | Inr (Some s) \<Rightarrow>
          if ss_status s = Cancelled \<or> ss_cancel s then (db, Inl (ValueError ''cancelled runtime sessions cannot be resumed''))
          else if ss_status s \<in> {Completed, Failed} then (db, Inr s)
          else checkpoint show cap now sid
                 (no_patch\<lparr>pc_event := Some ''turn.resumed'', pc_payload := JObj [(''from_status'', JStr (show_status (ss_status s)))]\<rparr>) db)"

record session_page =
  sp_session :: session
  sp_events :: "session_event list"
  sp_cursor :: int
  sp_earliest :: int
  sp_more :: bool
  sp_reconnectable :: bool

text \<open>The protocol part of the snapshot is added by the turn protocol.\<close>

definition session_snapshot :: "(json \<Rightarrow> string) \<Rightarrow> int \<Rightarrow> string \<Rightarrow> int \<Rightarrow> int \<Rightarrow> sdb \<Rightarrow> session_page result" where
  "session_snapshot show cap sid after limit db =
     andThen (get_session show sid db)
       (\<lambda>x. case x of
              None \<Rightarrow> Inl (KeyError sid)
            | Some s \<Rightarrow>
                (let requested = max 0 after; evs = session_events cap sid requested limit db; first = first_sequence sid db;
                     cursor = (if evs = [] then requested else se_sequence (last evs))
                 in if requested \<noteq> 0 \<and> first \<noteq> 0 \<and> requested < first - 1
                    then Inl (ValueError ''event cursor is no longer replayable'')
                    else Inr \<lparr>sp_session = s, sp_events = evs, sp_cursor = cursor,
                              sp_earliest = (if first \<noteq> 0 then max 0 (first - 1) else cursor),
                              sp_more = (evs \<noteq> [] \<and> se_sequence (last evs) < ss_revision s),
                              sp_reconnectable = (ss_status s \<notin> {Failed, Cancelled} \<or> evs \<noteq> [])\<rparr>))"

section \<open>The ledger keeps the newest events without a gap\<close>

definition seqs :: "string \<Rightarrow> sdb \<Rightarrow> int set" where
  "seqs sid db = se_sequence ` {v \<in> set (sevents db). se_session v = sid}"

lemma in_seqs: "v \<in> set (sevents db) \<Longrightarrow> se_session v = sid \<Longrightarrow> se_sequence v \<in> seqs sid db"
  by (auto simp: seqs_def)

definition session_inv :: "int \<Rightarrow> sdb \<Rightarrow> bool" where
  "session_inv cap db \<longleftrightarrow>
     distinct (map ss_id (sessions db)) \<and> distinct (map (\<lambda>v. (se_session v, se_sequence v)) (sevents db)) \<and>
     (\<forall>v \<in> set (sevents db). se_session v \<in> ss_id ` set (sessions db)) \<and>
     (\<forall>s \<in> set (sessions db). 0 \<le> ss_revision s \<and> seqs (ss_id s) db = {max 0 (ss_revision s - cap) <.. ss_revision s})"

lemma session_invD:
  assumes "session_inv cap db"
  shows "distinct (map ss_id (sessions db))" "distinct (map (\<lambda>v. (se_session v, se_sequence v)) (sevents db))"
    "v \<in> set (sevents db) \<Longrightarrow> se_session v \<in> ss_id ` set (sessions db)"
    "s \<in> set (sessions db) \<Longrightarrow> 0 \<le> ss_revision s"
    "s \<in> set (sessions db) \<Longrightarrow> seqs (ss_id s) db = {max 0 (ss_revision s - cap) <.. ss_revision s}"
  using assms by (simp_all add: session_inv_def)

lemma session_atD: "session_at sid db = Some s \<Longrightarrow> s \<in> set (sessions db) \<and> ss_id s = sid"
  by (rule fetchone_SomeD)

text \<open>An update of rows that keeps every id and revision keeps the invariant.\<close>

lemma same_events_inv:
  assumes inv: "session_inv cap db" and same: "sevents db' = sevents db"
    and rows: "sessions db' = upd P f (sessions db)"
    and keep: "\<And>s. ss_id (f s) = ss_id s \<and> ss_revision (f s) = ss_revision s"
  shows "session_inv cap db'"
proof -
  have ids: "map ss_id (sessions db') = map ss_id (sessions db)" using rows keep by (simp add: map_upd)
  have "seqs sid db' = seqs sid db" for sid using same by (simp add: seqs_def)
  then show ?thesis
    using inv ids same rows keep unfolding session_inv_def by (auto simp: ball_upd image_upd)
qed

lemma log_event_ok:
  assumes inv: "session_inv cap db" and row: "session_at sid db = Some row"
    and same: "sevents db0 = sevents db"
  shows "log_event cap sid (ss_revision row + 1) k p now db0 =
     Inr (db0\<lparr>sevents := del (\<lambda>v. se_session v = sid \<and> se_sequence v \<le> max 0 (ss_revision row + 1 - cap))
       (sevents db @ [\<lparr>se_session = sid, se_sequence = ss_revision row + 1, se_kind = k, se_payload = p, se_created = now\<rparr>])\<rparr>)"
proof -
  have s: "row \<in> set (sessions db)" "ss_id row = sid" using session_atD [OF row] by auto
  have "ss_revision row + 1 \<notin> seqs sid db" using session_invD(5) [OF inv s(1)] s(2) by simp
  then have "(sid, ss_revision row + 1) \<notin> (\<lambda>v. (se_session v, se_sequence v)) ` set (sevents db)" by (auto simp: seqs_def)
  then show ?thesis by (simp add: log_event_def insert_unique_def same)
qed

lemma distinct_del: "distinct (map g t) \<Longrightarrow> distinct (map g (del P t))"
  by (simp add: del_def distinct_map_filter)

lemma logged_inv:
  assumes inv: "session_inv cap db" and cap: "1 \<le> cap" and row: "session_at sid db = Some row"
    and rows: "sessions db' = upd (\<lambda>s. ss_id s = sid) f (sessions db)"
    and keep: "\<And>s. ss_id (f s) = ss_id s" and rev: "\<And>s. s = row \<Longrightarrow> ss_revision (f s) = ss_revision row + 1"
    and evs: "sevents db' = del (\<lambda>v. se_session v = sid \<and> se_sequence v \<le> max 0 (ss_revision row + 1 - cap)) (sevents db @ [x])"
    and x: "se_session x = sid" "se_sequence x = ss_revision row + 1"
  shows "session_inv cap db'"
proof -
  have s: "row \<in> set (sessions db)" "ss_id row = sid" using session_atD [OF row] by auto
  note d = session_invD [OF inv]
  have ids: "map ss_id (sessions db') = map ss_id (sessions db)" using rows keep by (simp add: map_upd)
  then have idset: "ss_id ` set (sessions db') = ss_id ` set (sessions db)" by (metis list.set_map)
  have other: "seqs t db' = seqs t db" if "t \<noteq> sid" for t using that evs x by (auto simp: seqs_def in_del)
  have here: "seqs sid db' = {max 0 (ss_revision row + 1 - cap) <.. ss_revision row + 1}"
  proof -
    let ?m = "max 0 (ss_revision row + 1 - cap)"
    have "se_sequence ` {v \<in> set (sevents db'). se_session v = sid} = se_sequence ` {v \<in> insert x (set (sevents db)). se_session v = sid \<and> se_sequence v > ?m}"
      by (rule arg_cong [where f = "image se_sequence"]) (auto simp: evs in_del)
    moreover have "se_sequence ` {v \<in> insert x (set (sevents db)). se_session v = sid \<and> se_sequence v > ?m}
        = {n \<in> insert (ss_revision row + 1) (seqs sid db). n > ?m}"
      using x d(4) [OF s(1)] cap by (auto simp: seqs_def image_iff) (rule exI [of _ x], simp)
    ultimately have "seqs sid db' = {n \<in> insert (ss_revision row + 1) (seqs sid db). n > ?m}"
      by (simp add: seqs_def [of sid db'])
    also have "\<dots> = {max 0 (ss_revision row + 1 - cap) <.. ss_revision row + 1}"
      using d(4,5) [OF s(1)] s(2) cap by auto
    finally show ?thesis .
  qed
  have fresh: "(sid, ss_revision row + 1) \<notin> (\<lambda>v. (se_session v, se_sequence v)) ` set (sevents db)"
  proof
    assume "(sid, ss_revision row + 1) \<in> (\<lambda>v. (se_session v, se_sequence v)) ` set (sevents db)"
    then have "ss_revision row + 1 \<in> seqs sid db" using in_seqs by fastforce
    then show False using d(5) [OF s(1)] s(2) by simp
  qed
  have dist: "distinct (map (\<lambda>v. (se_session v, se_sequence v)) (sevents db'))"
    unfolding evs by (rule distinct_del) (use d(2) fresh x in auto)
  have owned: "\<forall>v \<in> set (sevents db'). se_session v \<in> ss_id ` set (sessions db')"
    using d(3) evs x imageI [OF s(1), of ss_id] s(2) idset by (auto simp: in_del)
  have "0 \<le> ss_revision t \<and> seqs (ss_id t) db' = {max 0 (ss_revision t - cap) <.. ss_revision t}" if t: "t \<in> set (sessions db')" for t
  proof -
    obtain y where y: "y \<in> set (sessions db)" "t = (if ss_id y = sid then f y else y)"
      using t unfolding rows in_upd by blast
    show ?thesis
    proof (cases "ss_id y = sid")
      case True
      then have "y = row" using key_inj [OF d(1) y(1) s(1)] s(2) by simp
      then show ?thesis using y(2) True rev keep here d(4) [OF s(1)] s(2) by simp
    next
      case False
      then show ?thesis using y d(4,5) [OF y(1)] other by simp
    qed
  qed
  then show ?thesis using d(1) ids dist owned unfolding session_inv_def by simp
qed

lemma upd_twice:
  "(\<And>r. P r \<Longrightarrow> P (f r)) \<Longrightarrow> upd P g (upd P f t) = upd P (\<lambda>r. g (f r)) t"
  by (induction t) auto

lemma add_session_inv:
  assumes inv: "session_inv cap db" and cap: "1 \<le> cap" and new: "ss_id row \<notin> ss_id ` set (sessions db)"
    and zero: "ss_revision row = 0"
  shows "session_inv cap (db\<lparr>sessions := sessions db @ [row]\<rparr>)"
proof -
  note d = session_invD [OF inv]
  have "seqs (ss_id row) db = {}" using d(3) new by (auto simp: seqs_def) (metis d(3))
  moreover have "seqs t (db\<lparr>sessions := rows\<rparr>) = seqs t db" for t rows by (simp add: seqs_def)
  ultimately show ?thesis using d new zero cap unfolding session_inv_def by auto
qed

lemma create_or_get_inv: "session_inv cap db \<Longrightarrow> 1 \<le> cap \<Longrightarrow> create_or_get show e sid en db = (db', r) \<Longrightarrow> session_inv cap db'"
  by (auto simp: create_or_get_def Let_def add_session_inv split: if_splits)

lemma start_turn_inv: "session_inv cap db \<Longrightarrow> 1 \<le> cap \<Longrightarrow> start_turn show e sid en db = (db', r) \<Longrightarrow> session_inv cap db'"
proof -
  assume inv: "session_inv cap db" "1 \<le> cap" and st: "start_turn show e sid en db = (db', r)"
  obtain db1 r1 where c: "create_or_get show e sid en db = (db1, r1)" by (cases "create_or_get show e sid en db")
  have inv1: "session_inv cap db1" by (rule create_or_get_inv [OF inv c])
  show "session_inv cap db'"
  proof (cases r1)
    case Inl
    then show ?thesis using st c inv1 by (simp add: start_turn_def)
  next
    case (Inr s)
    then obtain f where "sevents db' = sevents db1" "sessions db' = upd (\<lambda>x. ss_id x = ss_id s) f (sessions db1)"
      "\<And>x. ss_id (f x) = ss_id x \<and> ss_revision (f x) = ss_revision x"
      using st c by (auto simp: start_turn_def Let_def)
    then show ?thesis by (rule same_events_inv [OF inv1])
  qed
qed

lemma append_session_event_inv:
  assumes inv: "session_inv cap db" and cap: "1 \<le> cap" and run: "append_session_event cap now sid k p db = Inr (db', n)"
  shows "session_inv cap db'"
proof -
  obtain row where row: "session_at sid db = Some row"
    using run by (auto simp: append_session_event_def Let_def split: if_splits option.splits)
  let ?x = "\<lparr>se_session = sid, se_sequence = ss_revision row + 1, se_kind = take 120 (strip (or_text k ''event'')),
              se_payload = p, se_created = now\<rparr>"
  let ?f = "\<lambda>s. s\<lparr>ss_revision := ss_revision row + 1, ss_updated := now\<rparr>"
  have evs: "sevents db' = del (\<lambda>v. se_session v = sid \<and> se_sequence v \<le> max 0 (ss_revision row + 1 - cap)) (sevents db @ [?x])"
    and rows: "sessions db' = upd (\<lambda>s. ss_id s = sid) ?f (sessions db)"
    using run row log_event_ok [OF inv row refl] by (auto simp: append_session_event_def Let_def split: if_splits)
  show ?thesis by (rule logged_inv [OF inv cap row rows _ _ evs]) simp_all
qed

lemma checkpoint_rows_inv:
  assumes inv: "session_inv cap db" and cap: "1 \<le> cap" and row: "session_at sid db = Some row"
    and run: "checkpoint_rows cap now sid pc st row db = Inr db'"
  shows "session_inv cap db'"
proof (cases "checkpoint_event pc st row")
  case None
  then have "sevents db' = sevents db" "sessions db' = upd (\<lambda>s. ss_id s = sid) (checkpointed pc st now) (sessions db)"
    using run by (auto simp: checkpoint_rows_def Let_def)
  then show ?thesis by (rule same_events_inv [OF inv]) (auto simp: checkpointed_def Let_def)
next
  case (Some ev)
  let ?f = "\<lambda>s. (checkpointed pc st now s)\<lparr>ss_revision := ss_revision row + 1\<rparr>"
  let ?x = "\<lparr>se_session = sid, se_sequence = ss_revision row + 1, se_kind = take 120 ev, se_payload = pc_payload pc, se_created = now\<rparr>"
  have id: "ss_id (checkpointed pc st now s) = ss_id s" for s by (simp add: checkpointed_def Let_def)
  have evs: "sevents db' = del (\<lambda>v. se_session v = sid \<and> se_sequence v \<le> max 0 (ss_revision row + 1 - cap)) (sevents db @ [?x])"
    and rows: "sessions db' = upd (\<lambda>s. ss_id s = sid) ?f (sessions db)"
    using run Some by (auto simp: checkpoint_rows_def Let_def log_event_ok [OF inv row] upd_twice id)
  show ?thesis by (rule logged_inv [OF inv cap row rows _ _ evs]) (simp_all add: id)
qed

lemma cancel_rows_inv:
  assumes inv: "session_inv cap db" and cap: "1 \<le> cap" and row: "session_at sid db = Some row"
    and run: "cancel_rows cap now sid reason row db = Inr db'"
  shows "session_inv cap db'"
proof (cases "ss_cancel row \<and> ss_status row = Cancelled")
  case True
  then show ?thesis using run inv by (simp add: cancel_rows_def Let_def)
next
  case False
  obtain f x where evs: "sevents db' = del (\<lambda>v. se_session v = sid \<and> se_sequence v \<le> max 0 (ss_revision row + 1 - cap)) (sevents db @ [x])"
    and rows: "sessions db' = upd (\<lambda>s. ss_id s = sid) f (sessions db)" and f: "\<And>s. ss_id (f s) = ss_id s"
    "\<And>s. ss_revision (f s) = ss_revision row + 1" and x: "se_session x = sid" "se_sequence x = ss_revision row + 1"
    using run False by (auto simp: cancel_rows_def Let_def log_event_ok [OF inv row] split: if_splits)
  show ?thesis by (rule logged_inv [OF inv cap row rows _ _ evs]) (simp_all add: f x)
qed

lemma commit_inv:
  "commit db r f = (db', x) \<Longrightarrow> P db \<Longrightarrow> (\<And>t. r = Inr t \<Longrightarrow> P t) \<Longrightarrow> P db'"
  by (auto simp: commit_def split: sum.splits)

lemma checkpoint_inv:
  "session_inv cap db \<Longrightarrow> 1 \<le> cap \<Longrightarrow> checkpoint show cap now sid pc db = (db', r) \<Longrightarrow> session_inv cap db'"
  by (auto simp: checkpoint_def Let_def split: if_splits option.splits elim!: commit_inv intro: checkpoint_rows_inv)

lemma request_cancel_inv:
  "session_inv cap db \<Longrightarrow> 1 \<le> cap \<Longrightarrow> request_cancel show cap now sid reason db = (db', r) \<Longrightarrow> session_inv cap db'"
  by (auto simp: request_cancel_def split: option.splits elim!: commit_inv intro: cancel_rows_inv)

lemma resume_session_inv:
  "session_inv cap db \<Longrightarrow> 1 \<le> cap \<Longrightarrow> resume_session show cap now sid db = (db', r) \<Longrightarrow> session_inv cap db'"
  by (auto simp: resume_session_def split: sum.splits option.splits if_splits intro: checkpoint_inv)

section \<open>Paging\<close>

lemma sort_seq: "distinct (map se_sequence xs) \<Longrightarrow> map se_sequence (sort_key se_sequence xs) = sorted_list_of_set (se_sequence ` set xs)"
  by (metis list.set_map set_sort sorted_sort_key distinct_map distinct_sort sorted_list_of_set.idem_if_sorted_distinct inj_on_def)

lemma sorted_int_range: "sorted_list_of_set {a <.. b :: int} = map (\<lambda>i. a + 1 + int i) [0..<nat (b - a)]"
proof -
  let ?xs = "map (\<lambda>i. a + 1 + int i) [0..<nat (b - a)]"
  have "set ?xs = {a <.. b}"
  proof (intro equalityI subsetI)
    fix x assume "x \<in> {a <.. b}"
    then have "x = a + 1 + int (nat (x - a - 1))" "nat (x - a - 1) < nat (b - a)" by auto
    then show "x \<in> set ?xs" unfolding set_map set_upt by (intro image_eqI [where x = "nat (x - a - 1)"]) auto
  qed auto
  moreover have "sorted ?xs" by (simp add: sorted_iff_nth_mono)
  moreover have "distinct ?xs" by (simp add: distinct_map inj_on_def)
  ultimately show ?thesis by (metis sorted_list_of_set.idem_if_sorted_distinct)
qed

text \<open>A page holds consecutive sequence numbers, from the first one after the cursor that is kept.\<close>

lemma page_consecutive:
  assumes inv: "session_inv cap db" and s: "s \<in> set (sessions db)" and limit: "1 \<le> limit" "limit \<le> cap" and after: "0 \<le> after"
  shows "map se_sequence (session_events cap (ss_id s) after limit db) =
     map (\<lambda>i. max after (max 0 (ss_revision s - cap)) + 1 + int i)
       [0..<min (nat limit) (nat (ss_revision s - max after (max 0 (ss_revision s - cap))))]"
proof -
  let ?rows = "filter (\<lambda>v. se_session v = ss_id s \<and> se_sequence v > after) (sevents db)"
  let ?a = "max after (max 0 (ss_revision s - cap))"
  note d = session_invD [OF inv]
  have dist: "distinct (map se_sequence ?rows)"
    using d(2) by (auto simp: distinct_map inj_on_def)
  have "se_sequence ` set ?rows = {n \<in> seqs (ss_id s) db. n > after}" by (auto simp: seqs_def)
  also have "\<dots> = {?a <.. ss_revision s}" using d(5) [OF s] by auto
  finally have rows: "map se_sequence (sort_key se_sequence ?rows) = map (\<lambda>i. ?a + 1 + int i) [0..<nat (ss_revision s - ?a)]"
    by (simp only: sort_seq [OF dist] sorted_int_range)
  have upto: "take n [0..<m] = [0..<min n m]" for n m by (cases "n \<le> m") (simp_all add: min_def)
  have "map se_sequence (session_events cap (ss_id s) after limit db) = take (nat limit) (map se_sequence (sort_key se_sequence ?rows))"
    using limit after by (simp add: session_events_def take_map)
  then show ?thesis by (simp only: rows take_map upto)
qed

section \<open>Cancellation\<close>

definition cancelled_in :: "string \<Rightarrow> sdb \<Rightarrow> bool" where
  "cancelled_in sid db \<longleftrightarrow> (\<exists>s. session_at sid db = Some s \<and> ss_cancel s \<and> ss_status s = Cancelled)"

lemma session_at_upd:
  assumes "\<And>s. ss_id (f s) = ss_id s" and "sessions db' = upd P f (sessions db)"
  shows "session_at sid db' = map_option (\<lambda>s. if P s then f s else s) (session_at sid db)"
proof -
  have "fetchone (filter (\<lambda>s. ss_id s = sid) (upd P f t)) =
      map_option (\<lambda>s. if P s then f s else s) (fetchone (filter (\<lambda>s. ss_id s = sid) t))" for t
    using assms(1) by (induction t) auto
  then show ?thesis using assms(2) by simp
qed

lemma cancelled_upd:
  assumes "cancelled_in sid db" and "sessions db' = upd P f (sessions db)"
    and "\<And>s. ss_id (f s) = ss_id s" and "\<And>s. ss_cancel s \<Longrightarrow> ss_status s = Cancelled \<Longrightarrow> ss_cancel (f s) \<and> ss_status (f s) = Cancelled"
  shows "cancelled_in sid db'"
proof -
  obtain s where s: "session_at sid db = Some s" "ss_cancel s" "ss_status s = Cancelled"
    using assms(1) unfolding cancelled_in_def by blast
  have "session_at sid db' = Some (if P s then f s else s)" using session_at_upd [OF assms(3,2), of sid] s(1) by simp
  then show ?thesis using assms(4) s(2,3) unfolding cancelled_in_def by simp
qed

lemma cancelled_same: "cancelled_in sid db \<Longrightarrow> sessions db' = sessions db \<Longrightarrow> cancelled_in sid db'"
  by (simp add: cancelled_in_def)

lemma log_event_sessions: "log_event cap sid n k p now db = Inr db' \<Longrightarrow> sessions db' = sessions db"
  by (auto simp: log_event_def)

lemma checkpoint_cancelled:
  assumes "cancelled_in sid db" and "checkpoint show cap now sid' pc db = (db', r)"
  shows "cancelled_in sid db'"
proof -
  have keep: "ss_id (checkpointed pc st now s) = ss_id s"
    "ss_cancel s \<Longrightarrow> ss_cancel (checkpointed pc st now s) \<and> ss_status (checkpointed pc st now s) = Cancelled" for st s
    by (auto simp: checkpointed_def Let_def)
  have "cancelled_in sid t" if run: "checkpoint_rows cap now sid' pc st row db = Inr t" for st row t
  proof (cases "checkpoint_event pc st row")
    case None
    then show ?thesis using run cancelled_upd [OF assms(1), of t] keep by (auto simp: checkpoint_rows_def Let_def)
  next
    case (Some ev)
    then have "sessions t = upd (\<lambda>s. ss_id s = sid') (\<lambda>s. (checkpointed pc st now s)\<lparr>ss_revision := ss_revision row + 1\<rparr>) (sessions db)"
      using run by (auto simp: checkpoint_rows_def Let_def upd_twice keep dest!: log_event_sessions)
    then show ?thesis using cancelled_upd [OF assms(1)] keep by auto
  qed
  then show ?thesis
    using assms by (auto simp: checkpoint_def Let_def commit_def split: if_splits option.splits sum.splits)
qed

lemma resume_cancelled: "cancelled_in sid db \<Longrightarrow> resume_session show cap now sid' db = (db', r) \<Longrightarrow> cancelled_in sid db'"
  by (auto simp: resume_session_def split: sum.splits option.splits if_splits intro: checkpoint_cancelled)

lemma append_cancelled:
  assumes "cancelled_in sid db" and run: "append_session_event cap now sid' k p db = Inr (db', n)"
  shows "cancelled_in sid db'"
proof -
  obtain rev t where "log_event cap sid' rev (take 120 (strip (or_text k ''event''))) p now db = Inr t"
    "sessions db' = upd (\<lambda>s. ss_id s = sid') (\<lambda>s. s\<lparr>ss_revision := rev, ss_updated := now\<rparr>) (sessions t)"
    using run by (auto simp: append_session_event_def Let_def split: if_splits option.splits)
  then show ?thesis using cancelled_upd [OF assms(1), of db'] by (simp add: log_event_sessions)
qed

lemma cancel_rows_shape:
  assumes "cancel_rows cap now sid reason row db = Inr t"
  shows "\<exists>f. sessions t = upd (\<lambda>s. ss_id s = sid) f (sessions db) \<and> (\<forall>s. ss_id (f s) = ss_id s) \<and>
     (\<forall>s. ss_cancel s \<longrightarrow> ss_status s = Cancelled \<longrightarrow> ss_cancel (f s) \<and> ss_status (f s) = Cancelled)"
proof -
  have id: "upd P (\<lambda>s. s) rows = rows" for P and rows :: "session list" by (induction rows) auto
  consider (ignored) "sessions t = upd (\<lambda>s. ss_id s = sid) (\<lambda>s. s\<lparr>ss_revision := ss_revision row + 1, ss_updated := now\<rparr>) (sessions db)"
    | (again) "t = db"
    | (new) "sessions t = upd (\<lambda>s. ss_id s = sid) (\<lambda>s. s\<lparr>ss_status := Cancelled, ss_cancel := True, ss_reason := Some reason,
          ss_unresolved := [reason], ss_revision := ss_revision row + 1, ss_updated := now\<rparr>) (sessions db)"
    using assms by (auto simp: cancel_rows_def Let_def dest: log_event_sessions split: if_splits)
  then show ?thesis
  proof cases
    case ignored
    show ?thesis by (rule exI, rule conjI [OF ignored]) simp
  next
    case again
    then show ?thesis by (intro exI [of _ "\<lambda>s. s"]) (simp add: id)
  next
    case new
    show ?thesis by (rule exI, rule conjI [OF new]) simp
  qed
qed

lemma cancel_cancelled:
  assumes "cancelled_in sid db" and "request_cancel show cap now sid' reason db = (db', r)"
  shows "cancelled_in sid db'"
proof -
  have "cancelled_in sid t" if run: "cancel_rows cap now sid' rs row db = Inr t" for rs row t
    using cancel_rows_shape [OF run] cancelled_upd [OF assms(1), of t] by blast
  then show ?thesis using assms by (auto simp: request_cancel_def commit_def split: option.splits sum.splits)
qed

lemma create_cancelled: "cancelled_in sid db \<Longrightarrow> create_or_get show e sid' en db = (db', r) \<Longrightarrow> cancelled_in sid db'"
  by (auto simp: create_or_get_def cancelled_in_def Let_def fetchone_def split: if_splits list.splits)

end
