(* ===== verification/Protocol.thy ===== *)
theory Protocol
  imports RuntimeSession
begin

text \<open>
  \<open>src/smara/session_protocol.py\<close>: the thread/turn/item protocol over the session ledger. A turn of a
  thread is active or ended; tools run as items of an active turn, mutating ones after an approval of the
  exact action when the mode is \<open>ask\<close>. Every transition is journaled under one increasing sequence.

  \<^item> \<open>alive\<close> is \<open>_owner_alive\<close>, the operating system's answer for a process id.
  \<^item> \<open>encode\<close> is \<open>_encode\<close> (\<open>json.dumps\<close> with sorted keys); a payload column holds its document.
  \<^item> Handles are made by \<open>begin_turn\<close> only and turns are never deleted, so the row of a handle exists.
  \<^item> \<open>notify\<close>, \<open>recovery\<close> (files) and the text dispatcher are not modelled.
\<close>

section \<open>Redaction\<close>

definition secret_key :: "string \<Rightarrow> bool" where
  "secret_key k \<longleftrightarrow> (\<exists>p \<in> set [''secret'', ''password'', ''api_key'', ''authorization'', ''access_token'', ''refresh_token''].
     contains p (lower k))"

text \<open>\<open>[A-Za-z0-9_\-]\<close> and \<open>\w\<close>, the latter on the characters below 256.\<close>

definition token_char :: "char \<Rightarrow> bool" where
  "token_char c \<longleftrightarrow> ascii_alnum c \<or> c = CHR ''_'' \<or> c = CHR ''-''"

definition word_char :: "char \<Rightarrow> bool" where
  "word_char c \<longleftrightarrow> ascii_alnum c \<or> c = CHR ''_'' \<or>
     (let n = (of_char c :: nat) in n \<in> {170, 178, 179, 181, 185, 186, 188, 189, 190} \<or> (192 \<le> n \<and> n \<noteq> 215 \<and> n \<noteq> 247))"

definition redacted :: string where
  "redacted = ''[redacted]''"

definition token_at :: "bool \<Rightarrow> string \<Rightarrow> bool" where
  "token_at after_word s \<longleftrightarrow> \<not> after_word \<and> starts_with s ''sk_'' \<and> 16 \<le> length (takeWhile token_char (drop 3 s))"

text \<open>\<open>re.sub\<close>: \<open>after_word\<close> tells whether the character before \<open>s\<close> is a word character.\<close>

function redact :: "bool \<Rightarrow> string \<Rightarrow> string" where
  "redact after_word [] = []"
| "redact after_word (c # cs) =
     (if token_at after_word (c # cs)
      then redacted @ redact (word_char (last (takeWhile token_char (drop 3 (c # cs))))) (dropWhile token_char (drop 3 (c # cs)))
      else c # redact (word_char c) cs)"
  by pat_completeness auto
termination
proof (relation "measure (\<lambda>(b, s). length s)")
  fix b c cs
  have "length (dropWhile token_char (drop 3 (c # cs))) \<le> length (drop 3 (c # cs))" by (rule length_dropWhile_le)
  then show "((word_char (last (takeWhile token_char (drop 3 (c # cs)))), dropWhile token_char (drop 3 (c # cs))), b, c # cs)
      \<in> measure (\<lambda>(b, s). length s)" by simp
qed simp_all

fun safe :: "json \<Rightarrow> json" where
  "safe (JObj kvs) = JObj (map (\<lambda>(k, v). (k, if secret_key k then JStr redacted else safe v)) kvs)"
| "safe (JArr xs) = JArr (map safe xs)"
| "safe (JStr s) = JStr (redact False s)"
| "safe v = v"

type_synonym fields = "(string \<times> json) list"

definition safe_fields :: "fields \<Rightarrow> fields" where
  "safe_fields kvs = map (\<lambda>(k, v). (k, if secret_key k then JStr redacted else safe v)) kvs"

text \<open>\<open>{**base, **more}\<close>: a key of both keeps its place and takes the later value.\<close>

definition merged :: "fields \<Rightarrow> fields \<Rightarrow> json" where
  "merged base extra =
     JObj (map (\<lambda>(k, v). (k, case map_of extra k of None \<Rightarrow> v | Some w \<Rightarrow> w)) base
           @ filter (\<lambda>(k, _). k \<notin> fst ` set base) extra)"

section \<open>The journal and the end of a turn\<close>

definition journal :: "time \<Rightarrow> string \<Rightarrow> string \<Rightarrow> string \<Rightarrow> json \<Rightarrow> sdb \<Rightarrow> sdb" where
  "journal now thread turn kind payload db =
     db\<lparr>pevents := pevents db @ [\<lparr>pe_sequence = last_seq db + 1, pe_thread = thread, pe_turn = turn, pe_kind = kind,
                                  pe_payload = payload, pe_created = now\<rparr>],
        last_seq := last_seq db + 1\<rparr>"

abbreviation running_turn :: "string \<Rightarrow> pturn \<Rightarrow> bool" where
  "running_turn thread t \<equiv> pt_thread t = thread \<and> active_status (pt_status t)"

definition item_end :: "session_status \<Rightarrow> item_status" where
  "item_end st = (if st = Cancelled then I_Cancelled else I_Failed)"

definition item_text :: "item_status \<Rightarrow> string" where
  "item_text st = (case st of I_Running \<Rightarrow> ''running'' | I_Completed \<Rightarrow> ''completed'' | I_Failed \<Rightarrow> ''failed''
     | I_Cancelled \<Rightarrow> ''cancelled'')"

fun close_items :: "(nat \<Rightarrow> time) \<Rightarrow> nat \<Rightarrow> string \<Rightarrow> string \<Rightarrow> session_status \<Rightarrow> string list \<Rightarrow> sdb \<Rightarrow> sdb" where
  "close_items now n thread turn st [] db = db"
| "close_items now n thread turn st (i # is) db =
     close_items now (Suc n) thread turn st is
       (journal (now n) thread turn ''item.completed'' (JObj [(''item_id'', JStr i), (''status'', JStr (item_text (item_end st)))])
          (db\<lparr>pitems := upd (\<lambda>x. pi_id x = i) (\<lambda>x. x\<lparr>pi_status := item_end st\<rparr>) (pitems db)\<rparr>))"

definition end_turn :: "(nat \<Rightarrow> time) \<Rightarrow> string \<Rightarrow> string \<Rightarrow> session_status \<Rightarrow> sdb \<Rightarrow> sdb" where
  "end_turn now thread turn st db =
     (let db = db\<lparr>pturns := upd (\<lambda>t. pt_id t = turn) (\<lambda>t. t\<lparr>pt_status := st, pt_ended := Some (now 0)\<rparr>) (pturns db),
                  papprovals := upd (\<lambda>a. pa_turn a = turn \<and> pa_decision a = D_Pending) (\<lambda>a. a\<lparr>pa_decision := D_Expired\<rparr>) (papprovals db)\<rparr>;
          running = map pi_id (filter (\<lambda>x. pi_turn x = turn \<and> pi_status x = I_Running) (pitems db));
          db = close_items now 1 thread turn st running db
      in journal (now (Suc (length running))) thread turn ''turn.completed'' (JObj [(''status'', JStr (show_status st))]) db)"

section \<open>Turns and items\<close>

record handle =
  th_thread :: string
  th_turn :: string
  th_ask :: bool
  th_message :: "string option"

definition turn_active :: "string \<Rightarrow> sdb \<Rightarrow> bool" where
  "turn_active turn db = (case fetchone (filter (\<lambda>t. pt_id t = turn) (pturns db)) of
     None \<Rightarrow> False | Some t \<Rightarrow> active_status (pt_status t))"

definition inactive :: py_error where
  "inactive = RuntimeError ''Turn is no longer active''"

definition start_item :: "env \<Rightarrow> handle \<Rightarrow> string \<Rightarrow> fields \<Rightarrow> sdb \<Rightarrow> (sdb \<times> string) result" where
  "start_item e h kind payload db =
     (let ident = ''item_'' @ uuid e [0]
      in if \<not> turn_active (th_turn h) db then Inl inactive
         else Inr (journal (clk e 0) (th_thread h) (th_turn h) ''item.started''
                     (merged [(''item_id'', JStr ident), (''kind'', JStr kind)] (safe_fields payload))
                     (db\<lparr>pitems := pitems db @ [\<lparr>pi_id = ident, pi_turn = th_turn h, pi_kind = kind,
                                                 pi_status = I_Running, pi_payload = JObj (safe_fields payload)\<rparr>]\<rparr>), ident))"

definition complete_item :: "time \<Rightarrow> handle \<Rightarrow> string \<Rightarrow> fields \<Rightarrow> item_status \<Rightarrow> sdb \<Rightarrow> sdb" where
  "complete_item now h ident payload st db =
     (let hit = (\<lambda>x. pi_id x = ident \<and> pi_turn x = th_turn h \<and> pi_status x = I_Running)
      in if rowcount hit (pitems db) = 0 then db
         else journal now (th_thread h) (th_turn h) ''item.completed''
                (merged [(''item_id'', JStr ident), (''status'', JStr (item_text st))] (safe_fields payload))
                (db\<lparr>pitems := upd hit (\<lambda>x. x\<lparr>pi_status := st, pi_payload := JObj (safe_fields payload)\<rparr>) (pitems db)\<rparr>))"

text \<open>
  The transaction of \<open>begin\<close>: a turn whose owner died is ended first. The partial unique index admits
  one active turn per thread.
\<close>

definition release_thread :: "env \<Rightarrow> (int \<Rightarrow> bool) \<Rightarrow> string \<Rightarrow> sdb \<Rightarrow> sdb result" where
  "release_thread e alive thread db =
     (case fetchone (filter (running_turn thread) (pturns db)) of
        None \<Rightarrow> Inr db
      | Some t \<Rightarrow>
          if pt_owner t \<in> {None, Some 0} \<or> alive (the (pt_owner t))
          then Inl (ValueError ''This thread already has an active turn. Interrupt it before starting another.'')
          else Inr (journal (clk e 0) thread (pt_id t) ''turn.interrupted''
                 (JObj [(''reason'', JStr ''owning process exited; unfinished tools are not replayed'')])
                 (end_turn (\<lambda>i. clk e (Suc i)) thread (pt_id t) Needs_Input db)))"

definition insert_turn :: "env \<Rightarrow> int \<Rightarrow> string \<Rightarrow> string \<Rightarrow> string \<Rightarrow> sdb \<Rightarrow> sdb result" where
  "insert_turn e pid thread turn mode db =
     (if \<exists>t \<in> set (pturns db). running_turn thread t then Inl IntegrityError
      else Inr (journal (clk e 1) thread turn ''turn.started'' (JObj [(''approval_mode'', JStr mode)])
             (db\<lparr>pturns := pturns db @ [\<lparr>pt_id = turn, pt_thread = thread, pt_status = Running,
                  pt_created = clk e 0, pt_ended = None, pt_owner = Some pid\<rparr>]\<rparr>)))"

definition open_turn ::
  "env \<Rightarrow> (int \<Rightarrow> bool) \<Rightarrow> int \<Rightarrow> string \<Rightarrow> string \<Rightarrow> string \<Rightarrow> sdb \<Rightarrow> (sdb \<times> handle) result" where
  "open_turn e alive pid thread request mode db =
     (if mode \<notin> {''auto'', ''ask''} then Inl (ValueError ''approval_mode must be auto or ask'')
      else if strip request = [] then Inl (ValueError ''request must be nonempty text'')
      else if session_at thread db = None then Inl (KeyError thread)
      else
        (let turn = ''turn_'' @ uuid e [0]
         in andThen (release_thread e alive thread db)
              (\<lambda>db. andThen (insert_turn e pid thread turn mode db)
                 (\<lambda>db. Inr (db, \<lparr>th_thread = thread, th_turn = turn, th_ask = (mode = ''ask''), th_message = None\<rparr>)))))"

text \<open>\<open>begin\<close>: the request is journaled as the first item, in transactions of its own.\<close>

definition begin_turn ::
  "env \<Rightarrow> (int \<Rightarrow> bool) \<Rightarrow> int \<Rightarrow> string \<Rightarrow> string \<Rightarrow> string \<Rightarrow> sdb \<Rightarrow> sdb \<times> handle result" where
  "begin_turn e alive pid thread request mode db =
     (case open_turn e alive pid thread request mode db of
        Inl x \<Rightarrow> (db, Inl x)
      | Inr (db, h) \<Rightarrow>
          (let payload = [(''text'', safe (JStr request))]
           in case start_item (sub_env e 2) h ''user_message'' payload db of
                Inl x \<Rightarrow> (db, Inl x)
              | Inr (db, i) \<Rightarrow> (complete_item (clk e 3) h i payload I_Completed db, Inr h)))"

section \<open>Approvals\<close>

text \<open>What the protocol takes from outside: \<open>str\<close> and \<open>json.dumps\<close> of values, \<open>str\<close> of an exception, the
  event bound of the session store, and which processes are alive.\<close>

record runtime =
  rt_show :: "json \<Rightarrow> string"
  rt_encode :: "json \<Rightarrow> string"
  rt_exc :: "py_error \<Rightarrow> string"
  rt_cap :: int
  rt_alive :: "int \<Rightarrow> bool"

definition show_decision :: "decision \<Rightarrow> string" where
  "show_decision d = (case d of D_Pending \<Rightarrow> ''pending'' | D_Allow \<Rightarrow> ''allow'' | D_Deny \<Rightarrow> ''deny'' | D_Expired \<Rightarrow> ''expired'')"

definition resolved :: "string \<Rightarrow> decision \<Rightarrow> json" where
  "resolved aid d = JObj [(''approval_id'', JStr aid), (''decision'', JStr (show_decision d))]"

definition thread_cancelled :: "string \<Rightarrow> sdb \<Rightarrow> bool" where
  "thread_cancelled thread db = (case session_at thread db of None \<Rightarrow> False | Some s \<Rightarrow> ss_cancel s)"

definition respond ::
  "runtime \<Rightarrow> time \<Rightarrow> string \<Rightarrow> string \<Rightarrow> string \<Rightarrow> string \<Rightarrow> string \<Rightarrow> sdb \<Rightarrow> (sdb \<times> decision) result" where
  "respond rt now thread aid turn sha decision db =
     (if decision \<notin> {''allow'', ''deny''} then Inl (ValueError ''decision must be allow or deny'')
      else
        (let d = (if decision = ''allow'' then D_Allow else D_Deny)
         in case fetchone [(a, t). a \<leftarrow> papprovals db, t \<leftarrow> pturns db, pa_id a = aid \<and> pt_id t = pa_turn a] of
              None \<Rightarrow> Inl (ValueError ''Approval does not match this thread, turn and action'')
            | Some (a, t) \<Rightarrow>
                if pt_thread t \<noteq> thread \<or> pa_turn a \<noteq> turn \<or> pa_sha a \<noteq> sha
                then Inl (ValueError ''Approval does not match this thread, turn and action'')
                else if \<not> active_status (pt_status t) \<or> thread_cancelled thread db
                        \<or> (pt_owner t \<notin> {None, Some 0} \<and> \<not> rt_alive rt (the (pt_owner t)))
                then Inl (ValueError ''Approval is no longer active'')
                else if pa_decision a \<noteq> D_Pending
                then (if pa_decision a \<noteq> d then Inl (ValueError ''Approval already has a different decision'') else Inr (db, d))
                else Inr (journal now thread turn ''approval.resolved'' (resolved aid d)
                       (db\<lparr>papprovals := upd (\<lambda>x. pa_id x = aid) (\<lambda>x. x\<lparr>pa_decision := d\<rparr>) (papprovals db)\<rparr>), d)))"

definition read_tools :: "string list" where
  "read_tools =
     [''file_read'', ''list_directory'', ''search_files'', ''code_graph'', ''calculate'',
      ''web_search'', ''web_extract'', ''skills_list'', ''skill_view'', ''todo'',
      ''local_file_read'', ''local_file_search'', ''local_system_info'', ''local_time'',
      ''process_poll'', ''browser_observe'', ''browser_tabs'', ''browser_scroll'',
      ''research_plan'', ''research_search'', ''research_fetch'', ''research_gather'', ''research_inspect'',
      ''research_analyze'', ''research_resolve'', ''research_validate'', ''research_ingest_file'',
      ''research_ingest_pdf_collection'', ''academic_search'', ''academic_fulltext'',
      ''browser_open'', ''browser_navigate'', ''browser_switch'', ''browser_close'']"

definition action_of :: "string \<Rightarrow> fields \<Rightarrow> json" where
  "action_of name arguments = JObj [(''name'', JStr name), (''arguments'', JObj arguments)]"

definition action_digest :: "runtime \<Rightarrow> env \<Rightarrow> string \<Rightarrow> fields \<Rightarrow> string" where
  "action_digest rt e name arguments = sha256 e (rt_encode rt (action_of name arguments))"

text \<open>The first transaction of \<open>_approve\<close>: the approval, and the turn waits.\<close>

definition approval_payload :: "string \<Rightarrow> string \<Rightarrow> string \<Rightarrow> string \<Rightarrow> json \<Rightarrow> json" where
  "approval_payload aid item turn sha action =
     JObj [(''approval_id'', JStr aid), (''item_id'', JStr item), (''turn_id'', JStr turn), (''action_sha256'', JStr sha),
           (''action'', safe action)]"

definition ask_approval ::
  "runtime \<Rightarrow> env \<Rightarrow> handle \<Rightarrow> string \<Rightarrow> string \<Rightarrow> fields \<Rightarrow> sdb \<Rightarrow> (sdb \<times> string) result" where
  "ask_approval rt e h item name arguments db =
     (let aid = ''approval_'' @ uuid e [0]; action = action_of name arguments; sha = action_digest rt e name arguments
      in if \<not> turn_active (th_turn h) db then Inl inactive
         else Inr (journal (clk e 1) (th_thread h) (th_turn h) ''approval.requested'' (approval_payload aid item (th_turn h) sha action)
                     (db\<lparr>papprovals := papprovals db @ [\<lparr>pa_id = aid, pa_turn = th_turn h, pa_item = item, pa_sha = sha,
                            pa_action = safe action, pa_decision = D_Pending, pa_created = clk e 0\<rparr>],
                        pturns := upd (\<lambda>t. pt_id t = th_turn h) (\<lambda>t. t\<lparr>pt_status := Waiting\<rparr>) (pturns db)\<rparr>), aid))"

definition decision_of :: "string \<Rightarrow> sdb \<Rightarrow> decision" where
  "decision_of aid db =
     (case fetchone (filter (\<lambda>a. pa_id a = aid) (papprovals db)) of None \<Rightarrow> D_Pending | Some a \<Rightarrow> pa_decision a)"

definition expire_approval :: "time \<Rightarrow> handle \<Rightarrow> string \<Rightarrow> sdb \<Rightarrow> sdb" where
  "expire_approval now h aid db =
     (let hit = (\<lambda>a. pa_id a = aid \<and> pa_decision a = D_Pending)
      in if rowcount hit (papprovals db) = 0 then db
         else journal now (th_thread h) (th_turn h) ''approval.resolved'' (resolved aid D_Expired)
                (db\<lparr>papprovals := upd hit (\<lambda>a. a\<lparr>pa_decision := D_Expired\<rparr>) (papprovals db)\<rparr>))"

text \<open>
  The polling loop. One observation per round: what other processes do to the database before the
  cancellation check, between it and the reading of the decision, and before the expiry, and whether
  the deadline has passed.
\<close>

record observation =
  ob_before :: "sdb \<Rightarrow> sdb"
  ob_between :: "sdb \<Rightarrow> sdb"
  ob_after :: "sdb \<Rightarrow> sdb"
  ob_late :: bool
  ob_now :: time

datatype awaited = Decided decision | Aborted py_error | Undecided

fun await_decision :: "runtime \<Rightarrow> handle \<Rightarrow> string \<Rightarrow> observation list \<Rightarrow> sdb \<Rightarrow> sdb \<times> awaited" where
  "await_decision rt h aid [] db = (db, Undecided)"
| "await_decision rt h aid (x # xs) db =
     (let db = ob_before x db
      in case should_cancel (rt_show rt) (th_thread h) db of
           Inl er \<Rightarrow> (db, Aborted er)
         | Inr True \<Rightarrow> (db, Aborted (RuntimeError ''Turn cancelled while awaiting approval''))
         | Inr False \<Rightarrow>
             (let db = ob_between x db
              in if \<not> turn_active (th_turn h) db then (db, Aborted inactive)
                 else if decision_of aid db \<noteq> D_Pending then (db, Decided (decision_of aid db))
                 else if ob_late x then
                   (let db = expire_approval (ob_now x) h aid (ob_after x db) in (db, Decided (decision_of aid db)))
                 else await_decision rt h aid xs db))"

definition settle_waiting :: "runtime \<Rightarrow> time \<Rightarrow> handle \<Rightarrow> sdb \<Rightarrow> sdb \<times> unit result" where
  "settle_waiting rt now h db =
     (if rowcount (\<lambda>a. pa_turn a = th_turn h \<and> pa_decision a = D_Pending) (papprovals db) \<noteq> 0 then (db, Inr ())
      else
        (let db = db\<lparr>pturns := upd (\<lambda>t. pt_id t = th_turn h \<and> pt_status t = Waiting) (\<lambda>t. t\<lparr>pt_status := Running\<rparr>) (pturns db)\<rparr>;
             (db, r) = checkpoint (rt_show rt) (rt_cap rt) now (th_thread h)
               (no_patch\<lparr>pc_status := Some ''running'', pc_turn := Some (th_turn h)\<rparr>) db
         in (db, case r of Inl x \<Rightarrow> Inl x | Inr _ \<Rightarrow> Inr ())))"

text \<open>After the request: the session waits, and the optional in-process handler answers at once.\<close>

definition ask_handler ::
  "runtime \<Rightarrow> env \<Rightarrow> (json \<Rightarrow> string) option \<Rightarrow> handle \<Rightarrow> string \<Rightarrow> string \<Rightarrow> string \<Rightarrow> json \<Rightarrow> sdb \<Rightarrow> sdb \<times> unit result" where
  "ask_handler rt e handler h item aid sha action db =
     (case checkpoint (rt_show rt) (rt_cap rt) (clk e 2) (th_thread h)
             (no_patch\<lparr>pc_status := Some ''waiting_approval'', pc_turn := Some (th_turn h)\<rparr>) db of
        (db, Inl x) \<Rightarrow> (db, Inl x)
      | (db, Inr _) \<Rightarrow>
          (case handler of
             None \<Rightarrow> (db, Inr ())
           | Some f \<Rightarrow>
               (case respond rt (clk e 3) (th_thread h) aid (th_turn h) sha (f (approval_payload aid item (th_turn h) sha action)) db of
                  Inl x \<Rightarrow> (db, Inl x)
                | Inr (db, _) \<Rightarrow> (db, Inr ()))))"

text \<open>After the loop: anything but an allow raises.\<close>

definition conclude :: "runtime \<Rightarrow> time \<Rightarrow> handle \<Rightarrow> decision \<Rightarrow> sdb \<Rightarrow> sdb \<times> unit result" where
  "conclude rt now h d db =
     (case settle_waiting rt now h db of
        (db, Inl x) \<Rightarrow> (db, Inl x)
      | (db, Inr _) \<Rightarrow>
          (db, if d = D_Allow then Inr ()
               else Inl (RuntimeError (''Action approval '' @ show_decision d @ ''; tool was not executed''))))"

text \<open>\<open>_approve\<close>; \<open>None\<close> while it still waits.\<close>

definition approve ::
  "runtime \<Rightarrow> env \<Rightarrow> (json \<Rightarrow> string) option \<Rightarrow> observation list \<Rightarrow> handle \<Rightarrow> string \<Rightarrow> string \<Rightarrow> fields \<Rightarrow> sdb \<Rightarrow>
   sdb \<times> unit result option" where
  "approve rt e handler obs h item name arguments db =
     (case ask_approval rt e h item name arguments db of
        Inl x \<Rightarrow> (db, Some (Inl x))
      | Inr (db, aid) \<Rightarrow>
          (case ask_handler rt e handler h item aid (action_digest rt e name arguments) (action_of name arguments) db of
             (db, Inl x) \<Rightarrow> (db, Some (Inl x))
           | (db, Inr _) \<Rightarrow>
               (case await_decision rt h aid obs db of
                  (db, Undecided) \<Rightarrow> (db, None)
                | (db, Aborted x) \<Rightarrow> (db, Some (Inl x))
                | (db, Decided d) \<Rightarrow> (case conclude rt (clk e 4) h d db of (db, r) \<Rightarrow> (db, Some r)))))"

section \<open>Tools\<close>

definition tool_failed :: "json \<Rightarrow> bool" where
  "tool_failed r =
     (case r of
        JObj kvs \<Rightarrow> (case map_of kvs ''error'' of None \<Rightarrow> False | Some v \<Rightarrow> truth v)
          \<or> map_of kvs ''ok'' = Some (JBool False) \<or> map_of kvs ''success'' = Some (JBool False)
      | JStr s \<Rightarrow> (\<exists>p \<in> set [''Error:'', ''Denied:'', ''File Read Error:'']. starts_with s p)
      | _ \<Rightarrow> False)"

datatype executed = Tool_Result json | Tool_Raised py_error | Tool_Waiting

text \<open>
  \<open>execute\<close>. The tool is a parameter: it may change the database (others act meanwhile) and returns a
  value or raises. The last component tells whether it was called.
\<close>

definition execute ::
  "runtime \<Rightarrow> env \<Rightarrow> (json \<Rightarrow> string) option \<Rightarrow> observation list \<Rightarrow> handle \<Rightarrow> string \<Rightarrow> fields \<Rightarrow>
   (sdb \<Rightarrow> sdb \<times> json result) \<Rightarrow> sdb \<Rightarrow> sdb \<times> executed \<times> bool" where
  "execute rt e handler obs h name arguments tool db =
     (case start_item e h ''tool_execution'' [(''name'', JStr name), (''arguments'', JObj arguments)] db of
        Inl x \<Rightarrow> (db, Tool_Raised x, False)
      | Inr (db, item) \<Rightarrow>
          (let fail = (\<lambda>db x called. (complete_item (clk e 9) h item [(''name'', JStr name), (''error'', JStr (rt_exc rt x))] I_Failed db,
                                  Tool_Raised x, called));
               (db, a) = (if th_ask h \<and> name \<notin> set read_tools
                          then approve rt (sub_env e 1) handler obs h item name arguments db else (db, Some (Inr ())))
           in case a of
                None \<Rightarrow> (db, Tool_Waiting, False)
              | Some (Inl x) \<Rightarrow> fail db x False
              | Some (Inr _) \<Rightarrow>
                  (case should_cancel (rt_show rt) (th_thread h) db of
                     Inl x \<Rightarrow> fail db x False
                   | Inr True \<Rightarrow> fail db (RuntimeError ''Turn cancelled before tool execution'') False
                   | Inr False \<Rightarrow>
                       (case tool db of
                          (db, Inl x) \<Rightarrow> fail db x True
                        | (db, Inr r) \<Rightarrow>
                            (complete_item (clk e 9) h item [(''name'', JStr name), (''result'', r)]
                               (if tool_failed r then I_Failed else I_Completed) db, Tool_Result r, True)))))"

section \<open>Messages and the end\<close>

definition finish_status :: "string \<Rightarrow> session_status" where
  "finish_status s =
     (if s \<in> {''running'', ''waiting_approval'', ''created''} then Needs_Input
      else if s = ''completed'' then Completed else if s = ''failed'' then Failed
      else if s = ''cancelled'' then Cancelled else if s = ''needs_input'' then Needs_Input else Failed)"

text \<open>What \<open>finish\<close> does before it ends the turn: the answer becomes the turn's message.\<close>

definition put_answer :: "env \<Rightarrow> handle \<Rightarrow> string \<Rightarrow> string \<Rightarrow> sdb \<Rightarrow> sdb" where
  "put_answer e h ident answer db =
     (let payload = [(''text'', safe (JStr answer))];
          db = (if answer = [] \<or> th_message h \<noteq> None then db
                else journal (clk e 0) (th_thread h) (th_turn h) ''item.started''
                       (merged [(''item_id'', JStr ident), (''kind'', JStr ''agent_message'')] payload)
                       (db\<lparr>pitems := pitems db @ [\<lparr>pi_id = ident, pi_turn = th_turn h, pi_kind = ''agent_message'',
                              pi_status = I_Running, pi_payload = JObj payload\<rparr>]\<rparr>))
      in if answer = [] then db
         else journal (clk e 1) (th_thread h) (th_turn h) ''item.completed''
                (merged [(''item_id'', JStr ident), (''status'', JStr ''completed'')] payload)
                (db\<lparr>pitems := upd (\<lambda>x. pi_id x = ident) (\<lambda>x. x\<lparr>pi_status := I_Completed, pi_payload := JObj payload\<rparr>) (pitems db)\<rparr>))"

definition finish_turn :: "env \<Rightarrow> handle \<Rightarrow> string \<Rightarrow> string \<Rightarrow> sdb \<Rightarrow> sdb \<times> handle" where
  "finish_turn e h status answer db =
     (if \<not> turn_active (th_turn h) db then (db, h)
      else
        (let ident = (case th_message h of None \<Rightarrow> ''item_'' @ uuid e [0] | Some m \<Rightarrow> m);
             db' = put_answer e h ident answer db
         in (end_turn (\<lambda>i. clk e (2 + i)) (th_thread h) (th_turn h)
               (if thread_cancelled (th_thread h) db' then Cancelled else finish_status status) db',
             if answer = [] then h else h\<lparr>th_message := Some ident\<rparr>)))"

definition text_delta :: "env \<Rightarrow> handle \<Rightarrow> string \<Rightarrow> sdb \<Rightarrow> sdb \<times> handle result" where
  "text_delta e h text db =
     (case (case th_message h of
              Some m \<Rightarrow> Inr (db, m)
            | None \<Rightarrow> start_item e h ''agent_message'' [(''text'', JStr [])] db) of
        Inl x \<Rightarrow> (db, Inl x)
      | Inr (db, m) \<Rightarrow>
          (let h = h\<lparr>th_message := Some m\<rparr>
           in case fetchone (filter (\<lambda>x. pi_id x = m) (pitems db)) of
                None \<Rightarrow> (db, Inr h)
              | Some row \<Rightarrow>
                  if pi_status row \<noteq> I_Running then (db, Inr h)
                  else
                    (let add = redact False text;
                         grown = (case pi_payload row of
                           JObj kvs \<Rightarrow> merged kvs [(''text'', JStr ((case map_of kvs ''text'' of Some (JStr s) \<Rightarrow> s | _ \<Rightarrow> []) @ add))]
                         | p \<Rightarrow> p)
                     in (journal (clk e 1) (th_thread h) (th_turn h) ''item.delta'' (JObj [(''item_id'', JStr m), (''text'', JStr add)])
                           (db\<lparr>pitems := upd (\<lambda>x. pi_id x = m) (\<lambda>x. x\<lparr>pi_payload := grown\<rparr>) (pitems db)\<rparr>), Inr h))))"

definition progress :: "env \<Rightarrow> (json \<Rightarrow> string) \<Rightarrow> handle \<Rightarrow> string \<Rightarrow> fields \<Rightarrow> sdb \<Rightarrow> sdb \<times> handle result" where
  "progress e show h kind data db =
     (if kind = ''answer'' \<and> (case map_of data ''answer'' of None \<Rightarrow> False | Some v \<Rightarrow> truth v)
      then text_delta e h (text_or_empty show (map_of data ''answer'')) db
      else if kind \<notin> {''context_packed'', ''model_request'', ''model_retry''} then (db, Inr h)
      else (journal (clk e 0) (th_thread h) (th_turn h) (if kind = ''context_packed'' then ''turn.context'' else ''turn.progress'')
              (merged [(''phase'', JStr kind)] (safe_fields data)) db, Inr h))"

definition end_all :: "(nat \<Rightarrow> nat \<Rightarrow> time) \<Rightarrow> string \<Rightarrow> pturn list \<Rightarrow> sdb \<Rightarrow> sdb" where
  "end_all now thread ts db = fold (\<lambda>(i, t). end_turn (now i) thread (pt_id t) Cancelled) (enumerate_from 0 ts) db"

definition interrupt :: "runtime \<Rightarrow> env \<Rightarrow> string \<Rightarrow> sdb \<Rightarrow> sdb \<times> unit result" where
  "interrupt rt e thread db =
     (case request_cancel (rt_show rt) (rt_cap rt) (clk e 0) thread ''cancelled by user'' db of
        (db, Inl x) \<Rightarrow> (db, Inl x)
      | (db, Inr _) \<Rightarrow>
          (end_all (\<lambda>i j. clk (sub_env e (Suc i)) j) thread (filter (running_turn thread) (pturns db)) db, Inr ()))"

section \<open>Reading\<close>

definition history :: "string \<Rightarrow> int \<Rightarrow> sdb \<Rightarrow> (string \<times> json) list" where
  "history thread limit db =
     (let rows = [i. i \<leftarrow> pitems db, t \<leftarrow> pturns db, pt_id t = pi_turn i \<and> pt_thread t = thread \<and> pi_status i = I_Completed
                     \<and> pi_kind i \<in> {''user_message'', ''agent_message''}]
      in map (\<lambda>i. (if pi_kind i = ''user_message'' then ''user'' else ''assistant'',
                   case jget ''text'' (pi_payload i) of None \<Rightarrow> JStr [] | Some v \<Rightarrow> v))
           (take_last (nat (max 1 (min limit 100))) rows))"

record page =
  pg_turns :: "pturn list"
  pg_items :: "pitem list"
  pg_approvals :: "papproval list"
  pg_events :: "pevent list"
  pg_cursor :: int
  pg_resume :: bool
  pg_more :: bool

text \<open>The newest sequence of a thread's journal and the events after a cursor.\<close>

definition thread_events :: "string \<Rightarrow> sdb \<Rightarrow> pevent list" where
  "thread_events thread db = filter (\<lambda>v. pe_thread v = thread) (pevents db)"

definition latest_seq :: "string \<Rightarrow> sdb \<Rightarrow> int" where
  "latest_seq thread db = fold max (map pe_sequence (thread_events thread db)) 0"

definition snapshot :: "runtime \<Rightarrow> string \<Rightarrow> int \<Rightarrow> int \<Rightarrow> sdb \<Rightarrow> page result" where
  "snapshot rt thread after limit db =
     andThen (get_session (rt_show rt) thread db)
       (\<lambda>x. if x = None then Inl (KeyError thread)
            else
              (let after = max 0 after; limit = max 1 (min limit 500); latest = latest_seq thread db
               in if after > latest then Inl (ValueError ''Event cursor is ahead of this thread's journal'')
                  else
                    (let rows = take (nat limit) (sort_key pe_sequence (filter (\<lambda>v. pe_sequence v > after) (thread_events thread db)));
                         turns = take 50 (sort_key (\<lambda>t. - pt_created t) (filter (\<lambda>t. pt_thread t = thread) (pturns db)));
                         current = (case fetchone (filter (\<lambda>t. active_status (pt_status t)) turns) of
                                      Some t \<Rightarrow> Some t | None \<Rightarrow> fetchone turns);
                         items = (case current of None \<Rightarrow> [] | Some t \<Rightarrow> take 500 (filter (\<lambda>i. pi_turn i = pt_id t) (pitems db)));
                         approvals = (case current of None \<Rightarrow> []
                           | Some t \<Rightarrow> filter (\<lambda>a. pa_turn a = pt_id t \<and> pa_decision a = D_Pending) (papprovals db));
                         cursor = (if rows = [] then after else pe_sequence (last rows));
                         resume = (case current of None \<Rightarrow> False
                           | Some t \<Rightarrow> pt_status t \<notin> {Completed, Cancelled}
                               \<and> \<not> (active_status (pt_status t) \<and> (pt_owner t \<in> {None, Some 0} \<or> rt_alive rt (the (pt_owner t))))
                               \<and> (\<exists>i \<in> set items. pi_kind i = ''execution_checkpoint''))
                     in Inr \<lparr>pg_turns = turns, pg_items = items, pg_approvals = approvals, pg_events = rows, pg_cursor = cursor,
                             pg_resume = resume, pg_more = (cursor < latest)\<rparr>)))"

text \<open>The \<open>approval/list\<close> method of the dispatcher.\<close>

definition approval_list :: "string \<Rightarrow> sdb \<Rightarrow> papproval list result" where
  "approval_list thread db =
     (case session_at thread db of
        None \<Rightarrow> Inl (KeyError thread)
      | Some s \<Rightarrow> Inr (if ss_cancel s then []
           else [a. a \<leftarrow> papprovals db, t \<leftarrow> pturns db, pt_id t = pa_turn a \<and> pt_thread t = thread \<and> active_status (pt_status t)
                    \<and> pa_decision a = D_Pending]))"

end
