(* ===== verification/ProtocolInv.thy ===== *)
theory ProtocolInv
  imports Protocol
begin

text \<open>
  What holds in every reachable database of the session protocol: at most one active turn per thread,
  nothing of an ended turn still running or pending, an event log without gaps; and decisions that are
  never revised.
\<close>

section \<open>The invariant of the protocol tables\<close>

text \<open>
  Ids are unique, a thread has at most one active turn, every item and approval belongs to a turn, and
  what still runs or waits for a decision belongs to an active one. The journal is numbered 1, 2, ...
\<close>

definition rows_ok :: "pturn list \<Rightarrow> pitem list \<Rightarrow> papproval list \<Rightarrow> bool" where
  "rows_ok ts is as \<longleftrightarrow>
     distinct (map pt_id ts) \<and> distinct (map pi_id is) \<and> distinct (map pa_id as) \<and>
     (\<forall>t \<in> set ts. \<forall>u \<in> set ts. active_status (pt_status t) \<longrightarrow> active_status (pt_status u) \<longrightarrow>
        pt_thread t = pt_thread u \<longrightarrow> pt_id t = pt_id u) \<and>
     (\<forall>i \<in> set is. \<exists>t \<in> set ts. pt_id t = pi_turn i \<and> (pi_status i = I_Running \<longrightarrow> active_status (pt_status t))) \<and>
     (\<forall>a \<in> set as. \<exists>t \<in> set ts. pt_id t = pa_turn a \<and> (pa_decision a = D_Pending \<longrightarrow> active_status (pt_status t)))"

definition journal_ok :: "sdb \<Rightarrow> bool" where
  "journal_ok db \<longleftrightarrow> map pe_sequence (pevents db) = map int [1..<Suc (length (pevents db))]
     \<and> last_seq db = int (length (pevents db))"

definition proto_inv :: "sdb \<Rightarrow> bool" where
  "proto_inv db \<longleftrightarrow> rows_ok (pturns db) (pitems db) (papprovals db) \<and> journal_ok db"

lemma journal_fields [simp]:
  "sessions (journal now th tu k p db) = sessions db" "sevents (journal now th tu k p db) = sevents db"
  "pturns (journal now th tu k p db) = pturns db" "pitems (journal now th tu k p db) = pitems db"
  "papprovals (journal now th tu k p db) = papprovals db"
  by (simp_all add: journal_def)

lemma journal_journal_ok [simp]: "journal_ok db \<Longrightarrow> journal_ok (journal now th tu k p db)"
  by (simp add: journal_ok_def journal_def)

lemma journal_ok_fields [simp]:
  "journal_ok (db\<lparr>pturns := ts\<rparr>) = journal_ok db" "journal_ok (db\<lparr>pitems := is\<rparr>) = journal_ok db"
  "journal_ok (db\<lparr>papprovals := as\<rparr>) = journal_ok db" "journal_ok (db\<lparr>sessions := ss\<rparr>) = journal_ok db"
  "journal_ok (db\<lparr>sevents := es\<rparr>) = journal_ok db"
  by (simp_all add: journal_ok_def)

lemma close_items_fields [simp]:
  "sessions (close_items now n th tu st is db) = sessions db" "sevents (close_items now n th tu st is db) = sevents db"
  "pturns (close_items now n th tu st is db) = pturns db" "papprovals (close_items now n th tu st is db) = papprovals db"
  by (induction "is" arbitrary: n db) simp_all

lemma close_items_journal [simp]: "journal_ok db \<Longrightarrow> journal_ok (close_items now n th tu st is db)"
  by (induction "is" arbitrary: n db) simp_all

lemma close_items_rows:
  "pitems (close_items now n th tu st is db) = upd (\<lambda>x. pi_id x \<in> set is) (\<lambda>x. x\<lparr>pi_status := item_end st\<rparr>) (pitems db)"
proof (induction "is" arbitrary: n db)
  case Nil
  show ?case by (simp add: upd_def)
next
  case (Cons i "is")
  have "upd (\<lambda>x. pi_id x \<in> A) f (upd (\<lambda>x. pi_id x = i) f rows) = upd (\<lambda>x. pi_id x \<in> insert i A) f rows"
    if "f = (\<lambda>x. x\<lparr>pi_status := item_end st\<rparr>)" for A f and rows :: "pitem list"
    using that by (induction rows) auto
  then show ?case using Cons.IH by simp
qed

lemma end_turn_sessions [simp]:
  "sessions (end_turn now th tu st db) = sessions db" "sevents (end_turn now th tu st db) = sevents db"
  by (simp_all add: end_turn_def Let_def)

lemma end_turn_journal [simp]: "journal_ok db \<Longrightarrow> journal_ok (end_turn now th tu st db)"
  by (simp add: end_turn_def Let_def)

lemma end_turn_rows:
  "pturns (end_turn now th tu st db) = upd (\<lambda>t. pt_id t = tu) (\<lambda>t. t\<lparr>pt_status := st, pt_ended := Some (now 0)\<rparr>) (pturns db)"
  "papprovals (end_turn now th tu st db) = upd (\<lambda>a. pa_turn a = tu \<and> pa_decision a = D_Pending) (\<lambda>a. a\<lparr>pa_decision := D_Expired\<rparr>) (papprovals db)"
  "pitems (end_turn now th tu st db) = upd (\<lambda>x. pi_id x \<in> pi_id ` {i \<in> set (pitems db). pi_turn i = tu \<and> pi_status i = I_Running})
     (\<lambda>x. x\<lparr>pi_status := item_end st\<rparr>) (pitems db)"
  by (simp_all add: end_turn_def Let_def close_items_rows)

lemma rows_okD:
  assumes "rows_ok ts is as"
  shows "distinct (map pt_id ts)" "distinct (map pi_id is)" "distinct (map pa_id as)"
    "t \<in> set ts \<Longrightarrow> u \<in> set ts \<Longrightarrow> active_status (pt_status t) \<Longrightarrow> active_status (pt_status u) \<Longrightarrow> pt_thread t = pt_thread u \<Longrightarrow> pt_id t = pt_id u"
    "i \<in> set is \<Longrightarrow> \<exists>t \<in> set ts. pt_id t = pi_turn i \<and> (pi_status i = I_Running \<longrightarrow> active_status (pt_status t))"
    "a \<in> set as \<Longrightarrow> \<exists>t \<in> set ts. pt_id t = pa_turn a \<and> (pa_decision a = D_Pending \<longrightarrow> active_status (pt_status t))"
  using assms unfolding rows_ok_def by blast+

lemma rows_okI:
  assumes "distinct (map pt_id ts)" "distinct (map pi_id is)" "distinct (map pa_id as)"
    "\<And>t u. t \<in> set ts \<Longrightarrow> u \<in> set ts \<Longrightarrow> active_status (pt_status t) \<Longrightarrow> active_status (pt_status u) \<Longrightarrow> pt_thread t = pt_thread u \<Longrightarrow> pt_id t = pt_id u"
    "\<And>i. i \<in> set is \<Longrightarrow> \<exists>t \<in> set ts. pt_id t = pi_turn i \<and> (pi_status i = I_Running \<longrightarrow> active_status (pt_status t))"
    "\<And>a. a \<in> set as \<Longrightarrow> \<exists>t \<in> set ts. pt_id t = pa_turn a \<and> (pa_decision a = D_Pending \<longrightarrow> active_status (pt_status t))"
  shows "rows_ok ts is as"
  unfolding rows_ok_def using assms by (intro conjI ballI impI) blast+

text \<open>Rows may change while they keep their keys, and nothing is revived.\<close>

lemma rows_ok_upd_turns:
  assumes ok: "rows_ok ts is as" and keep: "\<And>t. pt_id (f t) = pt_id t" "\<And>t. pt_thread (f t) = pt_thread t"
    and act: "\<And>t. t \<in> set ts \<Longrightarrow> P t \<Longrightarrow> active_status (pt_status (f t)) = active_status (pt_status t)"
  shows "rows_ok (upd P f ts) is as"
proof -
  note d = rows_okD [OF ok]
  have wit: "\<exists>t' \<in> set (upd P f ts). pt_id t' = pt_id t \<and> pt_thread t' = pt_thread t \<and> active_status (pt_status t') = active_status (pt_status t)"
    if "t \<in> set ts" for t
    by (rule bexI [of _ "if P t then f t else t"]) (use that keep act in \<open>auto simp: upd_def\<close>)
  have "\<exists>t \<in> set ts. pt_id t = pt_id t' \<and> pt_thread t = pt_thread t' \<and> active_status (pt_status t) = active_status (pt_status t')"
    if "t' \<in> set (upd P f ts)" for t'
    using that keep act unfolding in_upd by fastforce
  then have single: "pt_id t' = pt_id u'" if "t' \<in> set (upd P f ts)" "u' \<in> set (upd P f ts)" "active_status (pt_status t')"
    "active_status (pt_status u')" "pt_thread t' = pt_thread u'" for t' u'
    using that d(4) by metis
  show ?thesis
    unfolding rows_ok_def
  proof (intro conjI ballI impI)
    show "distinct (map pt_id (upd P f ts))" using d(1) keep by (simp add: map_upd)
    show "\<exists>t\<in>set (upd P f ts). pt_id t = pi_turn i \<and> (pi_status i = I_Running \<longrightarrow> active_status (pt_status t))" if "i \<in> set is" for i
      using d(5) [OF that] wit by metis
    show "\<exists>t\<in>set (upd P f ts). pt_id t = pa_turn a \<and> (pa_decision a = D_Pending \<longrightarrow> active_status (pt_status t))" if "a \<in> set as" for a
      using d(6) [OF that] wit by metis
  qed (use d(2,3) single in blast)+
qed

lemma rows_ok_upd_items:
  assumes ok: "rows_ok ts is as" and keep: "\<And>i. pi_id (f i) = pi_id i" "\<And>i. pi_turn (f i) = pi_turn i"
    and run: "\<And>i. i \<in> set is \<Longrightarrow> P i \<Longrightarrow> pi_status (f i) = I_Running \<Longrightarrow> pi_status i = I_Running"
  shows "rows_ok ts (upd P f is) as"
proof -
  note d = rows_okD [OF ok]
  have "\<exists>t\<in>set ts. pt_id t = pi_turn i \<and> (pi_status i = I_Running \<longrightarrow> active_status (pt_status t))" if "i \<in> set (upd P f is)" for i
  proof -
    obtain j where j: "j \<in> set is" "i = (if P j then f j else j)" using \<open>i \<in> set (upd P f is)\<close> unfolding in_upd by blast
    then show ?thesis using d(5) [OF j(1)] keep run by (cases "P j") auto
  qed
  moreover have "distinct (map pi_id (upd P f is))" using d(2) keep(1) by (simp add: map_upd)
  ultimately show ?thesis by (intro rows_okI d(1,3,4,6)) assumption+
qed

lemma rows_ok_upd_approvals:
  assumes ok: "rows_ok ts is as" and keep: "\<And>a. pa_id (f a) = pa_id a" "\<And>a. pa_turn (f a) = pa_turn a"
    and dec: "\<And>a. a \<in> set as \<Longrightarrow> P a \<Longrightarrow> pa_decision (f a) = D_Pending \<Longrightarrow> pa_decision a = D_Pending"
  shows "rows_ok ts is (upd P f as)"
proof -
  note d = rows_okD [OF ok]
  have "\<exists>t\<in>set ts. pt_id t = pa_turn a \<and> (pa_decision a = D_Pending \<longrightarrow> active_status (pt_status t))" if "a \<in> set (upd P f as)" for a
  proof -
    obtain j where j: "j \<in> set as" "a = (if P j then f j else j)" using \<open>a \<in> set (upd P f as)\<close> unfolding in_upd by blast
    then show ?thesis using d(6) [OF j(1)] keep dec by (cases "P j") auto
  qed
  moreover have "distinct (map pa_id (upd P f as))" using d(3) keep(1) by (simp add: map_upd)
  ultimately show ?thesis by (intro rows_okI d(1,2,4,5)) assumption+
qed

lemma rows_ok_add_item:
  assumes ok: "rows_ok ts is as" and new: "pi_id i \<notin> pi_id ` set is"
    and t: "t \<in> set ts" "pt_id t = pi_turn i" "active_status (pt_status t)"
  shows "rows_ok ts (is @ [i]) as"
proof -
  note d = rows_okD [OF ok]
  have "distinct (map pi_id (is @ [i]))" using d(2) new by simp
  moreover have "\<exists>t\<in>set ts. pt_id t = pi_turn j \<and> (pi_status j = I_Running \<longrightarrow> active_status (pt_status t))" if "j \<in> set (is @ [i])" for j
    using that d(5) t by (cases "j = i") auto
  ultimately show ?thesis by (intro rows_okI d(1,3,4,6)) assumption+
qed

lemma rows_ok_add_approval:
  assumes ok: "rows_ok ts is as" and new: "pa_id a \<notin> pa_id ` set as"
    and t: "t \<in> set ts" "pt_id t = pa_turn a" "active_status (pt_status t)"
  shows "rows_ok ts is (as @ [a])"
proof -
  note d = rows_okD [OF ok]
  have "distinct (map pa_id (as @ [a]))" using d(3) new by simp
  moreover have "\<exists>t\<in>set ts. pt_id t = pa_turn b \<and> (pa_decision b = D_Pending \<longrightarrow> active_status (pt_status t))" if "b \<in> set (as @ [a])" for b
    using that d(6) t by (cases "b = a") auto
  ultimately show ?thesis by (intro rows_okI d(1,2,4,5)) assumption+
qed

lemma rows_ok_add_turn:
  assumes ok: "rows_ok ts is as" and new: "pt_id t \<notin> pt_id ` set ts"
    and free: "\<not> (\<exists>u \<in> set ts. running_turn (pt_thread t) u)"
  shows "rows_ok (ts @ [t]) is as"
proof (rule rows_okI)
  note d = rows_okD [OF ok]
  show "distinct (map pt_id (ts @ [t]))" using d(1) new by simp
  show "distinct (map pi_id is)" "distinct (map pa_id as)" by (fact d(2), fact d(3))
  show "pt_id x = pt_id y" if "x \<in> set (ts @ [t])" "y \<in> set (ts @ [t])" "active_status (pt_status x)" "active_status (pt_status y)"
    "pt_thread x = pt_thread y" for x y
  proof (cases "x = t \<or> y = t")
    case True
    then show ?thesis using that free by auto
  next
    case False
    then have "x \<in> set ts" "y \<in> set ts" using that(1,2) by auto
    then show ?thesis by (rule d(4)) (fact that)+
  qed
  show "\<exists>x\<in>set (ts @ [t]). pt_id x = pi_turn i \<and> (pi_status i = I_Running \<longrightarrow> active_status (pt_status x))" if "i \<in> set is" for i
    using d(5) [OF that] by auto
  show "\<exists>x\<in>set (ts @ [t]). pt_id x = pa_turn a \<and> (pa_decision a = D_Pending \<longrightarrow> active_status (pt_status x))" if "a \<in> set as" for a
    using d(6) [OF that] by auto
qed

text \<open>Ending a turn closes exactly what belongs to it.\<close>

lemma end_turn_inv:
  assumes inv: "proto_inv db" and st: "\<not> active_status st"
  shows "proto_inv (end_turn now th tu st db)"
proof -
  have ok: "rows_ok (pturns db) (pitems db) (papprovals db)" and j: "journal_ok db" using inv by (auto simp: proto_inv_def)
  note d = rows_okD [OF ok]
  let ?f = "\<lambda>t. t\<lparr>pt_status := st, pt_ended := Some (now 0)\<rparr>"
  let ?ts = "upd (\<lambda>t. pt_id t = tu) ?f (pturns db)"
  have wit: "\<exists>t' \<in> set ?ts. pt_id t' = pt_id t \<and> (pt_id t \<noteq> tu \<longrightarrow> pt_status t' = pt_status t)" if "t \<in> set (pturns db)" for t
    by (rule bexI [of _ "if pt_id t = tu then ?f t else t"]) (use that in \<open>auto simp: upd_def\<close>)
  have origin: "\<exists>t \<in> set (pturns db). t = t'" if "t' \<in> set ?ts" "active_status (pt_status t')" for t'
    using that st unfolding in_upd by (auto split: if_splits)
  have "rows_ok (pturns (end_turn now th tu st db)) (pitems (end_turn now th tu st db)) (papprovals (end_turn now th tu st db))"
    unfolding end_turn_rows
  proof (rule rows_okI)
    show "distinct (map pt_id ?ts)" using d(1) by (simp add: map_upd)
    show "pt_id t = pt_id u" if "t \<in> set ?ts" "u \<in> set ?ts" "active_status (pt_status t)" "active_status (pt_status u)"
      "pt_thread t = pt_thread u" for t u
      using origin [OF that(1,3)] origin [OF that(2,4)] d(4) [OF _ _ that(3-5)] by blast
  next
    fix i assume "i \<in> set (upd (\<lambda>x. pi_id x \<in> pi_id ` {i \<in> set (pitems db). pi_turn i = tu \<and> pi_status i = I_Running})
       (\<lambda>x. x\<lparr>pi_status := item_end st\<rparr>) (pitems db))"
    then obtain k where k: "k \<in> set (pitems db)" "i = (if pi_id k \<in> pi_id ` {i \<in> set (pitems db). pi_turn i = tu \<and> pi_status i = I_Running}
        then k\<lparr>pi_status := item_end st\<rparr> else k)" unfolding in_upd by blast
    obtain t where t: "t \<in> set (pturns db)" "pt_id t = pi_turn k" "pi_status k = I_Running \<longrightarrow> active_status (pt_status t)"
      using d(5) [OF k(1)] by blast
    obtain t' where t': "t' \<in> set ?ts" "pt_id t' = pt_id t" "pt_id t \<noteq> tu \<longrightarrow> pt_status t' = pt_status t" using wit [OF t(1)] by blast
    let ?hit = "pi_id k \<in> pi_id ` {i \<in> set (pitems db). pi_turn i = tu \<and> pi_status i = I_Running}"
    have turn: "pi_turn i = pi_turn k" using k(2) by (cases ?hit) simp_all
    have live: "active_status (pt_status t')" if run: "pi_status i = I_Running"
    proof -
      have "\<not> ?hit" using run k(2) by (cases "st = Cancelled") (auto simp: item_end_def)
      then have "i = k" using k(2) by simp
      then have "pi_turn k \<noteq> tu" using run k(1) \<open>\<not> ?hit\<close> by blast
      then show ?thesis using t t' run \<open>i = k\<close> by simp
    qed
    show "\<exists>t\<in>set ?ts. pt_id t = pi_turn i \<and> (pi_status i = I_Running \<longrightarrow> active_status (pt_status t))"
      by (rule bexI [OF _ t'(1)]) (use live turn t t' in simp)
  next
    fix a assume "a \<in> set (upd (\<lambda>a. pa_turn a = tu \<and> pa_decision a = D_Pending) (\<lambda>a. a\<lparr>pa_decision := D_Expired\<rparr>) (papprovals db))"
    then obtain b where b: "b \<in> set (papprovals db)" "a = (if pa_turn b = tu \<and> pa_decision b = D_Pending then b\<lparr>pa_decision := D_Expired\<rparr> else b)"
      unfolding in_upd by blast
    obtain t where t: "t \<in> set (pturns db)" "pt_id t = pa_turn b" "pa_decision b = D_Pending \<longrightarrow> active_status (pt_status t)"
      using d(6) [OF b(1)] by blast
    obtain t' where t': "t' \<in> set ?ts" "pt_id t' = pt_id t" "pt_id t \<noteq> tu \<longrightarrow> pt_status t' = pt_status t" using wit [OF t(1)] by blast
    show "\<exists>t\<in>set ?ts. pt_id t = pa_turn a \<and> (pa_decision a = D_Pending \<longrightarrow> active_status (pt_status t))"
      using t t' b(2) by (intro bexI [OF _ t'(1)]) (auto split: if_splits)
  qed (use d(2,3) in \<open>simp_all add: map_upd\<close>)
  then show ?thesis using j unfolding proto_inv_def by simp
qed

section \<open>Every operation keeps the invariant\<close>

lemma proto_invI: "rows_ok (pturns db) (pitems db) (papprovals db) \<Longrightarrow> journal_ok db \<Longrightarrow> proto_inv db"
  by (simp add: proto_inv_def)

lemma proto_invD:
  assumes "proto_inv db"
  shows "rows_ok (pturns db) (pitems db) (papprovals db)" "journal_ok db"
  using assms by (simp_all add: proto_inv_def)

lemma proto_inv_same:
  assumes "proto_inv db" and "pturns db' = pturns db" "pitems db' = pitems db" "papprovals db' = papprovals db"
    "pevents db' = pevents db" "last_seq db' = last_seq db"
  shows "proto_inv db'"
  using assms by (simp add: proto_inv_def journal_ok_def)

lemma journal_inv [simp]: "proto_inv db \<Longrightarrow> proto_inv (journal now th tu k p db)"
  by (simp add: proto_inv_def)

lemma turn_activeD: "turn_active tu db \<Longrightarrow> \<exists>t \<in> set (pturns db). pt_id t = tu \<and> active_status (pt_status t)"
  by (auto simp: turn_active_def split: option.splits dest: fetchone_SomeD)

lemma start_item_inv:
  assumes inv: "proto_inv db" and run: "start_item e h kind p db = Inr (db', i)"
    and new: "''item_'' @ uuid e [0] \<notin> pi_id ` set (pitems db)"
  shows "proto_inv db' \<and> pturns db' = pturns db \<and> sessions db' = sessions db \<and> sevents db' = sevents db"
proof -
  have act: "turn_active (th_turn h) db" using run by (auto simp: start_item_def Let_def split: if_splits)
  obtain t where t: "t \<in> set (pturns db)" "pt_id t = th_turn h" "active_status (pt_status t)" using turn_activeD [OF act] by blast
  let ?i = "\<lparr>pi_id = ''item_'' @ uuid e [0], pi_turn = th_turn h, pi_kind = kind, pi_status = I_Running, pi_payload = JObj (safe_fields p)\<rparr>"
  have "rows_ok (pturns db) (pitems db @ [?i]) (papprovals db)"
    by (rule rows_ok_add_item [OF proto_invD(1) [OF inv] _ t(1)]) (use new t in simp_all)
  then have "proto_inv (db\<lparr>pitems := pitems db @ [?i]\<rparr>)" using proto_invD(2) [OF inv] by (simp add: proto_inv_def)
  then show ?thesis using run act by (auto simp: start_item_def Let_def)
qed

lemma upd_items_inv:
  assumes "proto_inv db" "\<And>i. pi_id (f i) = pi_id i" "\<And>i. pi_turn (f i) = pi_turn i"
    and "\<And>i. P i \<Longrightarrow> pi_status (f i) = I_Running \<Longrightarrow> pi_status i = I_Running"
  shows "proto_inv (db\<lparr>pitems := upd P f (pitems db)\<rparr>)"
  using rows_ok_upd_items [OF proto_invD(1) [OF assms(1)] assms(2,3), of P] assms(4) proto_invD(2) [OF assms(1)]
  by (simp add: proto_inv_def)

lemma upd_approvals_inv:
  assumes "proto_inv db" "\<And>a. pa_id (f a) = pa_id a" "\<And>a. pa_turn (f a) = pa_turn a" "\<And>a. pa_decision (f a) \<noteq> D_Pending"
  shows "proto_inv (db\<lparr>papprovals := upd P f (papprovals db)\<rparr>)"
  using rows_ok_upd_approvals [OF proto_invD(1) [OF assms(1)] assms(2,3), of P] assms(4) proto_invD(2) [OF assms(1)]
  by (simp add: proto_inv_def)

lemma upd_turns_inv:
  assumes "proto_inv db" "\<And>t. pt_id (f t) = pt_id t" "\<And>t. pt_thread (f t) = pt_thread t"
    and "\<And>t. t \<in> set (pturns db) \<Longrightarrow> P t \<Longrightarrow> active_status (pt_status (f t)) = active_status (pt_status t)"
  shows "proto_inv (db\<lparr>pturns := upd P f (pturns db)\<rparr>)"
  using rows_ok_upd_turns [OF proto_invD(1) [OF assms(1)] assms(2,3), of P] assms(4) proto_invD(2) [OF assms(1)]
  by (simp add: proto_inv_def)

lemma complete_item_inv: "proto_inv db \<Longrightarrow> proto_inv (complete_item now h i p st db)"
  by (auto simp: complete_item_def Let_def intro!: journal_inv upd_items_inv)

lemma expire_approval_inv: "proto_inv db \<Longrightarrow> proto_inv (expire_approval now h aid db)"
  by (auto simp: expire_approval_def Let_def intro!: journal_inv upd_approvals_inv)

lemma respond_inv:
  assumes inv: "proto_inv db" and run: "respond rt now th aid tu sha dec db = Inr (db', d)"
  shows "proto_inv db'"
proof -
  have "db' = db \<or> (\<exists>d. d \<noteq> D_Pending \<and> db' = journal now th tu ''approval.resolved'' (resolved aid d)
      (db\<lparr>papprovals := upd (\<lambda>x. pa_id x = aid) (\<lambda>x. x\<lparr>pa_decision := d\<rparr>) (papprovals db)\<rparr>))"
    using run by (auto simp: respond_def Let_def split: if_splits option.splits)
  then show ?thesis using inv by (auto intro!: journal_inv upd_approvals_inv)
qed

lemma ask_approval_inv:
  assumes inv: "proto_inv db" and run: "ask_approval rt e h item name args db = Inr (db', aid)"
    and new: "''approval_'' @ uuid e [0] \<notin> pa_id ` set (papprovals db)"
  shows "proto_inv db'"
proof -
  have act: "turn_active (th_turn h) db" using run by (auto simp: ask_approval_def Let_def split: if_splits)
  obtain t where t: "t \<in> set (pturns db)" "pt_id t = th_turn h" "active_status (pt_status t)" using turn_activeD [OF act] by blast
  let ?a = "\<lparr>pa_id = ''approval_'' @ uuid e [0], pa_turn = th_turn h, pa_item = item, pa_sha = action_digest rt e name args,
       pa_action = safe (action_of name args), pa_decision = D_Pending, pa_created = clk e 0\<rparr>"
  let ?db = "db\<lparr>papprovals := papprovals db @ [?a]\<rparr>"
  have "proto_inv ?db"
    using rows_ok_add_approval [OF proto_invD(1) [OF inv] _ t(1), of ?a] new t proto_invD(2) [OF inv] by (simp add: proto_inv_def)
  moreover have "active_status (pt_status u)" if "u \<in> set (pturns db)" "pt_id u = th_turn h" for u
    using key_inj [OF rows_okD(1) [OF proto_invD(1) [OF inv]] that(1) t(1)] that(2) t by simp
  ultimately have "proto_inv (?db\<lparr>pturns := upd (\<lambda>t. pt_id t = th_turn h) (\<lambda>t. t\<lparr>pt_status := Waiting\<rparr>) (pturns ?db)\<rparr>)"
    by (intro upd_turns_inv) (simp_all add: active_status_def)
  then show ?thesis using run act by (auto simp: ask_approval_def Let_def)
qed

lemma release_thread_cases:
  assumes "release_thread e alive th db = Inr db1"
  shows "(db1 = db \<and> fetchone (filter (running_turn th) (pturns db)) = None) \<or>
    (\<exists>t k p. t \<in> set (pturns db) \<and> running_turn th t \<and>
       db1 = journal (clk e 0) th (pt_id t) k p (end_turn (\<lambda>i. clk e (Suc i)) th (pt_id t) Needs_Input db))"
proof (cases "fetchone (filter (running_turn th) (pturns db))")
  case None
  then show ?thesis using assms by (simp add: release_thread_def)
next
  case (Some t)
  then show ?thesis using assms fetchone_SomeD [OF Some] unfolding release_thread_def by (auto split: if_splits)
qed

lemma release_thread_inv:
  assumes "proto_inv db" and run: "release_thread e alive th db = Inr db1"
  shows "proto_inv db1 \<and> pt_id ` set (pturns db1) = pt_id ` set (pturns db) \<and> sessions db1 = sessions db \<and> sevents db1 = sevents db"
proof -
  have "pt_id ` set (pturns (end_turn now th tu st db)) = pt_id ` set (pturns db)" for now tu st
    unfolding end_turn_rows by (rule image_upd) simp
  moreover have "proto_inv (end_turn now th tu Needs_Input db)" for now tu
    by (rule end_turn_inv [OF assms(1)]) (simp add: active_status_def)
  ultimately show ?thesis using release_thread_cases [OF run] assms(1) by fastforce
qed

lemma open_turn_parts:
  assumes "open_turn e alive pid th req mode db = Inr (db', h)"
  shows "\<exists>db1. release_thread e alive th db = Inr db1 \<and> insert_turn e pid th (''turn_'' @ uuid e [0]) mode db1 = Inr db'"
  using assms unfolding open_turn_def Let_def by (auto split: if_splits)

lemma open_turn_inv:
  assumes inv: "proto_inv db" and run: "open_turn e alive pid th req mode db = Inr (db', h)"
    and new: "''turn_'' @ uuid e [0] \<notin> pt_id ` set (pturns db)"
  shows "proto_inv db' \<and> sessions db' = sessions db \<and> sevents db' = sevents db"
proof -
  let ?t = "\<lparr>pt_id = ''turn_'' @ uuid e [0], pt_thread = th, pt_status = Running, pt_created = clk e 0, pt_ended = None, pt_owner = Some pid\<rparr>"
  obtain db1 where db1: "release_thread e alive th db = Inr db1" "insert_turn e pid th (''turn_'' @ uuid e [0]) mode db1 = Inr db'"
    using open_turn_parts [OF run] by blast
  have inv1: "proto_inv db1" "pt_id ` set (pturns db1) = pt_id ` set (pturns db)" "sessions db1 = sessions db" "sevents db1 = sevents db"
    using release_thread_inv [OF inv db1(1)] by auto
  have free: "\<not> (\<exists>t \<in> set (pturns db1). running_turn th t)"
    using db1(2) unfolding insert_turn_def by (meson Inl_Inr_False)
  have "rows_ok (pturns db1 @ [?t]) (pitems db1) (papprovals db1)"
    by (rule rows_ok_add_turn [OF proto_invD(1) [OF inv1(1)]]) (use new inv1(2) free in auto)
  then have "proto_inv (db1\<lparr>pturns := pturns db1 @ [?t]\<rparr>)" using proto_invD(2) [OF inv1(1)] by (simp add: proto_inv_def)
  then show ?thesis using db1(2) free inv1(3,4) by (auto simp: insert_turn_def)
qed

text \<open>The unique index is never violated: an active turn of the thread is refused or ended first.\<close>

lemma open_turn_no_conflict:
  assumes inv: "proto_inv db"
  shows "open_turn e alive pid th req mode db \<noteq> Inl IntegrityError"
proof -
  have "insert_turn e pid th tu mode db1 \<noteq> Inl IntegrityError" if rel: "release_thread e alive th db = Inr db1" for db1 tu
  proof -
    have "\<not> running_turn th u" if u: "u \<in> set (pturns db1)" for u
      using release_thread_cases [OF rel]
    proof
      assume "db1 = db \<and> fetchone (filter (running_turn th) (pturns db)) = None"
      then show ?thesis using u by (auto simp: filter_empty_conv)
    next
      assume "\<exists>t k p. t \<in> set (pturns db) \<and> running_turn th t \<and>
         db1 = journal (clk e 0) th (pt_id t) k p (end_turn (\<lambda>i. clk e (Suc i)) th (pt_id t) Needs_Input db)"
      then obtain t where t: "t \<in> set (pturns db)" "running_turn th t"
        and rows: "pturns db1 = upd (\<lambda>x. pt_id x = pt_id t) (\<lambda>x. x\<lparr>pt_status := Needs_Input, pt_ended := Some (clk e 1)\<rparr>) (pturns db)"
        by (auto simp: end_turn_rows)
      obtain w where w: "w \<in> set (pturns db)" "u = (if pt_id w = pt_id t then w\<lparr>pt_status := Needs_Input, pt_ended := Some (clk e 1)\<rparr> else w)"
        using u unfolding rows in_upd by blast
      show ?thesis
      proof
        assume act: "running_turn th u"
        then have "pt_id w \<noteq> pt_id t" "u = w" using w(2) by (auto simp: active_status_def split: if_splits)
        then show False using rows_okD(4) [OF proto_invD(1) [OF inv] w(1) t(1)] act t(2) by simp
      qed
    qed
    then show ?thesis by (auto simp: insert_turn_def)
  qed
  moreover have "release_thread e alive th db \<noteq> Inl IntegrityError"
    by (auto simp: release_thread_def split: option.splits if_splits)
  ultimately show ?thesis unfolding open_turn_def Let_def by (auto simp: andThen_Inl split: if_splits)
qed

lemma finish_status_ended: "\<not> active_status (finish_status s)"
  by (simp add: finish_status_def active_status_def)

lemma add_running_item_inv:
  assumes inv: "proto_inv db" and act: "turn_active (pi_turn i) db" and new: "pi_id i \<notin> pi_id ` set (pitems db)"
  shows "proto_inv (db\<lparr>pitems := pitems db @ [i]\<rparr>)"
proof -
  obtain t where t: "t \<in> set (pturns db)" "pt_id t = pi_turn i" "active_status (pt_status t)" using turn_activeD [OF act] by blast
  show ?thesis using rows_ok_add_item [OF proto_invD(1) [OF inv] new t] proto_invD(2) [OF inv] by (simp add: proto_inv_def)
qed

lemma put_answer_inv:
  assumes inv: "proto_inv db" and act: "turn_active (th_turn h) db"
    and new: "th_message h = None \<Longrightarrow> ident \<notin> pi_id ` set (pitems db)"
  shows "proto_inv (put_answer e h ident answer db) \<and> sessions (put_answer e h ident answer db) = sessions db
     \<and> sevents (put_answer e h ident answer db) = sevents db"
proof -
  let ?i = "\<lparr>pi_id = ident, pi_turn = th_turn h, pi_kind = ''agent_message'', pi_status = I_Running, pi_payload = JObj [(''text'', safe (JStr answer))]\<rparr>"
  have added: "proto_inv (db\<lparr>pitems := pitems db @ [?i]\<rparr>)" if "th_message h = None"
    by (rule add_running_item_inv [OF inv]) (use act new that in simp_all)
  define d where "d = (if answer = [] \<or> th_message h \<noteq> None then db
      else journal (clk e 0) (th_thread h) (th_turn h) ''item.started''
             (merged [(''item_id'', JStr ident), (''kind'', JStr ''agent_message'')] [(''text'', safe (JStr answer))]) (db\<lparr>pitems := pitems db @ [?i]\<rparr>))"
  have d: "proto_inv d" "sessions d = sessions db" "sevents d = sevents db"
    using inv added by (auto simp: d_def)
  have eq: "put_answer e h ident answer db = (if answer = [] then d
      else journal (clk e 1) (th_thread h) (th_turn h) ''item.completed''
             (merged [(''item_id'', JStr ident), (''status'', JStr ''completed'')] [(''text'', safe (JStr answer))])
             (d\<lparr>pitems := upd (\<lambda>x. pi_id x = ident) (\<lambda>x. x\<lparr>pi_status := I_Completed, pi_payload := JObj [(''text'', safe (JStr answer))]\<rparr>) (pitems d)\<rparr>))"
    unfolding put_answer_def Let_def d_def by (rule refl)
  have "proto_inv (d\<lparr>pitems := upd (\<lambda>x. pi_id x = ident) (\<lambda>x. x\<lparr>pi_status := I_Completed, pi_payload := JObj [(''text'', safe (JStr answer))]\<rparr>) (pitems d)\<rparr>)"
    by (rule upd_items_inv [OF d(1)]) simp_all
  then show ?thesis unfolding eq using d by (cases "answer = []") (simp_all del: safe.simps)
qed

lemma finish_turn_inv:
  assumes inv: "proto_inv db" and run: "finish_turn e h status answer db = (db', h')"
    and new: "''item_'' @ uuid e [0] \<notin> pi_id ` set (pitems db)"
  shows "proto_inv db' \<and> sessions db' = sessions db \<and> sevents db' = sevents db"
proof (cases "turn_active (th_turn h) db")
  case False
  then show ?thesis using run inv by (simp add: finish_turn_def)
next
  case True
  let ?ident = "case th_message h of None \<Rightarrow> ''item_'' @ uuid e [0] | Some m \<Rightarrow> m"
  note put = put_answer_inv [OF inv True, of ?ident e answer]
  have "proto_inv (end_turn now th tu (if c then Cancelled else finish_status status) (put_answer e h ?ident answer db))" for now th tu c
    by (rule end_turn_inv) (use put new finish_status_ended in \<open>auto simp: active_status_def\<close>)
  then show ?thesis using run True put new unfolding finish_turn_def Let_def by auto
qed

lemma text_delta_inv:
  assumes inv: "proto_inv db" and run: "text_delta e h text db = (db', r)"
    and new: "''item_'' @ uuid e [0] \<notin> pi_id ` set (pitems db)"
  shows "proto_inv db' \<and> sessions db' = sessions db \<and> sevents db' = sevents db"
proof -
  have put: "proto_inv (journal now th tu k p (d\<lparr>pitems := upd (\<lambda>x. pi_id x = m) (\<lambda>x. x\<lparr>pi_payload := g\<rparr>) (pitems d)\<rparr>))"
    if "proto_inv d" for now th tu k p d m g
    by (intro journal_inv upd_items_inv [OF that]) simp_all
  show ?thesis
  proof (cases "case th_message h of Some m \<Rightarrow> Inr (db, m) | None \<Rightarrow> start_item e h ''agent_message'' [(''text'', JStr [])] db")
    case (Inl x)
    then show ?thesis using run inv by (simp add: text_delta_def)
  next
    case (Inr dm)
    obtain d m where dm: "dm = (d, m)" by (cases dm)
    have d: "proto_inv d \<and> sessions d = sessions db \<and> sevents d = sevents db"
      using Inr dm inv start_item_inv [OF inv _ new] by (cases "th_message h") auto
    show ?thesis
      using run d put unfolding text_delta_def Inr dm Let_def by (auto split: option.splits if_splits)
  qed
qed

lemma if_pair: "(if b then (x, y) else (z, y)) = (d, r) \<Longrightarrow> d = x \<or> d = z"
  by (cases b) auto

lemma progress_inv:
  assumes "proto_inv db" and "progress e show h kind data db = (db', r)" and "''item_'' @ uuid e [0] \<notin> pi_id ` set (pitems db)"
  shows "proto_inv db' \<and> sessions db' = sessions db \<and> sevents db' = sevents db"
proof (cases "kind = ''answer'' \<and> (case map_of data ''answer'' of None \<Rightarrow> False | Some v \<Rightarrow> truth v)")
  case True
  then show ?thesis using assms text_delta_inv by (simp add: progress_def)
next
  case False
  have "db' = db \<or> (\<exists>now k p. db' = journal now (th_thread h) (th_turn h) k p db)"
    using if_pair [OF assms(2) [unfolded progress_def if_not_P [OF False]]] by blast
  then show ?thesis using assms(1) by (elim disjE exE) simp_all
qed

text \<open>Operations of the session ledger leave the protocol tables alone.\<close>

definition same_protocol :: "sdb \<Rightarrow> sdb \<Rightarrow> bool" where
  "same_protocol db db' \<longleftrightarrow> pturns db' = pturns db \<and> pitems db' = pitems db \<and> papprovals db' = papprovals db
     \<and> pevents db' = pevents db \<and> last_seq db' = last_seq db"

lemma same_protocol_inv: "proto_inv db \<Longrightarrow> same_protocol db db' \<Longrightarrow> proto_inv db'"
  by (rule proto_inv_same) (simp_all add: same_protocol_def)

lemma log_event_same: "log_event cap sid n k p now db = Inr db' \<Longrightarrow> same_protocol db db'"
  by (auto simp: log_event_def same_protocol_def)

lemma checkpoint_rows_same: "checkpoint_rows cap now sid pc st row db = Inr db' \<Longrightarrow> same_protocol db db'"
  by (auto simp: checkpoint_rows_def same_protocol_def Let_def split: option.splits dest!: log_event_same)

lemma cancel_rows_same: "cancel_rows cap now sid reason row db = Inr db' \<Longrightarrow> same_protocol db db'"
  by (auto simp: cancel_rows_def same_protocol_def Let_def split: if_splits dest!: log_event_same)

lemma same_protocol_refl [simp]: "same_protocol db db"
  by (simp add: same_protocol_def)

lemma checkpoint_same: "checkpoint show cap now sid pc db = (db', r) \<Longrightarrow> same_protocol db db'"
  by (auto simp: checkpoint_def commit_def Let_def split: if_splits option.splits sum.splits dest: checkpoint_rows_same)

lemma request_cancel_same: "request_cancel show cap now sid reason db = (db', r) \<Longrightarrow> same_protocol db db'"
  by (auto simp: request_cancel_def commit_def split: option.splits sum.splits dest: cancel_rows_same)

lemma resume_same: "resume_session show cap now sid db = (db', r) \<Longrightarrow> same_protocol db db'"
  by (auto simp: resume_session_def split: sum.splits option.splits if_splits dest: checkpoint_same)

lemma append_session_event_same: "append_session_event cap now sid k p db = Inr (db', n) \<Longrightarrow> same_protocol db db'"
  by (auto simp: append_session_event_def same_protocol_def Let_def split: if_splits option.splits dest!: log_event_same)

lemma create_same: "create_or_get show e sid en db = (db', r) \<Longrightarrow> same_protocol db db'"
  by (auto simp: create_or_get_def same_protocol_def Let_def split: if_splits)

lemma start_turn_same: "start_turn show e sid en db = (db', r) \<Longrightarrow> same_protocol db db'"
  by (auto simp: start_turn_def same_protocol_def Let_def split: prod.splits sum.splits dest!: create_same)

lemma end_all_inv:
  "proto_inv db \<Longrightarrow> proto_inv (end_all now th ts db) \<and> sessions (end_all now th ts db) = sessions db \<and> sevents (end_all now th ts db) = sevents db"
proof -
  have "proto_inv db \<Longrightarrow> proto_inv (fold (\<lambda>(i, t). end_turn (now i) th (pt_id t) Cancelled) xs db) \<and>
      sessions (fold (\<lambda>(i, t). end_turn (now i) th (pt_id t) Cancelled) xs db) = sessions db \<and>
      sevents (fold (\<lambda>(i, t). end_turn (now i) th (pt_id t) Cancelled) xs db) = sevents db" for xs db
  proof (induction xs arbitrary: db)
    case (Cons x xs)
    obtain i t where x: "x = (i, t)" by (cases x)
    have "proto_inv (end_turn (now i) th (pt_id t) Cancelled db)"
      by (rule end_turn_inv [OF Cons.prems]) (simp add: active_status_def)
    from Cons.IH [OF this] show ?case using x by simp
  qed simp
  then show "proto_inv db \<Longrightarrow> ?thesis" unfolding end_all_def by blast
qed

lemma same_sessions_inv: "session_inv cap db \<Longrightarrow> sessions db' = sessions db \<Longrightarrow> sevents db' = sevents db \<Longrightarrow> session_inv cap db'"
  by (simp add: session_inv_def seqs_def)

text \<open>
  One transaction by any process: an operation of the session ledger or of the protocol. Random ids are
  fresh. \<open>begin\<close>, \<open>_approve\<close> and \<open>execute\<close> are sequences of these.
\<close>

inductive proto_step :: "runtime \<Rightarrow> sdb \<Rightarrow> sdb \<Rightarrow> bool" for rt where
  ps_create: "create_or_get (rt_show rt) e sid en db = (db', r) \<Longrightarrow> proto_step rt db db'"
| ps_start: "start_turn (rt_show rt) e sid en db = (db', r) \<Longrightarrow> proto_step rt db db'"
| ps_event: "append_session_event (rt_cap rt) now sid k p db = Inr (db', n) \<Longrightarrow> proto_step rt db db'"
| ps_checkpoint: "checkpoint (rt_show rt) (rt_cap rt) now sid pc db = (db', r) \<Longrightarrow> proto_step rt db db'"
| ps_cancel: "request_cancel (rt_show rt) (rt_cap rt) now sid reason db = (db', r) \<Longrightarrow> proto_step rt db db'"
| ps_resume: "resume_session (rt_show rt) (rt_cap rt) now sid db = (db', r) \<Longrightarrow> proto_step rt db db'"
| ps_open: "open_turn e (rt_alive rt) pid th req mode db = Inr (db', h) \<Longrightarrow> ''turn_'' @ uuid e [0] \<notin> pt_id ` set (pturns db) \<Longrightarrow> proto_step rt db db'"
| ps_item: "start_item e h k fs db = Inr (db', i) \<Longrightarrow> ''item_'' @ uuid e [0] \<notin> pi_id ` set (pitems db) \<Longrightarrow> proto_step rt db db'"
| ps_complete: "proto_step rt db (complete_item now h i fs st db)"
| ps_ask: "ask_approval rt e h item name args db = Inr (db', aid) \<Longrightarrow> ''approval_'' @ uuid e [0] \<notin> pa_id ` set (papprovals db) \<Longrightarrow> proto_step rt db db'"
| ps_respond: "respond rt now th aid tu sha dec db = Inr (db', d) \<Longrightarrow> proto_step rt db db'"
| ps_expire: "proto_step rt db (expire_approval now h aid db)"
| ps_settle: "proto_step rt db (db\<lparr>pturns := upd (\<lambda>t. pt_id t = tu \<and> pt_status t = Waiting) (\<lambda>t. t\<lparr>pt_status := Running\<rparr>) (pturns db)\<rparr>)"
| ps_finish: "finish_turn e h status answer db = (db', h') \<Longrightarrow> ''item_'' @ uuid e [0] \<notin> pi_id ` set (pitems db) \<Longrightarrow> proto_step rt db db'"
| ps_delta: "text_delta e h text db = (db', r') \<Longrightarrow> ''item_'' @ uuid e [0] \<notin> pi_id ` set (pitems db) \<Longrightarrow> proto_step rt db db'"
| ps_progress: "progress e (rt_show rt) h k fs db = (db', r') \<Longrightarrow> ''item_'' @ uuid e [0] \<notin> pi_id ` set (pitems db) \<Longrightarrow> proto_step rt db db'"
| ps_interrupt: "interrupt rt e th db = (db', r'') \<Longrightarrow> proto_step rt db db'"

definition machine_inv :: "runtime \<Rightarrow> sdb \<Rightarrow> bool" where
  "machine_inv rt db \<longleftrightarrow> proto_inv db \<and> (1 \<le> rt_cap rt \<longrightarrow> session_inv (rt_cap rt) db)"

lemma machine_ledger:
  "machine_inv rt db \<Longrightarrow> same_protocol db db' \<Longrightarrow>
     (1 \<le> rt_cap rt \<Longrightarrow> session_inv (rt_cap rt) db \<Longrightarrow> session_inv (rt_cap rt) db') \<Longrightarrow> machine_inv rt db'"
  by (auto simp: machine_inv_def intro: same_protocol_inv)

lemma machine_protocol:
  "machine_inv rt db \<Longrightarrow> proto_inv db' \<and> sessions db' = sessions db \<and> sevents db' = sevents db \<Longrightarrow> machine_inv rt db'"
  by (auto simp: machine_inv_def intro: same_sessions_inv)

lemma respond_sessions: "respond rt now th aid tu sha dec db = Inr (db', d) \<Longrightarrow> sessions db' = sessions db \<and> sevents db' = sevents db"
  by (auto simp: respond_def Let_def split: if_splits option.splits)

lemma interrupt_inv: "machine_inv rt db \<Longrightarrow> interrupt rt e th db = (db', r) \<Longrightarrow> machine_inv rt db'"
proof -
  assume inv: "machine_inv rt db" and run: "interrupt rt e th db = (db', r)"
  obtain db1 r1 where c: "request_cancel (rt_show rt) (rt_cap rt) (clk e 0) th ''cancelled by user'' db = (db1, r1)"
    by (cases "request_cancel (rt_show rt) (rt_cap rt) (clk e 0) th ''cancelled by user'' db")
  have inv1: "machine_inv rt db1"
    by (rule machine_ledger [OF inv request_cancel_same [OF c]]) (rule request_cancel_inv [OF _ _ c])
  have "db' = db1 \<or> (\<exists>now ts. db' = end_all now th ts db1)"
    using run unfolding interrupt_def c by (cases r1) auto
  then show "machine_inv rt db'"
  proof
    assume "\<exists>now ts. db' = end_all now th ts db1"
    then show ?thesis using machine_protocol [OF inv1] end_all_inv inv1 by (auto simp: machine_inv_def)
  qed (use inv1 in simp)
qed

interpretation proto_machine: inductive_invariant "proto_step rt" empty_sdb "machine_inv rt" for rt
proof unfold_locales
  show "machine_inv rt empty_sdb"
    by (simp add: machine_inv_def proto_inv_def rows_ok_def journal_ok_def session_inv_def empty_sdb_def)
next
  fix db db' assume inv: "machine_inv rt db" and step: "proto_step rt db db'"
  have pinv: "proto_inv db" using inv by (simp add: machine_inv_def)
  show "machine_inv rt db'" using step
  proof cases
    case ps_create
    show ?thesis by (rule machine_ledger [OF inv create_same [OF ps_create]]) (rule create_or_get_inv [OF _ _ ps_create])
  next
    case ps_start
    show ?thesis by (rule machine_ledger [OF inv start_turn_same [OF ps_start]]) (rule start_turn_inv [OF _ _ ps_start])
  next
    case ps_event
    show ?thesis by (rule machine_ledger [OF inv append_session_event_same [OF ps_event]]) (rule append_session_event_inv [OF _ _ ps_event])
  next
    case ps_checkpoint
    show ?thesis by (rule machine_ledger [OF inv checkpoint_same [OF ps_checkpoint]]) (rule checkpoint_inv [OF _ _ ps_checkpoint])
  next
    case ps_cancel
    show ?thesis by (rule machine_ledger [OF inv request_cancel_same [OF ps_cancel]]) (rule request_cancel_inv [OF _ _ ps_cancel])
  next
    case ps_resume
    show ?thesis by (rule machine_ledger [OF inv resume_same [OF ps_resume]]) (rule resume_session_inv [OF _ _ ps_resume])
  next
    case ps_open
    show ?thesis by (rule machine_protocol [OF inv open_turn_inv [OF pinv ps_open]])
  next
    case ps_item
    show ?thesis by (rule machine_protocol [OF inv]) (use start_item_inv [OF pinv ps_item] in blast)
  next
    case ps_complete
    then show ?thesis using complete_item_inv [OF pinv] by (intro machine_protocol [OF inv]) (simp add: complete_item_def Let_def)
  next
    case ps_ask
    have "sessions db' = sessions db \<and> sevents db' = sevents db" using ps_ask(1) by (auto simp: ask_approval_def Let_def split: if_splits)
    then show ?thesis using machine_protocol [OF inv] ask_approval_inv [OF pinv ps_ask] by blast
  next
    case ps_respond
    show ?thesis using machine_protocol [OF inv] respond_inv [OF pinv ps_respond] respond_sessions [OF ps_respond] by blast
  next
    case ps_expire
    then show ?thesis using expire_approval_inv [OF pinv] by (intro machine_protocol [OF inv]) (simp add: expire_approval_def Let_def)
  next
    case (ps_settle tu)
    have "proto_inv db'" unfolding ps_settle by (rule upd_turns_inv [OF pinv]) (simp_all add: active_status_def)
    then show ?thesis by (intro machine_protocol [OF inv]) (simp add: ps_settle)
  next
    case ps_finish
    show ?thesis by (rule machine_protocol [OF inv finish_turn_inv [OF pinv ps_finish]])
  next
    case ps_delta
    show ?thesis by (rule machine_protocol [OF inv text_delta_inv [OF pinv ps_delta]])
  next
    case ps_progress
    show ?thesis by (rule machine_protocol [OF inv progress_inv [OF pinv ps_progress]])
  next
    case ps_interrupt
    show ?thesis by (rule interrupt_inv [OF inv ps_interrupt])
  qed
qed

section \<open>Decisions are final\<close>

text \<open>An approval that is no longer pending keeps its decision and action in every step.\<close>

definition settled_as :: "string \<Rightarrow> decision \<Rightarrow> sdb \<Rightarrow> bool" where
  "settled_as aid d db \<longleftrightarrow> d \<noteq> D_Pending \<and> (\<exists>a \<in> set (papprovals db). pa_id a = aid \<and> pa_decision a = d)
     \<and> (\<forall>a \<in> set (papprovals db). pa_id a = aid \<longrightarrow> pa_decision a = d)"

lemma settled_upd:
  assumes "settled_as aid d db" and "papprovals db' = upd P f (papprovals db)" and "\<And>a. pa_id (f a) = pa_id a"
    and "\<And>a. a \<in> set (papprovals db) \<Longrightarrow> pa_id a = aid \<Longrightarrow> P a \<Longrightarrow> pa_decision (f a) = pa_decision a"
  shows "settled_as aid d db'"
proof -
  obtain a where a: "a \<in> set (papprovals db)" "pa_id a = aid" "pa_decision a = d" using assms(1) by (auto simp: settled_as_def)
  have "(if P a then f a else a) \<in> set (papprovals db')" using a(1) unfolding assms(2) in_upd by blast
  moreover have "pa_id (if P a then f a else a) = aid \<and> pa_decision (if P a then f a else a) = d"
    using a assms(3,4) by simp
  moreover have "pa_decision b' = d" if b': "b' \<in> set (papprovals db')" and id: "pa_id b' = aid" for b'
  proof -
    obtain b where b: "b \<in> set (papprovals db)" "b' = (if P b then f b else b)" using b' unfolding assms(2) in_upd by blast
    have "pa_id b = aid" using b(2) id assms(3) by (cases "P b") simp_all
    moreover from this have "pa_decision b = d" using assms(1) b(1) by (simp add: settled_as_def)
    ultimately show ?thesis using b assms(4) by (cases "P b") simp_all
  qed
  ultimately show ?thesis using assms(1) unfolding settled_as_def by blast
qed

lemma settled_same: "settled_as aid d db \<Longrightarrow> papprovals db' = papprovals db \<Longrightarrow> settled_as aid d db'"
  by (simp add: settled_as_def)

lemma settled_expire:
  assumes set: "settled_as aid d db"
    and rows: "papprovals db' = upd (\<lambda>a. Q a \<and> pa_decision a = D_Pending) (\<lambda>a. a\<lparr>pa_decision := D_Expired\<rparr>) (papprovals db)"
  shows "settled_as aid d db'"
proof (rule settled_upd [OF set rows])
  fix a assume "a \<in> set (papprovals db)" "pa_id a = aid" "Q a \<and> pa_decision a = D_Pending"
  then have False using set by (simp add: settled_as_def)
  then show "pa_decision (a\<lparr>pa_decision := D_Expired\<rparr>) = pa_decision a" ..
qed simp

lemma settled_end_all: "settled_as aid d db \<Longrightarrow> settled_as aid d (end_all now th ts db)"
proof -
  have "settled_as aid d db \<Longrightarrow> settled_as aid d (fold (\<lambda>(i, t). end_turn (now i) th (pt_id t) Cancelled) xs db)" for xs db
  proof (induction xs arbitrary: db)
    case (Cons x xs)
    obtain i t where x: "x = (i, t)" by (cases x)
    have "settled_as aid d (end_turn (now i) th (pt_id t) Cancelled db)"
      by (rule settled_expire [OF Cons.prems end_turn_rows(2)])
    from Cons.IH [OF this] show ?case using x by simp
  qed simp
  then show "settled_as aid d db \<Longrightarrow> ?thesis" by (simp add: end_all_def)
qed

lemma respond_settled:
  assumes set: "settled_as aid d db" and run: "respond rt now th aid' tu sha dec db = Inr (db', d')"
  shows "settled_as aid d db'"
proof -
  obtain a t where a: "a \<in> set (papprovals db)" "pa_id a = aid'"
    and db': "db' = db \<or> (pa_decision a = D_Pending \<and>
      papprovals db' = upd (\<lambda>x. pa_id x = aid') (\<lambda>x. x\<lparr>pa_decision := d'\<rparr>) (papprovals db))"
    using run unfolding respond_def Let_def by (auto split: if_splits option.splits dest!: fetchone_in)
  show ?thesis using db'
  proof
    assume upd: "pa_decision a = D_Pending \<and> papprovals db' = upd (\<lambda>x. pa_id x = aid') (\<lambda>x. x\<lparr>pa_decision := d'\<rparr>) (papprovals db)"
    then have "aid' \<noteq> aid" using a set by (auto simp: settled_as_def)
    show ?thesis by (rule settled_upd [OF set conjunct2 [OF upd]]) (use \<open>aid' \<noteq> aid\<close> in simp_all)
  qed (use set in simp)
qed

lemma settled_step:
  assumes set: "settled_as aid d db" and step: "proto_step rt db db'"
  shows "settled_as aid d db'"
proof -
  have same: ?thesis if "same_protocol db db'" using set that by (auto simp: same_protocol_def intro: settled_same)
  show ?thesis using step
  proof cases
    case ps_create show ?thesis by (rule same [OF create_same [OF ps_create]])
  next
    case ps_start show ?thesis by (rule same [OF start_turn_same [OF ps_start]])
  next
    case ps_event show ?thesis by (rule same [OF append_session_event_same [OF ps_event]])
  next
    case ps_checkpoint show ?thesis by (rule same [OF checkpoint_same [OF ps_checkpoint]])
  next
    case ps_cancel show ?thesis by (rule same [OF request_cancel_same [OF ps_cancel]])
  next
    case ps_resume show ?thesis by (rule same [OF resume_same [OF ps_resume]])
  next
    case (ps_open e pid th req mode h)
    obtain db1 where db1: "release_thread e (rt_alive rt) th db = Inr db1" "insert_turn e pid th (''turn_'' @ uuid e [0]) mode db1 = Inr db'"
      using open_turn_parts [OF ps_open(1)] by blast
    have "papprovals db1 = papprovals db \<or> (\<exists>now tu. papprovals db1 = papprovals (end_turn now th tu Needs_Input db))"
      using release_thread_cases [OF db1(1)] by (elim disjE exE conjE) (simp, simp, blast)
    then have "settled_as aid d db1"
      using settled_same [OF set] settled_same [OF settled_expire [OF set end_turn_rows(2)]] by blast
    then show ?thesis using db1(2) by (auto simp: insert_turn_def intro: settled_same split: if_splits)
  next
    case ps_item then show ?thesis using set by (auto simp: start_item_def Let_def intro: settled_same split: if_splits)
  next
    case ps_complete then show ?thesis using set by (auto simp: complete_item_def Let_def intro: settled_same)
  next
    case (ps_ask e h item name args aid')
    obtain x where x: "papprovals db' = papprovals db @ [x]" "pa_id x = ''approval_'' @ uuid e [0]"
      using ps_ask(1) by (auto simp: ask_approval_def Let_def split: if_splits)
    have "pa_id x \<noteq> aid" using set ps_ask(2) x(2) by (auto simp: settled_as_def)
    then show ?thesis using set x(1) by (auto simp: settled_as_def)
  next
    case ps_respond show ?thesis by (rule respond_settled [OF set ps_respond])
  next
    case (ps_expire now h aid')
    have "papprovals db' = papprovals db \<or>
        papprovals db' = upd (\<lambda>a. pa_id a = aid' \<and> pa_decision a = D_Pending) (\<lambda>a. a\<lparr>pa_decision := D_Expired\<rparr>) (papprovals db)"
      by (simp add: ps_expire expire_approval_def Let_def)
    then show ?thesis using settled_same [OF set] settled_expire [OF set, of db' "\<lambda>a. pa_id a = aid'"] by blast
  next
    case ps_settle then show ?thesis using set by (auto intro: settled_same)
  next
    case (ps_finish e h status answer h')
    have "papprovals (put_answer e h i answer db) = papprovals db" for i by (simp add: put_answer_def Let_def)
    then have "settled_as aid d (put_answer e h i answer db)" for i using set by (auto intro: settled_same)
    then show ?thesis using ps_finish(1) set settled_expire [OF _ end_turn_rows(2)] unfolding finish_turn_def Let_def
      by (auto split: if_splits)
  next
    case ps_delta
    then have "papprovals db' = papprovals db"
      by (auto simp: text_delta_def start_item_def Let_def split: option.splits if_splits)
    then show ?thesis by (rule settled_same [OF set])
  next
    case (ps_progress e h k fs r')
    have "papprovals (fst (text_delta e h t db)) = papprovals db" for t
      by (auto simp: text_delta_def start_item_def Let_def split: option.splits if_splits)
    then have "papprovals db' = papprovals db" using ps_progress(1) unfolding progress_def
      by (metis (no_types, lifting) fst_conv if_pair journal_fields(5))
    then show ?thesis by (rule settled_same [OF set])
  next
    case (ps_interrupt e th r'')
    obtain db1 r1 where c: "request_cancel (rt_show rt) (rt_cap rt) (clk e 0) th ''cancelled by user'' db = (db1, r1)"
      by (cases "request_cancel (rt_show rt) (rt_cap rt) (clk e 0) th ''cancelled by user'' db")
    have "settled_as aid d db1" using request_cancel_same [OF c] set by (auto simp: same_protocol_def intro: settled_same)
    then show ?thesis using ps_interrupt settled_end_all unfolding interrupt_def c by (cases r1) auto
  qed
qed

lemma settled_reach: "reach (proto_step rt) db db' \<Longrightarrow> settled_as aid d db \<Longrightarrow> settled_as aid d db'"
  by (induction rule: reach.induct) (auto intro: settled_step)

end
