(* ===== verification/ProtocolRun.thy ===== *)
theory ProtocolRun
  imports ProtocolInv
begin

text \<open>
  Facts about runs of the session protocol: what is redacted, when a tool is called, and what a client
  that follows the cursor of \<open>snapshot\<close> receives.
\<close>

section \<open>Redaction leaves no secret\<close>

fun has_token :: "bool \<Rightarrow> string \<Rightarrow> bool" where
  "has_token b [] = False"
| "has_token b (c # cs) = (token_at b (c # cs) \<or> has_token (word_char c) cs)"

text \<open>No secret-named field keeps its value and no text holds a token, at any depth.\<close>

fun secret_free :: "json \<Rightarrow> bool" where
  "secret_free (JObj kvs) = (\<forall>p \<in> set kvs. if secret_key (fst p) then snd p = JStr redacted else secret_free (snd p))"
| "secret_free (JArr xs) = (\<forall>x \<in> set xs. secret_free x)"
| "secret_free (JStr s) = (\<not> has_token False s)"
| "secret_free v = True"

lemma token_at_run:
  "token_at b s \<longleftrightarrow> \<not> b \<and> take 3 (takeWhile token_char s) = ''sk_'' \<and> 19 \<le> length (takeWhile token_char s)"
proof -
  have head: "take 3 x = ''sk_'' \<longleftrightarrow> (\<exists>r. x = ''sk_'' @ r)" for x :: string
    using append_take_drop_id [of 3 x] by (metis append_eq_conv_conj length_Cons list.size(3) numeral_3_eq_3)
  have run: "takeWhile token_char (''sk_'' @ r) = ''sk_'' @ takeWhile token_char r" for r
    by (simp add: token_char_def ascii_alnum_def)
  show ?thesis
  proof (cases "\<exists>r. s = ''sk_'' @ r")
    case True
    then obtain r where "s = ''sk_'' @ r" by blast
    then show ?thesis unfolding token_at_def starts_with_def \<open>s = _\<close> run by auto
  next
    case False
    then have "take 3 s \<noteq> ''sk_''" "take 3 (takeWhile token_char s) \<noteq> ''sk_''"
      unfolding head using takeWhile_dropWhile_id [of token_char s] by (blast, metis append_assoc)
    then show ?thesis by (simp add: token_at_def starts_with_def numeral_3_eq_3)
  qed
qed

lemma run_over: "takeWhile P (dropWhile P xs) = []"
  by (induction xs) auto

lemma redact_run: "\<exists>zs. takeWhile token_char s = takeWhile token_char (redact b s) @ zs"
proof (induction b s rule: redact.induct)
  case (2 b c cs)
  show ?case
  proof (cases "token_at b (c # cs)")
    case True
    have "\<not> token_char CHR ''[''" by (simp add: token_char_def ascii_alnum_def)
    then show ?thesis using True by (simp add: redacted_def)
  next
    case False
    then show ?thesis using 2(2) [OF False] by auto
  qed
qed simp

lemma has_token_redacted: "has_token b (redacted @ s) = has_token False s"
  by (simp add: redacted_def token_at_def starts_with_def word_char_def ascii_alnum_def)

lemma redact_clean:
  "\<not> has_token b (redact b s) \<and> (takeWhile token_char s = [] \<longrightarrow> \<not> has_token b' (redact b s))"
proof (induction b s arbitrary: b' rule: redact.induct)
  case (2 b c cs)
  show ?case
  proof (cases "token_at b (c # cs)")
    case True
    let ?rest = "dropWhile token_char (drop 3 (c # cs))"
    let ?w = "word_char (last (takeWhile token_char (drop 3 (c # cs))))"
    have "takeWhile token_char ?rest = []" by (rule run_over)
    then have "\<not> has_token False (redact ?w ?rest)" using 2(1) [OF True, of False] by blast
    moreover have "redact b (c # cs) = redacted @ redact ?w ?rest" using True by simp
    ultimately show ?thesis by (simp add: has_token_redacted del: redact.simps)
  next
    case False
    let ?t = "redact (word_char c) cs"
    obtain zs where zs: "takeWhile token_char (c # cs) = takeWhile token_char (redact b (c # cs)) @ zs"
      using redact_run [of "c # cs" b] by blast
    have eq: "redact b (c # cs) = c # ?t" using False by simp
    have "\<not> token_at b (c # ?t)"
    proof
      assume t: "token_at b (c # ?t)"
      then have "take 3 (takeWhile token_char (c # cs)) = ''sk_''" "19 \<le> length (takeWhile token_char (c # cs))"
        unfolding zs eq token_at_run by auto
      then show False using False t unfolding token_at_run by blast
    qed
    moreover have "\<not> has_token (word_char c) ?t" using 2(2) [OF False] by blast
    moreover have "\<not> token_at b' (c # ?t)" if "takeWhile token_char (c # cs) = []"
      using that zs unfolding eq token_at_run by auto
    ultimately show ?thesis unfolding eq by simp
  qed
qed simp

lemma safe_clean: "secret_free (safe j)"
proof (induction j rule: safe.induct)
  case (1 kvs)
  then show ?case by fastforce
qed (use redact_clean in auto)

section \<open>A tool of a mutating kind is called after an allow only\<close>

definition unallowed :: "string \<Rightarrow> sdb \<Rightarrow> bool" where
  "unallowed aid db \<longleftrightarrow> (\<forall>a \<in> set (papprovals db). pa_id a = aid \<longrightarrow> pa_decision a \<noteq> D_Allow)"

lemma unallowed_same: "unallowed aid db \<Longrightarrow> papprovals db' = papprovals db \<Longrightarrow> unallowed aid db'"
  by (simp add: unallowed_def)

lemma unallowed_protocol: "unallowed aid db \<Longrightarrow> same_protocol db db' \<Longrightarrow> unallowed aid db'"
  by (simp add: unallowed_def same_protocol_def)

lemma unallowed_upd:
  assumes "unallowed aid db" and "papprovals db' = upd P f (papprovals db)" and "\<And>a. pa_id (f a) = pa_id a"
    and "\<And>a. pa_decision (f a) \<noteq> D_Allow"
  shows "unallowed aid db'"
  unfolding unallowed_def assms(2) ball_upd using assms(1,3,4) by (simp add: unallowed_def)

lemma unallowed_expire: "unallowed aid db \<Longrightarrow> unallowed aid (expire_approval now h aid' db)"
  using unallowed_upd [of aid db _ _ "\<lambda>a. a\<lparr>pa_decision := D_Expired\<rparr>"] by (simp add: expire_approval_def Let_def)

lemma unallowed_decision: "unallowed aid db \<Longrightarrow> decision_of aid db \<noteq> D_Allow"
  by (auto simp: unallowed_def decision_of_def split: option.splits dest!: fetchone_SomeD)

lemma unallowed_ask:
  assumes "unallowed aid' db" and "ask_approval rt e h item name args db = Inr (db', aid)"
  shows "unallowed aid' db'"
proof -
  obtain a where "papprovals db' = papprovals db @ [a]" "pa_decision a = D_Pending"
    using assms(2) by (auto simp: ask_approval_def Let_def split: if_splits)
  then show ?thesis using assms(1) by (auto simp: unallowed_def)
qed

lemma respond_value: "respond rt now th aid tu sha dec db = Inr (db', d) \<Longrightarrow> d = (if dec = ''allow'' then D_Allow else D_Deny)"
  by (auto simp: respond_def Let_def split: if_splits option.splits)

lemma unallowed_respond:
  assumes "unallowed aid' db" and "respond rt now th aid tu sha dec db = Inr (db', d)" and "dec \<noteq> ''allow''"
  shows "unallowed aid' db'"
proof -
  have "d = D_Deny" using respond_value [OF assms(2)] assms(3) by simp
  moreover have "db' = db \<or> papprovals db' = upd (\<lambda>x. pa_id x = aid) (\<lambda>x. x\<lparr>pa_decision := d\<rparr>) (papprovals db)"
    using assms(2) unfolding respond_def Let_def by (auto split: if_splits option.splits)
  ultimately show ?thesis using assms(1) unallowed_upd [OF assms(1), of db' _ "\<lambda>x. x\<lparr>pa_decision := d\<rparr>"] by auto
qed

definition never_allows :: "string \<Rightarrow> observation list \<Rightarrow> bool" where
  "never_allows aid obs \<longleftrightarrow> (\<forall>x \<in> set obs. \<forall>db. unallowed aid db \<longrightarrow>
     unallowed aid (ob_before x db) \<and> unallowed aid (ob_between x db) \<and> unallowed aid (ob_after x db))"

lemma await_unallowed:
  "never_allows aid obs \<Longrightarrow> unallowed aid db \<Longrightarrow> await_decision rt h aid obs db = (db', r) \<Longrightarrow> unallowed aid db' \<and> r \<noteq> Decided D_Allow"
proof (induction obs arbitrary: db)
  case (Cons x xs)
  let ?d1 = "ob_before x db"
  let ?d2 = "ob_between x ?d1"
  have r: "never_allows aid xs" using Cons.prems(1) by (simp add: never_allows_def)
  have u: "unallowed aid ?d1" "unallowed aid ?d2" "unallowed aid (ob_after x ?d2)"
    using Cons.prems(1,2) by (simp_all add: never_allows_def)
  show ?case
    using Cons.prems(3) Cons.IH [OF r u(2)] u unallowed_decision [OF u(2)] unallowed_expire [OF u(3)]
      unallowed_decision [OF unallowed_expire [OF u(3)]]
    by (auto simp: Let_def split: sum.splits bool.splits if_splits)
qed auto

lemma ask_handler_unallowed:
  assumes "unallowed aid' db" and "\<And>f p. handler = Some f \<Longrightarrow> f p \<noteq> ''allow''"
    and run: "ask_handler rt e handler h item aid sha action db = (db', r)"
  shows "unallowed aid' db'"
proof -
  obtain d1 r1 where c: "checkpoint (rt_show rt) (rt_cap rt) (clk e 2) (th_thread h)
       (no_patch\<lparr>pc_status := Some ''waiting_approval'', pc_turn := Some (th_turn h)\<rparr>) db = (d1, r1)" by fastforce
  have u: "unallowed aid' d1" by (rule unallowed_protocol [OF assms(1) checkpoint_same [OF c]])
  show ?thesis
  proof (cases handler)
    case None
    then show ?thesis using run u unfolding ask_handler_def c by (cases r1) auto
  next
    case (Some f)
    then show ?thesis using run u assms(2) [OF Some] unallowed_respond [OF u] unfolding ask_handler_def c
      by (cases r1) (auto split: sum.splits)
  qed
qed

lemma conclude_refused: "conclude rt now h d db = (db', r) \<Longrightarrow> d \<noteq> D_Allow \<Longrightarrow> r \<noteq> Inr ()"
  by (auto simp: conclude_def split: prod.splits sum.splits)

lemma approve_refused:
  assumes "unallowed aid db" and aid: "aid = ''approval_'' @ uuid e [0]" and obs: "never_allows aid obs"
    and handler: "\<And>f p. handler = Some f \<Longrightarrow> f p \<noteq> ''allow''"
    and run: "approve rt e handler obs h item name args db = (db', r)"
  shows "r \<noteq> Some (Inr ())"
proof (cases "ask_approval rt e h item name args db")
  case (Inl x)
  then show ?thesis using run by (auto simp: approve_def)
next
  case (Inr p)
  obtain d0 aid' where p: "p = (d0, aid')" by (cases p)
  have "aid' = aid" using Inr p aid by (auto simp: ask_approval_def Let_def split: if_splits)
  note ask = Inr [unfolded p this]
  obtain d1 r1 where h: "ask_handler rt e handler h item aid (action_digest rt e name args) (action_of name args) d0 = (d1, r1)"
    by fastforce
  obtain d2 aw where aw: "await_decision rt h aid obs d1 = (d2, aw)" by fastforce
  have "unallowed aid d1" using ask_handler_unallowed [OF unallowed_ask [OF assms(1) ask] _ h] handler by blast
  then have "aw \<noteq> Decided D_Allow" using await_unallowed [OF obs _ aw] by blast
  then show ?thesis using run conclude_refused unfolding approve_def ask
    by (cases r1; cases aw) (fastforce simp: h aw split: prod.splits)+
qed

text \<open>The whole of \<open>execute\<close>.\<close>

lemma execute_refused:
  assumes "th_ask h" "name \<notin> set read_tools" and "unallowed aid db" and aid: "aid = ''approval_'' @ uuid e [1, 0]"
    and obs: "never_allows aid obs" and handler: "\<And>f p. handler = Some f \<Longrightarrow> f p \<noteq> ''allow''"
    and run: "execute rt e handler obs h name args tool db = (db', r, called)"
  shows "\<not> called"
proof (cases "start_item e h ''tool_execution'' [(''name'', JStr name), (''arguments'', JObj args)] db")
  case (Inl x)
  then show ?thesis using run by (simp add: execute_def)
next
  case (Inr p)
  obtain d0 item where p: "p = (d0, item)" by (cases p)
  have "unallowed aid d0" using Inr p assms(3) by (auto simp: start_item_def Let_def unallowed_def split: if_splits)
  moreover obtain d1 a where a: "approve rt (sub_env e 1) handler obs h item name args d0 = (d1, a)" by fastforce
  ultimately have "a \<noteq> Some (Inr ())"
    using approve_refused [OF _ _ obs _ a] handler aid by simp
  then show ?thesis using run assms(1,2) Inr p a unfolding execute_def Let_def
    by (cases a; cases "the a") auto
qed

section \<open>Following the cursor\<close>

text \<open>The events of a thread after a cursor, in order.\<close>

definition events_past :: "string \<Rightarrow> int \<Rightarrow> sdb \<Rightarrow> pevent list" where
  "events_past thread n db = filter (\<lambda>v. pe_sequence v > n) (thread_events thread db)"

lemma journal_sorted: "journal_ok db \<Longrightarrow> sorted_wrt (\<lambda>v w. pe_sequence v < pe_sequence w) (pevents db)"
proof -
  assume "journal_ok db"
  then have "sorted_wrt (<) (map pe_sequence (pevents db))"
    unfolding journal_ok_def by (simp add: sorted_wrt_map sorted_wrt_upt del: upt_Suc)
  then show ?thesis by (simp add: sorted_wrt_map)
qed

lemma past_sorted: "journal_ok db \<Longrightarrow> sorted_wrt (\<lambda>v w. pe_sequence v < pe_sequence w) (events_past thread n db)"
  unfolding events_past_def thread_events_def by (intro sorted_wrt_filter journal_sorted)

lemma strict_sort_key: "sorted_wrt (\<lambda>v w. f v < (f w :: int)) xs \<Longrightarrow> sort_key f xs = xs"
  by (induction xs) (auto intro!: insort_is_Cons simp: less_imp_le)

lemma fold_max_ge: "x \<in> set xs \<Longrightarrow> (x :: int) \<le> fold max xs b"
proof -
  have "b \<le> fold max xs b \<and> (\<forall>x \<in> set xs. x \<le> fold max xs b)" for b
    by (induction xs arbitrary: b) (auto, force+)
  then show "x \<in> set xs \<Longrightarrow> ?thesis" by blast
qed

lemma fold_max_in: "fold max xs (b :: int) \<in> insert b (set xs)"
  by (induction xs arbitrary: b) (auto simp: max_def)

lemma past_none: "0 \<le> n \<Longrightarrow> events_past thread n db = [] \<longleftrightarrow> latest_seq thread db \<le> n"
proof
  assume n: "0 \<le> n" and "events_past thread n db = []"
  then have "\<forall>v \<in> set (thread_events thread db). pe_sequence v \<le> n" by (simp add: events_past_def filter_empty_conv not_less)
  then show "latest_seq thread db \<le> n"
    using n fold_max_in [of "map pe_sequence (thread_events thread db)" 0] by (auto simp: latest_seq_def)
next
  assume "latest_seq thread db \<le> n"
  then show "events_past thread n db = []"
    using fold_max_ge [of _ "map pe_sequence (thread_events thread db)" 0] by (force simp: latest_seq_def events_past_def filter_empty_conv)
qed

lemma snapshot_page:
  assumes j: "journal_ok db" and run: "snapshot rt thread after limit db = Inr p"
  shows "pg_events p = take (nat (max 1 (min limit 500))) (events_past thread (max 0 after) db)"
    and "pg_cursor p = (if pg_events p = [] then max 0 after else pe_sequence (last (pg_events p)))"
    and "pg_more p = (pg_cursor p < latest_seq thread db)"
  using run unfolding snapshot_def Let_def events_past_def [symmetric] strict_sort_key [OF past_sorted [OF j]]
  by (auto split: if_splits)

lemma past_cursor:
  assumes sorted: "sorted_wrt (\<lambda>v w. pe_sequence v < pe_sequence w) xs" and "0 < k" and "xs \<noteq> []"
  shows "filter (\<lambda>v. pe_sequence v > pe_sequence (last (take k xs))) xs = drop k xs"
proof -
  let ?c = "pe_sequence (last (take k xs))"
  have xs: "xs = take k xs @ drop k xs" by simp
  have parts: "sorted_wrt (\<lambda>v w. pe_sequence v < pe_sequence w) (take k xs)"
    "\<forall>v \<in> set (take k xs). \<forall>w \<in> set (drop k xs). pe_sequence v < pe_sequence w"
    using sorted by (metis append_take_drop_id sorted_wrt_append)+
  have ne: "take k xs \<noteq> []" using assms(2,3) by simp
  have "\<forall>v \<in> set (take k xs). pe_sequence v \<le> ?c"
  proof
    fix v assume "v \<in> set (take k xs)"
    then have "v = last (take k xs) \<or> v \<in> set (butlast (take k xs))"
      using ne by (metis append_butlast_last_id Un_iff empty_iff insert_iff list.set(1,2) set_append)
    moreover have "\<forall>v \<in> set (butlast (take k xs)). pe_sequence v < ?c"
      using parts(1) append_butlast_last_id [OF ne] by (metis list.set_intros(1) sorted_wrt_append)
    ultimately show "pe_sequence v \<le> ?c" by force
  qed
  then have "filter (\<lambda>v. pe_sequence v > ?c) (take k xs) = []" by (auto simp: filter_empty_conv)
  moreover have "filter (\<lambda>v. pe_sequence v > ?c) (drop k xs) = drop k xs" using parts(2) last_in_set [OF ne] by (simp add: filter_id_conv)
  ultimately show ?thesis using xs by (metis append_Nil filter_append)
qed

text \<open>What lies past the cursor of a page is exactly what the page left out, and \<open>has_more\<close> says whether there is any.\<close>

lemma page_rest:
  assumes j: "journal_ok db" and run: "snapshot rt thread after limit db = Inr p"
  shows "pg_events p @ events_past thread (pg_cursor p) db = events_past thread (max 0 after) db
     \<and> (pg_more p \<longleftrightarrow> events_past thread (pg_cursor p) db \<noteq> [])"
proof -
  note pg = snapshot_page [OF j run]
  let ?xs = "events_past thread (max 0 after) db"
  let ?k = "nat (max 1 (min limit 500))"
  have "0 \<le> pg_cursor p \<and> pg_events p @ events_past thread (pg_cursor p) db = ?xs"
  proof (cases "?xs = []")
    case True
    then show ?thesis using pg by simp
  next
    case False
    let ?c = "pe_sequence (last (take ?k ?xs))"
    have "take ?k ?xs \<noteq> []" using False by simp
    then have "last (take ?k ?xs) \<in> set ?xs" by (rule in_set_takeD [OF last_in_set])
    then have c: "max 0 after < ?c" by (simp add: events_past_def)
    then have "events_past thread ?c db = filter (\<lambda>v. pe_sequence v > ?c) ?xs"
      unfolding events_past_def filter_filter by (intro filter_cong) auto
    also have "\<dots> = drop ?k ?xs" by (rule past_cursor [OF past_sorted [OF j] _ False]) simp
    finally have "pg_cursor p = ?c \<and> pg_events p @ events_past thread ?c db = ?xs" using pg False by simp
    then show ?thesis using c by simp
  qed
  then show ?thesis using past_none [of "pg_cursor p" thread db] pg(3) by auto
qed

end
