(* ===== verification/Workspace.thy ===== *)
theory Workspace
  imports Prelude
begin

text \<open>
  \<open>src/smara/workspace_contract.py\<close>: the contract of bounded local workspace jobs. A job is a document
  from an untrusted planner; it is rejected when it holds a credential anywhere, and its fields are
  bounded and normalized. The reading of a document into typed fields (pydantic's conversions and
  \<open>extra="forbid"\<close>) is a parameter; the bounds of the \<open>Field\<close>s and the validators are modelled.
\<close>

section \<open>Credentials\<close>

definition secret_keys :: "string list" where
  "secret_keys =
     [''api_key'', ''apikey'', ''access_token'', ''refresh_token'', ''password'', ''secret'',
      ''secret_value'', ''authorization'', ''private_key'', ''client_secret'', ''credential'']"

definition key_char :: "char \<Rightarrow> bool" where
  "key_char c \<longleftrightarrow> ascii_alnum c \<or> c = CHR ''_'' \<or> c = CHR ''-''"

text \<open>\<open>_SECRET_VALUE\<close> at the beginning of a text, and anywhere in it.\<close>

definition secret_prefixes :: "string list" where
  "secret_prefixes = [''sk-'', ''xai-'', ''ghp_'', ''gho_'', ''ghu_'', ''ghs_'', ''ghr_'']"

definition secret_at :: "string \<Rightarrow> bool" where
  "secret_at s \<longleftrightarrow> (\<exists>p \<in> set secret_prefixes. starts_with s p \<and> 12 \<le> length (takeWhile key_char (drop (length p) s)))"

fun secret_in :: "string \<Rightarrow> bool" where
  "secret_in [] = False"
| "secret_in (c # cs) = (secret_at (c # cs) \<or> secret_in cs)"

text \<open>\<open>_reject_secret_fields\<close>: true when it raises.\<close>

fun rejects :: "json \<Rightarrow> bool" where
  "rejects (JObj kvs) = (\<exists>p \<in> set kvs. lower (strip (fst p)) \<in> set secret_keys \<or> rejects (snd p))"
| "rejects (JArr xs) = (\<exists>x \<in> set xs. rejects x)"
| "rejects (JStr s) = secret_in s"
| "rejects _ = False"

section \<open>Relative paths\<close>

definition slash :: "char \<Rightarrow> bool" where
  "slash c \<longleftrightarrow> c = CHR ''/'' \<or> c = CHR 0x5C"

definition is_alpha :: "char \<Rightarrow> bool" where
  "is_alpha c \<longleftrightarrow> ascii_alnum c \<and> \<not> (48 \<le> (of_char c :: nat) \<and> (of_char c :: nat) \<le> 57)"

text \<open>
  The third look-ahead of \<open>_SAFE_RELATIVE\<close>: two dots between separators or ends; \<open>b\<close> tells whether a
  component begins here.
\<close>

fun dotdot :: "bool \<Rightarrow> string \<Rightarrow> bool" where
  "dotdot b [] = False"
| "dotdot b (c # cs) =
     (b \<and> starts_with (c # cs) ''..'' \<and> (case drop 2 (c # cs) of [] \<Rightarrow> True | d # _ \<Rightarrow> slash d) \<or> dotdot (slash c) cs)"

text \<open>\<open>_SAFE_RELATIVE.fullmatch\<close>; \<open>.\<close> does not match a line feed.\<close>

definition safe_relative :: "string \<Rightarrow> bool" where
  "safe_relative s \<longleftrightarrow>
     s \<noteq> [] \<and> \<not> slash (hd s)
     \<and> \<not> (is_alpha (hd s) \<and> (case drop 1 s of [] \<Rightarrow> False | c # _ \<Rightarrow> c = CHR '':''))
     \<and> \<not> dotdot True s \<and> CHR 0x0A \<notin> set s"

definition to_slashes :: "string \<Rightarrow> string" where
  "to_slashes s = map (\<lambda>c. if c = CHR 0x5C then CHR ''/'' else c) s"

definition validate_relative_path :: "string \<Rightarrow> string \<Rightarrow> string result" where
  "validate_relative_path field value =
     (let normalized = to_slashes (strip value)
      in if normalized = [] \<or> \<not> safe_relative normalized \<or> normalized \<in> {''.'', ''..''}
         then Inl (ValueError (field @ '' must be a relative path inside the approved workspace''))
         else Inr normalized)"

text \<open>Optional values and lists of values, validated one by one.\<close>

fun opt_check :: "('a \<Rightarrow> 'b result) \<Rightarrow> 'a option \<Rightarrow> 'b option result" where
  "opt_check f None = Inr None"
| "opt_check f (Some x) = andThen (f x) (\<lambda>y. Inr (Some y))"

fun each :: "('a \<Rightarrow> 'b result) \<Rightarrow> 'a list \<Rightarrow> 'b list result" where
  "each f [] = Inr []"
| "each f (x # xs) = andThen (f x) (\<lambda>y. andThen (each f xs) (\<lambda>ys. Inr (y # ys)))"

definition require :: "bool \<Rightarrow> string \<Rightarrow> unit result" where
  "require b msg = (if b then Inr () else Inl (ValueError msg))"

definition hex_digit :: "char \<Rightarrow> bool" where
  "hex_digit c \<longleftrightarrow> (let n = (of_char c :: nat) in (48 \<le> n \<and> n \<le> 57) \<or> (97 \<le> n \<and> n \<le> 102))"

definition sha256_text :: "string \<Rightarrow> string result" where
  "sha256_text s =
     (if length s = 64 \<and> (\<forall>c \<in> set (lower s). hex_digit c) then Inr (lower s)
      else Inl (ValueError ''must be a lowercase SHA-256 digest''))"

definition bounded :: "nat \<Rightarrow> nat \<Rightarrow> 'a list \<Rightarrow> bool" where
  "bounded lo hi xs \<longleftrightarrow> lo \<le> length xs \<and> length xs \<le> hi"

definition opt_bounded :: "nat \<Rightarrow> string option \<Rightarrow> bool" where
  "opt_bounded hi x \<longleftrightarrow> (case x of None \<Rightarrow> True | Some s \<Rightarrow> length s \<le> hi)"

section \<open>Proof records\<close>

record ws_artifact =
  wa_name :: string
  wa_kind :: string
  wa_path :: "string option"
  wa_uri :: "string option"
  wa_sha :: "string option"
  wa_bytes :: int
  wa_media :: "string option"
  wa_preview :: "string option"

definition check_artifact :: "ws_artifact \<Rightarrow> ws_artifact result" where
  "check_artifact a =
     andThen (require (bounded 1 240 (wa_name a) \<and> wa_kind a \<in> set [''file'', ''diff'', ''test'', ''log'', ''report'', ''other'']
         \<and> opt_bounded 500 (wa_path a) \<and> opt_bounded 1000 (wa_uri a) \<and> 0 \<le> wa_bytes a \<and> wa_bytes a \<le> 8 * 1024 * 1024
         \<and> opt_bounded 120 (wa_media a) \<and> opt_bounded 4000 (wa_preview a)) ''artifact'')
       (\<lambda>_. andThen (opt_check (validate_relative_path ''artifact.path'') (wa_path a))
       (\<lambda>p. andThen (opt_check sha256_text (wa_sha a))
       (\<lambda>h. if opt_or p [] = [] \<and> opt_or (wa_uri a) [] = []
            then Inl (ValueError ''artifact must include a relative path or bounded uri'')
            else Inr (a\<lparr>wa_path := p, wa_sha := h\<rparr>))))"

record ws_changed =
  wc_path :: string
  wc_before :: "string option"
  wc_after :: "string option"
  wc_change :: string
  wc_summary :: "string option"

definition check_changed :: "ws_changed \<Rightarrow> ws_changed result" where
  "check_changed c =
     andThen (require (bounded 1 500 (wc_path c) \<and> wc_change c \<in> set [''added'', ''modified'', ''deleted'', ''renamed'', ''unchanged'']
         \<and> opt_bounded 2000 (wc_summary c)) ''changed file'')
       (\<lambda>_. andThen (validate_relative_path ''changed_file.path'' (wc_path c))
       (\<lambda>p. andThen (opt_check sha256_text (wc_before c))
       (\<lambda>b. andThen (opt_check sha256_text (wc_after c))
       (\<lambda>a. Inr (c\<lparr>wc_path := p, wc_before := b, wc_after := a\<rparr>)))))"

record ws_command =
  wm_command :: string
  wm_exit :: int
  wm_duration :: int
  wm_output :: string

definition check_command :: "ws_command \<Rightarrow> ws_command result" where
  "check_command m =
     andThen (require (bounded 1 1000 (wm_command m) \<and> - 255 \<le> wm_exit m \<and> wm_exit m \<le> 255
         \<and> 0 \<le> wm_duration m \<and> wm_duration m \<le> 3600000 \<and> length (wm_output m) \<le> 4000) ''command'') (\<lambda>_. Inr m)"

record ws_test =
  wt_name :: string
  wt_status :: string
  wt_output :: string

definition test_states :: "string list" where
  "test_states = [''passed'', ''failed'', ''skipped'', ''blocked'']"

definition check_test :: "ws_test \<Rightarrow> ws_test result" where
  "check_test t =
     andThen (require (bounded 1 200 (wt_name t) \<and> wt_status t \<in> set test_states \<and> length (wt_output t) \<le> 4000) ''test'') (\<lambda>_. Inr t)"

record ws_accept =
  wk_check :: string
  wk_status :: string
  wk_detail :: string

definition check_accept :: "ws_accept \<Rightarrow> ws_accept result" where
  "check_accept k =
     andThen (require (bounded 1 2000 (wk_check k) \<and> wk_status k \<in> set [''passed'', ''failed'', ''pending'', ''blocked'']
         \<and> length (wk_detail k) \<le> 1000) ''acceptance check'') (\<lambda>_. Inr k)"

record stage_result =
  sr_stage :: string
  sr_status :: string
  sr_summary :: string
  sr_inspected :: "string list"
  sr_changed :: "ws_changed list"
  sr_commands :: "ws_command list"
  sr_tests :: "ws_test list"
  sr_artifacts :: "ws_artifact list"
  sr_accept :: "ws_accept list"
  sr_warnings :: "string list"
  sr_next :: "string option"

definition stage_names :: "string list" where
  "stage_names = [''inspect'', ''plan'', ''edit'', ''run'', ''verify'', ''report'']"

definition stage_states :: "string list" where
  "stage_states = [''completed'', ''failed'', ''cancelled'', ''blocked'']"

definition check_stage :: "stage_result \<Rightarrow> stage_result result" where
  "check_stage s =
     andThen (require (sr_stage s \<in> set stage_names \<and> sr_status s \<in> set stage_states \<and> bounded 1 4000 (sr_summary s)
         \<and> bounded 0 100 (sr_inspected s) \<and> bounded 0 100 (sr_changed s) \<and> bounded 0 20 (sr_commands s)
         \<and> bounded 0 20 (sr_tests s) \<and> bounded 0 20 (sr_artifacts s) \<and> bounded 0 12 (sr_accept s)
         \<and> bounded 0 20 (sr_warnings s) \<and> opt_bounded 1000 (sr_next s)) ''stage result'')
       (\<lambda>_. andThen (each (validate_relative_path ''files_inspected path'') (sr_inspected s))
       (\<lambda>i. andThen (each check_changed (sr_changed s))
       (\<lambda>c. andThen (each check_command (sr_commands s))
       (\<lambda>m. andThen (each check_test (sr_tests s))
       (\<lambda>t. andThen (each check_artifact (sr_artifacts s))
       (\<lambda>a. andThen (each check_accept (sr_accept s))
       (\<lambda>k. Inr (s\<lparr>sr_inspected := i, sr_changed := c, sr_commands := m, sr_tests := t, sr_artifacts := a, sr_accept := k\<rparr>))))))))"

section \<open>Jobs\<close>

record ws_job =
  jb_root :: string
  jb_objective :: string
  jb_checks :: "string list"
  jb_caps :: "string list"
  jb_key :: string
  jb_time :: int
  jb_cost :: rat
  jb_repairs :: int
  jb_policy :: string
  jb_aliases :: "string list"
  jb_repository :: bool
  jb_isolation :: string
  jb_base :: "string option"

definition local_capabilities :: "string list" where
  "local_capabilities = [''local_file_read'', ''local_file_write'', ''local_terminal'', ''local_browser'', ''local_integration'']"

definition read_only_capabilities :: "string list" where
  "read_only_capabilities = [''local_file_read'', ''local_browser'', ''local_integration'']"

definition key_tail :: "char \<Rightarrow> bool" where
  "key_tail c \<longleftrightarrow> ascii_alnum c \<or> c \<in> set ''_.:-''"

text \<open>\<open>_IDEMPOTENCY_KEY\<close> and \<open>_CREDENTIAL_ALIAS\<close>.\<close>

definition good_key :: "string \<Rightarrow> bool" where
  "good_key s \<longleftrightarrow> s \<noteq> [] \<and> ascii_alnum (hd s) \<and> (\<forall>c \<in> set (tl s). key_tail c) \<and> 7 \<le> length (tl s) \<and> length (tl s) \<le> 239"

text \<open>\<open>str.upper\<close> on the characters below 256; the two whose upper case lies above stay as they are.\<close>

definition upper_char :: "char \<Rightarrow> string" where
  "upper_char c =
     (let n = (of_char c :: nat)
      in if n = 223 then ''SS''
         else if (97 \<le> n \<and> n \<le> 122) \<or> (224 \<le> n \<and> n \<le> 254 \<and> n \<noteq> 247) then [char_of (n - 32)] else [c])"

definition upper :: "string \<Rightarrow> string" where
  "upper s = concat (map upper_char s)"

definition is_upper :: "char \<Rightarrow> bool" where
  "is_upper c \<longleftrightarrow> 65 \<le> (of_char c :: nat) \<and> (of_char c :: nat) \<le> 90"

definition good_alias :: "string \<Rightarrow> bool" where
  "good_alias s \<longleftrightarrow> s \<noteq> [] \<and> is_upper (hd s)
     \<and> (\<forall>c \<in> set (tl s). is_upper c \<or> (48 \<le> (of_char c :: nat) \<and> (of_char c :: nat) \<le> 57) \<or> c = CHR ''_'')
     \<and> 1 \<le> length (tl s) \<and> length (tl s) \<le> 63"

definition field_bounds :: "ws_job \<Rightarrow> bool" where
  "field_bounds j \<longleftrightarrow>
     bounded 1 500 (jb_root j) \<and> bounded 1 20000 (jb_objective j) \<and> bounded 1 12 (jb_checks j) \<and> bounded 1 5 (jb_caps j)
     \<and> bounded 8 240 (jb_key j) \<and> 1 \<le> jb_time j \<and> jb_time j \<le> 3600 \<and> 0 \<le> jb_cost j \<and> jb_cost j \<le> 100000
     \<and> 0 \<le> jb_repairs j \<and> jb_repairs j \<le> 3 \<and> jb_policy j \<in> set [''always'', ''on_mutation'', ''read_only'']
     \<and> bounded 0 12 (jb_aliases j) \<and> jb_isolation j \<in> set [''none'', ''copy'', ''git_worktree''] \<and> opt_bounded 160 (jb_base j)"

definition check_job :: "ws_job \<Rightarrow> ws_job result" where
  "check_job j =
     andThen (require (field_bounds j) ''workspace job field out of bounds'')
       (\<lambda>_. andThen (validate_relative_path ''workspace_root'' (jb_root j))
       (\<lambda>root. andThen (require (\<forall>c \<in> set (jb_checks j). strip c \<noteq> []) ''acceptance_checks must contain non-empty descriptions'')
       (\<lambda>_. andThen (require (distinct (jb_caps j) \<and> set (jb_caps j) \<subseteq> set local_capabilities)
                       ''allowed_capabilities contains an unknown or duplicate capability'')
       (\<lambda>_. andThen (require (good_key (strip (jb_key j))) ''idempotency_key must be 8-240 safe characters'')
       (\<lambda>_. let aliases = map (\<lambda>a. upper (strip a)) (jb_aliases j)
            in andThen (require (distinct aliases \<and> (\<forall>a \<in> set aliases. good_alias a))
                          ''credential_aliases must contain unique uppercase environment names'')
       (\<lambda>_. andThen (require (jb_policy j = ''read_only'' \<longrightarrow> set (jb_caps j) \<subseteq> set read_only_capabilities)
                       ''read_only approval_policy cannot include a mutating capability'')
       (\<lambda>_. andThen (require (\<not> (jb_repository j \<and> root \<in> {''.'', []})) ''repository jobs need an explicit workspace_root'')
       (\<lambda>_. andThen (require (jb_isolation j = ''git_worktree'' \<longrightarrow> jb_repository j) ''git_worktree isolation requires repository=true'')
       (\<lambda>_. Inr (j\<lparr>jb_root := root, jb_checks := map (\<lambda>c. take 2000 (strip c)) (jb_checks j),
                   jb_key := strip (jb_key j), jb_aliases := aliases\<rparr>))))))))))"

text \<open>\<open>coerce\<close> is pydantic's reading of a document into the typed fields, \<open>None\<close> when it fails.\<close>

definition validate_workspace_job :: "(json \<Rightarrow> ws_job option) \<Rightarrow> json \<Rightarrow> ws_job result" where
  "validate_workspace_job coerce value =
     (case value of
        JObj _ \<Rightarrow>
          (let checked = (if rejects value then Inl (ValueError ''workspace jobs cannot contain credential values'')
                          else case coerce value of
                                 None \<Rightarrow> Inl (ValueError ''validation error'')
                               | Some j \<Rightarrow> check_job j)
           in case checked of Inl _ \<Rightarrow> Inl (RuntimeError ''Invalid workspace job'') | Inr j \<Rightarrow> Inr j)
      | _ \<Rightarrow> Inl (RuntimeError ''workspace_job must be an object''))"

definition opt_text :: "string option \<Rightarrow> json" where
  "opt_text x = (case x of None \<Rightarrow> JNull | Some s \<Rightarrow> JStr s)"

definition workspace_job_summary :: "ws_job \<Rightarrow> json" where
  "workspace_job_summary j =
     JObj [(''schema_version'', JStr ''smara.workspace.v1''), (''workspace_root'', JStr (jb_root j)),
           (''objective'', JStr (take 500 (jb_objective j))), (''acceptance_checks'', JArr (map JStr (jb_checks j))),
           (''allowed_capabilities'', JArr (map JStr (jb_caps j))), (''idempotency_key'', JStr (jb_key j)),
           (''budgets'', JObj [(''time_budget_seconds'', JNum (jb_time j)), (''cost_budget_inr'', JFloat (jb_cost j)),
                              (''max_repair_attempts'', JNum (jb_repairs j))]),
           (''approval_policy'', JStr (jb_policy j)), (''credential_aliases'', JArr (map JStr (jb_aliases j))),
           (''repository'', JBool (jb_repository j)), (''isolation'', JStr (jb_isolation j)), (''base_revision'', opt_text (jb_base j))]"

definition build_workspace_job ::
  "string \<Rightarrow> string \<Rightarrow> string list \<Rightarrow> string \<Rightarrow> string list option \<Rightarrow> string \<Rightarrow> ws_job result" where
  "build_workspace_job wsroot objective caps key checks policy =
     check_job \<lparr>jb_root = wsroot, jb_objective = objective,
       jb_checks = (case checks of Some (c # cs) \<Rightarrow> c # cs
                    | _ \<Rightarrow> [''The requested local stage completes and reports bounded proof.'']),
       jb_caps = caps, jb_key = key, jb_time = 900, jb_cost = 0, jb_repairs = 0, jb_policy = policy, jb_aliases = [],
       jb_repository = False, jb_isolation = ''none'', jb_base = None\<rparr>"

section \<open>Stage results\<close>

text \<open>
  \<open>build_stage_result\<close>: bounded proof fields copied out of whatever a capability returned. \<open>show\<close> is
  \<open>str\<close> on values that are not text; \<open>get\<close> is \<open>dict.get\<close>.
\<close>

definition get_text :: "string \<Rightarrow> json \<Rightarrow> string option" where
  "get_text k v = (case jget k v of Some (JStr s) \<Rightarrow> Some s | _ \<Rightarrow> None)"

definition get_int :: "string \<Rightarrow> json \<Rightarrow> int" where
  "get_int k v = (case jget k v of Some (JNum n) \<Rightarrow> n | Some (JBool b) \<Rightarrow> (if b then 1 else 0) | _ \<Rightarrow> 0)"

definition get_list :: "string \<Rightarrow> json \<Rightarrow> json list" where
  "get_list k v = (case jget k v of Some (JArr xs) \<Rightarrow> xs | _ \<Rightarrow> [])"

fun is_object :: "json \<Rightarrow> bool" where
  "is_object (JObj _) = True"
| "is_object _ = False"

text \<open>\<open>get(k) or get(k')\<close>.\<close>

definition get_or :: "string \<Rightarrow> string \<Rightarrow> json \<Rightarrow> json option" where
  "get_or k k' v = (case jget k v of Some x \<Rightarrow> if truth x then Some x else jget k' v | None \<Rightarrow> jget k' v)"

definition stage_summary :: "(json \<Rightarrow> string) \<Rightarrow> string \<Rightarrow> json \<Rightarrow> string" where
  "stage_summary show stage r =
     (case get_text ''summary'' r of
        Some (c # cs) \<Rightarrow> c # cs
      | _ \<Rightarrow> concat (map upper_char (take 1 stage)) @ drop 1 stage @ '' stage completed (''
             @ take 120 (or_text (text_or_empty show (get_or ''operation'' ''action'' r)) stage) @ '').'')"

definition inspected_paths :: "json \<Rightarrow> string list" where
  "inspected_paths r = [take 500 p. x \<leftarrow> take 100 (get_list ''entries'' r), is_object x, p \<leftarrow> (case get_text ''path'' x of Some p \<Rightarrow> [p] | None \<Rightarrow> [])]"

definition hash_change :: "(json \<Rightarrow> string) \<Rightarrow> string \<Rightarrow> json \<Rightarrow> ws_changed" where
  "hash_change show path x =
     \<lparr>wc_path = take 500 path, wc_before = None, wc_after = get_text ''sha256'' x, wc_change = ''modified'',
      wc_summary = (case take 2000 (text_or_empty show (jget ''status'' x)) of [] \<Rightarrow> None | s \<Rightarrow> Some s)\<rparr>"

definition changed_files :: "(json \<Rightarrow> string) \<Rightarrow> json \<Rightarrow> ws_changed list" where
  "changed_files show r =
     (case jget ''changed_file_hashes'' r of
        Some (JObj kvs) \<Rightarrow> [hash_change show k x. (k, x) \<leftarrow> take 100 kvs, is_object x]
      | _ \<Rightarrow> (case get_text ''file_name'' r of
               Some f \<Rightarrow> if jget ''changed'' r = Some (JBool True)
                         then [\<lparr>wc_path = take 500 f, wc_before = None, wc_after = None, wc_change = ''modified'', wc_summary = None\<rparr>]
                         else []
             | None \<Rightarrow> []))"

definition command_results :: "(json \<Rightarrow> string) \<Rightarrow> json \<Rightarrow> ws_command list" where
  "command_results show r =
     (case get_text ''command'' r of
        None \<Rightarrow> []
      | Some c \<Rightarrow> [\<lparr>wm_command = take 1000 c, wm_exit = get_int ''exit_code'' r, wm_duration = get_int ''duration_ms'' r,
                    wm_output = take 4000 (text_or_empty show (get_or ''output'' ''output_preview'' r))\<rparr>])"

text \<open>A status that cannot be hashed makes the membership test raise.\<close>

definition test_result :: "(json \<Rightarrow> string) \<Rightarrow> string \<Rightarrow> json \<Rightarrow> ws_test result" where
  "test_result show name x =
     andThen (case jget ''status'' x of
                Some (JStr s) \<Rightarrow> Inr (if s \<in> set test_states then s else ''passed'')
              | Some (JArr _) \<Rightarrow> Inl TypeError
              | Some (JObj _) \<Rightarrow> Inl TypeError
              | _ \<Rightarrow> Inr ''passed'')
       (\<lambda>st. Inr \<lparr>wt_name = take 200 name, wt_status = st,
                   wt_output = take 4000 (text_or_empty show (get_or ''output_preview'' ''output'' x))\<rparr>)"

definition test_results :: "(json \<Rightarrow> string) \<Rightarrow> json \<Rightarrow> ws_test list result" where
  "test_results show r =
     each (\<lambda>(n, x). test_result show n x)
       [(n, x). x \<leftarrow> take 20 (get_list ''tests'' r), is_object x, n \<leftarrow> (case get_text ''name'' x of Some n \<Rightarrow> [n] | None \<Rightarrow> [])]"

definition artifact_results :: "json \<Rightarrow> ws_artifact list" where
  "artifact_results r =
     [\<lparr>wa_name = take 240 n, wa_kind = ''file'', wa_path = get_text ''path'' x, wa_uri = None, wa_sha = get_text ''sha256'' x,
       wa_bytes = get_int ''bytes'' x, wa_media = None, wa_preview = None\<rparr>.
      x \<leftarrow> take 20 (get_list ''artifacts'' r), is_object x,
      n \<leftarrow> (case get_or ''name'' ''path'' x of Some (JStr n) \<Rightarrow> [n] | _ \<Rightarrow> [])]"

definition acceptance_status :: "string \<Rightarrow> ws_command list \<Rightarrow> ws_test list \<Rightarrow> string" where
  "acceptance_status stage ms ts =
     (if stage = ''verify'' \<and> (ms \<noteq> [] \<or> ts \<noteq> []) \<and> (\<forall>m \<in> set ms. wm_exit m = 0) \<and> (\<forall>t \<in> set ts. wt_status t = ''passed'')
      then ''passed'' else ''pending'')"

definition build_stage_result :: "(json \<Rightarrow> string) \<Rightarrow> ws_job \<Rightarrow> string \<Rightarrow> json \<Rightarrow> string \<Rightarrow> stage_result result" where
  "build_stage_result show job stage r status =
     (let name = (if stage \<in> set stage_names then stage else ''report'')
      in andThen (test_results show r)
        (\<lambda>tests. let commands = command_results show r; st = acceptance_status name commands tests
           in check_stage
                \<lparr>sr_stage = name, sr_status = (if status \<in> set stage_states then status else ''completed''),
                 sr_summary = take 4000 (stage_summary show name r), sr_inspected = inspected_paths r,
                 sr_changed = changed_files show r, sr_commands = commands, sr_tests = tests, sr_artifacts = artifact_results r,
                 sr_accept = map (\<lambda>c. \<lparr>wk_check = c, wk_status = st,
                   wk_detail = (if st = ''passed'' then ''Verified by the local stage.'' else ''Awaiting the verify stage.'')\<rparr>) (jb_checks job),
                 sr_warnings = [], sr_next = None\<rparr>))"

section \<open>Accepted paths stay inside\<close>

text \<open>The components of a path, and the directory a component list leads to; the base is innermost first.\<close>

fun segments :: "string \<Rightarrow> string list" where
  "segments [] = [[]]"
| "segments (c # cs) = (if c = CHR ''/'' then [] # segments cs else (c # hd (segments cs)) # tl (segments cs))"

fun walk :: "string list \<Rightarrow> string list \<Rightarrow> string list" where
  "walk dir [] = dir"
| "walk dir (x # xs) =
     (if x = [] \<or> x = ''.'' then walk dir xs else if x = ''..'' then walk (tl dir) xs else walk (x # dir) xs)"

lemma segments_ne [simp]: "segments s \<noteq> []"
  by (cases s) auto

lemma hd_segments_Nil: "hd (segments s) = [] \<longleftrightarrow> s = [] \<or> hd s = CHR ''/''"
  by (cases s) auto

lemma no_dotdot:
  assumes "\<not> dotdot b s" and "\<forall>c \<in> set s. slash c \<longleftrightarrow> c = CHR ''/''"
  shows "''..'' \<notin> set (if b then segments s else tl (segments s))"
  using assms
proof (induction s arbitrary: b)
  case (Cons c cs)
  have rest: "''..'' \<notin> set (if slash c then segments cs else tl (segments cs))" using Cons by simp
  show ?case
  proof (cases "c = CHR ''/''")
    case True
    then show ?thesis using rest by (cases b) (simp_all add: slash_def)
  next
    case False
    then have tl: "''..'' \<notin> set (tl (segments cs))" using rest Cons.prems(2) by simp
    have "c # hd (segments cs) \<noteq> ''..''" if b: b
    proof
      assume "c # hd (segments cs) = ''..''"
      then have c: "c = CHR ''.''" and h: "hd (segments cs) = ''.''" by auto
      then obtain ds where ds: "cs = CHR ''.'' # ds" by (cases cs) (auto split: if_splits)
      then have "hd (segments ds) = []" using h by simp
      then have "ds = [] \<or> slash (hd ds)" by (auto simp: hd_segments_Nil slash_def)
      then have "dotdot b (c # cs)" using b c ds by (cases ds) (simp_all add: starts_with_def)
      then show False using Cons.prems(1) by simp
    qed
    then show ?thesis using tl False by (cases b) auto
  qed
qed simp

lemma walk_down: "''..'' \<notin> set xs \<Longrightarrow> \<exists>zs. walk dir xs = zs @ dir"
proof (induction xs arbitrary: dir)
  case (Cons x xs)
  then obtain zs where "walk dir xs = zs @ dir" "\<exists>ys. walk (x # dir) xs = ys @ x # dir" by force
  then show ?case using Cons.prems by auto
qed simp

lemma slashes_only: "c \<in> set (to_slashes s) \<Longrightarrow> slash c \<longleftrightarrow> c = CHR ''/''"
  by (auto simp: to_slashes_def slash_def split: if_splits)

lemma accepted_path_inside:
  assumes "validate_relative_path f v = Inr p"
  shows "\<exists>zs. walk dir (segments p) = zs @ dir"
proof -
  have "\<not> dotdot True p" "p = to_slashes (strip v)"
    using assms by (auto simp: validate_relative_path_def Let_def safe_relative_def split: if_splits)
  then have "''..'' \<notin> set (segments p)" using no_dotdot [of True p] slashes_only by auto
  then show ?thesis by (rule walk_down)
qed

section \<open>Nothing secret inside an accepted job\<close>

inductive inside :: "json \<Rightarrow> json \<Rightarrow> bool" where
  here: "inside v v"
| field: "inside x v \<Longrightarrow> (k, v) \<in> set kvs \<Longrightarrow> inside x (JObj kvs)"
| elem: "inside x v \<Longrightarrow> v \<in> set vs \<Longrightarrow> inside x (JArr vs)"

lemma rejects_inside: "inside x v \<Longrightarrow> rejects x \<Longrightarrow> rejects v"
  by (induction rule: inside.induct) force+

lemma accepted_clean: "validate_workspace_job coerce v = Inr j \<Longrightarrow> inside x v \<Longrightarrow> \<not> rejects x"
  using rejects_inside [of x v] by (cases v; cases "rejects v") (auto simp: validate_workspace_job_def simp del: rejects.simps)

lemma require_Inr [simp]: "require b msg = Inr u \<longleftrightarrow> b"
  by (simp add: require_def)

lemma check_job_good:
  assumes "check_job j = Inr j'"
  shows "jb_caps j' = jb_caps j \<and> jb_policy j' = jb_policy j \<and> distinct (jb_caps j') \<and> set (jb_caps j') \<subseteq> set local_capabilities
     \<and> (jb_policy j' = ''read_only'' \<longrightarrow> set (jb_caps j') \<subseteq> set read_only_capabilities)
     \<and> (jb_isolation j' = ''git_worktree'' \<longrightarrow> jb_repository j')
     \<and> validate_relative_path ''workspace_root'' (jb_root j) = Inr (jb_root j')
     \<and> good_key (jb_key j') \<and> distinct (jb_aliases j') \<and> (\<forall>a \<in> set (jb_aliases j'). good_alias a)
     \<and> 1 \<le> jb_time j' \<and> jb_time j' \<le> 3600 \<and> jb_repairs j' \<le> 3"
proof -
  let ?aliases = "map (\<lambda>a. upper (strip a)) (jb_aliases j)"
  obtain p where p: "validate_relative_path ''workspace_root'' (jb_root j) = Inr p"
    and j': "j' = j\<lparr>jb_root := p, jb_checks := map (\<lambda>c. take 2000 (strip c)) (jb_checks j), jb_key := strip (jb_key j), jb_aliases := ?aliases\<rparr>"
    and ok: "field_bounds j" "distinct (jb_caps j) \<and> set (jb_caps j) \<subseteq> set local_capabilities" "good_key (strip (jb_key j))"
      "distinct ?aliases \<and> (\<forall>a \<in> set ?aliases. good_alias a)"
      "jb_policy j = ''read_only'' \<longrightarrow> set (jb_caps j) \<subseteq> set read_only_capabilities"
      "jb_isolation j = ''git_worktree'' \<longrightarrow> jb_repository j"
    using assms unfolding check_job_def Let_def andThen_Inr require_Inr by blast
  have "1 \<le> jb_time j" "jb_time j \<le> 3600" "jb_repairs j \<le> 3" using ok(1) unfolding field_bounds_def by blast+
  then show ?thesis using p ok(2-6) by (simp add: j')
qed

section \<open>Acceptance rests on proof\<close>

lemma each_id: "each f xs = Inr ys \<Longrightarrow> (\<And>x y. f x = Inr y \<Longrightarrow> y = x) \<Longrightarrow> ys = xs"
  by (induction xs arbitrary: ys) auto

lemma check_stage_keeps:
  assumes "check_stage s = Inr s'"
  shows "sr_stage s' = sr_stage s \<and> sr_commands s' = sr_commands s \<and> sr_tests s' = sr_tests s \<and> sr_accept s' = sr_accept s"
proof -
  obtain i c m t a k where parts: "each check_command (sr_commands s) = Inr m" "each check_test (sr_tests s) = Inr t"
    "each check_accept (sr_accept s) = Inr k"
    and s': "s' = s\<lparr>sr_inspected := i, sr_changed := c, sr_commands := m, sr_tests := t, sr_artifacts := a, sr_accept := k\<rparr>"
    using assms unfolding check_stage_def by (simp only: andThen_Inr) auto
  have "m = sr_commands s" by (rule each_id [OF parts(1)]) (simp add: check_command_def)
  moreover have "t = sr_tests s" by (rule each_id [OF parts(2)]) (simp add: check_test_def)
  moreover have "k = sr_accept s" by (rule each_id [OF parts(3)]) (simp add: check_accept_def)
  ultimately show ?thesis using s' by simp
qed

lemma passed_needs_proof:
  assumes run: "build_stage_result show job stage r status = Inr s" and k: "k \<in> set (sr_accept s)" "wk_status k = ''passed''"
  shows "sr_stage s = ''verify'' \<and> (sr_commands s \<noteq> [] \<or> sr_tests s \<noteq> []) \<and> (\<forall>m \<in> set (sr_commands s). wm_exit m = 0)
     \<and> (\<forall>t \<in> set (sr_tests s). wt_status t = ''passed'')"
proof -
  obtain s0 where s0: "check_stage s0 = Inr s"
    "\<forall>k \<in> set (sr_accept s0). wk_status k = acceptance_status (sr_stage s0) (sr_commands s0) (sr_tests s0)"
    using run unfolding build_stage_result_def Let_def by (simp only: andThen_Inr) force
  have "acceptance_status (sr_stage s) (sr_commands s) (sr_tests s) = ''passed''"
    using s0(2) check_stage_keeps [OF s0(1)] k by metis
  then show ?thesis by (simp add: acceptance_status_def split: if_splits)
qed

end
