(* ===== verification/Examples.thy ===== *)
theory Examples
  imports Reachable
begin

text \<open>
  A concrete environment and a short run of the task engine, on which the properties are applied:
  a two-step task is created, its first step claimed and completed, its second step claimed.
\<close>

lemma ready_conditions:
  "hosted_ready kinds now db (t, s) \<Longrightarrow> s_status s = S_Queued \<and> parents_done db s \<and> retry_due now s"
  by (simp add: hosted_ready_def)

section \<open>An environment\<close>

text \<open>Identifiers spell their path in unary, so that they are distinct; the clock ticks a second per reading.\<close>

fun path_text :: "nat list \<Rightarrow> string" where
  "path_text [] = []"
| "path_text (n # ns) = replicate n CHR ''1'' @ CHR ''.'' # path_text ns"

definition ex_env :: env where
  "ex_env = \<lparr>clk = (\<lambda>n. seconds (int n)), uuid = path_text, secret = (\<lambda>n. replicate n CHR ''s''),
             sha256 = (\<lambda>s. s), job_repairs = (\<lambda>_. None)\<rparr>"

lemma replicate_dot: "replicate m CHR ''1'' @ CHR ''.'' # xs = replicate n CHR ''1'' @ CHR ''.'' # ys \<longleftrightarrow> m = n \<and> xs = ys"
proof (induction m arbitrary: n)
  case 0
  then show ?case by (cases n) auto
next
  case (Suc m)
  then show ?case by (cases n) auto
qed

lemma path_text_inj: "path_text p = path_text q \<longleftrightarrow> p = q"
proof (induction p arbitrary: q)
  case Nil
  then show ?case by (cases q) auto
next
  case (Cons n p)
  then show ?case by (cases q) (auto simp: replicate_dot)
qed

lemma ex_fresh: "fresh (sub_env ex_env k) empty_store"
  by (simp add: fresh_def inj_def ex_env_def path_text_inj empty_store_def)

section \<open>A run\<close>

fun state_of :: "('e + store \<times> 'a) \<Rightarrow> store" where
  "state_of (Inr (db, _)) = db"
| "state_of (Inl _) = empty_store"

fun value_of :: "('e + store \<times> 'a) \<Rightarrow> 'a option" where
  "value_of (Inr (_, x)) = Some x"
| "value_of (Inl _) = None"

lemma ok_split: "is_ok r \<Longrightarrow> \<exists>x. r = Inr (state_of r, x)"
  by (cases r) auto

lemma ok_value: "is_ok r \<Longrightarrow> r = Inr (projr r)"
  by (cases r) auto

definition ex_steps :: "step_in list" where
  "ex_steps = [\<lparr>i_name = ''draft'', i_depends_on = [], i_kind = Hosted, i_capability = None, i_payload = JNull\<rparr>,
               \<lparr>i_name = ''send'', i_depends_on = [0], i_kind = Hosted, i_capability = None, i_payload = JNull\<rparr>]"

definition ex_made :: store where
  "ex_made = state_of (create_task (sub_env ex_env 1) ''alice'' ''home'' ''Report'' ''Write it'' False ex_steps ''hosted'' empty_store)"

definition ex_claimed :: store where
  "ex_claimed = fst (claim_one (sub_env ex_env 2) ''w1'' 60 [Hosted] ex_made)"

definition ex_finished :: store where
  "ex_finished = (case complete_step (sub_env ex_env 3) (''step_'' @ path_text [1, 2, 0]) ''alice'' ''text'' None None ex_claimed of
     Inr db \<Rightarrow> db | Inl _ \<Rightarrow> ex_claimed)"

definition ex_second :: store where
  "ex_second = fst (claim_one (sub_env ex_env 4) ''w1'' 60 [Hosted] ex_finished)"


definition ex_failed :: store where
  "ex_failed = state_of (fail_step (sub_env ex_env 3) (''step_'' @ path_text [1, 2, 0]) ''alice'' ''boom'' 30 False ex_claimed)"

lemma ex_made_ok: "\<exists>t. create_task (sub_env ex_env 1) ''alice'' ''home'' ''Report'' ''Write it'' False ex_steps ''hosted'' empty_store = Inr (ex_made, t)"
  unfolding ex_made_def by (rule ok_split) code_simp

lemma ex_finished_ok:
  "complete_step (sub_env ex_env 3) (''step_'' @ path_text [1, 2, 0]) ''alice'' ''text'' None None ex_claimed = Inr ex_finished"
proof -
  have "is_ok (complete_step (sub_env ex_env 3) (''step_'' @ path_text [1, 2, 0]) ''alice'' ''text'' None None ex_claimed)"
    by code_simp
  then show ?thesis unfolding ex_finished_def
    by (cases "complete_step (sub_env ex_env 3) (''step_'' @ path_text [1, 2, 0]) ''alice'' ''text'' None None ex_claimed") auto
qed

lemma ex_failed_ok:
  "\<exists>out. fail_step (sub_env ex_env 3) (''step_'' @ path_text [1, 2, 0]) ''alice'' ''boom'' 30 False ex_claimed = Inr (ex_failed, out)"
  unfolding ex_failed_def by (rule ok_split) code_simp

lemma ex_reach: "reach engine empty_store ex_made" "reach engine empty_store ex_claimed" "reach engine empty_store ex_second"
proof -
  obtain t where t: "create_task (sub_env ex_env 1) ''alice'' ''home'' ''Report'' ''Write it'' False ex_steps ''hosted'' empty_store = Inr (ex_made, t)"
    using ex_made_ok by blast
  show made: "reach engine empty_store ex_made" by (intro reach.more [OF reach.start] engine.created [OF t] ex_fresh)
  obtain c where "claim_one (sub_env ex_env 2) ''w1'' 60 [Hosted] ex_made = (ex_claimed, c)"
    unfolding ex_claimed_def by (metis prod.collapse)
  then show claimed: "reach engine empty_store ex_claimed" by (intro reach.more [OF made] engine.claimed)
  have fin: "reach engine empty_store ex_finished" by (intro reach.more [OF claimed] engine.completed [OF ex_finished_ok])
  obtain c where "claim_one (sub_env ex_env 4) ''w1'' 60 [Hosted] ex_finished = (ex_second, c)"
    unfolding ex_second_def by (metis prod.collapse)
  then show "reach engine empty_store ex_second" by (intro reach.more [OF fin] engine.claimed)
qed

lemma ex_failed_reach: "reach engine empty_store ex_failed"
proof -
  obtain out where "fail_step (sub_env ex_env 3) (''step_'' @ path_text [1, 2, 0]) ''alice'' ''boom'' 30 False ex_claimed = Inr (ex_failed, out)"
    using ex_failed_ok by blast
  moreover have "step_held (''step_'' @ path_text [1, 2, 0]) ex_claimed" by code_simp
  ultimately show ?thesis by (intro reach.more [OF ex_reach(2)] engine.failed)
qed

section \<open>A desktop run\<close>

text \<open>A desktop is paired; a desktop task is created, approved and claimed by it.\<close>

definition ex_task_in :: "step_in list" where
  "ex_task_in = [\<lparr>i_name = ''read'', i_depends_on = [], i_kind = Desktop, i_capability = Some ''local_file_read'', i_payload = JNull\<rparr>]"

definition ex_coded :: store where
  "ex_coded = fst (create_executor_pairing (sub_env ex_env 1) ''alice'' ''laptop'' [''local_file_read''] empty_store)"

definition ex_paired :: store where
  "ex_paired = state_of (pair_executor (sub_env ex_env 2) [] ex_coded)"

definition ex_desktop :: store where
  "ex_desktop = state_of (create_task (sub_env ex_env 3) ''alice'' ''home'' ''Read'' ''Read it'' True ex_task_in ''desktop'' ex_paired)"

definition ex_decided :: store where
  "ex_decided = state_of (decide (sub_env ex_env 4) (''task_'' @ path_text [3, 0]) ''alice'' True ''ok'' ''user'' ex_desktop)"

definition ex_leased :: store where
  "ex_leased = state_of (claim_for_executor (sub_env ex_env 5) (''desktop_'' @ path_text [2, 0]) [] 60 False False ex_decided)"

lemma ex_desktop_ok:
  "\<exists>p. pair_executor (sub_env ex_env 2) [] ex_coded = Inr (ex_paired, p)"
  "\<exists>t. create_task (sub_env ex_env 3) ''alice'' ''home'' ''Read'' ''Read it'' True ex_task_in ''desktop'' ex_paired = Inr (ex_desktop, t)"
  "\<exists>t. decide (sub_env ex_env 4) (''task_'' @ path_text [3, 0]) ''alice'' True ''ok'' ''user'' ex_desktop = Inr (ex_decided, t)"
  "\<exists>c. claim_for_executor (sub_env ex_env 5) (''desktop_'' @ path_text [2, 0]) [] 60 False False ex_decided = Inr (ex_leased, c)"
  unfolding ex_paired_def ex_desktop_def ex_decided_def ex_leased_def by (rule ok_split, code_simp)+

lemma ex_paired_fresh: "fresh (sub_env ex_env 3) ex_paired"
proof -
  have "tasks ex_paired = []" "runs ex_paired = []" "steps ex_paired = []" "deps ex_paired = []" by code_simp+
  then show ?thesis using ex_fresh [of 3] by (simp add: fresh_def empty_store_def)
qed

lemma ex_desktop_reach: "reach engine empty_store ex_decided" "reach engine empty_store ex_leased"
proof -
  have "engine empty_store ex_coded"
    by (rule engine.elsewhere) (simp_all add: ex_coded_def create_executor_pairing_def Let_def empty_store_def)
  then have "reach engine empty_store ex_coded" by (rule reach.more [OF reach.start])
  then have "reach engine empty_store ex_paired" using ex_desktop_ok(1) by (blast intro: reach.more engine.paired)
  then have "reach engine empty_store ex_desktop"
    using ex_desktop_ok(2) ex_paired_fresh by (blast intro: reach.more engine.created)
  then show decided: "reach engine empty_store ex_decided"
    using ex_desktop_ok(3) by (blast intro: reach.more engine.decided)
  then show "reach engine empty_store ex_leased"
    using ex_desktop_ok(4) by (blast intro: reach.more engine.desktop_claimed)
qed

end
