(* ===== verification/EngineProps.thy ===== *)
theory EngineProps
  imports Examples PgStore
begin

text \<open>
  The properties of the task engine (\<open>src/smara/store.py\<close>): what holds in every state the operations
  reach, what a claim hands out, how steps are completed, failed, decided, cancelled and retried, and
  that the PostgreSQL claim agrees with the SQLite one.
\<close>

section \<open>Facts the properties share\<close>

lemma start_work_row:
  "(t, s) \<in> set (joined db) \<Longrightarrow> lease_step owner until s \<in> set (steps (start_work now owner until (t, s) db))"
  by (auto simp: start_work_def in_joined row_simps upd_steps_def upd_runs_def upd_tasks_def intro!: bexI [of _ s])

lemma fold_keeps: "(\<And>i x. i \<in> set is \<Longrightarrow> P x \<Longrightarrow> P (F i x)) \<Longrightarrow> P x \<Longrightarrow> P (fold F is x)"
  by (induction "is" arbitrary: x) auto

lemma recover_hosted_keeps:
  assumes "distinct (map s_id (steps db))" and "s \<in> set (steps db)" and "\<not> hosted_expired now s"
  shows "s \<in> set (steps (recover_hosted e now db))"
  unfolding recover_hosted_def
proof (rule fold_keeps)
  fix i and db' :: store assume i: "i \<in> set (enumerate_from 0 (filter (hosted_expired now) (steps db)))" and s: "s \<in> set (steps db')"
  have "snd i \<in> set (steps db)" "hosted_expired now (snd i)" using snd_in_items [OF i] by auto
  then have "s_id s \<noteq> s_id (snd i)" using assms key_inj by metis
  then show "s \<in> set (steps (recover_step e now i db'))" using s recover_step_others by (cases i) auto
qed (rule assms(2))

section \<open>Every reachable state\<close>



text \<open>C2: in every reachable state, task and step identifiers are unique, every step belongs to a task,
  a step carries a lease owner and an expiry exactly while it runs, and a running task needs no approval.\<close>

theorem leases_match_running:
  assumes "reach engine empty_store db"
  shows "distinct (map t_id (tasks db)) \<and> distinct (map s_id (steps db)) \<and>
    (\<forall>s \<in> set (steps db). (\<exists>t \<in> set (tasks db). t_id t = s_task s) \<and>
       (s_status s = S_Running \<longleftrightarrow> s_lease_owner s \<noteq> None) \<and> (s_lease_owner s = None \<longleftrightarrow> s_lease_expires s = None)) \<and>
    (\<forall>t \<in> set (tasks db). t_status t = T_Running \<longrightarrow> \<not> t_requires_approval t)"
proof -
  note inv = engine_invD [OF engine_machine.inv_reach [OF assms]]
  show ?thesis using inv(1,2,8) inv(3) [unfolded task_ok_def] inv(4) [unfolded step_ok_def] by blast
qed

theorem leases_match_running_witness: "s_lease_owner (steps ex_claimed ! 0) \<noteq> None \<and> s_lease_owner (steps ex_claimed ! 1) = None"
proof -
  have rows: "length (steps ex_claimed) = 2" "s_status (steps ex_claimed ! 0) = S_Running" "s_status (steps ex_claimed ! 1) = S_Queued"
    by code_simp+
  have mem: "steps ex_claimed ! 0 \<in> set (steps ex_claimed)" "steps ex_claimed ! 1 \<in> set (steps ex_claimed)"
    using rows(1) by auto
  then have "s_status s = S_Running \<longleftrightarrow> s_lease_owner s \<noteq> None" if "s \<in> set (steps ex_claimed)" for s
    using leases_match_running [OF ex_reach(2)] that by blast
  from this [OF mem(1)] this [OF mem(2)] show ?thesis using rows by simp
qed

text \<open>C3: in every reachable state, a step that has failed has an open dead letter of its own.\<close>

theorem failures_are_recorded:
  assumes "reach engine empty_store db" and "s \<in> set (steps db)" and "s_status s = S_Failed"
  shows "\<exists>l \<in> set (dead_letters db). l_step l = s_id s \<and> l_task l = s_task s \<and> l_resolved_at l = None"
  using engine_invD(6) [OF engine_machine.inv_reach [OF assms(1)] assms(2,3)] by (auto simp: letter_for_def)

theorem failures_are_recorded_witness: "\<exists>l \<in> set (dead_letters ex_failed). l_step l = s_id (steps ex_failed ! 0)"
proof -
  have "length (steps ex_failed) = 2" and st: "s_status (steps ex_failed ! 0) = S_Failed" by code_simp+
  then have "steps ex_failed ! 0 \<in> set (steps ex_failed)" by simp
  from failures_are_recorded [OF ex_failed_reach this st] show ?thesis by blast
qed

section \<open>Claims\<close>

text \<open>C4: what the hosted worker's claim leases. In a reachable state, a claim that returns a lease names a
  step that is now running under this worker until the given time, is not desktop work, needs no approval,
  and depends only on completed steps.\<close>

theorem hosted_claim_safe:
  assumes db: "reach engine empty_store db"
    and claim: "claim_one e worker secs kinds db = (db', Some c)" and lease: "cl_lease_owner c \<noteq> None"
  shows "\<not> t_requires_approval (cl_task c) \<and> cl_lease_owner c = Some worker \<and>
    (\<exists>s \<in> set (steps db'). s_id s = cl_step c \<and> s_task s = t_id (cl_task c) \<and> s_status s = S_Running \<and>
       s_lease_owner s = Some worker \<and> s_lease_expires s = Some (clk e 1 + seconds secs) \<and>
       s_kind s \<noteq> Desktop \<and> prior_done (deps db') (steps db') s)"
proof -
  have inv: "engine_inv (recover_hosted e (clk e 0) db)"
    by (intro recover_hosted_inv engine_machine.inv_reach [OF db])
  have inv': "engine_inv db'" by (rule claim_one_inv [OF claim engine_machine.inv_reach [OF db]])
  from claim show ?thesis
  proof (cases rule: claim_one_cases)
    case none
    then show ?thesis by simp
  next
    case (surfaced t s)
    then have "cl_lease_owner c = None" by (simp add: surface_approval_def Let_def claim_of_def)
    then show ?thesis using lease by simp
  next
    case (leased t s)
    let ?mid = "recover_hosted e (clk e 0) db" and ?s = "lease_step worker (clk e 1 + seconds secs) s"
    have t: "t \<in> set (tasks ?mid)" and st: "s_task s = t_id t" using leased(1) by (auto simp: in_joined)
    have gate: "\<not> t_requires_approval t" "s_kind s \<noteq> Desktop"
      using hosted_gate [OF inv leased(2) t leased(3)] by auto
    have row: "?s \<in> set (steps db')"
      using start_work_row [OF leased(1)] unfolding leased(4) by (simp add: add_event_def)
    have "prior_done (deps db') (steps db') ?s"
      using engine_invD(5) [OF inv' row] by (simp add: started_def lease_step_def)
    then show ?thesis
      using leased(5) gate st row by (auto simp: claim_of_def lease_step_def intro!: bexI [of _ ?s])
  qed
qed

theorem hosted_claim_safe_witness:
  "\<exists>c. snd (claim_one (sub_env ex_env 2) ''w1'' 60 [Hosted] ex_made) = Some c \<and> cl_lease_owner c = Some ''w1'' \<and>
       \<not> t_requires_approval (cl_task c)"
proof -
  obtain c where c: "claim_one (sub_env ex_env 2) ''w1'' 60 [Hosted] ex_made = (ex_claimed, Some c)" "cl_lease_owner c \<noteq> None"
  proof -
    let ?r = "claim_one (sub_env ex_env 2) ''w1'' 60 [Hosted] ex_made"
    have "map_option cl_lease_owner (snd ?r) = Some (Some ''w1'')" by code_simp
    then obtain c where "snd ?r = Some c" "cl_lease_owner c = Some ''w1''" by (cases "snd ?r") auto
    moreover have "fst ?r = ex_claimed" by (simp add: ex_claimed_def)
    ultimately show thesis by (intro that [of c]) (auto intro: prod_eqI)
  qed
  show ?thesis using hosted_claim_safe [OF ex_reach(1) c] c(1) by auto
qed

text \<open>C5: in every reachable state, a running desktop step is leased to a paired executor which declared the
  capability the step needs and belongs to the account the task belongs to.\<close>

theorem desktop_work_is_held:
  assumes "reach engine empty_store db" and "s \<in> set (steps db)" and "s_status s = S_Running" and "s_kind s = Desktop"
  shows "\<exists>x \<in> set (executors db). s_lease_owner s = Some (x_id x) \<and> (\<exists>c \<in> set (x_capabilities x). s_capability s = Some c) \<and>
           (\<forall>t \<in> set (tasks db). t_id t = s_task s \<longrightarrow> t_account t = x_account x)"
proof -
  obtain x where "x \<in> set (executors db)" "held_by (tasks db) s x"
    using engine_invD(7) [OF engine_machine.inv_reach [OF assms(1)] assms(2-4)] by blast
  then show ?thesis by (intro bexI [of _ x]) (auto simp: held_by_def capability_in_def split: option.splits)
qed

theorem desktop_work_is_held_witness: "\<exists>x \<in> set (executors ex_leased). s_lease_owner (steps ex_leased ! 0) = Some (x_id x)"
proof -
  have "length (steps ex_leased) = 1" and st: "s_status (steps ex_leased ! 0) = S_Running" "s_kind (steps ex_leased ! 0) = Desktop"
    by code_simp+
  then have "steps ex_leased ! 0 \<in> set (steps ex_leased)" by simp
  from desktop_work_is_held [OF ex_desktop_reach(2) this st] show ?thesis by blast
qed

text \<open>C6: what a desktop's claim leases. Only an authenticated, active executor gets a lease; it names a desktop
  step whose capability the executor declared, of a task of the executor's own account that was approved,
  and the step now runs under this executor until the returned time.\<close>

theorem desktop_claim_safe:
  assumes db: "reach engine empty_store db"
    and claim: "claim_for_executor e xid token secs safe local db = Inr (db', Some c)"
  shows "\<exists>x \<in> set (executors db). x_id x = xid \<and> x_token_hash x = sha256 e token \<and> x_status x = X_Active \<and>
    t_account (cl_task c) = x_account x \<and> \<not> t_requires_approval (cl_task c) \<and>
    (\<exists>a \<in> set (approvals db'). a_task a = t_id (cl_task c) \<and> a_status a = Approved) \<and>
    (\<exists>s \<in> set (steps db'). s_id s = cl_step c \<and> s_status s = S_Running \<and> s_kind s = Desktop \<and> s_lease_owner s = Some xid \<and>
       s_lease_expires s = cl_lease_expires c \<and> (\<exists>k \<in> set (x_capabilities x). s_capability s = Some k) \<and>
       prior_done (deps db') (steps db') s)"
proof -
  have inv': "engine_inv db'" by (rule claim_for_executor_inv [OF claim engine_machine.inv_reach [OF db]])
  from claim show ?thesis
  proof (cases rule: claim_for_executor_cases)
    case (leased x t s)
    let ?mid = "desktop_mid e x safe local db" and ?s = "lease_step xid (clk e 1 + seconds secs) s"
    note x = executor_auth_Inr [OF leased(1)]
    have ready: "t_account t = x_account x" "\<not> t_requires_approval t" "s_kind s = Desktop"
      "\<exists>a \<in> set (approvals ?mid). a_task a = t_id t \<and> a_status a = Approved"
      using leased(3) by (auto simp: desktop_ready_def)
    have cap: "\<exists>k \<in> set (x_capabilities x). s_capability s = Some k"
      using leased(4) by (auto simp: capability_in_def split: option.splits)
    have row: "?s \<in> set (steps db')"
      using start_work_row [OF leased(2)] unfolding leased(5) by (simp add: add_event_def put_lease_def)
    have app: "approvals db' = approvals ?mid"
      unfolding leased(5) by (simp add: add_event_def put_lease_def start_work_def upd_steps_def upd_runs_def upd_tasks_def)
    have c: "cl_task c = t\<lparr>t_status := T_Running\<rparr>" "cl_step c = s_id s" "cl_lease_expires c = Some (clk e 1 + seconds secs)"
      using leased(6) by (simp_all add: claim_of_def)
    have "prior_done (deps db') (steps db') ?s"
      using engine_invD(5) [OF inv' row] by (simp add: started_def lease_step_def)
    then show ?thesis
      using x ready cap row by (intro bexI [of _ x]) (auto simp: c app lease_step_def intro!: bexI [of _ ?s])
  qed simp
qed

theorem desktop_claim_safe_witness:
  "\<exists>(c :: claim) s. s \<in> set (steps ex_leased) \<and> s_id s = cl_step c \<and> s_lease_owner s = Some (''desktop_'' @ path_text [2, 0])"
proof -
  let ?r = "claim_for_executor (sub_env ex_env 5) (''desktop_'' @ path_text [2, 0]) [] 60 False False ex_decided"
  have "map_option (\<lambda>c. c \<noteq> None) (value_of ?r) = Some True" by code_simp
  then obtain c where "?r = Inr (ex_leased, Some c)"
    using ex_desktop_ok(4) by (auto split: option.splits)
  from desktop_claim_safe [OF ex_desktop_reach(1) this] show ?thesis by (elim bexE conjE) (rule exI [of _ c], intro exI conjI)
qed

text \<open>No double claim. A step whose lease has not expired keeps its row through a hosted claim, and the
  claim does not lease it again.\<close>

theorem unexpired_lease_kept:
  assumes db: "reach engine empty_store db" and s: "s \<in> set (steps db)" "s_status s = S_Running"
    and fresh: "\<not> null_lt (s_lease_expires s) (clk e 0)"
    and claim: "claim_one e worker secs kinds db = (db', c)"
  shows "s \<in> set (steps db') \<and> (\<forall>k. c = Some k \<longrightarrow> cl_lease_owner k \<noteq> None \<longrightarrow> cl_step k \<noteq> s_id s)"
proof -
  let ?mid = "recover_hosted e (clk e 0) db"
  have inv: "engine_inv db" by (rule engine_machine.inv_reach [OF db])
  note mid_inv = recover_hosted_inv [OF inv, of e "clk e 0"]
  have mid: "s \<in> set (steps ?mid)"
    using fresh by (intro recover_hosted_keeps engine_invD(2) [OF inv] s(1)) (simp add: hosted_expired_def)
  from claim show ?thesis
  proof (cases rule: claim_one_cases)
    case none
    then show ?thesis using mid by simp
  next
    case (surfaced t s')
    then show ?thesis
      using mid by (auto simp: surface_approval_def Let_def claim_of_def add_event_def upd_tasks_def)
  next
    case (leased t s')
    have "s' \<in> set (steps ?mid)" "s_status s' = S_Queued"
      using leased(1) ready_conditions [OF leased(2)] by (auto simp: in_joined)
    then have "s_id s' \<noteq> s_id s" using s(2) same_step_row [OF mid_inv mid, of s'] by auto
    then show ?thesis
      using mid unfolding leased(4,5)
      by (auto simp: start_work_def add_event_def claim_of_def row_simps upd_steps_def upd_runs_def upd_tasks_def intro!: bexI [of _ s])
  qed
qed

theorem unexpired_lease_kept_witness:
  "steps ex_claimed ! 0 \<in> set (steps (fst (claim_one (sub_env ex_env 3) ''w2'' 60 [Hosted] ex_claimed)))"
proof -
  have "length (steps ex_claimed) = 2" and st: "s_status (steps ex_claimed ! 0) = S_Running"
    and ok: "\<not> null_lt (s_lease_expires (steps ex_claimed ! 0)) (clk (sub_env ex_env 3) 0)" by code_simp+
  then have "steps ex_claimed ! 0 \<in> set (steps ex_claimed)" by simp
  from unexpired_lease_kept [OF ex_reach(2) this st ok prod.collapse [symmetric]] show ?thesis by blast
qed

section \<open>Creating a task\<close>

text \<open>A graph the request model accepts is always inserted. On a database in which the drawn identifiers are
  new, \<open>create_task\<close> returns the queued task of the account, appends one row per step (the three default steps for an empty
  list) and one dependency row per named parent, pointing at the parent's own row.\<close>

theorem accepted_graph_is_inserted:
  assumes "validate_step_graph req ins = Inr ()" and "fresh e db" and mode: "mode \<in> {''hosted'', ''desktop''}"
  shows "\<exists>db' t. create_task e acct ws title obj req ins mode db = Inr (db', t) \<and> t_account t = acct \<and> t_status t = T_Queued \<and>
    t_requires_approval t = req \<and> t \<in> set (tasks db') \<and>
    length (steps db') = length (steps db) + length (if ins = [] then default_steps else ins) \<and>
    deps db' = deps db @ graph_deps e 0 (if ins = [] then default_steps else ins)"
proof -
  define ins' where "ins' = (if ins = [] then default_steps else ins)"
  define mode' where "mode' = (if \<exists>i \<in> set ins'. i_kind i = Desktop then ''desktop'' else mode)"
  have ok: "graph_ok ins'" using assms(1) graph_ok_default by (simp add: ins'_def validate_step_graph_ok)
  have "mode' = ''hosted'' \<or> mode' = ''desktop''" using mode by (auto simp: mode'_def)
  then obtain db1 where ins: "insert_task e acct ws title obj req ins mode (clk e 0) db = Inr (db1, ''task_'' @ uuid e [0])"
    and rows: "length (steps db1) = length (steps db) + length ins'" "deps db1 = deps db @ graph_deps e 0 ins'"
    and task: "\<exists>t. tasks db1 = tasks db @ [t] \<and> t_id t = ''task_'' @ uuid e [0] \<and> t_account t = acct \<and>
                   t_status t = T_Queued \<and> t_requires_approval t = req"
    using insert_task_deps [OF assms(2) ok]
    by (simp add: insert_task_def Let_def add_event_def flip: ins'_def mode'_def)
  obtain t where t: "tasks db1 = tasks db @ [t]" "t_id t = ''task_'' @ uuid e [0]" "t_account t = acct"
    "t_status t = T_Queued" "t_requires_approval t = req" using task by blast
  have "''task_'' @ uuid e [0] \<notin> t_id ` set (tasks db)" using assms(2) by (simp add: fresh_def)
  then have "filter (\<lambda>r. t_id r = ''task_'' @ uuid e [0] \<and> t_account r = acct) (tasks db) = []"
    by (force simp: filter_empty_conv simp del: append.simps)
  then have "get_task (''task_'' @ uuid e [0]) acct db1 = Inr t" by (simp add: get_task_def t)
  then have "create_task e acct ws title obj req ins mode db = Inr (publish ''task.created'' (Some (''task_'' @ uuid e [0])) db1, t)"
    using ins by (simp add: create_task_def)
  then show ?thesis unfolding ins'_def [symmetric]
    by (intro exI [of _ "publish ''task.created'' (Some (''task_'' @ uuid e [0])) db1"] exI [of _ t]) (simp add: publish_def rows t)
qed

theorem accepted_graph_is_inserted_witness:
  "\<exists>db' t. create_task (sub_env ex_env 1) ''alice'' ''home'' ''Report'' ''Write it'' False ex_steps ''hosted'' empty_store = Inr (db', t) \<and>
     length (steps db') = 2"
proof -
  have ok: "validate_step_graph False ex_steps = Inr ()" by code_simp
  have "length (if ex_steps = [] then default_steps else ex_steps) = 2" by code_simp
  then show ?thesis
    using accepted_graph_is_inserted [OF ok ex_fresh, of "''hosted''" 1 "''alice''" "''home''" "''Report''" "''Write it''"]
    by (auto simp: empty_store_def)
qed

section \<open>Completing and failing\<close>

text \<open>Completing a running step finishes its row, and then settles the task: a requested cancellation wins;
  otherwise the task is completed with the step's result when every other step of the run is complete, and is left
  alone when one is pending.\<close>

theorem complete_step_settles:
  assumes db: "reach engine empty_store db" and s: "s \<in> set (steps db)" "s_status s = S_Running"
    and t: "t \<in> set (tasks db)" "t_id t = s_task s" "t_account t = acct"
    and run: "complete_step e (s_id s) acct result ak an db = Inr db'"
  shows "finish_step s \<in> set (steps db') \<and>
    get_task (t_id t) acct db' = Inr (if t_cancel_requested t then t\<lparr>t_status := T_Cancelled, t_updated_at := clk e 0\<rparr>
      else if \<forall>u \<in> set (steps db). s_run u = s_run s \<longrightarrow> s_id u = s_id s \<or> s_status u = S_Completed
        then t\<lparr>t_status := T_Completed, t_result := Some (take 2000 result), t_updated_at := clk e 0\<rparr> else t)"
proof -
  have inv: "engine_inv db" by (rule engine_machine.inv_reach [OF db])
  obtain x where x: "owned_step (s_id s) acct db = Inr x" using run by (auto simp: complete_step_def)
  then have "x = s" using same_step_row [OF inv s(1)] owned_step_Inr by blast
  with x have row: "owned_step (s_id s) acct db = Inr s" by simp
  define db1 where "db1 = record_artifact e (clk e 0) (s_task s) (s_id s) ak an result
    (add_event (uuid e [0]) (s_task s) ''step.completed'' (JObj [(''result'', JStr (take 2000 result))]) (clk e 0)
      (upd_steps (\<lambda>r. s_id r = s_id s \<and> s_status r = S_Running) finish_step db))"
  have db': "db' = settle_task e (clk e 0) (s_task s) (s_run s) result db1"
    using run row by (simp add: complete_step_def Let_def db1_def)
  have tabs: "tasks db1 = tasks db" "steps db1 = upd (\<lambda>r. s_id r = s_id s \<and> s_status r = S_Running) finish_step (steps db)"
    by (simp_all add: db1_def record_artifact_def Let_def add_event_def upd_steps_def split: option.splits)
  have pend: "pending_steps (s_run s) db1 = 0 \<longleftrightarrow>
      (\<forall>u \<in> set (steps db). s_run u = s_run s \<longrightarrow> s_id u = s_id s \<or> s_status u = S_Completed)"
  proof -
    have "u = s" if "u \<in> set (steps db)" "s_id u = s_id s" for u using same_step_row [OF inv s(1) that] .
    then show ?thesis using s
      by (auto simp: pending_steps_def rowcount_def tabs row_simps filter_empty_conv finish_step_def)
  qed
  have canc: "cancel_wanted (s_task s) db1 = t_cancel_requested t"
    using fetchone_unique [OF engine_invD(1) [OF inv] t(1)] by (simp add: cancel_wanted_def tabs t(2))
  have get: "get_task (s_task s) acct D = Inr (f t)"
    if "tasks D = upd (task_is (s_task s)) f (tasks db)" "\<And>r. t_id (f r) = t_id r \<and> t_account (f r) = t_account r" for f D
  proof -
    have "fetchone (filter (\<lambda>r. t_id r = s_task s \<and> t_account r = acct) (tasks db)) = Some t"
      using get_task_unique [OF engine_invD(1) [OF inv] t(1)] by (simp add: get_task_def t split: option.splits)
    then show ?thesis using that(2) by (simp add: get_task_def that(1) fetchone_upd t(2))
  qed
  have "finish_step s \<in> set (steps db1)" using s by (auto simp: tabs row_simps intro!: bexI [of _ s])
  moreover have "steps db' = steps db1"
    by (simp add: db' settle_task_def Let_def add_event_def upd_runs_def upd_tasks_def)
  ultimately have A: "finish_step s \<in> set (steps db')" by simp
  have "get_task (s_task s) acct db' = Inr (if t_cancel_requested t then t\<lparr>t_status := T_Cancelled, t_updated_at := clk e 0\<rparr>
      else if pending_steps (s_run s) db1 = 0
        then t\<lparr>t_status := T_Completed, t_result := Some (take 2000 result), t_updated_at := clk e 0\<rparr> else t)"
  proof -
    consider "t_cancel_requested t" | "\<not> t_cancel_requested t" "pending_steps (s_run s) db1 = 0"
      | "\<not> t_cancel_requested t" "pending_steps (s_run s) db1 \<noteq> 0" by blast
    then show ?thesis
    proof cases
      case 1
      have "tasks db' = upd (task_is (s_task s)) (\<lambda>t. t\<lparr>t_status := T_Cancelled, t_updated_at := clk e 0\<rparr>) (tasks db)"
        using 1 by (simp add: db' settle_task_def canc Let_def add_event_def upd_runs_def upd_tasks_def tabs)
      then show ?thesis using 1 by (subst get) auto
    next
      case 2
      have "tasks db' = upd (task_is (s_task s)) (\<lambda>t. t\<lparr>t_status := T_Completed, t_result := Some (take 2000 result), t_updated_at := clk e 0\<rparr>) (tasks db)"
        using 2 by (simp add: db' settle_task_def canc Let_def add_event_def upd_runs_def upd_tasks_def tabs)
      then show ?thesis using 2 by (subst get) auto
    next
      case 3
      then have "db' = db1" by (simp add: db' settle_task_def canc)
      then have "tasks db' = upd (task_is (s_task s)) (\<lambda>t. t) (tasks db)" by (simp add: tabs upd_def)
      then show ?thesis using 3 by (subst get) auto
    qed
  qed
  then show ?thesis using A by (simp add: pend t(2))
qed

theorem complete_step_settles_witness:
  "\<exists>db' r. complete_step (sub_env ex_env 5) (s_id (steps ex_second ! 1)) ''alice'' ''sent'' None None ex_second = Inr db' \<and>
     get_task (t_id (tasks ex_second ! 0)) ''alice'' db' = Inr r \<and> t_status r = T_Completed \<and> t_result r = Some ''sent''"
proof -
  let ?s = "steps ex_second ! 1" and ?t = "tasks ex_second ! 0"
  have facts: "length (steps ex_second) = 2" "length (tasks ex_second) = 1" "s_status ?s = S_Running" "t_id ?t = s_task ?s"
    "t_account ?t = ''alice''" "\<not> t_cancel_requested ?t"
    "\<forall>u \<in> set (steps ex_second). s_run u = s_run ?s \<longrightarrow> s_id u = s_id ?s \<or> s_status u = S_Completed" by code_simp+
  then have mem: "?s \<in> set (steps ex_second)" "?t \<in> set (tasks ex_second)" by auto
  have "is_ok (complete_step (sub_env ex_env 5) (s_id ?s) ''alice'' ''sent'' None None ex_second)" by code_simp
  then obtain db' where run: "complete_step (sub_env ex_env 5) (s_id ?s) ''alice'' ''sent'' None None ex_second = Inr db'"
    by (cases "complete_step (sub_env ex_env 5) (s_id ?s) ''alice'' ''sent'' None None ex_second") auto
  from complete_step_settles [OF ex_reach(3) mem(1) facts(3) mem(2) facts(4,5) run] facts(6,7) run
  show ?thesis by auto
qed

text \<open>C10: what failing a step does. Its lease is dropped and its attempts are kept. It goes back to the queue, to be
  retried after the delay, exactly when the failure is retryable and fewer attempts were made than the limit, which is
  at most the step's own maximum; otherwise it fails for good and a dead letter is added for it.\<close>

theorem fail_step_outcome:
  assumes db: "reach engine empty_store db" and s: "s \<in> set (steps db)"
    and run: "fail_step e (s_id s) acct err delay retryable db = Inr (db', out)"
  shows "fst (workspace_retry_limit e (s_payload s) (s_max_attempts s)) \<le> s_max_attempts s \<and>
    (\<exists>r \<in> set (steps db'). s_id r = s_id s \<and> s_lease_owner r = None \<and> s_attempts r = s_attempts s \<and>
      (if retryable \<and> s_attempts s < fst (workspace_retry_limit e (s_payload s) (s_max_attempts s))
       then out = ''retrying'' \<and> s_status r = S_Queued \<and> s_retry_at r = Some (clk e 1 + seconds delay) \<and>
            dead_letters db' = dead_letters db
       else out = ''failed'' \<and> s_status r = S_Failed \<and>
            (\<exists>l. dead_letters db' = dead_letters db @ [l] \<and> l_step l = s_id s \<and> l_account l = acct \<and> l_attempts l = s_attempts s)))"
proof -
  have inv: "engine_inv db" by (rule engine_machine.inv_reach [OF db])
  obtain x where x: "owned_step (s_id s) acct db = Inr x" using run by (auto simp: fail_step_def)
  then have "x = s" using same_step_row [OF inv s] owned_step_Inr by blast
  with x have row: "owned_step (s_id s) acct db = Inr s" by simp
  obtain mx rep where lim: "workspace_retry_limit e (s_payload s) (s_max_attempts s) = (mx, rep)" by fastforce
  then have le: "mx \<le> s_max_attempts s" by (auto simp: workspace_retry_limit_def split: option.splits json.splits)
  let ?q = "(release S_Queued s)\<lparr>s_retry_at := Some (clk e 1 + seconds delay), s_last_error := Some (take 2000 err)\<rparr>"
  let ?f = "(release S_Failed s)\<lparr>s_last_error := Some (take 2000 err)\<rparr>"
  show ?thesis
  proof (cases "retryable \<and> s_attempts s < mx")
    case True
    then have D: "db' = schedule_retry e (clk e 0) s rep err delay db" "out = ''retrying''"
      using run row lim by (simp_all add: fail_step_def)
    have "?q \<in> set (steps db')" using s
      by (auto simp: D schedule_retry_def Let_def add_event_def upd_steps_def upd_tasks_def row_simps intro!: bexI [of _ s])
    moreover have "dead_letters db' = dead_letters db"
      by (simp add: D schedule_retry_def Let_def add_event_def upd_steps_def upd_tasks_def)
    ultimately show ?thesis using True lim le D(2) by (intro conjI bexI [of _ ?q]) auto
  next
    case False
    then have D: "db' = fail_terminally e (clk e 0) s acct mx rep err db" "out = ''failed''"
      using run row lim by (auto simp: fail_step_def Let_def)
    have row': "?f \<in> set (steps db')" using s
      by (auto simp: D fail_terminally_def Let_def add_event_def upd_steps_def upd_tasks_def upd_runs_def row_simps intro!: bexI [of _ s])
    have "\<exists>l. dead_letters db' = dead_letters db @ [l] \<and> l_step l = s_id s \<and> l_account l = acct \<and> l_attempts l = s_attempts s"
      by (simp add: D fail_terminally_def Let_def add_event_def upd_steps_def upd_tasks_def upd_runs_def)
    then show ?thesis using False lim le D(2) row' by (intro conjI bexI [of _ ?f]) auto
  qed
qed

theorem fail_step_outcome_witness:
  "\<exists>db' r. fail_step (sub_env ex_env 3) (s_id (steps ex_claimed ! 0)) ''alice'' ''boom'' 30 True ex_claimed = Inr (db', ''retrying'') \<and>
     r \<in> set (steps db') \<and> s_status r = S_Queued"
proof -
  let ?s = "steps ex_claimed ! 0"
  let ?r = "fail_step (sub_env ex_env 3) (s_id ?s) ''alice'' ''boom'' 30 True ex_claimed"
  have "length (steps ex_claimed) = 2" "is_ok ?r"
    and lim: "s_attempts ?s < fst (workspace_retry_limit (sub_env ex_env 3) (s_payload ?s) (s_max_attempts ?s))" by code_simp+
  then have mem: "?s \<in> set (steps ex_claimed)" by simp
  obtain db' out where run: "?r = Inr (db', out)" using \<open>is_ok ?r\<close> by (cases ?r) auto
  from fail_step_outcome [OF ex_reach(2) mem run] lim run show ?thesis by auto
qed

end
