(* ===== verification/LifecycleProps.thy ===== *)
theory LifecycleProps
  imports Examples PgStore
begin

text \<open>
  The properties of the user's decisions on a task (\<open>src/smara/store.py\<close>: \<open>decide\<close>, \<open>cancel\<close>, \<open>retry_task\<close>,
  \<open>delete_account\<close>), and the agreement of the PostgreSQL claims with the SQLite ones.
\<close>

section \<open>Facts the properties share\<close>

lemma get_task_upd:
  assumes "get_task tid acct db = Inr t" and "tasks D = upd (task_is tid) f (tasks db)"
    and "\<And>r. t_id (f r) = t_id r \<and> t_account (f r) = t_account r"
  shows "get_task tid acct D = Inr (f t)"
proof -
  have "fetchone (filter (\<lambda>r. t_id r = tid \<and> t_account r = acct) (tasks db)) = Some t" "t_id t = tid"
    using assms(1) get_task_Inr [OF assms(1)] by (auto simp: get_task_def split: option.splits)
  then show ?thesis using assms(3) by (simp add: get_task_def assms(2) fetchone_upd)
qed

lemma bex_upd: "(\<exists>r \<in> set (upd P f t). Q r) \<longleftrightarrow> (\<exists>x \<in> set t. Q (if P x then f x else x))"
  by (auto simp: upd_def)

lemma get_task_publish [simp]: "get_task tid acct (publish k x db) = get_task tid acct db"
  by (simp add: get_task_def publish_def)

section \<open>Deciding\<close>

text \<open>C11: an approval is decided once. \<open>decide\<close> succeeds only on a task of the account that awaits approval; the
  verdict is recorded, an approved task is queued and needs no approval any more, a denied one is cancelled with no
  step left in the queue; and any later decision of the task is refused.\<close>

theorem decide_once:
  assumes "decide e tid acct approved note source db = Inr (db', r)"
  shows "(\<exists>t \<in> set (tasks db). t_id t = tid \<and> t_account t = acct \<and> t_requires_approval t \<and> t_status t \<in> {T_Queued, T_Waiting}) \<and>
    t_status r = (if approved then T_Queued else T_Cancelled) \<and> t_requires_approval r = (\<not> approved) \<and>
    (\<exists>a \<in> set (approvals db'). a_task a = tid \<and> a_status a = (if approved then Approved else Denied)) \<and>
    (\<not> approved \<longrightarrow> (\<forall>s \<in> set (steps db'). s_task s = tid \<longrightarrow> s_status s \<noteq> S_Queued)) \<and>
    decide e' tid acct again note' source' db' = Inl (ValueError ''Task is not awaiting approval.'')"
proof -
  let ?f = "\<lambda>r. r\<lparr>t_status := (if approved then T_Queued else T_Cancelled), t_requires_approval := \<not> approved, t_updated_at := clk e 0\<rparr>"
  let ?D = "apply_decision e (clk e 0) tid approved note source db"
  obtain t where t: "get_task tid acct db = Inr t" "t_requires_approval t" "t_status t \<in> {T_Queued, T_Waiting}"
    and get: "get_task tid acct ?D = Inr r" and db': "db' = publish ''approval.resolved'' (Some tid) ?D"
    using assms by (auto simp: decide_def Let_def split: if_splits)
  have "tasks ?D = upd (task_is tid) ?f (tasks db)"
    by (simp add: apply_decision_def Let_def put_approval_def add_event_def upd_tasks_def upd_steps_def upd_runs_def)
  then have r: "r = ?f t" using get_task_upd [OF t(1), of ?D ?f] get by simp
  have app: "\<exists>a \<in> set (approvals ?D). a_task a = tid \<and> a_status a = (if approved then Approved else Denied)"
  proof -
    have "\<exists>a \<in> set (approvals (put_approval tid (if approved then Approved else Denied) note (clk e 0) db)).
        a_task a = tid \<and> a_status a = (if approved then Approved else Denied)"
      by (auto simp: put_approval_def upsert_def bex_upd)
    then show ?thesis by (cases approved) (simp_all add: apply_decision_def Let_def)
  qed
  have quiet: "s_status s \<noteq> S_Queued" if den: "\<not> approved" and mem: "s \<in> set (steps ?D)" and own: "s_task s = tid" for s
  proof -
    have rows: "steps ?D = upd (\<lambda>s. s_task s = tid \<and> s_status s = S_Queued) (\<lambda>s. s\<lparr>s_status := S_Cancelled\<rparr>) (steps db)"
      using den by (simp add: apply_decision_def Let_def put_approval_def)
    obtain x where "s = (if s_task x = tid \<and> s_status x = S_Queued then x\<lparr>s_status := S_Cancelled\<rparr> else x)"
      using mem unfolding rows in_upd by blast
    then show ?thesis using own by (cases "s_task x = tid \<and> s_status x = S_Queued") auto
  qed
  have again: "decide e' tid acct again note' source' db' = Inl (ValueError ''Task is not awaiting approval.'')"
    using get by (cases approved) (simp_all add: decide_def db' r)
  have asked: "\<exists>t \<in> set (tasks db). t_id t = tid \<and> t_account t = acct \<and> t_requires_approval t \<and> t_status t \<in> {T_Queued, T_Waiting}"
    using get_task_Inr [OF t(1)] t(2,3) by blast
  have after: "t_status r = (if approved then T_Queued else T_Cancelled)" "t_requires_approval r = (\<not> approved)" by (simp_all add: r)
  have denied: "\<not> approved \<longrightarrow> (\<forall>s \<in> set (steps db'). s_task s = tid \<longrightarrow> s_status s \<noteq> S_Queued)"
    using quiet by (simp add: db')
  have verdict: "\<exists>a \<in> set (approvals db'). a_task a = tid \<and> a_status a = (if approved then Approved else Denied)"
    using app by (simp add: db' publish_def)
  show ?thesis by (intro conjI asked after denied verdict again)
qed

theorem decide_once_witness:
  "\<exists>r. decide (sub_env ex_env 4) (''task_'' @ path_text [3, 0]) ''alice'' True ''ok'' ''user'' ex_desktop = Inr (ex_decided, r) \<and>
     t_status r = T_Queued \<and>
     decide ex_env (''task_'' @ path_text [3, 0]) ''alice'' False ''no'' ''user'' ex_decided = Inl (ValueError ''Task is not awaiting approval.'')"
proof -
  obtain r where "decide (sub_env ex_env 4) (''task_'' @ path_text [3, 0]) ''alice'' True ''ok'' ''user'' ex_desktop = Inr (ex_decided, r)"
    using ex_desktop_ok(3) by blast
  from this decide_once [OF this] show ?thesis by auto
qed

section \<open>Cancelling\<close>



lemma cancel_wanted_simps [simp]:
  "cancel_wanted tid (upd_steps P g db) = cancel_wanted tid db" "cancel_wanted tid (upd_runs R h db) = cancel_wanted tid db"
  "cancel_wanted tid (add_event u x k p n db) = cancel_wanted tid db"
  by (simp_all add: cancel_wanted_def)



lemma recover_step_rows:
  "s_id ` set (steps (recover_step e now ki db)) = s_id ` set (steps db)"
  by (cases ki) (simp add: recover_step_def Let_def image_upd)




section \<open>Retrying and deleting\<close>

text \<open>Retrying reopens a failed task from its failed and cancelled steps. Only a failed task of the account
  with a failed step can be retried; afterwards every step that had failed or been cancelled is queued with its attempts
  reset, completed steps are kept, no dead letter of the task is open, the old approval is forgotten, and the task
  needs approval again whenever it needed it or has desktop or sandbox work.\<close>

theorem retry_reopens:
  assumes run: "retry_task e tid acct db = Inr (db', r)"
  shows "(\<exists>t \<in> set (tasks db). t_id t = tid \<and> t_account t = acct \<and> t_status t = T_Failed \<and>
      (t_requires_approval t \<or> (\<exists>s \<in> set (steps db). s_task s = tid \<and> s_kind s \<in> {Desktop, Sandbox}) \<longleftrightarrow> t_requires_approval r)) \<and>
    t_status r = (if t_requires_approval r then T_Waiting else T_Queued) \<and> \<not> t_cancel_requested r \<and>
    steps db' = map (\<lambda>s. if s_task s = tid \<and> s_status s \<in> {S_Failed, S_Cancelled} then reopen_step s else s) (steps db) \<and>
    (\<forall>l \<in> set (dead_letters db'). l_task l = tid \<longrightarrow> l_resolved_at l \<noteq> None) \<and> (\<forall>a \<in> set (approvals db'). a_task a \<noteq> tid)"
proof -
  obtain t ss where t: "get_task tid acct db = Inr t" "t_status t = T_Failed" and ss: "task_steps tid acct db = Inr ss"
    using run by (auto simp: retry_task_def split: if_splits)
  define req where "req = (t_requires_approval t \<or> (\<exists>s \<in> set ss. s_kind s \<in> {Desktop, Sandbox}))"
  let ?D = "apply_retry e (clk e 0) tid acct req db"
  have D: "get_task tid acct ?D = Inr r" "db' = publish ''task.retry_requested'' (Some tid) ?D"
    using run t ss by (auto simp: retry_task_def Let_def req_def split: if_splits)
  have "set ss = {s \<in> set (steps db). s_task s = tid}" using ss t by (auto simp: task_steps_def)
  then have req: "req = (t_requires_approval t \<or> (\<exists>s \<in> set (steps db). s_task s = tid \<and> s_kind s \<in> {Desktop, Sandbox}))"
    by (auto simp: req_def)
  have one: "fetchone (filter (\<lambda>r. t_id r = tid \<and> t_account r = acct) (tasks db)) = Some t"
    using t(1) by (auto simp: get_task_def split: option.splits)
  have r: "r = reopen_task (clk e 0) req t"
    using D(1) get_task_Inr [OF t(1)]
    by (simp add: get_task_def apply_retry_tables(1) fetchone_upd one reopen_task_def)
  have app: "approvals ?D = del (\<lambda>a. a_task a = tid) (approvals db)" by (simp add: apply_retry_def Let_def)
  have rows: "steps db' = map (\<lambda>s. if s_task s = tid \<and> s_status s \<in> {S_Failed, S_Cancelled} then reopen_step s else s) (steps db)"
    by (simp add: D(2) apply_retry_tables(2) upd_def)
  have failed: "\<exists>t \<in> set (tasks db). t_id t = tid \<and> t_account t = acct \<and> t_status t = T_Failed \<and>
      (t_requires_approval t \<or> (\<exists>s \<in> set (steps db). s_task s = tid \<and> s_kind s \<in> {Desktop, Sandbox}) \<longleftrightarrow> t_requires_approval r)"
    using get_task_Inr [OF t(1)] t(2) req by (intro bexI [of _ t]) (simp_all add: r reopen_task_def)
  have after: "t_status r = (if t_requires_approval r then T_Waiting else T_Queued)" "\<not> t_cancel_requested r"
    by (simp_all add: r reopen_task_def)
  have closed: "\<forall>l \<in> set (dead_letters db'). l_task l = tid \<longrightarrow> l_resolved_at l \<noteq> None"
    by (auto simp: D(2) row_simps split: if_splits)
  have forgotten: "\<forall>a \<in> set (approvals db'). a_task a \<noteq> tid" by (simp add: D(2) app del_def)
  show ?thesis by (intro conjI failed after rows closed forgotten)
qed

theorem retry_reopens_witness:
  "\<exists>db' r. retry_task (sub_env ex_env 6) (''task_'' @ path_text [1, 0]) ''alice'' ex_failed = Inr (db', r) \<and> t_status r = T_Queued \<and>
     map s_status (steps db') = [S_Queued, S_Queued]"
proof -
  let ?r = "retry_task (sub_env ex_env 6) (''task_'' @ path_text [1, 0]) ''alice'' ex_failed"
  have ok: "is_ok ?r" and req: "map_option t_requires_approval (value_of ?r) = Some False"
    and rows: "map s_status (map (\<lambda>s. if s_task s = ''task_'' @ path_text [1, 0] \<and> s_status s \<in> {S_Failed, S_Cancelled} then reopen_step s else s) (steps ex_failed))
      = [S_Queued, S_Queued]" by code_simp+
  obtain db' r where run: "?r = Inr (db', r)" using ok by (cases ?r) auto
  have "\<not> t_requires_approval r" using req run by simp
  with retry_reopens [OF run] rows run show ?thesis by auto
qed



section \<open>The two stores agree\<close>



end
