(* ===== verification/ServiceProps.thy ===== *)
theory ServiceProps
  imports Examples CliAuth Conversations Integrations Skills
begin

text \<open>
  The properties of the services around the task engine (\<open>src/smara/store.py\<close>): codes that work once,
  schedules, the integration outbox, conversations, the event feed and the skill registry.
\<close>

section \<open>Codes\<close>

text \<open>C16: a code works once. In any sequence of attempts, with any codes at any times, no CLI pairing code, no device
  code and no OAuth state is redeemed twice.\<close>

theorem codes_redeemed_once:
  "distinct (redeemed (redeem_pairing e) pairing_attempts db) \<and> distinct (redeemed (redeem_device e) device_attempts db) \<and>
   distinct (redeemed (redeem_oauth e) oauth_attempts db)"
  by (intro conjI cli_code.redeemed_distinct cli_request.redeemed_distinct oauth_code.redeemed_distinct)

section \<open>Schedules\<close>




lemma schedules_publish_fold [simp]: "schedules (fold (\<lambda>f. publish k (g f)) fs db) = schedules db"
  by (induction fs arbitrary: db) simp_all




section \<open>The integration outbox\<close>

text \<open>The outbox with the set of actions its owner approved so far. Deleting an account or a connection only removes
  actions.\<close>

inductive outbox_step :: "store \<times> string set \<Rightarrow> store \<times> string set \<Rightarrow> bool" where
  requested: "request_action e acct provider act preview key payload db = Inr (db', q) \<Longrightarrow> outbox_step (db, A) (db', A)"
| decided: "decide_action acct aid ok remark pv pl db = Inr (db', q) \<Longrightarrow> outbox_step (db, A) (db', if ok then insert aid A else A)"
| claimed: "claim_action e worker secs db = (db', r) \<Longrightarrow> outbox_step (db, A) (db', A)"
| completed: "complete_action aid worker res err db = Inr db' \<Longrightarrow> outbox_step (db, A) (db', A)"
| failed: "fail_action e aid worker failure retryable delay db = Inr (db', out) \<Longrightarrow> outbox_step (db, A) (db', A)"
| removed: "set (actions db') \<subseteq> set (actions db) \<Longrightarrow> outbox_step (db, A) (db', A)"

definition outbox_inv :: "store \<times> string set \<Rightarrow> bool" where
  "outbox_inv = (\<lambda>(db, A). \<forall>q \<in> set (actions db). q_status q \<in> {A_Approved, A_Running} \<longrightarrow> q_id q \<in> A)"

lemma initial_status_cases: "initial_status policy risk \<in> {A_Blocked, A_Draft, A_Awaiting}"
  by (simp add: initial_status_def)

lemma outbox_upd:
  assumes "outbox_inv (db, A)" and "actions db' = upd P f (actions db)" and "A \<subseteq> B"
    and "\<And>q. q \<in> set (actions db) \<Longrightarrow> P q \<Longrightarrow> q_status (f q) \<in> {A_Approved, A_Running} \<Longrightarrow> q_id (f q) \<in> B"
  shows "outbox_inv (db', B)"
  using assms by (auto simp: outbox_inv_def row_simps)

lemma recover_actions_outbox: "outbox_inv (db, A) \<Longrightarrow> outbox_inv (recover_actions now db, A)"
  by (rule outbox_upd [of db A _ "\<lambda>q. q_status q = A_Running \<and> null_lt (q_lease_expires q) now" "free_action A_Approved"])
     (auto simp: recover_actions_def outbox_inv_def)

lemma claim_action_outbox:
  assumes inv: "outbox_inv (db, A)" and run: "claim_action e worker secs db = (db', r)"
  shows "outbox_inv (db', A)" and "r = Some q \<Longrightarrow> q_id q \<in> A"
proof -
  let ?mid = "recover_actions (clk e 0) db"
  have mid: "outbox_inv (?mid, A)" by (rule recover_actions_outbox [OF inv])
  have chosen: "q_id x \<in> A"
    if "fetchone (sort_key q_created_at (filter (action_ready (clk e 0)) (actions ?mid))) = Some x" for x
    using claimed_in [OF that] mid by (auto simp: action_ready_def outbox_inv_def)
  show "outbox_inv (db', A)"
  proof (cases "fetchone (sort_key q_created_at (filter (action_ready (clk e 0)) (actions ?mid)))")
    case None
    then show ?thesis using run mid by (simp add: claim_action_def Let_def)
  next
    case (Some x)
    then show ?thesis using run chosen
      by (intro outbox_upd [OF mid, of db' "\<lambda>q. q_id q = q_id x" "lease_action worker (clk e 1 + seconds secs)" A])
         (auto simp: claim_action_def Let_def lease_action_def)
  qed
  show "r = Some q \<Longrightarrow> q_id q \<in> A"
    using run chosen by (auto simp: claim_action_def Let_def lease_action_def split: option.splits)
qed

lemma fail_action_outbox:
  assumes inv: "outbox_inv (db, A)" and run: "fail_action e aid worker err retryable delay db = Inr (db', out)"
  shows "outbox_inv (db', A)"
proof -
  obtain row where "fetchone (filter (action_lease aid worker) (actions db)) = Some row"
    using run by (auto simp: fail_action_def split: option.splits)
  then have "aid \<in> A" using inv by (auto simp: outbox_inv_def dest!: fetchone_SomeD)
  moreover obtain f where "actions db' = upd (\<lambda>q. q_id q = aid) f (actions db)" "\<And>q. q_id (f q) = q_id q"
    using run by (auto simp: fail_action_def split: option.splits if_splits)
  ultimately show ?thesis using outbox_upd [OF inv, of db' "\<lambda>q. q_id q = aid" f A] by auto
qed

interpretation outbox: inductive_invariant outbox_step "(empty_store, {})" outbox_inv
proof unfold_locales
  show "outbox_inv (empty_store, {})" by (simp add: outbox_inv_def empty_store_def)
next
  fix s t assume inv: "outbox_inv s" and "outbox_step s t"
  from this(2) show "outbox_inv t"
  proof cases
    case (requested e acct provider act preview key payload db db' q A)
    have "db' = db \<or> (\<exists>r. actions db' = actions db @ [r] \<and> q_status r \<in> {A_Blocked, A_Draft, A_Awaiting})"
      using requested(3)
      by (cases "fetchone (filter (\<lambda>q. q_account q = acct \<and> q_idempotency_key q = key) (actions db))")
         (auto simp: request_action_def Let_def initial_status_cases simp del: insert_iff)
    then show ?thesis using inv requested(1,2) by (auto simp: outbox_inv_def)
  next
    case (decided acct aid ok remark pv pl db db' q A)
    then obtain f where f: "actions db' = upd (\<lambda>q. q_id q = aid) f (actions db)"
      "\<And>q. q_id (f q) = q_id q \<and> q_status (f q) = (if ok then A_Approved else A_Denied)"
      by (auto simp: decide_action_def Let_def split: option.splits if_splits)
    show ?thesis unfolding decided(2)
      by (rule outbox_upd [OF inv [unfolded decided(1)] f(1)]) (auto simp: f(2) split: if_splits)
  next
    case (claimed e worker secs db db' r A)
    then show ?thesis using inv claim_action_outbox(1) by blast
  next
    case (completed aid worker res err db db' A)
    then obtain f where f: "actions db' = upd (\<lambda>q. q_id q = aid) f (actions db)" "\<And>q. q_status (f q) \<in> {A_Completed, A_Failed}"
      by (auto simp: complete_action_def split: option.splits if_splits)
    show ?thesis unfolding completed(2)
    proof (rule outbox_upd [OF inv [unfolded completed(1)] f(1)])
      show "q_id (f q) \<in> A" if "q_status (f q) \<in> {A_Approved, A_Running}" for q using f(2) [of q] that by auto
    qed simp
  next
    case (failed e aid worker failure retryable delay db db' out A)
    then show ?thesis using inv fail_action_outbox by blast
  next
    case (removed db' db A)
    then show ?thesis using inv by (auto simp: outbox_inv_def)
  qed
qed

text \<open>C18: no outside action without its owner's approval. In every state the outbox reaches, whatever is requested,
  decided, leased, recovered, retried or removed, the worker's claim only hands out an action that was approved.\<close>

theorem only_approved_actions_run:
  assumes "reach outbox_step (empty_store, {}) (db, approved)" and "claim_action e worker secs db = (db', Some q)"
  shows "q_id q \<in> approved"
  using claim_action_outbox(2) [OF outbox.inv_reach [OF assms(1)] assms(2)] by simp

definition ex_connected :: store where
  "ex_connected = empty_store\<lparr>connections := [\<lparr>c_id = ''c1'', c_account = ''alice'', c_provider = ''gmail'', c_display_name = ''Mail'',
     c_policy = ''ask'', c_scopes = [], c_health = ''ok'', c_created_at = 0, c_updated_at = 0\<rparr>]\<rparr>"

definition ex_asked :: store where
  "ex_asked = state_of (request_action (sub_env ex_env 1) ''alice'' ''gmail'' ''gmail.send'' ''Hi'' ''k1'' JNull ex_connected)"

definition ex_granted :: store where
  "ex_granted = state_of (decide_action ''alice'' (''iact_'' @ path_text [1, 0]) True ''ok'' None None ex_asked)"

theorem only_approved_actions_run_witness:
  "\<exists>q. snd (claim_action ex_env ''w'' 60 ex_granted) = Some q \<and> q_id q \<in> {''iact_'' @ path_text [1, 0]}"
proof -
  have ok: "is_ok (request_action (sub_env ex_env 1) ''alice'' ''gmail'' ''gmail.send'' ''Hi'' ''k1'' JNull ex_connected)"
    "is_ok (decide_action ''alice'' (''iact_'' @ path_text [1, 0]) True ''ok'' None None ex_asked)" by code_simp+
  obtain q1 where asked: "request_action (sub_env ex_env 1) ''alice'' ''gmail'' ''gmail.send'' ''Hi'' ''k1'' JNull ex_connected = Inr (ex_asked, q1)"
    using ok_split [OF ok(1)] unfolding ex_asked_def ..
  obtain q2 where granted: "decide_action ''alice'' (''iact_'' @ path_text [1, 0]) True ''ok'' None None ex_asked = Inr (ex_granted, q2)"
    using ok_split [OF ok(2)] unfolding ex_granted_def ..
  have "outbox_step (empty_store, {}) (ex_connected, {})" by (rule outbox_step.removed) (simp add: ex_connected_def)
  then have "reach outbox_step (empty_store, {}) (ex_connected, {})" by (rule reach.more [where step = outbox_step, OF reach.start])
  then have "reach outbox_step (empty_store, {}) (ex_asked, {})" by (rule reach.more [where step = outbox_step, OF _ outbox_step.requested [OF asked]])
  from reach.more [where step = outbox_step, OF this outbox_step.decided [OF granted]]
  have reached: "reach outbox_step (empty_store, {}) (ex_granted, {''iact_'' @ path_text [1, 0]})" by (simp only: if_True)
  have "map_option q_id (snd (claim_action ex_env ''w'' 60 ex_granted)) \<noteq> None" by code_simp
  then obtain q where "snd (claim_action ex_env ''w'' 60 ex_granted) = Some q" by auto
  then have "claim_action ex_env ''w'' 60 ex_granted = (fst (claim_action ex_env ''w'' 60 ex_granted), Some q)"
    by (metis prod.collapse)
  from only_approved_actions_run [OF reached this] \<open>snd _ = Some q\<close> show ?thesis by blast
qed

section \<open>Conversations\<close>

definition exchange_step :: "store \<Rightarrow> store \<Rightarrow> bool" where
  "exchange_step db db' \<longleftrightarrow> (\<exists>e cid acct ws um am model. append_exchange e cid acct ws um am model db = Inr db')"

interpretation exchange_log: inductive_invariant exchange_step empty_store conv_inv
proof unfold_locales
  show "conv_inv empty_store" by (simp add: conv_inv_def empty_store_def)
  show "conv_inv s \<Longrightarrow> exchange_step s t \<Longrightarrow> conv_inv t" for s t
    by (auto simp: exchange_step_def intro: append_exchange_inv)
qed

text \<open>A conversation loses no turn. After any exchanges, the stored turns of a conversation carry exactly the
  sequence numbers after the summarised prefix up to its newest turn, in order, at most 32 of them, and all of them belong to its
  account: what was dropped is what the summary covers.\<close>

theorem conversation_keeps_its_tail:
  assumes "reach exchange_step empty_store db" and "c \<in> set (conversations db)"
  shows "map tu_sequence (filter (\<lambda>t. tu_conversation t = cv_id c) (turns db)) = [cv_summarized c + 1 .. cv_next_seq c] \<and>
    cv_next_seq c - cv_summarized c \<le> 32 \<and>
    (\<forall>t \<in> set (turns db). tu_conversation t = cv_id c \<longrightarrow> tu_account t = cv_account c)"
proof -
  have inv: "conv_inv db" by (rule exchange_log.inv_reach [OF assms(1)])
  then have keys: "distinct (map cv_id (conversations db))"
    and row: "cv_next_seq c - cv_summarized c \<le> 32"
      "map tu_sequence (filter (\<lambda>t. tu_conversation t = cv_id c) (turns db)) = [cv_summarized c + 1 .. cv_next_seq c]"
    and owned: "\<forall>t \<in> set (turns db). \<exists>d \<in> set (conversations db). cv_id d = tu_conversation t \<and> cv_account d = tu_account t"
    using assms(2) unfolding conv_inv_def by simp_all
  have "tu_account t = cv_account c" if t: "t \<in> set (turns db)" and cid: "tu_conversation t = cv_id c" for t
  proof -
    obtain d where d: "d \<in> set (conversations db)" "cv_id d = cv_id c" "cv_account d = tu_account t"
      using owned t cid by metis
    then show ?thesis using key_inj [OF keys d(1) assms(2)] by simp
  qed
  then show ?thesis using row by blast
qed

definition ex_talk :: store where
  "ex_talk = projr (append_exchange ex_env ''chat'' ''alice'' ''home'' ''Hi'' ''Hello'' None empty_store)"

theorem conversation_keeps_its_tail_witness:
  "\<exists>c \<in> set (conversations ex_talk). map tu_sequence (filter (\<lambda>t. tu_conversation t = cv_id c) (turns ex_talk)) = [1 .. 2]"
proof -
  have "append_exchange ex_env ''chat'' ''alice'' ''home'' ''Hi'' ''Hello'' None empty_store = Inr ex_talk"
    unfolding ex_talk_def
    by (rule ok_value) (simp add: append_exchange_def Let_def ensure_conversation_def ex_env_def empty_store_def)
  then have r: "reach exchange_step empty_store ex_talk"
    unfolding exchange_step_def by (intro reach.more [OF reach.start] exI)
  have c: "map (\<lambda>c. (cv_summarized c, cv_next_seq c)) (conversations ex_talk) = [(0, 2)]"
    by (simp add: ex_talk_def append_exchange_def Let_def ensure_conversation_def ex_env_def empty_store_def)
  then obtain d where "conversations ex_talk = [d]" "cv_summarized d = 0" "cv_next_seq d = 2" by auto
  with conversation_keeps_its_tail [OF r, of d] show ?thesis by auto
qed

section \<open>The event feed\<close>

lemma sorted_split: "sorted (map f xs) \<Longrightarrow> xs = filter (\<lambda>x. \<not> b < f x) xs @ filter (\<lambda>x. b < f x) xs"
  for f :: "'a \<Rightarrow> 'b :: linorder"
proof (induction xs)
  case (Cons x xs)
  show ?case
  proof (cases "b < f x")
    case True
    then have "\<forall>y \<in> set xs. b < f y" using Cons.prems by force
    then show ?thesis using True by (simp add: filter_empty_conv)
  next
    case False
    then show ?thesis using Cons by simp
  qed
qed simp

text \<open>Polling with a cursor loses nothing. Reading the events of a task after the event a client saw last gives
  exactly the rest of the full feed behind that event: what the feed has before it is not later than it.\<close>

theorem event_cursor_resumes:
  assumes "ev \<in> set (events db)" and "e_task ev = tid" and "e_id ev \<noteq> []" and "get_task tid acct db = Inr t"
    and "\<forall>x \<in> set (events db). e_id x = e_id ev \<and> e_task x = tid \<longrightarrow> x = ev"
  shows "\<exists>seen rest. events_after tid acct None db = Inr (seen @ rest) \<and> events_after tid acct (Some (e_id ev)) db = Inr rest \<and>
    (\<forall>x \<in> set seen. event_key x \<le> event_key ev) \<and> ev \<in> set seen"
proof -
  let ?all = "sort_key event_key (filter (\<lambda>x. e_task x = tid) (events db))"
  let ?seen = "filter (\<lambda>x. \<not> event_key ev < event_key x) ?all" and ?rest = "filter (\<lambda>x. event_key ev < event_key x) ?all"
  have found: "fetchone (filter (\<lambda>x. e_id x = e_id ev \<and> e_task x = tid) (events db)) = Some ev"
  proof -
    have "ev \<in> set (filter (\<lambda>x. e_id x = e_id ev \<and> e_task x = tid) (events db))" using assms(1,2) by simp
    then obtain y ys where "filter (\<lambda>x. e_id x = e_id ev \<and> e_task x = tid) (events db) = y # ys"
      by (cases "filter (\<lambda>x. e_id x = e_id ev \<and> e_task x = tid) (events db)") auto
    then have y: "fetchone (filter (\<lambda>x. e_id x = e_id ev \<and> e_task x = tid) (events db)) = Some y" by simp
    then show ?thesis using fetchone_SomeD [OF y] assms(5) by simp
  qed
  have rest: "?rest = sort_key event_key (filter (\<lambda>x. e_task x = tid \<and> (e_created_at x > e_created_at ev \<or>
      e_created_at x = e_created_at ev \<and> e_id x > e_id ev)) (events db))"
    by (auto simp: filter_sort conj_commute less_prod_def intro!: arg_cong [where f = "sort_key event_key"] filter_cong)
  have "?all = ?seen @ ?rest" by (rule sorted_split) simp
  then have "events_after tid acct None db = Inr (?seen @ ?rest)" using assms(4) by (simp add: events_after_def)
  moreover have "events_after tid acct (Some (e_id ev)) db = Inr ?rest"
    unfolding rest using assms(3,4) found by (simp add: events_after_def)
  moreover have "ev \<in> set ?seen" "\<forall>x \<in> set ?seen. event_key x \<le> event_key ev" using assms(1,2) by auto
  ultimately show ?thesis by blast
qed

theorem event_cursor_resumes_witness:
  "\<exists>rest. events_after (''task_'' @ path_text [1, 0]) ''alice'' (Some (e_id (hd (events ex_second)))) ex_second = Inr rest"
proof -
  let ?ev = "hd (events ex_second)" and ?tid = "''task_'' @ path_text [1, 0]"
  have facts: "events ex_second \<noteq> []" "e_task ?ev = ?tid" "e_id ?ev \<noteq> []" "distinct (map e_id (events ex_second))"
    "is_ok (get_task ?tid ''alice'' ex_second)" by code_simp+
  then obtain t where t: "get_task ?tid ''alice'' ex_second = Inr t" by (cases "get_task ?tid ''alice'' ex_second") auto
  have mem: "?ev \<in> set (events ex_second)" using facts(1) by simp
  have "\<forall>x \<in> set (events ex_second). e_id x = e_id ?ev \<and> e_task x = ?tid \<longrightarrow> x = ?ev"
    using key_inj [OF facts(4)] mem by blast
  from event_cursor_resumes [OF mem facts(2,3) t this] show ?thesis by blast
qed

section \<open>The skill registry\<close>

text \<open>Only reviewed skills run. In every state of the registry, a skill version that \<open>assert_skill_runnable\<close> lets
  through is published, passed a recorded test, was approved by its own account, and the document it is run with
  has the fingerprint of the one that was approved.\<close>

theorem runnable_skill_was_reviewed:
  assumes "reach (skill_step vld dump) empty_store db"
    and "assert_skill_runnable e vld dump acct name version (Some doc) db = Inr s"
  shows "s \<in> set (skills db) \<and> sk_account s = acct \<and> sk_state s = K_Published \<and> sk_tested s \<and> sk_test_run s \<noteq> None \<and>
    sk_approved_by s = Some acct \<and> (\<exists>m. vld doc = Inr m \<and> fingerprint e dump m = sk_fingerprint s)"
proof -
  have inv: "skill_inv db" by (rule skill_registry.inv_reach [OF assms(1)])
  obtain s' where s': "get_skill acct name version db = Inr s'" using assms(2) by (auto simp: assert_skill_runnable_def)
  then have run: "s' = s" "sk_state s = K_Published" "\<exists>m. vld doc = Inr m \<and> fingerprint e dump m = sk_fingerprint s"
    using assms(2) by (auto simp: assert_skill_runnable_def split: if_splits)
  have s: "s \<in> set (skills db)" "sk_account s = acct" using get_skill_Inr [OF s'] run(1) by auto
  then have "skill_ok s" using inv by (simp add: skill_inv_def)
  then show ?thesis using s run by (simp add: skill_ok_def)
qed

definition ex_vld :: "json \<Rightarrow> manifest result" where
  "ex_vld j = Inr \<lparr>m_owner = ''alice'', m_name = ''greet'', m_version = ''1'', m_doc = j\<rparr>"

definition ex_dump :: "json \<Rightarrow> string" where
  "ex_dump j = ''doc''"

definition ex_drafted :: store where
  "ex_drafted = state_of (create_skill ex_env ex_vld ex_dump ''alice'' (JObj []) empty_store)"

definition ex_tested :: store where
  "ex_tested = state_of (record_skill_test ex_env ''alice'' ''greet'' ''1'' True ''run1'' ex_drafted)"

definition ex_published :: store where
  "ex_published = state_of (publish_skill ex_env ''alice'' ''greet'' ''1'' ex_tested)"

theorem runnable_skill_was_reviewed_witness:
  "\<exists>s. assert_skill_runnable ex_env ex_vld ex_dump ''alice'' ''greet'' ''1'' (Some (JObj [])) ex_published = Inr s \<and>
     sk_state s = K_Published \<and> sk_approved_by s = Some ''alice''"
proof -
  have ok: "is_ok (create_skill ex_env ex_vld ex_dump ''alice'' (JObj []) empty_store)"
    "is_ok (record_skill_test ex_env ''alice'' ''greet'' ''1'' True ''run1'' ex_drafted)"
    "is_ok (publish_skill ex_env ''alice'' ''greet'' ''1'' ex_tested)" by code_simp+
  obtain a where s1: "create_skill ex_env ex_vld ex_dump ''alice'' (JObj []) empty_store = Inr (ex_drafted, a)"
    using ok_split [OF ok(1)] unfolding ex_drafted_def ..
  obtain b where s2: "record_skill_test ex_env ''alice'' ''greet'' ''1'' True ''run1'' ex_drafted = Inr (ex_tested, b)"
    using ok_split [OF ok(2)] unfolding ex_tested_def ..
  obtain c where s3: "publish_skill ex_env ''alice'' ''greet'' ''1'' ex_tested = Inr (ex_published, c)"
    using ok_split [OF ok(3)] unfolding ex_published_def ..
  have "reach (skill_step ex_vld ex_dump) empty_store ex_drafted"
    by (intro reach.more [OF reach.start] skill_step.registered [OF s1]) (simp add: empty_store_def)
  then have r: "reach (skill_step ex_vld ex_dump) empty_store ex_published"
    by (intro reach.more [where step = "skill_step ex_vld ex_dump", OF reach.more [where step = "skill_step ex_vld ex_dump", OF _ skill_step.recorded [OF s2]] skill_step.published [OF s3]])
  have "is_ok (assert_skill_runnable ex_env ex_vld ex_dump ''alice'' ''greet'' ''1'' (Some (JObj [])) ex_published)" by code_simp
  then obtain s where ok: "assert_skill_runnable ex_env ex_vld ex_dump ''alice'' ''greet'' ''1'' (Some (JObj [])) ex_published = Inr s"
    by (cases "assert_skill_runnable ex_env ex_vld ex_dump ''alice'' ''greet'' ''1'' (Some (JObj [])) ex_published") auto
  from runnable_skill_was_reviewed [OF r ok] ok show ?thesis by blast
qed

end
