(* ===== verification/DagProps.thy ===== *)
theory DagProps
  imports DagRun
begin

text \<open>The properties of the workflow engine (\<open>src/smara/dag_flow.py\<close>).\<close>

section \<open>Validation\<close>

text \<open>C22: \<open>validate\<close> decides acyclicity. On a workflow without duplicate identifiers it always returns: an order of all
  the nodes in which every node stands behind its dependencies, or the error of a dependency that does not exist, or
  the error of a cycle, which names nodes that do wait for one another.\<close>

theorem validate_orders_or_explains:
  assumes "distinct (ids ns)"
  shows "(\<exists>order. validate ns = Some (Inr order) \<and> distinct order \<and> set order = set (ids ns) \<and> topo ns order) \<or>
    (\<exists>n d. validate ns = Some (Inl (Missing_Dep (nd_id n) d)) \<and> n \<in> set ns \<and> d \<in> set (nd_depends n) \<and> d \<notin> set (ids ns)) \<or>
    (\<exists>c. validate ns = Some (Inl (Cycle c)) \<and> cyclic_set ns c)"
proof (cases "missing_deps ns")
  case Nil
  obtain order where inv: "kahn_inv ns order []"
    and val: "validate ns = Some (if length order \<noteq> length ns then Inl (Cycle (filter (\<lambda>i. pend ns order i > 0) (ids ns))) else Inr order)"
    by (rule validate_order [OF assms Nil])
  show ?thesis
  proof (cases "length order = length ns")
    case True
    have "distinct order" "set order \<subseteq> set (ids ns)" "topo ns order" using inv by (auto simp: kahn_inv_def)
    moreover have "set order = set (ids ns)"
    proof (rule card_subset_eq)
      show "card (set order) = card (set (ids ns))"
        using distinct_card [OF calculation(1)] distinct_card [OF assms] True by (simp add: ids_def)
    qed (use calculation(2) in simp_all)
    ultimately show ?thesis using val True by simp
  next
    case False
    then show ?thesis using val stuck_cyclic [OF assms Nil inv False] by auto
  qed
next
  case (Cons p ps)
  obtain i d where p: "p = (i, d)" by (cases p)
  then have "(i, d) \<in> set (missing_deps ns)" using Cons by simp
  then have "\<exists>n. n \<in> set ns \<and> nd_id n = i \<and> d \<in> set (nd_depends n) \<and> d \<notin> set (ids ns)" by (auto simp: missing_deps_def)
  moreover have "validate ns = Some (Inl (Missing_Dep i d))" by (simp add: validate_def Cons p)
  ultimately show ?thesis by blast
qed

definition ex_node :: "string \<Rightarrow> string list \<Rightarrow> node" where
  "ex_node i ds = \<lparr>nd_id = i, nd_title = i, nd_capability = ''x'', nd_payload = JNull, nd_depends = ds, nd_status = PENDING,
     nd_result = JNull, nd_error = None, nd_duration = 0, nd_retries = 0, nd_max_retries = 0\<rparr>"

theorem validate_orders_or_explains_witness:
  "\<exists>c. validate [ex_node ''a'' [''b''], ex_node ''b'' [''a'']] = Some (Inl (Cycle c)) \<and>
     cyclic_set [ex_node ''a'' [''b''], ex_node ''b'' [''a'']] c"
proof -
  let ?ns = "[ex_node ''a'' [''b''], ex_node ''b'' [''a'']]"
  have "distinct (ids ?ns)" by code_simp
  moreover have "(case validate ?ns of Some (Inl (Cycle c)) \<Rightarrow> True | _ \<Rightarrow> False)" by code_simp
  ultimately show ?thesis using validate_orders_or_explains [of ?ns] by (auto split: option.splits sum.splits dag_error.splits)
qed

section \<open>Running\<close>


definition ex_flow :: workflow where
  "ex_flow = projr (add_node (ex_node ''b'' [''a'']) (projr (add_node (ex_node ''a'' []) (empty_workflow ''w'' ''W''))))"

definition ex_ran :: workflow where
  "ex_ran = fst (the (dag_step (\<lambda>_ _. Inr JNull) (\<lambda>_. 1) 0 ex_flow))"


section \<open>Serialisation\<close>

text \<open>A workflow survives being written and read. The dictionary of a workflow with an identifier and without
  duplicate nodes is read back as the same workflow, with the status, result and counters of every node.\<close>

theorem workflow_roundtrip:
  assumes "wf_id w \<noteq> []" and "distinct (ids (wf_nodes w))"
  shows "workflow_from_dict auto_id (workflow_to_dict w) = Inr w"
  using assms add_nodes_roundtrip [of "w\<lparr>wf_nodes := []\<rparr>" "wf_nodes w"]
  by (cases w) (simp add: workflow_from_dict_def workflow_to_dict_def field_opt_def field_title_def field_paused_def)

theorem workflow_roundtrip_witness: "workflow_from_dict [] (workflow_to_dict ex_ran) = Inr ex_ran"
  by (rule workflow_roundtrip) code_simp+

end
