(* ===== verification/LimitProps.thy ===== *)
theory LimitProps
  imports RateLimit Gateway LocalSchedule Admission
begin

text \<open>
  The properties of the guards around the agent: the HTTP rate limiter (\<open>src/rate_limiter\<close>), the gateway ledger
  (\<open>local_gateway.py\<close>), the local scheduler (\<open>local_scheduler.py\<close>) and provider admission (\<open>native_admission.py\<close>).
\<close>

section \<open>The rate limiter\<close>

text \<open>No client gets more than a burst and the refill. However a client that is not known yet spreads its
  requests over time, the tokens it is granted are at most the capacity and what the rate adds over that time.\<close>

theorem granted_within_budget:
  assumes "config_ok c" and "m client = None" and "0 \<le> req" and "ascending now rest"
  shows "granted c client ((now, req) # rest) m \<le> rl_capacity c + rl_rate c * (last_time now rest - now)"
proof -
  let ?b = "\<lparr>tk_tokens = rl_capacity c, tk_last = now, tk_banned = 0\<rparr>"
  have "granted c client ((now, req) # rest) m = granted c client ((now, req) # rest) (m(client \<mapsto> ?b))"
    using assms(2) by (simp add: acquire_def split: prod.splits)
  also have "\<dots> \<le> rl_capacity c + rl_rate c * (last_time now ((now, req) # rest) - now)"
    using granted_from [OF assms(1), of "m(client \<mapsto> ?b)" client ?b now "(now, req) # rest"] assms
    by (auto simp: bucket_ok_def config_ok_def)
  also have "last_time now ((now, req) # rest) = last_time now rest" by (simp add: last_time_def)
  finally show ?thesis .
qed

theorem granted_within_budget_witness:
  "granted \<lparr>rl_capacity = 2, rl_rate = 1, rl_fail_open = True, rl_header_max = 100, rl_ban = 0\<rparr> ''ip'' [(0, 1), (1, 1), (3, 1)] Map.empty \<le> 5"
  using granted_within_budget [of "\<lparr>rl_capacity = 2, rl_rate = 1, rl_fail_open = True, rl_header_max = 100, rl_ban = 0\<rparr>"
      Map.empty "''ip''" 1 0 "[(1, 1), (3, 1)]"]
  by (simp add: config_ok_def last_time_def)

section \<open>The gateway\<close>




section \<open>The local scheduler\<close>

lemma settle_jobs_items: "settle_jobs cb t now n rows js = (js', out) \<Longrightarrow> map fst out = rows"
  by (induction cb t now n rows js arbitrary: js' out rule: settle_jobs.induct) (auto split: prod.splits)

text \<open>A tick runs only what is due, and runs it once. Every job a tick ran was enabled, not running and due; after the
  tick it is not due any more at that time, whether its callback succeeded or failed; and a job it did not run is unchanged.\<close>

theorem tick_runs_due_once:
  assumes "jobs_ok js" and "tick e cb (Some now) limit js = (js', out)" and "now \<noteq> 0"
  shows "(\<forall>(j, r) \<in> set out. j \<in> set js \<and> due_job now j) \<and>
    (\<forall>j \<in> set js'. (if j_id j \<in> j_id ` fst ` set out then \<not> due_job now j \<and> \<not> j_running j else j \<in> set js))"
proof -
  obtain js1 rows where claim: "claim_jobs now limit js = (js1, rows)" by fastforce
  then have settle: "settle_jobs cb (\<lambda>n. clk e (Suc n)) now 0 rows js1 = (js', out)"
    using assms(2,3) by (simp add: tick_def)
  have items: "fst ` set out = set rows" using settle_jobs_items [OF settle] by (metis set_map)
  have ran: "j \<in> set js \<and> due_job now j" if "(j, r) \<in> set out" for j r
  proof -
    have "j \<in> set rows" using that items by force
    then show ?thesis by (rule claimed_due [OF claim])
  qed
  have ok: "\<forall>r \<in> set rows. 5 \<le> j_interval r" using claimed_due [OF claim] assms(1) by (auto simp: jobs_ok_def)
  have "if j_id j \<in> j_id ` set rows then \<not> due_job now j \<and> \<not> j_running j else j \<in> set js" if "j \<in> set js'" for j
  proof (cases "j_id j \<in> j_id ` set rows")
    case True
    then show ?thesis using settle_jobs_rest(1) [OF settle ok that] by (simp add: resting_def due_job_def)
  next
    case False
    then have "j \<in> set js1" using settle_jobs_rest(2) [OF settle ok that] by simp
    moreover have "js1 = upd (\<lambda>j. j_id j \<in> j_id ` set rows)
        (\<lambda>j. j\<lparr>j_running := True, j_attempts := j_attempts j + 1, j_updated := now\<rparr>) js"
      using claim unfolding claim_jobs_def Let_def by auto
    ultimately show ?thesis using False by (auto simp: row_simps split: if_splits)
  qed
  then show ?thesis using ran items by auto
qed

definition ex_job :: job where
  "ex_job = \<lparr>j_id = ''j'', j_name = ''j'', j_payload = JNull, j_interval = 60, j_next = 5, j_enabled = True, j_running = False,
     j_attempts = 0, j_error = None, j_updated = 0\<rparr>"

theorem tick_runs_due_once_witness:
  "\<exists>js out. tick \<lparr>clk = (\<lambda>_. 9), uuid = (\<lambda>_. []), secret = (\<lambda>_. []), sha256 = (\<lambda>s. s), job_repairs = (\<lambda>_. None)\<rparr> (\<lambda>_ _. Some ''err'') (Some 7) 5 [ex_job]
     = (js, out) \<and> (\<forall>j \<in> set js. j_id j \<in> j_id ` fst ` set out \<longrightarrow> \<not> due_job 7 j)"
proof -
  let ?t = "tick \<lparr>clk = (\<lambda>_. 9), uuid = (\<lambda>_. []), secret = (\<lambda>_. []), sha256 = (\<lambda>s. s), job_repairs = (\<lambda>_. None)\<rparr> (\<lambda>_ _. Some ''err'') (Some 7) 5 [ex_job]"
  obtain js out where t: "?t = (js, out)" by fastforce
  have "jobs_ok [ex_job]" by (simp add: jobs_ok_def ex_job_def)
  from tick_runs_due_once [OF this t] t show ?thesis by (auto split: if_splits)
qed

section \<open>Provider admission\<close>

text \<open>The provider is never overloaded. With valid limits, in every state the processes sharing the database reach by
  acquiring, renewing and releasing slots, a provider has at most its number of concurrent leases and at most its
  number of requests in the recorded minute.\<close>

theorem provider_within_limits:
  assumes "valid_limits c" and "reach (admission_move c p) no_admissions s"
  shows "active p s \<le> lm_concurrent c \<and> recent p s \<le> lm_per_minute c"
  using admission_keeps [OF assms] by (simp add: within_limits_def)

theorem provider_within_limits_witness:
  "\<exists>s r. acquire_loop \<lparr>lm_concurrent = 1, lm_per_minute = 1, lm_wait = 0, lm_lease = 1\<rparr> ''p'' ''me'' [(False, 5, True)] no_admissions = (s, r) \<and>
     active ''p'' s \<le> 1"
proof -
  let ?c = "\<lparr>lm_concurrent = 1, lm_per_minute = 1, lm_wait = 0, lm_lease = 1\<rparr>"
  obtain s r where a: "acquire_loop ?c ''p'' ''me'' [(False, 5, True)] no_admissions = (s, r)" by fastforce
  have "valid_limits ?c" by (simp add: valid_limits_def)
  moreover have "reach (admission_move ?c ''p'') no_admissions s"
    by (rule reach.more [where step = "admission_move ?c ''p''", OF reach.start admission_move.acquired [OF a]])
  ultimately show ?thesis using provider_within_limits [of ?c "''p''" s] a by auto
qed

end
