(* ===== verification/AgentProps.thy ===== *)
theory AgentProps
  imports ProtocolRun Workspace
begin

text \<open>
  The properties of the local agent's ledger (\<open>runtime_session.py\<close>), of its session protocol
  (\<open>session_protocol.py\<close>) and of the workspace job contract (\<open>workspace_contract.py\<close>).
\<close>

section \<open>The session ledger\<close>

text \<open>A page of progress has no gap. In every state the ledger and the protocol reach, a page of a session's events
  read after a cursor carries consecutive sequence numbers: it starts right behind the cursor, or behind the last
  event that retention has dropped, and it is short only at the end of the log.\<close>

theorem page_has_no_gap:
  assumes "reach (proto_step rt) empty_sdb db" and "s \<in> set (sessions db)"
    and "1 \<le> limit" and "limit \<le> rt_cap rt" and "0 \<le> after"
  shows "let first = max after (max 0 (ss_revision s - rt_cap rt)) in
    map se_sequence (session_events (rt_cap rt) (ss_id s) after limit db) =
      map (\<lambda>i. first + 1 + int i) [0..<min (nat limit) (nat (ss_revision s - first))]"
proof -
  have "session_inv (rt_cap rt) db"
    using proto_machine.inv_reach [OF assms(1)] assms(3,4) by (simp add: machine_inv_def)
  from page_consecutive [OF this assms(2-5)] show ?thesis by (simp add: Let_def)
qed

definition ex_rt :: runtime where
  "ex_rt = \<lparr>rt_show = (\<lambda>_. ''json''), rt_encode = (\<lambda>_. ''json''), rt_exc = (\<lambda>_. ''error''), rt_cap = 4, rt_alive = (\<lambda>_. True)\<rparr>"

definition ex_at :: "time \<Rightarrow> env" where
  "ex_at t = \<lparr>clk = (\<lambda>n. t + int n), uuid = (\<lambda>p. concat (map (\<lambda>n. if n = 0 then ''a'' else ''b'') p)), secret = (\<lambda>_. []),
              sha256 = (\<lambda>s. s), job_repairs = (\<lambda>_. None)\<rparr>"

definition ex_session :: sdb where
  "ex_session = fst (create_or_get (rt_show ex_rt) (ex_at 1) (Some ''s1'')
     \<lparr>en_request = ''do it'', en_workspace = [], en_account = [], en_mode = [], en_model = None, en_tools = None, en_research = None\<rparr> empty_sdb)"

definition ex_progress :: sdb where
  "ex_progress = fst (projr (append_session_event (rt_cap ex_rt) 2 ''s1'' ''step'' JNull ex_session))"

lemma ex_session_reach: "reach (proto_step ex_rt) empty_sdb ex_session"
  unfolding ex_session_def by (rule reach.more [where step = "proto_step ex_rt", OF reach.start ps_create [OF prod.collapse [symmetric]]])

lemma ex_progress_reach: "reach (proto_step ex_rt) empty_sdb ex_progress"
proof -
  have "\<not> isl (append_session_event (rt_cap ex_rt) 2 ''s1'' ''step'' JNull ex_session)" by code_simp
  then have "append_session_event (rt_cap ex_rt) 2 ''s1'' ''step'' JNull ex_session
      = Inr (ex_progress, snd (projr (append_session_event (rt_cap ex_rt) 2 ''s1'' ''step'' JNull ex_session)))"
    by (simp add: ex_progress_def)
  from reach.more [where step = "proto_step ex_rt", OF ex_session_reach ps_event [OF this]] show ?thesis .
qed

theorem page_has_no_gap_witness: "map se_sequence (session_events 4 ''s1'' 0 3 ex_progress) = [1]"
proof -
  have s: "length (sessions ex_progress) = 1" "ss_id (sessions ex_progress ! 0) = ''s1''" "ss_revision (sessions ex_progress ! 0) = 1"
    by code_simp+
  then have "sessions ex_progress ! 0 \<in> set (sessions ex_progress)" by simp
  from page_has_no_gap [OF ex_progress_reach this, of 3 0] show ?thesis by (simp add: s ex_rt_def Let_def)
qed

text \<open>What a running agent writes to its session: everything but the start of a new turn.\<close>

inductive agent_write :: "runtime \<Rightarrow> sdb \<Rightarrow> sdb \<Rightarrow> bool" for rt where
  w_create: "create_or_get (rt_show rt) e sid en db = (db', r) \<Longrightarrow> agent_write rt db db'"
| w_event: "append_session_event (rt_cap rt) now sid k p db = Inr (db', n) \<Longrightarrow> agent_write rt db db'"
| w_checkpoint: "checkpoint (rt_show rt) (rt_cap rt) now sid pc db = (db', r) \<Longrightarrow> agent_write rt db db'"
| w_cancel: "request_cancel (rt_show rt) (rt_cap rt) now sid reason db = (db', r) \<Longrightarrow> agent_write rt db db'"
| w_resume: "resume_session (rt_show rt) (rt_cap rt) now sid db = (db', r) \<Longrightarrow> agent_write rt db db'"
| w_protocol: "sessions db' = sessions db \<Longrightarrow> agent_write rt db db'"

lemma agent_write_cancelled: "agent_write rt db db' \<Longrightarrow> cancelled_in sid db \<Longrightarrow> cancelled_in sid db'"
  by (cases rule: agent_write.cases)
     (auto intro: create_cancelled append_cancelled checkpoint_cancelled cancel_cancelled resume_cancelled cancelled_same)

lemma agent_writes_cancelled: "reach (agent_write rt) db db' \<Longrightarrow> cancelled_in sid db \<Longrightarrow> cancelled_in sid db'"
  by (induction rule: reach.induct) (auto intro: agent_write_cancelled)

lemma request_cancel_cancels:
  assumes "session_at sid db = Some s" and "\<not> terminal_status (ss_status s)"
    and "request_cancel show cap now sid reason db = (db', Inr x)"
  shows "cancelled_in sid db'"
proof -
  let ?reason = "take 500 (or_text reason ''cancelled by user'')"
  let ?f = "\<lambda>r. r\<lparr>ss_status := Cancelled, ss_cancel := True, ss_reason := Some ?reason, ss_unresolved := [?reason],
                   ss_revision := ss_revision s + 1, ss_updated := now\<rparr>"
  have live: "ss_status s \<noteq> Cancelled" using assms(2) by (auto simp: terminal_status_def)
  have "cancel_rows cap now sid ?reason s db = Inr db'"
    using assms(1,3) by (auto simp: request_cancel_def commit_def split: sum.splits)
  then have "log_event cap sid (ss_revision s + 1) ''turn.cancel_requested'' (JObj [(''reason'', JStr ?reason)]) now
      (db\<lparr>sessions := upd (\<lambda>s. ss_id s = sid) ?f (sessions db)\<rparr>) = Inr db'"
    using assms(2) live by (simp add: cancel_rows_def Let_def)
  from log_event_sessions [OF this] have "sessions db' = upd (\<lambda>s. ss_id s = sid) ?f (sessions db)" by simp
  from session_at_upd [OF _ this, of sid] assms(1) session_atD [OF assms(1)] show ?thesis by (auto simp: cancelled_in_def)
qed

text \<open>C30: cancellation wins. Once a cancellation of a session that is not finished has been recorded, whatever the running
  agent still writes (checkpoints with any status, events, resumptions, further cancellations, protocol rows), the session
  stays cancelled and its flag stays set, until a new turn is started.\<close>

theorem cancellation_wins:
  assumes "session_at sid db = Some s" and "ss_status s \<in> {Created, Running, Waiting}"
    and "request_cancel (rt_show rt) (rt_cap rt) now sid reason db = (db1, Inr x)" and "reach (agent_write rt) db1 db2"
  shows "\<exists>s'. session_at sid db2 = Some s' \<and> ss_status s' = Cancelled \<and> ss_cancel s'"
proof -
  have "cancelled_in sid db1" using assms(2) by (intro request_cancel_cancels [OF assms(1) _ assms(3)]) (auto simp: terminal_status_def)
  then show ?thesis using agent_writes_cancelled [OF assms(4)] by (auto simp: cancelled_in_def)
qed

theorem cancellation_wins_witness:
  "\<exists>db1 x. request_cancel (rt_show ex_rt) (rt_cap ex_rt) 5 ''s1'' [] ex_session = (db1, Inr x) \<and>
     (\<exists>s. session_at ''s1'' (fst (checkpoint (rt_show ex_rt) (rt_cap ex_rt) 6 ''s1'' (no_patch\<lparr>pc_status := Some ''running''\<rparr>) db1)) = Some s
        \<and> ss_status s = Cancelled)"
proof -
  let ?r = "request_cancel (rt_show ex_rt) (rt_cap ex_rt) 5 ''s1'' [] ex_session"
  have ok: "\<not> isl (snd ?r)" and st: "map_option ss_status (session_at ''s1'' ex_session) = Some Created"
    by code_simp+
  obtain s where s: "session_at ''s1'' ex_session = Some s" "ss_status s \<in> {Created, Running, Waiting}" using st by auto
  obtain db1 y where r: "?r = (db1, y)" by fastforce
  then obtain x where r: "?r = (db1, Inr x)" using ok by (cases y) auto
  let ?c = "checkpoint (rt_show ex_rt) (rt_cap ex_rt) 6 ''s1'' (no_patch\<lparr>pc_status := Some ''running''\<rparr>) db1"
  have "reach (agent_write ex_rt) db1 (fst ?c)"
    by (rule reach.more [where step = "agent_write ex_rt", OF reach.start w_checkpoint [OF prod.collapse [symmetric]]])
  from cancellation_wins [OF s r this] obtain s' where s': "session_at ''s1'' (fst ?c) = Some s'" "ss_status s' = Cancelled"
    by (elim exE conjE)
  show ?thesis by (rule exI [of _ db1], rule exI [of _ x], intro conjI exI [of _ s'] r s')
qed

section \<open>The session protocol\<close>

text \<open>C31: the protocol's invariant. In every state the protocol reaches, a thread has at most one active turn, a running
  item and a pending approval belong to an active turn, and the journal is numbered 1, 2, 3 and so on without a gap.\<close>

theorem protocol_state_is_consistent:
  assumes "reach (proto_step rt) empty_sdb db"
  shows "(\<forall>t \<in> set (pturns db). \<forall>u \<in> set (pturns db). pt_thread t = pt_thread u \<and> pt_status t \<in> {Running, Waiting} \<and>
       pt_status u \<in> {Running, Waiting} \<longrightarrow> pt_id t = pt_id u) \<and>
    (\<forall>i \<in> set (pitems db). pi_status i = I_Running \<longrightarrow> (\<exists>t \<in> set (pturns db). pt_id t = pi_turn i \<and> pt_status t \<in> {Running, Waiting})) \<and>
    (\<forall>a \<in> set (papprovals db). pa_decision a = D_Pending \<longrightarrow>
       (\<exists>t \<in> set (pturns db). pt_id t = pa_turn a \<and> pt_status t \<in> {Running, Waiting})) \<and>
    map pe_sequence (pevents db) = map int [1..<Suc (length (pevents db))]"
proof -
  have inv: "proto_inv db" using proto_machine.inv_reach [OF assms] by (simp add: machine_inv_def)
  note rows = proto_invD(1) [OF inv]
  have "\<forall>t \<in> set (pturns db). \<forall>u \<in> set (pturns db). pt_thread t = pt_thread u \<and> pt_status t \<in> {Running, Waiting} \<and>
       pt_status u \<in> {Running, Waiting} \<longrightarrow> pt_id t = pt_id u"
    using rows_okD(4) [OF rows] unfolding active_status_def by blast
  moreover have "\<forall>i \<in> set (pitems db). pi_status i = I_Running \<longrightarrow>
      (\<exists>t \<in> set (pturns db). pt_id t = pi_turn i \<and> pt_status t \<in> {Running, Waiting})"
    using rows_okD(5) [OF rows] unfolding active_status_def by blast
  moreover have "\<forall>a \<in> set (papprovals db). pa_decision a = D_Pending \<longrightarrow>
      (\<exists>t \<in> set (pturns db). pt_id t = pa_turn a \<and> pt_status t \<in> {Running, Waiting})"
    using rows_okD(6) [OF rows] unfolding active_status_def by blast
  moreover have "map pe_sequence (pevents db) = map int [1..<Suc (length (pevents db))]"
    using proto_invD(2) [OF inv] by (simp only: journal_ok_def)
  ultimately show ?thesis by (intro conjI)
qed

definition ex_handle :: handle where
  "ex_handle = \<lparr>th_thread = ''s1'', th_turn = ''turn_a'', th_ask = True, th_message = None\<rparr>"

definition ex_open :: sdb where
  "ex_open = fst (projr (open_turn (ex_at 10) (rt_alive ex_rt) 7 ''s1'' ''do it'' ''ask'' ex_session))"

definition ex_item :: sdb where
  "ex_item = fst (projr (start_item (ex_at 20) ex_handle ''tool_execution'' [] ex_open))"

definition ex_pending :: sdb where
  "ex_pending = fst (projr (ask_approval ex_rt (ex_at 30) ex_handle ''item_a'' ''file_write'' [] ex_item))"

definition ex_denied :: sdb where
  "ex_denied = fst (projr (respond ex_rt 40 ''s1'' ''approval_a'' ''turn_a'' (action_digest ex_rt (ex_at 30) ''file_write'' []) ''deny'' ex_pending))"

lemma right_value: "\<not> isl r \<Longrightarrow> r = Inr (fst (projr r), snd (projr r))"
  by (cases r) auto

lemma ex_open_reach: "reach (proto_step ex_rt) empty_sdb ex_open" "reach (proto_step ex_rt) empty_sdb ex_denied"
proof -
  have ok: "\<not> isl (open_turn (ex_at 10) (rt_alive ex_rt) 7 ''s1'' ''do it'' ''ask'' ex_session)"
    "\<not> isl (start_item (ex_at 20) ex_handle ''tool_execution'' [] ex_open)"
    "\<not> isl (ask_approval ex_rt (ex_at 30) ex_handle ''item_a'' ''file_write'' [] ex_item)"
    "\<not> isl (respond ex_rt 40 ''s1'' ''approval_a'' ''turn_a'' (action_digest ex_rt (ex_at 30) ''file_write'' []) ''deny'' ex_pending)"
    by code_simp+
  have new: "''turn_'' @ uuid (ex_at 10) [0] \<notin> pt_id ` set (pturns ex_session)"
    "''item_'' @ uuid (ex_at 20) [0] \<notin> pi_id ` set (pitems ex_open)"
    "''approval_'' @ uuid (ex_at 30) [0] \<notin> pa_id ` set (papprovals ex_item)" by code_simp+
  show op: "reach (proto_step ex_rt) empty_sdb ex_open"
    using right_value [OF ok(1), folded ex_open_def] new(1)
    by (intro reach.more [where step = "proto_step ex_rt", OF ex_session_reach] ps_open)
  have item: "reach (proto_step ex_rt) empty_sdb ex_item"
    using right_value [OF ok(2), folded ex_item_def] new(2)
    by (intro reach.more [where step = "proto_step ex_rt", OF op] ps_item)
  have pend: "reach (proto_step ex_rt) empty_sdb ex_pending"
    using right_value [OF ok(3), folded ex_pending_def] new(3)
    by (intro reach.more [where step = "proto_step ex_rt", OF item] ps_ask)
  show "reach (proto_step ex_rt) empty_sdb ex_denied"
    using right_value [OF ok(4), folded ex_denied_def]
    by (intro reach.more [where step = "proto_step ex_rt", OF pend] ps_respond)
qed

theorem protocol_state_is_consistent_witness: "map pe_sequence (pevents ex_denied) = [1, 2, 3, 4]"
proof -
  have "length (pevents ex_denied) = 4" by code_simp
  then show ?thesis using protocol_state_is_consistent [OF ex_open_reach(2)] by (simp add: upt_rec)
qed

text \<open>A decision is final. Once an approval has been allowed, denied or has expired, no later operation of the protocol,
  no second answer, no expiry and no end of the turn changes it.\<close>

theorem decision_is_final:
  assumes "reach (proto_step rt) empty_sdb db" and "a \<in> set (papprovals db)" and "pa_decision a \<noteq> D_Pending"
    and "reach (proto_step rt) db db'"
  shows "(\<exists>b \<in> set (papprovals db'). pa_id b = pa_id a) \<and>
    (\<forall>b \<in> set (papprovals db'). pa_id b = pa_id a \<longrightarrow> pa_decision b = pa_decision a)"
proof -
  have "proto_inv db" using proto_machine.inv_reach [OF assms(1)] by (simp add: machine_inv_def)
  then have "distinct (map pa_id (papprovals db))" by (rule rows_okD(3) [OF proto_invD(1)])
  then have "settled_as (pa_id a) (pa_decision a) db" using assms(2,3) key_inj unfolding settled_as_def by metis
  from settled_reach [OF assms(4) this] show ?thesis by (auto simp: settled_as_def)
qed

theorem decision_is_final_witness:
  "\<exists>b. b \<in> set (papprovals (fst (interrupt ex_rt (ex_at 50) ''s1'' ex_denied))) \<and> pa_id b = ''approval_a'' \<and> pa_decision b = D_Deny"
proof -
  have a: "length (papprovals ex_denied) = 1" "pa_id (papprovals ex_denied ! 0) = ''approval_a''"
    "pa_decision (papprovals ex_denied ! 0) = D_Deny" by code_simp+
  then have mem: "papprovals ex_denied ! 0 \<in> set (papprovals ex_denied)" by simp
  have "reach (proto_step ex_rt) ex_denied (fst (interrupt ex_rt (ex_at 50) ''s1'' ex_denied))"
    by (rule reach.more [where step = "proto_step ex_rt", OF reach.start ps_interrupt [OF prod.collapse [symmetric]]])
  from decision_is_final [OF ex_open_reach(2) mem _ this] show ?thesis by (auto simp: a)
qed

text \<open>C33: a tool that writes needs an allow. In a turn that asks for approval, a tool which is not in the list of reading
  tools is not called unless its approval row was set to allow: when neither the handler answers allow nor any other
  process sets that row to allow, the call never happens, whatever the deadline and the timing of the polls.\<close>

theorem write_tool_needs_allow:
  assumes "th_ask h" and "name \<notin> set read_tools" and "unallowed (''approval_'' @ uuid e [1, 0]) db"
    and "never_allows (''approval_'' @ uuid e [1, 0]) obs" and "\<And>f p. handler = Some f \<Longrightarrow> f p \<noteq> ''allow''"
    and "execute rt e handler obs h name arguments tool db = (db', r, called)"
  shows "\<not> called"
  by (rule execute_refused [where aid = "''approval_'' @ uuid e [1, 0]"]) (rule refl | fact assms)+

theorem write_tool_needs_allow_witness:
  "\<exists>db r. execute ex_rt (ex_at 20) None
     [\<lparr>ob_before = (\<lambda>d. d), ob_between = (\<lambda>d. d), ob_after = (\<lambda>d. d), ob_late = True, ob_now = 400\<rparr>]
     ex_handle ''file_write'' [] (\<lambda>d. (d, Inr JNull)) ex_open = (db, r, False)"
proof -
  let ?obs = "[\<lparr>ob_before = (\<lambda>d. d), ob_between = (\<lambda>d. d), ob_after = (\<lambda>d. d), ob_late = True, ob_now = 400\<rparr>]"
  obtain db r called where run: "execute ex_rt (ex_at 20) None ?obs ex_handle ''file_write'' [] (\<lambda>d. (d, Inr JNull)) ex_open = (db, r, called)"
    by (metis prod_cases3)
  have "papprovals ex_open = []" by code_simp
  then have un: "unallowed (''approval_'' @ uuid (ex_at 20) [1, 0]) ex_open" by (simp add: unallowed_def)
  have obs: "never_allows (''approval_'' @ uuid (ex_at 20) [1, 0]) ?obs" by (simp add: never_allows_def)
  have h: "th_ask ex_handle" "''file_write'' \<notin> set read_tools" by code_simp+
  have "\<not> called" by (rule write_tool_needs_allow [OF h un obs _ run]) simp
  then have "called = False" by simp
  with run show ?thesis by (intro exI) simp
qed

text \<open>Replay is complete. A client that reads a page of a thread's journal after its cursor and goes on from the page's
  cursor sees every event once and in order: the page and what is behind its cursor are exactly what was behind the old
  one, and the page says that there is more exactly when there is.\<close>

theorem replay_is_complete:
  assumes "reach (proto_step rt) empty_sdb db" and "snapshot rt thread after limit db = Inr p"
  shows "pg_events p @ events_past thread (pg_cursor p) db = events_past thread (max 0 after) db \<and>
    (pg_more p \<longleftrightarrow> events_past thread (pg_cursor p) db \<noteq> [])"
proof -
  have "journal_ok db" using proto_machine.inv_reach [OF assms(1)] proto_invD(2) by (auto simp: machine_inv_def)
  from page_rest [OF this assms(2)] show ?thesis .
qed

theorem replay_is_complete_witness:
  "\<exists>p. snapshot ex_rt ''s1'' 1 2 ex_denied = Inr p \<and> pg_events p @ events_past ''s1'' (pg_cursor p) ex_denied = events_past ''s1'' 1 ex_denied"
proof -
  have "\<not> isl (snapshot ex_rt ''s1'' 1 2 ex_denied)" by code_simp
  then obtain p where p: "snapshot ex_rt ''s1'' 1 2 ex_denied = Inr p" by (cases "snapshot ex_rt ''s1'' 1 2 ex_denied") auto
  from replay_is_complete [OF ex_open_reach(2) p] p show ?thesis by simp
qed


section \<open>The workspace contract\<close>

text \<open>C36: an accepted path stays inside. Walking down a path \<open>validate_relative_path\<close> accepted from any directory, with the
  dots resolved, ends in that directory or below it.\<close>

theorem accepted_path_stays_inside:
  assumes "validate_relative_path field_name v = Inr p"
  shows "\<exists>below. walk dir (segments p) = below @ dir"
  using accepted_path_inside [OF assms] .

theorem accepted_path_stays_inside_witness: "\<exists>below. walk [''home''] (segments ''src/./a.py'') = below @ [''home'']"
proof -
  have "validate_relative_path ''path'' '' src/./a.py '' = Inr ''src/./a.py''" by code_simp
  from accepted_path_stays_inside [OF this] show ?thesis .
qed

text \<open>An accepted job is bounded. A job \<open>validate_workspace_job\<close> accepts carries no credential at any depth; its
  capabilities are distinct local ones, only reading ones under the read-only policy; its root is an accepted path; and
  its time and repair budgets are within their limits.\<close>

theorem accepted_job_is_bounded:
  assumes "validate_workspace_job coerce v = Inr j"
  shows "(\<forall>x. inside x v \<longrightarrow> \<not> rejects x) \<and> distinct (jb_caps j) \<and> set (jb_caps j) \<subseteq> set local_capabilities \<and>
    (jb_policy j = ''read_only'' \<longrightarrow> set (jb_caps j) \<subseteq> set read_only_capabilities) \<and>
    (\<exists>r. validate_relative_path ''workspace_root'' r = Inr (jb_root j)) \<and> good_key (jb_key j) \<and>
    1 \<le> jb_time j \<and> jb_time j \<le> 3600 \<and> jb_repairs j \<le> 3"
proof -
  obtain j0 where "check_job j0 = Inr j"
    using assms by (auto simp: validate_workspace_job_def Let_def split: json.splits if_splits option.splits sum.splits)
  note good = check_job_good [OF this]
  have "\<forall>x. inside x v \<longrightarrow> \<not> rejects x" using accepted_clean [OF assms] by blast
  then show ?thesis using good by blast
qed

definition ex_wsjob :: ws_job where
  "ex_wsjob = \<lparr>jb_root = ''app'', jb_objective = ''Fix'', jb_checks = [''Tests pass''], jb_caps = [''local_file_read''], jb_key = ''key-00001'',
     jb_time = 60, jb_cost = 0, jb_repairs = 1, jb_policy = ''read_only'', jb_aliases = [], jb_repository = False,
     jb_isolation = ''none'', jb_base = None\<rparr>"

theorem accepted_job_is_bounded_witness:
  "\<exists>j. validate_workspace_job (\<lambda>_. Some ex_wsjob) (JObj [(''objective'', JStr ''Fix'')]) = Inr j \<and> jb_time j \<le> 3600"
proof -
  let ?r = "validate_workspace_job (\<lambda>_. Some ex_wsjob) (JObj [(''objective'', JStr ''Fix'')])"
  have "\<not> isl ?r"
    by (simp add: validate_workspace_job_def check_job_def require_def field_bounds_def bounded_def opt_bounded_def ex_wsjob_def) code_simp
  then obtain j where j: "?r = Inr j" by (cases ?r) auto
  from accepted_job_is_bounded [OF j] j show ?thesis by blast
qed

text \<open>Acceptance needs proof. A stage result that reports an acceptance check as passed is of the verify stage, carries at least
  one command or test, every command in it ended with exit code 0 and every test in it passed.\<close>

theorem acceptance_needs_proof:
  assumes "build_stage_result show job stage r status = Inr s" and "k \<in> set (sr_accept s)" and "wk_status k = ''passed''"
  shows "sr_stage s = ''verify'' \<and> (sr_commands s \<noteq> [] \<or> sr_tests s \<noteq> []) \<and> (\<forall>m \<in> set (sr_commands s). wm_exit m = 0) \<and>
    (\<forall>t \<in> set (sr_tests s). wt_status t = ''passed'')"
  using passed_needs_proof [OF assms] .

definition ex_returned :: json where
  "ex_returned = JObj [(''summary'', JStr ''ok''), (''command'', JStr ''pytest''), (''exit_code'', JNum 0)]"

lemma ex_parts:
  "inspected_paths ex_returned = []" "changed_files (\<lambda>_. []) ex_returned = []" "artifact_results ex_returned = []"
  "test_results (\<lambda>_. []) ex_returned = Inr []" "stage_summary (\<lambda>_. []) ''verify'' ex_returned = ''ok''"
  "command_results (\<lambda>_. []) ex_returned =
     [\<lparr>wm_command = ''pytest'', wm_exit = 0, wm_duration = 0, wm_output = []\<rparr>]"
  by (simp_all add: ex_returned_def inspected_paths_def changed_files_def artifact_results_def test_results_def
      stage_summary_def command_results_def get_list_def get_text_def get_int_def get_or_def text_or_empty_def)

theorem acceptance_needs_proof_witness:
  "\<exists>s. build_stage_result (\<lambda>_. []) ex_wsjob ''verify'' ex_returned ''completed'' = Inr s \<and> sr_stage s = ''verify''"
proof -
  let ?r = "build_stage_result (\<lambda>_. []) ex_wsjob ''verify'' ex_returned ''completed''"
  obtain s where s: "?r = Inr s" "sr_accept s = [\<lparr>wk_check = ''Tests pass'', wk_status = ''passed'', wk_detail = ''Verified by the local stage.''\<rparr>]"
    by (simp add: build_stage_result_def ex_parts stage_names_def stage_states_def acceptance_status_def ex_wsjob_def check_stage_def
        require_def bounded_def opt_bounded_def check_command_def check_accept_def)
  have "wk_status (hd (sr_accept s)) = ''passed''" "hd (sr_accept s) \<in> set (sr_accept s)" by (simp_all add: s(2))
  from acceptance_needs_proof [OF s(1) this(2,1)] s(1) show ?thesis by blast
qed

end
