(* ===== verification/GoalSpec.thy ===== *)
theory GoalSpec
  imports Prelude
begin

text \<open>
  \<open>native_goals.py\<close>, the goal document: \<open>goal_spec\<close> validates what a client sends and fills in the
  defaults; \<open>spec_fields\<close> is the dictionary the accepted document is stored as, which \<open>extend\<close>
  validates again. Paths of the file system and the check of one browser origin are parameters;
  text is ASCII.
\<close>

section \<open>Paths\<close>

text \<open>
  What the code asks of the operating system: the platform (\<open>os.name == "nt"\<close>), \<open>Path.is_absolute\<close>,
  \<open>Path.resolve\<close> with \<open>strict=True\<close> (which raises for a missing path) and without, \<open>Path.is_dir\<close>,
  \<open>os.path.normcase\<close>, and the verdict of \<open>configured_origins\<close> on one site.
\<close>

record os =
  os_nt :: bool
  os_absolute :: "string \<Rightarrow> bool"
  os_strict :: "string \<Rightarrow> string result"
  os_resolve :: "string \<Rightarrow> string"
  os_is_dir :: "string \<Rightarrow> bool"
  os_normcase :: "string \<Rightarrow> string"
  os_site :: "string \<Rightarrow> bool"

definition unc_prefix :: string where
  "unc_prefix = [CHR 0x5C, CHR 0x5C, CHR ''?'', CHR 0x5C, CHR ''U'', CHR ''N'', CHR ''C'', CHR 0x5C]"

definition drive_prefix :: string where
  "drive_prefix = [CHR 0x5C, CHR 0x5C, CHR ''?'', CHR 0x5C]"

definition strip_windows_verbatim_prefix :: "string \<Rightarrow> string" where
  "strip_windows_verbatim_prefix text =
     (if lower (take (length unc_prefix) text) = lower unc_prefix
      then [CHR 0x5C, CHR 0x5C] @ drop (length unc_prefix) text
      else if starts_with text drive_prefix then drop (length drive_prefix) text
      else text)"

definition workspace_path :: "os \<Rightarrow> string \<Rightarrow> string" where
  "workspace_path os w =
     (let value = (if os_nt os then strip_windows_verbatim_prefix w else w);
          text = os_resolve os value
      in if os_nt os then strip_windows_verbatim_prefix text else text)"

definition workspace_key :: "os \<Rightarrow> string \<Rightarrow> string" where
  "workspace_key os w = os_normcase os (workspace_path os w)"

text \<open>The project folder of a request: absolute, existing, a directory, without the verbatim prefix.\<close>

definition project_folder :: "os \<Rightarrow> string \<Rightarrow> string result" where
  "project_folder os requested =
     (if \<not> os_absolute os requested then Inl (ValueError ''Choose an absolute project folder'')
      else andThen (os_strict os requested)
        (\<lambda>path. if \<not> os_is_dir os path then Inl (ValueError ''Choose an existing project folder'')
                else Inr (if os_nt os then strip_windows_verbatim_prefix path else path)))"

section \<open>The document\<close>

record requirement =
  rq_id :: string
  rq_description :: string

record options =
  op_tools :: bool
  op_workers :: bool
  op_origins :: "string list"

record spec =
  sp_workspace :: string
  sp_objective :: string
  sp_criteria :: string
  sp_profile :: string
  sp_sandbox :: string
  sp_origin_thread :: string
  sp_kind :: string
  sp_requirements :: "requirement list"
  sp_min_sources :: int
  sp_time_sensitive :: bool
  sp_max_output :: "int option"
  sp_max_cycles :: int
  sp_max_requests :: int
  sp_max_tokens :: int
  sp_cycle_seconds :: int
  sp_interval :: int
  sp_options :: options

type_synonym request = "(string \<times> json) list"

text \<open>\<open>value.get(key, default)\<close>.\<close>

definition field :: "string \<Rightarrow> json \<Rightarrow> request \<Rightarrow> json" where
  "field k d v = (case map_of v k of None \<Rightarrow> d | Some x \<Rightarrow> x)"

text \<open>A text field: stripped, not blank, at most \<open>limit\<close> characters as sent.\<close>

definition spec_text :: "string \<Rightarrow> string \<Rightarrow> nat \<Rightarrow> string \<Rightarrow> request \<Rightarrow> string result" where
  "spec_text k label limit limit_text v =
     (case map_of v k of
        Some (JStr s) \<Rightarrow>
          if strip s = [] \<or> limit < length s
          then Inl (ValueError (''Provide '' @ label @ '' (up to '' @ limit_text @ '' characters)'')) else Inr (strip s)
      | _ \<Rightarrow> Inl (ValueError (''Provide '' @ label @ '' (up to '' @ limit_text @ '' characters)'')))"

text \<open>\<open>value.get(key, default) not in {...}\<close>: a list or dictionary cannot be hashed.\<close>

definition spec_choice :: "string \<Rightarrow> string \<Rightarrow> string list \<Rightarrow> string \<Rightarrow> request \<Rightarrow> string result" where
  "spec_choice k d allowed msg v =
     (case field k (JStr d) v of
        JStr s \<Rightarrow> if s \<in> set allowed then Inr s else Inl (ValueError msg)
      | JArr _ \<Rightarrow> Inl TypeError
      | JObj _ \<Rightarrow> Inl TypeError
      | _ \<Rightarrow> Inl (ValueError msg))"

definition kinds :: "string list" where
  "kinds = [''general'', ''coding'', ''research'', ''mixed'']"

definition control_char :: "char \<Rightarrow> bool" where
  "control_char c \<longleftrightarrow> (of_char c :: nat) < 32"

definition spec_thread :: "request \<Rightarrow> string result" where
  "spec_thread v =
     (case field ''origin_thread_id'' (JStr []) v of
        JStr s \<Rightarrow> if 128 < length s \<or> (\<exists>c \<in> set s. control_char c) then Inl (ValueError ''Invalid conversation association'') else Inr s
      | _ \<Rightarrow> Inl (ValueError ''Invalid conversation association''))"

definition id_char :: "char \<Rightarrow> bool" where
  "id_char c \<longleftrightarrow> ascii_alnum c \<or> c = CHR ''_'' \<or> c = CHR ''-''"

fun requirement_of :: "json \<Rightarrow> requirement option" where
  "requirement_of (JObj kvs) =
     (if fst ` set kvs = {''id'', ''description''}
      then (case (map_of kvs ''id'', map_of kvs ''description'') of
              (Some (JStr i), Some (JStr d)) \<Rightarrow>
                if i \<noteq> [] \<and> length i \<le> 48 \<and> (\<forall>c \<in> set i. id_char c) \<and> strip d \<noteq> [] \<and> length d \<le> 2000
                then Some \<lparr>rq_id = i, rq_description = d\<rparr> else None
            | _ \<Rightarrow> None)
      else None)"
| "requirement_of _ = None"

fun all_some :: "'a option list \<Rightarrow> 'a list option" where
  "all_some [] = Some []"
| "all_some (None # xs) = None"
| "all_some (Some x # xs) = map_option ((#) x) (all_some xs)"

definition spec_requirements :: "request \<Rightarrow> requirement list result" where
  "spec_requirements v =
     (let bad = Inl (ValueError ''Provide up to 20 distinct outcome requirements with id and description'')
      in case field ''requirements'' (JArr []) v of
           JArr xs \<Rightarrow>
             if 20 < length xs then bad
             else (case all_some (map requirement_of xs) of
                     None \<Rightarrow> bad
                   | Some rs \<Rightarrow> if distinct (map rq_id rs) then Inr rs else bad)
         | _ \<Rightarrow> bad)"

definition spec_int :: "string \<Rightarrow> int \<Rightarrow> int \<Rightarrow> int \<Rightarrow> string \<Rightarrow> request \<Rightarrow> int result" where
  "spec_int k d lo hi msg v =
     (case field k (JNum d) v of
        JNum n \<Rightarrow> if lo \<le> n \<and> n \<le> hi then Inr n else Inl (ValueError msg)
      | _ \<Rightarrow> Inl (ValueError msg))"

text \<open>\<open>re.search(r"\b(today|latest|current|now|recent)\b", objective, re.I)\<close>.\<close>

definition word_letter :: "char \<Rightarrow> bool" where
  "word_letter c \<longleftrightarrow> ascii_alnum c \<or> c = CHR ''_''"

definition time_words :: "string list" where
  "time_words = [''today'', ''latest'', ''current'', ''now'', ''recent'']"

fun has_time_word :: "bool \<Rightarrow> string \<Rightarrow> bool" where
  "has_time_word inside [] = False"
| "has_time_word inside (c # cs) =
     (\<not> inside \<and> (\<exists>w \<in> set time_words. starts_with (c # cs) w \<and>
        (case drop (length w) (c # cs) of [] \<Rightarrow> True | d # _ \<Rightarrow> \<not> word_letter d))
      \<or> has_time_word (word_letter c) cs)"

definition spec_sensitive :: "string \<Rightarrow> request \<Rightarrow> bool result" where
  "spec_sensitive objective v =
     (case map_of v ''time_sensitive'' of
        None \<Rightarrow> Inr (has_time_word False (lower objective))
      | Some (JBool b) \<Rightarrow> Inr b
      | _ \<Rightarrow> Inl (ValueError ''Time-sensitive must be true or false''))"

definition spec_allowance :: "request \<Rightarrow> int option result" where
  "spec_allowance v =
     (case field ''max_output_tokens'' JNull v of
        JNull \<Rightarrow> Inr None
      | JNum n \<Rightarrow> if 256 \<le> n \<and> n \<le> 131072 then Inr (Some n)
                  else Inl (ValueError ''Explicit output token limit must be 256..131072, or omitted for the model default'')
      | _ \<Rightarrow> Inl (ValueError ''Explicit output token limit must be 256..131072, or omitted for the model default''))"

section \<open>Project options\<close>

definition option_flag :: "string \<Rightarrow> request \<Rightarrow> bool result" where
  "option_flag k v =
     (case field k (JBool False) v of
        JBool b \<Rightarrow> Inr b | _ \<Rightarrow> Inl (ValueError ''Project tool choices must be true or false''))"

definition any_site :: string where
  "any_site = ''*''"

fun origin_text :: "os \<Rightarrow> json \<Rightarrow> string result" where
  "origin_text os (JStr s) =
     (if 1000 < length s then Inl (ValueError ''Invalid browser origin'')
      else if s = any_site \<or> os_site os s then Inr s
      else Inl (ValueError ''Browser origins must be public HTTP(S) origins, not paths or private hosts''))"
| "origin_text os _ = Inl (ValueError ''Invalid browser origin'')"

fun origin_texts :: "os \<Rightarrow> json list \<Rightarrow> string list result" where
  "origin_texts os [] = Inr []"
| "origin_texts os (x # xs) = andThen (origin_text os x) (\<lambda>s. andThen (origin_texts os xs) (\<lambda>ss. Inr (s # ss)))"

definition configured_origins :: "os \<Rightarrow> json list \<Rightarrow> string list result" where
  "configured_origins os xs =
     (if xs = [] \<or> 32 < length xs then Inl (ValueError ''Configure 1..32 exact public browser origins'')
      else origin_texts os xs)"

text \<open>\<open>list(dict.fromkeys(xs))\<close>: the first occurrence of each element stays.\<close>

fun first_of_each :: "'a list \<Rightarrow> 'a list" where
  "first_of_each [] = []"
| "first_of_each (x # xs) = x # filter (\<lambda>y. y \<noteq> x) (first_of_each xs)"

definition spec_origins :: "os \<Rightarrow> request \<Rightarrow> string list result" where
  "spec_origins os v =
     (case field ''browser_origins'' (JArr []) v of
        JArr [] \<Rightarrow> Inr []
      | JArr xs \<Rightarrow> andThen (configured_origins os xs) (\<lambda>ss. Inr (first_of_each ss))
      | _ \<Rightarrow> Inl (ValueError ''Browser sites must be a list of public origins''))"

definition project_options :: "os \<Rightarrow> json \<Rightarrow> options result" where
  "project_options os value =
     (case value of
        JObj v \<Rightarrow>
          if \<not> fst ` set v \<subseteq> {''tools_enabled'', ''workers_enabled'', ''browser_origins''}
          then Inl (ValueError ''Invalid project options'')
          else andThen (option_flag ''tools_enabled'' v)
            (\<lambda>t. andThen (option_flag ''workers_enabled'' v)
            (\<lambda>w. andThen (spec_origins os v)
            (\<lambda>os. Inr \<lparr>op_tools = t, op_workers = w, op_origins = os\<rparr>)))
      | _ \<Rightarrow> Inl (ValueError ''Invalid project options''))"

section \<open>Validation\<close>

text \<open>\<open>str(value.get("workspace", ""))\<close>; \<open>show\<close> is \<open>str\<close> on values that are not text.\<close>

definition workspace_text :: "(json \<Rightarrow> string) \<Rightarrow> request \<Rightarrow> string" where
  "workspace_text show v = (case field ''workspace'' (JStr []) v of JStr s \<Rightarrow> s | x \<Rightarrow> show x)"

definition spec_budgets :: "request \<Rightarrow> (int \<times> int \<times> int \<times> int \<times> int) result" where
  "spec_budgets v =
     andThen (spec_int ''max_cycles'' 8 1 100 ''max_cycles must be 1..100'' v)
       (\<lambda>c. andThen (spec_int ''max_requests'' 30 1 500 ''max_requests must be 1..500'' v)
       (\<lambda>r. andThen (spec_int ''max_token_estimate'' 500000 4096 20000000 ''max_token_estimate must be 4096..20000000'' v)
       (\<lambda>t. andThen (spec_int ''cycle_seconds'' 900 10 3600 ''cycle_seconds must be 10..3600'' v)
       (\<lambda>s. andThen (spec_int ''interval_seconds'' 30 0 86400 ''interval_seconds must be 0..86400'' v)
       (\<lambda>i. Inr (c, r, t, s, i))))))"

definition goal_spec :: "(json \<Rightarrow> string) \<Rightarrow> os \<Rightarrow> request \<Rightarrow> spec result" where
  "goal_spec show os v =
     andThen (project_folder os (workspace_text show v))
       (\<lambda>root. andThen (spec_text ''objective'' ''objective'' 100000 ''100000'' v)
       (\<lambda>objective. andThen (spec_text ''success_criteria'' ''success criteria'' 30000 ''30000'' v)
       (\<lambda>criteria. andThen (spec_text ''profile_id'' ''profile id'' 48 ''48'' v)
       (\<lambda>profile. andThen (spec_choice ''sandbox'' ''read-only'' [''read-only'', ''workspace-write'']
                              ''Choose read-only or project editing access'' v)
       (\<lambda>sandbox. andThen (spec_thread v)
       (\<lambda>thread. andThen (spec_choice ''task_kind'' ''general'' kinds
                              ''Choose general, coding, research or mixed outcome checks'' v)
       (\<lambda>kind. andThen (spec_requirements v)
       (\<lambda>rs. andThen (spec_int ''min_sources'' 2 1 20 ''Minimum sources must be 1..20'' v)
       (\<lambda>count. andThen (spec_sensitive objective v)
       (\<lambda>sensitive. andThen (spec_allowance v)
       (\<lambda>allowance. andThen (spec_budgets v)
       (\<lambda>(cycles, requests, tokens, secs, interval).
          andThen (project_options os (let x = field ''options'' JNull v in if truth x then x else JObj []))
       (\<lambda>opts. Inr \<lparr>sp_workspace = root, sp_objective = objective, sp_criteria = criteria, sp_profile = profile,
             sp_sandbox = sandbox, sp_origin_thread = thread, sp_kind = kind, sp_requirements = rs, sp_min_sources = count,
             sp_time_sensitive = sensitive, sp_max_output = allowance, sp_max_cycles = cycles, sp_max_requests = requests,
             sp_max_tokens = tokens, sp_cycle_seconds = secs, sp_interval = interval, sp_options = opts\<rparr>)))))))))))))"

text \<open>The dictionary of an accepted document; the options lie beside the other fields.\<close>

definition requirement_json :: "requirement \<Rightarrow> json" where
  "requirement_json r = JObj [(''id'', JStr (rq_id r)), (''description'', JStr (rq_description r))]"

definition options_fields :: "options \<Rightarrow> request" where
  "options_fields p =
     [(''tools_enabled'', JBool (op_tools p)), (''workers_enabled'', JBool (op_workers p)),
      (''browser_origins'', JArr (map JStr (op_origins p)))]"

definition spec_fields :: "spec \<Rightarrow> request" where
  "spec_fields s =
     [(''workspace'', JStr (sp_workspace s)), (''objective'', JStr (sp_objective s)), (''success_criteria'', JStr (sp_criteria s)),
      (''profile_id'', JStr (sp_profile s)), (''sandbox'', JStr (sp_sandbox s)), (''origin_thread_id'', JStr (sp_origin_thread s)),
      (''task_kind'', JStr (sp_kind s)), (''requirements'', JArr (map requirement_json (sp_requirements s))),
      (''min_sources'', JNum (sp_min_sources s)), (''time_sensitive'', JBool (sp_time_sensitive s))]
     @ (case sp_max_output s of None \<Rightarrow> [] | Some n \<Rightarrow> [(''max_output_tokens'', JNum n)])
     @ [(''max_cycles'', JNum (sp_max_cycles s)), (''max_requests'', JNum (sp_max_requests s)),
        (''max_token_estimate'', JNum (sp_max_tokens s)), (''cycle_seconds'', JNum (sp_cycle_seconds s)),
        (''interval_seconds'', JNum (sp_interval s))]
     @ options_fields (sp_options s)"

end
