(* ===== verification/Goals.thy ===== *)
theory Goals
  imports GoalSpec Sql
begin

text \<open>
  \<open>native_goals.py\<close>, the ledger of durable goals (\<open>GoalStore\<close>): the state machine of a goal, the
  leases of its cycles, its budget, the approvals a cycle waits for, and the exclusion of two
  workers from one project. Every operation is one transaction. The metadata table is kept as one map
  per kind of key; the JSON columns hold the documents they encode.
\<close>

section \<open>Tables\<close>

datatype goal_state = G_Queued | G_Running | G_Awaiting | G_Review | G_Blocked | G_Paused | G_Stopped | G_Completed

fun show_goal_state :: "goal_state \<Rightarrow> string" where
  "show_goal_state G_Queued = ''queued''"
| "show_goal_state G_Running = ''running''"
| "show_goal_state G_Awaiting = ''awaiting_approval''"
| "show_goal_state G_Review = ''ready_for_review''"
| "show_goal_state G_Blocked = ''blocked''"
| "show_goal_state G_Paused = ''paused''"
| "show_goal_state G_Stopped = ''stopped''"
| "show_goal_state G_Completed = ''completed''"

definition goal_terminal :: "goal_state \<Rightarrow> bool" where
  "goal_terminal s \<longleftrightarrow> s = G_Completed \<or> s = G_Stopped"

definition goal_active :: "goal_state \<Rightarrow> bool" where
  "goal_active s \<longleftrightarrow> s = G_Running \<or> s = G_Awaiting"

text \<open>The checkpoint a cycle records, with the verdict of the outcome checks; \<open>{}\<close> is \<open>None\<close>.\<close>

record output_file =
  ou_path :: string
  ou_sha256 :: string
  ou_bytes :: int

record outcome =
  oc_passed :: bool
  oc_outputs :: "output_file list"
  oc_checks :: "(string \<times> bool) list"

record cycle_checkpoint =
  ck_done :: "json option"
  ck_evidence :: "json option"
  ck_outputs :: "json option"
  ck_outcome :: "outcome option"
  ck_rest :: json

record goal =
  gl_id :: string
  gl_spec :: spec
  gl_state :: goal_state
  gl_key :: string
  gl_session :: "string option"
  gl_turn :: "string option"
  gl_lease :: "string option"
  gl_due :: time
  gl_created :: time
  gl_updated :: time
  gl_cycles :: int
  gl_requests :: int
  gl_tokens :: int
  gl_stalled :: int
  gl_checkpoint :: "cycle_checkpoint option"
  gl_detail :: string

record goal_event =
  ge_seq :: int
  ge_goal :: string
  ge_kind :: string
  ge_body :: json
  ge_created :: time

record feedback_row =
  fb_id :: string
  fb_goal :: string
  fb_text :: string
  fb_created :: time
  fb_consumed :: bool

datatype request_state = R_Pending | R_Answered | R_Delivered | R_Expired

record goal_request =
  gr_id :: string
  gr_goal :: string
  gr_lease :: string
  gr_native :: json
  gr_method :: string
  gr_params :: json
  gr_response :: "json option"
  gr_state :: request_state
  gr_created :: time

record presence =
  pr_owner :: string
  pr_busy :: bool
  pr_heartbeat :: time

datatype delivery_state = D_Sending | D_Unknown | D_Other string

record outbox_row =
  ob_id :: int
  ob_text :: string
  ob_state :: delivery_state

record goal_db =
  goals :: "goal list"
  gevents :: "goal_event list"
  glast :: int
  gfeedback :: "feedback_row list"
  grequests :: "goal_request list"
  gblocked :: "string \<Rightarrow> (int \<times> int) option"
  gpresence :: "string \<Rightarrow> presence option"
  gpairing :: "(string \<times> time) option"
  goutbox :: "outbox_row list"

definition no_goals :: goal_db where
  "no_goals = \<lparr>goals = [], gevents = [], glast = 0, gfeedback = [], grequests = [], gblocked = (\<lambda>_. None),
     gpresence = (\<lambda>_. None), gpairing = None, goutbox = []\<rparr>"

definition goal_event_row :: "time \<Rightarrow> string \<Rightarrow> string \<Rightarrow> json \<Rightarrow> goal_db \<Rightarrow> goal_db" where
  "goal_event_row now gid kind body db =
     db\<lparr>gevents := gevents db @ [\<lparr>ge_seq = glast db + 1, ge_goal = gid, ge_kind = kind, ge_body = body, ge_created = now\<rparr>],
        glast := glast db + 1\<rparr>"

abbreviation summary_body :: "string \<Rightarrow> json" where
  "summary_body s \<equiv> JObj [(''summary'', JStr s)]"

definition goal_row :: "string \<Rightarrow> goal_db \<Rightarrow> goal result" where
  "goal_row gid db =
     (case fetchone (filter (\<lambda>g. gl_id g = gid) (goals db)) of
        None \<Rightarrow> Inl (ValueError ''Goal not found'') | Some g \<Rightarrow> Inr g)"

definition set_goals :: "(goal \<Rightarrow> bool) \<Rightarrow> (goal \<Rightarrow> goal) \<Rightarrow> goal_db \<Rightarrow> goal_db" where
  "set_goals P f db = db\<lparr>goals := upd P f (goals db)\<rparr>"

section \<open>Actions of the user\<close>

definition new_goal :: "string \<Rightarrow> spec \<Rightarrow> string \<Rightarrow> time \<Rightarrow> goal" where
  "new_goal gid sp key now =
     \<lparr>gl_id = gid, gl_spec = sp, gl_state = G_Queued, gl_key = key, gl_session = None, gl_turn = None, gl_lease = None, gl_due = now,
      gl_created = now, gl_updated = now, gl_cycles = 0, gl_requests = 0, gl_tokens = 0, gl_stalled = 0, gl_checkpoint = None, gl_detail = []\<rparr>"

text \<open>\<open>request.get("identity") or uuid.uuid4().hex\<close>, checked.\<close>

definition goal_identity :: "env \<Rightarrow> request \<Rightarrow> string result" where
  "goal_identity e v =
     (let x = field ''identity'' JNull v; x = (if truth x then x else JStr (uuid e [0]))
      in case x of
           JStr s \<Rightarrow> if s \<noteq> [] \<and> (\<forall>c \<in> set s. ascii_alnum c) \<and> length s \<le> 64 then Inr s else Inl (ValueError ''Invalid goal identity'')
         | _ \<Rightarrow> Inl (ValueError ''Invalid goal identity''))"

definition create_goal :: "(json \<Rightarrow> string) \<Rightarrow> os \<Rightarrow> env \<Rightarrow> request \<Rightarrow> goal_db \<Rightarrow> (goal_db \<times> string) result" where
  "create_goal show os e v db =
     andThen (goal_spec show os v)
       (\<lambda>sp. andThen (goal_identity e v)
       (\<lambda>gid. (case fetchone (filter (\<lambda>g. gl_id g = gid) (goals db)) of
          Some g \<Rightarrow>
            if gl_spec g \<noteq> sp then Inl (ValueError ''This creation receipt belongs to a different goal'') else Inr (db, gid)
        | None \<Rightarrow>
            (let now = clk e 0;
                 db = db\<lparr>goals := goals db @ [new_goal gid sp (workspace_key os (sp_workspace sp)) now]\<rparr>
             in Inr (goal_event_row (clk e 1) gid ''created''
                       (JObj [(''summary'', JStr ''Goal queued''), (''access'', JStr (sp_sandbox sp))]) db, gid)))))"

definition feedback_id :: "env \<Rightarrow> request \<Rightarrow> string" where
  "feedback_id e v = (case field ''feedback_id'' JNull v of JStr (c # cs) \<Rightarrow> c # cs | _ \<Rightarrow> uuid e [0])"

definition add_feedback :: "env \<Rightarrow> request \<Rightarrow> goal \<Rightarrow> goal_db \<Rightarrow> goal_db result" where
  "add_feedback e v g db =
     (case field ''text'' JNull v of
        JStr text \<Rightarrow>
          if strip text = [] \<or> 100000 < length text then Inl (ValueError ''Provide feedback up to 100000 characters'')
          else if goal_terminal (gl_state g) then Inl (ValueError ''This goal has finished; create a new goal'')
          else
            (let now = clk e 0; fid = feedback_id e v
             in if fid \<in> fb_id ` set (gfeedback db) then Inr db
                else
                  (let db = db\<lparr>gfeedback := gfeedback db @ [\<lparr>fb_id = fid, fb_goal = gl_id g, fb_text = strip text, fb_created = now,
                              fb_consumed = False\<rparr>]\<rparr>;
                       db = set_goals (\<lambda>x. gl_id x = gl_id g) (\<lambda>x. x\<lparr>gl_stalled := 0, gl_updated := now\<rparr>) db;
                       db = goal_event_row (clk e 1) (gl_id g) ''feedback'' (summary_body (strip text)) db
                   in Inr (if gl_state g = G_Review
                           then set_goals (\<lambda>x. gl_id x = gl_id g) (\<lambda>x. x\<lparr>gl_state := G_Queued, gl_due := now, gl_updated := now\<rparr>) db
                           else db)))
      | _ \<Rightarrow> Inl (ValueError ''Provide feedback up to 100000 characters''))"

definition halt_goal :: "env \<Rightarrow> goal_state \<Rightarrow> goal \<Rightarrow> goal_db \<Rightarrow> goal_db result" where
  "halt_goal e target g db =
     (if goal_terminal (gl_state g) then Inr db
      else
        (let now = clk e 0;
             detail = (if target = G_Paused then ''Paused by user'' else ''Stopped by user'');
             db = set_goals (\<lambda>x. gl_id x = gl_id g) (\<lambda>x. x\<lparr>gl_state := target, gl_detail := detail, gl_updated := now\<rparr>) db
         in Inr (goal_event_row (clk e 1) (gl_id g) (show_goal_state target) (summary_body detail) db)))"

definition resume_goal :: "env \<Rightarrow> goal \<Rightarrow> goal_db \<Rightarrow> goal_db result" where
  "resume_goal e g db =
     (if opt_or (gl_lease g) [] \<noteq> [] then Inl (ValueError ''The current cycle is stopping; resume when it has released its session'')
      else if goal_terminal (gl_state g) \<or> gl_state g = G_Review then Inl (ValueError ''This goal has finished or is ready for review'')
      else if gl_cycles g \<ge> sp_max_cycles (gl_spec g) \<or> gl_requests g \<ge> sp_max_requests (gl_spec g)
        then Inl (ValueError ''Goal budget exhausted; explicitly extend its limits before resuming'')
      else if gl_tokens g \<ge> sp_max_tokens (gl_spec g) then Inl (ValueError ''Goal token estimate limit reached'')
      else if gblocked db (gl_id g) \<noteq> None then Inl (ValueError ''Extend the cumulative budget before resuming this goal'')
      else if gl_state g = G_Queued then Inr db
      else
        (let now = clk e 0;
             db = set_goals (\<lambda>x. gl_id x = gl_id g) (\<lambda>x. x\<lparr>gl_state := G_Queued, gl_due := now, gl_detail := [], gl_updated := now\<rparr>) db
         in Inr (goal_event_row (clk e 1) (gl_id g) ''resumed''
                   (summary_body ''Resume requested; inspect the saved session before continuing'') db)))"

text \<open>\<open>{**row["spec"], "options": options, **{k: request[k] ... if k in request}}\<close>.\<close>

definition extended_fields :: "request \<Rightarrow> spec \<Rightarrow> request" where
  "extended_fields v sp =
     filter (\<lambda>(k, _). k \<in> {''max_cycles'', ''max_requests'', ''max_token_estimate''}) v
     @ (''options'', JObj (options_fields (sp_options sp))) # spec_fields sp"

definition extend_goal :: "(json \<Rightarrow> string) \<Rightarrow> os \<Rightarrow> env \<Rightarrow> request \<Rightarrow> goal \<Rightarrow> goal_db \<Rightarrow> goal_db result" where
  "extend_goal show os e v g db =
     (if opt_or (gl_lease g) [] \<noteq> [] \<or> goal_terminal (gl_state g) then Inl (ValueError ''Pause this goal before changing its limits'')
      else andThen (goal_spec show os (extended_fields v (gl_spec g)))
        (\<lambda>sp. let now = clk e 0;
                db = set_goals (\<lambda>x. gl_id x = gl_id g) (\<lambda>x. x\<lparr>gl_spec := sp, gl_updated := now\<rparr>) db;
                db = (case gblocked db (gl_id g) of
                        Some (r, t) \<Rightarrow> if sp_max_requests sp > r \<or> sp_max_tokens sp > t
                                       then db\<lparr>gblocked := (gblocked db)(gl_id g := None)\<rparr> else db
                      | None \<Rightarrow> db)
            in Inr (goal_event_row (clk e 1) (gl_id g) ''limits'' (summary_body ''User updated cumulative limits'') db)))"

text \<open>
  \<open>validate_acceptance\<close> of \<open>native_outcomes.py\<close>; \<open>current\<close> is \<open>output_record\<close>, the hash of a project
  file as it is now, \<open>None\<close> when it raises.
\<close>

definition pdf_path :: "string \<Rightarrow> bool" where
  "pdf_path p \<longleftrightarrow> ends_with (lower p) ''.pdf''"

definition report_outputs :: "goal \<Rightarrow> output_file list" where
  "report_outputs g = (case Option.bind (gl_checkpoint g) ck_outcome of None \<Rightarrow> [] | Some r \<Rightarrow> oc_outputs r)"

fun outputs_current :: "(string \<Rightarrow> output_file option) \<Rightarrow> output_file list \<Rightarrow> unit result" where
  "outputs_current current [] = Inr ()"
| "outputs_current current (saved # rest) =
     (case current (ou_path saved) of
        None \<Rightarrow> Inl (ValueError ''Output changed or disappeared; add feedback for a fresh review'')
      | Some now \<Rightarrow> if now \<noteq> saved then Inl (ValueError ''Output changed since verification; add feedback for a fresh review'')
                    else outputs_current current rest)"

definition validate_acceptance :: "(string \<Rightarrow> string \<Rightarrow> output_file option) \<Rightarrow> goal \<Rightarrow> unit result" where
  "validate_acceptance current g =
     (let report = Option.bind (gl_checkpoint g) ck_outcome;
          pdf = (\<exists>x \<in> set (report_outputs g). pdf_path (ou_path x));
          checks = (case report of None \<Rightarrow> [] | Some r \<Rightarrow> oc_checks r);
          passed = (case report of None \<Rightarrow> False | Some r \<Rightarrow> oc_passed r)
      in if pdf \<and> (''PDF layout preflight'', True) \<notin> set checks
         then Inl (ValueError ''PDF layout evidence is incomplete; continue for a fresh review'')
         else if (sp_kind (gl_spec g) \<noteq> ''general'' \<or> pdf) \<and> \<not> passed
         then Inl (ValueError ''Outcome evidence checks are incomplete; add feedback and continue'')
         else outputs_current (current (sp_workspace (gl_spec g))) (report_outputs g))"

definition accept_goal :: "(string \<Rightarrow> string \<Rightarrow> output_file option) \<Rightarrow> env \<Rightarrow> goal \<Rightarrow> goal_db \<Rightarrow> goal_db result" where
  "accept_goal current e g db =
     (if gl_state g \<noteq> G_Review \<or> opt_or (gl_lease g) [] \<noteq> []
      then Inl (ValueError ''Review the result after the goal reaches Ready for review'')
      else andThen (validate_acceptance current g)
        (\<lambda>_. let now = clk e 0;
               db = set_goals (\<lambda>x. gl_id x = gl_id g)
                      (\<lambda>x. x\<lparr>gl_state := G_Completed, gl_updated := now, gl_detail := ''Accepted by user''\<rparr>) db
           in Inr (goal_event_row (clk e 1) (gl_id g) ''completed'' (summary_body ''Result accepted by user'') db)))"

definition delete_goal :: "goal \<Rightarrow> goal_db \<Rightarrow> goal_db result" where
  "delete_goal g db =
     (if opt_or (gl_lease g) [] \<noteq> [] \<or> goal_active (gl_state g)
      then Inl (ValueError ''This goal still owns a worker lease. Pause or stop it and wait for cleanup before dismissing it.'')
      else Inr (db\<lparr>grequests := del (\<lambda>r. gr_goal r = gl_id g) (grequests db), gfeedback := del (\<lambda>f. fb_goal f = gl_id g) (gfeedback db),
                  gevents := del (\<lambda>x. ge_goal x = gl_id g) (gevents db), goals := del (\<lambda>x. gl_id x = gl_id g) (goals db)\<rparr>))"

text \<open>The dispatch of \<open>action\<close>; \<open>gid\<close> is \<open>request["id"]\<close>, a text.\<close>

definition goal_action ::
  "(json \<Rightarrow> string) \<Rightarrow> os \<Rightarrow> (string \<Rightarrow> string \<Rightarrow> output_file option) \<Rightarrow> env \<Rightarrow> string \<Rightarrow> string \<Rightarrow> request \<Rightarrow> goal_db \<Rightarrow>
   (goal_db \<times> string) result" where
  "goal_action show os current e act gid v db =
     (if act = ''create'' then create_goal show os e v db
      else andThen (goal_row gid db)
        (\<lambda>g. andThen
           (if act = ''feedback'' then add_feedback e v g db
            else if act = ''pause'' then halt_goal e G_Paused g db
            else if act = ''stop'' then halt_goal e G_Stopped g db
            else if act = ''resume'' then resume_goal e g db
            else if act = ''extend'' then extend_goal show os e v g db
            else if act = ''accept'' then accept_goal current e g db
            else if act \<in> {''delete'', ''dismiss'', ''clear''} then delete_goal g db
            else Inl (ValueError ''Unsupported goal action''))
           (\<lambda>db. Inr (db, gid))))"

end
