(* ===== verification/GoalCycles.thy ===== *)
theory GoalCycles
  imports Goals
begin

text \<open>
  \<open>native_goals.py\<close>, the side of the worker: claiming a goal for a cycle, its budget, its progress,
  the approvals it waits for, the end of the cycle, and the recovery after a crash; with the shapes of
  the answers from \<open>native_goal_runtime.py\<close>.
\<close>

section \<open>Claiming a cycle\<close>

definition ten_seconds :: time where
  "ten_seconds = seconds 10"

definition busy_elsewhere :: "time \<Rightarrow> string \<Rightarrow> goal_db \<Rightarrow> bool" where
  "busy_elsewhere now key db \<longleftrightarrow> (case gpresence db key of None \<Rightarrow> False | Some p \<Rightarrow> pr_heartbeat p > now - ten_seconds \<and> pr_busy p)"

definition project_leased :: "string \<Rightarrow> goal_db \<Rightarrow> bool" where
  "project_leased key db \<longleftrightarrow> (\<exists>g \<in> set (goals db). gl_key g = key \<and> gl_lease g \<noteq> None)"

definition budget_spent :: "goal \<Rightarrow> bool" where
  "budget_spent g \<longleftrightarrow> gl_cycles g \<ge> sp_max_cycles (gl_spec g) \<or> gl_requests g \<ge> sp_max_requests (gl_spec g)
     \<or> gl_tokens g \<ge> sp_max_tokens (gl_spec g)"

definition cycle_summary :: "goal \<Rightarrow> string" where
  "cycle_summary g = ''Starting cycle '' @ show_int (gl_cycles g + 1) @ '' of '' @ show_int (sp_max_cycles (gl_spec g))"

definition start_cycle :: "env \<Rightarrow> nat \<Rightarrow> goal \<Rightarrow> goal_db \<Rightarrow> goal_db \<times> goal" where
  "start_cycle e n g db =
     (let lease = uuid e [n]; summary = cycle_summary g;
          db = set_goals (\<lambda>x. gl_id x = gl_id g)
                 (\<lambda>x. x\<lparr>gl_state := G_Running, gl_lease := Some lease, gl_cycles := gl_cycles x + 1, gl_detail := summary,
                       gl_updated := clk e (3 * n + 2)\<rparr>) db
      in (goal_event_row (clk e (3 * n + 3)) (gl_id g) ''cycle_started'' (summary_body summary) db,
          g\<lparr>gl_lease := Some lease, gl_cycles := gl_cycles g + 1, gl_state := G_Running\<rparr>))"

fun claim_goals :: "os \<Rightarrow> env \<Rightarrow> nat \<Rightarrow> goal list \<Rightarrow> goal_db \<Rightarrow> goal_db \<times> goal option" where
  "claim_goals os e n [] db = (db, None)"
| "claim_goals os e n (g # gs) db =
     (let key = workspace_key os (sp_workspace (gl_spec g))
      in if project_leased key db then claim_goals os e (Suc n) gs db
         else if busy_elsewhere (clk e (3 * n + 1)) key db then claim_goals os e (Suc n) gs db
         else if budget_spent g then
           claim_goals os e (Suc n) gs
             (goal_event_row (clk e (3 * n + 2)) (gl_id g) ''paused'' (summary_body ''Cumulative goal budget reached'')
               (set_goals (\<lambda>x. gl_id x = gl_id g) (\<lambda>x. x\<lparr>gl_state := G_Paused, gl_detail := ''Cumulative goal budget reached''\<rparr>) db))
         else (let (db, g) = start_cycle e n g db in (db, Some g)))"

definition claim_goal :: "os \<Rightarrow> env \<Rightarrow> string option \<Rightarrow> goal_db \<Rightarrow> goal_db \<times> goal option" where
  "claim_goal os e gid db =
     claim_goals os e 0
       (sort_key gl_due (filter (\<lambda>g. gl_state g = G_Queued \<and> gl_lease g = None \<and> gl_due g \<le> clk e 0 \<and> (gid = None \<or> Some (gl_id g) = gid))
          (goals db))) db"

section \<open>During a cycle\<close>

text \<open>A cycle holds the row \<open>claim\<close> returned; \<open>lease\<close> is its lease.\<close>

definition owns :: "goal \<Rightarrow> goal \<Rightarrow> bool" where
  "owns h x \<longleftrightarrow> gl_id x = gl_id h \<and> gl_lease x = gl_lease h \<and> gl_lease h \<noteq> None"

definition report_progress :: "env \<Rightarrow> goal \<Rightarrow> string \<Rightarrow> goal_db \<Rightarrow> goal_db" where
  "report_progress e h text db =
     (let summary = take 240 (strip text); P = (\<lambda>x. owns h x \<and> goal_active (gl_state x))
      in if summary = [] \<or> rowcount P (goals db) = 0 then db
         else goal_event_row (clk e 1) (gl_id h) ''activity'' (summary_body summary)
                (set_goals P (\<lambda>x. x\<lparr>gl_detail := summary, gl_updated := clk e 0\<rparr>) db))"

definition attach_goal :: "env \<Rightarrow> goal \<Rightarrow> string \<Rightarrow> string option \<Rightarrow> goal_db \<Rightarrow> goal_db result" where
  "attach_goal e h session turn db =
     (if rowcount (owns h) (goals db) \<noteq> 1 then Inl (RuntimeError ''Goal lease changed'')
      else Inr (set_goals (owns h) (\<lambda>x. x\<lparr>gl_session := Some session, gl_turn := turn, gl_updated := clk e 0\<rparr>) db))"

text \<open>\<open>reserve\<close>: a refusal for the budget is committed before it is raised.\<close>

definition reserve_goal :: "env \<Rightarrow> goal \<Rightarrow> int \<Rightarrow> goal_db \<Rightarrow> goal_db \<times> unit result" where
  "reserve_goal e h estimate db =
     (case goal_row (gl_id h) db of
        Inl x \<Rightarrow> (db, Inl x)
      | Inr g \<Rightarrow>
          if gl_lease g \<noteq> gl_lease h \<or> \<not> goal_active (gl_state g) then (db, Inl (RuntimeError ''Goal cycle stopped''))
          else if gl_requests g \<ge> sp_max_requests (gl_spec g) \<or> gl_tokens g + estimate > sp_max_tokens (gl_spec g) then
            (let db = set_goals (\<lambda>x. gl_id x = gl_id h)
                        (\<lambda>x. x\<lparr>gl_state := G_Paused,
                              gl_detail := ''Cumulative goal inference budget reached; extend its limits before resuming'',
                              gl_updated := clk e 0\<rparr>) db
             in (db\<lparr>gblocked := (gblocked db)(gl_id h := Some (sp_max_requests (gl_spec g), sp_max_tokens (gl_spec g)))\<rparr>,
                 Inl (RuntimeError ''Cumulative goal inference budget reached'')))
          else (set_goals (\<lambda>x. gl_id x = gl_id h) (\<lambda>x. x\<lparr>gl_requests := gl_requests x + 1, gl_tokens := gl_tokens x + estimate\<rparr>) db, Inr ()))"

definition open_feedback :: "string \<Rightarrow> goal_db \<Rightarrow> (string \<times> string) list" where
  "open_feedback gid db =
     map (\<lambda>f. (fb_id f, fb_text f)) (sort_key fb_created (filter (\<lambda>f. fb_goal f = gid \<and> \<not> fb_consumed f) (gfeedback db)))"

section \<open>Approvals\<close>

definition ask_goal :: "env \<Rightarrow> goal \<Rightarrow> json \<Rightarrow> string \<Rightarrow> json \<Rightarrow> goal_db \<Rightarrow> goal_db \<times> string" where
  "ask_goal e h native meth params db =
     (let rid = uuid e [0];
          db = db\<lparr>grequests := grequests db @ [\<lparr>gr_id = rid, gr_goal = gl_id h, gr_lease = opt_or (gl_lease h) [], gr_native = native,
                 gr_method = meth, gr_params = (if truth params then params else JObj []), gr_response = None, gr_state = R_Pending,
                 gr_created = clk e 0\<rparr>]\<rparr>;
          db = set_goals (\<lambda>x. owns h x \<and> gl_state x = G_Running)
                 (\<lambda>x. x\<lparr>gl_state := G_Awaiting, gl_detail := ''Waiting for your approval in the chat'', gl_updated := clk e 1\<rparr>) db
      in (goal_event_row (clk e 2) (gl_id h) ''awaiting_approval''
            (JObj [(''summary'', JStr ''Respond to the approval in Smara Desktop''), (''request_id'', JStr rid)]) db, rid))"

text \<open>\<open>approval_response\<close>.\<close>

definition sub_object :: "string \<Rightarrow> json \<Rightarrow> json" where
  "sub_object k v = (case jget k v of Some x \<Rightarrow> if truth x then x else JObj [] | None \<Rightarrow> JObj [])"

definition simple_form :: "json \<Rightarrow> bool" where
  "simple_form params \<longleftrightarrow>
     (let schema = sub_object ''requestedSchema'' params
      in jget ''mode'' params = Some (JStr ''form'') \<and> jget ''type'' schema = Some (JStr ''object'')
         \<and> jget ''properties'' schema = Some (JObj []) \<and> \<not> (case jget ''required'' schema of None \<Rightarrow> False | Some x \<Rightarrow> truth x)
         \<and> jget ''codex_approval_kind'' (sub_object ''_meta'' params) = Some (JStr ''mcp_tool_call''))"

definition approval_response :: "string \<Rightarrow> json \<Rightarrow> bool \<Rightarrow> json result" where
  "approval_response meth params allow =
     (if meth \<in> {''item/commandExecution/requestApproval'', ''item/fileChange/requestApproval''}
      then Inr (JObj [(''decision'', JStr (if allow then ''accept'' else ''decline''))])
      else if meth = ''item/permissions/requestApproval''
      then (case jget ''permissions'' params of
              Some (JObj kvs) \<Rightarrow>
                if fst ` set kvs \<subseteq> {''network'', ''fileSystem''}
                then Inr (JObj [(''permissions'', if allow then JObj kvs else JObj []), (''scope'', JStr ''turn'')])
                else Inl (ValueError ''Unsupported native permissions'')
            | _ \<Rightarrow> Inl (ValueError ''Unsupported native permissions''))
      else if meth = ''mcpServer/elicitation/request''
      then (if allow \<and> \<not> simple_form params then Inl (ValueError ''This specialized request needs its native client'')
            else Inr (JObj [(''action'', JStr (if allow then ''accept'' else ''decline'')),
                            (''content'', if allow then JObj [] else JNull), (''_meta'', JNull)]))
      else Inl (ValueError ''This request needs user input; pause and provide goal feedback''))"

text \<open>\<open>user_input_response\<close>: one answer for every question, in the order of the questions.\<close>

fun question_ids :: "string list \<Rightarrow> json list \<Rightarrow> string list result" where
  "question_ids seen [] = Inr seen"
| "question_ids seen (q # qs) =
     (case jget ''id'' q of
        Some (JStr i) \<Rightarrow>
          if i = [] \<or> 128 < length i \<or> i \<in> set seen
          then Inl (ValueError ''The native request contains an invalid question identifier'')
          else question_ids (seen @ [i]) qs
      | _ \<Rightarrow> Inl (ValueError ''The native request contains an invalid question identifier''))"

definition one_answer :: "json option \<Rightarrow> string option" where
  "one_answer x =
     (case Option.bind x (jget ''answers'') of
        Some (JArr [JStr s]) \<Rightarrow> if strip s \<noteq> [] \<and> length s \<le> 10000 then Some s else None
      | _ \<Rightarrow> None)"

fun answer_fields :: "request \<Rightarrow> string list \<Rightarrow> request result" where
  "answer_fields answers [] = Inr []"
| "answer_fields answers (i # is) =
     (case one_answer (map_of answers i) of
        None \<Rightarrow> Inl (ValueError ''Each answer must be non-empty and at most 10000 characters'')
      | Some s \<Rightarrow> andThen (answer_fields answers is) (\<lambda>rest. Inr ((i, JObj [(''answers'', JArr [JStr s])]) # rest)))"

definition user_input_response :: "json \<Rightarrow> json \<Rightarrow> json result" where
  "user_input_response params answers =
     (case jget ''questions'' params of
        Some (JArr qs) \<Rightarrow>
          if qs = [] \<or> 100 < length qs then Inl (ValueError ''The native request did not contain valid questions'')
          else (case answers of
                  JObj kvs \<Rightarrow>
                    andThen (question_ids [] qs)
                      (\<lambda>expected. if fst ` set kvs \<noteq> set expected then Inl (ValueError ''Answer every requested question and no others'')
                         else andThen (answer_fields kvs expected) (\<lambda>fs. Inr (JObj [(''answers'', JObj fs)])))
                | _ \<Rightarrow> Inl (ValueError ''Provide an answer for every question''))
      | _ \<Rightarrow> Inl (ValueError ''The native request did not contain valid questions''))"

definition answerable :: "string \<Rightarrow> string \<Rightarrow> goal_db \<Rightarrow> goal_request \<Rightarrow> bool" where
  "answerable gid rid db r \<longleftrightarrow>
     gr_id r = rid \<and> gr_goal r = gid \<and> gr_state r = R_Pending
     \<and> (\<exists>g \<in> set (goals db). gl_id g = gr_goal r \<and> gl_lease g = Some (gr_lease r) \<and> gl_state g = G_Awaiting)"

definition respond_goal ::
  "env \<Rightarrow> string \<Rightarrow> string \<Rightarrow> json option \<Rightarrow> json option \<Rightarrow> goal_db \<Rightarrow> goal_db result" where
  "respond_goal e gid rid allow answers db =
     (case fetchone (filter (answerable gid rid db) (grequests db)) of
        None \<Rightarrow> Inl (ValueError ''This approval has expired or was already answered'')
      | Some r \<Rightarrow>
          andThen
            (if gr_method r = ''item/tool/requestUserInput''
             then (case answers of
                     None \<Rightarrow> Inl (ValueError ''Answer every requested question before continuing'')
                   | Some a \<Rightarrow> user_input_response (gr_params r) a)
             else (case allow of
                     Some (JBool b) \<Rightarrow> approval_response (gr_method r) (gr_params r) b
                   | _ \<Rightarrow> Inl (ValueError ''Choose Allow or Deny for this request'')))
            (\<lambda>response.
               let summary = (if answers \<noteq> None then ''Answered''
                              else if (case allow of None \<Rightarrow> False | Some x \<Rightarrow> truth x) then ''Allowed'' else ''Denied'')
               in Inr (goal_event_row (clk e 0) gid ''approval_answered''
                         (JObj [(''summary'', JStr summary), (''request_id'', JStr rid)])
                         (db\<lparr>grequests := upd (\<lambda>x. gr_id x = rid) (\<lambda>x. x\<lparr>gr_response := Some response, gr_state := R_Answered\<rparr>)
                               (grequests db)\<rparr>))))"

definition consumable :: "goal \<Rightarrow> string \<Rightarrow> goal_db \<Rightarrow> goal_request \<Rightarrow> bool" where
  "consumable h rid db r \<longleftrightarrow>
     gr_id r = rid \<and> Some (gr_lease r) = gl_lease h \<and> gr_state r = R_Answered
     \<and> (\<exists>g \<in> set (goals db). gl_id g = gr_goal r \<and> gl_lease g = Some (gr_lease r) \<and> goal_active (gl_state g))"

definition open_request :: "goal_request \<Rightarrow> bool" where
  "open_request r \<longleftrightarrow> gr_state r = R_Pending \<or> gr_state r = R_Answered"

definition consume_response :: "goal \<Rightarrow> string \<Rightarrow> goal_db \<Rightarrow> (goal_db \<times> (json \<times> json) option) result" where
  "consume_response h rid db =
     (case fetchone (filter (consumable h rid db) (grequests db)) of
        None \<Rightarrow> Inr (db, None)
      | Some r \<Rightarrow>
          (let db = db\<lparr>grequests := upd (\<lambda>x. gr_id x = rid) (\<lambda>x. x\<lparr>gr_state := R_Delivered, gr_response := None\<rparr>) (grequests db)\<rparr>;
               db = (if \<exists>x \<in> set (grequests db). Some (gr_lease x) = gl_lease h \<and> open_request x then db
                     else set_goals (\<lambda>x. owns h x \<and> gl_state x = G_Awaiting) (\<lambda>x. x\<lparr>gl_state := G_Running, gl_detail := []\<rparr>) db)
           in case gr_response r of None \<Rightarrow> Inl TypeError | Some a \<Rightarrow> Inr (db, Some (gr_native r, a))))"

section \<open>The end of a cycle\<close>

definition same_progress :: "cycle_checkpoint \<Rightarrow> cycle_checkpoint \<Rightarrow> bool" where
  "same_progress a b \<longleftrightarrow> ck_done a = ck_done b \<and> ck_evidence a = ck_evidence b \<and> ck_outputs a = ck_outputs b"

definition no_progress_text :: string where
  "no_progress_text = ''Two cycles produced no new recorded progress; add feedback before resuming''"

definition late_feedback_text :: string where
  "late_feedback_text = ''New user feedback arrived during this cycle; continuing with that feedback''"

text \<open>The state, detail, checkpoint and stall counter a cycle ends with, before unread feedback is looked at.\<close>

definition cycle_outcome ::
  "goal \<Rightarrow> cycle_checkpoint option \<Rightarrow> goal_state \<Rightarrow> string \<Rightarrow> goal_state \<times> string \<times> cycle_checkpoint option \<times> int" where
  "cycle_outcome g ck st detail =
     (let (st, detail) = (if gl_state g = G_Paused \<or> gl_state g = G_Stopped then (gl_state g, gl_detail g) else (st, detail))
      in case ck of
           None \<Rightarrow> (st, detail, gl_checkpoint g, gl_stalled g)
         | Some c \<Rightarrow>
             (let stalled = (case gl_checkpoint g of None \<Rightarrow> 0 | Some old \<Rightarrow> if same_progress old c then gl_stalled g + 1 else 0)
              in if st = G_Queued \<and> 2 \<le> stalled then (G_Blocked, no_progress_text, Some c, stalled)
                 else (st, detail, Some c, stalled)))"

definition finish_goal ::
  "(cycle_checkpoint \<Rightarrow> json) \<Rightarrow> env \<Rightarrow> goal \<Rightarrow> cycle_checkpoint option \<Rightarrow> goal_state \<Rightarrow> string \<Rightarrow> string list \<Rightarrow> json option \<Rightarrow> goal_db \<Rightarrow>
   goal_db result" where
  "finish_goal enc e h ck st detail fids failure db =
     andThen (goal_row (gl_id h) db)
       (\<lambda>g. if gl_lease g \<noteq> gl_lease h then Inl (RuntimeError ''Stale goal lease'')
         else
           (let (st, detail, ck, stalled) = cycle_outcome g ck st detail;
                db = db\<lparr>gfeedback := upd (\<lambda>f. fb_id f \<in> set fids \<and> fb_goal f = gl_id h) (\<lambda>f. f\<lparr>fb_consumed := True\<rparr>) (gfeedback db)\<rparr>;
                (st, detail) = (if st = G_Review \<and> (\<exists>f \<in> set (gfeedback db). fb_goal f = gl_id h \<and> \<not> fb_consumed f)
                                then (G_Queued, late_feedback_text) else (st, detail));
                db = set_goals (\<lambda>x. gl_id x = gl_id h)
                       (\<lambda>x. x\<lparr>gl_lease := None, gl_turn := None, gl_state := st, gl_checkpoint := ck, gl_stalled := stalled, gl_detail := detail,
                             gl_due := clk e 0 + seconds (sp_interval (gl_spec g)), gl_updated := clk e 1\<rparr>) db;
                db = db\<lparr>grequests := upd (\<lambda>r. Some (gr_lease r) = gl_lease h \<and> open_request r) (\<lambda>r. r\<lparr>gr_state := R_Expired\<rparr>) (grequests db)\<rparr>;
                body = [(''summary'', JStr detail), (''checkpoint'', case ck of None \<Rightarrow> JObj [] | Some c \<Rightarrow> enc c)]
                       @ (case failure of None \<Rightarrow> [] | Some x \<Rightarrow> [(''failure'', x)])
            in Inr (goal_event_row (clk e 2) (gl_id h) (show_goal_state st) (JObj body) db)))"

section \<open>Interactive sessions, recovery, pairing\<close>

definition interactive :: "os \<Rightarrow> env \<Rightarrow> string \<Rightarrow> string \<Rightarrow> bool \<Rightarrow> goal_db \<Rightarrow> goal_db result" where
  "interactive os e project owner busy db =
     (let key = workspace_key os project; previous = gpresence db key
      in if busy then
           (if project_leased key db
            then Inl (ValueError ''A goal is working in this project; pause it before starting another turn or shell'')
            else if (case previous of None \<Rightarrow> False
                     | Some p \<Rightarrow> pr_owner p \<noteq> owner \<and> pr_busy p \<and> pr_heartbeat p > clk e 0 - ten_seconds)
            then Inl (ValueError ''Another Smara session is working in this project'')
            else Inr (db\<lparr>gpresence := (gpresence db)(key := Some \<lparr>pr_owner = owner, pr_busy = True, pr_heartbeat = clk e 1\<rparr>)\<rparr>))
         else if (case previous of None \<Rightarrow> False | Some p \<Rightarrow> pr_owner p = owner)
         then Inr (db\<lparr>gpresence := (gpresence db)(key := Some \<lparr>pr_owner = owner, pr_busy = False, pr_heartbeat = clk e 0\<rparr>)\<rparr>)
         else Inr db)"

definition recovery_text :: string where
  "recovery_text = ''Supervisor interrupted; saved session retained. Resume explicitly.''"

fun recovery_events :: "env \<Rightarrow> nat \<Rightarrow> goal list \<Rightarrow> goal_db \<Rightarrow> goal_db" where
  "recovery_events e n [] db = db"
| "recovery_events e n (g # gs) db =
     recovery_events e (Suc n) gs (goal_event_row (clk e n) (gl_id g) ''recovery'' (summary_body recovery_text) db)"

definition recover_goals :: "env \<Rightarrow> goal_db \<Rightarrow> goal_db" where
  "recover_goals e db =
     (let db = recovery_events e 0 (filter (\<lambda>g. gl_lease g \<noteq> None) (goals db)) db;
          db = set_goals (\<lambda>x. gl_lease x \<noteq> None)
                 (\<lambda>x. x\<lparr>gl_state := (if gl_state x = G_Stopped then G_Stopped else G_Paused), gl_lease := None, gl_turn := None,
                       gl_detail := ''Interrupted supervisor; inspect the saved session before resuming''\<rparr>) db
      in db\<lparr>grequests := upd open_request (\<lambda>r. r\<lparr>gr_state := R_Expired\<rparr>) (grequests db),
            goutbox := upd (\<lambda>m. ob_state m = D_Sending) (\<lambda>m. m\<lparr>ob_state := D_Unknown\<rparr>) (goutbox db)\<rparr>)"

definition pairing_code :: "env \<Rightarrow> goal_db \<Rightarrow> goal_db \<times> string" where
  "pairing_code e db = (db\<lparr>gpairing := Some (sha256 e (secret e 0), clk e 0 + seconds 600)\<rparr>, secret e 0)"

section \<open>Reads\<close>

definition list_goals :: "os \<Rightarrow> string option \<Rightarrow> goal_db \<Rightarrow> goal list" where
  "list_goals os project db =
     take 200 (sort_key (\<lambda>g. - gl_created g)
       (case project of
          Some (c # cs) \<Rightarrow> filter (\<lambda>g. gl_key g = workspace_key os (c # cs)) (goals db)
        | _ \<Rightarrow> goals db))"

definition known_stages :: "string list" where
  "known_stages = [''load_provider_profile'', ''start_native_session'', ''initialize_native_protocol'', ''resume_saved_session'',
     ''start_saved_session'', ''start_model_turn'', ''wait_for_model_turn'', ''read_session_transcript'', ''validate_checkpoint'',
     ''verify_outcome'', ''close_native_session'', ''save_checkpoint'']"

definition known_contexts :: "string list" where
  "known_contexts = [''workspace_missing'', ''native_runtime_missing'', ''runtime_dependency_missing'', ''required_file_unavailable'',
     ''provider_rate_limited'']"

definition safe_type :: "string \<Rightarrow> bool" where
  "safe_type s \<longleftrightarrow> (let t = filter (\<lambda>c. c \<noteq> CHR ''_'') s in t \<noteq> [] \<and> (\<forall>c \<in> set t. ascii_alnum c))"

text \<open>The failure of an event as the client sees it: known stages and contexts only.\<close>

definition safe_failure :: "json \<Rightarrow> json option" where
  "safe_failure body =
     (case jget ''failure'' body of
        Some (JObj f) \<Rightarrow>
          (case (map_of f ''stage'', map_of f ''error_type'') of
             (Some (JStr st), Some (JStr ty)) \<Rightarrow>
               if st \<in> set known_stages \<and> safe_type ty
               then (case map_of f ''context'' of
                       Some (JStr c) \<Rightarrow>
                         if c \<in> set known_contexts
                         then Some (JObj [(''stage'', JStr st), (''error_type'', JStr (take 80 ty)), (''context'', JStr c)]) else None
                     | Some JNull \<Rightarrow> Some (JObj [(''stage'', JStr st), (''error_type'', JStr (take 80 ty)), (''context'', JNull)])
                     | None \<Rightarrow> Some (JObj [(''stage'', JStr st), (''error_type'', JStr (take 80 ty)), (''context'', JNull)])
                     | _ \<Rightarrow> None)
               else None
           | _ \<Rightarrow> None)
      | _ \<Rightarrow> None)"

definition shown_event :: "(json \<Rightarrow> string) \<Rightarrow> goal_event \<Rightarrow> goal_event" where
  "shown_event show x =
     x\<lparr>ge_body := JObj ((''summary'', JStr (take 2000 (case jget ''summary'' (ge_body x) of None \<Rightarrow> [] | Some (JStr s) \<Rightarrow> s | Some j \<Rightarrow> show j)))
         # (case safe_failure (ge_body x) of None \<Rightarrow> [] | Some f \<Rightarrow> [(''failure'', f)]))\<rparr>"

record goal_view =
  gv_goal :: goal
  gv_events :: "goal_event list"
  gv_approvals :: "(string \<times> string \<times> json \<times> request_state) list"

definition get_goal :: "(json \<Rightarrow> string) \<Rightarrow> string \<Rightarrow> goal_db \<Rightarrow> goal_view result" where
  "get_goal show gid db =
     andThen (goal_row gid db)
       (\<lambda>g. Inr \<lparr>gv_goal = g,
          gv_events = map (shown_event show) (take_last 100 (sort_key ge_seq (filter (\<lambda>x. ge_goal x = gid) (gevents db)))),
          gv_approvals = map (\<lambda>r. (gr_id r, gr_method r, gr_params r, gr_state r))
            (filter (\<lambda>r. gr_goal r = gid \<and> gr_state r = R_Pending) (grequests db))\<rparr>)"

end
