(* ===== verification/GoalInv.thy ===== *)
theory GoalInv
  imports GoalCycles
begin

text \<open>
  The goal ledger as a state machine: the steps users and workers take, in any order and with any
  worker's possibly stale row, and the invariant every reachable ledger has: one lease per project,
  and a lease on exactly the goals a worker still owns.
\<close>

section \<open>The invariant\<close>

definition row_ok :: "goal \<Rightarrow> bool" where
  "row_ok g \<longleftrightarrow> gl_lease g \<noteq> Some [] \<and> (gl_lease g = None \<longrightarrow> \<not> goal_active (gl_state g))
     \<and> (gl_lease g \<noteq> None \<longrightarrow> gl_state g \<in> {G_Running, G_Awaiting, G_Paused, G_Stopped})"

definition placed :: "os \<Rightarrow> goal \<Rightarrow> bool" where
  "placed os g \<longleftrightarrow> gl_key g = workspace_key os (sp_workspace (gl_spec g))
     \<and> (\<exists>p. project_folder os p = Inr (sp_workspace (gl_spec g)))"

definition goals_ok :: "os \<Rightarrow> goal list \<Rightarrow> bool" where
  "goals_ok os gs \<longleftrightarrow> distinct (map gl_id gs) \<and> (\<forall>g \<in> set gs. row_ok g \<and> placed os g)
     \<and> (\<forall>g \<in> set gs. \<forall>h \<in> set gs. gl_lease g \<noteq> None \<and> gl_lease h \<noteq> None \<and> gl_key g = gl_key h \<longrightarrow> gl_id g = gl_id h)"

text \<open>Resolving a folder that is already resolved gives it back.\<close>

definition os_stable :: "os \<Rightarrow> bool" where
  "os_stable os \<longleftrightarrow> (\<forall>p q. project_folder os p = Inr q \<longrightarrow> project_folder os q = Inr q)"

lemma goals_okD:
  assumes "goals_ok os gs"
  shows "distinct (map gl_id gs)" "\<And>g. g \<in> set gs \<Longrightarrow> row_ok g" "\<And>g. g \<in> set gs \<Longrightarrow> placed os g"
    "\<And>g h. g \<in> set gs \<Longrightarrow> h \<in> set gs \<Longrightarrow> gl_lease g \<noteq> None \<Longrightarrow> gl_lease h \<noteq> None \<Longrightarrow> gl_key g = gl_key h \<Longrightarrow> gl_id g = gl_id h"
  using assms unfolding goals_ok_def by blast+

lemma goals_okI:
  assumes "distinct (map gl_id gs)" and "\<And>g. g \<in> set gs \<Longrightarrow> row_ok g" and "\<And>g. g \<in> set gs \<Longrightarrow> placed os g"
    and "\<And>g h. g \<in> set gs \<Longrightarrow> gl_lease g \<noteq> None \<Longrightarrow> h \<in> set gs \<Longrightarrow> gl_lease h \<noteq> None \<Longrightarrow> gl_key g = gl_key h \<Longrightarrow> gl_id g = gl_id h"
  shows "goals_ok os gs"
  unfolding goals_ok_def
proof (intro conjI ballI impI)
  show "gl_id g = gl_id h"
    if "g \<in> set gs" "h \<in> set gs" "gl_lease g \<noteq> None \<and> gl_lease h \<noteq> None \<and> gl_key g = gl_key h" for g h
    using that by (elim conjE) (rule assms(4))
qed (fact assms)+

lemma goal_rowD: "goal_row gid db = Inr g \<Longrightarrow> g \<in> set (goals db) \<and> gl_id g = gid"
  by (auto simp: goal_row_def split: option.splits dest: fetchone_SomeD)

lemma goal_event_row_fields [simp]:
  "goals (goal_event_row now gid k b db) = goals db" "grequests (goal_event_row now gid k b db) = grequests db"
  "gfeedback (goal_event_row now gid k b db) = gfeedback db" "gblocked (goal_event_row now gid k b db) = gblocked db"
  "gpresence (goal_event_row now gid k b db) = gpresence db"
  by (simp_all add: goal_event_row_def)

lemma set_goals_fields [simp]:
  "goals (set_goals P f db) = upd P f (goals db)" "grequests (set_goals P f db) = grequests db"
  "gfeedback (set_goals P f db) = gfeedback db" "gblocked (set_goals P f db) = gblocked db"
  "gpresence (set_goals P f db) = gpresence db"
  by (simp_all add: set_goals_def)

text \<open>Updates that keep identity and place, and take no lease.\<close>

definition keeps_place :: "(goal \<Rightarrow> goal) \<Rightarrow> goal \<Rightarrow> bool" where
  "keeps_place f x \<longleftrightarrow> gl_id (f x) = gl_id x \<and> gl_key (f x) = gl_key x \<and> sp_workspace (gl_spec (f x)) = sp_workspace (gl_spec x)"

lemma upd_goals_ok:
  assumes ok: "goals_ok os gs"
    and same: "\<And>x. x \<in> set gs \<Longrightarrow> P x \<Longrightarrow> keeps_place f x"
    and lease: "\<And>x. x \<in> set gs \<Longrightarrow> P x \<Longrightarrow> gl_lease (f x) \<noteq> None \<Longrightarrow> gl_lease x \<noteq> None"
    and row: "\<And>x. x \<in> set gs \<Longrightarrow> P x \<Longrightarrow> row_ok x \<Longrightarrow> row_ok (f x)"
  shows "goals_ok os (upd P f gs)"
proof -
  have ids: "map gl_id (upd P f gs) = map gl_id gs" using same by (intro map_upd) (auto simp: keeps_place_def)
  have src: "\<exists>x \<in> set gs. g = (if P x then f x else x) \<and> gl_id g = gl_id x \<and> gl_key g = gl_key x
      \<and> sp_workspace (gl_spec g) = sp_workspace (gl_spec x) \<and> (gl_lease g \<noteq> None \<longrightarrow> gl_lease x \<noteq> None)"
    if "g \<in> set (upd P f gs)" for g
    using that same lease by (auto simp: row_simps keeps_place_def)
  have rows: "row_ok g \<and> placed os g" if g: "g \<in> set (upd P f gs)" for g
  proof -
    obtain x where x: "x \<in> set gs" "g = (if P x then f x else x)" "gl_key g = gl_key x"
      "sp_workspace (gl_spec g) = sp_workspace (gl_spec x)" using src [OF g] by auto
    then show ?thesis using goals_okD(2,3) [OF ok x(1)] row [OF x(1)] by (auto simp: placed_def)
  qed
  show ?thesis
  proof (rule goals_okI)
    show "distinct (map gl_id (upd P f gs))" using goals_okD(1) [OF ok] ids by simp
    show "row_ok g" "placed os g" if "g \<in> set (upd P f gs)" for g using rows [OF that] by simp_all
    show "gl_id g = gl_id h"
      if g: "g \<in> set (upd P f gs)" "gl_lease g \<noteq> None" and h: "h \<in> set (upd P f gs)" "gl_lease h \<noteq> None"
        and key: "gl_key g = gl_key h" for g h
    proof -
      obtain x y where x: "x \<in> set gs" "gl_id g = gl_id x" "gl_key g = gl_key x" "gl_lease x \<noteq> None"
        and y: "y \<in> set gs" "gl_id h = gl_id y" "gl_key h = gl_key y" "gl_lease y \<noteq> None"
        using src [OF g(1)] src [OF h(1)] g(2) h(2) by blast
      then show ?thesis using goals_okD(4) [OF ok x(1) y(1) x(4) y(4)] key by simp
    qed
  qed
qed

section \<open>Every operation keeps it\<close>

lemma add_goal_ok:
  assumes "goals_ok os gs" and "gl_id g \<notin> gl_id ` set gs" and "row_ok g" and "placed os g" and "gl_lease g = None"
  shows "goals_ok os (gs @ [g])"
proof -
  have old: "x \<in> set gs" if "x \<in> set (gs @ [g])" "gl_lease x \<noteq> None" for x using that assms(5) by auto
  show ?thesis
  proof (rule goals_okI)
    show "distinct (map gl_id (gs @ [g]))" using goals_okD(1) [OF assms(1)] assms(2) by simp
    show "row_ok x" "placed os x" if "x \<in> set (gs @ [g])" for x using that goals_okD(2,3) [OF assms(1)] assms(3,4) by auto
    show "gl_id x = gl_id y"
      if x: "x \<in> set (gs @ [g])" "gl_lease x \<noteq> None" and y: "y \<in> set (gs @ [g])" "gl_lease y \<noteq> None" and "gl_key x = gl_key y" for x y
      by (rule goals_okD(4) [OF assms(1) old [OF x] old [OF y]]) fact+
  qed
qed

lemma del_goals_ok: "goals_ok os gs \<Longrightarrow> goals_ok os (del P gs)"
  by (auto simp: goals_ok_def del_def distinct_map_filter)

lemma goal_spec_placed: "goal_spec show os v = Inr sp \<Longrightarrow> \<exists>p. project_folder os p = Inr (sp_workspace sp)"
  by (auto simp: goal_spec_def)

lemma create_goal_ok:
  assumes "goals_ok os (goals db)" and "create_goal show os e v db = Inr (db', i)"
  shows "goals_ok os (goals db')"
proof -
  obtain sp gid where sp: "goal_spec show os v = Inr sp" "goal_identity e v = Inr gid" using assms(2) by (auto simp: create_goal_def)
  show ?thesis
  proof (cases "fetchone (filter (\<lambda>g. gl_id g = gid) (goals db))")
    case None
    then have "goals db' = goals db @ [new_goal gid sp (workspace_key os (sp_workspace sp)) (clk e 0)]"
      using assms(2) sp by (auto simp: create_goal_def Let_def)
    moreover have "gid \<notin> gl_id ` set (goals db)" using None by (auto simp: filter_empty_conv)
    moreover have "row_ok (new_goal gid sp k t)" for k t by (simp add: new_goal_def row_ok_def goal_active_def)
    ultimately show ?thesis using assms(1) goal_spec_placed [OF sp(1)]
      by (auto intro!: add_goal_ok simp: new_goal_def placed_def)
  next
    case (Some g)
    then show ?thesis using assms sp by (auto simp: create_goal_def split: if_splits)
  qed
qed

lemma extended_workspace:
  assumes "goal_spec show os (extended_fields v sp) = Inr sp'" and "os_stable os" and "project_folder os p = Inr (sp_workspace sp)"
  shows "sp_workspace sp' = sp_workspace sp"
proof -
  have "map_of (extended_fields v sp) ''workspace'' = Some (JStr (sp_workspace sp))"
    by (auto simp: extended_fields_def spec_fields_def map_add_def map_of_eq_None_iff split: option.splits dest!: map_of_SomeD)
  then have "workspace_text show (extended_fields v sp) = sp_workspace sp" by (simp add: workspace_text_def field_def)
  then have "project_folder os (sp_workspace sp) = Inr (sp_workspace sp')" using assms(1) by (auto simp: goal_spec_def)
  then show ?thesis using assms(2,3) unfolding os_stable_def by (metis sum.inject(2))
qed

text \<open>An update of one row.\<close>

lemma upd_goal_ok:
  assumes ok: "goals_ok os gs" and g: "g \<in> set gs" and "keeps_place f g"
    and "gl_lease (f g) \<noteq> None \<Longrightarrow> gl_lease g \<noteq> None" and "row_ok g \<Longrightarrow> row_ok (f g)"
  shows "goals_ok os (upd (\<lambda>x. gl_id x = gl_id g) f gs)"
proof -
  have "x = g" if "x \<in> set gs" "gl_id x = gl_id g" for x using key_inj [OF goals_okD(1) [OF ok] that(1) g that(2)] .
  then show ?thesis using assms(3-5) by (intro upd_goals_ok [OF ok]) auto
qed

lemma add_feedback_ok:
  assumes "goals_ok os (goals db)" and "goal_row gid db = Inr g" and "add_feedback e v g db = Inr db'"
  shows "goals_ok os (goals db')"
proof -
  have g: "g \<in> set (goals db)" using goal_rowD [OF assms(2)] by simp
  let ?now = "clk e 0"
  let ?f = "\<lambda>x. x\<lparr>gl_stalled := 0, gl_updated := ?now\<rparr>"
  let ?h = "\<lambda>x. x\<lparr>gl_state := G_Queued, gl_due := ?now, gl_updated := ?now\<rparr>"
  have one: "goals_ok os (upd (\<lambda>x. gl_id x = gl_id g) ?f (goals db))"
    by (rule upd_goal_ok [OF assms(1) g]) (auto simp: keeps_place_def row_ok_def)
  have fg: "?f g \<in> set (upd (\<lambda>x. gl_id x = gl_id g) ?f (goals db))" using g by (auto simp: upd_def)
  have two: "goals_ok os (upd (\<lambda>x. gl_id x = gl_id (?f g)) ?h (upd (\<lambda>x. gl_id x = gl_id g) ?f (goals db)))" if "gl_state g = G_Review"
    by (rule upd_goal_ok [OF one fg]) (use that in \<open>auto simp: keeps_place_def row_ok_def goal_active_def\<close>)
  show ?thesis using assms(1,3) one two
    by (auto simp: add_feedback_def Let_def split: json.splits if_splits)
qed

lemma halt_goal_ok:
  assumes "goals_ok os (goals db)" and "goal_row gid db = Inr g" and "t \<in> {G_Paused, G_Stopped}" and "halt_goal e t g db = Inr db'"
  shows "goals_ok os (goals db')"
proof -
  have g: "g \<in> set (goals db)" using goal_rowD [OF assms(2)] by simp
  have "goals_ok os (upd (\<lambda>x. gl_id x = gl_id g) (\<lambda>x. x\<lparr>gl_state := t, gl_detail := d, gl_updated := n\<rparr>) (goals db))" for d n
    by (rule upd_goal_ok [OF assms(1) g]) (use assms(3) in \<open>auto simp: keeps_place_def row_ok_def goal_active_def\<close>)
  then show ?thesis using assms(1,4) by (auto simp: halt_goal_def Let_def split: if_splits)
qed

lemma resume_goal_ok:
  assumes "goals_ok os (goals db)" and "goal_row gid db = Inr g" and "resume_goal e g db = Inr db'"
  shows "goals_ok os (goals db')"
proof (cases "gl_lease g = None")
  case True
  have g: "g \<in> set (goals db)" using goal_rowD [OF assms(2)] by simp
  have "goals_ok os (upd (\<lambda>x. gl_id x = gl_id g) (\<lambda>x. x\<lparr>gl_state := G_Queued, gl_due := n, gl_detail := [], gl_updated := n\<rparr>) (goals db))" for n
    by (rule upd_goal_ok [OF assms(1) g]) (use True in \<open>auto simp: keeps_place_def row_ok_def goal_active_def\<close>)
  then show ?thesis using assms(1,3) by (auto simp: resume_goal_def Let_def split: if_splits)
next
  case False
  moreover have "row_ok g" using goals_okD(2) [OF assms(1)] goal_rowD [OF assms(2)] by simp
  ultimately show ?thesis using assms(3) by (auto simp: resume_goal_def row_ok_def split: if_splits)
qed

lemma extend_goal_ok:
  assumes "goals_ok os (goals db)" and "goal_row gid db = Inr g" and "os_stable os" and "extend_goal show os e v g db = Inr db'"
  shows "goals_ok os (goals db')"
proof -
  have g: "g \<in> set (goals db)" using goal_rowD [OF assms(2)] by simp
  obtain sp where sp: "goal_spec show os (extended_fields v (gl_spec g)) = Inr sp"
    and db': "goals db' = upd (\<lambda>x. gl_id x = gl_id g) (\<lambda>x. x\<lparr>gl_spec := sp, gl_updated := clk e 0\<rparr>) (goals db)"
    using assms(4) by (cases "gblocked db (gl_id g)") (auto simp: extend_goal_def Let_def split: if_splits)
  obtain p where "project_folder os p = Inr (sp_workspace (gl_spec g))" using goals_okD(3) [OF assms(1) g] by (auto simp: placed_def)
  then have "sp_workspace sp = sp_workspace (gl_spec g)" by (rule extended_workspace [OF sp assms(3)])
  then show ?thesis unfolding db' by (intro upd_goal_ok [OF assms(1) g]) (auto simp: keeps_place_def row_ok_def)
qed

lemma accept_goal_ok:
  assumes "goals_ok os (goals db)" and "goal_row gid db = Inr g" and "accept_goal current e g db = Inr db'"
  shows "goals_ok os (goals db')"
proof -
  have g: "g \<in> set (goals db)" using goal_rowD [OF assms(2)] by simp
  have "gl_state g = G_Review" using assms(3) by (auto simp: accept_goal_def split: if_splits)
  then have "goals_ok os (upd (\<lambda>x. gl_id x = gl_id g) (\<lambda>x. x\<lparr>gl_state := G_Completed, gl_updated := n, gl_detail := d\<rparr>) (goals db))" for n d
    by (intro upd_goal_ok [OF assms(1) g]) (auto simp: keeps_place_def row_ok_def goal_active_def)
  then show ?thesis using assms(3) by (auto simp: accept_goal_def Let_def split: if_splits)
qed

lemma delete_goal_ok: "goals_ok os (goals db) \<Longrightarrow> delete_goal g db = Inr db' \<Longrightarrow> goals_ok os (goals db')"
  by (auto simp: delete_goal_def del_goals_ok split: if_splits)

section \<open>Every operation of a worker keeps it\<close>

lemma lease_goal_ok:
  assumes ok: "goals_ok os gs" and g: "g \<in> set gs" and free: "\<not> (\<exists>x \<in> set gs. gl_key x = gl_key g \<and> gl_lease x \<noteq> None)"
    and f: "keeps_place f g" "row_ok (f g)"
  shows "goals_ok os (upd (\<lambda>x. gl_id x = gl_id g) f gs)"
proof -
  have me: "x = g" if "x \<in> set gs" "gl_id x = gl_id g" for x using key_inj [OF goals_okD(1) [OF ok] that(1) g that(2)] .
  have ids: "map gl_id (upd (\<lambda>x. gl_id x = gl_id g) f gs) = map gl_id gs"
    using me f(1) by (intro map_upd) (auto simp: keeps_place_def)
  have src: "(x \<in> set gs \<and> gl_id x \<noteq> gl_id g) \<or> x = f g" if x: "x \<in> set (upd (\<lambda>x. gl_id x = gl_id g) f gs)" for x
  proof -
    obtain y where y: "y \<in> set gs" "x = (if gl_id y = gl_id g then f y else y)" using x by (auto simp: in_upd)
    then show ?thesis using me [OF y(1)] by (cases "gl_id y = gl_id g") auto
  qed
  have same: "gl_id (f g) = gl_id g" "gl_key (f g) = gl_key g" "placed os (f g)"
    using f(1) goals_okD(3) [OF ok g] by (auto simp: keeps_place_def placed_def)
  show ?thesis
  proof (rule goals_okI)
    show "distinct (map gl_id (upd (\<lambda>x. gl_id x = gl_id g) f gs))" using goals_okD(1) [OF ok] ids by simp
    show "row_ok x" "placed os x" if "x \<in> set (upd (\<lambda>x. gl_id x = gl_id g) f gs)" for x
      using src [OF that] goals_okD(2,3) [OF ok] f(2) same(3) by auto
    show "gl_id x = gl_id y"
      if x: "x \<in> set (upd (\<lambda>x. gl_id x = gl_id g) f gs)" "gl_lease x \<noteq> None"
        and y: "y \<in> set (upd (\<lambda>x. gl_id x = gl_id g) f gs)" "gl_lease y \<noteq> None" and key: "gl_key x = gl_key y" for x y
      using src [OF x(1)] src [OF y(1)]
    proof (elim disjE)
      assume "x \<in> set gs \<and> gl_id x \<noteq> gl_id g" "y \<in> set gs \<and> gl_id y \<noteq> gl_id g"
      then show ?thesis using goals_okD(4) [OF ok, of x y] x(2) y(2) key by simp
    next
      assume "x \<in> set gs \<and> gl_id x \<noteq> gl_id g" "y = f g"
      then show ?thesis using free x(2) key same(2) by auto
    next
      assume "x = f g" "y \<in> set gs \<and> gl_id y \<noteq> gl_id g"
      then show ?thesis using free y(2) key same(2) by auto
    next
      assume "x = f g" "y = f g"
      then show ?thesis by simp
    qed
  qed
qed

lemma start_cycle_ok:
  assumes ok: "goals_ok os (goals db)" and g: "g \<in> set (goals db)" and free: "\<not> project_leased (gl_key g) db" and ne: "uuid e [n] \<noteq> []"
  shows "goals_ok os (goals (fst (start_cycle e n g db)))"
  unfolding start_cycle_def Let_def
  by (simp, rule lease_goal_ok [OF ok g]) (use free ne in \<open>auto simp: project_leased_def keeps_place_def row_ok_def\<close>)

lemma pause_goal_ok:
  assumes "goals_ok os (goals db)" and "g \<in> set (goals db)"
  shows "goals_ok os (goals (set_goals (\<lambda>x. gl_id x = gl_id g) (\<lambda>x. x\<lparr>gl_state := G_Paused, gl_detail := d\<rparr>) db))"
  by (simp, rule upd_goal_ok [OF assms]) (auto simp: keeps_place_def row_ok_def goal_active_def)

lemma claim_goals_ok:
  assumes "goals_ok os (goals db)" and "set gs \<subseteq> set (goals db)" and "distinct (map gl_id gs)" and "\<And>n. uuid e [n] \<noteq> []"
  shows "goals_ok os (goals (fst (claim_goals os e n gs db)))"
  using assms
proof (induction gs arbitrary: n db)
  case (Cons g gs)
  let ?key = "workspace_key os (sp_workspace (gl_spec g))"
  have g: "g \<in> set (goals db)" and rest: "set gs \<subseteq> set (goals db)" "distinct (map gl_id gs)" using Cons.prems by auto
  have key: "?key = gl_key g" using goals_okD(3) [OF Cons.prems(1) g] by (simp add: placed_def)
  let ?db = "goal_event_row (clk e (3 * n + 2)) (gl_id g) ''paused'' (summary_body ''Cumulative goal budget reached'')
     (set_goals (\<lambda>x. gl_id x = gl_id g) (\<lambda>x. x\<lparr>gl_state := G_Paused, gl_detail := ''Cumulative goal budget reached''\<rparr>) db)"
  consider "project_leased ?key db \<or> busy_elsewhere (clk e (3 * n + 1)) ?key db"
    | "\<not> project_leased ?key db" "\<not> busy_elsewhere (clk e (3 * n + 1)) ?key db" "budget_spent g"
    | "\<not> project_leased ?key db" "\<not> busy_elsewhere (clk e (3 * n + 1)) ?key db" "\<not> budget_spent g" by blast
  then show ?case
  proof cases
    case 1
    then show ?thesis using Cons.IH [OF Cons.prems(1) rest Cons.prems(4)] by (auto simp: Let_def)
  next
    case 2
    have "set gs \<subseteq> set (goals ?db)"
    proof
      fix x assume x: "x \<in> set gs"
      then have "gl_id x \<noteq> gl_id g" using Cons.prems(3) by (metis distinct.simps(2) imageI list.set_map list.simps(9))
      then show "x \<in> set (goals ?db)" using x rest(1) by (auto simp: row_simps)
    qed
    moreover have "goals_ok os (goals ?db)" using pause_goal_ok [OF Cons.prems(1) g] by simp
    ultimately have "goals_ok os (goals (fst (claim_goals os e (Suc n) gs ?db)))" by (intro Cons.IH rest(2) Cons.prems(4))
    then show ?thesis using 2 by (simp add: Let_def)
  next
    case 3
    then have "goals_ok os (goals (fst (start_cycle e n g db)))"
      using key by (intro start_cycle_ok [OF Cons.prems(1) g _ Cons.prems(4)]) simp
    then show ?thesis using 3 by (cases "start_cycle e n g db") (simp add: Let_def)
  qed
qed simp

lemma claim_goal_ok:
  assumes "goals_ok os (goals db)" and "\<And>n. uuid e [n] \<noteq> []"
  shows "goals_ok os (goals (fst (claim_goal os e gid db)))"
proof -
  let ?rows = "filter (\<lambda>g. gl_state g = G_Queued \<and> gl_lease g = None \<and> gl_due g \<le> clk e 0 \<and> (gid = None \<or> Some (gl_id g) = gid)) (goals db)"
  have "distinct (map gl_id (sort_key gl_due ?rows))"
    using goals_okD(1) [OF assms(1)] by (simp add: distinct_map inj_on_def)
  then show ?thesis unfolding claim_goal_def by (intro claim_goals_ok assms) auto
qed

lemma report_progress_ok: "goals_ok os (goals db) \<Longrightarrow> goals_ok os (goals (report_progress e h text db))"
  by (auto simp: report_progress_def Let_def keeps_place_def row_ok_def intro!: upd_goals_ok)

lemma attach_goal_ok:
  assumes "goals_ok os (goals db)" and "attach_goal e h session turn db = Inr db'"
  shows "goals_ok os (goals db')"
proof -
  have "goals_ok os (upd (owns h) (\<lambda>x. x\<lparr>gl_session := s, gl_turn := t, gl_updated := n\<rparr>) (goals db))" for s t n
    by (rule upd_goals_ok [OF assms(1)]) (auto simp: keeps_place_def row_ok_def)
  then show ?thesis using assms(2) by (auto simp: attach_goal_def split: if_splits)
qed

lemma reserve_goal_ok:
  assumes ok: "goals_ok os (goals db)" and "reserve_goal e h estimate db = (db', r)"
  shows "goals_ok os (goals db')"
proof (cases "goal_row (gl_id h) db")
  case (Inr g)
  then have g: "g \<in> set (goals db)" "gl_id h = gl_id g" using goal_rowD by auto
  have pause: "goals_ok os (upd (\<lambda>x. gl_id x = gl_id g) (\<lambda>x. x\<lparr>gl_state := G_Paused, gl_detail := d, gl_updated := n\<rparr>) (goals db))" for d n
    by (rule upd_goal_ok [OF ok g(1)]) (auto simp: keeps_place_def row_ok_def goal_active_def)
  have spend: "goals_ok os (upd (\<lambda>x. gl_id x = gl_id g)
      (\<lambda>x. x\<lparr>gl_requests := gl_requests x + 1, gl_tokens := gl_tokens x + estimate\<rparr>) (goals db))"
    by (rule upd_goal_ok [OF ok g(1)]) (auto simp: keeps_place_def row_ok_def)
  show ?thesis using assms Inr pause spend by (auto simp: reserve_goal_def g(2) Let_def split: if_splits)
qed (use assms in \<open>simp add: reserve_goal_def\<close>)

lemma ask_goal_ok:
  assumes "goals_ok os (goals db)"
  shows "goals_ok os (goals (fst (ask_goal e h native meth params db)))"
  by (simp add: ask_goal_def Let_def, rule upd_goals_ok [OF assms]) (auto simp: keeps_place_def row_ok_def owns_def)

lemma respond_goal_goals: "respond_goal e gid rid allow answers db = Inr db' \<Longrightarrow> goals db' = goals db"
  by (auto simp: respond_goal_def Let_def split: option.splits)

lemma consume_response_ok:
  assumes "goals_ok os (goals db)" and "consume_response h rid db = Inr (db', r)"
  shows "goals_ok os (goals db')"
proof -
  have "goals_ok os (upd (\<lambda>x. owns h x \<and> gl_state x = G_Awaiting) (\<lambda>x. x\<lparr>gl_state := G_Running, gl_detail := []\<rparr>) (goals db))"
    by (rule upd_goals_ok [OF assms(1)]) (auto simp: keeps_place_def row_ok_def owns_def)
  then show ?thesis using assms by (auto simp: consume_response_def Let_def split: option.splits if_splits)
qed

definition ending :: "goal_state set" where
  "ending = {G_Queued, G_Review, G_Blocked, G_Paused}"

lemma cycle_outcome_state: "cycle_outcome g ck st detail = (st', d', ck', n) \<Longrightarrow> st \<in> ending \<Longrightarrow> st' \<in> insert G_Stopped ending"
  by (auto simp: cycle_outcome_def ending_def Let_def split: option.splits if_splits prod.splits)

lemma finish_goal_ok:
  assumes ok: "goals_ok os (goals db)" and run: "finish_goal enc e h ck st detail fids failure db = Inr db'" and st: "st \<in> ending"
  shows "goals_ok os (goals db')"
proof -
  obtain g where g: "goal_row (gl_id h) db = Inr g" "gl_lease g = gl_lease h"
    using run by (auto simp: finish_goal_def split: if_splits)
  obtain s' d' c' n' where out: "cycle_outcome g ck st detail = (s', d', c', n')" by (metis prod_cases4)
  have fin: "goals_ok os (upd (\<lambda>x. gl_id x = gl_id h) (\<lambda>x. x\<lparr>gl_lease := None, gl_turn := None, gl_state := s, gl_checkpoint := c,
      gl_stalled := n, gl_detail := d, gl_due := t, gl_updated := u\<rparr>) (goals db))" if "s \<in> insert G_Stopped ending" for s c n d t u
    by (rule upd_goals_ok [OF ok]) (use that in \<open>auto simp: keeps_place_def row_ok_def goal_active_def ending_def\<close>)
  have "s' \<in> insert G_Stopped ending" by (rule cycle_outcome_state [OF out st])
  moreover have "G_Queued \<in> insert G_Stopped ending" by (simp add: ending_def)
  ultimately show ?thesis using run g out fin by (auto simp: finish_goal_def Let_def split: if_splits)
qed

lemma recovery_events_goals [simp]: "goals (recovery_events e n gs db) = goals db"
  by (induction gs arbitrary: n db) simp_all

lemma recover_goals_ok: "goals_ok os (goals db) \<Longrightarrow> goals_ok os (goals (recover_goals e db))"
  by (auto simp: recover_goals_def Let_def keeps_place_def row_ok_def goal_active_def intro!: upd_goals_ok)

lemma interactive_goals: "interactive os e project owner busy db = Inr db' \<Longrightarrow> goals db' = goals db"
  by (auto simp: interactive_def Let_def split: if_splits)

end
