(* ===== verification/GoalRun.thy ===== *)
theory GoalRun
  imports GoalInv
begin

text \<open>
  Runs of the goal ledger: every operation of users, workers and the supervisor, in any order. A
  worker may hold a stale row; the states a cycle ends with are those of \<open>native_goal_runtime.py\<close>.
\<close>

inductive goal_step ::
  "(json \<Rightarrow> string) \<Rightarrow> os \<Rightarrow> (string \<Rightarrow> string \<Rightarrow> output_file option) \<Rightarrow> (cycle_checkpoint \<Rightarrow> json) \<Rightarrow> goal_db \<Rightarrow> goal_db \<Rightarrow> bool"
  for str os current enc where
  gs_action: "goal_action str os current e act gid v db = Inr (db', i) \<Longrightarrow> goal_step str os current enc db db'"
| gs_claim: "(\<And>n. uuid e [n] \<noteq> []) \<Longrightarrow> claim_goal os e gid db = (db', r) \<Longrightarrow> goal_step str os current enc db db'"
| gs_progress: "goal_step str os current enc db (report_progress e h text db)"
| gs_attach: "attach_goal e h session turn db = Inr db' \<Longrightarrow> goal_step str os current enc db db'"
| gs_reserve: "reserve_goal e h estimate db = (db', r') \<Longrightarrow> goal_step str os current enc db db'"
| gs_ask: "ask_goal e h native meth params db = (db', rid) \<Longrightarrow> goal_step str os current enc db db'"
| gs_respond: "respond_goal e gid rid allow answers db = Inr db' \<Longrightarrow> goal_step str os current enc db db'"
| gs_consume: "consume_response h rid db = Inr (db', r'') \<Longrightarrow> goal_step str os current enc db db'"
| gs_finish: "st \<in> ending \<Longrightarrow> finish_goal enc e h ck st detail fids failure db = Inr db' \<Longrightarrow> goal_step str os current enc db db'"
| gs_interactive: "interactive os e project owner busy db = Inr db' \<Longrightarrow> goal_step str os current enc db db'"
| gs_recover: "goal_step str os current enc db (recover_goals e db)"
| gs_pairing: "pairing_code e db = (db', code) \<Longrightarrow> goal_step str os current enc db db'"

section \<open>The invariant in every run\<close>

definition ledger_ok :: "os \<Rightarrow> goal_db \<Rightarrow> bool" where
  "ledger_ok os db \<longleftrightarrow> (os_stable os \<longrightarrow> goals_ok os (goals db))"

lemma goal_action_cases:
  assumes run: "goal_action str os current e act gid v db = Inr (db', i)"
  shows "create_goal str os e v db = Inr (db', i) \<or> (\<exists>g. goal_row gid db = Inr g \<and>
     (add_feedback e v g db = Inr db' \<or> halt_goal e G_Paused g db = Inr db' \<or> halt_goal e G_Stopped g db = Inr db' \<or>
      resume_goal e g db = Inr db' \<or> extend_goal str os e v g db = Inr db' \<or> accept_goal current e g db = Inr db' \<or> delete_goal g db = Inr db'))"
proof (cases "act = ''create''")
  case True
  then show ?thesis using run by (simp add: goal_action_def)
next
  case False
  then obtain g where g: "goal_row gid db = Inr g" using run by (auto simp: goal_action_def)
  define body where "body = (if act = ''feedback'' then add_feedback e v g db else if act = ''pause'' then halt_goal e G_Paused g db
      else if act = ''stop'' then halt_goal e G_Stopped g db else if act = ''resume'' then resume_goal e g db
      else if act = ''extend'' then extend_goal str os e v g db else if act = ''accept'' then accept_goal current e g db
      else if act \<in> {''delete'', ''dismiss'', ''clear''} then delete_goal g db
      else Inl (ValueError ''Unsupported goal action''))"
  have "goal_action str os current e act gid v db = andThen body (\<lambda>db. Inr (db, gid))"
    unfolding goal_action_def body_def if_not_P [OF False] g andThen.simps ..
  then have "andThen body (\<lambda>db. Inr (db, gid)) = Inr (db', i)" using run by simp
  then have "body = Inr db'" by (cases body) simp_all
  then have "add_feedback e v g db = Inr db' \<or> halt_goal e G_Paused g db = Inr db' \<or> halt_goal e G_Stopped g db = Inr db' \<or>
      resume_goal e g db = Inr db' \<or> extend_goal str os e v g db = Inr db' \<or> accept_goal current e g db = Inr db' \<or> delete_goal g db = Inr db'"
    unfolding body_def by (simp only: split: if_split_asm) blast+
  with g show ?thesis by blast
qed

lemma goal_action_ok:
  assumes ok: "goals_ok os (goals db)" and st: "os_stable os" and run: "goal_action str os current e act gid v db = Inr (db', i)"
  shows "goals_ok os (goals db')"
  using goal_action_cases [OF run]
proof (elim disjE exE conjE)
  assume "create_goal str os e v db = Inr (db', i)"
  then show ?thesis by (rule create_goal_ok [OF ok])
qed (blast intro: add_feedback_ok [OF ok] halt_goal_ok [OF ok] resume_goal_ok [OF ok] extend_goal_ok [OF ok _ st]
      accept_goal_ok [OF ok] delete_goal_ok [OF ok])+

lemma goal_step_ok:
  assumes "goal_step str os current enc db db'" and "ledger_ok os db"
  shows "ledger_ok os db'"
  unfolding ledger_ok_def
proof
  assume st: "os_stable os"
  with assms(2) have ok: "goals_ok os (goals db)" by (simp add: ledger_ok_def)
  from assms(1) show "goals_ok os (goals db')"
  proof cases
    case (gs_action e act gid v i)
    show ?thesis by (rule goal_action_ok [OF ok st gs_action])
  next
    case (gs_claim e gid r)
    show ?thesis using claim_goal_ok [OF ok gs_claim(1), of gid] gs_claim(2) by simp
  next
    case (gs_progress e h t)
    show ?thesis unfolding gs_progress by (rule report_progress_ok [OF ok])
  next
    case (gs_attach e h session turn)
    show ?thesis by (rule attach_goal_ok [OF ok gs_attach])
  next
    case (gs_reserve e h estimate r')
    show ?thesis by (rule reserve_goal_ok [OF ok gs_reserve])
  next
    case (gs_ask e h native meth params rid)
    show ?thesis using ask_goal_ok [OF ok, of e h native meth params] gs_ask by simp
  next
    case (gs_respond e gid rid allow answers)
    show ?thesis using ok respond_goal_goals [OF gs_respond] by simp
  next
    case (gs_consume h rid r'')
    show ?thesis by (rule consume_response_ok [OF ok gs_consume])
  next
    case (gs_finish st e h ck detail fids failure)
    show ?thesis by (rule finish_goal_ok [OF ok gs_finish(2,1)])
  next
    case (gs_interactive e project owner busy)
    show ?thesis using ok interactive_goals [OF gs_interactive] by simp
  next
    case (gs_recover e)
    show ?thesis unfolding gs_recover by (rule recover_goals_ok [OF ok])
  next
    case (gs_pairing e code)
    then show ?thesis using ok by (auto simp: pairing_code_def)
  qed
qed

interpretation goal_ledger: inductive_invariant "goal_step str os current enc" no_goals "ledger_ok os"
  by unfold_locales (simp_all add: goal_step_ok, simp add: ledger_ok_def goals_ok_def no_goals_def)

section \<open>Only acceptance completes a goal\<close>

definition completed_before :: "goal list \<Rightarrow> goal list \<Rightarrow> bool" where
  "completed_before gs gs' \<longleftrightarrow>
     (\<forall>x \<in> set gs'. gl_state x = G_Completed \<longrightarrow> (\<exists>y \<in> set gs. gl_id y = gl_id x \<and> gl_state y = G_Completed))"

lemma completed_refl [simp, intro!]: "completed_before gs gs"
  by (auto simp: completed_before_def)

lemma completed_trans: "completed_before a b \<Longrightarrow> completed_before b c \<Longrightarrow> completed_before a c"
  unfolding completed_before_def by metis

lemma completed_upd [intro!]:
  assumes "completed_before gs0 gs" and "\<And>x. P x \<Longrightarrow> gl_id (f x) = gl_id x"
    and "\<And>x. P x \<Longrightarrow> gl_state (f x) = G_Completed \<Longrightarrow> gl_state x = G_Completed"
  shows "completed_before gs0 (upd P f gs)"
proof -
  have "completed_before gs (upd P f gs)"
    unfolding completed_before_def
  proof (intro ballI impI)
    fix x assume x: "x \<in> set (upd P f gs)" and c: "gl_state x = G_Completed"
    then obtain y where y: "y \<in> set gs" "x = (if P y then f y else y)" by (auto simp: in_upd)
    then have "gl_id y = gl_id x \<and> gl_state y = G_Completed" using c assms(2,3) [of y] by (auto split: if_splits)
    with y(1) show "\<exists>y \<in> set gs. gl_id y = gl_id x \<and> gl_state y = G_Completed" by blast
  qed
  then show ?thesis by (rule completed_trans [OF assms(1)])
qed

lemma completed_add [intro!]: "completed_before gs0 gs \<Longrightarrow> gl_state g \<noteq> G_Completed \<Longrightarrow> completed_before gs0 (gs @ [g])"
  by (auto simp: completed_before_def)

lemma completed_del [intro!]: "completed_before gs (del P gs)"
  by (auto simp: completed_before_def in_del)

lemma claim_goals_completed: "completed_before (goals db) (goals (fst (claim_goals os e n gs db)))"
proof (induction os e n gs db rule: claim_goals.induct)
  case (2 os e n g gs db)
  let ?db = "goal_event_row (clk e (3 * n + 2)) (gl_id g) ''paused'' (summary_body ''Cumulative goal budget reached'')
     (set_goals (\<lambda>x. gl_id x = gl_id g) (\<lambda>x. x\<lparr>gl_state := G_Paused, gl_detail := ''Cumulative goal budget reached''\<rparr>) db)"
  have pause: "completed_before (goals db) (goals ?db)" by auto
  have start: "completed_before (goals db) (goals (fst (start_cycle e n g db)))" by (auto simp: start_cycle_def Let_def)
  show ?case using 2 completed_trans [OF pause] start by (cases "start_cycle e n g db") (auto simp: Let_def)
qed simp

lemma user_action_completed:
  shows "create_goal str os e v db = Inr (db', i) \<Longrightarrow> completed_before (goals db) (goals db')"
    and "add_feedback e v g db = Inr db' \<Longrightarrow> completed_before (goals db) (goals db')"
    and "halt_goal e G_Paused g db = Inr db' \<Longrightarrow> completed_before (goals db) (goals db')"
    and "halt_goal e G_Stopped g db = Inr db' \<Longrightarrow> completed_before (goals db) (goals db')"
    and "resume_goal e g db = Inr db' \<Longrightarrow> completed_before (goals db) (goals db')"
    and "extend_goal str os e v g db = Inr db' \<Longrightarrow> completed_before (goals db) (goals db')"
    and "delete_goal g db = Inr db' \<Longrightarrow> completed_before (goals db) (goals db')"
proof -
  show "completed_before (goals db) (goals db')" if run: "create_goal str os e v db = Inr (db', i)"
  proof -
    obtain sp gid where sp: "goal_spec str os v = Inr sp" "goal_identity e v = Inr gid" using run by (auto simp: create_goal_def)
    show ?thesis using run sp
      by (cases "fetchone (filter (\<lambda>g. gl_id g = gid) (goals db))") (auto simp: create_goal_def new_goal_def Let_def split: if_splits)
  qed
  show "completed_before (goals db) (goals db')" if "extend_goal str os e v g db = Inr db'"
    using that by (cases "gblocked db (gl_id g)") (auto simp: extend_goal_def Let_def split: if_splits)
qed (auto simp: add_feedback_def halt_goal_def resume_goal_def delete_goal_def Let_def split: json.splits if_splits)

lemma accept_goal_completed:
  assumes "accept_goal current e g db = Inr db'" and "goal_row gid db = Inr g" and "x \<in> set (goals db')" and "gl_state x = G_Completed"
  shows "\<exists>y \<in> set (goals db). gl_id y = gl_id x \<and>
    (gl_state y = G_Completed \<or> gl_state g = G_Review \<and> gl_id g = gl_id x \<and> opt_or (gl_lease g) [] = [] \<and> validate_acceptance current g = Inr ())"
proof -
  have g: "gl_state g = G_Review" "opt_or (gl_lease g) [] = []" "validate_acceptance current g = Inr ()"
    and db': "goals db' = upd (\<lambda>x. gl_id x = gl_id g)
      (\<lambda>x. x\<lparr>gl_state := G_Completed, gl_updated := clk e 0, gl_detail := ''Accepted by user''\<rparr>) (goals db)"
    using assms(1) by (auto simp: accept_goal_def Let_def split: if_splits)
  obtain y where y: "y \<in> set (goals db)" "x = (if gl_id y = gl_id g then y\<lparr>gl_state := G_Completed, gl_updated := clk e 0,
      gl_detail := ''Accepted by user''\<rparr> else y)"
    using assms(3) unfolding db' in_upd by (elim bexE)
  then have "gl_id y = gl_id x" "gl_id y = gl_id g \<or> x = y" by (auto split: if_splits)
  with y(1) show ?thesis using g assms(4) by metis
qed

lemma worker_completed:
  shows "completed_before (goals db) (goals (report_progress e h t db))"
    and "attach_goal e h session turn db = Inr db' \<Longrightarrow> completed_before (goals db) (goals db')"
    and "reserve_goal e h estimate db = (db', r) \<Longrightarrow> completed_before (goals db) (goals db')"
    and "ask_goal e h native meth params db = (db', rid) \<Longrightarrow> completed_before (goals db) (goals db')"
    and "consume_response h rid db = Inr (db', r') \<Longrightarrow> completed_before (goals db) (goals db')"
    and "completed_before (goals db) (goals (recover_goals e db))"
  by (auto simp: report_progress_def attach_goal_def reserve_goal_def ask_goal_def consume_response_def recover_goals_def Let_def
      split: sum.splits option.splits if_splits)

lemma finish_goal_completed:
  assumes run: "finish_goal enc e h ck st detail fids failure db = Inr db'" and st: "st \<in> ending"
  shows "completed_before (goals db) (goals db')"
proof -
  obtain g where g: "goal_row (gl_id h) db = Inr g" "gl_lease g = gl_lease h"
    using run by (auto simp: finish_goal_def split: if_splits)
  obtain s' d' c' n' where out: "cycle_outcome g ck st detail = (s', d', c', n')" by (metis prod_cases4)
  have "s' \<noteq> G_Completed" using cycle_outcome_state [OF out st] by (auto simp: ending_def)
  then show ?thesis using run g out by (auto simp: finish_goal_def Let_def split: if_splits)
qed

lemma step_completed:
  assumes "goal_step str os current enc db db'" and x: "x \<in> set (goals db')" "gl_state x = G_Completed"
  shows "\<exists>y \<in> set (goals db). gl_id y = gl_id x \<and> (gl_state y = G_Completed \<or>
    (\<exists>g \<in> set (goals db). gl_state g = G_Review \<and> gl_id g = gl_id x \<and> opt_or (gl_lease g) [] = [] \<and> validate_acceptance current g = Inr ()))"
proof -
  have old: ?thesis if "completed_before (goals db) (goals db')" using that x unfolding completed_before_def by blast
  from assms(1) show ?thesis
  proof cases
    case (gs_action e act gid v i)
    from goal_action_cases [OF gs_action] show ?thesis
    proof (elim disjE exE conjE)
      fix g assume g: "goal_row gid db = Inr g" and "accept_goal current e g db = Inr db'"
      from accept_goal_completed [OF this(2,1) x] goal_rowD [OF g] show ?thesis by blast
    qed (use old user_action_completed in metis)+
  next
    case (gs_claim e gid r)
    then have "db' = fst (claim_goal os e gid db)" by simp
    then show ?thesis using claim_goals_completed by (intro old) (simp only: claim_goal_def)
  next
    case (gs_finish st e h ck detail fids failure)
    show ?thesis by (rule old [OF finish_goal_completed [OF gs_finish(2,1)]])
  next
    case (gs_respond e gid rid allow answers)
    show ?thesis by (rule old) (simp add: respond_goal_goals [OF gs_respond])
  next
    case (gs_interactive e project owner busy)
    show ?thesis by (rule old) (simp add: interactive_goals [OF gs_interactive])
  next
    case (gs_pairing e code)
    then show ?thesis by (intro old) (auto simp: pairing_code_def)
  next
    case (gs_progress e h t)
    show ?thesis by (rule old) (simp only: gs_progress worker_completed(1))
  next
    case (gs_attach e h session turn)
    show ?thesis by (rule old [OF worker_completed(2) [OF gs_attach]])
  next
    case (gs_reserve e h estimate r')
    show ?thesis by (rule old [OF worker_completed(3) [OF gs_reserve]])
  next
    case (gs_ask e h native meth params rid)
    show ?thesis by (rule old [OF worker_completed(4) [OF gs_ask]])
  next
    case (gs_consume h rid r'')
    show ?thesis by (rule old [OF worker_completed(5) [OF gs_consume]])
  next
    case (gs_recover e)
    show ?thesis by (rule old) (simp only: gs_recover worker_completed(6))
  qed
qed

end
