(* ===== verification/GoalEngine.thy ===== *)
theory GoalEngine
  imports Prelude
begin

text \<open>
  \<open>goal_engine.py\<close>: the planner that validates a model's plan (\<open>GoalPlanner\<close>) and the runner that
  executes it with a checkpoint after every change of a step (\<open>GoalRunner\<close>). The model that proposes a
  plan, the executor of a step and \<open>str\<close> on values that are not text (\<open>show\<close>) are parameters; the
  callback \<open>on_event\<close> is the list of the events it is called with. A checkpoint file holds the
  session it was written from.
\<close>

section \<open>Steps and sessions\<close>

datatype step_phase = Pending | Running_Step | Completed_Step | Failed_Step | Skipped_Step

record plan_step =
  ps_id :: string
  ps_title :: string
  ps_objective :: string
  ps_capability :: string
  ps_payload :: "(string \<times> json) list"
  ps_deps :: "string list"
  ps_phase :: step_phase
  ps_evidence :: "json option"
  ps_duration :: int
  ps_error :: "string option"

definition new_step :: "string \<Rightarrow> string \<Rightarrow> string \<Rightarrow> string \<Rightarrow> (string \<times> json) list \<Rightarrow> string list \<Rightarrow> plan_step" where
  "new_step i title objective capability payload deps =
     \<lparr>ps_id = i, ps_title = title, ps_objective = objective, ps_capability = capability, ps_payload = payload, ps_deps = deps,
      ps_phase = Pending, ps_evidence = None, ps_duration = 0, ps_error = None\<rparr>"

record goal_session =
  se_id :: string
  se_objective :: string
  se_status :: string
  se_created :: time
  se_updated :: time
  se_steps :: "plan_step list"
  se_deliverable :: "json option"
  se_total :: nat
  se_completed :: nat

section \<open>The planner\<close>

definition capabilities :: "string list" where
  "capabilities = [''deep_research'', ''local_file_read'', ''local_file_write'', ''local_terminal'', ''local_graph'', ''local_integration'',
     ''local_refactor'', ''local_test_fixer'', ''local_git'']"

fun py_str :: "(json \<Rightarrow> string) \<Rightarrow> json \<Rightarrow> string" where
  "py_str show (JStr s) = s"
| "py_str show v = show v"

text \<open>\<open>str(raw.get(k) or rest)\<close>.\<close>

definition text_or :: "(json \<Rightarrow> string) \<Rightarrow> json option \<Rightarrow> string \<Rightarrow> string" where
  "text_or show v d = (case v of Some j \<Rightarrow> if truth j then py_str show j else d | None \<Rightarrow> d)"

text \<open>\<open>dict(raw.get("payload") or {})\<close>: an object, or a list of pairs with text keys; anything else raises.\<close>

fun dict_pair :: "json \<Rightarrow> (string \<times> json) option" where
  "dict_pair (JArr [JStr k, v]) = Some (k, v)"
| "dict_pair (JStr [a, b]) = Some ([a], JStr [b])"
| "dict_pair _ = None"

fun dict_pairs :: "json list \<Rightarrow> (string \<times> json) list option" where
  "dict_pairs [] = Some []"
| "dict_pairs (x # xs) = (case dict_pair x of None \<Rightarrow> None | Some p \<Rightarrow> map_option ((#) p) (dict_pairs xs))"

definition payload_of :: "json option \<Rightarrow> (string \<times> json) list result" where
  "payload_of v =
     (case v of
        None \<Rightarrow> Inr []
      | Some j \<Rightarrow>
          if \<not> truth j then Inr []
          else (case j of
                  JObj kvs \<Rightarrow> Inr kvs
                | JArr xs \<Rightarrow> (case dict_pairs xs of Some kvs \<Rightarrow> Inr (rev kvs) | None \<Rightarrow> Inl TypeError)
                | _ \<Rightarrow> Inl TypeError))"

definition dependencies_of :: "(json \<Rightarrow> string) \<Rightarrow> json option \<Rightarrow> string list" where
  "dependencies_of show v =
     (case v of
        Some (JArr xs) \<Rightarrow> filter (\<lambda>d. d \<noteq> []) (map (\<lambda>x. strip (py_str show x)) xs)
      | _ \<Rightarrow> [])"

text \<open>The steps of a proposal, in order; an entry without a new identifier or a known capability is skipped.\<close>

fun collect_steps :: "(json \<Rightarrow> string) \<Rightarrow> string \<Rightarrow> nat \<Rightarrow> json list \<Rightarrow> plan_step list \<Rightarrow> plan_step list result" where
  "collect_steps show objective n [] acc = Inr acc"
| "collect_steps show objective n (JObj kvs # rest) acc =
     (let get = map_of kvs;
          i = strip (text_or show (get ''id'') (''step_'' @ show_nat n));
          capability = strip (text_or show (get ''capability'') []);
          title = strip (text_or show (get ''title'') (text_or show (get ''objective'') (''Step '' @ show_nat n)))
      in if i = [] \<or> i \<in> ps_id ` set acc \<or> capability \<notin> set capabilities
         then collect_steps show objective (Suc n) rest acc
         else andThen (payload_of (get ''payload''))
           (\<lambda>payload. collect_steps show objective (Suc n) rest
              (acc @ [new_step i title (text_or show (get ''objective'') objective) capability payload
                        (dependencies_of show (get ''dependencies''))])))"
| "collect_steps show objective n (_ # rest) acc = collect_steps show objective (Suc n) rest acc"

definition deps_of :: "plan_step list \<Rightarrow> string \<Rightarrow> string list option" where
  "deps_of steps i = map_option ps_deps (find (\<lambda>s. ps_id s = i) steps)"

lemma deps_of_known: "deps_of g n = Some ds \<Longrightarrow> n \<in> ps_id ` set g"
  by (auto simp: deps_of_def find_Some_iff)

text \<open>
  \<open>visit\<close>: \<open>visiting\<close> are the nodes on the path, the last argument the visited ones, latest first. The
  recursion goes at most as deep as there are steps.
\<close>

function visit_nodes :: "plan_step list \<Rightarrow> string list \<Rightarrow> string list \<Rightarrow> string list \<Rightarrow> string list result" where
  "visit_nodes g visiting [] visited = Inr visited"
| "visit_nodes g visiting (n # ns) visited =
     (if n \<in> set visiting then Inl (ValueError ''The goal planner returned a dependency cycle.'')
      else if n \<in> set visited then visit_nodes g visiting ns visited
      else (case deps_of g n of
              None \<Rightarrow> Inl (KeyError n)
            | Some ds \<Rightarrow> (case visit_nodes g (n # visiting) ds visited of
                            Inl x \<Rightarrow> Inl x
                          | Inr visited' \<Rightarrow> visit_nodes g visiting ns (n # visited'))))"
  by pat_completeness auto

termination
proof (relation "inv_image (less_than <*lex*> less_than) (\<lambda>(g, visiting, ns, visited). (card (ps_id ` set g - set visiting), length ns))")
  fix g :: "plan_step list" and visiting n ds
  assume "n \<notin> set visiting" "deps_of g n = Some ds"
  then have "n \<in> ps_id ` set g - set visiting" using deps_of_known by auto
  then have "card (ps_id ` set g - set (n # visiting)) < card (ps_id ` set g - set visiting)"
    by (intro psubset_card_mono) auto
  then show "((g, n # visiting, ds, visited), (g, visiting, n # ns, visited))
    \<in> inv_image (less_than <*lex*> less_than) (\<lambda>(g, visiting, ns, visited). (card (ps_id ` set g - set visiting), length ns))" for ns visited
    by simp
qed auto

definition check_graph :: "plan_step list \<Rightarrow> plan_step list result" where
  "check_graph steps =
     (if \<exists>s \<in> set steps. \<not> set (ps_deps s) \<subseteq> ps_id ` set steps
      then Inl (ValueError ''The goal planner returned an unknown dependency.'')
      else andThen (visit_nodes steps [] (map ps_id steps) []) (\<lambda>_. Inr steps))"

definition validate_model_plan :: "(json \<Rightarrow> string) \<Rightarrow> json \<Rightarrow> string \<Rightarrow> plan_step list result" where
  "validate_model_plan show proposed objective =
     (let entries = (case proposed of JObj kvs \<Rightarrow> map_of kvs ''steps'' | v \<Rightarrow> Some v)
      in case entries of
           Some (JArr xs) \<Rightarrow>
             andThen (collect_steps show objective 1 xs [])
               (\<lambda>steps. if steps = [] then Inr [] else check_graph steps)
         | _ \<Rightarrow> Inr [])"

definition fallback_plan :: "string \<Rightarrow> plan_step list" where
  "fallback_plan objective =
     [new_step ''step_1'' ''Inspect workspace'' (''Inspect the workspace and gather evidence for: '' @ objective) ''local_file_read''
        [(''operation'', JStr ''workspace_snapshot''), (''objective'', JStr objective)] [],
      new_step ''step_2'' ''Execute objective'' (''Execute the approved actions required by: '' @ objective) ''local_terminal''
        [(''objective'', JStr objective)] [''step_1''],
      new_step ''step_3'' ''Verify outcome'' (''Verify the deliverables and evidence for: '' @ objective) ''local_file_read''
        [(''operation'', JStr ''workspace_snapshot''), (''objective'', JStr objective)] [''step_2'']]"

text \<open>\<open>plan\<close>; the model's proposal may raise.\<close>

definition goal_plan :: "(json \<Rightarrow> string) \<Rightarrow> string \<Rightarrow> (string \<Rightarrow> json result) option \<Rightarrow> plan_step list result" where
  "goal_plan show objective reasoner =
     (if strip objective = [] then Inl (ValueError ''Goal objective cannot be empty.'')
      else case reasoner of
             None \<Rightarrow> Inr (fallback_plan objective)
           | Some ask \<Rightarrow>
               andThen (ask (strip objective))
                 (\<lambda>proposed. andThen (validate_model_plan show proposed (strip objective))
                   (\<lambda>steps. if steps = [] then Inl (ValueError ''The goal planner returned no valid steps.'') else Inr steps)))"

section \<open>The runner\<close>

datatype goal_notice = Notice string string string

text \<open>What the runner has done so far: the session in memory, the files, the notices, the clock readings taken.\<close>

record engine_run =
  ru_session :: goal_session
  ru_files :: "string \<Rightarrow> goal_session option"
  ru_log :: "goal_notice list"
  ru_ticks :: nat

definition save_checkpoint :: "(nat \<Rightarrow> time) \<Rightarrow> engine_run \<Rightarrow> engine_run" where
  "save_checkpoint now r =
     (let s = (ru_session r)\<lparr>se_updated := now (ru_ticks r)\<rparr>
      in r\<lparr>ru_session := s, ru_files := (ru_files r)(se_id s := Some s), ru_ticks := Suc (ru_ticks r)\<rparr>)"

definition notify :: "string \<Rightarrow> string \<Rightarrow> string \<Rightarrow> engine_run \<Rightarrow> engine_run" where
  "notify kind i msg r = r\<lparr>ru_log := ru_log r @ [Notice kind i msg]\<rparr>"

definition set_step :: "nat \<Rightarrow> (plan_step \<Rightarrow> plan_step) \<Rightarrow> engine_run \<Rightarrow> engine_run" where
  "set_step k f r = r\<lparr>ru_session := (ru_session r)\<lparr>se_steps := (se_steps (ru_session r))[k := f (se_steps (ru_session r) ! k)]\<rparr>\<rparr>"

definition set_status :: "string \<Rightarrow> engine_run \<Rightarrow> engine_run" where
  "set_status s r = r\<lparr>ru_session := (ru_session r)\<lparr>se_status := s\<rparr>\<rparr>"

definition is_done :: "plan_step \<Rightarrow> bool" where
  "is_done s \<longleftrightarrow> ps_phase s = Completed_Step"

definition done_ids :: "plan_step list \<Rightarrow> string set" where
  "done_ids steps = ps_id ` {s \<in> set steps. is_done s}"

definition step_ready :: "plan_step list \<Rightarrow> plan_step \<Rightarrow> bool" where
  "step_ready steps s \<longleftrightarrow> \<not> is_done s \<and> (\<forall>d \<in> set (ps_deps s). \<exists>t \<in> set steps. is_done t \<and> ps_id t = d)"

text \<open>The position of the first pending step whose dependencies are completed.\<close>

definition next_ready :: "plan_step list \<Rightarrow> nat option" where
  "next_ready steps = find (\<lambda>k. step_ready steps (steps ! k)) [0..<length steps]"

text \<open>
  Why the result of a step is a failure: the prefix of the notice and the text of the error, or \<open>None\<close> for a
  success. A status that cannot be hashed makes the membership test raise.
\<close>

definition failure_states :: "string list" where
  "failure_states = [''failed'', ''error'', ''denied'', ''cancelled'', ''tool_error'']"

definition bad_exit :: "json option \<Rightarrow> bool" where
  "bad_exit x = (case x of Some (JNum n) \<Rightarrow> n \<noteq> 0 | Some (JBool b) \<Rightarrow> b | _ \<Rightarrow> False)"

definition output_error :: "(json \<Rightarrow> string) \<Rightarrow> json \<Rightarrow> (string \<times> string) option" where
  "output_error show out =
     (case out of
        JObj kvs \<Rightarrow>
          (let get = map_of kvs;
               failed = Some (''Failed: '', text_or show (get ''error'') (text_or show (get ''message'') ''Step execution failed''))
           in if get ''ok'' = Some (JBool False) \<or> get ''success'' = Some (JBool False)
                 \<or> (case get ''error'' of None \<Rightarrow> False | Some x \<Rightarrow> truth x) then failed
              else (case get ''status'' of
                      Some (JStr s) \<Rightarrow> if s \<in> set failure_states \<or> bad_exit (get ''exit_code'') then failed else None
                    | Some (JArr _) \<Rightarrow> Some (''Exception: '', ''unhashable type'')
                    | Some (JObj _) \<Rightarrow> Some (''Exception: '', ''unhashable type'')
                    | _ \<Rightarrow> if bad_exit (get ''exit_code'') then failed else None))
      | _ \<Rightarrow> Some (''Failed: '', ''Step executor returned an invalid result (expected an object).''))"

definition report_path :: "plan_step \<Rightarrow> json option" where
  "report_path s =
     (case ps_evidence s of
        Some (JObj kvs) \<Rightarrow> (case map_of kvs ''report_path'' of Some x \<Rightarrow> if truth x then Some x else None | None \<Rightarrow> None)
      | _ \<Rightarrow> None)"

definition deliverable :: "plan_step list \<Rightarrow> json option \<Rightarrow> json option" where
  "deliverable steps old =
     (case find (\<lambda>s. report_path s \<noteq> None) (rev steps) of None \<Rightarrow> old | Some s \<Rightarrow> report_path s)"

text \<open>
  One run: \<open>exec n\<close> is the executor at its \<open>n\<close>-th call, an exception being the text \<open>str(exc)\<close>; \<open>dur n\<close> the
  milliseconds that call took; \<open>names\<close> the text of a list of identifiers.
\<close>

record world =
  wo_exec :: "nat \<Rightarrow> string \<Rightarrow> (string \<times> json) list \<Rightarrow> string \<Rightarrow> string + json"
  wo_dur :: "nat \<Rightarrow> int"
  wo_now :: "nat \<Rightarrow> time"
  wo_show :: "json \<Rightarrow> string"
  wo_names :: "string list \<Rightarrow> string"

definition missing :: "plan_step list \<Rightarrow> plan_step \<Rightarrow> string list" where
  "missing steps s = filter (\<lambda>d. d \<notin> done_ids steps) (ps_deps s)"

definition fail_blocked :: "world \<Rightarrow> plan_step list \<Rightarrow> plan_step \<Rightarrow> plan_step" where
  "fail_blocked w steps s =
     (if is_done s then s
      else s\<lparr>ps_phase := Failed_Step, ps_error := Some (''Unresolved dependencies: '' @ wo_names w (missing steps s))\<rparr>)"

definition first_pending :: "plan_step list \<Rightarrow> plan_step" where
  "first_pending steps = hd (filter (\<lambda>s. \<not> is_done s) steps)"

definition give_up :: "world \<Rightarrow> engine_run \<Rightarrow> engine_run" where
  "give_up w r =
     (let steps = se_steps (ru_session r);
          r = r\<lparr>ru_session := (ru_session r)\<lparr>se_steps := map (fail_blocked w steps) steps\<rparr>\<rparr>;
          r = save_checkpoint (wo_now w) (set_status ''failed'' r);
          s = fail_blocked w steps (first_pending steps)
      in notify ''step_failed'' (ps_id s) (opt_or (ps_error s) ''No ready goal step'') r)"

definition start_step :: "world \<Rightarrow> nat \<Rightarrow> engine_run \<Rightarrow> engine_run" where
  "start_step w k r =
     (let r = save_checkpoint (wo_now w) (set_step k (\<lambda>s. s\<lparr>ps_phase := Running_Step\<rparr>) r); s = se_steps (ru_session r) ! k
      in notify ''step_start'' (ps_id s) (''Executing '' @ ps_title s @ ''...'') r)"

definition fail_step_at :: "world \<Rightarrow> nat \<Rightarrow> string \<Rightarrow> string \<Rightarrow> int \<Rightarrow> engine_run \<Rightarrow> engine_run" where
  "fail_step_at w k prefix err ms r =
     (let r = save_checkpoint (wo_now w)
                (set_step k (\<lambda>s. s\<lparr>ps_phase := Failed_Step, ps_error := Some err, ps_duration := ms\<rparr>) r)
      in save_checkpoint (wo_now w)
           (set_status ''failed'' (notify ''step_failed'' (ps_id (se_steps (ru_session r) ! k)) (prefix @ err) r)))"

definition complete_step_at :: "world \<Rightarrow> nat \<Rightarrow> json \<Rightarrow> int \<Rightarrow> engine_run \<Rightarrow> engine_run" where
  "complete_step_at w k out ms r =
     (let r = set_step k (\<lambda>s. s\<lparr>ps_phase := Completed_Step, ps_evidence := Some out, ps_duration := ms\<rparr>) r;
          r = r\<lparr>ru_session := (ru_session r)\<lparr>se_completed := card (done_ids (se_steps (ru_session r)))\<rparr>\<rparr>;
          r = save_checkpoint (wo_now w) r
      in notify ''step_complete'' (ps_id (se_steps (ru_session r) ! k)) (''Completed in '' @ show_int ms @ ''ms'') r)"

definition conclude_goal :: "world \<Rightarrow> engine_run \<Rightarrow> engine_run result" where
  "conclude_goal w r =
     (let s = ru_session r;
          s = s\<lparr>se_status := ''completed'', se_deliverable := deliverable (se_steps s) (se_deliverable s)\<rparr>;
          r = save_checkpoint (wo_now w) (r\<lparr>ru_session := s\<rparr>)
      in if se_steps s = [] then Inl IndexError
         else Inr (notify ''goal_complete'' (ps_id (last (se_steps s))) (''All '' @ show_nat (length (se_steps s)) @ '' steps satisfied'') r))"

definition pending_count :: "engine_run \<Rightarrow> nat" where
  "pending_count r = length (filter (\<lambda>s. \<not> is_done s) (se_steps (ru_session r)))"

lemma session_save [simp]:
  "se_steps (ru_session (save_checkpoint now r)) = se_steps (ru_session r)"
  "se_id (ru_session (save_checkpoint now r)) = se_id (ru_session r)"
  "se_status (ru_session (save_checkpoint now r)) = se_status (ru_session r)"
  by (simp_all add: save_checkpoint_def Let_def)

lemma session_notify [simp]: "ru_session (notify k i m r) = ru_session r"
  by (simp add: notify_def)

lemma next_readyD: "next_ready steps = Some k \<Longrightarrow> k < length steps \<and> step_ready steps (steps ! k)"
  by (auto simp: next_ready_def find_Some_iff)

lemma next_ready_None: "next_ready steps = None \<longleftrightarrow> (\<forall>s \<in> set steps. \<not> step_ready steps s)"
  by (simp add: next_ready_def find_None_iff all_set_conv_all_nth)

lemma start_step_steps [simp]:
  "se_steps (ru_session (start_step w k r)) = (se_steps (ru_session r))[k := (se_steps (ru_session r) ! k)\<lparr>ps_phase := Running_Step\<rparr>]"
  by (simp add: start_step_def set_step_def Let_def)

lemma complete_step_steps [simp]:
  "se_steps (ru_session (complete_step_at w k out ms r)) =
     (se_steps (ru_session r))[k := (se_steps (ru_session r) ! k)\<lparr>ps_phase := Completed_Step, ps_evidence := Some out, ps_duration := ms\<rparr>]"
  by (simp add: complete_step_at_def set_step_def Let_def)

lemma pending_decreases:
  assumes "next_ready (se_steps (ru_session r)) = Some k"
  shows "pending_count (complete_step_at w k out ms (start_step w k r)) < pending_count r"
proof -
  let ?xs = "se_steps (ru_session r)"
  have k: "k < length ?xs" "\<not> is_done (?xs ! k)" using next_readyD [OF assms] by (auto simp: step_ready_def)
  define y where "y = (?xs ! k)\<lparr>ps_phase := Completed_Step, ps_evidence := Some out, ps_duration := ms\<rparr>"
  have y: "is_done y" by (simp add: y_def is_done_def)
  have xs: "?xs = take k ?xs @ ?xs ! k # drop (Suc k) ?xs" using k(1) by (simp add: id_take_nth_drop)
  have "length (filter (\<lambda>s. \<not> is_done s) ?xs) = length (filter (\<lambda>s. \<not> is_done s) (take k ?xs @ ?xs ! k # drop (Suc k) ?xs))"
    using xs by simp
  then have "length (filter (\<lambda>s. \<not> is_done s) (?xs[k := y])) < length (filter (\<lambda>s. \<not> is_done s) ?xs)"
    unfolding upd_conv_take_nth_drop [OF k(1)] by (simp add: y k(2))
  then show ?thesis using k(1) by (simp add: pending_count_def y_def)
qed

text \<open>The loop of \<open>execute_goal\<close>. It ends: every pass completes a step or returns.\<close>

function run_loop :: "world \<Rightarrow> nat \<Rightarrow> engine_run \<Rightarrow> engine_run result" where
  "run_loop w n r =
     (let steps = se_steps (ru_session r)
      in if \<forall>s \<in> set steps. is_done s then conclude_goal w r
         else case next_ready steps of
                None \<Rightarrow> Inr (give_up w r)
              | Some k \<Rightarrow>
                  (let s = steps ! k; r' = start_step w k r
                   in case wo_exec w n (ps_capability s) (ps_payload s) (ps_title s) of
                        Inl err \<Rightarrow> Inr (fail_step_at w k ''Exception: '' err (wo_dur w n) r')
                      | Inr out \<Rightarrow>
                          (case output_error (wo_show w) out of
                             Some (prefix, err) \<Rightarrow> Inr (fail_step_at w k prefix err (wo_dur w n) r')
                           | None \<Rightarrow> run_loop w (Suc n) (complete_step_at w k out (wo_dur w n) r'))))"
  by pat_completeness auto

termination by (relation "measure (\<lambda>(w, n, r). pending_count r)") (auto simp: pending_decreases)

declare run_loop.simps [simp del]

definition fresh_session :: "string \<Rightarrow> string \<Rightarrow> time \<Rightarrow> time \<Rightarrow> plan_step list \<Rightarrow> goal_session" where
  "fresh_session i objective created updated steps =
     \<lparr>se_id = i, se_objective = objective, se_status = ''running'', se_created = created, se_updated = updated, se_steps = steps,
      se_deliverable = None, se_total = length steps, se_completed = 0\<rparr>"

definition execute_goal ::
  "world \<Rightarrow> (string \<Rightarrow> json result) option \<Rightarrow> string \<Rightarrow> string \<Rightarrow> (string \<Rightarrow> goal_session option) \<Rightarrow> engine_run result" where
  "execute_goal w reasoner objective gid files =
     (case files gid of
        None \<Rightarrow>
          andThen (goal_plan (wo_show w) objective reasoner)
            (\<lambda>steps. run_loop w 0 (save_checkpoint (wo_now w)
               \<lparr>ru_session = fresh_session gid objective (wo_now w 0) (wo_now w 1) steps, ru_files = files, ru_log = [], ru_ticks = 2\<rparr>))
      | Some s \<Rightarrow>
          run_loop w 0 (save_checkpoint (wo_now w) (set_status ''running'' \<lparr>ru_session = s, ru_files = files, ru_log = [], ru_ticks = 0\<rparr>)))"

end
