(* ===== verification/GoalEngineRun.thy ===== *)
theory GoalEngineRun
  imports GoalEngine
begin

text \<open>
  Accepted plans can be executed: what the planner accepts has an order in which every step stands
  after its dependencies, so the runner always finds a step that is ready, runs every step once, in
  such an order, and ends with the goal completed when the executor succeeds.
\<close>

section \<open>What the planner accepts\<close>

text \<open>A list, latest first, in which the dependencies of every node stand behind it.\<close>

fun ordered :: "plan_step list \<Rightarrow> string list \<Rightarrow> bool" where
  "ordered g [] = True"
| "ordered g (n # vs) = ((\<exists>ds. deps_of g n = Some ds \<and> set ds \<subseteq> set vs) \<and> ordered g vs)"

lemma visit_nodes_ordered:
  "visit_nodes g visiting ns visited = Inr vs \<Longrightarrow> ordered g visited \<Longrightarrow> ordered g vs \<and> set ns \<subseteq> set vs \<and> set visited \<subseteq> set vs"
proof (induction g visiting ns visited arbitrary: vs rule: visit_nodes.induct)
  case (1 g visiting visited)
  then show ?case by simp
next
  case (2 g visiting n ns visited)
  show ?case
  proof (cases "n \<in> set visited")
    case True
    then have "visit_nodes g visiting ns visited = Inr vs" using 2(4) by (simp split: if_splits)
    then show ?thesis using 2(1) [OF _ True] 2(4,5) True by (auto split: if_splits)
  next
    case False
    obtain ds us where path: "n \<notin> set visiting" and d: "deps_of g n = Some ds"
      and u: "visit_nodes g (n # visiting) ds visited = Inr us" and v: "visit_nodes g visiting ns (n # us) = Inr vs"
      using 2(4) False by (auto split: if_splits option.splits sum.splits)
    have us: "ordered g us \<and> set ds \<subseteq> set us \<and> set visited \<subseteq> set us" by (rule 2(2) [OF path False d u 2(5)])
    then have "ordered g (n # us)" using d by simp
    from 2(3) [OF path False d u v this] us show ?thesis by auto
  qed
qed

definition plan_ok :: "plan_step list \<Rightarrow> bool" where
  "plan_ok steps \<longleftrightarrow> steps \<noteq> [] \<and> distinct (map ps_id steps) \<and> (\<exists>vs. ordered steps vs \<and> ps_id ` set steps \<subseteq> set vs)"

lemma new_step_fields [simp]:
  "ps_id (new_step i t ob c p ds) = i" "ps_phase (new_step i t ob c p ds) = Pending" "ps_deps (new_step i t ob c p ds) = ds"
  by (simp_all add: new_step_def)

lemma collect_steps_ok:
  assumes "collect_steps str objective n xs acc = Inr steps" and "distinct (map ps_id acc)" and "\<forall>s \<in> set acc. ps_phase s = Pending"
  shows "distinct (map ps_id steps) \<and> (\<forall>s \<in> set steps. ps_phase s = Pending)"
  using assms
proof (induction str objective n xs acc rule: collect_steps.induct)
  case (2 str objective n kvs rest acc)
  let ?i = "strip (text_or str (map_of kvs ''id'') (''step_'' @ show_nat n))"
  let ?c = "strip (text_or str (map_of kvs ''capability'') [])"
  show ?case
  proof (cases "?i = [] \<or> ?i \<in> ps_id ` set acc \<or> ?c \<notin> set capabilities")
    case True
    then have "collect_steps str objective (Suc n) rest acc = Inr steps" using 2(3) by (simp add: Let_def)
    then show ?thesis using 2(1) [OF refl refl refl refl True] 2(4,5) by blast
  next
    case False
    then obtain p where p: "payload_of (map_of kvs ''payload'') = Inr p" using 2(3) by (auto simp: Let_def)
    from 2(2) [OF refl refl refl refl False, of p] 2(3-5) False p show ?thesis by (auto simp: Let_def)
  qed
qed auto

lemma check_graph_ok:
  assumes "check_graph steps = Inr out" and "steps \<noteq> []" and "distinct (map ps_id steps)"
  shows "out = steps \<and> plan_ok steps"
proof -
  have "\<not> (\<exists>s \<in> set steps. \<not> set (ps_deps s) \<subseteq> ps_id ` set steps)"
    using assms(1) unfolding check_graph_def by (rule contrapos_pn) (simp only: if_P sum.distinct not_False_eq_True)
  then have "andThen (visit_nodes steps [] (map ps_id steps) []) (\<lambda>_. Inr steps) = Inr out"
    using assms(1) unfolding check_graph_def by (simp only: if_False)
  then obtain vs where v: "visit_nodes steps [] (map ps_id steps) [] = Inr vs" "out = steps"
    by (simp only: andThen_Inr sum.inject) blast
  have "ordered steps []" by simp
  from visit_nodes_ordered [OF v(1) this] have "ordered steps vs" "ps_id ` set steps \<subseteq> set vs" unfolding set_map by blast+
  then show ?thesis using assms(2,3) v(2) unfolding plan_ok_def by (intro conjI exI [of _ vs])
qed

lemma fallback_ok: "plan_ok (fallback_plan objective) \<and> (\<forall>s \<in> set (fallback_plan objective). ps_phase s = Pending)"
proof -
  have "ordered (fallback_plan objective) [''step_3'', ''step_2'', ''step_1'']" by (simp add: fallback_plan_def deps_of_def)
  moreover have ids: "map ps_id (fallback_plan objective) = [''step_1'', ''step_2'', ''step_3'']" by (simp add: fallback_plan_def)
  moreover have "ps_id ` set (fallback_plan objective) = {''step_1'', ''step_2'', ''step_3''}" using arg_cong [OF ids, of set] by simp
  ultimately have "plan_ok (fallback_plan objective)"
    unfolding plan_ok_def by (intro conjI exI [of _ "[''step_3'', ''step_2'', ''step_1'']"]) (simp_all, auto simp: fallback_plan_def)
  then show ?thesis by (simp add: fallback_plan_def)
qed

lemma goal_plan_ok:
  assumes "goal_plan str objective reasoner = Inr steps"
  shows "plan_ok steps \<and> (\<forall>s \<in> set steps. ps_phase s = Pending)"
proof (cases reasoner)
  case None
  then show ?thesis using assms fallback_ok by (auto simp: goal_plan_def split: if_splits)
next
  case (Some ask)
  then obtain v where v: "validate_model_plan str v (strip objective) = Inr steps" "steps \<noteq> []"
    using assms by (auto simp: goal_plan_def split: if_splits)
  then obtain xs ys where c: "collect_steps str (strip objective) 1 xs [] = Inr ys" "ys \<noteq> []" "check_graph ys = Inr steps"
    by (auto simp: validate_model_plan_def Let_def split: option.splits json.splits if_splits)
  have "distinct (map ps_id ys) \<and> (\<forall>s \<in> set ys. ps_phase s = Pending)" by (rule collect_steps_ok [OF c(1)]) simp_all
  with check_graph_ok [OF c(3,2)] show ?thesis by simp
qed

section \<open>A step is always ready\<close>

text \<open>What a run does not change of a plan.\<close>

definition shape :: "plan_step list \<Rightarrow> (string \<times> string list) list" where
  "shape steps = map (\<lambda>s. (ps_id s, ps_deps s)) steps"

lemma shape_ids: "shape steps = shape steps' \<Longrightarrow> map ps_id steps = map ps_id steps'"
proof -
  assume "shape steps = shape steps'"
  then have "map fst (shape steps) = map fst (shape steps')" by simp
  then show ?thesis by (simp add: shape_def comp_def)
qed

lemma deps_of_shape: "shape steps = shape steps' \<Longrightarrow> deps_of steps i = deps_of steps' i"
proof (induction steps arbitrary: steps')
  case (Cons s ss)
  then obtain t ts where "steps' = t # ts" "ps_id s = ps_id t" "ps_deps s = ps_deps t" "shape ss = shape ts"
    by (cases steps') (auto simp: shape_def)
  with Cons.IH [of ts] show ?case by (auto simp: deps_of_def)
qed (simp add: shape_def)

lemma ordered_shape: "shape steps = shape steps' \<Longrightarrow> ordered steps vs = ordered steps' vs"
proof (induction vs)
  case (Cons n vs)
  then show ?case by (simp only: ordered.simps deps_of_shape [OF Cons.prems])
qed simp

lemma plan_ok_shape:
  assumes "shape steps = shape steps'" and "plan_ok steps"
  shows "plan_ok steps'"
proof -
  have "ps_id ` set steps = ps_id ` set steps'" using arg_cong [OF shape_ids [OF assms(1)], of set] by simp
  moreover have "steps' \<noteq> []" using assms by (auto simp: shape_def plan_ok_def)
  ultimately show ?thesis using assms(2) shape_ids [OF assms(1)] ordered_shape [OF assms(1)] by (simp add: plan_ok_def)
qed

lemma deps_of_Some: "deps_of steps n = Some ds \<Longrightarrow> \<exists>s \<in> set steps. ps_id s = n \<and> ps_deps s = ds"
  by (auto simp: deps_of_def find_Some_iff)

lemma ordered_minimal:
  assumes "ordered steps vs" and "\<exists>n \<in> set vs. n \<notin> D"
  shows "\<exists>n ds. n \<in> set vs \<and> n \<notin> D \<and> deps_of steps n = Some ds \<and> set ds \<subseteq> D"
  using assms
proof (induction vs)
  case (Cons m vs)
  show ?case
  proof (cases "\<exists>n \<in> set vs. n \<notin> D")
    case True
    with Cons show ?thesis by auto
  next
    case False
    then have "m \<notin> D" "set vs \<subseteq> D" using Cons.prems(2) by auto
    then show ?thesis using Cons.prems(1) by auto
  qed
qed simp

lemma done_idsD: "distinct (map ps_id steps) \<Longrightarrow> s \<in> set steps \<Longrightarrow> ps_id s \<in> done_ids steps \<longleftrightarrow> is_done s"
proof
  assume d: "distinct (map ps_id steps)" and s: "s \<in> set steps" and "ps_id s \<in> done_ids steps"
  then obtain t where t: "t \<in> set steps" "is_done t" "ps_id s = ps_id t" by (auto simp: done_ids_def)
  have "s = t" using d by (intro inj_onD [OF _ t(3) s t(1)]) (simp add: distinct_map)
  then show "is_done s" using t(2) by simp
qed (simp add: done_ids_def)

lemma ready_exists:
  assumes "plan_ok steps" and "\<exists>s \<in> set steps. \<not> is_done s"
  shows "next_ready steps \<noteq> None"
proof -
  from assms(1) obtain vs where vs: "ordered steps vs" "ps_id ` set steps \<subseteq> set vs" and d: "distinct (map ps_id steps)"
    by (auto simp: plan_ok_def)
  from assms(2) obtain s where s: "s \<in> set steps" "\<not> is_done s" by blast
  then have "\<exists>n \<in> set vs. n \<notin> done_ids steps" using vs(2) done_idsD [OF d] by blast
  from ordered_minimal [OF vs(1) this] obtain n ds
    where n: "n \<notin> done_ids steps" "deps_of steps n = Some ds" "set ds \<subseteq> done_ids steps" by blast
  then obtain t where t: "t \<in> set steps" "ps_id t = n" "ps_deps t = ds" using deps_of_Some by blast
  have "\<not> is_done t" using n(1) t done_idsD [OF d t(1)] by simp
  moreover have "\<exists>u \<in> set steps. is_done u \<and> ps_id u = x" if "x \<in> set ds" for x using n(3) that by (auto simp: done_ids_def)
  ultimately have "step_ready steps t" using t(3) by (simp add: step_ready_def)
  then show ?thesis using t(1) by (auto simp: next_ready_None)
qed

section \<open>The run\<close>

definition starts :: "goal_notice list \<Rightarrow> string list" where
  "starts ns = concat (map (\<lambda>x. case x of Notice k i m \<Rightarrow> if k = ''step_start'' then [i] else []) ns)"

definition in_order :: "plan_step list \<Rightarrow> string list \<Rightarrow> bool" where
  "in_order steps xs \<longleftrightarrow> (\<forall>k < length xs. \<forall>ds. deps_of steps (xs ! k) = Some ds \<longrightarrow> set ds \<subseteq> set (take k xs))"

definition run_ok :: "engine_run \<Rightarrow> bool" where
  "run_ok r \<longleftrightarrow> plan_ok (se_steps (ru_session r)) \<and> distinct (starts (ru_log r))
     \<and> set (starts (ru_log r)) = done_ids (se_steps (ru_session r)) \<and> in_order (se_steps (ru_session r)) (starts (ru_log r))"

lemma in_order_snoc:
  assumes "in_order steps xs" and "\<And>ds. deps_of steps i = Some ds \<Longrightarrow> set ds \<subseteq> set xs"
  shows "in_order steps (xs @ [i])"
  using assms by (auto simp: in_order_def nth_append less_Suc_eq)

lemma log_fields [simp]:
  "ru_log (save_checkpoint now r) = ru_log r" "ru_log (set_step k f r) = ru_log r" "ru_log (set_status s r) = ru_log r"
  "ru_log (notify kind i m r) = ru_log r @ [Notice kind i m]"
  by (simp_all add: save_checkpoint_def set_step_def set_status_def notify_def Let_def)

lemma starts_append [simp]: "starts (xs @ ys) = starts xs @ starts ys"
  by (simp add: starts_def)

lemma starts_rec [simp]: "starts [] = []" "starts (Notice k i m # ns) = (if k = ''step_start'' then i # starts ns else starts ns)"
  by (simp_all add: starts_def)

lemma pass_ok:
  fixes w :: world and out :: json and ms :: int
  assumes ok: "run_ok r" and k: "next_ready (se_steps (ru_session r)) = Some k"
  defines "r' \<equiv> complete_step_at w k out ms (start_step w k r)"
  shows "run_ok r' \<and> shape (se_steps (ru_session r')) = shape (se_steps (ru_session r))"
proof -
  let ?xs = "se_steps (ru_session r)" and ?s = "se_steps (ru_session r) ! k"
  define y where "y = ?s\<lparr>ps_phase := Completed_Step, ps_evidence := Some out, ps_duration := ms\<rparr>"
  have len: "k < length ?xs" and ready: "step_ready ?xs ?s" using next_readyD [OF k] by auto
  have d: "distinct (map ps_id ?xs)" using ok by (simp add: run_ok_def plan_ok_def)
  have steps: "se_steps (ru_session r') = ?xs[k := y]" using len by (simp add: r'_def y_def)
  have shape: "shape (?xs[k := y]) = shape ?xs" using len by (simp add: shape_def map_update y_def list_update_same_conv)
  have sid: "ps_id ?s \<notin> done_ids ?xs" using done_idsD [OF d nth_mem [OF len]] ready by (simp add: step_ready_def)
  have y: "is_done y" "ps_id y = ps_id ?s" by (simp_all add: y_def is_done_def)
  have others: "j < length ?xs \<Longrightarrow> j \<noteq> k \<Longrightarrow> ?xs[k := y] ! j = ?xs ! j" for j by simp
  have dones: "done_ids (?xs[k := y]) = insert (ps_id ?s) (done_ids ?xs)"
  proof -
    have "set (?xs[k := y]) = insert y (set ?xs - {?s})"
      using set_update_distinct [of ?xs k y] d len by (simp add: distinct_map)
    then have "{s \<in> set (?xs[k := y]). is_done s} = insert y {s \<in> set ?xs. is_done s}"
      using y(1) ready by (auto simp: step_ready_def)
    then show ?thesis using y(2) by (simp add: done_ids_def)
  qed
  have log: "starts (ru_log r') = starts (ru_log r) @ [ps_id ?s]"
    using len by (simp add: r'_def complete_step_at_def start_step_def set_step_def Let_def)
  have "set ds \<subseteq> set (starts (ru_log r))" if ds: "deps_of ?xs (ps_id ?s) = Some ds" for ds
  proof -
    obtain t where "t \<in> set ?xs" "ps_id t = ps_id ?s" "ps_deps t = ds" using deps_of_Some [OF ds] by blast
    then have "t = ?s" using d nth_mem [OF len] by (metis distinct_map inj_onD)
    then show ?thesis using ready \<open>ps_deps t = ds\<close> ok by (auto simp: step_ready_def run_ok_def done_ids_def)
  qed
  then have "in_order ?xs (starts (ru_log r'))" using ok log in_order_snoc by (simp add: run_ok_def)
  then have "in_order (?xs[k := y]) (starts (ru_log r'))" using deps_of_shape [OF shape] by (simp add: in_order_def)
  moreover have "plan_ok (?xs[k := y])" using plan_ok_shape [OF shape [symmetric]] ok by (simp add: run_ok_def)
  ultimately show ?thesis using ok log dones sid shape by (simp add: run_ok_def steps)
qed

lemma pass_id [simp]: "se_id (ru_session (complete_step_at w k out ms (start_step w k r))) = se_id (ru_session r)"
  by (simp add: complete_step_at_def start_step_def set_step_def Let_def)

definition always_succeeds :: "world \<Rightarrow> bool" where
  "always_succeeds w \<longleftrightarrow> (\<forall>n c p t. \<exists>out. wo_exec w n c p t = Inr out \<and> output_error (wo_show w) out = None)"

lemma run_loop_completes:
  assumes "always_succeeds w" and "run_ok r"
  shows "\<exists>r'. run_loop w n r = Inr r' \<and> run_ok r' \<and> shape (se_steps (ru_session r')) = shape (se_steps (ru_session r)) \<and>
    (\<forall>s \<in> set (se_steps (ru_session r')). is_done s) \<and> se_status (ru_session r') = ''completed'' \<and>
    se_id (ru_session r') = se_id (ru_session r) \<and> ru_files r' (se_id (ru_session r)) = Some (ru_session r')"
  using assms
proof (induction w n r rule: run_loop.induct)
  case (1 w n r)
  let ?xs = "se_steps (ru_session r)"
  have ne: "?xs \<noteq> []" using 1(3) by (simp add: run_ok_def plan_ok_def)
  show ?case
  proof (cases "\<forall>s \<in> set ?xs. is_done s")
    case True
    then have "run_loop w n r = conclude_goal w r" by (simp add: run_loop.simps)
    then show ?thesis using True ne 1(3)
      by (simp add: conclude_goal_def save_checkpoint_def notify_def run_ok_def Let_def)
  next
    case False
    then obtain k where k: "next_ready ?xs = Some k" using ready_exists [of ?xs] 1(3) by (auto simp: run_ok_def)
    obtain out where out: "wo_exec w n (ps_capability (?xs ! k)) (ps_payload (?xs ! k)) (ps_title (?xs ! k)) = Inr out"
      "output_error (wo_show w) out = None" using 1(2) unfolding always_succeeds_def by blast
    let ?r = "complete_step_at w k out (wo_dur w n) (start_step w k r)"
    have "run_loop w n r = run_loop w (Suc n) ?r" using k out by (subst run_loop.simps) (simp add: Let_def if_not_P [OF False])
    then show ?thesis using 1(1) [OF refl False k refl refl out 1(2)] pass_ok [OF 1(3) k, of w out "wo_dur w n"] by auto
  qed
qed

lemma execute_goal_completes:
  assumes plan: "goal_plan (wo_show w) objective reasoner = Inr steps" and "files gid = None" and "always_succeeds w"
  shows "\<exists>r. execute_goal w reasoner objective gid files = Inr r \<and> run_ok r \<and> shape (se_steps (ru_session r)) = shape steps \<and>
    (\<forall>s \<in> set (se_steps (ru_session r)). is_done s) \<and> se_status (ru_session r) = ''completed'' \<and> ru_files r gid = Some (ru_session r)"
proof -
  let ?r = "save_checkpoint (wo_now w) \<lparr>ru_session = fresh_session gid objective (wo_now w 0) (wo_now w 1) steps,
     ru_files = files, ru_log = [], ru_ticks = 2\<rparr>"
  have ok: "plan_ok steps" "\<forall>s \<in> set steps. ps_phase s = Pending" using goal_plan_ok [OF plan] by simp_all
  have "done_ids steps = {}" using ok(2) by (auto simp: done_ids_def is_done_def)
  then have "run_ok ?r" using ok(1) by (simp add: run_ok_def fresh_session_def in_order_def)
  from run_loop_completes [OF assms(3) this, of 0] show ?thesis
    using assms(2) plan by (simp add: execute_goal_def fresh_session_def) blast
qed

end
