(* ===== verification/GoalProps.thy ===== *)
theory GoalProps
  imports GoalRun GoalEngineRun
begin

text \<open>The properties of the ledger of durable goals (\<open>native_goals.py\<close>) and of the goal engine (\<open>goal_engine.py\<close>).\<close>

section \<open>The ledger\<close>

text \<open>C39: one worker per project. In every state of the goal ledger, whatever users, workers with stale rows and the
  supervisor do, two goals of one project are never leased at the same time; a goal that runs or waits for an approval is
  leased; and a goal that is queued, ready for review, blocked or completed is not.\<close>

theorem one_cycle_per_project:
  assumes "os_stable os" and "reach (goal_step str os current enc) no_goals db"
  shows "(\<forall>g \<in> set (goals db). \<forall>h \<in> set (goals db). gl_lease g \<noteq> None \<and> gl_lease h \<noteq> None \<and> gl_key g = gl_key h \<longrightarrow> g = h) \<and>
    (\<forall>g \<in> set (goals db). goal_active (gl_state g) \<longrightarrow> gl_lease g \<noteq> None) \<and>
    (\<forall>g \<in> set (goals db). gl_state g \<in> {G_Queued, G_Review, G_Blocked, G_Completed} \<longrightarrow> gl_lease g = None)"
proof -
  have ok: "goals_ok os (goals db)" using goal_ledger.inv_reach [OF assms(2)] assms(1) by (simp add: ledger_ok_def)
  have "g = h" if "g \<in> set (goals db)" "h \<in> set (goals db)" "gl_lease g \<noteq> None" "gl_lease h \<noteq> None" "gl_key g = gl_key h" for g h
    using key_inj [OF goals_okD(1) [OF ok] that(1,2)] goals_okD(4) [OF ok that] by simp
  moreover have "goal_active (gl_state g) \<Longrightarrow> gl_lease g \<noteq> None"
    "gl_state g \<in> {G_Queued, G_Review, G_Blocked, G_Completed} \<Longrightarrow> gl_lease g = None" if "g \<in> set (goals db)" for g
    using goals_okD(2) [OF ok that] by (auto simp: row_ok_def)
  ultimately show ?thesis by (intro conjI ballI impI) ((elim conjE)?, assumption)+
qed

definition ex_os :: os where
  "ex_os = \<lparr>os_nt = False, os_absolute = (\<lambda>p. starts_with p ''/''), os_strict = Inr, os_resolve = (\<lambda>p. p), os_is_dir = (\<lambda>_. True),
     os_normcase = (\<lambda>p. p), os_site = (\<lambda>_. False)\<rparr>"

definition ex_goal_env :: "int \<Rightarrow> env" where
  "ex_goal_env t = \<lparr>clk = (\<lambda>n. t + int n), uuid = (\<lambda>p. ''id'' @ concat (map show_nat p)), secret = (\<lambda>_. ''s''), sha256 = (\<lambda>s. s), job_repairs = (\<lambda>_. None)\<rparr>"

definition ex_goal_request :: request where
  "ex_goal_request = [(''workspace'', JStr ''/p''), (''objective'', JStr ''Fix it''), (''success_criteria'', JStr ''It runs''),
     (''profile_id'', JStr ''main''), (''time_sensitive'', JBool False), (''identity'', JStr ''g1'')]"

definition ex_goal_spec :: spec where
  "ex_goal_spec = \<lparr>sp_workspace = ''/p'', sp_objective = ''Fix it'', sp_criteria = ''It runs'', sp_profile = ''main'', sp_sandbox = ''read-only'',
     sp_origin_thread = [], sp_kind = ''general'', sp_requirements = [], sp_min_sources = 2, sp_time_sensitive = False, sp_max_output = None,
     sp_max_cycles = 8, sp_max_requests = 30, sp_max_tokens = 500000, sp_cycle_seconds = 900, sp_interval = 30,
     sp_options = \<lparr>op_tools = False, op_workers = False, op_origins = []\<rparr>\<rparr>"

lemma ex_os_stable: "os_stable ex_os"
  by (auto simp: os_stable_def project_folder_def ex_os_def split: if_splits)

lemma ex_goal_spec: "goal_spec (\<lambda>_. []) ex_os ex_goal_request = Inr ex_goal_spec"
proof -
  have strips: "strip ''Fix it'' = ''Fix it''" "strip ''It runs'' = ''It runs''" "strip ''main'' = ''main''" by code_simp+
  show ?thesis
    by (simp add: goal_spec_def ex_goal_request_def ex_goal_spec_def ex_os_def project_folder_def workspace_text_def field_def spec_text_def
        spec_choice_def kinds_def spec_thread_def spec_requirements_def spec_int_def spec_sensitive_def spec_allowance_def spec_budgets_def
        project_options_def option_flag_def spec_origins_def starts_with_def strips Let_def)
qed

definition ex_goal_db :: goal_db where
  "ex_goal_db = goal_event_row 11 ''g1'' ''created'' (JObj [(''summary'', JStr ''Goal queued''), (''access'', JStr ''read-only'')])
     (no_goals\<lparr>goals := [new_goal ''g1'' ex_goal_spec ''/p'' 10]\<rparr>)"

lemma ex_goal_created: "goal_action (\<lambda>_. []) ex_os current (ex_goal_env 10) ''create'' [] ex_goal_request no_goals = Inr (ex_goal_db, ''g1'')"
proof -
  have "goal_identity (ex_goal_env 10) ex_goal_request = Inr ''g1''"
    by (simp add: goal_identity_def ex_goal_request_def field_def ascii_alnum_def)
  moreover have "workspace_key ex_os ''/p'' = ''/p''" by (simp add: workspace_key_def workspace_path_def ex_os_def)
  moreover have "sp_workspace ex_goal_spec = ''/p''" "sp_sandbox ex_goal_spec = ''read-only''" by (simp_all add: ex_goal_spec_def)
  moreover have "clk (ex_goal_env 10) 0 = 10" "clk (ex_goal_env 10) 1 = 11" by (simp_all add: ex_goal_env_def)
  ultimately show ?thesis by (simp add: goal_action_def create_goal_def ex_goal_spec no_goals_def ex_goal_db_def Let_def)
qed

definition ex_goal_claimed :: goal_db where
  "ex_goal_claimed = fst (claim_goal ex_os (ex_goal_env 20) None ex_goal_db)"

lemma ex_goal_reach: "reach (goal_step (\<lambda>_. []) ex_os current enc) no_goals ex_goal_claimed"
proof -
  have "uuid (ex_goal_env 20) [n] \<noteq> []" for n by (simp add: ex_goal_env_def)
  then have "goal_step (\<lambda>_. []) ex_os current enc ex_goal_db ex_goal_claimed"
    unfolding ex_goal_claimed_def by (rule gs_claim [OF _ prod.collapse [symmetric]])
  then show ?thesis
    by (rule reach.more [where step = "goal_step (\<lambda>_. []) ex_os current enc",
          OF reach.more [where step = "goal_step (\<lambda>_. []) ex_os current enc", OF reach.start gs_action [OF ex_goal_created]]])
qed

theorem one_cycle_per_project_witness: "\<exists>g. g \<in> set (goals ex_goal_claimed) \<and> gl_state g = G_Running \<and> gl_lease g \<noteq> None"
proof -
  have "map gl_state (goals ex_goal_claimed) = [G_Running]" by code_simp
  then obtain g where "goals ex_goal_claimed = [g]" "gl_state g = G_Running" by auto
  then show ?thesis using one_cycle_per_project [OF ex_os_stable ex_goal_reach] by (simp add: goal_active_def)
qed

text \<open>C40: only the user completes a goal. Whatever step the ledger takes, a goal that is completed after it was completed
  before, or was ready for review without a lease and passed the outcome checks of the acceptance: no result of a worker,
  recovery or other request completes a goal.\<close>

theorem completion_needs_acceptance:
  assumes "goal_step str os current enc db db'" and "x \<in> set (goals db')" and "gl_state x = G_Completed"
  shows "\<exists>y \<in> set (goals db). gl_id y = gl_id x \<and> (gl_state y = G_Completed \<or>
    (\<exists>g \<in> set (goals db). gl_state g = G_Review \<and> gl_id g = gl_id x \<and> opt_or (gl_lease g) [] = [] \<and> validate_acceptance current g = Inr ()))"
  using step_completed [OF assms] .

definition ex_review_db :: goal_db where
  "ex_review_db = no_goals\<lparr>goals := [(new_goal ''g1'' ex_goal_spec ''/p'' 10)\<lparr>gl_state := G_Review\<rparr>]\<rparr>"

definition ex_accepted_db :: goal_db where
  "ex_accepted_db = fst (projr (goal_action (\<lambda>_. []) ex_os (\<lambda>_ _. None) (ex_goal_env 40) ''accept'' ''g1'' [] ex_review_db))"

theorem completion_needs_acceptance_witness:
  "\<exists>y. y \<in> set (goals ex_review_db) \<and> gl_id y = ''g1'' \<and> validate_acceptance (\<lambda>_ _. None) y = Inr ()"
proof -
  let ?r = "goal_action (\<lambda>_. []) ex_os (\<lambda>_ _. None) (ex_goal_env 40) ''accept'' ''g1'' [] ex_review_db"
  have "\<not> isl ?r" by code_simp
  then have "?r = Inr (ex_accepted_db, snd (projr ?r))" by (cases ?r) (auto simp: ex_accepted_db_def)
  then have step: "goal_step (\<lambda>_. []) ex_os (\<lambda>_ _. None) (\<lambda>_. JNull) ex_review_db ex_accepted_db" by (rule gs_action)
  have "map (\<lambda>g. (gl_id g, gl_state g)) (goals ex_accepted_db) = [(''g1'', G_Completed)]" by code_simp
  then obtain x where "goals ex_accepted_db = [x]" "gl_id x = ''g1''" "gl_state x = G_Completed" by auto
  then obtain y where "y \<in> set (goals ex_review_db)" "gl_id y = ''g1''"
      "gl_state y = G_Completed \<or> (\<exists>g \<in> set (goals ex_review_db). gl_state g = G_Review \<and> gl_id g = ''g1'' \<and> validate_acceptance (\<lambda>_ _. None) g = Inr ())"
    using completion_needs_acceptance [OF step, of x] by auto
  then show ?thesis by (auto simp: ex_review_db_def)
qed

section \<open>The engine\<close>





end
