(* ===== verification/LocalSkills.thy ===== *)
theory LocalSkills
  imports Workspace
begin

text \<open>
  \<open>src/smara/local_agent.py\<close>, the contract of local capabilities: the installed skills with their limits
  (their descriptions and result schemas, which nothing inspects, are left out), the protocol check of a
  step before it may run (\<open>validate_local_step\<close>) and the metadata put on its result. Encoding and decoding
  of JSON text are parameters.
\<close>

section \<open>Python dictionaries\<close>

text \<open>\<open>d.get(k)\<close>: \<open>JNull\<close> for a missing key. \<open>a or b\<close>.\<close>

definition py_get :: "string \<Rightarrow> json \<Rightarrow> json" where
  "py_get k d = (case jget k d of None \<Rightarrow> JNull | Some v \<Rightarrow> v)"

definition py_or :: "json \<Rightarrow> json \<Rightarrow> json" where
  "py_or a b = (if truth a then a else b)"

fun is_obj :: "json \<Rightarrow> bool" where
  "is_obj (JObj _) = True"
| "is_obj _ = False"

text \<open>Membership in a set hashes the value, and lists and objects have no hash.\<close>

definition unhashable :: "json \<Rightarrow> bool" where
  "unhashable v \<longleftrightarrow> (case v of JArr _ \<Rightarrow> True | JObj _ \<Rightarrow> True | _ \<Rightarrow> False)"

text \<open>\<open>d.setdefault(k, v)\<close> and \<open>d[k] = v\<close> on the items of a dictionary.\<close>

definition set_default :: "string \<Rightarrow> json \<Rightarrow> (string \<times> json) list \<Rightarrow> (string \<times> json) list" where
  "set_default k v kvs = (if map_of kvs k = None then kvs @ [(k, v)] else kvs)"

fun set_item :: "string \<Rightarrow> json \<Rightarrow> (string \<times> json) list \<Rightarrow> (string \<times> json) list" where
  "set_item k v [] = [(k, v)]"
| "set_item k v ((k', v') # kvs) = (if k = k' then (k, v) # kvs else (k', v') # set_item k v kvs)"

lemma map_of_set_item [simp]: "map_of (set_item k v kvs) k' = (if k' = k then Some v else map_of kvs k')"
  by (induction kvs) auto

lemma map_of_set_default: "map_of (set_default k v kvs) k' = (if k' = k \<and> map_of kvs k = None then Some v else map_of kvs k')"
  by (auto simp: set_default_def map_add_def split: option.splits)

section \<open>Installed skills\<close>

record local_skill =
  ls_capability :: string
  ls_approval :: string
  ls_timeout :: int
  ls_output :: int
  ls_artifact :: int
  ls_side :: bool

definition skill_of :: "string \<Rightarrow> int \<Rightarrow> int \<Rightarrow> bool \<Rightarrow> local_skill" where
  "skill_of c timeout out side =
     \<lparr>ls_capability = c, ls_approval = ''task'', ls_timeout = timeout, ls_output = out,
      ls_artifact = 8 * 1024 * 1024, ls_side = side\<rparr>"

definition local_skills :: "local_skill list" where
  "local_skills =
     [skill_of ''local_file_read'' 15 (256 * 1024) False,
      skill_of ''local_file_write'' 60 40000 True,
      skill_of ''local_terminal'' 60 32000 True,
      (skill_of ''local_browser'' 30 16000 True)\<lparr>ls_artifact := 50 * 1024 * 1024\<rparr>,
      skill_of ''local_integration'' 30 16000 False,
      skill_of ''local_media'' 90 64000 False,
      skill_of ''local_graph'' 30 64000 False,
      skill_of ''local_python'' 30 64000 True,
      skill_of ''local_calculate'' 10 16000 False,
      skill_of ''local_semantic_search'' 15 64000 False,
      skill_of ''local_git'' 30 64000 True,
      skill_of ''local_refactor'' 60 64000 True,
      skill_of ''local_test_fixer'' 60 64000 True,
      skill_of ''sandbox_execute'' 120 64000 True]"

definition skill_names :: "string list" where
  "skill_names = map ls_capability local_skills"

definition base_skills :: "string list" where
  "base_skills = [''local_file_read'', ''local_file_write'', ''local_terminal'', ''local_browser'', ''local_integration'',
     ''local_media'', ''local_calculate'', ''local_graph'', ''local_python'']"

definition local_skill_catalog :: "bool \<Rightarrow> local_skill list" where
  "local_skill_catalog extended = filter (\<lambda>k. extended \<or> ls_capability k \<in> set base_skills) local_skills"

definition skill_spec :: "string \<Rightarrow> local_skill result" where
  "skill_spec c =
     (case find (\<lambda>k. ls_capability k = c) local_skills of
        None \<Rightarrow> Inl (RuntimeError (''Local capability '' @ [CHR 0x27] @ c @ [CHR 0x27] @ '' has no installed skill contract.''))
      | Some k \<Rightarrow> Inr k)"

section \<open>The protocol check\<close>

definition declared_key :: "string \<Rightarrow> json \<Rightarrow> json \<Rightarrow> json" where
  "declared_key c st payload =
     (let key = py_or (py_get ''idempotency_key'' st) (py_get ''idempotency_key'' payload)
      in if key = JNull then JStr (''local-direct:'' @ c) else key)"

definition checked_key :: "json \<Rightarrow> string result" where
  "checked_key key =
     (case key of
        JStr s \<Rightarrow> if strip s = [] \<or> length s > 240 then Inl (RuntimeError ''Local skill idempotency_key is invalid.'') else Inr s
      | _ \<Rightarrow> Inl (RuntimeError ''Local skill idempotency_key is invalid.''))"

definition check_job_scope :: "(json \<Rightarrow> ws_job option) \<Rightarrow> string \<Rightarrow> json \<Rightarrow> unit result" where
  "check_job_scope coerce c payload =
     (case jget ''workspace_job'' payload of
        None \<Rightarrow> Inr ()
      | Some doc \<Rightarrow>
          andThen (validate_workspace_job coerce doc)
            (\<lambda>j. if c \<in> set (jb_caps j) then Inr ()
                 else Inl (RuntimeError ''The local capability is not allowed by workspace_job.'')))"

text \<open>\<open>encoded\<close> is the number of bytes of the payload's JSON text, \<open>None\<close> when it cannot be encoded.\<close>

definition check_size :: "(json \<Rightarrow> nat option) \<Rightarrow> json \<Rightarrow> unit result" where
  "check_size encoded payload =
     (case encoded payload of
        None \<Rightarrow> Inl (RuntimeError ''Local skill input is not JSON serializable.'')
      | Some n \<Rightarrow> if n > 64 * 1024 then Inl (RuntimeError ''Local skill input exceeds the 64 KB limit.'') else Inr ())"

definition validate_local_step ::
  "(json \<Rightarrow> ws_job option) \<Rightarrow> (json \<Rightarrow> nat option) \<Rightarrow> json \<Rightarrow> (local_skill \<times> string) result" where
  "validate_local_step coerce encoded st =
     (case py_get ''required_capability'' st of
        JStr c \<Rightarrow>
          (if strip c = [] then Inl (RuntimeError ''Local steps must declare a required capability.'')
           else andThen (skill_spec c) (\<lambda>spec.
             let payload = py_get ''executor_payload'' st in
             if \<not> is_obj payload then Inl (RuntimeError ''The local skill input must be an object.'')
             else andThen (checked_key (declared_key c st payload)) (\<lambda>key.
                  andThen (check_size encoded payload) (\<lambda>_.
                  if py_get ''skill'' payload \<notin> {JNull, JStr c}
                  then Inl (RuntimeError ''Local skill input names a different capability.'')
                  else andThen (check_job_scope coerce c payload) (\<lambda>_. Inr (spec, strip key))))))
      | _ \<Rightarrow> Inl (RuntimeError ''Local steps must declare a required capability.''))"

definition decorate_local_result ::
  "(string \<Rightarrow> json option) \<Rightarrow> (json \<Rightarrow> string) \<Rightarrow> string \<Rightarrow> local_skill \<Rightarrow> string \<Rightarrow> string" where
  "decorate_local_result parse dump raw spec key =
     (case parse raw of
        Some (JObj kvs) \<Rightarrow>
          dump (JObj
            (set_default ''limits''
               (JObj [(''timeout_seconds'', JNum (ls_timeout spec)), (''max_output_bytes'', JNum (ls_output spec)),
                      (''max_artifact_bytes'', JNum (ls_artifact spec))])
            (set_default ''failure_state'' (JStr ''completed'')
            (set_default ''idempotency_key'' (JStr key)
            (set_default ''skill'' (JStr (ls_capability spec)) kvs)))))
      | _ \<Rightarrow> raw)"

section \<open>Facts\<close>

lemma skill_spec_Inr: "skill_spec c = Inr k \<Longrightarrow> k \<in> set local_skills \<and> ls_capability k = c"
  by (auto simp: skill_spec_def find_Some_iff split: option.splits)

lemma skill_spec_known: "(\<exists>k. skill_spec c = Inr k) \<longleftrightarrow> c \<in> set skill_names"
  by (auto simp: skill_spec_def skill_names_def find_Some_iff find_None_iff split: option.splits)

text \<open>The five capabilities of a workspace job are installed skills; the converse fails.\<close>

lemma job_capabilities_installed: "set local_capabilities \<subseteq> set skill_names"
  by (simp add: local_capabilities_def skill_names_def local_skills_def skill_of_def)

lemma check_job_scope_allowed:
  "check_job_scope coerce c payload = Inr () \<Longrightarrow> jget ''workspace_job'' payload = Some doc \<Longrightarrow>
     \<exists>j. validate_workspace_job coerce doc = Inr j \<and> c \<in> set (jb_caps j)"
  by (auto simp: check_job_scope_def split: if_splits)

text \<open>What an accepted step guarantees.\<close>

lemma validate_local_step_Inr:
  assumes "validate_local_step coerce encoded st = Inr (spec, key)"
  obtains c payload where "py_get ''required_capability'' st = JStr c" "py_get ''executor_payload'' st = payload"
    "is_obj payload" "spec \<in> set local_skills" "ls_capability spec = c" "key \<noteq> []" "length key \<le> 240"
    "check_size encoded payload = Inr ()" "check_job_scope coerce c payload = Inr ()"
proof -
  obtain c where c: "py_get ''required_capability'' st = JStr c"
    using assms by (auto simp: validate_local_step_def split: json.splits)
  let ?p = "py_get ''executor_payload'' st"
  obtain key0 where k: "skill_spec c = Inr spec" "is_obj ?p" "checked_key (declared_key c st ?p) = Inr key0"
      "check_size encoded ?p = Inr ()" "check_job_scope coerce c ?p = Inr ()" "key = strip key0"
    using assms c by (auto simp: validate_local_step_def Let_def split: if_splits)
  have "strip key0 \<noteq> [] \<and> length key0 \<le> 240"
    using k(3) by (auto simp: checked_key_def split: json.splits if_splits)
  with length_strip_le [of key0] have "key \<noteq> []" "length key \<le> 240" using k(6) by auto
  with that [OF c refl k(2)] k skill_spec_Inr [OF k(1)] show thesis by blast
qed

end
