(* ===== verification/Workflow.thy ===== *)
theory Workflow
  imports LocalSkills
begin

text \<open>
  \<open>src/smara/workflow.py\<close>: the contract of a workflow of local stages asked for by the hosted planner. The
  stages are checked one by one and chained: each depends on the one before. \<open>encoded\<close> is the size in bytes
  of a payload's compact JSON text, \<open>None\<close> when it cannot be encoded.
\<close>

definition max_workflow_stages :: nat where "max_workflow_stages = 16"
definition max_stage_bytes :: nat where "max_stage_bytes = 64 * 1024"
definition max_workflow_bytes :: nat where "max_workflow_bytes = 256 * 1024"

definition stage_order :: "string list" where
  "stage_order = [''inspect'', ''plan'', ''edit'', ''run'', ''verify'', ''report'']"

text \<open>\<open>_STAGE_NAME.fullmatch\<close>.\<close>

definition lower_letter :: "char \<Rightarrow> bool" where
  "lower_letter c \<longleftrightarrow> 97 \<le> (of_char c :: nat) \<and> (of_char c :: nat) \<le> 122"

definition stage_char :: "char \<Rightarrow> bool" where
  "stage_char c \<longleftrightarrow> lower_letter c \<or> (48 \<le> (of_char c :: nat) \<and> (of_char c :: nat) \<le> 57) \<or> c = CHR ''_'' \<or> c = CHR ''-''"

definition stage_name :: "string \<Rightarrow> bool" where
  "stage_name s \<longleftrightarrow> s \<noteq> [] \<and> lower_letter (hd s) \<and> (\<forall>c \<in> set (tl s). stage_char c)
     \<and> 1 \<le> length (tl s) \<and> length (tl s) \<le> 31"

definition allowed_stage_keys :: "string list" where
  "allowed_stage_keys = [''stage'', ''capability'', ''payload'']"

definition secret_fields :: "string list" where
  "secret_fields = [''api_key'', ''access_token'', ''refresh_token'', ''password'', ''secret'', ''secret_value'',
     ''authorization'', ''private_key'']"

fun contains_secret_field :: "json \<Rightarrow> bool" where
  "contains_secret_field (JObj kvs) =
     ((\<exists>p \<in> set kvs. lower (strip (fst p)) \<in> set secret_fields) \<or> (\<exists>p \<in> set kvs. contains_secret_field (snd p)))"
| "contains_secret_field (JArr xs) = (\<exists>x \<in> set xs. contains_secret_field x)"
| "contains_secret_field _ = False"

section \<open>One stage\<close>

record wf_stage =
  wf_name :: string
  wf_capability :: string
  wf_payload :: json
  wf_deps :: "int list"

definition check_stage_job :: "(json \<Rightarrow> ws_job option) \<Rightarrow> string \<Rightarrow> json \<Rightarrow> unit result" where
  "check_stage_job coerce c payload =
     (case jget ''workspace_job'' payload of
        None \<Rightarrow> Inr ()
      | Some doc \<Rightarrow>
          (case validate_workspace_job coerce doc of
             Inl (RuntimeError msg) \<Rightarrow> Inl (ValueError msg)
           | Inl err \<Rightarrow> Inl err
           | Inr j \<Rightarrow> if c \<in> set (jb_caps j) then Inr ()
                      else Inl (ValueError ''workspace_job does not allow the workflow stage capability.'')))"

text \<open>The checks of a stage in their order; the result is the stage and the size of its payload.\<close>

definition check_wf_stage ::
  "(json \<Rightarrow> ws_job option) \<Rightarrow> (json \<Rightarrow> nat option) \<Rightarrow> nat \<Rightarrow> json \<Rightarrow> (wf_stage \<times> nat) result" where
  "check_wf_stage coerce encoded index item =
     (case item of
        JObj kvs \<Rightarrow>
          (if fst ` set kvs \<noteq> set allowed_stage_keys
           then Inl (ValueError ''Each workflow stage must contain only stage, capability, and payload.'')
           else
             (case py_get ''stage'' item of
                JStr st \<Rightarrow>
                  (if \<not> stage_name st \<or> st \<notin> set stage_order
                   then Inl (ValueError ''Workflow stage names must be inspect, plan, edit, run, verify, or report.'')
                   else if index = 0 \<and> st \<notin> {''inspect'', ''plan''}
                   then Inl (ValueError ''Workflows must start with an inspect or plan stage.'')
                   else
                     (case py_get ''capability'' item of
                        JStr c \<Rightarrow>
                          (let payload = py_get ''payload'' item in
                           if c \<notin> set skill_names
                           then Inl (ValueError ''Workflow stage capability is not an installed local skill.'')
                           else if \<not> is_obj payload then Inl (ValueError ''Workflow stage payload must be an object.'')
                           else if jget ''workflow'' payload \<noteq> None
                           then Inl (ValueError ''Nested local workflows are not allowed.'')
                           else if contains_secret_field payload
                           then Inl (ValueError ''Local workflow payloads cannot carry credentials; use a local credential alias.'')
                           else andThen (check_stage_job coerce c payload) (\<lambda>_.
                             case encoded payload of
                               None \<Rightarrow> Inl (ValueError ''Workflow stage payload must be JSON serializable.'')
                             | Some n \<Rightarrow>
                                 (if n > max_stage_bytes
                                  then Inl (ValueError ''Workflow stage payload exceeds the 64 KB limit.'')
                                  else Inr (\<lparr>wf_name = st, wf_capability = c, wf_payload = payload,
                                             wf_deps = (if index = 0 then [] else [int index - 1])\<rparr>, n))))
                      | _ \<Rightarrow> Inl (ValueError ''Workflow stage capability is not an installed local skill.'')))
              | _ \<Rightarrow> Inl (ValueError ''Workflow stage names must be inspect, plan, edit, run, verify, or report.'')))
      | _ \<Rightarrow> Inl (ValueError ''Each workflow stage must contain only stage, capability, and payload.''))"

section \<open>The workflow\<close>

fun check_wf_stages ::
  "(json \<Rightarrow> ws_job option) \<Rightarrow> (json \<Rightarrow> nat option) \<Rightarrow> nat \<Rightarrow> nat \<Rightarrow> json list \<Rightarrow> wf_stage list result" where
  "check_wf_stages coerce encoded index used [] = Inr []"
| "check_wf_stages coerce encoded index used (item # rest) =
     andThen (check_wf_stage coerce encoded index item) (\<lambda>(st, n).
       if used + n > max_workflow_bytes then Inl (ValueError ''Workflow payload exceeds the 256 KB limit.'')
       else andThen (check_wf_stages coerce encoded (Suc index) (used + n) rest) (\<lambda>sts. Inr (st # sts)))"

definition validate_workflow ::
  "(json \<Rightarrow> ws_job option) \<Rightarrow> (json \<Rightarrow> nat option) \<Rightarrow> json \<Rightarrow> wf_stage list result" where
  "validate_workflow coerce encoded stages =
     (case stages of
        JArr items \<Rightarrow>
          (if length items < 2 \<or> length items > max_workflow_stages
           then Inl (ValueError ''A local workflow needs 2-16 stages.'')
           else check_wf_stages coerce encoded 0 0 items)
      | _ \<Rightarrow> Inl (ValueError ''A local workflow needs 2-16 stages.''))"

definition summary_items :: "wf_stage list \<Rightarrow> (string \<times> json) list" where
  "summary_items stages =
     [(''stage_count'', JNum (int (length stages))),
      (''stages'', JArr (map (\<lambda>s. JObj [(''stage'', JStr (wf_name s)), (''capability'', JStr (wf_capability s))]) stages))]"

definition workflow_summary :: "wf_stage list \<Rightarrow> json" where
  "workflow_summary stages = JObj (summary_items stages)"

text \<open>The normalized stages as the dictionaries that are handed on.\<close>

definition stage_doc :: "wf_stage \<Rightarrow> json" where
  "stage_doc s = JObj [(''stage'', JStr (wf_name s)), (''capability'', JStr (wf_capability s)),
     (''payload'', wf_payload s), (''depends_on'', JArr (map JNum (wf_deps s)))]"

section \<open>Facts\<close>

definition stage_ok :: "(json \<Rightarrow> ws_job option) \<Rightarrow> nat \<Rightarrow> wf_stage \<Rightarrow> bool" where
  "stage_ok coerce index s \<longleftrightarrow>
     wf_name s \<in> set stage_order \<and> wf_capability s \<in> set skill_names \<and> is_obj (wf_payload s)
     \<and> \<not> contains_secret_field (wf_payload s) \<and> jget ''workflow'' (wf_payload s) = None
     \<and> check_stage_job coerce (wf_capability s) (wf_payload s) = Inr ()
     \<and> (index = 0 \<longrightarrow> wf_name s \<in> {''inspect'', ''plan''})
     \<and> wf_deps s = (if index = 0 then [] else [int index - 1])"

lemma check_wf_stage_ok:
  "check_wf_stage coerce encoded index item = Inr (s, n) \<Longrightarrow> stage_ok coerce index s \<and> n \<le> max_stage_bytes
     \<and> encoded (wf_payload s) = Some n"
  by (auto simp: check_wf_stage_def stage_ok_def Let_def split: json.splits if_splits option.splits)

lemma check_wf_stages_ok:
  "check_wf_stages coerce encoded index used items = Inr sts \<Longrightarrow>
     length sts = length items \<and> (\<forall>k < length sts. stage_ok coerce (index + k) (sts ! k))
     \<and> used + sum_list (map (\<lambda>s. the (encoded (wf_payload s))) sts) \<le> max used max_workflow_bytes"
proof (induction items arbitrary: index used sts)
  case Nil
  then show ?case by simp
next
  case (Cons item rest)
  obtain s n sts' where s: "check_wf_stage coerce encoded index item = Inr (s, n)" "used + n \<le> max_workflow_bytes"
    "check_wf_stages coerce encoded (Suc index) (used + n) rest = Inr sts'" "sts = s # sts'"
    using Cons.prems by (auto split: if_splits)
  note first = check_wf_stage_ok [OF s(1)] and IH = Cons.IH [OF s(3)]
  have "stage_ok coerce (index + k) (sts ! k)" if "k < length sts" for k
    using that first IH s(4) by (cases k) auto
  then show ?case using first IH s(2,4) by auto
qed

text \<open>A payload is accepted alone or not at all: the documents of the normalized stages are refused.\<close>

lemma stage_doc_refused:
  "check_wf_stage coerce encoded index (stage_doc s) =
     Inl (ValueError ''Each workflow stage must contain only stage, capability, and payload.'')"
proof -
  have "''depends_on'' \<in> fst ` set [(''stage'', JStr (wf_name s)), (''capability'', JStr (wf_capability s)),
     (''payload'', wf_payload s), (''depends_on'', JArr (map JNum (wf_deps s)))]" by simp
  moreover have "''depends_on'' \<notin> set allowed_stage_keys" by (simp add: allowed_stage_keys_def)
  ultimately show ?thesis unfolding check_wf_stage_def stage_doc_def by auto
qed

lemma normalized_workflow_refused:
  assumes "validate_workflow coerce encoded stages = Inr sts"
  shows "validate_workflow coerce encoded (JArr (map stage_doc sts)) =
     Inl (ValueError ''Each workflow stage must contain only stage, capability, and payload.'')"
proof -
  obtain items where i: "2 \<le> length items" "length items \<le> max_workflow_stages" "check_wf_stages coerce encoded 0 0 items = Inr sts"
    using assms by (auto simp: validate_workflow_def not_less split: json.splits if_splits)
  then have len: "length sts = length items" using check_wf_stages_ok by blast
  with i(1) obtain s rest where "sts = s # rest" by (cases sts) auto
  with i(1,2) len show ?thesis by (auto simp: validate_workflow_def stage_doc_refused)
qed

end
