(* ===== verification/Streaming.thy ===== *)
theory Streaming
  imports Prelude
begin

text \<open>
  \<open>src/smara/streaming.py\<close>: \<open>append_stream_delta\<close> keeps of a chunk only what the text before it does not
  already end with, for providers that send whole snapshots or repeat a prefix on a resumed connection.
\<close>

section \<open>Overlaps\<close>

text \<open>The longest proper or full prefix of the chunk, of at most \<open>n\<close> characters, that the text ends with.\<close>

fun find_overlap :: "string \<Rightarrow> string \<Rightarrow> nat \<Rightarrow> nat option" where
  "find_overlap current chunk 0 = None"
| "find_overlap current chunk (Suc n) =
     (if ends_with current (take (Suc n) chunk) then Some (Suc n) else find_overlap current chunk n)"

definition space_first :: "string \<Rightarrow> bool" where
  "space_first s \<longleftrightarrow> s \<noteq> [] \<and> py_space (hd s)"

definition overlap_boundary :: "string \<Rightarrow> string \<Rightarrow> nat \<Rightarrow> bool" where
  "overlap_boundary current chunk n \<longleftrightarrow>
     (let suffix = drop n chunk;
          left = (if length current > n then rev current ! n else CHR '' '')
      in 2 \<le> n \<and> (py_space (chunk ! (n - 1)) \<or> space_first suffix \<or> py_space left \<or> chunk ! (n - 1) \<in> set ''.,!?;:)]}''))"

definition single_token_overlap :: "string \<Rightarrow> nat \<Rightarrow> bool" where
  "single_token_overlap chunk n \<longleftrightarrow> n = 1 \<and> space_first (drop n chunk)"

definition append_stream_delta :: "string \<Rightarrow> string \<Rightarrow> string \<times> string" where
  "append_stream_delta current chunk =
     (if chunk = [] then (current, [])
      else if current = [] then (chunk, chunk)
      else if chunk = current \<or> starts_with current chunk then (current, [])
      else if starts_with chunk current then (chunk, drop (length current) chunk)
      else (case find_overlap current chunk (min (length current) (length chunk)) of
              None \<Rightarrow> (current @ chunk, chunk)
            | Some n \<Rightarrow>
                (if overlap_boundary current chunk n \<or> single_token_overlap chunk n
                 then (current @ drop n chunk, drop n chunk)
                 else (current @ chunk, chunk))))"

section \<open>What was sent before stays\<close>

lemma starts_with_append: "starts_with s p \<Longrightarrow> s = p @ drop (length p) s"
  unfolding starts_with_def by (metis append_take_drop_id)

text \<open>The text handed on grows by the delta alone, and the delta is an end of the chunk.\<close>

lemma stream_delta:
  "append_stream_delta current chunk = (text', d) \<Longrightarrow> text' = current @ d \<and> (\<exists>k. d = drop k chunk)"
proof -
  assume a: "append_stream_delta current chunk = (text', d)"
  have whole: "\<exists>k. c = drop k c" for c :: string by (metis drop0)
  have none: "\<exists>k. [] = drop k c" for c :: string by (metis drop_all order_refl)
  show ?thesis
  proof (cases "starts_with chunk current")
    case True
    with a show ?thesis using starts_with_append [OF True]
      by (auto simp: append_stream_delta_def whole none split: if_splits)
  next
    case False
    with a show ?thesis
      by (auto simp: append_stream_delta_def whole none split: if_splits option.splits)
  qed
qed

lemma stream_repeat: "append_stream_delta current current = (current, [])"
  by (simp add: append_stream_delta_def)

text \<open>A snapshot of the whole text is taken as it is.\<close>

lemma stream_snapshot: "append_stream_delta current (current @ rest) = (current @ rest, rest)"
  by (auto simp: append_stream_delta_def starts_with_def)

end
