(* ===== verification/AgentStep.thy ===== *)
theory AgentStep
  imports Streaming LocalSkills Conversations
begin

text \<open>
  \<open>src/smara/agent_step.py\<close>: the bounded loop of one hosted agent step. The model provider, the tools, the
  hook that records events, the clock and the reading of JSON text are the environment; \<open>'s\<close> is the state
  the tools and the hook act on.
\<close>

definition max_agent_iterations :: int where "max_agent_iterations = 15"
definition max_agent_tool_calls :: int where "max_agent_tool_calls = 20"
definition max_agent_output :: nat where "max_agent_output = 32000"
definition max_agent_prompt :: nat where "max_agent_prompt = 64000"
definition max_agent_time :: time where "max_agent_time = 180 * 1000000"

section \<open>Reading the model's decision\<close>

definition lstrip :: "string \<Rightarrow> string" where
  "lstrip s = dropWhile py_space s"

definition strip_ticks :: "string \<Rightarrow> string" where
  "strip_ticks s = rev (dropWhile (\<lambda>c. c = CHR 0x60) (rev (dropWhile (\<lambda>c. c = CHR 0x60) s)))"

text \<open>
  The scan for an embedded object: \<open>seen\<close> is what was read from the opening brace on, latest first. A
  balanced text that is no JSON ends the scan.
\<close>

fun scan_object ::
  "(string \<Rightarrow> json option) \<Rightarrow> string \<Rightarrow> string \<Rightarrow> int \<Rightarrow> bool \<Rightarrow> bool \<Rightarrow> (string \<times> json) list option" where
  "scan_object parse seen [] depth quoted escaped = None"
| "scan_object parse seen (c # cs) depth quoted escaped =
     (if quoted then
        (if escaped then scan_object parse (c # seen) cs depth True False
         else if c = CHR 0x5C then scan_object parse (c # seen) cs depth True True
         else scan_object parse (c # seen) cs depth (c \<noteq> CHR 0x22) False)
      else if c = CHR 0x22 then scan_object parse (c # seen) cs depth True escaped
      else if c = CHR ''{'' then scan_object parse (c # seen) cs (depth + 1) False escaped
      else if c = CHR ''}'' then
        (if depth - 1 = 0 then
           (case parse (rev (c # seen)) of
              None \<Rightarrow> None
            | Some (JObj kvs) \<Rightarrow> Some kvs
            | Some _ \<Rightarrow> scan_object parse (c # seen) cs (depth - 1) False escaped)
         else scan_object parse (c # seen) cs (depth - 1) False escaped)
      else scan_object parse (c # seen) cs depth False escaped)"

definition decision_text :: "string \<Rightarrow> string" where
  "decision_text raw =
     (let s = strip raw in
      if starts_with s [CHR 0x60, CHR 0x60, CHR 0x60]
      then (let t = strip_ticks s in if starts_with t ''json'' then lstrip (drop 4 t) else t)
      else s)"

definition decode_decision :: "(string \<Rightarrow> json option) \<Rightarrow> string \<Rightarrow> (string \<times> json) list option" where
  "decode_decision parse raw =
     (let candidate = decision_text raw in
      case parse candidate of
        Some (JObj kvs) \<Rightarrow> Some kvs
      | _ \<Rightarrow> scan_object parse [] (dropWhile (\<lambda>c. c \<noteq> CHR ''{'') candidate) 0 False False)"

section \<open>The environment of a step\<close>

datatype tool_reply =
    Content string
  | Tool_Timeout
  | Tool_Error string
  | Tool_Raised string

text \<open>What a provider call gives: a text, a timeout, or an exception with its text.\<close>

datatype completion =
    Says string
  | Timed_Out
  | Provider_Raised string

text \<open>
  \<open>ae_stream\<close> is set when a token hook is given: what \<open>stream_complete\<close> sends, and whether it raised after
  that; \<open>None\<close> for a provider without it.
\<close>

record 's agent_env =
  ae_configured :: bool
  ae_mono :: "nat \<Rightarrow> time"
  ae_complete :: "nat \<Rightarrow> string \<Rightarrow> string \<Rightarrow> completion"
  ae_stream :: "(nat \<Rightarrow> string \<Rightarrow> string \<Rightarrow> (string list \<times> bool) option) option"
  ae_specs :: string
  ae_invoke :: "string \<Rightarrow> json \<Rightarrow> 's \<Rightarrow> 's \<times> tool_reply"
  ae_event :: "string \<Rightarrow> json \<Rightarrow> 's \<Rightarrow> 's"
  ae_parse :: "string \<Rightarrow> json option"
  ae_canon :: "json \<Rightarrow> string"

record step_limits =
  sl_iterations :: int
  sl_calls :: int
  sl_time :: time

definition new_limits :: "int \<Rightarrow> int \<Rightarrow> time \<Rightarrow> step_limits" where
  "new_limits iterations calls t =
     \<lparr>sl_iterations = max 1 (min max_agent_iterations iterations),
      sl_calls = max 0 (min max_agent_tool_calls calls),
      sl_time = max 50000 (min max_agent_time t)\<rparr>"

text \<open>
  The state of a run: the readings of the clock and the provider calls so far, the observations, the
  fingerprints of the tool requests that were let through, and the tokens streamed.
\<close>

record 's agent_run =
  ar_state :: 's
  ar_ticks :: nat
  ar_calls :: nat
  ar_observations :: "string list"
  ar_used :: nat
  ar_requested :: "string list"
  ar_tokens :: "string list"

text \<open>\<open>AgentStepError\<close> and the exceptions of the provider, by their text.\<close>

type_synonym 'a step_result = "string + 'a"

definition out_of_time :: string where
  "out_of_time = ''Smara agent exceeded its bounded execution time.''"

definition empty_answer :: string where
  "empty_answer = ''Smara agent provider returned an empty final answer.''"

text \<open>\<open>_remaining\<close>: one reading of the clock.\<close>

definition time_left :: "'s agent_env \<Rightarrow> time \<Rightarrow> 's agent_run \<Rightarrow> bool" where
  "time_left env deadline r \<longleftrightarrow> 0 < deadline - ae_mono env (ar_ticks r)"

abbreviation clocked :: "'s agent_run \<Rightarrow> 's agent_run" where
  "clocked r \<equiv> r\<lparr>ar_ticks := Suc (ar_ticks r)\<rparr>"

definition step_complete ::
  "'s agent_env \<Rightarrow> time \<Rightarrow> string \<Rightarrow> string \<Rightarrow> 's agent_run \<Rightarrow> 's agent_run \<times> string step_result" where
  "step_complete env deadline system message r =
     (if \<not> time_left env deadline r then (clocked r, Inl out_of_time)
      else
        (let r' = (clocked r)\<lparr>ar_calls := Suc (ar_calls r)\<rparr> in
         case ae_complete env (ar_calls r) system message of
           Says s \<Rightarrow> (r', Inr s)
         | Timed_Out \<Rightarrow> (r', Inl out_of_time)
         | Provider_Raised s \<Rightarrow> (r', Inl s)))"

section \<open>Prompts\<close>

definition system_prompt :: "string \<Rightarrow> string" where
  "system_prompt specs =
     ''You are Smara, an autonomous and highly capable AI agent. '' @
     ''Think step by step and use the registered tools to accomplish the task. '' @
     ''When tools return observations, evaluate them carefully and determine the next step. '' @
     ''If a tool returns an error, self-correct and try an alternative approach. '' @
     ''When the objective asks to create, edit, inspect, or run something on the paired '' @
     ''desktop, use desktop.request_action or desktop.request_workflow to schedule approved local work. '' @
     ''For a report, spreadsheet, presentation, or PDF, request local_file_write with create_docx/create_xlsx/create_pptx/create_pdf. '' @
     ''Return exactly one JSON object without markdown fences: '' @
     ''{\"action\":\"tool\",\"name\":\"...\",\"arguments\":{...}} or '' @
     ''{\"action\":\"final\",\"answer\":\"...\"}. '' @
     ''Registered tools:'' @ newline @ specs"

definition observed :: "string list \<Rightarrow> string" where
  "observed obs = (if obs = [] then ''(none)'' else take_last 24000 (join_lines obs))"

definition turn_message :: "string \<Rightarrow> string \<Rightarrow> string list \<Rightarrow> nat \<Rightarrow> int \<Rightarrow> string" where
  "turn_message objective memory obs iteration iterations =
     take max_agent_prompt
       (''Task objective:'' @ newline @ objective @ newline @ newline @
        ''Relevant shared memory:'' @ newline @ or_text (take 16000 memory) ''(none)'' @ newline @ newline @
        ''Tool observations:'' @ newline @ observed obs @ newline @ newline @
        ''Reasoning turn '' @ show_nat (iteration + 1) @ '' of '' @ show_int iterations @ ''.'')"

definition final_message :: "string \<Rightarrow> string list \<Rightarrow> string" where
  "final_message objective obs =
     take max_agent_prompt
       (''Task objective:'' @ newline @ objective @ newline @ newline @
        ''Verified tool observations:'' @ newline @ observed obs @ newline @ newline @
        ''Return only a concise final answer grounded in these observations. Do not claim work you did not perform.'')"

definition stream_system :: string where
  "stream_system =
     ''You are Smara, a concise and honest personal/work agent. Answer the user directly. '' @
     ''Use only the supplied context and verified tool observations. Never claim an external '' @
     ''side effect. Do not expose chain-of-thought and do not return a JSON envelope.''"

definition stream_message :: "string \<Rightarrow> string \<Rightarrow> string list \<Rightarrow> string \<Rightarrow> string" where
  "stream_message objective background obs draft =
     take max_agent_prompt
       (''User request:'' @ newline @ objective @ newline @ newline @
        ''Relevant context:'' @ newline @ or_text (take 16000 background) ''(none)'' @ newline @ newline @
        ''Verified tool observations:'' @ newline @ or_text (take_last 24000 (join_lines obs)) ''(none)'' @ newline @ newline @
        ''Planning draft:'' @ newline @ or_text (take 8000 draft) ''(none)'' @ newline @ newline @
        ''Return only the final answer.'')"

section \<open>Streaming the final answer\<close>

text \<open>The loop over the chunks: the text so far, whether it is held back as an envelope, the tokens sent.\<close>

fun stream_chunks :: "string list \<Rightarrow> string \<times> bool \<times> string list \<Rightarrow> string \<times> bool \<times> string list" where
  "stream_chunks [] acc = acc"
| "stream_chunks (chunk # rest) (streamed, buffering, tokens) =
     (if chunk = [] then stream_chunks rest (streamed, buffering, tokens)
      else if max_agent_output \<le> length streamed then (streamed, buffering, tokens)
      else
        (let bounded = take (max_agent_output - length streamed) (snd (append_stream_delta streamed chunk));
             streamed' = streamed @ bounded;
             buffering' = (buffering \<or> (streamed = [] \<and> starts_with (lstrip streamed') ''{''))
         in stream_chunks rest (streamed', buffering',
              if bounded \<noteq> [] \<and> \<not> buffering' then tokens @ [bounded] else tokens)))"

definition envelope_answer :: "(string \<Rightarrow> json option) \<Rightarrow> string \<Rightarrow> string option" where
  "envelope_answer parse answer =
     (case decode_decision parse answer of
        None \<Rightarrow> None
      | Some kvs \<Rightarrow>
          (if map_of kvs ''action'' = Some (JStr ''final'')
           then (case map_of kvs ''answer'' of Some (JStr s) \<Rightarrow> Some (strip s) | _ \<Rightarrow> None) else None))"

definition settle_stream :: "'s agent_env \<Rightarrow> bool \<Rightarrow> string \<Rightarrow> 's agent_run \<Rightarrow> 's agent_run \<times> string step_result" where
  "settle_stream env buffering streamed r =
     (let answer = strip streamed in
      if answer = [] then (r, Inl empty_answer)
      else (case envelope_answer (ae_parse env) answer of
              None \<Rightarrow> (r, Inr answer)
            | Some a \<Rightarrow> ((if buffering then r\<lparr>ar_tokens := ar_tokens r @ [a]\<rparr> else r), Inr a)))"

definition stream_final ::
  "'s agent_env \<Rightarrow> (nat \<Rightarrow> string \<Rightarrow> string \<Rightarrow> (string list \<times> bool) option) \<Rightarrow> time \<Rightarrow> string \<Rightarrow> string \<Rightarrow> string \<Rightarrow>
   's agent_run \<Rightarrow> 's agent_run \<times> string step_result" where
  "stream_final env stream deadline objective background draft r =
     (let message = stream_message objective background (ar_observations r) draft;
          (r, streamed, buffering, raised) =
            (case stream (ar_calls r) stream_system message of
               None \<Rightarrow> (r, [], False, False)
             | Some (chunks, broke) \<Rightarrow>
                 (if \<not> time_left env deadline r then (clocked r, [], False, True)
                  else (let (streamed, buffering, tokens) = stream_chunks chunks ([], False, ar_tokens r)
                        in ((clocked r)\<lparr>ar_calls := Suc (ar_calls r), ar_tokens := tokens\<rparr>, streamed, buffering, broke))))
      in if raised \<and> streamed \<noteq> [] then (r, Inr (strip streamed))
         else if streamed \<noteq> [] then settle_stream env buffering streamed r
         else
           (case step_complete env deadline stream_system message r of
              (r', Inl x) \<Rightarrow> (r', Inl x)
            | (r', Inr raw) \<Rightarrow>
                (let answer = take max_agent_output (strip raw) in
                 settle_stream env buffering answer
                   (if answer = [] then r' else r'\<lparr>ar_tokens := ar_tokens r' @ [answer]\<rparr>))))"

section \<open>Tool requests\<close>

text \<open>The observation of a request: refused as a repetition, refused over budget, or made.\<close>

definition reply_text :: "tool_reply \<Rightarrow> string \<times> bool" where
  "reply_text reply =
     (case reply of
        Content s \<Rightarrow> (s, True)
      | Tool_Timeout \<Rightarrow> (''Tool timed out inside Smara'' @ [CHR 0x27] @ ''s bounded execution window.'', False)
      | Tool_Error s \<Rightarrow> (''Tool unavailable: '' @ s, False)
      | Tool_Raised kind \<Rightarrow> (''Tool failed safely: '' @ kind @ ''.'', False))"

definition request_tool ::
  "'s agent_env \<Rightarrow> step_limits \<Rightarrow> time \<Rightarrow> string \<Rightarrow> json \<Rightarrow> 's agent_run \<Rightarrow> 's agent_run \<times> string \<times> bool" where
  "request_tool env limits deadline name arguments r =
     (let fingerprint = ae_canon env (JArr [JStr name, arguments]) in
      if fingerprint \<in> set (ar_requested r)
      then (r, ''Repeated identical tool request rejected; use the existing observation or return a final answer.'', False)
      else if sl_calls limits \<le> int (length (ar_requested r))
      then (r, ''Tool-call budget exhausted; return a final answer using the available observations.'', False)
      else
        (let r = r\<lparr>ar_requested := ar_requested r @ [fingerprint]\<rparr> in
         if \<not> time_left env deadline r then (clocked r, reply_text (Tool_Raised ''AgentStepError''))
         else
           (let (s, reply) = ae_invoke env name arguments (ar_state r);
                r = (clocked r)\<lparr>ar_state := s\<rparr>
            in (if snd (reply_text reply) then r\<lparr>ar_used := Suc (ar_used r)\<rparr> else r, reply_text reply))))"

definition emit :: "'s agent_env \<Rightarrow> string \<Rightarrow> json \<Rightarrow> 's agent_run \<Rightarrow> 's agent_run" where
  "emit env kind payload r = r\<lparr>ar_state := ae_event env kind payload (ar_state r)\<rparr>"

definition tool_turn ::
  "'s agent_env \<Rightarrow> step_limits \<Rightarrow> time \<Rightarrow> nat \<Rightarrow> string \<Rightarrow> json \<Rightarrow> 's agent_run \<Rightarrow> 's agent_run" where
  "tool_turn env limits deadline iteration name arguments r =
     (let r = emit env ''agent.tool_requested'' (JObj [(''tool'', JStr name), (''iteration'', JNum (int iteration + 1))]) r;
          (r, observation, ok) = request_tool env limits deadline name arguments r;
          r = emit env ''agent.tool_completed''
                (JObj [(''tool'', JStr name), (''ok'', JBool ok), (''preview'', JStr (take 500 observation))]) r
      in r\<lparr>ar_observations := ar_observations r @ [name @ '': '' @ take 16000 observation]\<rparr>)"

section \<open>The loop\<close>

datatype move =
    Final string
  | Use string "(string \<times> json) list"
  | Refuse string

text \<open>What a decision asks for.\<close>

definition read_move :: "(string \<times> json) list \<Rightarrow> move" where
  "read_move kvs =
     (case map_of kvs ''action'' of
        Some (JStr action) \<Rightarrow>
          (if action = ''final'' then
             (case map_of kvs ''answer'' of
                Some (JStr answer) \<Rightarrow> if strip answer = [] then Refuse empty_answer else Final (strip answer)
              | _ \<Rightarrow> Refuse empty_answer)
           else if action = ''tool'' then
             (case (map_of kvs ''name'', case map_of kvs ''arguments'' of None \<Rightarrow> JObj [] | Some v \<Rightarrow> v) of
                (Some (JStr name), JObj args) \<Rightarrow> Use name args
              | _ \<Rightarrow> Refuse ''Smara agent provider returned invalid tool arguments.'')
           else Refuse ''Smara agent provider returned an unsupported action.'')
      | _ \<Rightarrow> Refuse ''Smara agent provider returned an unsupported action.'')"

datatype turn_end = Go_On | Ended "(string \<times> nat) step_result"

definition final_turn ::
  "'s agent_env \<Rightarrow> time \<Rightarrow> string \<Rightarrow> string \<Rightarrow> string \<Rightarrow> 's agent_run \<Rightarrow> 's agent_run \<times> (string \<times> nat) step_result" where
  "final_turn env deadline objective memory answer r =
     (case ae_stream env of
        None \<Rightarrow> (r, Inr (take max_agent_output answer, ar_used r))
      | Some stream \<Rightarrow>
          (case stream_final env stream deadline objective memory answer r of
             (r', Inl x) \<Rightarrow> (r', Inl x)
           | (r', Inr s) \<Rightarrow> (r', Inr (s, ar_used r'))))"

text \<open>One iteration, after the provider's text \<open>raw\<close> is there.\<close>

definition act_on ::
  "'s agent_env \<Rightarrow> step_limits \<Rightarrow> time \<Rightarrow> string \<Rightarrow> string \<Rightarrow> nat \<Rightarrow> string \<Rightarrow> 's agent_run \<Rightarrow> 's agent_run \<times> turn_end" where
  "act_on env limits deadline objective memory iteration raw r =
     (case decode_decision (ae_parse env) raw of
        None \<Rightarrow>
          (r, Ended (if strip raw \<noteq> [] then Inr (take max_agent_output (strip raw), ar_used r)
                     else Inl ''Smara agent provider returned an empty decision.''))
      | Some kvs \<Rightarrow>
          (case read_move kvs of
             Refuse x \<Rightarrow> (r, Ended (Inl x))
           | Final answer \<Rightarrow> (let (r', outcome) = final_turn env deadline objective memory answer r in (r', Ended outcome))
           | Use name args \<Rightarrow> (tool_turn env limits deadline iteration name (JObj args) r, Go_On)))"

definition ask_decision ::
  "'s agent_env \<Rightarrow> step_limits \<Rightarrow> time \<Rightarrow> string \<Rightarrow> string \<Rightarrow> nat \<Rightarrow> 's agent_run \<Rightarrow> 's agent_run \<times> string step_result" where
  "ask_decision env limits deadline objective memory iteration r =
     step_complete env deadline (system_prompt (take 32000 (ae_specs env)))
       (turn_message objective memory (ar_observations r) iteration (sl_iterations limits)) r"

definition agent_turn ::
  "'s agent_env \<Rightarrow> step_limits \<Rightarrow> time \<Rightarrow> string \<Rightarrow> string \<Rightarrow> nat \<Rightarrow> 's agent_run \<Rightarrow> 's agent_run \<times> turn_end" where
  "agent_turn env limits deadline objective memory iteration r =
     (case ask_decision env limits deadline objective memory iteration r of
        (r', Inl x) \<Rightarrow> (r', Ended (Inl x))
      | (r', Inr raw) \<Rightarrow> act_on env limits deadline objective memory iteration raw r')"

definition last_answer ::
  "'s agent_env \<Rightarrow> time \<Rightarrow> string \<Rightarrow> string \<Rightarrow> 's agent_run \<Rightarrow> 's agent_run \<times> (string \<times> nat) step_result" where
  "last_answer env deadline objective memory r =
     (let (r, outcome) =
            (case ae_stream env of
               Some stream \<Rightarrow> stream_final env stream deadline objective memory [] r
             | None \<Rightarrow>
                 (case step_complete env deadline (system_prompt (take 32000 (ae_specs env)))
                         (final_message objective (ar_observations r)) r of
                    (r, Inl x) \<Rightarrow> (r, Inl x)
                  | (r, Inr raw) \<Rightarrow> (r, Inr (strip raw))))
      in case outcome of
           Inl x \<Rightarrow> (r, Inl x)
         | Inr answer \<Rightarrow>
             (if answer = [] then (r, Inl empty_answer)
              else
                (let answer = (case decode_decision (ae_parse env) answer of
                                 None \<Rightarrow> answer
                               | Some kvs \<Rightarrow> (case map_of kvs ''answer'' of Some (JStr s) \<Rightarrow> s | _ \<Rightarrow> answer))
                 in (r, Inr (take max_agent_output answer, ar_used r)))))"

fun agent_loop ::
  "'s agent_env \<Rightarrow> step_limits \<Rightarrow> time \<Rightarrow> string \<Rightarrow> string \<Rightarrow> nat \<Rightarrow> nat \<Rightarrow> 's agent_run \<Rightarrow>
   's agent_run \<times> (string \<times> nat) step_result" where
  "agent_loop env limits deadline objective memory iteration 0 r = last_answer env deadline objective memory r"
| "agent_loop env limits deadline objective memory iteration (Suc n) r =
     (case agent_turn env limits deadline objective memory iteration r of
        (r', Ended outcome) \<Rightarrow> (r', outcome)
      | (r', Go_On) \<Rightarrow> agent_loop env limits deadline objective memory (Suc iteration) n r')"

definition run_agent_step ::
  "'s agent_env \<Rightarrow> step_limits \<Rightarrow> string \<Rightarrow> string \<Rightarrow> 's \<Rightarrow> 's agent_run \<times> (string \<times> nat) step_result" where
  "run_agent_step env limits task_objective memory s =
     (let r = \<lparr>ar_state = s, ar_ticks = 0, ar_calls = 0, ar_observations = [], ar_used = 0, ar_requested = [], ar_tokens = []\<rparr> in
      if \<not> ae_configured env then (r, Inl ''Smara agent model provider is not configured.'')
      else
        (let deadline = ae_mono env 0 + sl_time limits; r = clocked r;
             objective = take 16000 (strip task_objective)
         in if objective = [] then (r, Inl ''Agent task has no objective.'')
            else agent_loop env limits deadline objective memory 0 (nat (sl_iterations limits)) r))"

section \<open>Bounds of a step\<close>

text \<open>
  What every part of the loop keeps: the requests let through are within the budget and pairwise different,
  and the tools and the hook are the only ones that touch the state.
\<close>

definition requests_ok :: "step_limits \<Rightarrow> 's agent_run \<Rightarrow> bool" where
  "requests_ok limits r \<longleftrightarrow> distinct (ar_requested r) \<and> int (length (ar_requested r)) \<le> max 0 (sl_calls limits)
     \<and> ar_used r \<le> length (ar_requested r)"

lemma requests_ok_ticks [simp]:
  "requests_ok limits (r\<lparr>ar_ticks := t\<rparr>) = requests_ok limits r"
  "requests_ok limits (r\<lparr>ar_calls := c\<rparr>) = requests_ok limits r"
  "requests_ok limits (r\<lparr>ar_tokens := k\<rparr>) = requests_ok limits r"
  "requests_ok limits (r\<lparr>ar_state := s\<rparr>) = requests_ok limits r"
  "requests_ok limits (r\<lparr>ar_observations := obs\<rparr>) = requests_ok limits r"
  by (simp_all add: requests_ok_def)

lemma step_complete_run:
  "step_complete env deadline system message r = (r', x) \<Longrightarrow>
     ar_state r' = ar_state r \<and> ar_requested r' = ar_requested r \<and> ar_used r' = ar_used r
     \<and> ar_observations r' = ar_observations r \<and> ar_calls r' \<le> Suc (ar_calls r)"
  by (auto simp: step_complete_def Let_def split: if_splits completion.splits)

lemma settle_stream_run:
  "settle_stream env buffering streamed r = (r', x) \<Longrightarrow>
     ar_state r' = ar_state r \<and> ar_requested r' = ar_requested r \<and> ar_used r' = ar_used r \<and> ar_calls r' = ar_calls r"
  by (auto simp: settle_stream_def Let_def split: if_splits option.splits)

lemma stream_final_run:
  assumes "stream_final env stream deadline objective background draft r = (r', x)"
  shows "ar_state r' = ar_state r \<and> ar_requested r' = ar_requested r \<and> ar_used r' = ar_used r
    \<and> ar_calls r' \<le> Suc (Suc (ar_calls r))"
  using assms
  by (auto simp: stream_final_def Let_def split: if_splits option.splits prod.splits sum.splits
      dest!: step_complete_run settle_stream_run)

lemma request_tool_ok: "request_tool env limits deadline name arguments r = (r', obs, ok) \<Longrightarrow> requests_ok limits r \<Longrightarrow> requests_ok limits r'"
  by (auto simp: request_tool_def Let_def requests_ok_def reply_text_def split: if_splits prod.splits tool_reply.splits)

lemma tool_turn_ok: "requests_ok limits r \<Longrightarrow> requests_ok limits (tool_turn env limits deadline iteration name arguments r)"
  by (auto simp: tool_turn_def Let_def emit_def split: prod.splits dest: request_tool_ok)

text \<open>Two runs that differ in nothing a tool did, with at most \<open>k\<close> provider calls between them.\<close>

definition quiet :: "nat \<Rightarrow> 's agent_run \<Rightarrow> 's agent_run \<Rightarrow> bool" where
  "quiet k r r' \<longleftrightarrow> ar_state r' = ar_state r \<and> ar_requested r' = ar_requested r \<and> ar_used r' = ar_used r
     \<and> ar_calls r' \<le> ar_calls r + k"

lemma quiet_trans: "quiet j r r1 \<Longrightarrow> quiet k r1 r2 \<Longrightarrow> quiet (j + k) r r2"
  by (auto simp: quiet_def)

lemma quiet_mono: "quiet j r r' \<Longrightarrow> j \<le> k \<Longrightarrow> quiet k r r'"
  by (auto simp: quiet_def)

lemma quiet_refl [simp]: "quiet k r r"
  by (simp add: quiet_def)

lemma quiet_complete: "step_complete env deadline system message r = (r', x) \<Longrightarrow> quiet 1 r r'"
  using step_complete_run [of env deadline system message r r' x] by (simp add: quiet_def)

lemma quiet_stream: "stream_final env stream deadline objective background draft r = (r', x) \<Longrightarrow> quiet 2 r r'"
  using stream_final_run [of env stream deadline objective background draft r r' x] by (simp add: quiet_def)

text \<open>A turn that goes on was a tool turn after one provider call.\<close>

lemma quiet_ask: "ask_decision env limits deadline objective memory iteration r = (r', x) \<Longrightarrow> quiet 1 r r'"
  unfolding ask_decision_def by (rule quiet_complete)

lemma quiet_final_turn: "final_turn env deadline objective memory answer r = (r', x) \<Longrightarrow> quiet 2 r r'"
  by (auto simp: final_turn_def split: option.splits prod.splits sum.splits dest: quiet_stream)

lemma agent_turn_go:
  assumes "agent_turn env limits deadline objective memory iteration r = (r', Go_On)"
  obtains r1 name args where "quiet 1 r r1" "r' = tool_turn env limits deadline iteration name (JObj args) r1"
  using assms
  by (auto simp: agent_turn_def act_on_def split: prod.splits sum.splits option.splits move.splits dest!: quiet_ask)

lemma agent_turn_ended:
  assumes "agent_turn env limits deadline objective memory iteration r = (r', Ended x)"
  shows "quiet 3 r r'"
proof -
  obtain r1 y where c: "ask_decision env limits deadline objective memory iteration r = (r1, y)" by fastforce
  have "quiet 2 r1 r'"
    using assms by (auto simp: agent_turn_def act_on_def c split: prod.splits sum.splits option.splits move.splits elim: quiet_final_turn)
  then show ?thesis by (rule quiet_mono [OF quiet_trans [OF quiet_ask [OF c]]]) simp
qed

lemma last_answer_run:
  assumes "last_answer env deadline objective memory r = (r', x)"
  shows "quiet 2 r r'"
proof (cases "ae_stream env")
  case None
  obtain r1 y where c: "step_complete env deadline (system_prompt (take 32000 (ae_specs env)))
      (final_message objective (ar_observations r)) r = (r1, y)" by fastforce
  then have "r' = r1" using assms None by (auto simp: last_answer_def Let_def split: sum.splits if_splits)
  with quiet_complete [OF c] show ?thesis by (simp add: quiet_mono)
next
  case (Some stream)
  obtain r1 y where c: "stream_final env stream deadline objective memory [] r = (r1, y)" by fastforce
  then have "r' = r1" using assms Some by (auto simp: last_answer_def Let_def split: sum.splits if_splits)
  with quiet_stream [OF c] show ?thesis by simp
qed

lemma quiet_ok: "quiet k r r' \<Longrightarrow> requests_ok limits r' = requests_ok limits r"
  by (simp add: quiet_def requests_ok_def)

lemma request_tool_calls: "request_tool env limits deadline name arguments r = (r', obs, ok) \<Longrightarrow> ar_calls r' = ar_calls r"
  by (auto simp: request_tool_def Let_def split: if_splits prod.splits)

lemma tool_turn_calls [simp]: "ar_calls (tool_turn env limits deadline iteration name arguments r) = ar_calls r"
  by (auto simp: tool_turn_def Let_def emit_def split: prod.splits dest: request_tool_calls)

lemma agent_loop_ok:
  "agent_loop env limits deadline objective memory iteration n r = (r', x) \<Longrightarrow> requests_ok limits r \<Longrightarrow>
     requests_ok limits r' \<and> ar_calls r' \<le> ar_calls r + n + 2"
proof (induction n arbitrary: iteration r)
  case 0
  from last_answer_run [of env deadline objective memory r r' x] 0 show ?case
    by (auto simp: quiet_ok) (simp add: quiet_def)
next
  case (Suc n)
  obtain r1 y where t: "agent_turn env limits deadline objective memory iteration r = (r1, y)" by fastforce
  show ?case
  proof (cases y)
    case Go_On
    with t obtain r2 name args where c: "quiet 1 r r2"
      "r1 = tool_turn env limits deadline iteration name (JObj args) r2" by (auto elim: agent_turn_go)
    have run: "ar_calls r2 \<le> Suc (ar_calls r)" using c(1) by (simp add: quiet_def)
    have "requests_ok limits r2" using Suc.prems(2) quiet_ok [OF c(1)] by simp
    then have "requests_ok limits r1" unfolding c(2) by (rule tool_turn_ok)
    moreover have "agent_loop env limits deadline objective memory (Suc iteration) n r1 = (r', x)"
      using Suc.prems(1) t Go_On by simp
    ultimately show ?thesis using Suc.IH [of "Suc iteration" r1] run c(2) by auto
  next
    case (Ended z)
    with Suc.prems(1) t have "r' = r1" by simp
    with agent_turn_ended [of env limits deadline objective memory iteration r r1 z] t Ended Suc.prems(2)
    show ?thesis by (auto simp: quiet_ok) (simp add: quiet_def)
  qed
qed

section \<open>What a step may touch\<close>

lemma request_tool_state:
  assumes "request_tool env limits deadline name arguments r = (r', obs, ok)" and "P (ar_state r)"
    and "\<And>n a s. P s \<Longrightarrow> P (fst (ae_invoke env n a s))"
  shows "P (ar_state r')"
  using assms(1,2) assms(3) [of "ar_state r" name arguments]
  by (auto simp: request_tool_def Let_def split: if_splits prod.splits)

lemma tool_turn_state:
  assumes "P (ar_state r)" and "\<And>n a s. P s \<Longrightarrow> P (fst (ae_invoke env n a s))" and "\<And>k p s. P s \<Longrightarrow> P (ae_event env k p s)"
  shows "P (ar_state (tool_turn env limits deadline iteration name arguments r))"
proof -
  let ?r1 = "emit env ''agent.tool_requested'' (JObj [(''tool'', JStr name), (''iteration'', JNum (int iteration + 1))]) r"
  obtain r2 obs ok where q: "request_tool env limits deadline name arguments ?r1 = (r2, obs, ok)" by (cases "request_tool env limits deadline name arguments ?r1")
  have "P (ar_state ?r1)" using assms(1,3) by (simp add: emit_def)
  from request_tool_state [where P = P, OF q this assms(2)] have "P (ar_state r2)" .
  with q assms(3) show ?thesis by (simp add: tool_turn_def Let_def) (simp add: emit_def)
qed

lemma agent_loop_state:
  assumes "agent_loop env limits deadline objective memory iteration n r = (r', x)" and "P (ar_state r)"
    and "\<And>n a s. P s \<Longrightarrow> P (fst (ae_invoke env n a s))" and "\<And>k p s. P s \<Longrightarrow> P (ae_event env k p s)"
  shows "P (ar_state r')"
  using assms(1,2)
proof (induction n arbitrary: iteration r)
  case 0
  with last_answer_run [of env deadline objective memory r r' x] show ?case by (simp add: quiet_def)
next
  case (Suc n)
  obtain r1 y where t: "agent_turn env limits deadline objective memory iteration r = (r1, y)" by fastforce
  show ?case
  proof (cases y)
    case Go_On
    with t obtain r2 name args where c: "quiet 1 r r2"
      "r1 = tool_turn env limits deadline iteration name (JObj args) r2" by (auto elim: agent_turn_go)
    from c(1) Suc.prems(2) have "P (ar_state r2)" by (simp add: quiet_def)
    then have "P (ar_state r1)" unfolding c(2) by (rule tool_turn_state [OF _ assms(3,4)])
    moreover have "agent_loop env limits deadline objective memory (Suc iteration) n r1 = (r', x)"
      using Suc.prems(1) t Go_On by simp
    ultimately show ?thesis using Suc.IH by blast
  next
    case (Ended z)
    with Suc.prems t agent_turn_ended [of env limits deadline objective memory iteration r r1 z] show ?thesis by (simp add: quiet_def)
  qed
qed

lemma run_agent_step_state:
  assumes "run_agent_step env limits task_objective memory s = (r, x)" and "P s"
    and "\<And>n a s. P s \<Longrightarrow> P (fst (ae_invoke env n a s))" and "\<And>k p s. P s \<Longrightarrow> P (ae_event env k p s)"
  shows "P (ar_state r)"
  using assms(1,2)
  by (auto simp: run_agent_step_def Let_def split: if_splits intro: agent_loop_state [where P = P, OF _ _ assms(3,4)])

lemma run_agent_step_ok:
  assumes "run_agent_step env (new_limits iterations calls t) task_objective memory s = (r, x)"
  shows "distinct (ar_requested r)" "length (ar_requested r) \<le> 20" "ar_used r \<le> length (ar_requested r)" "ar_calls r \<le> 17"
proof -
  let ?l = "new_limits iterations calls t"
  have l: "sl_calls ?l \<le> 20" "0 \<le> sl_calls ?l" "nat (sl_iterations ?l) \<le> 15"
    by (auto simp: new_limits_def max_agent_tool_calls_def max_agent_iterations_def)
  have "requests_ok ?l r \<and> ar_calls r \<le> 17"
    using assms l
    by (auto simp: run_agent_step_def Let_def requests_ok_def split: if_splits dest!: agent_loop_ok)
  with l show "distinct (ar_requested r)" "length (ar_requested r) \<le> 20" "ar_used r \<le> length (ar_requested r)" "ar_calls r \<le> 17"
    by (auto simp: requests_ok_def)
qed

end
