(* ===== verification/ToolRegistry.thy ===== *)
theory ToolRegistry
  imports Workflow AgentStep
begin

text \<open>
  \<open>src/smara/tool_registry.py\<close>: the registry an agent step calls its tools through, and the two tools that
  ask for work on a paired desktop. A tool is its specification and its effect on the state \<open>'s\<close>; the
  description and the types of a tool's parameters are what the model is told and are left out.
\<close>

section \<open>Tools\<close>

datatype tool_fault = Tool_Fault string | Other_Fault string

record tool_result =
  tr_ok :: bool
  tr_content :: string
  tr_citations :: "string list"
  tr_meta :: json

definition plain_result :: "string \<Rightarrow> tool_result" where
  "plain_result s = \<lparr>tr_ok = True, tr_content = s, tr_citations = [], tr_meta = JObj []\<rparr>"

record 's tool =
  tl_name :: string
  tl_properties :: "string list"
  tl_closed :: bool
  tl_side :: bool
  tl_approval :: bool
  tl_run :: "json \<Rightarrow> 's \<Rightarrow> 's \<times> (tool_fault + tool_result)"

text \<open>\<open>_bounded\<close>. The ellipsis of the mark has no 8-bit code; it stands as the character 133.\<close>

definition bounded_text :: "nat \<Rightarrow> string \<Rightarrow> string" where
  "bounded_text limit s =
     (if length s \<le> limit then s
      else take limit s @ newline @ ''['' @ [CHR 0x85] @ ''truncated by Smara]'')"

section \<open>The registry\<close>

text \<open>A registry is a dictionary by tool name, in insertion order.\<close>

definition find_tool :: "string \<Rightarrow> 's tool list \<Rightarrow> 's tool option" where
  "find_tool name reg = find (\<lambda>t. strip (tl_name t) = name) reg"

definition register :: "'s tool \<Rightarrow> 's tool list \<Rightarrow> 's tool list result" where
  "register t reg =
     (if strip (tl_name t) = [] \<or> find_tool (strip (tl_name t)) reg \<noteq> None
      then Inl (ValueError ''Tool names must be unique and non-empty.'') else Inr (reg @ [t]))"

fun register_all :: "'s tool list \<Rightarrow> 's tool list \<Rightarrow> 's tool list result" where
  "register_all [] reg = Inr reg"
| "register_all (t # ts) reg = andThen (register t reg) (register_all ts)"

definition describe_tools :: "'s tool list \<Rightarrow> 's tool list" where
  "describe_tools reg = sort_key tl_name reg"

definition restrict_tools :: "string set option \<Rightarrow> 's tool list \<Rightarrow> 's tool list result" where
  "restrict_tools names reg =
     (case names of None \<Rightarrow> Inr reg | Some ns \<Rightarrow> register_all (filter (\<lambda>t. strip (tl_name t) \<in> ns) reg) [])"

definition invoke_tool :: "'s tool list \<Rightarrow> string \<Rightarrow> json \<Rightarrow> 's \<Rightarrow> 's \<times> (tool_fault + tool_result)" where
  "invoke_tool reg name arguments s =
     (case find_tool name reg of
        None \<Rightarrow> (s, Inl (Tool_Fault (''Tool '' @ [CHR 0x27] @ name @ [CHR 0x27] @ '' is not registered.'')))
      | Some t \<Rightarrow>
          (if tl_side t \<or> tl_approval t
           then (s, Inl (Tool_Fault ''This tool requires a durable approved task and cannot run directly.''))
           else
             (case arguments of
                JObj kvs \<Rightarrow>
                  (if tl_closed t \<and> \<not> fst ` set kvs \<subseteq> set (tl_properties t)
                   then (s, Inl (Tool_Fault ''Tool arguments contain unsupported fields.''))
                   else
                     (case tl_run t arguments s of
                        (s', Inl x) \<Rightarrow> (s', Inl x)
                      | (s', Inr res) \<Rightarrow>
                          (s', Inr (res\<lparr>tr_content := bounded_text (if name = ''research.deep'' then 16000 else 4000) (tr_content res),
                                        tr_citations := take 20 (tr_citations res)\<rparr>))))
              | _ \<Rightarrow> (s, Inl (Tool_Fault ''Tool arguments must be an object.'')))))"

section \<open>Asking for desktop work\<close>

fun error_name :: "py_error \<Rightarrow> string" where
  "error_name (KeyError _) = ''KeyError''"
| "error_name (ValueError _) = ''ValueError''"
| "error_name (RuntimeError _) = ''RuntimeError''"
| "error_name IndexError = ''IndexError''"
| "error_name TypeError = ''TypeError''"
| "error_name IntegrityError = ''IntegrityError''"
| "error_name (OSError _) = ''OSError''"

fun error_text :: "py_error \<Rightarrow> string" where
  "error_text (KeyError k) = [CHR 0x27] @ k @ [CHR 0x27]"
| "error_text (ValueError m) = m"
| "error_text (RuntimeError m) = m"
| "error_text IndexError = ''list index out of range''"
| "error_text TypeError = ''unhashable type''"
| "error_text IntegrityError = ''constraint failed''"
| "error_text (OSError m) = m"

text \<open>What a requester does to the state and gives back: the items of a dictionary, or an exception.\<close>

type_synonym 's requested = "'s \<times> (py_error + (string \<times> json) list)"

definition check_desktop_arguments ::
  "(json \<Rightarrow> ws_job option) \<Rightarrow> json \<Rightarrow> string + string \<times> string \<times> (string \<times> json) list" where
  "check_desktop_arguments coerce arguments =
     (case py_get ''capability'' arguments of
        JStr c \<Rightarrow>
          (if c \<notin> set local_capabilities then Inl ''Desktop capability is not supported.''
           else
             (case (py_get ''preview'' arguments, py_get ''payload'' arguments) of
                (JStr preview, JObj payload) \<Rightarrow>
                  (if strip preview = [] then Inl ''Desktop action needs a preview and object payload.''
                   else
                     (case map_of payload ''workspace_job'' of
                        None \<Rightarrow> Inr (c, preview, payload)
                      | Some doc \<Rightarrow>
                          (case validate_workspace_job coerce doc of
                             Inl x \<Rightarrow> Inl (error_text x)
                           | Inr j \<Rightarrow>
                               (if c \<in> set (jb_caps j) then Inr (c, preview, payload)
                                else Inl ''workspace_job does not allow the requested desktop capability.''))))
              | _ \<Rightarrow> Inl ''Desktop action needs a preview and object payload.''))
      | _ \<Rightarrow> Inl ''Desktop capability is not supported.'')"

definition desktop_action_run ::
  "(json \<Rightarrow> ws_job option) \<Rightarrow> (json \<Rightarrow> string) \<Rightarrow> (string \<Rightarrow> string \<Rightarrow> (string \<times> json) list \<Rightarrow> 's \<Rightarrow> 's requested) option \<Rightarrow>
   json \<Rightarrow> 's \<Rightarrow> 's \<times> (tool_fault + tool_result)" where
  "desktop_action_run coerce dump requester arguments s =
     (case requester of
        None \<Rightarrow> (s, Inl (Tool_Fault ''Desktop actions are available only inside an approved hosted task.''))
      | Some ask \<Rightarrow>
          (case check_desktop_arguments coerce arguments of
             Inl msg \<Rightarrow> (s, Inl (Tool_Fault msg))
           | Inr (c, preview, payload) \<Rightarrow>
               (case ask c (take 1000 preview) payload s of
                  (s', Inl x) \<Rightarrow>
                    (s', Inl (Tool_Fault (''Desktop task request failed safely ('' @ error_name x @
                       ''). Check that the paired Desktop is online, then retry.'')))
                | (s', Inr items) \<Rightarrow>
                    (s', Inr (plain_result (bounded_text 4000
                       (dump (JObj (fold (\<lambda>(k, v). set_item k v) items [(''approval_required'', JBool True)])))))))))"

definition desktop_action_tool ::
  "(json \<Rightarrow> ws_job option) \<Rightarrow> (json \<Rightarrow> string) \<Rightarrow> (string \<Rightarrow> string \<Rightarrow> (string \<times> json) list \<Rightarrow> 's \<Rightarrow> 's requested) option \<Rightarrow> 's tool" where
  "desktop_action_tool coerce dump requester =
     \<lparr>tl_name = ''desktop.request_action'', tl_properties = [''capability'', ''preview'', ''payload''], tl_closed = True,
      tl_side = False, tl_approval = False, tl_run = desktop_action_run coerce dump requester\<rparr>"

text \<open>
  The workflow tool hands the normalized stages to the requester, as the dictionaries \<open>stage_doc\<close>.
\<close>

definition desktop_workflow_run ::
  "(json \<Rightarrow> ws_job option) \<Rightarrow> (json \<Rightarrow> nat option) \<Rightarrow> (json \<Rightarrow> string) \<Rightarrow>
   (string \<Rightarrow> json \<Rightarrow> 's \<Rightarrow> 's requested) option \<Rightarrow> json \<Rightarrow> 's \<Rightarrow> 's \<times> (tool_fault + tool_result)" where
  "desktop_workflow_run coerce encoded dump requester arguments s =
     (case requester of
        None \<Rightarrow> (s, Inl (Tool_Fault ''Desktop workflows are available only inside an approved hosted task.''))
      | Some ask \<Rightarrow>
          (case py_get ''preview'' arguments of
             JStr preview \<Rightarrow>
               (if strip preview = [] then (s, Inl (Tool_Fault ''Desktop workflow needs a preview.''))
                else
                  (case validate_workflow coerce encoded (py_get ''stages'' arguments) of
                     Inl x \<Rightarrow> (s, Inl (Tool_Fault (error_text x)))
                   | Inr stages \<Rightarrow>
                       (case ask (take 1000 preview) (JArr (map stage_doc stages)) s of
                          (s', Inl (ValueError m)) \<Rightarrow> (s', Inl (Tool_Fault m))
                        | (s', Inl x) \<Rightarrow>
                            (s', Inl (Tool_Fault (''Desktop workflow request failed safely ('' @ error_name x @
                               ''). Check that the paired Desktop is online, then retry.'')))
                        | (s', Inr items) \<Rightarrow>
                            (s', Inr (plain_result (bounded_text 4000
                               (dump (JObj (set_item ''workflow'' (workflow_summary stages)
                                              (set_item ''approval_required'' (JBool True) items))))))))))
           | _ \<Rightarrow> (s, Inl (Tool_Fault ''Desktop workflow needs a preview.''))))"

definition desktop_workflow_tool ::
  "(json \<Rightarrow> ws_job option) \<Rightarrow> (json \<Rightarrow> nat option) \<Rightarrow> (json \<Rightarrow> string) \<Rightarrow>
   (string \<Rightarrow> json \<Rightarrow> 's \<Rightarrow> 's requested) option \<Rightarrow> 's tool" where
  "desktop_workflow_tool coerce encoded dump requester =
     \<lparr>tl_name = ''desktop.request_workflow'', tl_properties = [''preview'', ''stages''], tl_closed = True,
      tl_side = False, tl_approval = False, tl_run = desktop_workflow_run coerce encoded dump requester\<rparr>"

section \<open>Facts\<close>

lemma length_bounded_text: "length (bounded_text limit s) \<le> limit + 22"
  by (auto simp: bounded_text_def newline_def)

lemma check_desktop_arguments_ok:
  "check_desktop_arguments coerce arguments = Inr (c, preview, payload) \<Longrightarrow>
     c \<in> set local_capabilities \<and> strip preview \<noteq> []
     \<and> (\<forall>doc. map_of payload ''workspace_job'' = Some doc \<longrightarrow>
          (\<exists>j. validate_workspace_job coerce doc = Inr j \<and> c \<in> set (jb_caps j)))"
  by (auto simp: check_desktop_arguments_def split: json.splits if_splits option.splits sum.splits)

lemma find_tool_in: "find_tool name reg = Some t \<Longrightarrow> t \<in> set reg"
  by (auto simp: find_tool_def find_Some_iff)

text \<open>A registered tool that only acts within \<open>P\<close> is invoked within \<open>P\<close>.\<close>

lemma invoke_tool_state:
  assumes "P s" and "\<And>t a s. t \<in> set reg \<Longrightarrow> P s \<Longrightarrow> P (fst (tl_run t a s))"
  shows "P (fst (invoke_tool reg name arguments s))"
  using assms(1) assms(2) [OF find_tool_in, of name _ s arguments]
  by (auto simp: invoke_tool_def split: option.splits json.splits prod.splits sum.splits)

text \<open>No state change comes from a tool that side-effects or needs approval.\<close>

lemma invoke_gated: "find_tool name reg = Some t \<Longrightarrow> tl_side t \<or> tl_approval t \<Longrightarrow>
    invoke_tool reg name arguments s = (s, Inl (Tool_Fault ''This tool requires a durable approved task and cannot run directly.''))"
  by (auto simp: invoke_tool_def)

end
