(* ===== verification/LlmErrors.thy ===== *)
theory LlmErrors
  imports Prelude
begin

text \<open>
  \<open>src/smara/llm_errors.py\<close>: the classification of a model provider's failure into a stable kind, and the
  text shown for each kind. A raised exception is read through its text, its \<open>status_code\<close> and its
  \<open>response\<close>; a response whose text cannot be read counts as empty.
\<close>

section \<open>Exceptions as the classifier sees them\<close>

record http_response =
  hr_status :: "int option"
  hr_text :: "string option"

record exn =
  x_text :: string
  x_status :: "int option"
  x_response :: "http_response option"

definition plain_exn :: "string \<Rightarrow> exn" where
  "plain_exn s = \<lparr>x_text = s, x_status = None, x_response = None\<rparr>"

datatype llm_kind =
    K_NoCredits
  | K_InvalidKey
  | K_RateLimit
  | K_ContextTooLong
  | K_ModelUnavailable
  | K_ProviderDown
  | K_Timeout
  | K_Network
  | K_NotConfigured
  | K_Unknown

section \<open>Classification\<close>

definition exn_status :: "exn \<Rightarrow> int option" where
  "exn_status x =
     (case x_status x of
        Some s \<Rightarrow> Some s
      | None \<Rightarrow> (case x_response x of None \<Rightarrow> None | Some r \<Rightarrow> hr_status r))"

definition diagnostic :: "exn \<Rightarrow> string" where
  "diagnostic x =
     lower (x_text x) @ '' '' @
     (case x_response x of
        None \<Rightarrow> []
      | Some r \<Rightarrow> (case hr_text r of None \<Rightarrow> [] | Some t \<Rightarrow> take 2000 (lower t)))"

definition has_any :: "string \<Rightarrow> string list \<Rightarrow> bool" where
  "has_any s ps \<longleftrightarrow> (\<exists>p \<in> set ps. contains p s)"

definition classify :: "exn \<Rightarrow> llm_kind" where
  "classify x =
     (let d = diagnostic x; status = exn_status x in
      if has_any d [''no smara chat provider is configured'', ''smara agent model provider is not configured''] then K_NotConfigured
      else if status = Some 402 \<or> has_any d [''insufficient_quota'', ''insufficient credits'', ''credit balance'', ''payment required''] then K_NoCredits
      else if status \<in> {Some 401, Some 403} \<or> has_any d [''invalid api key'', ''invalid_api_key'', ''api key'', ''permission-denied'', ''unauthorized'', ''authenticationerror''] then K_InvalidKey
      else if status = Some 429 \<or> has_any d [''rate limit'', ''rate_limit''] then K_RateLimit
      else if status = Some 413 \<or> has_any d [''context length'', ''maximum context''] then K_ContextTooLong
      else if has_any d [''model_not_found'', ''model not found'', ''decommissioned''] \<or>
              (status = Some 400 \<and> has_any d [''not available'', ''beta'', ''unsupported model'']) then K_ModelUnavailable
      else if (case status of None \<Rightarrow> False | Some n \<Rightarrow> 500 \<le> n) \<or> has_any d [''service unavailable'', ''bad gateway'', ''overloaded''] then K_ProviderDown
      else if has_any d [''timeout'', ''timed out''] then K_Timeout
      else if has_any d [''connection'', ''econnref'', ''name or service not known''] then K_Network
      else K_Unknown)"

section \<open>Messages\<close>

fun user_message :: "string \<Rightarrow> llm_kind \<Rightarrow> string" where
  "user_message provider K_NoCredits = provider @ '' is out of available quota. Try again later or choose another configured provider.''"
| "user_message provider K_InvalidKey = provider @ '' rejected its API credentials. Update the server-side provider configuration.''"
| "user_message provider K_RateLimit = provider @ '' is temporarily rate-limiting requests. Try again shortly.''"
| "user_message provider K_ContextTooLong = ''That request is too large for the selected model. Try a shorter message or start a new conversation.''"
| "user_message provider K_ModelUnavailable = ''The selected model is unavailable. Choose another configured model.''"
| "user_message provider K_ProviderDown = provider @ '' is temporarily unavailable. Try again shortly.''"
| "user_message provider K_Timeout = ''The model response timed out. Try again.''"
| "user_message provider K_Network = ''Smara could not reach '' @ provider @ ''. Try again shortly.''"
| "user_message provider K_NotConfigured = ''Smara chat is not configured yet. Add a server-side model provider before using direct chat.''"
| "user_message provider K_Unknown = ''Smara could not draft a reply. Try again.''"

definition describe :: "string \<Rightarrow> exn \<Rightarrow> llm_kind \<times> string" where
  "describe provider x = (let kind = classify x in (kind, user_message provider kind))"

section \<open>What the classification depends on\<close>

text \<open>The message of a kind never carries the text of the exception.\<close>

lemma describe_hides_text: "classify x = classify y \<Longrightarrow> describe provider x = describe provider y"
  by (simp add: describe_def Let_def)

lemma classify_payment: "has_any (diagnostic x) [''no smara chat provider is configured'', ''smara agent model provider is not configured''] = False
    \<Longrightarrow> exn_status x = Some 402 \<Longrightarrow> classify x = K_NoCredits"
  by (simp add: classify_def Let_def)

end
