(* ===== verification/Providers.thy ===== *)
theory Providers
  imports LocalSkills
begin

text \<open>
  \<open>src/smara/provider_routing.py\<close>: the model profiles an operator allows and the choice among them. Reading
  JSON text (\<open>parse\<close>), the process environment (\<open>getenv\<close>) and the scheme and host of an address
  (\<open>urlparse\<close>, \<open>None\<close> when it raises) are parameters.
\<close>

record profile =
  mp_name :: string
  mp_url :: string
  mp_model :: string
  mp_key :: string
  mp_auth :: string
  mp_capability :: string

record outside =
  ou_parse :: "string \<Rightarrow> json option"
  ou_getenv :: "string \<Rightarrow> string option"
  ou_urlparse :: "string \<Rightarrow> (string \<times> string) option"

section \<open>Fields of a profile\<close>

definition auth_header :: "json \<Rightarrow> string result" where
  "auth_header v =
     (case v of
        JNull \<Rightarrow> Inr ''Authorization''
      | JStr s \<Rightarrow>
          (if s = [] then Inr ''Authorization''
           else
             (let n = lower (strip s) in
              if n \<in> {''authorization'', ''bearer'', ''authorization: bearer''} then Inr ''Authorization''
              else if n \<in> {''api-subscription-key'', ''api_subscription_key''} then Inr ''api-subscription-key''
              else Inl (ValueError ''Model profile auth_header must be Authorization or api-subscription-key.'')))
      | _ \<Rightarrow> Inl (ValueError ''Model profile auth_header must be a string.''))"

definition profile_capability :: "json \<Rightarrow> string result" where
  "profile_capability v =
     (case v of
        JNull \<Rightarrow> Inr ''chat''
      | JStr s \<Rightarrow>
          (if s = [] then Inr ''chat''
           else if lower (strip s) \<in> {''chat'', ''reasoning'', ''vision''} then Inr (lower (strip s))
           else Inl (ValueError ''Model profile capability must be chat, reasoning, or vision.''))
      | _ \<Rightarrow> Inl (ValueError ''Model profile capability must be chat, reasoning, or vision.''))"

definition rstrip_slash :: "string \<Rightarrow> string" where
  "rstrip_slash s = rev (dropWhile (\<lambda>c. c = CHR ''/'') (rev s))"

definition valid_base_url :: "outside \<Rightarrow> json \<Rightarrow> string result" where
  "valid_base_url out v =
     (case v of
        JStr s \<Rightarrow>
          (if strip s = [] then Inl (ValueError ''Model profile base_url is required.'')
           else
             (let url = rstrip_slash (strip s) in
              case ou_urlparse out url of
                None \<Rightarrow> Inl (ValueError ''Invalid URL'')
              | Some (scheme, netloc) \<Rightarrow>
                  (if scheme \<notin> {''https'', ''http''} \<or> netloc = []
                   then Inl (ValueError ''Model profile base_url must be an HTTP(S) URL.'')
                   else Inr url)))
      | _ \<Rightarrow> Inl (ValueError ''Model profile base_url is required.''))"

section \<open>The profile document\<close>

text \<open>\<open>raw.replace(r'\"', '"')\<close> and \<open>raw.replace("\\", '"')\<close>.\<close>

fun unescape_quotes :: "string \<Rightarrow> string" where
  "unescape_quotes [] = []"
| "unescape_quotes (c # cs) =
     (if c = CHR 0x5C \<and> cs \<noteq> [] \<and> hd cs = CHR 0x22 then unescape_quotes cs else c # unescape_quotes cs)"

definition backslashes_to_quotes :: "string \<Rightarrow> string" where
  "backslashes_to_quotes s = map (\<lambda>c. if c = CHR 0x5C then CHR 0x22 else c) s"

definition read_profiles :: "outside \<Rightarrow> string \<Rightarrow> json result" where
  "read_profiles out raw =
     (let bad = Inl (ValueError ''SMARA_LLM_PROFILES must be valid JSON.'');
          retry = (\<lambda>t. case ou_parse out t of None \<Rightarrow> bad | Some d \<Rightarrow> Inr d)
      in case ou_parse out raw of
           Some d \<Rightarrow> Inr d
         | None \<Rightarrow>
             (if contains [CHR 0x5C, CHR 0x22] raw then retry (unescape_quotes raw)
              else if CHR 0x22 \<notin> set raw \<and> CHR 0x5C \<in> set raw then retry (backslashes_to_quotes raw)
              else bad))"

record fallback =
  fb_url :: string
  fb_key :: string
  fb_model :: string
  fb_provider :: string

text \<open>The key a profile's own document gives, and the key it ends up with at an endpoint.\<close>

definition own_key :: "outside \<Rightarrow> json \<Rightarrow> string" where
  "own_key out value =
     (case py_get ''api_key_env'' value of
        JStr e \<Rightarrow> (case ou_getenv out e of None \<Rightarrow> [] | Some k \<Rightarrow> k)
      | _ \<Rightarrow> (case jget ''api_key'' value of Some (JStr k) \<Rightarrow> k | _ \<Rightarrow> []))"

definition fallback_endpoint :: "fallback \<Rightarrow> string" where
  "fallback_endpoint fb = lower (rstrip_slash (strip (fb_url fb)))"

definition profile_key :: "outside \<Rightarrow> fallback \<Rightarrow> json \<Rightarrow> string \<Rightarrow> string" where
  "profile_key out fb value url =
     (let key = own_key out value in
      if strip key = [] \<and> strip (fb_key fb) \<noteq> [] \<and> lower url = fallback_endpoint fb then fb_key fb else key)"

definition read_profile :: "outside \<Rightarrow> fallback \<Rightarrow> string \<Rightarrow> json \<Rightarrow> profile result" where
  "read_profile out fb name value =
     (if name = [] \<or> length name > 64 \<or> \<not> is_obj value
      then Inl (ValueError ''Each model profile needs a short name and object value.'')
      else
        andThen (valid_base_url out (py_get ''base_url'' value)) (\<lambda>url.
          case py_get ''model'' value of
            JStr m \<Rightarrow>
              (if strip m = [] then Inl (ValueError (''Model profile '' @ [CHR 0x27] @ name @ [CHR 0x27] @ '' is missing model.''))
               else
                 andThen (auth_header (py_get ''auth_header'' value)) (\<lambda>auth.
                 andThen (profile_capability (py_get ''capability'' value)) (\<lambda>cap.
                 Inr \<lparr>mp_name = name, mp_url = url, mp_model = strip m, mp_key = profile_key out fb value url,
                      mp_auth = auth, mp_capability = cap\<rparr>)))
          | _ \<Rightarrow> Inl (ValueError (''Model profile '' @ [CHR 0x27] @ name @ [CHR 0x27] @ '' is missing model.''))))"

text \<open>A dictionary keyed by the profile's name, in insertion order.\<close>

fun put_profile :: "profile \<Rightarrow> profile list \<Rightarrow> profile list" where
  "put_profile p [] = [p]"
| "put_profile p (q # qs) = (if mp_name q = mp_name p then p # qs else q # put_profile p qs)"

fun read_all :: "outside \<Rightarrow> fallback \<Rightarrow> (string \<times> json) list \<Rightarrow> profile list \<Rightarrow> profile list result" where
  "read_all out fb [] ps = Inr ps"
| "read_all out fb ((name, value) # rest) ps =
     andThen (read_profile out fb name value) (\<lambda>p. read_all out fb rest (put_profile p ps))"

definition fallback_profile :: "fallback \<Rightarrow> profile" where
  "fallback_profile fb =
     \<lparr>mp_name = or_text (fb_provider fb) ''default'', mp_url = rstrip_slash (fb_url fb), mp_model = fb_model fb,
      mp_key = fb_key fb, mp_auth = ''Authorization'', mp_capability = ''chat''\<rparr>"

definition add_fallback :: "fallback \<Rightarrow> profile list \<Rightarrow> profile list" where
  "add_fallback fb ps =
     (if fb_url fb \<noteq> [] \<and> fb_model fb \<noteq> [] \<and> mp_name (fallback_profile fb) \<notin> mp_name ` set ps
      then ps @ [fallback_profile fb] else ps)"

definition load_profiles :: "outside \<Rightarrow> string \<Rightarrow> fallback \<Rightarrow> profile list result" where
  "load_profiles out raw fb =
     (if strip raw = [] then Inr (add_fallback fb [])
      else
        andThen (read_profiles out raw) (\<lambda>d.
          case d of
            JObj kvs \<Rightarrow>
              (if length kvs > 12 then Inl (ValueError ''SMARA_LLM_PROFILES must be an object with at most 12 profiles.'')
               else andThen (read_all out fb kvs []) (\<lambda>ps. Inr (add_fallback fb ps)))
          | _ \<Rightarrow> Inl (ValueError ''SMARA_LLM_PROFILES must be an object with at most 12 profiles.'')))"

definition named_profile :: "string \<Rightarrow> profile list \<Rightarrow> profile option" where
  "named_profile n ps = find (\<lambda>p. mp_name p = n) ps"

definition resolve_profile :: "outside \<Rightarrow> string \<Rightarrow> string option \<Rightarrow> fallback \<Rightarrow> profile result" where
  "resolve_profile out raw requested fb =
     andThen (load_profiles out raw fb) (\<lambda>ps.
       let name = opt_or requested (or_text (fb_provider fb) ''default'');
           p = named_profile name ps;
           p = (if p = None \<and> requested = None \<and> length ps = 1 then Some (hd ps) else p);
           p = (if p = None \<and> requested = None then named_profile ''default'' ps else p)
       in case p of
            None \<Rightarrow> Inl (ValueError (''Unknown model profile '' @ [CHR 0x27] @ name @ [CHR 0x27]
                      @ ''. Choose one configured by the operator.''))
          | Some q \<Rightarrow> Inr q)"

section \<open>Where a key may go\<close>

text \<open>A profile read from the document holds its own key unless it lives at the fallback's endpoint.\<close>

definition keeps_to_endpoint :: "outside \<Rightarrow> fallback \<Rightarrow> (string \<times> json) list \<Rightarrow> profile \<Rightarrow> bool" where
  "keeps_to_endpoint out fb kvs p \<longleftrightarrow>
     (\<exists>(name, value) \<in> set kvs. mp_name p = name \<and>
        (mp_key p = own_key out value \<or> mp_key p = fb_key fb \<and> lower (mp_url p) = fallback_endpoint fb))"

lemma read_profile_key:
  "read_profile out fb name value = Inr p \<Longrightarrow> mp_name p = name \<and>
     (mp_key p = own_key out value \<or> mp_key p = fb_key fb \<and> lower (mp_url p) = fallback_endpoint fb)"
  by (cases "py_get ''model'' value") (auto simp: read_profile_def profile_key_def Let_def split: if_splits)

lemma in_put_profile: "q \<in> set (put_profile p ps) \<Longrightarrow> q = p \<or> q \<in> set ps"
  by (induction ps) (auto split: if_splits)

lemma put_profile_names: "mp_name ` set (put_profile p ps) = insert (mp_name p) (mp_name ` set ps)"
  by (induction ps) auto

lemma put_profile_distinct: "distinct (map mp_name ps) \<Longrightarrow> distinct (map mp_name (put_profile p ps))"
  by (induction ps) (use put_profile_names in \<open>auto simp: image_iff\<close>)

lemma read_all_keys:
  assumes "read_all out fb rest ps = Inr qs" and "set rest \<subseteq> set kvs" and "\<forall>p \<in> set ps. keeps_to_endpoint out fb kvs p"
  shows "\<forall>q \<in> set qs. keeps_to_endpoint out fb kvs q"
  using assms
proof (induction rest arbitrary: ps)
  case (Cons nv rest)
  obtain name doc where nv: "nv = (name, doc)" by fastforce
  obtain p where p: "read_profile out fb name doc = Inr p" "read_all out fb rest (put_profile p ps) = Inr qs"
    using Cons.prems(1) nv by auto
  have "keeps_to_endpoint out fb kvs p"
    using read_profile_key [OF p(1)] Cons.prems(2) nv by (auto simp: keeps_to_endpoint_def)
  then have "\<forall>q \<in> set (put_profile p ps). keeps_to_endpoint out fb kvs q"
    using Cons.prems(3) in_put_profile by blast
  with Cons.IH [OF p(2)] Cons.prems(2) show ?case by simp
qed simp

lemma resolve_in:
  assumes "resolve_profile out raw requested fb = Inr p"
  obtains ps where "load_profiles out raw fb = Inr ps" "p \<in> set ps"
proof -
  obtain ps where ps: "load_profiles out raw fb = Inr ps" using assms by (auto simp: resolve_profile_def)
  have found: "named_profile n ps = Some q \<Longrightarrow> q \<in> set ps" for n q
    by (auto simp: named_profile_def find_Some_iff)
  have single: "length ps = Suc 0 \<Longrightarrow> hd ps \<in> set ps" by (cases ps) auto
  have "p \<in> set ps"
    using assms ps by (auto simp: resolve_profile_def Let_def split: option.splits if_splits intro: found single)
  with that ps show thesis by blast
qed

end
