(* ===== verification/HostedWorker.thy ===== *)
theory HostedWorker
  imports ToolRegistry LlmErrors Providers Worker
begin

text \<open>
  \<open>src/smara/worker.py\<close>: one pass of the hosted worker, with personal integrations off (the default posture:
  no credential of a user is read on the server). The worker claims a step, runs its executor and either
  completes the step or records the failure. The state is the database with a count of the store calls
  made; call \<open>n\<close> runs in its own environment \<open>we_env w n\<close>. The executors that live elsewhere (memory,
  research, capture, sandbox, the model) are fields of the worker's world.
\<close>

type_synonym wstate = "store \<times> nat"

datatype fault = Unsupported string | Fault exn

record research_outcome =
  oc_text :: string
  oc_report :: string
  oc_evidence :: int

record world_of_worker =
  we_env :: "nat \<Rightarrow> env"
  we_recall :: "(claim \<Rightarrow> exn + string) option"
  we_remember :: "claim \<Rightarrow> string \<Rightarrow> bool"
  we_research :: "claim \<Rightarrow> store \<Rightarrow> store \<times> (exn + research_outcome)"
  we_capture :: "claim \<Rightarrow> store \<Rightarrow> store \<times> (exn + string)"
  we_sandbox :: "string \<Rightarrow> exn + string"
  we_out :: outside
  we_profiles :: string
  we_fallback :: fallback
  we_default_profile :: string
  we_mono :: "nat \<Rightarrow> time"
  we_complete :: "profile \<Rightarrow> nat \<Rightarrow> string \<Rightarrow> string \<Rightarrow> completion"
  we_tools :: "wstate tool list"
  we_coerce :: "json \<Rightarrow> ws_job option"
  we_encoded :: "json \<Rightarrow> nat option"
  we_dump :: "json \<Rightarrow> string"
  we_canon :: "json \<Rightarrow> string"
  we_clip :: "json \<Rightarrow> json"

abbreviation fault_of :: "py_error \<Rightarrow> fault" where
  "fault_of x \<equiv> Fault (plain_exn (error_text x))"

section \<open>Memory\<close>

text \<open>An outage of the memory service is recorded and never fails the task.\<close>

definition note_outage :: "world_of_worker \<Rightarrow> claim \<Rightarrow> string \<Rightarrow> wstate \<Rightarrow> wstate" where
  "note_outage w c operation = (\<lambda>(db, n).
     (append_event (we_env w n) (t_id (cl_task c)) ''memory.unavailable'' (JObj [(''operation'', JStr operation)]) db, Suc n))"

definition memory_context :: "world_of_worker \<Rightarrow> claim \<Rightarrow> wstate \<Rightarrow> wstate \<times> string" where
  "memory_context w c s =
     (case we_recall w of
        None \<Rightarrow> (s, [])
      | Some recall \<Rightarrow> (case recall c of Inr text' \<Rightarrow> (s, text') | Inl _ \<Rightarrow> (note_outage w c ''search'' s, [])))"

definition memory_write :: "world_of_worker \<Rightarrow> claim \<Rightarrow> string \<Rightarrow> wstate \<Rightarrow> wstate" where
  "memory_write w c content s =
     (if we_recall w = None \<or> we_remember w c content then s else note_outage w c ''write'' s)"

section \<open>Desktop work\<close>

text \<open>\<open>record\<close>: an event of the agent; \<open>we_clip\<close> is the cut of its text at 2,000 characters.\<close>

definition record_agent :: "world_of_worker \<Rightarrow> claim \<Rightarrow> string \<Rightarrow> json \<Rightarrow> wstate \<Rightarrow> wstate" where
  "record_agent w c kind payload = (\<lambda>(db, n). (append_event (we_env w n) (t_id (cl_task c)) kind (we_clip w payload) db, Suc n))"

definition tree_operations :: "string list" where
  "tree_operations = [''list_tree'', ''search_text'', ''find_files'', ''git_summary'']"

definition job_root :: "string \<Rightarrow> json \<Rightarrow> json result" where
  "job_root capability payload =
     (let base = py_get ''workspace_root'' payload in
      if truth base then Inr base
      else if capability = ''local_terminal'' then Inr (py_or (py_get ''cwd'' payload) (JStr ''workspace''))
      else if capability = ''local_file_read'' then
        (if unhashable (py_get ''operation'' payload) then Inl TypeError
         else if py_get ''operation'' payload \<in> JStr ` set tree_operations
         then Inr (py_or (py_get ''path'' payload) (JStr ''workspace''))
         else Inr (JStr ''workspace''))
      else Inr (JStr ''workspace''))"

definition relative_root :: "json \<Rightarrow> string" where
  "relative_root base =
     (case base of
        JStr s \<Rightarrow>
          (if strip s = [] then ''workspace''
           else (case validate_relative_path ''workspace_root'' s of Inl _ \<Rightarrow> ''workspace'' | Inr r \<Rightarrow> r))
      | _ \<Rightarrow> ''workspace'')"

text \<open>\<open>model_dump\<close> of a checked job.\<close>

definition job_doc :: "ws_job \<Rightarrow> json" where
  "job_doc j =
     JObj [(''schema_version'', JStr ''smara.workspace.v1''), (''workspace_root'', JStr (jb_root j)),
           (''objective'', JStr (jb_objective j)), (''acceptance_checks'', JArr (map JStr (jb_checks j))),
           (''allowed_capabilities'', JArr (map JStr (jb_caps j))), (''idempotency_key'', JStr (jb_key j)),
           (''time_budget_seconds'', JNum (jb_time j)), (''cost_budget_inr'', JFloat (jb_cost j)),
           (''max_repair_attempts'', JNum (jb_repairs j)), (''approval_policy'', JStr (jb_policy j)),
           (''credential_aliases'', JArr (map JStr (jb_aliases j))), (''repository'', JBool (jb_repository j)),
           (''isolation'', JStr (jb_isolation j)), (''base_revision'', opt_text (jb_base j))]"

definition workspace_payload ::
  "(string \<Rightarrow> string) \<Rightarrow> (json \<Rightarrow> string) \<Rightarrow> task \<Rightarrow> string \<Rightarrow> (string \<times> json) list \<Rightarrow> string option \<Rightarrow> nat \<Rightarrow> string \<Rightarrow>
   (string \<times> json) list result" where
  "workspace_payload hash canon t capability payload stage ordinal objective =
     (if map_of payload ''workspace_job'' \<noteq> None then Inr payload
      else
        andThen (job_root capability (JObj payload)) (\<lambda>base.
        let fingerprint = take 16 (hash (canon (JObj payload)));
            key = ''workspace:'' @ t_id t @ '':'' @ show_nat ordinal @ '':'' @ fingerprint
        in andThen (build_workspace_job (relative_root base)
                      (take 20000 (or_text objective (or_text (t_objective t) ''Local workspace stage'')))
                      [capability] key
                      (Some [''The '' @ opt_or stage capability @ '' stage completes within the approved workspace.'',
                             ''The local result includes bounded proof for review.'']) ''on_mutation'') (\<lambda>j.
           let normalized = set_item ''workspace_job'' (job_doc j) payload
           in Inr (case stage of
                     None \<Rightarrow> normalized
                   | Some st \<Rightarrow> if st = [] then normalized else set_item ''stage'' (JStr st) normalized))))"

definition default_stage :: "string \<Rightarrow> string option" where
  "default_stage capability =
     map_of [(''local_file_read'', ''inspect''), (''local_file_write'', ''edit''), (''local_terminal'', ''run''),
             (''local_browser'', ''inspect''), (''local_integration'', ''inspect'')] capability"

fun task_status_text :: "task_status \<Rightarrow> string" where
  "task_status_text T_Queued = ''queued''"
| "task_status_text T_Running = ''running''"
| "task_status_text T_Waiting = ''waiting_approval''"
| "task_status_text T_Cancelling = ''cancelling''"
| "task_status_text T_Completed = ''completed''"
| "task_status_text T_Failed = ''failed''"
| "task_status_text T_Cancelled = ''cancelled''"

text \<open>
  Create a task of desktop steps for the account of the claimed one and surface its approval: two store
  calls. The first stays when the second raises.
\<close>

definition create_child ::
  "world_of_worker \<Rightarrow> claim \<Rightarrow> string \<Rightarrow> string \<Rightarrow> step_in list \<Rightarrow> wstate \<Rightarrow> wstate \<times> task result" where
  "create_child w c title preview ins = (\<lambda>(db, n).
     (let t = cl_task c in
      case create_task (we_env w n) (t_account t) (t_workspace t) title preview True ins ''desktop'' db of
        Inl x \<Rightarrow> ((db, Suc n), Inl x)
      | Inr (db', child) \<Rightarrow>
          (case request_approval (we_env w (Suc n)) (t_id child) (t_account t) db' of
             Inl x \<Rightarrow> ((db', Suc (Suc n)), Inl x)
           | Inr (db'', child') \<Rightarrow> ((db'', Suc (Suc n)), Inr child'))))"

abbreviation payload_digest :: "world_of_worker \<Rightarrow> string \<Rightarrow> string" where
  "payload_digest w \<equiv> sha256 (we_env w 0)"

definition desktop_requester ::
  "world_of_worker \<Rightarrow> claim \<Rightarrow> string \<Rightarrow> string \<Rightarrow> (string \<times> json) list \<Rightarrow> wstate \<Rightarrow> wstate requested" where
  "desktop_requester w c capability preview payload s =
     (case workspace_payload (payload_digest w) (we_canon w) (cl_task c) capability payload (default_stage capability) 0 preview of
        Inl x \<Rightarrow> (s, Inl x)
      | Inr items \<Rightarrow>
          (case create_child w c (''Desktop: '' @ take 80 preview) preview
                  [\<lparr>i_name = ''desktop.'' @ capability, i_depends_on = [], i_kind = Desktop,
                    i_capability = Some capability, i_payload = JObj items\<rparr>] s of
             (s', Inl x) \<Rightarrow> (s', Inl x)
           | (s', Inr child) \<Rightarrow>
               (record_agent w c ''agent.desktop_task_requested''
                  (JObj [(''task_id'', JStr (t_id child)), (''capability'', JStr capability)]) s',
                Inr [(''task_id'', JStr (t_id child)), (''status'', JStr (task_status_text (t_status child))),
                     (''capability'', JStr capability)])))"

definition stage_step :: "world_of_worker \<Rightarrow> claim \<Rightarrow> string \<Rightarrow> nat \<times> wf_stage \<Rightarrow> step_in result" where
  "stage_step w c preview = (\<lambda>(index, st).
     andThen (workspace_payload (payload_digest w) (we_canon w) (cl_task c) (wf_capability st)
                (case wf_payload st of JObj kvs \<Rightarrow> kvs | _ \<Rightarrow> []) (Some (wf_name st)) index preview)
       (\<lambda>items. Inr \<lparr>i_name = ''desktop.'' @ wf_name st, i_depends_on = wf_deps st, i_kind = Desktop,
                      i_capability = Some (wf_capability st), i_payload = JObj items\<rparr>))"

definition desktop_workflow_requester :: "world_of_worker \<Rightarrow> claim \<Rightarrow> string \<Rightarrow> json \<Rightarrow> wstate \<Rightarrow> wstate requested" where
  "desktop_workflow_requester w c preview raw_stages s =
     (case validate_workflow (we_coerce w) (we_encoded w) raw_stages of
        Inl x \<Rightarrow> (s, Inl x)
      | Inr stages \<Rightarrow>
          (case each (stage_step w c preview) (enumerate_from 0 stages) of
             Inl x \<Rightarrow> (s, Inl x)
           | Inr ins \<Rightarrow>
               (case create_child w c (''Desktop workflow: '' @ take 64 preview) preview ins s of
                  (s', Inl x) \<Rightarrow> (s', Inl x)
                | (s', Inr child) \<Rightarrow>
                    (record_agent w c ''agent.desktop_workflow_requested''
                       (JObj ((''task_id'', JStr (t_id child)) # summary_items stages)) s',
                     Inr ([(''task_id'', JStr (t_id child)), (''status'', JStr (task_status_text (t_status child)))]
                          @ summary_items stages)))))"

section \<open>The agent\<close>

definition worker_registry :: "world_of_worker \<Rightarrow> claim \<Rightarrow> wstate tool list" where
  "worker_registry w c =
     we_tools w @
     [desktop_action_tool (we_coerce w) (we_dump w) (Some (desktop_requester w c)),
      desktop_workflow_tool (we_coerce w) (we_encoded w) (we_dump w) (Some (desktop_workflow_requester w c))]"

definition tool_call :: "wstate tool list \<Rightarrow> string \<Rightarrow> json \<Rightarrow> wstate \<Rightarrow> wstate \<times> tool_reply" where
  "tool_call reg name arguments s =
     (case invoke_tool reg name arguments s of
        (s', Inr res) \<Rightarrow> (s', Content (tr_content res))
      | (s', Inl (Tool_Fault m)) \<Rightarrow> (s', Tool_Error m)
      | (s', Inl (Other_Fault kind)) \<Rightarrow>
          (s', if kind = ''TimeoutError'' then Tool_Timeout else Tool_Raised kind))"

definition step_env :: "world_of_worker \<Rightarrow> claim \<Rightarrow> profile \<Rightarrow> wstate agent_env" where
  "step_env w c p =
     \<lparr>ae_configured = (mp_url p \<noteq> [] \<and> mp_key p \<noteq> [] \<and> mp_model p \<noteq> []), ae_mono = we_mono w,
      ae_complete = we_complete w p, ae_stream = None,
      ae_specs = we_dump w (JArr (map (JStr \<circ> tl_name) (describe_tools (worker_registry w c)))),
      ae_invoke = tool_call (worker_registry w c), ae_event = record_agent w c,
      ae_parse = ou_parse (we_out w), ae_canon = we_canon w\<rparr>"

definition requested_profile :: "claim \<Rightarrow> string option" where
  "requested_profile c = (case jget ''model_profile'' (cl_payload c) of Some (JStr s) \<Rightarrow> Some s | _ \<Rightarrow> None)"

text \<open>\<open>requested or settings.llm_default_profile or None\<close>.\<close>

definition wanted_profile :: "world_of_worker \<Rightarrow> string option \<Rightarrow> string option" where
  "wanted_profile w requested =
     (let name = opt_or requested (we_default_profile w) in if name = [] then None else Some name)"

section \<open>The executors\<close>

definition finish_hosted :: "world_of_worker \<Rightarrow> claim \<Rightarrow> string \<Rightarrow> wstate \<Rightarrow> wstate \<times> (fault + unit)" where
  "finish_hosted w c text' = (\<lambda>(db, n).
     (case complete_step (we_env w n) (cl_step c) (t_account (cl_task c)) text' None None db of
        Inl x \<Rightarrow> ((db, Suc n), Inl (fault_of x))
      | Inr db' \<Rightarrow> ((db', Suc n), Inr ())))"

definition run_agent :: "world_of_worker \<Rightarrow> claim \<Rightarrow> string \<Rightarrow> wstate \<Rightarrow> wstate \<times> (fault + unit)" where
  "run_agent w c background s =
     (case resolve_profile (we_out w) (we_profiles w) (wanted_profile w (requested_profile c)) (we_fallback w) of
        Inl x \<Rightarrow> (s, Inl (fault_of x))
      | Inr p \<Rightarrow>
          (case run_agent_step (step_env w c p) (new_limits 15 20 max_agent_time) (t_objective (cl_task c)) background s of
             (r, Inl msg) \<Rightarrow> (ar_state r, Inl (Fault (plain_exn msg)))
           | (r, Inr (answer, used)) \<Rightarrow> finish_hosted w c answer (memory_write w c answer (ar_state r))))"

definition run_sandbox :: "world_of_worker \<Rightarrow> claim \<Rightarrow> wstate \<Rightarrow> wstate \<times> (fault + unit)" where
  "run_sandbox w c s =
     (case task_is_approved (t_id (cl_task c)) (t_account (cl_task c)) (fst s) of
        Inl x \<Rightarrow> (s, Inl (fault_of x))
      | Inr approved \<Rightarrow>
          (if \<not> approved then (s, Inl (Fault (plain_exn ''Sandbox execution requires an approval-gated task.'')))
           else if truth (cl_payload c) \<and> \<not> is_obj (cl_payload c)
           then (s, Inl (Fault (plain_exn ''object has no attribute get'')))
           else
             (case jget ''command'' (cl_payload c) of
                Some (JStr command) \<Rightarrow>
                  (case we_sandbox w command of Inl x \<Rightarrow> (s, Inl (Fault x)) | Inr result \<Rightarrow> finish_hosted w c result s)
              | _ \<Rightarrow> (s, Inl (Fault (plain_exn ''Sandbox step requires a command payload.''))))))"

definition run_research :: "world_of_worker \<Rightarrow> claim \<Rightarrow> wstate \<Rightarrow> wstate \<times> (fault + unit)" where
  "run_research w c s =
     (case we_research w c (fst s) of
        (db, Inl x) \<Rightarrow> ((db, snd s), Inl (Fault x))
      | (db, Inr oc) \<Rightarrow>
          finish_hosted w c (oc_text oc) (if oc_report oc = [] then (db, snd s) else memory_write w c (oc_report oc) (db, snd s)))"

definition run_capture :: "world_of_worker \<Rightarrow> claim \<Rightarrow> wstate \<Rightarrow> wstate \<times> (fault + unit)" where
  "run_capture w c s =
     (case we_capture w c (fst s) of
        (db, Inl x) \<Rightarrow> ((db, snd s), Inl (Fault x))
      | (db, Inr result) \<Rightarrow> finish_hosted w c result (db, snd s))"

definition memory_result :: string where
  "memory_result = ''Memory context retrieved and durable outcome recorded.''"

definition agent_names :: "string list" where
  "agent_names = [''agent.execute'', ''execute_task'']"

text \<open>The \<open>try\<close> block of \<open>run_once\<close>: the executor is chosen by the step's name, then by its kind.\<close>

definition attempt :: "world_of_worker \<Rightarrow> claim \<Rightarrow> wstate \<Rightarrow> wstate \<times> (fault + unit)" where
  "attempt w c s =
     (let (s, background) = memory_context w c s; name = cl_name c in
      if name = ''memory_only'' then finish_hosted w c memory_result (memory_write w c memory_result s)
      else if starts_with name ''research.'' then run_research w c s
      else if name = ''capture.process'' then run_capture w c s
      else if name \<in> set agent_names then run_agent w c background s
      else if cl_kind c = Sandbox then run_sandbox w c s
      else (s, Inl (Unsupported (''No executor is registered for hosted task '' @ [CHR 0x27]
              @ or_text name ''unknown'' @ [CHR 0x27] @ ''.''))))"

section \<open>Failures\<close>

fun fault_exn :: "fault \<Rightarrow> exn" where
  "fault_exn (Unsupported m) = plain_exn m"
| "fault_exn (Fault x) = x"

definition retryable_kinds :: "llm_kind list" where
  "retryable_kinds = [K_RateLimit, K_ProviderDown, K_Timeout, K_Network]"

text \<open>The text recorded for a failure and whether it may be tried again.\<close>

definition failure_report :: "world_of_worker \<Rightarrow> claim \<Rightarrow> fault \<Rightarrow> string \<times> bool" where
  "failure_report w c f =
     (let kind = (if cl_name c \<in> set agent_names then classify (fault_exn f) else K_Unknown) in
      if kind \<noteq> K_Unknown then (user_message (fb_provider (we_fallback w)) kind, kind \<in> set retryable_kinds)
      else (x_text (fault_exn f), (case f of Unsupported _ \<Rightarrow> False | Fault _ \<Rightarrow> True)))"

definition report_failure :: "world_of_worker \<Rightarrow> claim \<Rightarrow> fault \<Rightarrow> wstate \<Rightarrow> wstate \<times> bool result" where
  "report_failure w c f = (\<lambda>(db, n).
     (let (safe_error, retryable) = failure_report w c f in
      case fail_step (we_env w n) (cl_step c) (t_account (cl_task c)) safe_error 5 retryable db of
        Inl x \<Rightarrow> ((db, Suc n), Inl x)
      | Inr (db', _) \<Rightarrow> ((db', Suc n), Inr True)))"

section \<open>One pass\<close>

definition run_once :: "world_of_worker \<Rightarrow> bool option \<Rightarrow> store \<Rightarrow> wstate \<times> bool result" where
  "run_once w sandbox_enabled db =
     (let kinds = (if sandbox_enabled \<noteq> Some False then [Hosted, Sandbox] else [Hosted]) in
      case claim_one (we_env w 0) ''worker'' 60 kinds db of
        (db, None) \<Rightarrow> ((db, 1), Inr False)
      | (db, Some c) \<Rightarrow>
          (if t_status (cl_task c) = T_Waiting then ((db, 1), Inr True)
           else
             (case attempt w c (db, 1) of
                (s, Inr _) \<Rightarrow> (s, Inr True)
              | (s, Inl f) \<Rightarrow> report_failure w c f s)))"

end
