(* ===== verification/HostedRun.thy ===== *)
theory HostedRun
  imports HostedWorker Reachable
begin

text \<open>
  What a pass of the hosted worker keeps: a locale states which store calls an executor is made of, and its
  lemma lifts a property of those calls to the whole \<open>try\<close> block, whatever the model, the tools and the
  services answer. It is interpreted twice: for the leases, and for the engine with its desktop gate.
\<close>

section \<open>Executors\<close>

locale executor_calls =
  fixes w :: world_of_worker and c :: claim and P :: "wstate \<Rightarrow> bool"
  assumes event: "P (db, n) \<Longrightarrow> P (append_event (we_env w n) tid k p db, Suc n)"
    and child: "P s \<Longrightarrow> ins \<noteq> [] \<Longrightarrow> \<forall>i \<in> set ins. i_kind i = Desktop \<Longrightarrow> P (fst (create_child w c title preview ins s))"
    and research: "P s \<Longrightarrow> P (fst (we_research w c (fst s)), snd s)"
    and capture: "P s \<Longrightarrow> P (fst (we_capture w c (fst s)), snd s)"
    and outer_tool: "t \<in> set (we_tools w) \<Longrightarrow> P s \<Longrightarrow> P (fst (tl_run t a s))"
begin

lemma record_kept: "P s \<Longrightarrow> P (record_agent w c k p s)"
  by (cases s) (simp add: record_agent_def event)

lemma outage_kept: "P s \<Longrightarrow> P (note_outage w c k s)"
  by (cases s) (simp add: note_outage_def event)

lemma memory_kept: "P s \<Longrightarrow> P (memory_write w c r s)" "P s \<Longrightarrow> P (fst (memory_context w c s))"
  by (auto simp: memory_write_def memory_context_def outage_kept split: option.splits sum.splits)

lemma action_kept:
  assumes "P s"
  shows "P (fst (desktop_requester w c capability preview payload s))"
proof -
  have "P s'" if "create_child w c title p ins s = (s', x)" "ins \<noteq> []" "\<forall>i \<in> set ins. i_kind i = Desktop" for s' x title p ins
    using child [OF assms that(2,3), of title p] that(1) by simp
  then show ?thesis
    using assms unfolding desktop_requester_def
    by (fastforce split: sum.splits prod.splits intro: record_kept)
qed

lemma stage_steps:
  assumes "each (stage_step w c preview) items = Inr ins"
  shows "length ins = length items \<and> (\<forall>i \<in> set ins. i_kind i = Desktop)"
  using assms
proof (induction items arbitrary: ins)
  case (Cons it items)
  then obtain i ins' where "stage_step w c preview it = Inr i" "each (stage_step w c preview) items = Inr ins'" "ins = i # ins'"
    by auto
  moreover from this(1) have "i_kind i = Desktop" by (auto simp: stage_step_def split: prod.splits)
  ultimately show ?case using Cons.IH by simp
qed simp

lemma workflow_nonempty: "validate_workflow coerce encoded stages = Inr sts \<Longrightarrow> sts \<noteq> []"
  by (auto simp: validate_workflow_def split: json.splits if_splits dest!: check_wf_stages_ok)

lemma workflow_kept:
  assumes "P s"
  shows "P (fst (desktop_workflow_requester w c preview stages s))"
proof (cases "validate_workflow (we_coerce w) (we_encoded w) stages")
  case (Inr sts)
  show ?thesis
  proof (cases "each (stage_step w c preview) (enumerate_from 0 sts)")
    case ins: (Inr ins)
    obtain s' x where ch: "create_child w c (''Desktop workflow: '' @ take 64 preview) preview ins s = (s', x)" by fastforce
    have "ins \<noteq> []" "\<forall>i \<in> set ins. i_kind i = Desktop"
      using stage_steps [OF ins] workflow_nonempty [OF Inr] by auto
    then have "P s'" using child [OF assms, of ins "''Desktop workflow: '' @ take 64 preview" preview] ch by simp
    with Inr ins ch show ?thesis by (auto simp: desktop_workflow_requester_def intro: record_kept split: sum.splits)
  qed (use assms Inr in \<open>simp add: desktop_workflow_requester_def\<close>)
qed (use assms in \<open>simp add: desktop_workflow_requester_def\<close>)

lemma registry_kept: "t \<in> set (worker_registry w c) \<Longrightarrow> P s \<Longrightarrow> P (fst (tl_run t a s))"
proof -
  assume t: "t \<in> set (worker_registry w c)" and P: "P s"
  have act: "P (fst (desktop_action_run coerce dump (Some (desktop_requester w c)) a s))" for coerce dump
    using P action_kept [OF P]
    by (auto simp: desktop_action_run_def split: sum.splits prod.splits) (metis fst_conv)+
  have flow: "P (fst (desktop_workflow_run coerce encoded dump (Some (desktop_workflow_requester w c)) a s))" for coerce encoded dump
  proof -
    have "P s'" if "desktop_workflow_requester w c p sts s = (s', x)" for p sts s' x
      using workflow_kept [OF P, of p sts] that by simp
    then show ?thesis using P
      by (auto simp: desktop_workflow_run_def split: sum.splits prod.splits json.splits py_error.splits)
  qed
  from t show ?thesis
    by (auto simp: worker_registry_def desktop_action_tool_def desktop_workflow_tool_def act flow intro: outer_tool P)
qed

lemma call_kept: "P s \<Longrightarrow> P (fst (tool_call (worker_registry w c) name a s))"
  using invoke_tool_state [where P = P and s = s and reg = "worker_registry w c" and name = name and arguments = a]
  by (auto simp: tool_call_def registry_kept split: prod.splits sum.splits tool_fault.splits)

lemma agent_kept:
  assumes "run_agent_step (step_env w c p) limits obj background s = (r, x)" and "P s"
  shows "P (ar_state r)"
  by (rule run_agent_step_state [where P = P, OF assms]) (simp_all add: step_env_def call_kept record_kept)

text \<open>The \<open>try\<close> block either stops in a kept state or goes into the completion from one.\<close>

definition stops :: "wstate \<times> (fault + unit) \<Rightarrow> bool" where
  "stops res \<longleftrightarrow> (\<exists>f. snd res = Inl f) \<and> P (fst res) \<or> (\<exists>r s. P s \<and> res = finish_hosted w c r s)"

lemma stops_fault: "P s \<Longrightarrow> stops (s, Inl f)"
  by (auto simp: stops_def)

lemma stops_finish: "P s \<Longrightarrow> stops (finish_hosted w c r s)"
  unfolding stops_def by blast

lemma agent_stops: "P s \<Longrightarrow> stops (run_agent w c background s)"
  by (auto simp: run_agent_def split: sum.splits prod.splits intro!: stops_fault stops_finish memory_kept agent_kept)

lemma sandbox_stops: "P s \<Longrightarrow> stops (run_sandbox w c s)"
  unfolding run_sandbox_def
  by (auto split: sum.splits option.splits json.splits intro!: stops_fault stops_finish)

lemma research_stops: "P s \<Longrightarrow> stops (run_research w c s)"
  using research [of s]
  by (auto simp: run_research_def split: sum.splits prod.splits intro!: stops_fault stops_finish memory_kept)

lemma capture_stops: "P s \<Longrightarrow> stops (run_capture w c s)"
  using capture [of s]
  by (auto simp: run_capture_def split: sum.splits prod.splits intro!: stops_fault stops_finish)

lemma attempt_stops:
  assumes "P s"
  shows "stops (attempt w c s)"
proof -
  obtain s' background where m: "memory_context w c s = (s', background)" by fastforce
  then have P: "P s'" using memory_kept(2) [OF assms] by simp
  show ?thesis
    unfolding attempt_def m Let_def
    by (simp add: stops_finish stops_fault memory_kept(1) [OF P] P research_stops capture_stops agent_stops sandbox_stops)
qed

end

section \<open>Creating desktop work\<close>

text \<open>What is relied on: the other services write only the tables of their own, and no identifier is drawn twice.\<close>

definition engine_tables :: "store \<Rightarrow> store \<Rightarrow> bool" where
  "engine_tables db db' \<longleftrightarrow> tasks db' = tasks db \<and> steps db' = steps db \<and> deps db' = deps db \<and> runs db' = runs db
     \<and> dead_letters db' = dead_letters db \<and> executors db' = executors db"

definition tame :: "world_of_worker \<Rightarrow> bool" where
  "tame w \<longleftrightarrow> (\<forall>c db. engine_tables db (fst (we_research w c db)) \<and> engine_tables db (fst (we_capture w c db)))
     \<and> (\<forall>t a s. t \<in> set (we_tools w) \<longrightarrow> fst (tl_run t a s) = s)"

definition draws_apart :: "world_of_worker \<Rightarrow> bool" where
  "draws_apart w \<longleftrightarrow> (\<forall>m n p q. m \<noteq> n \<longrightarrow> uuid (we_env w m) p \<noteq> uuid (we_env w n) q)"

definition fresh_from :: "world_of_worker \<Rightarrow> nat \<Rightarrow> store \<Rightarrow> bool" where
  "fresh_from w n db \<longleftrightarrow> (\<forall>m \<ge> n. fresh (we_env w m) db)"

lemma fresh_from_Suc: "fresh_from w n db \<Longrightarrow> fresh_from w (Suc n) db"
  by (simp add: fresh_from_def)

lemma fresh_ids_cong:
  "t_id ` set (tasks db') = t_id ` set (tasks db) \<Longrightarrow> s_id ` set (steps db') = s_id ` set (steps db) \<Longrightarrow>
     r_id ` set (runs db') = r_id ` set (runs db) \<Longrightarrow> deps db' = deps db \<Longrightarrow> fresh e db' = fresh e db"
  by (simp add: fresh_def)

lemma insert_task_fresh_apart:
  assumes ins: "insert_task e acct ws title objective req ins mode now db = Inr (db1, tid)"
    and apart: "\<And>p q. uuid e' p \<noteq> uuid e q" and "fresh e' db"
  shows "fresh e' db1"
proof -
  define rows where "rows = step_rows e tid (''run_'' @ uuid e [1]) now (if ins = [] then default_steps else ins)"
  obtain t D where t: "tasks db1 = tasks db @ [t]" "steps db1 = steps db @ rows" "deps db1 = deps db @ D"
      "t_id t = ''task_'' @ uuid e [0]" "d_step ` set D \<subseteq> s_id ` set rows" "d_parent ` set D \<subseteq> s_id ` set rows"
      "r_id ` set (runs db1) = insert (''run_'' @ uuid e [1]) (r_id ` set (runs db))"
    using insert_task_tables [OF ins] unfolding rows_def by fastforce
  have new: "''step_'' @ uuid e' p \<notin> s_id ` set rows" for p
    using apart unfolding rows_def by (auto simp: in_step_rows step_row_def step_id_def)
  then have newD: "''step_'' @ uuid e' p \<notin> d_step ` set D" "''step_'' @ uuid e' p \<notin> d_parent ` set D" for p
    using t(5,6) by blast+
  show ?thesis
    using assms(3) t apart new newD by (simp add: fresh_def image_Un)
qed

lemma insert_task_row:
  "insert_task e acct ws title objective req ins mode now db = Inr (db', tid) \<Longrightarrow>
     \<exists>mode'. tasks db' = tasks db @ [\<lparr>t_id = tid, t_account = acct, t_workspace = ws, t_title = title, t_objective = objective,
        t_status = T_Queued, t_requires_approval = req, t_approval_mode = mode', t_created_at = now, t_updated_at = now,
        t_cancel_requested = False, t_result = None\<rparr>] \<and> tid = ''task_'' @ uuid e [0]"
  by (auto simp: insert_task_def Let_def split: if_splits)

text \<open>A created and surfaced child: one new waiting task with queued steps, nothing else of the engine changed.\<close>

definition child_added :: "env \<Rightarrow> string \<Rightarrow> step_in list \<Rightarrow> store \<Rightarrow> store \<Rightarrow> task \<Rightarrow> bool" where
  "child_added e acct ins db db' t \<longleftrightarrow>
     tasks db' = tasks db @ [t] \<and> t_id t = ''task_'' @ uuid e [0] \<and> t_account t = acct
     \<and> t_status t = T_Waiting \<and> t_requires_approval t
     \<and> (\<exists>now. steps db' = steps db @ step_rows e (t_id t) (''run_'' @ uuid e [1]) now ins)"

lemma create_child_made:
  assumes ch: "create_task (we_env w n) acct ws title preview True ins ''desktop'' db = Inr (db1, t1)"
    and fr: "fresh (we_env w n) db" and "ins \<noteq> []"
  shows "\<exists>db2 t. request_approval (we_env w (Suc n)) (t_id t1) acct db1 = Inr (db2, t)
     \<and> child_added (we_env w n) acct ins db db2 (t\<lparr>t_updated_at := clk (we_env w (Suc n)) 0\<rparr>)"
proof -
  obtain db0 tid where i: "insert_task (we_env w n) acct ws title preview True ins ''desktop'' (clk (we_env w n) 0) db = Inr (db0, tid)"
    and g: "get_task tid acct db0 = Inr t1" and db1: "db1 = publish ''task.created'' (Some tid) db0"
    using ch by (auto simp: create_task_def split: prod.splits)
  obtain row where row: "tasks db0 = tasks db @ [row]" "t_id row = tid" "t_account row = acct" "t_status row = T_Queued"
      "t_requires_approval row" "tid = ''task_'' @ uuid (we_env w n) [0]"
    using insert_task_row [OF i] by fastforce
  have new: "tid \<notin> t_id ` set (tasks db)" using fresh_ids(4) [OF fr] row(6) by simp
  then have only: "filter (\<lambda>t. t_id t = tid \<and> t_account t = acct) (tasks db) = []"
    by (auto simp: filter_empty_conv image_iff)
  then have t1: "t1 = row" using g row by (auto simp: get_task_def fetchone_Cons)
  have get: "get_task tid acct db1 = Inr row" using g t1 db1 by (simp add: get_task_def)
  have others: "\<not> (t_id x = tid \<and> t_account x = acct \<and> t_status x = T_Queued)" if "x \<in> set (tasks db)" for x
    using that new by auto
  have upd: "upd (\<lambda>r. t_id r = tid \<and> t_account r = acct \<and> t_status r = T_Queued) f (tasks db) = tasks db" for f
    using others by (rule upd_id)
  obtain now where "steps db0 = steps db @ step_rows (we_env w n) tid (''run_'' @ uuid (we_env w n) [1]) now ins"
    using insert_task_tables [OF i] assms(3) by auto
  then show ?thesis
    using get row t1 upd
    by (auto simp: request_approval_def Let_def child_added_def upd_tasks_def db1 upd_append)
qed

section \<open>The engine under a pass\<close>

text \<open>
  \<open>calm\<close>: the steps of the start are still there unchanged, none of the others runs, and every task keeps its
  account. \<open>gated\<close>: a step that is new belongs to a new task of the account, a desktop step that waits for
  the user's approval.
\<close>

definition owners :: "store \<Rightarrow> (string \<times> string) set" where
  "owners db = (\<lambda>t. (t_id t, t_account t)) ` set (tasks db)"

definition calm :: "store \<Rightarrow> store \<Rightarrow> bool" where
  "calm db0 db \<longleftrightarrow> set (steps db0) \<subseteq> set (steps db) \<and> (\<forall>s \<in> set (steps db). s_status s = S_Running \<longrightarrow> s \<in> set (steps db0))
     \<and> owners db0 \<subseteq> owners db"

definition awaits :: "string \<Rightarrow> store \<Rightarrow> task \<Rightarrow> bool" where
  "awaits acct db0 t \<longleftrightarrow> t_id t \<notin> t_id ` set (tasks db0) \<and> t_account t = acct \<and> t_status t = T_Waiting \<and> t_requires_approval t"

definition gated_step :: "string \<Rightarrow> store \<Rightarrow> store \<Rightarrow> step \<Rightarrow> bool" where
  "gated_step acct db0 db s \<longleftrightarrow> s_id s \<in> s_id ` set (steps db0)
     \<or> s_kind s = Desktop \<and> s_status s = S_Queued \<and> (\<exists>t \<in> set (tasks db). t_id t = s_task s \<and> awaits acct db0 t)"

definition gated :: "string \<Rightarrow> store \<Rightarrow> store \<Rightarrow> bool" where
  "gated acct db0 db \<longleftrightarrow> (\<forall>s \<in> set (steps db). gated_step acct db0 db s)"

definition pass_inv :: "world_of_worker \<Rightarrow> claim \<Rightarrow> store \<Rightarrow> wstate \<Rightarrow> bool" where
  "pass_inv w c db0 s \<longleftrightarrow> reach engine empty_store (fst s) \<and> fresh_from w (snd s) (fst s)
     \<and> calm db0 (fst s) \<and> gated (t_account (cl_task c)) db0 (fst s)"

lemma calm_refl [simp]: "calm db db"
  by (auto simp: calm_def)

lemma calm_ids: "calm db0 db \<Longrightarrow> t_id ` set (tasks db0) \<subseteq> t_id ` set (tasks db)"
proof -
  have "t_id ` set (tasks x) = fst ` owners x" for x by (simp add: owners_def image_image)
  then show "calm db0 db \<Longrightarrow> ?thesis" by (auto simp: calm_def)
qed

lemma gated_refl [simp]: "gated acct db db"
  by (auto simp: gated_def gated_step_def)

lemma engine_tables_inv:
  assumes "engine_tables db db'" and "pass_inv w c db0 (db, n)" and "n \<le> m"
  shows "pass_inv w c db0 (db', m)"
proof -
  have "reach engine empty_store db'"
    using assms(1,2) by (auto simp: pass_inv_def engine_tables_def intro: reach.more [where step = engine, OF _ engine.elsewhere])
  moreover have "fresh_from w m db'"
    using assms fresh_cong [of db' db] by (auto simp: pass_inv_def engine_tables_def fresh_from_def)
  ultimately show ?thesis
    using assms(1,2) by (simp add: pass_inv_def engine_tables_def calm_def gated_def gated_step_def owners_def)
qed

lemma engine_tables_append: "engine_tables db (append_event e tid k p db)"
  by (simp add: engine_tables_def append_event_def)

lemma child_added_kept:
  assumes "child_added e (t_account (cl_task c)) ins db db' t" and "\<forall>i \<in> set ins. i_kind i = Desktop"
    and "calm db0 db" and "gated (t_account (cl_task c)) db0 db" and "fresh e db"
  shows "calm db0 db'" and "gated (t_account (cl_task c)) db0 db'"
proof -
  let ?a = "t_account (cl_task c)"
  obtain now where S: "steps db' = steps db @ step_rows e (t_id t) (''run_'' @ uuid e [1]) now ins"
    and T: "tasks db' = tasks db @ [t]" "t_id t = ''task_'' @ uuid e [0]" "t_account t = ?a" "t_status t = T_Waiting" "t_requires_approval t"
    using assms(1) by (auto simp: child_added_def)
  have rows: "s_status s = S_Queued \<and> s_task s = t_id t \<and> s_kind s = Desktop"
    if "s \<in> set (step_rows e (t_id t) (''run_'' @ uuid e [1]) now ins)" for s
    using that assms(2) by (auto simp: in_step_rows step_row_def)
  show "calm db0 db'" using assms(3) rows by (auto simp: calm_def owners_def S T(1))
  have "t_id t \<notin> t_id ` set (tasks db)" using fresh_ids(4) [OF assms(5)] T(2) by simp
  moreover have "t_id ` set (tasks db0) \<subseteq> t_id ` set (tasks db)"
    using assms(3) calm_ids by blast
  ultimately have "t_id t \<notin> t_id ` set (tasks db0)" by blast
  then have "awaits ?a db0 t" using T by (simp add: awaits_def)
  then show "gated ?a db0 db'" using assms(4) rows by (auto simp: gated_def gated_step_def S T(1))
qed

lemma fresh_after_child:
  assumes "create_task (we_env w n) acct ws title obj req ins mode db = Inr (db1, t)" and "draws_apart w"
    and "fresh_from w n db"
  shows "fresh_from w (Suc n) db1"
proof -
  obtain db2 tid where i: "insert_task (we_env w n) acct ws title obj req ins mode (clk (we_env w n) 0) db = Inr (db2, tid)"
    and db1: "db1 = publish ''task.created'' (Some tid) db2"
    using assms(1) by (auto simp: create_task_def split: prod.splits)
  have "fresh (we_env w m) db2" if "Suc n \<le> m" for m
    using insert_task_fresh_apart [OF i, of "we_env w m"] assms(2,3) that by (simp add: draws_apart_def fresh_from_def)
  then show ?thesis using fresh_cong [of db1 db2] by (simp add: fresh_from_def db1)
qed

lemma fresh_request:
  assumes "request_approval e tid acct db = Inr (db', t)"
  shows "fresh e' db' = fresh e' db"
proof (rule fresh_ids_cong)
  have "t_id ` set (upd (\<lambda>r. t_id r = tid \<and> t_account r = acct \<and> t_status r = T_Queued)
      (\<lambda>r. r\<lparr>t_status := T_Waiting, t_updated_at := clk e 0\<rparr>) (tasks db)) = t_id ` set (tasks db)"
    by (rule image_upd) simp
  then show "t_id ` set (tasks db') = t_id ` set (tasks db)"
    using assms by (auto simp: request_approval_def Let_def upd_tasks_def simp del: in_upd split: if_splits)
qed (use assms in \<open>auto simp: request_approval_def Let_def upd_tasks_def split: if_splits\<close>)

lemma create_child_inv:
  assumes "draws_apart w" and inv: "pass_inv w c db0 s" and ins: "ins \<noteq> []" "\<forall>i \<in> set ins. i_kind i = Desktop"
  shows "pass_inv w c db0 (fst (create_child w c title preview ins s))"
proof -
  obtain db n where s: "s = (db, n)" by fastforce
  have I: "reach engine empty_store db" "fresh_from w n db" "calm db0 db" "gated (t_account (cl_task c)) db0 db"
    using inv by (auto simp: pass_inv_def s)
  then have fr: "fresh (we_env w n) db" by (simp add: fresh_from_def)
  let ?make = "create_task (we_env w n) (t_account (cl_task c)) (t_workspace (cl_task c)) title preview True ins ''desktop'' db"
  show ?thesis
  proof (cases ?make)
    case (Inl x)
    then show ?thesis using I by (simp add: create_child_def Let_def s pass_inv_def fresh_from_Suc)
  next
    case (Inr p)
    obtain db1 t1 where p: "p = (db1, t1)" by fastforce
    note made = Inr [unfolded p]
    obtain db2 t where r: "request_approval (we_env w (Suc n)) (t_id t1) (t_account (cl_task c)) db1 = Inr (db2, t)"
      and added: "child_added (we_env w n) (t_account (cl_task c)) ins db db2 (t\<lparr>t_updated_at := clk (we_env w (Suc n)) 0\<rparr>)"
      using create_child_made [OF made fr ins(1)] by blast
    have "reach engine empty_store db2"
      using reach.more [where step = engine, OF reach.more [where step = engine, OF I(1) engine.created [OF made fr]] engine.approval_requested [OF r]] .
    moreover have "fresh_from w (Suc (Suc n)) db2"
      using fresh_after_child [OF made assms(1) I(2)] fresh_request [OF r] by (simp add: fresh_from_def)
    ultimately show ?thesis
      using child_added_kept [OF added ins(2) I(3,4) fr] made r by (simp add: create_child_def Let_def s pass_inv_def)
  qed
qed

interpretation pass: executor_calls w c "\<lambda>s. tame w \<and> draws_apart w \<longrightarrow> pass_inv w c db0 s" for w c db0
proof unfold_locales
  fix db n tid k p
  assume "tame w \<and> draws_apart w \<longrightarrow> pass_inv w c db0 (db, n)"
  then show "tame w \<and> draws_apart w \<longrightarrow> pass_inv w c db0 (append_event (we_env w n) tid k p db, Suc n)"
    using engine_tables_inv [OF engine_tables_append] by auto
next
  fix s :: wstate and ins :: "step_in list" and title preview
  assume "tame w \<and> draws_apart w \<longrightarrow> pass_inv w c db0 s" "ins \<noteq> []" "\<forall>i \<in> set ins. i_kind i = Desktop"
  then show "tame w \<and> draws_apart w \<longrightarrow> pass_inv w c db0 (fst (create_child w c title preview ins s))"
    using create_child_inv by blast
next
  fix s :: wstate
  assume "tame w \<and> draws_apart w \<longrightarrow> pass_inv w c db0 s"
  then show "tame w \<and> draws_apart w \<longrightarrow> pass_inv w c db0 (fst (we_research w c (fst s)), snd s)"
    and "tame w \<and> draws_apart w \<longrightarrow> pass_inv w c db0 (fst (we_capture w c (fst s)), snd s)"
    by (auto simp: tame_def intro: engine_tables_inv [of "fst s" _ w c db0 "snd s"])
next
  fix t a and s :: wstate
  assume "t \<in> set (we_tools w)" "tame w \<and> draws_apart w \<longrightarrow> pass_inv w c db0 s"
  then show "tame w \<and> draws_apart w \<longrightarrow> pass_inv w c db0 (fst (tl_run t a s))"
    by (cases s) (auto simp: tame_def)
qed

lemma attempt_inv:
  assumes "attempt w c s = (s', res)" and "pass_inv w c db0 s" and "tame w" and "draws_apart w"
  shows "(\<exists>f. res = Inl f \<and> pass_inv w c db0 s') \<or> (\<exists>r s1. pass_inv w c db0 s1 \<and> (s', res) = finish_hosted w c r s1)"
  using pass.attempt_stops [where w = w and c = c and s = s and ?db0.0 = db0] assms unfolding pass.stops_def by auto

section \<open>The claim\<close>

lemma recover_step_keeps:
  "s \<in> set (steps (recover_step e now i db)) \<Longrightarrow> s_status s = S_Running \<Longrightarrow> s \<in> set (steps db)"
  "s_id ` set (steps (recover_step e now i db)) = s_id ` set (steps db)"
  "owners (recover_step e now i db) = owners db"
  "r_id ` set (runs (recover_step e now i db)) = r_id ` set (runs db)" "deps (recover_step e now i db) = deps db"
  by (auto simp: recover_step_def Let_def upd_steps_def upd_tasks_def upd_runs_def owners_def image_upd in_upd split: prod.splits if_splits)

lemma recover_hosted_rows:
  "s \<in> set (steps (recover_hosted e now db)) \<Longrightarrow> s_status s = S_Running \<Longrightarrow> s \<in> set (steps db)"
  "s_id ` set (steps (recover_hosted e now db)) = s_id ` set (steps db)"
  "owners (recover_hosted e now db) = owners db"
  "r_id ` set (runs (recover_hosted e now db)) = r_id ` set (runs db)" "deps (recover_hosted e now db) = deps db"
proof -
  have "(s \<in> set (steps (fold (recover_step e now) is db)) \<longrightarrow> s_status s = S_Running \<longrightarrow> s \<in> set (steps db))
     \<and> s_id ` set (steps (fold (recover_step e now) is db)) = s_id ` set (steps db)
     \<and> owners (fold (recover_step e now) is db) = owners db
     \<and> r_id ` set (runs (fold (recover_step e now) is db)) = r_id ` set (runs db)
     \<and> deps (fold (recover_step e now) is db) = deps db" for "is"
  proof (induction "is" arbitrary: db)
    case (Cons i "is")
    show ?case using Cons [of "recover_step e now i db"] recover_step_keeps [where e = e and now = now and i = i and db = db] by auto
  qed simp
  then show "s \<in> set (steps (recover_hosted e now db)) \<Longrightarrow> s_status s = S_Running \<Longrightarrow> s \<in> set (steps db)"
    "s_id ` set (steps (recover_hosted e now db)) = s_id ` set (steps db)"
    "owners (recover_hosted e now db) = owners db"
    "r_id ` set (runs (recover_hosted e now db)) = r_id ` set (runs db)" "deps (recover_hosted e now db) = deps db"
    unfolding recover_hosted_def by blast+
qed

text \<open>What a claim that leased a step leaves.\<close>

lemma claimed_lease:
  assumes "claim_one e worker secs kinds db = (db1, Some c)" and "t_status (cl_task c) \<noteq> T_Waiting"
  obtains s where "s \<in> set (steps db1)" "s_id s = cl_step c" "s_status s = S_Running"
    "(s_task s, t_account (cl_task c)) \<in> owners db1"
    "\<forall>s' \<in> set (steps db1). s_status s' = S_Running \<longrightarrow> s' \<in> set (steps db) \<or> s_id s' = cl_step c"
    "s_id ` set (steps db1) = s_id ` set (steps db)" "owners db1 = owners db"
    "\<forall>e'. fresh e' db1 = fresh e' db"
  using assms(1)
proof (cases rule: claim_one_cases)
  case none
  then show ?thesis by simp
next
  case (surfaced t s)
  then have "t_status (cl_task c) = T_Waiting" by (auto simp: surface_approval_def Let_def claim_of_def)
  with assms(2) show ?thesis by simp
next
  case (leased t s)
  let ?db = "recover_hosted e (clk e 0) db"
  note rows = recover_hosted_rows [where e = e and now = "clk e 0" and db = db]
  have in_j: "t \<in> set (tasks ?db)" "s \<in> set (steps ?db)" "s_task s = t_id t" using leased(1) by (auto simp: in_joined)
  have S: "steps db1 = upd (step_is (s_id s)) (lease_step worker (clk e 1 + seconds secs)) (steps ?db)"
    and T: "tasks db1 = upd (task_is (t_id t)) (\<lambda>r. r\<lparr>t_status := T_Running, t_updated_at := clk e 0\<rparr>) (tasks ?db)"
    by (auto simp: leased(4) start_work_def upd_steps_def upd_tasks_def upd_runs_def)
  have C: "cl_step c = s_id s" "t_account (cl_task c) = t_account t" using leased(5) by (auto simp: claim_of_def)
  have own: "owners db1 = owners ?db" unfolding owners_def T by (rule image_upd) simp
  have R: "r_id ` set (runs db1) = r_id ` set (runs db)" "deps db1 = deps db"
    unfolding rows(4,5) [symmetric] leased(4) by (simp_all add: start_work_def upd_steps_def upd_tasks_def upd_runs_def image_upd)
  have T': "t_id ` set (tasks db1) = t_id ` set (tasks db)"
    using arg_cong [where f = "image fst", OF own [unfolded rows(3)]] by (simp add: owners_def image_image)
  have S': "s_id ` set (steps db1) = s_id ` set (steps db)"
    unfolding rows(2) [symmetric] S by (rule image_upd) (simp add: lease_step_def)
  show ?thesis
  proof (rule that [of "lease_step worker (clk e 1 + seconds secs) s"])
    show "lease_step worker (clk e 1 + seconds secs) s \<in> set (steps db1)" using in_j(2) by (auto simp: S in_upd)
    show "(s_task (lease_step worker (clk e 1 + seconds secs) s), t_account (cl_task c)) \<in> owners db1"
      unfolding own C using in_j(1,3) by (auto simp: owners_def lease_step_def)
    show "\<forall>s' \<in> set (steps db1). s_status s' = S_Running \<longrightarrow> s' \<in> set (steps db) \<or> s_id s' = cl_step c"
      using rows(1) by (auto simp: S C lease_step_def in_upd)
    show "s_id ` set (steps db1) = s_id ` set (steps db)" by (rule S')
    show "\<forall>e'. fresh e' db1 = fresh e' db" by (intro allI fresh_ids_cong [OF T' S' R])
  qed (simp_all add: C lease_step_def own rows(3))
qed

section \<open>The end of a pass\<close>

text \<open>How a completion or a recorded failure of the step \<open>sid\<close> of the task \<open>tid\<close> changes the engine.\<close>

definition settles :: "string \<Rightarrow> string \<Rightarrow> store \<Rightarrow> store \<Rightarrow> bool" where
  "settles sid tid db db' \<longleftrightarrow> s_id ` set (steps db') = s_id ` set (steps db)
     \<and> (\<forall>s \<in> set (steps db'). s_id s = sid \<and> s_status s \<noteq> S_Running \<or> s_id s \<noteq> sid \<and> s \<in> set (steps db))
     \<and> (\<forall>t \<in> set (tasks db). t_id t \<noteq> tid \<longrightarrow> t \<in> set (tasks db'))"

lemma upd_keeps_others: "t \<in> set ts \<Longrightarrow> \<not> P t \<Longrightarrow> t \<in> set (upd P f ts)"
  by (auto simp: upd_def image_iff intro: bexI [of _ t])

lemma settle_task_tables:
  "steps (settle_task e now tid rid r db) = steps db"
  "t \<in> set (tasks db) \<Longrightarrow> t_id t \<noteq> tid \<Longrightarrow> t \<in> set (tasks (settle_task e now tid rid r db))"
  by (auto simp: settle_task_def Let_def upd_tasks_def upd_runs_def intro: upd_keeps_others)

lemma record_artifact_tables [simp]:
  "steps (record_artifact e now tid sid ak an r db) = steps db" "tasks (record_artifact e now tid sid ak an r db) = tasks db"
  by (auto simp: record_artifact_def Let_def split: option.splits)

lemma complete_settles:
  assumes "complete_step e sid acct r ak an db = Inr db'" and "owned_step sid acct db = Inr row"
  shows "settles sid (s_task row) db db'"
proof -
  have S: "steps db' = upd (\<lambda>s. s_id s = sid \<and> s_status s = S_Running) finish_step (steps db)"
    using assms by (auto simp: complete_step_def Let_def settle_task_tables upd_steps_def)
  moreover have "s_id ` set (steps db') = s_id ` set (steps db)"
    unfolding S by (rule image_upd) (simp add: finish_step_def)
  moreover have "t \<in> set (tasks db')" if "t \<in> set (tasks db)" "t_id t \<noteq> s_task row" for t
    using assms that by (auto simp: complete_step_def Let_def upd_steps_def intro!: settle_task_tables(2))
  moreover have "\<forall>s \<in> set (steps db'). s_id s = sid \<and> s_status s \<noteq> S_Running \<or> s_id s \<noteq> sid \<and> s \<in> set (steps db)"
    unfolding S ball_upd by (auto simp: finish_step_def)
  ultimately show ?thesis by (simp add: settles_def)
qed

lemma fail_settles:
  assumes "fail_step e sid acct err delay retryable db = Inr (db', out)" and "owned_step sid acct db = Inr row"
  shows "settles sid (s_task row) db db'"
proof -
  have sid: "s_id row = sid" using owned_step_Inr [OF assms(2)] by simp
  obtain f where S: "steps db' = upd (step_is sid) f (steps db)" and f: "\<And>s. s_id (f s) = s_id s \<and> s_status (f s) \<noteq> S_Running"
    using assms sid
    by (fastforce simp: fail_step_def Let_def schedule_retry_def fail_terminally_def upd_steps_def upd_tasks_def upd_runs_def
        split: if_splits prod.splits)
  moreover have "s_id ` set (steps db') = s_id ` set (steps db)" unfolding S by (rule image_upd) (simp add: f)
  moreover have "t \<in> set (tasks db')" if "t \<in> set (tasks db)" "t_id t \<noteq> s_task row" for t
    using assms that
    by (auto simp: fail_step_def Let_def schedule_retry_def fail_terminally_def upd_steps_def upd_tasks_def upd_runs_def
        intro: upd_keeps_others split: if_splits prod.splits)
  moreover have "\<forall>s \<in> set (steps db'). s_id s = sid \<and> s_status s \<noteq> S_Running \<or> s_id s \<noteq> sid \<and> s \<in> set (steps db)"
    unfolding S ball_upd using f by auto
  ultimately show ?thesis by (simp add: settles_def)
qed

lemma fail_step_returns: "owned_step sid acct db = Inr row \<Longrightarrow> \<exists>db' out. fail_step e sid acct err delay retryable db = Inr (db', out)"
  by (cases "workspace_retry_limit e (s_payload row) (s_max_attempts row)") (simp add: fail_step_def Let_def)

lemma owned_step_found:
  assumes "s \<in> set (steps db)" "s_id s = sid" "(s_task s, acct) \<in> owners db"
  obtains row where "owned_step sid acct db = Inr row"
proof -
  have "s \<in> set (filter (\<lambda>s. s_id s = sid \<and> s_task s \<in> account_task_ids acct db) (steps db))"
    using assms by (auto simp: account_task_ids_def owners_def)
  then show thesis using that by (cases "filter (\<lambda>s. s_id s = sid \<and> s_task s \<in> account_task_ids acct db) (steps db)")
      (auto simp: owned_step_def)
qed

text \<open>Settling the claimed step in a state of the pass.\<close>

lemma settled_pass:
  assumes "settles sid tid db db'" and "calm db1 db" and "gated acct db1 db"
    and "sid \<in> s_id ` set (steps db1)" and "tid \<in> t_id ` set (tasks db1)"
  shows "gated acct db1 db'" and "\<And>s. s \<in> set (steps db') \<Longrightarrow> s_status s = S_Running \<Longrightarrow> s \<in> set (steps db1) \<and> s_id s \<noteq> sid"
proof -
  show "s \<in> set (steps db1) \<and> s_id s \<noteq> sid" if "s \<in> set (steps db')" "s_status s = S_Running" for s
    using assms(1,2) that by (fastforce simp: settles_def calm_def)
  show "gated acct db1 db'"
    unfolding gated_def
  proof
    fix s assume s: "s \<in> set (steps db')"
    show "gated_step acct db1 db' s"
    proof (cases "s_id s = sid")
      case True
      then show ?thesis using assms(4) by (simp add: gated_step_def)
    next
      case False
      with s assms(1,3) have "gated_step acct db1 db s" by (auto simp: settles_def gated_def)
      moreover have "t \<in> set (tasks db')" if "t \<in> set (tasks db)" "awaits acct db1 t" for t
        using assms(1,5) that by (auto simp: settles_def awaits_def)
      ultimately show ?thesis by (auto simp: gated_step_def)
    qed
  qed
qed

section \<open>A whole pass\<close>

text \<open>The state in which a claimed step was settled.\<close>

lemma settled_run:
  assumes inv: "pass_inv w c db1 (db, n)" and held: "s0 \<in> set (steps db1)" "s_id s0 = cl_step c" "(s_task s0, t_account (cl_task c)) \<in> owners db1"
  obtains row where "owned_step (cl_step c) (t_account (cl_task c)) db = Inr row" "s_task row = s_task s0" "s0 \<in> set (steps db)"
proof -
  have I: "reach engine empty_store db" "calm db1 db" using inv by (auto simp: pass_inv_def)
  then have s0: "s0 \<in> set (steps db)" "(s_task s0, t_account (cl_task c)) \<in> owners db"
    using held(1,3) by (auto simp: calm_def)
  obtain row where row: "owned_step (cl_step c) (t_account (cl_task c)) db = Inr row"
    by (rule owned_step_found [OF s0(1) held(2) s0(2)])
  then have "row = s0"
    using same_step_row [OF engine_machine.inv_reach [OF I(1)] _ s0(1)] owned_step_Inr [OF row] held(2) by metis
  with that [OF row] s0(1) show thesis by simp
qed

lemma run_once_pass:
  assumes run: "run_once w en db = (s', r)" and db: "reach engine empty_store db" and fr: "fresh_from w 1 db"
    and w: "tame w" "draws_apart w"
  shows "(\<exists>b. r = Inr b) \<and> reach engine empty_store (fst s')
    \<and> (\<forall>s \<in> set (steps (fst s')). s_status s = S_Running \<longrightarrow> s \<in> set (steps db))
    \<and> (s_id ` set (steps (fst s')) = s_id ` set (steps db) \<or> (\<exists>t \<in> set (tasks db). gated (t_account t) db (fst s')))"
proof -
  let ?kinds = "if en \<noteq> Some False then [Hosted, Sandbox] else [Hosted]"
  obtain db1 co where cl: "claim_one (we_env w 0) ''worker'' 60 ?kinds db = (db1, co)" by fastforce
  have db1: "reach engine empty_store db1" by (rule reach.more [where step = engine, OF db engine.claimed [OF cl]])
  show ?thesis
  proof (cases "co = None \<or> (\<exists>c. co = Some c \<and> t_status (cl_task c) = T_Waiting)")
    case True
    then have s': "fst s' = db1" "\<exists>b. r = Inr b" using run cl by (auto simp: run_once_def Let_def split: option.splits)
    have same: "steps db1 = steps (recover_hosted (we_env w 0) (clk (we_env w 0) 0) db)"
      using cl
    proof (cases rule: claim_one_cases)
      case (leased t s)
      with True show ?thesis by (auto simp: claim_of_def)
    qed (auto simp: surface_approval_def Let_def upd_tasks_def)
    then show ?thesis
      using s' db1 recover_hosted_rows(1) recover_hosted_rows(2) [of "we_env w 0" "clk (we_env w 0) 0" db] by (auto simp: same)
  next
    case False
    then obtain c where c: "co = Some c" "t_status (cl_task c) \<noteq> T_Waiting" by auto
    obtain s0 where s0: "s0 \<in> set (steps db1)" "s_id s0 = cl_step c" "s_status s0 = S_Running"
        "(s_task s0, t_account (cl_task c)) \<in> owners db1"
        "\<forall>s \<in> set (steps db1). s_status s = S_Running \<longrightarrow> s \<in> set (steps db) \<or> s_id s = cl_step c"
        "s_id ` set (steps db1) = s_id ` set (steps db)" "owners db1 = owners db" "\<forall>e'. fresh e' db1 = fresh e' db"
      by (rule claimed_lease [OF cl [unfolded c(1)] c(2)])
    let ?a = "t_account (cl_task c)"
    have inv: "pass_inv w c db1 (db1, 1)" using db1 fr s0(8) by (simp add: pass_inv_def fresh_from_def)
    have task: "s_task s0 \<in> t_id ` set (tasks db1)" using s0(4) by (auto simp: owners_def)
    have ids: "cl_step c \<in> s_id ` set (steps db1)" using s0(1,2) by force
    have ids_t: "t_id ` set (tasks db1) = t_id ` set (tasks db)"
      using arg_cong [where f = "image fst", OF s0(7)] by (simp add: owners_def image_image)
    have final: ?thesis
      if "pass_inv w c db1 (dbx, n)" "settles (cl_step c) (s_task s0) dbx (fst s')" "reach engine empty_store (fst s')" "\<exists>b. r = Inr b"
      for dbx n
    proof -
      have x: "calm db1 dbx" "gated ?a db1 dbx" using that(1) by (auto simp: pass_inv_def)
      note settled = settled_pass [OF that(2) x ids task]
      have "gated ?a db (fst s')" using settled(1) by (simp add: gated_def gated_step_def awaits_def s0(6) ids_t)
      moreover obtain t where "t \<in> set (tasks db)" "t_account t = ?a" using s0(4,7) by (auto simp: owners_def)
      ultimately have "\<exists>t \<in> set (tasks db). gated (t_account t) db (fst s')" by (intro bexI [of _ t]) simp_all
      then show ?thesis using that(3,4) settled(2) s0(5) by blast
    qed
    obtain sa res where att: "attempt w c (db1, 1) = (sa, res)" by fastforce
    have kinds: "run_once w en db = (case (sa, res) of (s, Inr _) \<Rightarrow> (s, Inr True) | (s, Inl f) \<Rightarrow> report_failure w c f s)"
      using cl c att by (simp add: run_once_def Let_def)
    have failed: ?thesis if sa: "pass_inv w c db1 (dbx, n)" and rep: "report_failure w c f (dbx, n) = (s', r)" for dbx n f
    proof -
      obtain row where row: "owned_step (cl_step c) ?a dbx = Inr row" "s_task row = s_task s0" "s0 \<in> set (steps dbx)"
        by (rule settled_run [OF sa s0(1,2,4)])
      obtain msg re where m: "failure_report w c f = (msg, re)" by fastforce
      obtain db' out where fs: "fail_step (we_env w n) (cl_step c) ?a msg 5 re dbx = Inr (db', out)"
        using fail_step_returns [OF row(1)] by blast
      then have s': "s' = (db', Suc n)" "r = Inr True" using rep m by (auto simp: report_failure_def)
      have "step_held (cl_step c) dbx" using row(3) s0(2,3) by (auto simp: step_held_def)
      with sa fs have "reach engine empty_store db'"
        by (auto simp: pass_inv_def intro: reach.more [where step = engine, OF _ engine.failed])
      then show ?thesis using fail_settles [OF fs row(1)] row(2) s' by (intro final [OF sa]) auto
    qed
    from attempt_inv [OF att inv w] show ?thesis
    proof (elim disjE exE conjE)
      fix f assume f: "res = Inl f" "pass_inv w c db1 sa"
      obtain dbx n where "sa = (dbx, n)" by fastforce
      with f failed run kinds show ?thesis by auto
    next
      fix answer s1 assume f: "pass_inv w c db1 s1" "(sa, res) = finish_hosted w c answer s1"
      obtain dbx n where s1: "s1 = (dbx, n)" by fastforce
      note sx = f(1) [unfolded s1]
      obtain row where row: "owned_step (cl_step c) ?a dbx = Inr row" "s_task row = s_task s0"
        by (rule settled_run [OF sx s0(1,2,4)])
      obtain db' where cs: "complete_step (we_env w n) (cl_step c) ?a answer None None dbx = Inr db'"
        using row(1) by (auto simp: complete_step_def Let_def)
      then have s': "s' = (db', Suc n)" "r = Inr True" using run kinds f(2) s1 by (auto simp: finish_hosted_def)
      have "reach engine empty_store db'"
        using sx cs by (auto simp: pass_inv_def intro: reach.more [where step = engine, OF _ engine.completed])
      then show ?thesis using complete_settles [OF cs row(1)] row(2) s' by (intro final [OF sx]) auto
    qed
  qed
qed

end
