(* ===== verification/HostedProps.thy ===== *)
theory HostedProps
  imports HostedRun Examples
begin

text \<open>
  The properties of the hosted worker (\<open>worker.py\<close>), of the agent step it runs (\<open>agent_step.py\<close>,
  \<open>tool_registry.py\<close>, \<open>streaming.py\<close>) and of the contracts they rest on (\<open>workflow.py\<close>,
  \<open>provider_routing.py\<close>, \<open>llm_errors.py\<close>).
\<close>

section \<open>An example world\<close>












section \<open>The worker\<close>








section \<open>The agent step\<close>




text \<open>
  The workflow tool hands its normalized stages to the requester, which validates them once more and refuses
  their extra key: inside the hosted worker it fails on every input and asks for nothing.
\<close>

theorem workflow_tool_refuses:
  "\<exists>m. desktop_workflow_run (we_coerce w) (we_encoded w) dump (Some (desktop_workflow_requester w c)) arguments s
     = (s, Inl (Tool_Fault m))"
proof (cases "\<exists>sts. validate_workflow (we_coerce w) (we_encoded w) (py_get ''stages'' arguments) = Inr sts")
  case True
  then obtain sts where "validate_workflow (we_coerce w) (we_encoded w) (py_get ''stages'' arguments) = Inr sts" by blast
  with normalized_workflow_refused [OF this] show ?thesis
    by (cases "py_get ''preview'' arguments") (auto simp: desktop_workflow_run_def desktop_workflow_requester_def)
next
  case False
  then obtain x where "validate_workflow (we_coerce w) (we_encoded w) (py_get ''stages'' arguments) = Inl x"
    by (cases "validate_workflow (we_coerce w) (we_encoded w) (py_get ''stages'' arguments)") auto
  then show ?thesis by (cases "py_get ''preview'' arguments") (auto simp: desktop_workflow_run_def)
qed

text \<open>
  An accepted workflow: 2 to 16 stages of installed skills without credentials or nested workflows, the first
  one inspects or plans, each depends on the one before, and the steps made of it pass the task graph's check.
\<close>

theorem accepted_workflow_is_a_chain:
  assumes "validate_workflow coerce encoded stages = Inr sts"
  shows "2 \<le> length sts \<and> length sts \<le> 16 \<and> (\<forall>k < length sts. stage_ok coerce k (sts ! k)) \<and>
    (\<forall>ins. length ins = length sts \<and> (\<forall>k < length sts. i_depends_on (ins ! k) = wf_deps (sts ! k)) \<longrightarrow> graph_ok ins)"
proof -
  have ok: "2 \<le> length sts \<and> length sts \<le> 16 \<and> (\<forall>k < length sts. stage_ok coerce k (sts ! k))"
    using assms by (auto simp: validate_workflow_def max_workflow_stages_def not_less split: json.splits if_splits dest!: check_wf_stages_ok)
  have "graph_ok ins" if "length ins = length sts" "\<forall>k < length sts. i_depends_on (ins ! k) = wf_deps (sts ! k)" for ins
    using that ok by (auto simp: graph_ok_def stage_ok_def)
  with ok show ?thesis by blast
qed

text \<open>A profile carries its own key, or the operator's fallback key at the fallback's own endpoint.\<close>

theorem keys_stay_at_their_endpoint:
  assumes "resolve_profile out raw requested fb = Inr p"
  shows "p = fallback_profile fb \<or> (\<exists>kvs. keeps_to_endpoint out fb kvs p)"
proof -
  obtain ps where ps: "load_profiles out raw fb = Inr ps" "p \<in> set ps" by (rule resolve_in [OF assms])
  have added: "q \<in> set (add_fallback fb qs) \<Longrightarrow> q = fallback_profile fb \<or> q \<in> set qs" for q qs
    by (auto simp: add_fallback_def split: if_splits)
  show ?thesis
  proof (cases "strip raw = []")
    case True
    with ps added [of p "[]"] show ?thesis by (simp add: load_profiles_def)
  next
    case False
    then obtain d where d: "read_profiles out raw = Inr d"
      using ps(1) by (cases "read_profiles out raw") (auto simp: load_profiles_def)
    then obtain kvs qs where "read_all out fb kvs [] = Inr qs" "ps = add_fallback fb qs"
      using ps(1) False by (cases d) (auto simp: load_profiles_def split: if_splits)
    with read_all_keys [OF this(1) subset_refl] added ps(2) show ?thesis by auto
  qed
qed

text \<open>The text a stream hands on is what it had plus the delta it reports.\<close>

theorem stream_appends: "fst (append_stream_delta current chunk) = current @ snd (append_stream_delta current chunk)"
  using stream_delta [of current chunk "fst (append_stream_delta current chunk)" "snd (append_stream_delta current chunk)"] by simp

end
