(* ===== verification/LocalTasks.thy ===== *)
theory LocalTasks
  imports LocalSkills Sql
begin

text \<open>
  \<open>src/smara/local_agent.py\<close>: the private task store of the local-first desktop (\<open>LocalTaskStore\<close>) and the
  recovery journal of hosted claims (\<open>LocalTaskJournal\<close>). Both are bounded lists in one file each, newest
  first, rewritten as a whole; the store's mutations are serialized by a lock, so each is one step on the
  file. A mutation that raises writes nothing. Files hold what the code wrote; \<open>m\<close> is \<open>max_entries\<close>.
\<close>

definition entry_limit :: "int \<Rightarrow> nat" where
  "entry_limit n = nat (max 10 (min n 200))"

section \<open>Tasks\<close>

datatype local_status = L_Draft | L_Queued | L_Waiting | L_Running | L_Cancelling | L_Review | L_Completed | L_Failed | L_Cancelled

definition status_names :: "(string \<times> local_status) list" where
  "status_names =
     [(''draft'', L_Draft), (''queued'', L_Queued), (''waiting_approval'', L_Waiting), (''running'', L_Running),
      (''cancelling'', L_Cancelling), (''review_required'', L_Review), (''completed'', L_Completed),
      (''failed'', L_Failed), (''cancelled'', L_Cancelled)]"

definition terminal_statuses :: "local_status list" where
  "terminal_statuses = [L_Completed, L_Failed, L_Cancelled]"

fun transitions :: "local_status \<Rightarrow> local_status list" where
  "transitions L_Draft = [L_Queued, L_Waiting, L_Cancelled]"
| "transitions L_Waiting = [L_Queued, L_Cancelled]"
| "transitions L_Queued = [L_Running, L_Cancelled]"
| "transitions L_Running = [L_Cancelling, L_Review, L_Completed, L_Failed, L_Cancelled]"
| "transitions L_Cancelling = [L_Review, L_Failed, L_Cancelled]"
| "transitions L_Review = [L_Queued, L_Waiting, L_Cancelled]"
| "transitions L_Failed = [L_Queued, L_Waiting, L_Cancelled]"
| "transitions L_Completed = []"
| "transitions L_Cancelled = []"

record local_event =
  le_type :: string
  le_message :: "string option"
  le_created :: time

record local_artifact =
  la_id :: string
  la_name :: string
  la_sha :: json
  la_created :: time

record local_task =
  lt_id :: string
  lt_session :: string
  lt_title :: string
  lt_objective :: string
  lt_status :: local_status
  lt_requires :: bool
  lt_mode :: string
  lt_capability :: "string option"
  lt_payload :: "json option"
  lt_result :: "string option"
  lt_summary :: "string option"
  lt_error :: "string option"
  lt_run :: "string option"
  lt_attempt :: nat
  lt_cancel :: bool
  lt_started :: "time option"
  lt_finished :: "time option"
  lt_created :: time
  lt_updated :: time
  lt_steps :: "(string \<times> time) list"
  lt_artifacts :: "local_artifact list"
  lt_events :: "local_event list"

type_synonym task_file = "local_task list"

section \<open>Reading and writing\<close>

definition read_tasks :: "nat \<Rightarrow> task_file \<Rightarrow> task_file" where
  "read_tasks m f = take m f"

definition write_tasks :: "nat \<Rightarrow> task_file \<Rightarrow> task_file" where
  "write_tasks m ts = take m ts"

definition find_task :: "string \<Rightarrow> task_file \<Rightarrow> local_task option" where
  "find_task i ts = find (\<lambda>t. lt_id t = i) ts"

text \<open>The first task with the identifier is the one object that is changed.\<close>

fun put_task :: "local_task \<Rightarrow> task_file \<Rightarrow> task_file" where
  "put_task t [] = []"
| "put_task t (u # us) = (if lt_id u = lt_id t then t # us else u # put_task t us)"

text \<open>A mutation of the task \<open>i\<close>: read, change, write; an exception leaves the file as it was.\<close>

definition mutate :: "nat \<Rightarrow> string \<Rightarrow> (local_task \<Rightarrow> local_task result) \<Rightarrow> task_file \<Rightarrow> (task_file \<times> local_task) result" where
  "mutate m i change f =
     (let ts = read_tasks m f in
      case find_task i ts of
        None \<Rightarrow> Inl (KeyError i)
      | Some t \<Rightarrow> andThen (change t) (\<lambda>t'. Inr (write_tasks m (put_task t' ts), t')))"

definition clean_text :: "string \<Rightarrow> nat option \<Rightarrow> string \<Rightarrow> string result" where
  "clean_text field limit s =
     (if strip s = [] then Inl (ValueError (field @ '' is required''))
      else (case limit of
              Some n \<Rightarrow> if length (strip s) > n then Inl (ValueError (field @ '' exceeds the character limit'')) else Inr (strip s)
            | None \<Rightarrow> Inr (strip s)))"

definition transition :: "local_status \<Rightarrow> local_task \<Rightarrow> local_task result" where
  "transition st t =
     (if st = lt_status t then Inr t
      else if st \<notin> set (transitions (lt_status t)) then Inl (ValueError ''local task cannot transition'')
      else Inr (t\<lparr>lt_status := st\<rparr>))"

definition add_local_event :: "time \<Rightarrow> string \<Rightarrow> string option \<Rightarrow> local_task \<Rightarrow> local_task" where
  "add_local_event now kind message t =
     t\<lparr>lt_events := take_last 64 (lt_events t @
        [\<lparr>le_type = take 120 kind,
          le_message = (case message of Some s \<Rightarrow> if s = [] then None else Some (take 500 s) | None \<Rightarrow> None),
          le_created = now\<rparr>])\<rparr>"

section \<open>Creating\<close>

definition is_delete :: "string option \<Rightarrow> json option \<Rightarrow> bool" where
  "is_delete capability payload \<longleftrightarrow>
     capability = Some ''local_file_write'' \<and>
     (case payload of Some p \<Rightarrow> jget ''operation'' p = Some (JStr ''delete'') | None \<Rightarrow> False)"

definition needs_approval :: "bool \<Rightarrow> string \<Rightarrow> string option \<Rightarrow> json option \<Rightarrow> bool" where
  "needs_approval requires mode capability payload \<longleftrightarrow> is_delete capability payload \<or> (requires \<and> mode = ''ask'')"

definition check_capability :: "string option \<Rightarrow> string option result" where
  "check_capability capability =
     (case capability of
        None \<Rightarrow> Inr None
      | Some c \<Rightarrow> andThen (clean_text ''required_capability'' (Some 80) c) (\<lambda>c'. andThen (skill_spec c') (\<lambda>_. Inr (Some c'))))"

definition check_payload :: "(json \<Rightarrow> int) \<Rightarrow> json option \<Rightarrow> unit result" where
  "check_payload encoded payload =
     (case payload of
        None \<Rightarrow> Inr ()
      | Some p \<Rightarrow>
          (if \<not> is_obj p then Inl (ValueError ''payload must be an object'')
           else if encoded p > 64 * 1024 then Inl (ValueError ''payload exceeds the 64 KB limit'') else Inr ()))"

definition new_local_task ::
  "env \<Rightarrow> string \<Rightarrow> string \<Rightarrow> string option \<Rightarrow> bool \<Rightarrow> string \<Rightarrow> string option \<Rightarrow> json option \<Rightarrow> local_task" where
  "new_local_task e title objective session requires mode capability payload =
     (let now = clk e 0; needs = needs_approval requires mode capability payload in
      \<lparr>lt_id = ''local_'' @ take 20 (uuid e [0]),
       lt_session = take 160 (opt_or session (''local-session-'' @ take 12 (uuid e [1]))),
       lt_title = title, lt_objective = objective, lt_status = (if needs then L_Waiting else L_Queued),
       lt_requires = needs, lt_mode = mode, lt_capability = capability, lt_payload = payload, lt_result = None,
       lt_summary = None, lt_error = None, lt_run = None, lt_attempt = 0, lt_cancel = False, lt_started = None,
       lt_finished = None, lt_created = now, lt_updated = now, lt_steps = [], lt_artifacts = [],
       lt_events = [\<lparr>le_type = ''local.task.created'', le_message = None, le_created = now\<rparr>]\<rparr>)"

definition create_local ::
  "env \<Rightarrow> (json \<Rightarrow> int) \<Rightarrow> nat \<Rightarrow> string \<Rightarrow> string \<Rightarrow> string option \<Rightarrow> bool \<Rightarrow> string \<Rightarrow> string option \<Rightarrow> json option \<Rightarrow>
   task_file \<Rightarrow> (task_file \<times> local_task) result" where
  "create_local e encoded m title objective session requires mode capability payload f =
     andThen (clean_text ''title'' (Some 160) title) (\<lambda>title.
     andThen (clean_text ''objective'' None objective) (\<lambda>objective.
     if mode \<notin> {''ask'', ''auto''} then Inl (ValueError ''approval_mode must be ask or auto'')
     else andThen (check_capability capability) (\<lambda>capability.
          andThen (check_payload encoded payload) (\<lambda>_.
          let t = new_local_task e title objective session requires mode capability payload
          in Inr (write_tasks m (t # filter (\<lambda>u. lt_id u \<noteq> lt_id t) (read_tasks m f)), t)))))"

section \<open>Views\<close>

definition get_local :: "nat \<Rightarrow> string \<Rightarrow> task_file \<Rightarrow> local_task option" where
  "get_local m i f = find_task i (read_tasks m f)"

fun local_status_text :: "local_status \<Rightarrow> string" where
  "local_status_text L_Draft = ''draft''"
| "local_status_text L_Queued = ''queued''"
| "local_status_text L_Waiting = ''waiting_approval''"
| "local_status_text L_Running = ''running''"
| "local_status_text L_Cancelling = ''cancelling''"
| "local_status_text L_Review = ''review_required''"
| "local_status_text L_Completed = ''completed''"
| "local_status_text L_Failed = ''failed''"
| "local_status_text L_Cancelled = ''cancelled''"

text \<open>\<open>summary\<close>: the fields of a task a list may show; \<open>show_time\<close> writes a timestamp.\<close>

definition time_json :: "(time \<Rightarrow> string) \<Rightarrow> time option \<Rightarrow> json" where
  "time_json show_time x = (case x of None \<Rightarrow> JNull | Some i \<Rightarrow> JStr (show_time i))"

definition task_view :: "(time \<Rightarrow> string) \<Rightarrow> local_task \<Rightarrow> (string \<times> json) list" where
  "task_view show_time t =
     [(''id'', JStr (lt_id t)), (''session_id'', JStr (lt_session t)), (''title'', JStr (lt_title t)),
      (''objective'', JStr (lt_objective t)), (''status'', JStr (local_status_text (lt_status t))),
      (''requires_approval'', JBool (lt_requires t)), (''required_capability'', opt_text (lt_capability t)),
      (''result'', opt_text (lt_result t)), (''error'', opt_text (lt_error t)), (''run_id'', opt_text (lt_run t)),
      (''attempt'', JNum (int (lt_attempt t))), (''cancel_requested'', JBool (lt_cancel t)),
      (''started_at'', time_json show_time (lt_started t)), (''finished_at'', time_json show_time (lt_finished t)),
      (''created_at'', JStr (show_time (lt_created t))), (''updated_at'', JStr (show_time (lt_updated t))),
      (''approval_mode'', JStr ''desktop''), (''local_approval_mode'', JStr (lt_mode t))]"

definition summaries :: "(time \<Rightarrow> string) \<Rightarrow> nat \<Rightarrow> task_file \<Rightarrow> (string \<times> json) list list" where
  "summaries show_time m f = map (task_view show_time) (read_tasks m f)"

record task_detail =
  td_view :: "(string \<times> json) list"
  td_steps :: "(string \<times> time) list"
  td_events :: "local_event list"
  td_artifacts :: "local_artifact list"

definition task_detail_of :: "(time \<Rightarrow> string) \<Rightarrow> nat \<Rightarrow> string \<Rightarrow> task_file \<Rightarrow> task_detail option" where
  "task_detail_of show_time m i f =
     map_option (\<lambda>t. \<lparr>td_view = task_view show_time t, td_steps = take_last 64 (lt_steps t),
        td_events = take_last 64 (lt_events t), td_artifacts = take_last 20 (lt_artifacts t)\<rparr>) (get_local m i f)"

section \<open>Mutations\<close>

definition update_local ::
  "env \<Rightarrow> nat \<Rightarrow> string \<Rightarrow> string \<Rightarrow> string option \<Rightarrow> string option \<Rightarrow> string option \<Rightarrow> task_file \<Rightarrow> (task_file \<times> local_task) result" where
  "update_local e m i status res err event f =
     (case map_of status_names status of
        None \<Rightarrow> Inl (ValueError (''unknown local task status: '' @ status))
      | Some st \<Rightarrow>
          mutate m i (\<lambda>t. andThen (transition st t) (\<lambda>t.
            let t = t\<lparr>lt_updated := clk e 0\<rparr>;
                t = (case res of None \<Rightarrow> t | Some s \<Rightarrow> t\<lparr>lt_result := Some (take 40000 s)\<rparr>);
                t = (case err of None \<Rightarrow> t | Some s \<Rightarrow> t\<lparr>lt_error := Some (take 2000 s)\<rparr>)
            in Inr (case event of None \<Rightarrow> t | Some k \<Rightarrow> if k = [] then t else add_local_event (clk e 1) k None t))) f)"

definition approve_local :: "env \<Rightarrow> nat \<Rightarrow> string \<Rightarrow> task_file \<Rightarrow> (task_file \<times> local_task) result" where
  "approve_local e m i f =
     mutate m i (\<lambda>t.
       if lt_status t \<in> {L_Waiting, L_Review, L_Failed}
       then andThen (transition L_Queued t) (\<lambda>t'.
              Inr (add_local_event (clk e 1)
                     (if lt_status t = L_Waiting then ''local.task.approved'' else ''local.task.retry_approved'') None
                     (t'\<lparr>lt_error := None, lt_cancel := False, lt_updated := clk e 0\<rparr>)))
       else if lt_status t \<notin> {L_Queued, L_Running, L_Cancelling, L_Completed}
       then Inl (ValueError ''local task cannot be approved'')
       else Inr t) f"

definition claim_local :: "env \<Rightarrow> nat \<Rightarrow> string option \<Rightarrow> task_file \<Rightarrow> (task_file \<times> local_task option) result" where
  "claim_local e m want f =
     (let ts = read_tasks m f in
      case find (\<lambda>t. lt_status t = L_Queued \<and> (want = None \<or> want = Some (lt_id t))) ts of
        None \<Rightarrow> Inr (write_tasks m ts, None)
      | Some t \<Rightarrow>
          andThen (transition L_Running t) (\<lambda>t'.
            let now = clk e 0;
                t' = add_local_event (clk e 1) ''local.task.started'' None
                       (t'\<lparr>lt_run := Some (''run_'' @ take 20 (uuid e [0])), lt_attempt := Suc (lt_attempt t'),
                          lt_cancel := False, lt_started := Some now, lt_finished := None, lt_updated := now, lt_steps := []\<rparr>)
            in Inr (write_tasks m (put_task t' ts), Some t')))"

definition progress_local :: "env \<Rightarrow> nat \<Rightarrow> string \<Rightarrow> string \<Rightarrow> task_file \<Rightarrow> (task_file \<times> local_task) result" where
  "progress_local e m i message f =
     andThen (clean_text ''progress'' (Some 500) message) (\<lambda>message.
       mutate m i (\<lambda>t.
         if lt_status t \<notin> {L_Running, L_Cancelling} then Inr t
         else Inr (add_local_event (clk e 1) ''local.task.progress'' (Some message)
                     (t\<lparr>lt_steps := take_last 64 (lt_steps t @ [(message, clk e 0)]), lt_updated := clk e 0\<rparr>))) f)"

definition local_should_cancel :: "nat \<Rightarrow> string \<Rightarrow> task_file \<Rightarrow> bool" where
  "local_should_cancel m i f =
     (case get_local m i f of None \<Rightarrow> True | Some t \<Rightarrow> lt_cancel t \<or> lt_status t \<in> {L_Cancelling, L_Cancelled})"

text \<open>\<open>_proof_from_result\<close>; \<open>str_of\<close> is \<open>str\<close> on values that are not text. The separator is as in the source.\<close>

definition separator :: string where
  "separator = '' '' @ [CHR 0xC2, CHR 0xB7] @ '' ''"

definition text_or_else :: "(json \<Rightarrow> string) \<Rightarrow> json \<Rightarrow> string \<Rightarrow> string" where
  "text_or_else str_of v d = (if truth v then (case v of JStr s \<Rightarrow> s | _ \<Rightarrow> str_of v) else d)"

definition proof_from_result ::
  "env \<Rightarrow> (string \<Rightarrow> json option) \<Rightarrow> (json \<Rightarrow> string) \<Rightarrow> string \<Rightarrow> string \<times> local_artifact list" where
  "proof_from_result e parse str_of result =
     (case parse result of
        Some (JObj kvs) \<Rightarrow>
          (let d = JObj kvs;
               s = text_or_else str_of (py_get ''action'' d) ''Local task'' @ '': '' @
                   text_or_else str_of (py_get ''operation'' d) ''completed'';
               (s, arts) =
                 (case py_get ''file_name'' d of
                    JStr n \<Rightarrow>
                      (if n = [] then (s, [])
                       else (s @ separator @ n,
                             [\<lparr>la_id = ''artifact_'' @ take 16 (uuid e [0]), la_name = take 240 n,
                               la_sha = py_get ''sha256'' d, la_created = clk e 0\<rparr>]))
                  | _ \<Rightarrow> (s, []));
               proof' = py_get ''proof'' d;
               digest = py_or (py_get ''content_sha256'' proof') (py_get ''result_sha256'' proof');
               s = (case digest of JStr h \<Rightarrow> if is_obj proof' \<and> h \<noteq> [] then s @ separator @ ''proof '' @ take 12 h else s | _ \<Rightarrow> s)
           in (take 2000 s, take 20 arts))
      | _ \<Rightarrow> (take 40000 result, []))"

definition complete_local ::
  "env \<Rightarrow> (string \<Rightarrow> json option) \<Rightarrow> (json \<Rightarrow> string) \<Rightarrow> nat \<Rightarrow> string \<Rightarrow> string \<Rightarrow> task_file \<Rightarrow> (task_file \<times> local_task) result" where
  "complete_local e parse str_of m i result f =
     (let (s, arts) = proof_from_result e parse str_of result in
      mutate m i (\<lambda>t. andThen (transition L_Completed t) (\<lambda>t.
        Inr (add_local_event (clk e 2) ''local.task.completed'' None
          (t\<lparr>lt_result := Some (take 40000 result), lt_summary := Some s, lt_error := None, lt_cancel := False,
             lt_finished := Some (clk e 1), lt_updated := clk e 1, lt_artifacts := arts\<rparr>)))) f)"

definition fail_local :: "env \<Rightarrow> nat \<Rightarrow> string \<Rightarrow> string \<Rightarrow> bool \<Rightarrow> task_file \<Rightarrow> (task_file \<times> local_task) result" where
  "fail_local e m i err interrupted f =
     mutate m i (\<lambda>t. andThen (transition (if interrupted then L_Review else L_Failed) t) (\<lambda>t.
       Inr (add_local_event (clk e 1) (if interrupted then ''local.task.interrupted'' else ''local.task.failed'') None
         (t\<lparr>lt_error := Some (take 2000 err), lt_finished := Some (clk e 0), lt_updated := clk e 0, lt_cancel := False\<rparr>)))) f"

definition interrupted_text :: string where
  "interrupted_text = ''Execution was interrupted. Review and approve a retry; Smara will not replay it automatically.''"

definition interrupt_task :: "env \<Rightarrow> nat \<Rightarrow> local_task \<Rightarrow> local_task" where
  "interrupt_task e k t =
     (if lt_status t \<in> {L_Running, L_Cancelling}
      then add_local_event (clk e (2 * k + 1)) ''local.task.interrupted'' None
             (t\<lparr>lt_status := L_Review, lt_error := Some interrupted_text, lt_cancel := False,
                lt_finished := Some (clk e (2 * k)), lt_updated := clk e (2 * k)\<rparr>)
      else t)"

definition recover_interrupted :: "env \<Rightarrow> nat \<Rightarrow> task_file \<Rightarrow> task_file \<times> string list" where
  "recover_interrupted e m f =
     (let ts = read_tasks m f in
      (write_tasks m (map (\<lambda>(k, t). interrupt_task e k t) (enumerate_from 0 ts)),
       map lt_id (filter (\<lambda>t. lt_status t \<in> {L_Running, L_Cancelling}) ts)))"

definition cancelled_here :: string where
  "cancelled_here = ''Cancelled on this Desktop.''"

definition cancel_local :: "env \<Rightarrow> nat \<Rightarrow> string \<Rightarrow> task_file \<Rightarrow> (task_file \<times> local_task) result" where
  "cancel_local e m i f =
     mutate m i (\<lambda>t.
       if lt_status t \<in> set terminal_statuses then Inr t
       else
         andThen (if lt_status t = L_Running then transition L_Cancelling t
                  else if lt_status t = L_Cancelling then Inr t
                  else andThen (transition L_Cancelled t) (\<lambda>t. Inr (t\<lparr>lt_finished := Some (clk e 0)\<rparr>)))
           (\<lambda>t'. Inr (add_local_event (clk e 2)
              (if lt_status t \<in> {L_Running, L_Cancelling} then ''local.task.cancel_requested'' else ''local.task.cancelled'') None
              (t'\<lparr>lt_cancel := True, lt_error := Some cancelled_here, lt_updated := clk e 1\<rparr>)))) f"

definition finish_cancelled :: "env \<Rightarrow> nat \<Rightarrow> string \<Rightarrow> string \<Rightarrow> task_file \<Rightarrow> (task_file \<times> local_task) result" where
  "finish_cancelled e m i err f =
     mutate m i (\<lambda>t.
       andThen (if lt_status t \<in> set terminal_statuses then Inr t else transition L_Cancelled t) (\<lambda>t.
         Inr (add_local_event (clk e 1) ''local.task.cancelled'' None
           (t\<lparr>lt_error := Some (take 2000 err), lt_cancel := True, lt_finished := Some (clk e 0), lt_updated := clk e 0\<rparr>)))) f"

section \<open>The journal\<close>

record journal_entry =
  je_step :: string
  je_status :: string
  je_task :: "string option"
  je_capability :: "string option"
  je_key :: "string option"
  je_sha :: "string option"
  je_error :: "string option"
  je_remote :: "string option"
  je_updated :: time

definition journal_statuses :: "string list" where
  "journal_statuses = [''claimed'', ''prepared'', ''completed'', ''failed'', ''cancelled'', ''uncertain'']"

definition journal_read :: "nat \<Rightarrow> journal_entry list \<Rightarrow> journal_entry list" where
  "journal_read m js = take m js"

definition journal_put :: "nat \<Rightarrow> journal_entry \<Rightarrow> journal_entry list \<Rightarrow> journal_entry list" where
  "journal_put m j js = take m (j # filter (\<lambda>x. je_step x \<noteq> je_step j) (journal_read m js))"

definition journal_record ::
  "time \<Rightarrow> nat \<Rightarrow> string \<Rightarrow> string \<Rightarrow> string option \<Rightarrow> string option \<Rightarrow> string option \<Rightarrow> string option \<Rightarrow> string option \<Rightarrow>
   string option \<Rightarrow> journal_entry list \<Rightarrow> journal_entry list result" where
  "journal_record now m sid status tid capability key sha err remote js =
     (if sid = [] \<or> length sid > 240 then Inl (ValueError ''step_id is required'')
      else if status \<notin> set journal_statuses then Inl (ValueError (''unknown local journal status: '' @ status))
      else Inr (journal_put m \<lparr>je_step = sid, je_status = status, je_task = tid, je_capability = capability, je_key = key,
                 je_sha = sha, je_error = (let s = take 2000 (opt_or err []) in if s = [] then None else Some s),
                 je_remote = remote, je_updated = now\<rparr> js))"

definition journal_get :: "nat \<Rightarrow> string \<Rightarrow> journal_entry list \<Rightarrow> journal_entry option" where
  "journal_get m sid js = find (\<lambda>x. je_step x = sid) (journal_read m js)"

definition journal_uncertain :: "nat \<Rightarrow> string \<Rightarrow> string option \<Rightarrow> journal_entry list \<Rightarrow> bool" where
  "journal_uncertain m sid key js \<longleftrightarrow>
     (\<exists>x \<in> set (journal_read m js). je_status x = ''uncertain'' \<and>
        (je_step x = sid \<or> (opt_or key [] \<noteq> [] \<and> je_key x = key)))"

definition journal_reconcile :: "time \<Rightarrow> nat \<Rightarrow> string \<Rightarrow> string \<Rightarrow> journal_entry list \<Rightarrow> journal_entry list" where
  "journal_reconcile now m sid remote js =
     (case journal_get m sid js of
        None \<Rightarrow> js
      | Some x \<Rightarrow>
          (let settled = remote \<in> {''completed'', ''failed'', ''cancelled''} \<and> je_status x \<in> {''claimed'', ''prepared'', ''uncertain''}
           in journal_put m (x\<lparr>je_remote := Some remote, je_status := (if settled then remote else je_status x), je_updated := now\<rparr>) js))"

definition journal_counts :: "nat \<Rightarrow> journal_entry list \<Rightarrow> (string \<times> nat) list" where
  "journal_counts m js = map (\<lambda>st. (st, length (filter (\<lambda>x. je_status x = st) (journal_read m js)))) (sort journal_statuses)"

end
