(* ===== verification/LocalLife.thy ===== *)
theory LocalLife
  imports LocalTasks
begin

text \<open>
  The local task store as a state machine: every mutation of any process moves a task along the table
  \<open>LOCAL_TASK_TRANSITIONS\<close>, and a task that needs the owner's approval does not run before it. The state is
  the file together with the identifiers the owner has approved so far.
\<close>

section \<open>One mutation of one task\<close>

definition keeps :: "local_task \<Rightarrow> local_task \<Rightarrow> bool" where
  "keeps t t' \<longleftrightarrow> lt_id t' = lt_id t \<and> lt_requires t' = lt_requires t \<and> lt_capability t' = lt_capability t
     \<and> lt_payload t' = lt_payload t \<and> (lt_status t' = lt_status t \<or> lt_status t' \<in> set (transitions (lt_status t)))"

lemma keeps_refl [simp]: "keeps t t"
  by (simp add: keeps_def)

text \<open>A mutation without the owner leaves a waiting task waiting or cancels it.\<close>

definition unreleased :: "local_task \<Rightarrow> local_task \<Rightarrow> bool" where
  "unreleased t t' \<longleftrightarrow> (lt_status t = L_Waiting \<longrightarrow> lt_status t' \<in> {L_Waiting, L_Cancelled})"

definition lawful :: "(local_task \<Rightarrow> local_task \<Rightarrow> bool) \<Rightarrow> (local_task \<Rightarrow> local_task result) \<Rightarrow> bool" where
  "lawful P change \<longleftrightarrow> (\<forall>t t'. change t = Inr t' \<longrightarrow> keeps t t' \<and> P t t')"

definition file_ok :: "nat \<Rightarrow> task_file \<Rightarrow> bool" where
  "file_ok m f \<longleftrightarrow> length f \<le> m \<and> distinct (map lt_id f)"

text \<open>The task \<open>i\<close> moved to \<open>t'\<close>, and no other changed.\<close>

definition one_moved :: "nat \<Rightarrow> string \<Rightarrow> (local_task \<Rightarrow> local_task \<Rightarrow> bool) \<Rightarrow> task_file \<Rightarrow> task_file \<Rightarrow> bool" where
  "one_moved m i P f f' \<longleftrightarrow> file_ok m f' \<and> (\<exists>t t'. t \<in> set f \<and> lt_id t = i \<and> keeps t t' \<and> P t t'
     \<and> set f' \<subseteq> insert t' {u \<in> set f. lt_id u \<noteq> i})"

lemma in_put_task: "distinct (map lt_id us) \<Longrightarrow> set (put_task t us) \<subseteq> insert t {u \<in> set us. lt_id u \<noteq> lt_id t}"
  by (induction us) (auto simp: image_iff)

lemma put_task_ids [simp]: "map lt_id (put_task t us) = map lt_id us"
  by (induction us) auto

lemma length_put_task [simp]: "length (put_task t us) = length us"
  by (induction us) auto

lemma put_moved:
  assumes "file_ok m f" and "t \<in> set f" and "keeps t t'" and "P t t'"
  shows "one_moved m (lt_id t) P f (write_tasks m (put_task t' f))"
proof -
  have f: "length f \<le> m" "distinct (map lt_id f)" using assms(1) by (auto simp: file_ok_def)
  have "lt_id t' = lt_id t" using assms(3) by (simp add: keeps_def)
  with in_put_task [OF f(2), of t'] have "set (write_tasks m (put_task t' f)) \<subseteq> insert t' {u \<in> set f. lt_id u \<noteq> lt_id t}"
    using f(1) by (simp add: write_tasks_def)
  moreover have "file_ok m (write_tasks m (put_task t' f))" using f by (simp add: write_tasks_def file_ok_def)
  ultimately show ?thesis unfolding one_moved_def using assms(2-4) by blast
qed

lemma find_task_in: "find_task i f = Some t \<Longrightarrow> t \<in> set f \<and> lt_id t = i"
  by (auto simp: find_task_def find_Some_iff)

lemma mutate_moved:
  assumes "mutate m i change f = Inr (f', t')" and "file_ok m f" and "lawful P change"
  shows "one_moved m i P f f'"
proof -
  have "read_tasks m f = f" using assms(2) by (simp add: read_tasks_def file_ok_def)
  then obtain t where t: "find_task i f = Some t" "change t = Inr t'" "f' = write_tasks m (put_task t' f)"
    using assms(1) by (auto simp: mutate_def split: option.splits)
  have "keeps t t' \<and> P t t'" using assms(3) t(2) by (auto simp: lawful_def)
  with put_moved [OF assms(2), of t t' P] find_task_in [OF t(1)] t(3) show ?thesis by auto
qed

section \<open>The mutations are lawful\<close>

lemmas change_simps = transition_def keeps_def add_local_event_def unreleased_def

lemma approve_moved: "approve_local e m i f = Inr (f', t') \<Longrightarrow> file_ok m f \<Longrightarrow> one_moved m i (\<lambda>_ _. True) f f'"
  unfolding approve_local_def by (rule mutate_moved) (auto simp: lawful_def change_simps split: if_splits)

lemma progress_moved:
  assumes "progress_local e m i msg f = Inr (f', t')" and "file_ok m f"
  shows "one_moved m i unreleased f f'"
proof -
  obtain change where "mutate m i change f = Inr (f', t')" "lawful unreleased change"
    using assms(1) by (auto simp: progress_local_def lawful_def change_simps split: if_splits)
  then show ?thesis using assms(2) mutate_moved by blast
qed

lemma complete_moved: "complete_local e parse str_of m i result f = Inr (f', t') \<Longrightarrow> file_ok m f \<Longrightarrow> one_moved m i unreleased f f'"
  unfolding complete_local_def Let_def case_prod_beta
  by (rule mutate_moved) (auto simp: lawful_def change_simps split: if_splits)

lemma fail_moved: "fail_local e m i err interrupted f = Inr (f', t') \<Longrightarrow> file_ok m f \<Longrightarrow> one_moved m i unreleased f f'"
  unfolding fail_local_def by (rule mutate_moved) (auto simp: lawful_def change_simps split: if_splits)

lemma cancel_moved: "cancel_local e m i f = Inr (f', t') \<Longrightarrow> file_ok m f \<Longrightarrow> one_moved m i unreleased f f'"
  unfolding cancel_local_def
  by (rule mutate_moved) (auto simp: lawful_def change_simps terminal_statuses_def split: if_splits)

lemma finish_cancelled_moved: "finish_cancelled e m i err f = Inr (f', t') \<Longrightarrow> file_ok m f \<Longrightarrow> one_moved m i unreleased f f'"
  unfolding finish_cancelled_def
  by (rule mutate_moved) (auto simp: lawful_def change_simps terminal_statuses_def split: if_splits)

lemma claim_moved:
  assumes "claim_local e m want f = Inr (f', t')" and "file_ok m f"
  shows "f' = f \<or> (\<exists>i. one_moved m i unreleased f f')"
proof -
  have f: "read_tasks m f = f" "write_tasks m f = f" using assms(2) by (simp_all add: read_tasks_def write_tasks_def file_ok_def)
  let ?find = "find (\<lambda>t. lt_status t = L_Queued \<and> (want = None \<or> want = Some (lt_id t))) f"
  show ?thesis
  proof (cases ?find)
    case None
    then show ?thesis using assms(1) f by (simp add: claim_local_def)
  next
    case (Some t)
    then have t: "t \<in> set f" "lt_status t = L_Queued" by (auto simp: find_Some_iff)
    then obtain u where u: "f' = write_tasks m (put_task u f)" "keeps t u" "lt_status u = L_Running"
      using assms(1) Some f by (auto simp: claim_local_def Let_def change_simps)
    then have "one_moved m (lt_id t) unreleased f f'"
      using put_moved [OF assms(2) t(1), of u unreleased] t(2) by (simp add: unreleased_def)
    then show ?thesis by blast
  qed
qed

text \<open>Creating adds a task at its gate; recovery moves every task on its own.\<close>

definition at_gate :: "local_task \<Rightarrow> bool" where
  "at_gate t \<longleftrightarrow> lt_status t = (if lt_requires t then L_Waiting else L_Queued)
     \<and> (is_delete (lt_capability t) (lt_payload t) \<longrightarrow> lt_requires t)"

lemma create_added:
  assumes "create_local e encoded m title obj session requires mode cap payload f = Inr (f', t)" and "file_ok m f"
  shows "file_ok m f'" and "at_gate t" and "set f' \<subseteq> insert t {u \<in> set f. lt_id u \<noteq> lt_id t}"
proof -
  have f: "read_tasks m f = f" using assms(2) by (simp add: read_tasks_def file_ok_def)
  then have f': "f' = take m (t # filter (\<lambda>u. lt_id u \<noteq> lt_id t) f)"
    using assms(1) by (auto simp: create_local_def Let_def write_tasks_def split: if_splits)
  obtain a b c where t: "t = new_local_task e a b session requires mode c payload"
    using assms(1) by (auto simp: create_local_def Let_def split: if_splits)
  show "at_gate t" by (simp add: at_gate_def t new_local_task_def Let_def needs_approval_def)
  have "distinct (map lt_id (t # filter (\<lambda>u. lt_id u \<noteq> lt_id t) f))"
    using assms(2) by (auto simp: file_ok_def distinct_map_filter)
  then show "file_ok m f'" unfolding f' file_ok_def by (auto simp: take_map [symmetric] intro: distinct_take)
  show "set f' \<subseteq> insert t {u \<in> set f. lt_id u \<noteq> lt_id t}"
    unfolding f' by (auto dest: in_set_takeD)
qed

lemma interrupt_keeps: "keeps t (interrupt_task e k t) \<and> unreleased t (interrupt_task e k t)"
  by (auto simp: interrupt_task_def change_simps)

lemma recover_moved:
  assumes "recover_interrupted e m f = (f', ids)" and "file_ok m f"
  shows "file_ok m f'" and "\<forall>u \<in> set f'. \<exists>t \<in> set f. keeps t u \<and> unreleased t u"
proof -
  have f': "f' = map (\<lambda>(k, t). interrupt_task e k t) (enumerate_from 0 f)"
    using assms by (auto simp: recover_interrupted_def Let_def read_tasks_def write_tasks_def file_ok_def)
  have "lt_id (interrupt_task e k t) = lt_id t" for k t using interrupt_keeps [of t e k] by (simp add: keeps_def)
  then have "map lt_id f' = map (lt_id \<circ> snd) (enumerate_from 0 f)" by (simp add: f' case_prod_beta)
  then have "map lt_id f' = map lt_id f" by (simp flip: map_map)
  then show "file_ok m f'" using assms(2) by (simp add: f' file_ok_def)
  show "\<forall>u \<in> set f'. \<exists>t \<in> set f. keeps t u \<and> unreleased t u"
    using interrupt_keeps by (fastforce simp: f' set_enumerate_from)
qed

section \<open>The store as a state machine\<close>

text \<open>
  One operation of any process on the file; the second component collects the identifiers the owner approved.
  A new identifier is new among the stored tasks and the approved ones. The method \<open>update\<close> sets any status the
  table allows; nothing in the source calls it, and it is not an operation of the machine.
\<close>

inductive local_step :: "(json \<Rightarrow> int) \<Rightarrow> nat \<Rightarrow> task_file \<times> string set \<Rightarrow> task_file \<times> string set \<Rightarrow> bool"
  for encoded m where
  created: "create_local e encoded m title obj session requires mode cap payload f = Inr (f', t) \<Longrightarrow>
    lt_id t \<notin> A \<union> lt_id ` set f \<Longrightarrow> local_step encoded m (f, A) (f', A)"
| approved: "approve_local e m i f = Inr (f', t) \<Longrightarrow> local_step encoded m (f, A) (f', insert i A)"
| claimed: "claim_local e m want f = Inr (f', t) \<Longrightarrow> local_step encoded m (f, A) (f', A)"
| progressed: "progress_local e m i msg f = Inr (f', t) \<Longrightarrow> local_step encoded m (f, A) (f', A)"
| completed: "complete_local e parse str_of m i result f = Inr (f', t) \<Longrightarrow> local_step encoded m (f, A) (f', A)"
| failed: "fail_local e m i err interrupted f = Inr (f', t) \<Longrightarrow> local_step encoded m (f, A) (f', A)"
| recovered: "recover_interrupted e m f = (f', ids) \<Longrightarrow> local_step encoded m (f, A) (f', A)"
| cancelled: "cancel_local e m i f = Inr (f', t) \<Longrightarrow> local_step encoded m (f, A) (f', A)"
| ended: "finish_cancelled e m i err f = Inr (f', t) \<Longrightarrow> local_step encoded m (f, A) (f', A)"

text \<open>What a step does to the tasks, whatever the operation was.\<close>

definition task_moves :: "string set \<Rightarrow> task_file \<Rightarrow> task_file \<Rightarrow> bool" where
  "task_moves A' f f' \<longleftrightarrow> (\<forall>u \<in> set f'. at_gate u \<and> lt_id u \<notin> lt_id ` set f \<or>
     (\<exists>t \<in> set f. keeps t u \<and> (unreleased t u \<or> lt_id u \<in> A')))"

lemma task_moves_refl: "task_moves A' f f"
  unfolding task_moves_def by (auto simp: unreleased_def intro!: bexI)

lemma one_moved_moves:
  assumes "one_moved m i P f f'" and "\<And>t u. lt_id t = i \<Longrightarrow> keeps t u \<Longrightarrow> P t u \<Longrightarrow> unreleased t u \<or> i \<in> A'"
  shows "task_moves A' f f'"
  unfolding task_moves_def
proof
  fix u assume u: "u \<in> set f'"
  obtain t t' where t: "t \<in> set f" "lt_id t = i" "keeps t t'" "P t t'" "set f' \<subseteq> insert t' {u \<in> set f. lt_id u \<noteq> i}"
    using assms(1) by (auto simp: one_moved_def)
  have id: "lt_id t' = i" using t(2,3) by (simp add: keeps_def)
  from u t(5) consider "u = t'" | "u \<in> set f" by blast
  then show "at_gate u \<and> lt_id u \<notin> lt_id ` set f \<or> (\<exists>t \<in> set f. keeps t u \<and> (unreleased t u \<or> lt_id u \<in> A'))"
  proof cases
    case 1
    with t(1-4) assms(2) [OF t(2-4)] id show ?thesis by auto
  next
    case 2
    then show ?thesis by (auto simp: unreleased_def intro!: bexI [of _ u])
  qed
qed

lemma one_moved_ok: "one_moved m i P f f' \<Longrightarrow> file_ok m f'"
  by (simp add: one_moved_def)

lemma local_step_moves:
  assumes "local_step encoded m (f, A) (f', A')" and "file_ok m f"
  shows "file_ok m f' \<and> A \<subseteq> A' \<and> task_moves A' f f'"
  using assms
proof (induction "(f, A)" "(f', A')" arbitrary: f A f' A' rule: local_step.induct)
  case (created e title obj session requires mode cap payload f f' t A)
  note added = create_added [OF created(1) created(3)]
  have "u \<in> set f \<Longrightarrow> \<exists>t \<in> set f. keeps t u \<and> (unreleased t u \<or> lt_id u \<in> A)" for u
    by (intro bexI [of _ u]) (simp_all add: unreleased_def)
  with added created(2) show ?case by (auto simp: task_moves_def)
next
  case (approved e i f f' t A)
  then show ?case by (auto dest!: approve_moved intro: one_moved_moves one_moved_ok)
next
  case (claimed e want f f' t A)
  then show ?case by (auto dest!: claim_moved intro: one_moved_moves one_moved_ok task_moves_refl)
next
  case (recovered e f f' ids A)
  have "task_moves A f f'"
    unfolding task_moves_def using recover_moved(2) [OF recovered] by blast
  then show ?case using recover_moved(1) [OF recovered] by simp
qed (auto dest!: progress_moved complete_moved fail_moved cancel_moved finish_cancelled_moved
    intro: one_moved_moves one_moved_ok)

section \<open>Nothing runs unapproved\<close>

definition held_back :: "string set \<Rightarrow> local_task \<Rightarrow> bool" where
  "held_back A t \<longleftrightarrow> (is_delete (lt_capability t) (lt_payload t) \<longrightarrow> lt_requires t)
     \<and> (lt_requires t \<longrightarrow> lt_id t \<in> A \<or> lt_status t \<in> {L_Waiting, L_Cancelled})"

definition local_inv :: "nat \<Rightarrow> task_file \<times> string set \<Rightarrow> bool" where
  "local_inv m s \<longleftrightarrow> file_ok m (fst s) \<and> (\<forall>t \<in> set (fst s). held_back (snd s) t)"

lemma held_move:
  assumes "held_back A t" and "keeps t u" and "unreleased t u \<or> lt_id u \<in> A'" and "A \<subseteq> A'"
  shows "held_back A' u"
  using assms by (cases "lt_status t") (auto simp: held_back_def keeps_def unreleased_def)

lemma local_step_inv: "local_step encoded m s s' \<Longrightarrow> local_inv m s \<Longrightarrow> local_inv m s'"
proof -
  assume st: "local_step encoded m s s'" and inv: "local_inv m s"
  obtain f A f' A' where s: "s = (f, A)" "s' = (f', A')" by (cases s, cases s')
  have mv: "file_ok m f' \<and> A \<subseteq> A' \<and> task_moves A' f f'"
    using local_step_moves [of encoded m f A f' A'] st inv by (simp add: s local_inv_def)
  have "held_back A' u" if "u \<in> set f'" for u
  proof -
    from mv that consider "at_gate u" | t where "t \<in> set f" "keeps t u" "unreleased t u \<or> lt_id u \<in> A'"
      by (auto simp: task_moves_def)
    then show ?thesis
    proof cases
      case 1
      then show ?thesis by (auto simp: at_gate_def held_back_def split: if_splits)
    next
      case 2
      then show ?thesis using held_move [of A t u A'] mv inv by (auto simp: s local_inv_def)
    qed
  qed
  with mv show "local_inv m s'" by (simp add: s local_inv_def)
qed

interpretation local_store: inductive_invariant "local_step encoded m" "([], {})" "local_inv m" for encoded m
proof unfold_locales
  show "local_inv m ([], {})" by (simp add: local_inv_def file_ok_def)
  show "local_inv m s \<Longrightarrow> local_step encoded m s t \<Longrightarrow> local_inv m t" for s t by (rule local_step_inv)
qed

section \<open>The life cycle as an abstract machine\<close>

text \<open>
  The abstract state is what the owner sees: for each identifier the status of its task. In a step of the
  abstract machine each task stays or moves along the table, a new one is queued or waits, and old ones may
  drop out of the bounded file.
\<close>

definition phase :: "task_file \<Rightarrow> string \<Rightarrow> local_status option" where
  "phase f i = map_option lt_status (find_task i f)"

definition phase_step :: "(string \<Rightarrow> local_status option) \<Rightarrow> (string \<Rightarrow> local_status option) \<Rightarrow> bool" where
  "phase_step p p' \<longleftrightarrow>
     (\<forall>i. case p' i of
            None \<Rightarrow> True
          | Some st' \<Rightarrow> (case p i of None \<Rightarrow> st' \<in> {L_Queued, L_Waiting}
                                    | Some st \<Rightarrow> st' = st \<or> st' \<in> set (transitions st)))"

lemma phase_unique: "file_ok m f \<Longrightarrow> t \<in> set f \<Longrightarrow> phase f (lt_id t) = Some (lt_status t)"
proof -
  assume f: "file_ok m f" and t: "t \<in> set f"
  obtain u where u: "find_task (lt_id t) f = Some u"
    using t by (cases "find_task (lt_id t) f") (auto simp: find_task_def find_None_iff)
  then have "u = t" using f t by (auto dest!: find_task_in simp: file_ok_def dest: key_inj)
  with u show ?thesis by (simp add: phase_def)
qed

lemma phase_None: "phase f i = None \<longleftrightarrow> i \<notin> lt_id ` set f"
  by (auto simp: phase_def find_task_def find_None_iff)

lemma local_step_refines:
  assumes "local_step encoded m (f, A) (f', A')" and "file_ok m f"
  shows "phase_step (phase f) (phase f')"
proof -
  have mv: "file_ok m f'" "task_moves A' f f'" using local_step_moves [OF assms] by simp_all
  have "case phase f i of None \<Rightarrow> st' \<in> {L_Queued, L_Waiting} | Some st \<Rightarrow> st' = st \<or> st' \<in> set (transitions st)"
    if seen: "phase f' i = Some st'" for i st'
  proof -
    obtain u where "find_task i f' = Some u" and st: "st' = lt_status u" using seen by (auto simp: phase_def)
    then have u: "u \<in> set f'" "lt_id u = i" "st' = lt_status u" by (auto dest: find_task_in)
    from mv(2) u(1) consider "at_gate u" "lt_id u \<notin> lt_id ` set f" | t where "t \<in> set f" "keeps t u"
      by (auto simp: task_moves_def)
    then show ?thesis
    proof cases
      case 1
      then show ?thesis using u phase_None [of f i] by (auto simp: at_gate_def split: option.splits if_splits)
    next
      case 2
      then show ?thesis using u phase_unique [OF assms(2) 2(1)] by (simp add: keeps_def)
    qed
  qed
  then show ?thesis by (auto simp: phase_step_def split: option.splits)
qed

end
