(* ===== verification/LocalTaskProps.thy ===== *)
theory LocalTaskProps
  imports LocalLife Examples
begin

text \<open>
  The properties of the local-first task store (\<open>LocalTaskStore\<close> in \<open>src/smara/local_agent.py\<close>).
\<close>

section \<open>An example run\<close>

text \<open>A deletion is requested with automatic approval, held back nevertheless, approved and claimed.\<close>

definition ex_deletion :: json where
  "ex_deletion = JObj [(''operation'', JStr ''delete''), (''path'', JStr ''a.txt'')]"

definition file_of :: "(task_file \<times> 'a) result \<Rightarrow> task_file" where
  "file_of r = (case r of Inr (f, _) \<Rightarrow> f | Inl _ \<Rightarrow> [])"

definition ex_local_id :: string where
  "ex_local_id = ''local_'' @ take 20 (uuid ex_env [0])"

definition ex_held :: task_file where
  "ex_held = file_of (create_local ex_env (\<lambda>_. 0) 10 ''Tidy'' ''Remove a.txt'' None False ''auto''
     (Some ''local_file_write'') (Some ex_deletion) [])"

definition ex_allowed :: task_file where
  "ex_allowed = file_of (approve_local (sub_env ex_env 1) 10 ex_local_id ex_held)"

definition ex_local_claimed :: task_file where
  "ex_local_claimed = file_of (claim_local (sub_env ex_env 2) 10 None ex_allowed)"

lemma file_of_ok: "is_ok r \<Longrightarrow> \<exists>x. r = Inr (file_of r, x)"
  by (cases r) (auto simp: file_of_def)

lemma ex_local_run:
  "local_step (\<lambda>_. 0) 10 ([], {}) (ex_held, {})"
  "local_step (\<lambda>_. 0) 10 (ex_held, {}) (ex_allowed, {ex_local_id})"
  "local_step (\<lambda>_. 0) 10 (ex_allowed, {ex_local_id}) (ex_local_claimed, {ex_local_id})"
proof -
  have "is_ok (create_local ex_env (\<lambda>_. 0) 10 ''Tidy'' ''Remove a.txt'' None False ''auto''
      (Some ''local_file_write'') (Some ex_deletion) [])" by code_simp
  then obtain t where "create_local ex_env (\<lambda>_. 0) 10 ''Tidy'' ''Remove a.txt'' None False ''auto''
      (Some ''local_file_write'') (Some ex_deletion) [] = Inr (ex_held, t)"
    unfolding ex_held_def by (blast dest: file_of_ok)
  then show "local_step (\<lambda>_. 0) 10 ([], {}) (ex_held, {})" by (rule local_step.created) simp
  have "is_ok (approve_local (sub_env ex_env 1) 10 ex_local_id ex_held)" by code_simp
  then obtain t where "approve_local (sub_env ex_env 1) 10 ex_local_id ex_held = Inr (ex_allowed, t)"
    unfolding ex_allowed_def by (blast dest: file_of_ok)
  then show "local_step (\<lambda>_. 0) 10 (ex_held, {}) (ex_allowed, {ex_local_id})"
    using local_step.approved [where A = "{}"] by fastforce
  have "is_ok (claim_local (sub_env ex_env 2) 10 None ex_allowed)" by code_simp
  then obtain t where "claim_local (sub_env ex_env 2) 10 None ex_allowed = Inr (ex_local_claimed, t)"
    unfolding ex_local_claimed_def by (blast dest: file_of_ok)
  then show "local_step (\<lambda>_. 0) 10 (ex_allowed, {ex_local_id}) (ex_local_claimed, {ex_local_id})"
    by (rule local_step.claimed)
qed

section \<open>The properties\<close>

text \<open>C13: nothing that needs the owner's approval runs without it. In every state the processes of a desktop reach on the
  local task file, by any interleaving of their creations, claims, reports, cancellations and recoveries, a task that
  requires approval - and every deletion of a file, whatever approval mode it was created with - is waiting or cancelled
  until the owner has approved it.\<close>

theorem local_work_is_approved:
  assumes "reach (local_step encoded m) ([], {}) (f, A)" and "t \<in> set f"
    and "lt_requires t \<or> is_delete (lt_capability t) (lt_payload t)" and "lt_id t \<notin> A"
  shows "lt_status t = L_Waiting \<or> lt_status t = L_Cancelled"
proof -
  have "local_inv m (f, A)" using local_store.inv_reach [OF assms(1)] .
  then show ?thesis using assms(2-4) by (auto simp: local_inv_def held_back_def)
qed

theorem local_work_is_approved_witness:
  "map (\<lambda>t. (lt_mode t, lt_status t)) ex_held = [(''auto'', L_Waiting)] \<and>
   map (\<lambda>t. (lt_mode t, lt_status t)) ex_local_claimed = [(''auto'', L_Running)]"
proof -
  have t: "map (\<lambda>t. (lt_mode t, is_delete (lt_capability t) (lt_payload t), lt_status t \<noteq> L_Cancelled)) ex_held
      = [(''auto'', True, True)]" by code_simp
  then obtain x where x: "ex_held = [x]" "lt_mode x = ''auto''" "is_delete (lt_capability x) (lt_payload x)"
    "lt_status x \<noteq> L_Cancelled" by (auto simp: map_eq_Cons_conv)
  have "reach (local_step (\<lambda>_. 0) 10) ([], {}) (ex_held, {})"
    by (rule reach.more) (rule reach.start, rule ex_local_run(1))
  moreover have "x \<in> set ex_held" by (simp add: x(1))
  ultimately have "lt_status x = L_Waiting"
    using local_work_is_approved [of "\<lambda>_. 0" 10 ex_held "{}" x] x(2-4) by simp
  moreover have "map (\<lambda>t. (lt_mode t, lt_status t)) ex_local_claimed = [(''auto'', L_Running)]" by code_simp
  ultimately show ?thesis by (simp add: x(1,2))
qed

text \<open>The store refines its life cycle: what the owner sees of the tasks moves along the table of transitions.\<close>

theorem local_store_refines:
  assumes "reach (local_step encoded m) ([], {}) s" and "local_step encoded m s s'"
  shows "phase_step (phase (fst s)) (phase (fst s'))"
proof -
  obtain f A f' A' where s: "s = (f, A)" "s' = (f', A')" by (cases s, cases s')
  have "file_ok m f" using local_store.inv_reach [OF assms(1)] by (simp add: s local_inv_def)
  with assms(2) show ?thesis unfolding s fst_conv by (rule local_step_refines)
qed

end
