(* ===== verification/LocalPaths.thy ===== *)
theory LocalPaths
  imports LocalSkills "HOL-Library.AList" "HOL-Library.Sublist"
begin

text \<open>
  The paths of the desktop (\<open>src/smara/path_resolver.py\<close> and \<open>_roots\<close>, \<open>_inside_root\<close>, \<open>_target\<close> of
  \<open>src/smara/desktop_executor.py\<close>), as \<open>pathlib\<close> has them on a POSIX system. An absolute path is the list of
  its names; the files of the machine are a table from paths to nodes, in directory order. The root
  directory is always there.
\<close>

section \<open>Files\<close>

type_synonym path = "string list"

datatype file_node = File string | Dir | Link bool path

type_synonym files = "(path \<times> file_node) list"

text \<open>The user's home, the working directory, the homes of other users.\<close>

record host =
  h_home :: path
  h_cwd :: path
  h_users :: "string \<Rightarrow> path option"

definition entry_at :: "files \<Rightarrow> path \<Rightarrow> file_node option" where
  "entry_at fs p = (if p = [] then Some Dir else map_of fs p)"

definition link_at :: "files \<Rightarrow> path \<Rightarrow> (bool \<times> path) option" where
  "link_at fs p = (case entry_at fs p of Some (Link absolute q) \<Rightarrow> Some (absolute, q) | _ \<Rightarrow> None)"

text \<open>
  \<open>Path.resolve\<close>: \<open>..\<close> leaves a directory, a link is followed, names that do not exist stay. The first
  argument bounds the links followed, as the system does; beyond it the code sees a link loop.
\<close>

fun real_from :: "nat \<Rightarrow> (path \<Rightarrow> (bool \<times> path) option) \<Rightarrow> path \<Rightarrow> path \<Rightarrow> path option" where
  "real_from n links here [] = Some here"
| "real_from n links here (c # cs) =
     (if c = ''..'' then real_from n links (butlast here) cs
      else (case links (here @ [c]) of
              None \<Rightarrow> real_from n links (here @ [c]) cs
            | Some (absolute, p) \<Rightarrow>
                (case n of 0 \<Rightarrow> None | Suc k \<Rightarrow> real_from k links (if absolute then [] else here) (p @ cs))))"

definition max_links :: nat where
  "max_links = 40"

definition real_path :: "files \<Rightarrow> path \<Rightarrow> path result" where
  "real_path fs p =
     (case real_from max_links (link_at fs) [] p of None \<Rightarrow> Inl (RuntimeError ''Symlink loop'') | Some q \<Rightarrow> Inr q)"

text \<open>
  The walk of the system: every name before the last must be a directory. It finds what exists.
\<close>

fun walk_from :: "nat \<Rightarrow> files \<Rightarrow> path \<Rightarrow> path \<Rightarrow> path option" where
  "walk_from n fs here [] = (if entry_at fs here = None then None else Some here)"
| "walk_from n fs here (c # cs) =
     (if entry_at fs here \<noteq> Some Dir then None
      else if c = ''..'' then walk_from n fs (butlast here) cs
      else (case link_at fs (here @ [c]) of
              None \<Rightarrow> walk_from n fs (here @ [c]) cs
            | Some (absolute, p) \<Rightarrow>
                (case n of 0 \<Rightarrow> None | Suc k \<Rightarrow> walk_from k fs (if absolute then [] else here) (p @ cs))))"

definition find_path :: "files \<Rightarrow> path \<Rightarrow> path option" where
  "find_path fs p = walk_from max_links fs [] p"

definition path_exists :: "files \<Rightarrow> path \<Rightarrow> bool" where
  "path_exists fs p \<longleftrightarrow> find_path fs p \<noteq> None"

definition node_of :: "files \<Rightarrow> path \<Rightarrow> file_node option" where
  "node_of fs p = (case find_path fs p of None \<Rightarrow> None | Some q \<Rightarrow> entry_at fs q)"

definition is_link :: "files \<Rightarrow> path \<Rightarrow> bool" where
  "is_link fs p \<longleftrightarrow> link_at fs p \<noteq> None"

section \<open>Text of paths\<close>

fun starts_slash :: "string \<Rightarrow> bool" where
  "starts_slash (c # cs) = (c = CHR ''/'')"
| "starts_slash [] = False"

text \<open>\<open>Path(s)\<close>: whether it is absolute, and its names.\<close>

definition parse_path :: "string \<Rightarrow> bool \<times> path" where
  "parse_path s = (starts_slash s, filter (\<lambda>c. c \<noteq> [] \<and> c \<noteq> ''.'') (segments s))"

definition posix_text :: "path \<Rightarrow> string" where
  "posix_text p = (if p = [] then ''/'' else concat (map (\<lambda>c. CHR ''/'' # c) p))"

text \<open>\<open>base / s\<close>: an absolute text replaces the base.\<close>

definition join_path :: "path \<Rightarrow> bool \<times> path \<Rightarrow> path" where
  "join_path base p = (if fst p then snd p else base @ snd p)"

lemma join_path_absolute [simp]: "join_path base (True, p) = p"
  by (simp add: join_path_def)

text \<open>\<open>expanduser\<close> on a parsed path.\<close>

definition expand_user :: "host \<Rightarrow> bool \<times> path \<Rightarrow> (bool \<times> path) result" where
  "expand_user h p =
     (case p of
        (False, (CHR ''~'' # user) # rest) \<Rightarrow>
          (if user = [] then Inr (True, h_home h @ rest)
           else (case h_users h user of
                   None \<Rightarrow> Inl (RuntimeError ''Could not determine home directory.'')
                 | Some d \<Rightarrow> Inr (True, d @ rest)))
      | _ \<Rightarrow> Inr p)"

section \<open>Finding a resource by its name\<close>

definition quote_char :: "char \<Rightarrow> bool" where
  "quote_char c \<longleftrightarrow> c = CHR 0x27 \<or> c = CHR 0x22 \<or> c = CHR 0x60"

definition strip_quotes :: "string \<Rightarrow> string" where
  "strip_quotes s = rev (dropWhile quote_char (rev (dropWhile quote_char s)))"

fun drop_prefixes :: "string list \<Rightarrow> string \<Rightarrow> string" where
  "drop_prefixes [] s = s"
| "drop_prefixes (p # ps) s = drop_prefixes ps (if starts_with (lower s) p then strip (drop (length p) s) else s)"

fun drop_suffixes :: "string list \<Rightarrow> string \<Rightarrow> string" where
  "drop_suffixes [] s = s"
| "drop_suffixes (p # ps) s =
     drop_suffixes ps (if ends_with (lower s) p then strip (take (length s - length p) s) else s)"

definition clean_resource_name :: "string \<Rightarrow> string" where
  "clean_resource_name raw =
     (let s = strip_quotes (strip raw);
          s = drop_prefixes [''folder '', ''directory '', ''file '', ''repo '', ''project ''] s;
          s = drop_suffixes ['' folder'', '' directory'', '' repo'', '' project''] s
      in strip_quotes (strip s))"

fun first_existing :: "files \<Rightarrow> path list \<Rightarrow> path option result" where
  "first_existing fs [] = Inr None"
| "first_existing fs (p # ps) =
     andThen (real_path fs p) (\<lambda>q. if path_exists fs q then Inr (Some q) else first_existing fs ps)"

definition user_folders :: "string list" where
  "user_folders =
     [''OneDrive'' @ [CHR 0x5C] @ ''Desktop'', ''OneDrive/Desktop'', ''Desktop'', ''Documents'', ''OneDrive'' @ [CHR 0x5C] @ ''Documents'',
      ''OneDrive/Documents'', ''OneDrive'', ''Projects'', ''workspace'', ''code'']"

definition dashes :: "string \<Rightarrow> string" where
  "dashes s = map (\<lambda>c. if c = CHR ''-'' then CHR ''_'' else c) s"

definition entries_of :: "files \<Rightarrow> path \<Rightarrow> string list" where
  "entries_of fs d = map (last \<circ> fst) (filter (\<lambda>(p, _). p \<noteq> [] \<and> butlast p = d) fs)"

text \<open>
  The places searched, in the order of the code: the approved roots, the parents and grandparents of the
  roots, the home directory, the usual folders in it.
\<close>

definition places :: "files \<Rightarrow> path list \<Rightarrow> path \<Rightarrow> path list" where
  "places fs roots home =
     roots @
     filter (path_exists fs) (concat (map (\<lambda>r. [butlast r, butlast (butlast r)]) roots)) @
     [home] @ map (\<lambda>d. home @ snd (parse_path d)) user_folders"

definition same_name :: "string \<Rightarrow> string \<Rightarrow> bool" where
  "same_name clean n \<longleftrightarrow> lower n = lower clean \<or> dashes (lower n) = dashes (lower clean)"

definition locate_resource :: "host \<Rightarrow> files \<Rightarrow> path list \<Rightarrow> string \<Rightarrow> path option result" where
  "locate_resource h fs roots raw =
     (let clean = clean_resource_name raw in
      if clean = [] then Inr None
      else
        andThen (expand_user h (parse_path clean)) (\<lambda>c.
        if fst c \<and> path_exists fs (snd c) then andThen (real_path fs (snd c)) (Inr \<circ> Some)
        else
          andThen (each (real_path fs) (if roots = [] then [h_cwd h] else roots)) (\<lambda>roots.
          andThen (real_path fs (h_home h)) (\<lambda>home.
          andThen (first_existing fs (map (\<lambda>d. join_path d (parse_path clean)) (places fs roots home))) (\<lambda>found.
          case found of
            Some q \<Rightarrow> Inr (Some q)
          | None \<Rightarrow>
              (case map_option (\<lambda>n. real_path fs (home @ [n])) (find (same_name clean) (entries_of fs home)) of
                 Some (Inr q) \<Rightarrow> Inr (Some q)
               | _ \<Rightarrow>
                   first_existing fs (filter (path_exists fs)
                     (map (\<lambda>d. join_path (h_cwd h @ [d]) (parse_path clean)) [''C:'' @ [CHR 0x5C], ''D:'' @ [CHR 0x5C]]))))))))"

section \<open>Approved folders\<close>

definition no_roots :: string where
  "no_roots = ''No local folders are approved. Pair with --allow-root before using file capabilities.''"

definition root_text :: "json \<Rightarrow> string option" where
  "root_text v = (case v of JStr s \<Rightarrow> if strip s = [] then None else Some s | _ \<Rightarrow> None)"

definition root_path :: "host \<Rightarrow> files \<Rightarrow> string \<Rightarrow> path result" where
  "root_path h fs s = andThen (expand_user h (parse_path s)) (\<lambda>c. real_path fs (join_path (h_cwd h) c))"

definition approved_roots :: "host \<Rightarrow> files \<Rightarrow> json \<Rightarrow> path list result" where
  "approved_roots h fs state =
     (let values = py_or (py_get ''allowed_roots'' state) (JArr []) in
      case values of
        JArr items \<Rightarrow>
          andThen (each (root_path h fs) (List.map_filter root_text items))
            (\<lambda>roots. if roots = [] then Inl (RuntimeError no_roots) else Inr roots)
      | _ \<Rightarrow> Inl (RuntimeError ''Desktop approved roots are invalid.''))"

definition inside_root :: "path \<Rightarrow> path list \<Rightarrow> bool" where
  "inside_root p roots \<longleftrightarrow> (\<exists>r \<in> set roots. prefix r p)"

definition outside_text :: string where
  "outside_text = ''Requested path is outside the desktop owner'' @ [CHR 0x27] @ ''s approved folders.''"

text \<open>The path a tool call names, before it is checked.\<close>

definition candidate_path :: "host \<Rightarrow> files \<Rightarrow> path list \<Rightarrow> string \<Rightarrow> path result" where
  "candidate_path h fs roots raw =
     andThen (locate_resource h fs roots raw) (\<lambda>found.
     case found of
       Some p \<Rightarrow> Inr p
     | None \<Rightarrow> andThen (expand_user h (parse_path raw)) (\<lambda>c.
         if fst c then Inr (snd c) else if roots = [] then Inl IndexError else Inr (hd roots @ snd c)))"

definition local_target :: "host \<Rightarrow> files \<Rightarrow> path list \<Rightarrow> bool \<Rightarrow> json \<Rightarrow> path result" where
  "local_target h fs roots must_exist raw =
     (case raw of
        JStr s \<Rightarrow>
          (if strip s = [] then Inl (RuntimeError ''A local path is required.'')
           else
             andThen (candidate_path h fs roots s) (\<lambda>candidate.
             andThen (real_path fs candidate) (\<lambda>prospective.
             if \<not> inside_root prospective roots then Inl (RuntimeError outside_text)
             else
               andThen
                 (if must_exist
                  then (case find_path fs candidate of
                          None \<Rightarrow> Inl (RuntimeError ''Requested local path does not exist or is inaccessible.'')
                        | Some q \<Rightarrow> Inr q)
                  else andThen (real_path fs (butlast candidate)) (\<lambda>parent.
                         Inr (parent @ (if candidate = [] then [] else [last candidate]))))
                 (\<lambda>p. if \<not> inside_root p roots then Inl (RuntimeError outside_text)
                      else if must_exist \<and> is_link fs p then Inl (RuntimeError ''Symlinked files are not allowed.'')
                      else Inr p))))
      | _ \<Rightarrow> Inl (RuntimeError ''A local path is required.''))"

text \<open>Every path the checks let through is in an approved folder.\<close>

lemma local_target_inside: "local_target h fs roots must_exist raw = Inr p \<Longrightarrow> inside_root p roots"
  by (cases raw) (auto simp: local_target_def split: if_splits)

section \<open>Straight paths\<close>

text \<open>A path without links and without \<open>..\<close> is its own resolution.\<close>

definition straight :: "files \<Rightarrow> path \<Rightarrow> bool" where
  "straight fs p \<longleftrightarrow> ''..'' \<notin> set p \<and> (\<forall>q c. prefix (q @ [c]) p \<longrightarrow> \<not> is_link fs (q @ [c]))"

lemma straight_step: "straight fs (here @ c # p) \<Longrightarrow> link_at fs (here @ [c]) = None \<and> c \<noteq> ''..''"
  unfolding straight_def is_link_def by (metis append_Cons append_Nil append_assoc in_set_conv_decomp prefixI)

lemma real_from_straight:
  "straight fs (here @ p) \<Longrightarrow> real_from n (link_at fs) here p = Some (here @ p)"
proof (induction p arbitrary: here)
  case (Cons c p)
  then show ?case using straight_step [OF Cons.prems] Cons.IH [of "here @ [c]"] by simp
qed simp

lemma real_path_straight [simp]: "straight fs p \<Longrightarrow> real_path fs p = Inr p"
  using real_from_straight [of fs "[]" p] by (simp add: real_path_def)

text \<open>The directories of a file tree: the parent of everything is a directory.\<close>

definition tree_ok :: "files \<Rightarrow> bool" where
  "tree_ok fs \<longleftrightarrow> (\<forall>p. entry_at fs p \<noteq> None \<longrightarrow> p \<noteq> [] \<longrightarrow> entry_at fs (butlast p) = Some Dir)"

lemma tree_parent: "tree_ok fs \<Longrightarrow> entry_at fs (p @ c # cs) \<noteq> None \<Longrightarrow> entry_at fs p = Some Dir"
proof (induction cs arbitrary: p c)
  case Nil
  then show ?case by (auto simp: tree_ok_def dest!: spec [of _ "p @ [c]"])
next
  case (Cons d cs)
  then have "entry_at fs (p @ [c]) = Some Dir" using Cons.IH [of "p @ [c]" d] by simp
  then show ?case using Cons.prems(1) by (auto simp: tree_ok_def dest!: spec [of _ "p @ [c]"])
qed

lemma walk_from_straight:
  assumes "tree_ok fs"
  shows "straight fs (here @ p) \<Longrightarrow> walk_from n fs here p = (if entry_at fs (here @ p) = None then None else Some (here @ p))"
proof (induction p arbitrary: here)
  case (Cons c p)
  then show ?case using straight_step [OF Cons.prems] Cons.IH [of "here @ [c]"] tree_parent [OF assms, of here c p]
    by auto
qed simp

lemma find_path_straight: "tree_ok fs \<Longrightarrow> straight fs p \<Longrightarrow> find_path fs p = (if entry_at fs p = None then None else Some p)"
  using walk_from_straight [of fs "[]" p] by (simp add: find_path_def)

lemma path_exists_straight: "tree_ok fs \<Longrightarrow> straight fs p \<Longrightarrow> path_exists fs p \<longleftrightarrow> entry_at fs p \<noteq> None"
  by (simp add: path_exists_def find_path_straight)

lemma node_of_straight: "tree_ok fs \<Longrightarrow> straight fs p \<Longrightarrow> node_of fs p = entry_at fs p"
  by (auto simp: node_of_def find_path_straight)

text \<open>Every resolution is straight.\<close>

lemma straight_Nil [simp]: "straight fs []"
  by (simp add: straight_def)

lemma straight_butlast: "straight fs p \<Longrightarrow> straight fs (butlast p)"
  unfolding straight_def by (meson in_set_butlastD prefix_order.trans prefixeq_butlast)

lemma straight_snoc: "straight fs p \<Longrightarrow> c \<noteq> ''..'' \<Longrightarrow> \<not> is_link fs (p @ [c]) \<Longrightarrow> straight fs (p @ [c])"
  by (auto simp: straight_def prefix_snoc)

lemma real_from_is_straight: "real_from n (link_at fs) here p = Some q \<Longrightarrow> straight fs here \<Longrightarrow> straight fs q"
proof (induction n "link_at fs" here p rule: real_from.induct)
  case (2 n here c cs)
  then show ?case
    by (auto simp: is_link_def straight_snoc straight_butlast split: option.splits nat.splits if_splits)
qed simp

lemma walk_from_is_straight: "walk_from n fs here p = Some q \<Longrightarrow> straight fs here \<Longrightarrow> straight fs q \<and> entry_at fs q \<noteq> None"
proof (induction n fs here p rule: walk_from.induct)
  case (2 n fs here c cs)
  then show ?case
    by (auto simp: is_link_def straight_snoc straight_butlast split: option.splits nat.splits if_splits)
qed (auto split: if_splits)

lemma find_path_is_straight: "find_path fs p = Some q \<Longrightarrow> straight fs q \<and> entry_at fs q \<noteq> None"
  unfolding find_path_def by (rule walk_from_is_straight [OF _ straight_Nil])

lemma real_path_is_straight: "real_path fs p = Inr q \<Longrightarrow> straight fs q"
  by (auto simp: real_path_def split: option.splits intro: real_from_is_straight)

text \<open>Resolution looks at the links only.\<close>

lemma real_path_links: "link_at fs' = link_at fs \<Longrightarrow> real_path fs' = real_path fs"
  by (rule ext) (simp add: real_path_def)

lemma straight_links: "link_at fs' = link_at fs \<Longrightarrow> straight fs' = straight fs"
  by (simp add: straight_def is_link_def fun_eq_iff)

section \<open>A path that names itself\<close>

text \<open>
  The text of a stored path is read back as a file name to search for. A text that the cleaning of names
  leaves alone leads back to the path; one such as \<open>/w/my repo\<close> does not.
\<close>

definition own_name :: "path \<Rightarrow> bool" where
  "own_name p \<longleftrightarrow> clean_resource_name (posix_text p) = posix_text p \<and> parse_path (posix_text p) = (True, p)"

text \<open>No name of a file has a slash in it.\<close>

definition names_ok :: "files \<Rightarrow> bool" where
  "names_ok fs \<longleftrightarrow> (\<forall>p \<in> fst ` set fs. \<forall>c \<in> set p. CHR ''/'' \<notin> set c)"

lemma slash_lower [simp]: "CHR ''/'' \<in> set (lower s) \<longleftrightarrow> CHR ''/'' \<in> set s"
proof -
  have same: "CHR ''/'' = lower_char c \<longleftrightarrow> c = CHR ''/''" for c
  proof (cases "65 \<le> (of_char c :: nat) \<and> (of_char c :: nat) \<le> 90")
    case True
    then have "(of_char (lower_char c) :: nat) = of_char c + 32" by (simp add: lower_char_def)
    then have "97 \<le> (of_char (lower_char c) :: nat)" using True by simp
    moreover have "\<not> 97 \<le> (of_char (CHR ''/'') :: nat)" by simp
    ultimately have "CHR ''/'' \<noteq> lower_char c" by metis
    moreover have "c \<noteq> CHR ''/''" using True by auto
    ultimately show ?thesis by simp
  next
    case False
    then have "lower_char c = c" unfolding lower_char_def by (rule if_not_P)
    then show ?thesis by (simp only: eq_commute)
  qed
  show ?thesis unfolding lower_def set_map image_iff same by blast
qed

lemma slash_dashes [simp]: "CHR ''/'' \<in> set (dashes s) \<longleftrightarrow> CHR ''/'' \<in> set s"
  by (force simp: dashes_def image_iff)

lemma same_name_slash: "same_name clean n \<Longrightarrow> CHR ''/'' \<in> set clean \<Longrightarrow> CHR ''/'' \<in> set n"
  unfolding same_name_def by (metis slash_lower slash_dashes)

lemma posix_text_slash [simp]: "CHR ''/'' \<in> set (posix_text p)"
  by (cases p) (auto simp: posix_text_def)

lemma posix_text_ne [simp]: "posix_text p \<noteq> []"
  by (cases p) (auto simp: posix_text_def)

lemma strip_posix_text [simp]: "strip (posix_text p) \<noteq> []"
proof
  assume "strip (posix_text p) = []"
  then have "dropWhile py_space (rev (dropWhile py_space (posix_text p))) = []" by (simp add: strip_def)
  moreover have "hd (posix_text p) = CHR ''/''" by (cases p) (auto simp: posix_text_def)
  then have "dropWhile py_space (posix_text p) = posix_text p"
    by (cases "posix_text p") (auto simp: py_space_def)
  ultimately have "\<forall>c \<in> set (posix_text p). py_space c" by (simp add: dropWhile_eq_Nil_conv)
  then have "py_space (CHR ''/'')" using posix_text_slash by blast
  then show False by (simp add: py_space_def)
qed

lemma entries_no_slash: "names_ok fs \<Longrightarrow> n \<in> set (entries_of fs d) \<Longrightarrow> CHR ''/'' \<notin> set n"
  by (force simp: entries_of_def names_ok_def)

lemma first_existing_none: "\<forall>p \<in> set ps. real_path fs p = Inr q \<and> \<not> path_exists fs q \<Longrightarrow> first_existing fs ps = Inr None"
  by (induction ps) auto

lemma each_same: "\<forall>x \<in> set xs. f x = Inr x \<Longrightarrow> each f xs = Inr xs"
  by (induction xs) auto

text \<open>What the machine must be like for a stored path to be found again: settled roots and home.\<close>

definition settled_host :: "host \<Rightarrow> files \<Rightarrow> path list \<Rightarrow> bool" where
  "settled_host h fs roots \<longleftrightarrow> names_ok fs \<and> tree_ok fs \<and> straight fs (h_home h) \<and> (\<forall>r \<in> set roots. straight fs r)"

lemma locate_own:
  assumes "own_name p" and "straight fs p" and "settled_host h fs roots" and "roots \<noteq> []"
  shows "locate_resource h fs roots (posix_text p) = Inr (if entry_at fs p = None then None else Some p)"
proof -
  have t: "clean_resource_name (posix_text p) = posix_text p" "parse_path (posix_text p) = (True, p)"
    using assms(1) by (simp_all add: own_name_def)
  have roots: "each (real_path fs) roots = Inr roots" "real_path fs (h_home h) = Inr (h_home h)"
    using assms(3) by (auto simp: settled_host_def intro: each_same)
  have here: "path_exists fs p \<longleftrightarrow> entry_at fs p \<noteq> None"
    using assms(2,3) path_exists_straight by (simp add: settled_host_def)
  show ?thesis
  proof (cases "entry_at fs p")
    case None
    have "first_existing fs (map (\<lambda>d. join_path d (True, p)) ds) = Inr None" for ds
      using None assms(2) here by (intro first_existing_none [where q = p]) simp
    moreover have "find (same_name (posix_text p)) (entries_of fs (h_home h)) = None"
      using entries_no_slash [of fs _ "h_home h"] assms(3) same_name_slash [of "posix_text p"]
      by (auto simp: find_None_iff settled_host_def)
    moreover have "filter (path_exists fs) (map (\<lambda>d. join_path (h_cwd h @ [d]) (True, p)) ds) = []" for ds
      using None here by (simp add: filter_empty_conv)
    ultimately show ?thesis using None assms(2,4) roots here
      by (simp add: locate_resource_def t expand_user_def Let_def)
  next
    case (Some x)
    then show ?thesis using assms(2) here by (simp add: locate_resource_def t expand_user_def Let_def)
  qed
qed

lemma target_again:
  assumes "own_name p" and "straight fs p" and "settled_host h fs roots" and "inside_root p roots"
  shows "local_target h fs roots False (JStr (posix_text p)) = Inr p"
proof -
  have "roots \<noteq> []" using assms(4) by (auto simp: inside_root_def)
  then have "candidate_path h fs roots (posix_text p) = Inr p"
    using locate_own [OF assms(1-3)] assms(1) by (simp add: candidate_path_def own_name_def expand_user_def)
  moreover have "real_path fs (butlast p) = Inr (butlast p)" using straight_butlast [OF assms(2)] by simp
  ultimately show ?thesis using assms(2,4) by (cases "p = []") (auto simp: local_target_def)
qed

lemma target_again_existing:
  assumes "own_name p" and "straight fs p" and "settled_host h fs roots" and "inside_root p roots" and "entry_at fs p \<noteq> None"
  shows "local_target h fs roots True (JStr (posix_text p)) = Inr p"
proof -
  have "roots \<noteq> []" using assms(4) by (auto simp: inside_root_def)
  then have "candidate_path h fs roots (posix_text p) = Inr p"
    using locate_own [OF assms(1-3)] assms(5) by (simp add: candidate_path_def)
  moreover have "\<not> is_link fs p"
    using assms(2) by (cases p rule: rev_cases) (auto simp: straight_def is_link_def link_at_def entry_at_def)
  moreover have "find_path fs p = Some p" using find_path_straight [of fs p] assms(2,3,5) by (simp add: settled_host_def)
  ultimately show ?thesis using assms(2,4,5) by (simp add: local_target_def)
qed

text \<open>A new target that is no link itself is straight.\<close>

lemma target_straight:
  assumes "local_target h fs roots False raw = Inr p" and "\<not> is_link fs p" and "''..'' \<notin> set p"
  shows "straight fs p"
proof -
  obtain candidate parent where "real_path fs (butlast candidate) = Inr parent"
    "p = parent @ (if candidate = [] then [] else [last candidate])"
    using assms(1) by (cases raw) (fastforce simp: local_target_def split: if_splits)+
  then show ?thesis using assms(2,3) straight_snoc [of fs parent] real_path_is_straight [of fs "butlast candidate" parent]
    by (auto split: if_splits)
qed

lemma target_existing_straight: "local_target h fs roots True raw = Inr p \<Longrightarrow> straight fs p \<and> entry_at fs p \<noteq> None"
  by (cases raw) (auto simp: local_target_def dest: find_path_is_straight split: if_splits option.splits)

end
