(* ===== verification/FileEdits.thy ===== *)
theory FileEdits
  imports LocalPaths LocalTasks
begin

text \<open>
  \<open>src/smara/desktop_executor.py\<close>: the edits a task makes in the approved folders of a desktop, and their
  undo ledger (\<open>_write_file\<close>, \<open>_write_file_unlocked\<close>, \<open>_write_document_unlocked\<close>, \<open>_undo_file\<close>). The ledger
  and its snapshots are kept in the application's own folder, apart from the files. An operation runs
  under the lock of its workspace, so it is one step on the disk. The text of a diff, the construction of
  office documents and the preparation of an isolated workspace are parameters.
\<close>

section \<open>State\<close>

datatype undo_kind =
    U_Content string bool string int
  | U_Delete string string
  | U_Rename string string string

record undo_entry =
  ue_id :: string
  ue_kind :: undo_kind
  ue_snapshot :: "string option"
  ue_created :: time
  ue_undone :: "time option"

record disk =
  dk_files :: files
  dk_ledger :: "undo_entry list"
  dk_snapshots :: "(string \<times> string) list"

datatype preview =
    Move_Preview string string string
  | Change_Preview string string bool nat nat

datatype edit_report =
    Previewed preview
  | Unchanged string string preview
  | Changed string string nat preview string
  | Made_Directory string
  | Restored string
  | Prepared json

text \<open>
  \<open>ed_io\<close> tells whether the final write, move or removal succeeds; \<open>ed_document\<close> builds a document from
  the operation, the payload, the bytes there are and a reader of other files.
\<close>

record editor =
  ed_env :: env
  ed_host :: host
  ed_io :: bool
  ed_decode :: "string \<Rightarrow> string option"
  ed_encode :: "string \<Rightarrow> string"
  ed_document :: "string \<Rightarrow> json \<Rightarrow> string \<Rightarrow> (json \<Rightarrow> string \<Rightarrow> string result) \<Rightarrow> string result"
  ed_prepare :: "json \<Rightarrow> disk \<Rightarrow> disk \<times> json result"
  ed_str :: "json \<Rightarrow> string"

definition max_file_bytes :: int where "max_file_bytes = 32 * 1024 * 1024"
definition max_document_bytes :: int where "max_document_bytes = 8 * 1024 * 1024"
definition max_undo_entries :: nat where "max_undo_entries = 50"

definition byte_size :: "string \<Rightarrow> int" where
  "byte_size b = int (length b)"

section \<open>Files\<close>

fun mkdirs :: "files \<Rightarrow> path \<Rightarrow> path \<Rightarrow> files option" where
  "mkdirs fs here [] = Some fs"
| "mkdirs fs here (c # cs) =
     (case entry_at fs (here @ [c]) of
        None \<Rightarrow> mkdirs (AList.update (here @ [c]) Dir fs) (here @ [c]) cs
      | Some Dir \<Rightarrow> mkdirs fs (here @ [c]) cs
      | Some _ \<Rightarrow> None)"

text \<open>\<open>_atomic_bytes\<close>: the files afterwards, and whether the file was replaced.\<close>

definition atomic_bytes :: "bool \<Rightarrow> files \<Rightarrow> path \<Rightarrow> string \<Rightarrow> files \<times> bool" where
  "atomic_bytes io fs p b =
     (case mkdirs fs [] (butlast p) of
        None \<Rightarrow> (fs, False)
      | Some fs' \<Rightarrow>
          (if io \<and> p \<noteq> [] \<and> last p \<noteq> ''..'' \<and> entry_at fs' p \<noteq> Some Dir then (AList.update p (File b) fs', True)
           else (fs', False)))"

definition existing_bytes :: "int \<Rightarrow> string \<Rightarrow> string \<Rightarrow> files \<Rightarrow> path \<Rightarrow> string result" where
  "existing_bytes limit label limit_text fs p =
     (if \<not> path_exists fs p then Inr []
      else if is_link fs p then Inl (RuntimeError ''Symlinked files are not allowed.'')
      else (case node_of fs p of
              Some (File b) \<Rightarrow>
                (if byte_size b > limit then Inl (RuntimeError (label @ '' exceeds the '' @ limit_text)) else Inr b)
            | _ \<Rightarrow> Inl (RuntimeError (label @ '' must be a regular file.''))))"

definition existing_file_bytes :: "string \<Rightarrow> files \<Rightarrow> path \<Rightarrow> string result" where
  "existing_file_bytes label = existing_bytes max_file_bytes label ''33554432 byte limit.''"

definition existing_document_bytes :: "string \<Rightarrow> files \<Rightarrow> path \<Rightarrow> string result" where
  "existing_document_bytes label = existing_bytes max_document_bytes label ''8 MB local document limit.''"

section \<open>The undo ledger\<close>

definition valid_undo_id :: "string \<Rightarrow> bool" where
  "valid_undo_id s \<longleftrightarrow> starts_with s ''undo_'' \<and> length s = 37 \<and> list_all hex_digit (drop 5 s)"

definition valid_snapshot_name :: "string \<Rightarrow> bool" where
  "valid_snapshot_name s \<longleftrightarrow> ends_with s ''.bin'' \<and> valid_undo_id (take (length s - 4) s)"

definition load_entries :: "disk \<Rightarrow> undo_entry list" where
  "load_entries d = take max_undo_entries (dk_ledger d)"

definition save_entries :: "undo_entry list \<Rightarrow> disk \<Rightarrow> disk" where
  "save_entries es d = d\<lparr>dk_ledger := take max_undo_entries es\<rparr>"

definition find_entry :: "string \<Rightarrow> disk \<Rightarrow> undo_entry option" where
  "find_entry i d = find (\<lambda>x. ue_id x = i) (load_entries d)"

definition drop_snapshot :: "undo_entry \<Rightarrow> (string \<times> string) list \<Rightarrow> (string \<times> string) list" where
  "drop_snapshot x snaps =
     (case ue_snapshot x of Some n \<Rightarrow> if valid_snapshot_name n then AList.delete n snaps else snaps | None \<Rightarrow> snaps)"

definition new_undo_id :: "env \<Rightarrow> string" where
  "new_undo_id e = ''undo_'' @ uuid e [0]"

definition remember_undo :: "env \<Rightarrow> undo_kind \<Rightarrow> string option \<Rightarrow> disk \<Rightarrow> disk" where
  "remember_undo e kind snapshot d =
     (let i = new_undo_id e; n = i @ ''.bin'';
          entries = \<lparr>ue_id = i, ue_kind = kind, ue_snapshot = map_option (\<lambda>_. n) snapshot,
                     ue_created = clk e 0, ue_undone = None\<rparr> # load_entries d;
          snaps = (case snapshot of None \<Rightarrow> dk_snapshots d | Some b \<Rightarrow> AList.update n b (dk_snapshots d))
      in (save_entries entries d)\<lparr>dk_snapshots := fold drop_snapshot (drop max_undo_entries entries) snaps\<rparr>)"

definition remove_undo_entry :: "string \<Rightarrow> disk \<Rightarrow> disk" where
  "remove_undo_entry i d =
     (save_entries (filter (\<lambda>x. ue_id x \<noteq> i) (load_entries d)) d)
       \<lparr>dk_snapshots := AList.delete (i @ ''.bin'') (dk_snapshots d)\<rparr>"

text \<open>
  A change with its undo record: \<open>apply\<close> gives the files afterwards and whether it succeeded. A record of
  a change that did not happen is taken back.
\<close>

definition recorded ::
  "editor \<Rightarrow> undo_kind \<Rightarrow> string option \<Rightarrow> (files \<Rightarrow> files \<times> bool) \<Rightarrow> string \<Rightarrow> (string \<Rightarrow> edit_report) \<Rightarrow> disk \<Rightarrow>
   disk \<times> edit_report result" where
  "recorded ed kind snapshot change failure report d =
     (let i = new_undo_id (ed_env ed); d' = remember_undo (ed_env ed) kind snapshot d in
      case change (dk_files d') of (fs, ok) \<Rightarrow>
        (if ok then (d'\<lparr>dk_files := fs\<rparr>, Inr (report i))
         else (remove_undo_entry i (d'\<lparr>dk_files := fs\<rparr>), Inl (RuntimeError failure))))"

definition remove_file :: "bool \<Rightarrow> path \<Rightarrow> files \<Rightarrow> files \<times> bool" where
  "remove_file io p fs = (if io then (AList.delete p fs, True) else (fs, False))"

text \<open>\<open>os.replace\<close> of a file: its new folder must be there.\<close>

definition move_file :: "bool \<Rightarrow> path \<Rightarrow> path \<Rightarrow> files \<Rightarrow> files \<times> bool" where
  "move_file io source destination fs =
     (case entry_at fs source of
        Some (File b) \<Rightarrow>
          (if io \<and> destination \<noteq> [] \<and> last destination \<noteq> ''..'' \<and> entry_at fs (butlast destination) = Some Dir
              \<and> entry_at fs destination \<noteq> Some Dir
           then (AList.update destination (File b) (AList.delete source fs), True) else (fs, False))
      | _ \<Rightarrow> (fs, False))"

section \<open>Changes of text\<close>

text \<open>\<open>str.count\<close> and \<open>str.replace\<close> with a limit; \<open>k\<close> characters are still covered by the last match.\<close>

fun count_text :: "string \<Rightarrow> nat \<Rightarrow> string \<Rightarrow> nat" where
  "count_text f k [] = 0"
| "count_text f k (c # cs) =
     (if k > 0 then count_text f (k - 1) cs
      else if starts_with (c # cs) f then Suc (count_text f (length f - 1) cs) else count_text f 0 cs)"

fun replace_text :: "string \<Rightarrow> string \<Rightarrow> nat \<Rightarrow> nat \<Rightarrow> string \<Rightarrow> string" where
  "replace_text f r n k [] = []"
| "replace_text f r n k (c # cs) =
     (if k > 0 then replace_text f r n (k - 1) cs
      else if n > 0 \<and> starts_with (c # cs) f then r @ replace_text f r (n - 1) (length f - 1) cs
      else c # replace_text f r n 0 cs)"

definition quoted :: "string \<Rightarrow> string" where
  "quoted s = CHR 0x27 # s @ [CHR 0x27]"

definition bounded_int :: "int \<Rightarrow> int \<Rightarrow> int \<Rightarrow> string \<Rightarrow> json \<Rightarrow> int result" where
  "bounded_int none lo hi field v =
     (let refused = Inl (RuntimeError (field @ '' must be an integer between '' @ show_nat (nat lo) @ '' and '' @ show_nat (nat hi) @ ''.'')) in
      case v of
        JNull \<Rightarrow> Inr none
      | JNum n \<Rightarrow> if n < lo \<or> n > hi then refused else Inr n
      | _ \<Rightarrow> refused)"

text \<open>The number of replacements: all occurrences, which must be one or as many as the payload says.\<close>

definition patch_count :: "nat \<Rightarrow> json \<Rightarrow> nat result" where
  "patch_count occurrences count =
     (if count = JNull
      then (if occurrences \<noteq> 1 then Inl (RuntimeError ''Patch is ambiguous; provide count matching every intended occurrence.'') else Inr 1)
      else andThen (bounded_int 1 1 100 ''count'' count) (\<lambda>n.
             if int occurrences \<noteq> n then Inl (RuntimeError (''Patch count '' @ show_nat (nat n) @ '' does not match the '' @ show_nat occurrences @ '' occurrences found.'')) else Inr (nat n)))"

definition no_find :: string where
  "no_find = ''Patch requires a non-empty '' @ quoted ''find'' @ '' string.''"

definition patched :: "editor \<Rightarrow> json \<Rightarrow> string \<Rightarrow> string result" where
  "patched ed payload old =
     (case ed_decode ed old of
        None \<Rightarrow> Inl (RuntimeError ''Patch target must be UTF-8 text.'')
      | Some source \<Rightarrow>
          (case (py_get ''find'' payload, py_get ''replace'' payload) of
             (JStr f, JStr r) \<Rightarrow>
               (if f = [] then Inl (RuntimeError no_find)
                else if byte_size (ed_encode ed f) > max_file_bytes \<or> byte_size (ed_encode ed r) > max_file_bytes
                then Inl (RuntimeError ''Patch content exceeds the 33554432 byte limit.'')
                else
                  andThen (patch_count (count_text f 0 source) (py_get ''count'' payload)) (\<lambda>n.
                  let after = ed_encode ed (replace_text f r n 0 source) in
                  if byte_size after > max_file_bytes then Inl (RuntimeError ''Patched content exceeds the 33554432 byte limit.'')
                  else Inr after))
           | (JStr f, _) \<Rightarrow>
               Inl (RuntimeError (if f = [] then no_find else ''Patch requires a string '' @ quoted ''replace'' @ '' value.''))
           | _ \<Rightarrow> Inl (RuntimeError no_find)))"

text \<open>The content a write, an append or a patch leaves in the file.\<close>

definition new_content :: "editor \<Rightarrow> string \<Rightarrow> json \<Rightarrow> files \<Rightarrow> path \<Rightarrow> string \<Rightarrow> string result" where
  "new_content ed operation payload fs p old =
     (if operation \<in> {''write'', ''append''} then
        (case py_get ''content'' payload of
           JStr s \<Rightarrow>
             (let data = ed_encode ed s in
              if operation = ''append''
              then (if byte_size (old @ data) > max_file_bytes then Inl (RuntimeError ''Appended content exceeds the file size limit.'')
                    else Inr (old @ data))
              else Inr data)
         | _ \<Rightarrow> Inl (RuntimeError ''local_file_write requires text content.''))
      else if \<not> path_exists fs p then Inl (RuntimeError ''Patch target does not exist.'')
      else patched ed payload old)"

section \<open>Edits\<close>

definition file_name :: "path \<Rightarrow> string" where
  "file_name p = (if p = [] then [] else last p)"

definition preview_only :: "json \<Rightarrow> bool" where
  "preview_only payload \<longleftrightarrow> py_get ''preview_only'' payload = JBool True"

text \<open>A content change: the end of \<open>_write_file_unlocked\<close> and of \<open>_write_document_unlocked\<close>.\<close>

definition change_content ::
  "editor \<Rightarrow> string \<Rightarrow> int \<Rightarrow> string \<Rightarrow> json \<Rightarrow> path \<Rightarrow> string \<Rightarrow> string \<Rightarrow> nat \<Rightarrow> disk \<Rightarrow> disk \<times> edit_report result" where
  "change_content ed operation limit failure payload p old after written d =
     (let preview = Change_Preview operation (file_name p) (old \<noteq> after) (length old) (length after);
          there = path_exists (dk_files d) p
      in if preview_only payload then (d, Inr (Previewed preview))
         else if old = after then (d, Inr (Unchanged operation (file_name p) preview))
         else recorded ed (U_Content (posix_text p) there (sha256 (ed_env ed) after) limit) (if there then Some old else None)
                (\<lambda>fs. atomic_bytes (ed_io ed) fs p after) failure (Changed operation (file_name p) written preview) d)"

definition move_edit :: "editor \<Rightarrow> path list \<Rightarrow> string \<Rightarrow> json \<Rightarrow> disk \<Rightarrow> disk \<times> edit_report result" where
  "move_edit ed roots operation payload d =
     (let fs = dk_files d; h = ed_host ed in
      case local_target h fs roots True (py_get ''path'' payload) of
        Inl x \<Rightarrow> (d, Inl x)
      | Inr source \<Rightarrow>
          (case local_target h fs roots False (py_get ''new_path'' payload) of
             Inl x \<Rightarrow> (d, Inl x)
           | Inr destination \<Rightarrow>
               (if source = destination then (d, Inl (RuntimeError ''Source and destination paths must be different.''))
                else if path_exists fs destination \<or> is_link fs destination
                then (d, Inl (RuntimeError ''The destination already exists; refusing to overwrite it.''))
                else
                  (case existing_file_bytes ''Source file'' fs source of
                     Inl x \<Rightarrow> (d, Inl x)
                   | Inr b \<Rightarrow>
                       (let preview = Move_Preview operation (file_name source) (file_name destination) in
                        if preview_only payload then (d, Inr (Previewed preview))
                        else recorded ed (U_Rename (posix_text source) (posix_text destination) (sha256 (ed_env ed) b)) None
                               (move_file (ed_io ed) source destination) ''Could not move the approved file atomically.''
                               (Changed operation (file_name destination) (length b) preview) d)))))"

definition delete_edit :: "editor \<Rightarrow> json \<Rightarrow> path \<Rightarrow> string \<Rightarrow> disk \<Rightarrow> disk \<times> edit_report result" where
  "delete_edit ed payload p old d =
     (let preview = Change_Preview ''delete'' (file_name p) True (length old) 0 in
      if \<not> path_exists (dk_files d) p then (d, Inl (RuntimeError ''The file to delete does not exist.''))
      else if preview_only payload then (d, Inr (Previewed preview))
      else recorded ed (U_Delete (posix_text p) (sha256 (ed_env ed) old)) (Some old) (remove_file (ed_io ed) p)
             ''Could not delete the approved file.'' (Changed ''delete'' (file_name p) 0 preview) d)"

definition content_edit :: "editor \<Rightarrow> path list \<Rightarrow> string \<Rightarrow> json \<Rightarrow> disk \<Rightarrow> disk \<times> edit_report result" where
  "content_edit ed roots operation payload d =
     (case local_target (ed_host ed) (dk_files d) roots False (py_get ''path'' payload) of
        Inl x \<Rightarrow> (d, Inl x)
      | Inr p \<Rightarrow>
          (case existing_file_bytes ''Local file'' (dk_files d) p of
             Inl x \<Rightarrow> (d, Inl x)
           | Inr old \<Rightarrow>
               (if operation = ''delete'' then delete_edit ed payload p old d
                else
                  (case new_content ed operation payload (dk_files d) p old of
                     Inl x \<Rightarrow> (d, Inl x)
                   | Inr after \<Rightarrow>
                       change_content ed operation max_file_bytes ''Could not atomically write the approved file.'' payload p old after
                         (if operation = ''append'' then length after - length old else length after) d))))"

text \<open>The approved folder of a target, for its lock: the deepest one.\<close>

definition workspace_for_target :: "files \<Rightarrow> path list \<Rightarrow> path \<Rightarrow> path result" where
  "workspace_for_target fs roots p =
     andThen (real_path fs p) (\<lambda>q.
     andThen (each (real_path fs) roots) (\<lambda>rs.
     case filter (\<lambda>r. prefix r q) rs of
       [] \<Rightarrow> Inl (RuntimeError ''The local operation is outside every approved workspace.'')
     | r # rest \<Rightarrow> Inr (fold (\<lambda>x best. if length best < length x then x else best) rest r)))"

text \<open>The label is the one of the message.\<close>

definition read_source :: "editor \<Rightarrow> path list \<Rightarrow> path \<Rightarrow> files \<Rightarrow> json \<Rightarrow> string \<Rightarrow> string result" where
  "read_source ed roots destination_root fs raw label =
     andThen (local_target (ed_host ed) fs roots True raw) (\<lambda>source.
     andThen (workspace_for_target fs roots source) (\<lambda>r.
     if r \<noteq> destination_root then Inl (RuntimeError ''PDF source files must be in the same approved workspace as the destination.'')
     else if \<not> ends_with (lower (file_name source)) ''.pdf'' then Inl (RuntimeError (label @ '' must be a PDF file.''))
     else existing_document_bytes label fs source))"

definition document_edit :: "editor \<Rightarrow> path list \<Rightarrow> string \<Rightarrow> json \<Rightarrow> disk \<Rightarrow> disk \<times> edit_report result" where
  "document_edit ed roots operation payload d =
     (let fs = dk_files d in
      case andThen (local_target (ed_host ed) fs roots False (py_get ''path'' payload)) (\<lambda>p.
           andThen (existing_document_bytes ''Local document'' fs p) (\<lambda>old.
           andThen (workspace_for_target fs roots p) (\<lambda>r.
           andThen (ed_document ed operation payload old (read_source ed roots r fs)) (\<lambda>after.
           if byte_size after > max_document_bytes then Inl (RuntimeError ''Generated document exceeds the 8 MB local document limit.'')
           else Inr (p, old, after))))) of
        Inl x \<Rightarrow> (d, Inl x)
      | Inr (p, old, after) \<Rightarrow>
          change_content ed operation max_document_bytes ''Could not atomically write the local document.'' payload p old after (length after) d)"

section \<open>Undo\<close>

definition undo_failed :: "disk \<Rightarrow> files \<Rightarrow> disk \<times> edit_report result" where
  "undo_failed d fs = (d\<lparr>dk_files := fs\<rparr>, Inl (RuntimeError ''Could not restore the local change.''))"

definition snapshot_of :: "int \<Rightarrow> string \<Rightarrow> undo_entry \<Rightarrow> disk \<Rightarrow> string result" where
  "snapshot_of limit whose x d =
     (case ue_snapshot x of
        None \<Rightarrow> Inl (RuntimeError ''The undo snapshot is invalid.'')
      | Some n \<Rightarrow>
          (if \<not> valid_snapshot_name n then Inl (RuntimeError ''The undo snapshot is invalid.'')
           else (case map_of (dk_snapshots d) n of
                   None \<Rightarrow> Inl (RuntimeError ''The undo snapshot is unavailable.'')
                 | Some b \<Rightarrow> if byte_size b > limit then Inl (RuntimeError (''The undo snapshot exceeds '' @ whose @ '' local file limit.'')) else Inr b)))"

text \<open>The files a record of the ledger leads back to, and whether writing them succeeded.\<close>

definition undo_change :: "editor \<Rightarrow> path list \<Rightarrow> undo_entry \<Rightarrow> disk \<Rightarrow> (files \<times> bool) result" where
  "undo_change ed roots x d =
     (let fs = dk_files d; h = ed_host ed; io = ed_io ed; sha = sha256 (ed_env ed) in
      case ue_kind x of
        U_Content raw existed after_sha limit \<Rightarrow>
          andThen (local_target h fs roots False (JStr raw)) (\<lambda>p.
          if limit < 1 \<or> limit > max_file_bytes then Inl (RuntimeError ''The undo snapshot limit is invalid.'')
          else andThen (existing_file_bytes ''Local file'' fs p) (\<lambda>now.
          if sha now \<noteq> after_sha then Inl (RuntimeError ''The file changed after this edit; refusing to overwrite newer work.'')
          else if existed then andThen (snapshot_of limit ''its'' x d) (\<lambda>b. Inr (atomic_bytes io fs p b))
          else if path_exists fs p then Inr (remove_file io p fs) else Inr (fs, True)))
      | U_Delete raw old_sha \<Rightarrow>
          andThen (local_target h fs roots False (JStr raw)) (\<lambda>p.
          if path_exists fs p then Inl (RuntimeError ''A file now exists at the deleted path; refusing to overwrite it.'')
          else andThen (snapshot_of max_file_bytes ''the'' x d) (\<lambda>b. Inr (atomic_bytes io fs p b)))
      | U_Rename raw new after_sha \<Rightarrow>
          andThen (local_target h fs roots False (JStr raw)) (\<lambda>source.
          andThen (local_target h fs roots True (JStr new)) (\<lambda>destination.
          andThen (existing_file_bytes ''Destination file'' fs destination) (\<lambda>now.
          if path_exists fs source \<or> sha now \<noteq> after_sha
          then Inl (RuntimeError ''The moved file changed; refusing to overwrite newer work.'')
          else if entry_at fs (butlast source) = None then Inl (RuntimeError ''The undo snapshot is unavailable.'')
          else Inr (move_file io destination source fs)))))"

fun mark_undone :: "time \<Rightarrow> string \<Rightarrow> undo_entry list \<Rightarrow> undo_entry list" where
  "mark_undone now i [] = []"
| "mark_undone now i (x # xs) = (if ue_id x = i then x\<lparr>ue_undone := Some now\<rparr> # xs else x # mark_undone now i xs)"

definition undo_edit :: "editor \<Rightarrow> path list \<Rightarrow> json \<Rightarrow> disk \<Rightarrow> disk \<times> edit_report result" where
  "undo_edit ed roots payload d =
     (case py_get ''undo_id'' payload of
        JStr i \<Rightarrow>
          (if \<not> valid_undo_id i then (d, Inl (RuntimeError ''A valid local undo_id is required.''))
           else
             (case find_entry i d of
                None \<Rightarrow> (d, Inl (RuntimeError ''That undo entry is unavailable or has expired.''))
              | Some x \<Rightarrow>
                  (if ue_undone x \<noteq> None then (d, Inl (RuntimeError ''That local change has already been undone.''))
                   else
                     (case undo_change ed roots x d of
                        Inl err \<Rightarrow> (d, Inl err)
                      | Inr (fs, ok) \<Rightarrow>
                          (if ok
                           then (save_entries (mark_undone (clk (ed_env ed) 0) i (load_entries d)) (d\<lparr>dk_files := fs\<rparr>),
                                 Inr (Restored i))
                           else undo_failed d fs)))))
      | _ \<Rightarrow> (d, Inl (RuntimeError ''A valid local undo_id is required.'')))"

section \<open>The operation of a payload\<close>

definition edit_operation :: "json \<Rightarrow> json" where
  "edit_operation payload =
     (case py_get ''operation'' payload of
        JNull \<Rightarrow> JStr (if py_get ''append'' payload = JBool True then ''append'' else ''write'')
      | v \<Rightarrow> if v = JStr ''replace'' then JStr ''write'' else v)"

definition document_operations :: "string list" where
  "document_operations =
     [''create_docx'', ''edit_docx'', ''create_xlsx'', ''edit_xlsx'', ''create_pptx'', ''edit_pptx'', ''create_pdf'',
      ''merge_pdf'', ''extract_pdf_pages'']"

definition document_suffixes :: "(string \<times> string) list" where
  "document_suffixes = [(''.docx'', ''create_docx''), (''.pdf'', ''create_pdf''), (''.xlsx'', ''create_xlsx''), (''.pptx'', ''create_pptx'')]"

text \<open>\<open>_markdown_to_sections\<close>: the title, the open section and the finished ones.\<close>

record markdown =
  md_title :: string
  md_heading :: string
  md_paragraphs :: "string list"
  md_bullets :: "string list"
  md_sections :: "json list"

definition close_section :: "markdown \<Rightarrow> markdown" where
  "close_section m =
     (if md_heading m \<noteq> [] \<or> md_paragraphs m \<noteq> [] \<or> md_bullets m \<noteq> []
      then m\<lparr>md_sections := md_sections m @
               [JObj [(''heading'', JStr (md_heading m)), (''body'', JStr []),
                      (''paragraphs'', JArr (map JStr (md_paragraphs m))), (''bullets'', JArr (map JStr (md_bullets m)))]],
             md_paragraphs := [], md_bullets := []\<rparr>
      else m)"

definition markdown_line :: "string \<Rightarrow> markdown \<Rightarrow> markdown" where
  "markdown_line line m =
     (let s = strip line in
      if s = [] then m
      else if starts_with s ''# '' then m\<lparr>md_title := strip (drop 2 s)\<rparr>
      else if starts_with s ''## '' \<or> starts_with s ''### ''
      then (close_section m)\<lparr>md_heading := strip (dropWhile (\<lambda>c. c = CHR ''#'') s)\<rparr>
      else if starts_with s ''- '' \<or> starts_with s ''* '' then m\<lparr>md_bullets := md_bullets m @ [strip (drop 2 s)]\<rparr>
      else m\<lparr>md_paragraphs := md_paragraphs m @ [s]\<rparr>)"

text \<open>\<open>splitlines\<close> at line feeds.\<close>

fun text_lines :: "string \<Rightarrow> string list" where
  "text_lines [] = []"
| "text_lines (c # cs) =
     (if c = CHR 0x0A then [] # text_lines cs
      else (case text_lines cs of [] \<Rightarrow> [[c]] | l # ls \<Rightarrow> (c # l) # ls))"

definition markdown_to_sections :: "string \<Rightarrow> string \<times> json list" where
  "markdown_to_sections content =
     (let m = close_section (fold markdown_line (text_lines (strip content))
                \<lparr>md_title = ''Smara Report'', md_heading = [], md_paragraphs = [], md_bullets = [], md_sections = []\<rparr>)
      in (md_title m, md_sections m))"

text \<open>A text write to an office file becomes the creation of a document.\<close>

definition as_document :: "editor \<Rightarrow> string \<Rightarrow> (string \<times> json) list \<Rightarrow> (string \<times> json) list" where
  "as_document ed operation payload =
     (let p = set_item ''operation'' (JStr operation) payload in
      if truth (py_get ''sections'' (JObj p)) then p
      else
        (let content = text_or_else (ed_str ed) (py_get ''content'' (JObj payload)) [] in
         if strip content = [] then p
         else (let (t, s) = markdown_to_sections content;
                   p = (if truth (py_get ''title'' (JObj p)) then p else set_item ''title'' (JStr t) p)
               in set_item ''sections'' (JArr s) p)))"

definition document_suffix :: "editor \<Rightarrow> json \<Rightarrow> string option" where
  "document_suffix ed payload =
     (let raw = lower (text_or_else (ed_str ed) (py_get ''path'' payload) []) in
      map_option snd (find (\<lambda>(e, _). ends_with raw e) document_suffixes))"

definition make_directory :: "editor \<Rightarrow> path list \<Rightarrow> json \<Rightarrow> disk \<Rightarrow> disk \<times> edit_report result" where
  "make_directory ed roots payload d =
     (case local_target (ed_host ed) (dk_files d) roots False (py_get ''path'' payload) of
        Inl x \<Rightarrow> (d, Inl x)
      | Inr p \<Rightarrow>
          (if node_of (dk_files d) p = Some Dir then (d, Inr (Made_Directory (file_name p)))
           else if ''..'' \<in> set p then (d, Inl (OSError ''mkdir''))
           else (case mkdirs (dk_files d) [] p of
                   None \<Rightarrow> (d, Inl (OSError ''mkdir''))
                 | Some fs \<Rightarrow> (d\<lparr>dk_files := fs\<rparr>, Inr (Made_Directory (file_name p))))))"

definition write_unlocked :: "editor \<Rightarrow> path list \<Rightarrow> (string \<times> json) list \<Rightarrow> disk \<Rightarrow> disk \<times> edit_report result" where
  "write_unlocked ed roots kvs d =
     (let payload = JObj kvs; op = edit_operation payload in
      if unhashable op then (d, Inl TypeError)
      else
        (case (op, document_suffix ed payload) of
           (JStr operation, ending) \<Rightarrow>
             (if operation \<in> {''write'', ''append''} \<and> ending \<noteq> None
              then document_edit ed roots (the ending) (JObj (as_document ed (the ending) kvs)) d
              else if operation \<in> set document_operations then document_edit ed roots operation payload d
              else if operation = ''prepare_workspace''
              then (case ed_prepare ed payload d of (d', Inl x) \<Rightarrow> (d', Inl x) | (d', Inr v) \<Rightarrow> (d', Inr (Prepared v)))
              else if operation = ''create_directory'' then make_directory ed roots payload d
              else if operation = ''undo'' then undo_edit ed roots payload d
              else if operation \<in> {''rename'', ''move''} then move_edit ed roots operation payload d
              else if operation \<in> {''write'', ''append'', ''patch'', ''delete''} then content_edit ed roots operation payload d
              else (d, Inl (RuntimeError ''local_file_write supports text edits plus create/edit DOCX, XLSX, PPTX, and PDF operations.'')))
         | _ \<Rightarrow> (d, Inl (RuntimeError ''local_file_write supports text edits plus create/edit DOCX, XLSX, PPTX, and PDF operations.''))))"

text \<open>\<open>_write_file\<close>: the target chooses the workspace to lock, for an undo from its record.\<close>

definition recorded_path :: "undo_entry \<Rightarrow> string" where
  "recorded_path x = (case ue_kind x of U_Content raw _ _ _ \<Rightarrow> raw | U_Delete raw _ \<Rightarrow> raw | U_Rename _ new _ \<Rightarrow> new)"

definition lock_path :: "json \<Rightarrow> disk \<Rightarrow> json" where
  "lock_path payload d =
     (let raw = py_or (py_get ''path'' payload) (py_get ''new_path'' payload) in
      if py_get ''operation'' payload = JStr ''undo'' \<and> \<not> truth raw
      then (case py_get ''undo_id'' payload of
              JStr i \<Rightarrow> (case find_entry i d of Some x \<Rightarrow> JStr (recorded_path x) | None \<Rightarrow> raw)
            | _ \<Rightarrow> raw)
      else raw)"

definition write_file :: "editor \<Rightarrow> path list \<Rightarrow> (string \<times> json) list \<Rightarrow> disk \<Rightarrow> disk \<times> edit_report result" where
  "write_file ed roots kvs d =
     (case andThen (local_target (ed_host ed) (dk_files d) roots False (lock_path (JObj kvs) d))
             (workspace_for_target (dk_files d) roots) of
        Inl x \<Rightarrow> (d, Inl x)
      | Inr _ \<Rightarrow> write_unlocked ed roots kvs d)"

end
