(* ===== verification/FileUndo.thy ===== *)
theory FileUndo
  imports FileEdits
begin

text \<open>
  What the edits of \<open>FileEdits\<close> do to the files: nothing outside the approved folders changes, and an undo
  gives back the content there was.
\<close>

section \<open>Content\<close>

text \<open>The content at a path: a file, a link, or nothing. Directories hold no content.\<close>

definition content_at :: "files \<Rightarrow> path \<Rightarrow> file_node option" where
  "content_at fs p = (if entry_at fs p = Some Dir then None else entry_at fs p)"

lemma entry_at_update: "p \<noteq> [] \<Longrightarrow> entry_at (AList.update p x fs) q = (if q = p then Some x else entry_at fs q)"
  by (simp add: entry_at_def update_conv')

lemma entry_at_delete: "p \<noteq> [] \<Longrightarrow> entry_at (AList.delete p fs) q = (if q = p then None else entry_at fs q)"
  by (simp add: entry_at_def delete_conv')

lemma entry_at_Nil [simp]: "entry_at fs [] = Some Dir"
  by (simp add: entry_at_def)

text \<open>Making directories adds directories where nothing was.\<close>

lemma mkdirs_node:
  "mkdirs fs here cs = Some fs' \<Longrightarrow>
     entry_at fs' p = entry_at fs p \<or> entry_at fs p = None \<and> entry_at fs' p = Some Dir \<and> prefix p (here @ cs)"
proof (induction fs here cs rule: mkdirs.induct)
  case (2 fs here c cs)
  show ?case
  proof (cases "entry_at fs (here @ [c])")
    case None
    then show ?thesis using 2(1) [OF None] 2(3) by (auto simp: entry_at_update split: if_splits)
  next
    case (Some x)
    then show ?thesis using 2(2,3) by (cases x) auto
  qed
qed simp

lemma mkdirs_content: "mkdirs fs here cs = Some fs' \<Longrightarrow> content_at fs' p = content_at fs p"
  using mkdirs_node [of fs here cs fs' p] by (auto simp: content_at_def)

lemma mkdirs_keeps: "mkdirs fs here cs = Some fs' \<Longrightarrow> entry_at fs p = Some x \<Longrightarrow> entry_at fs' p = Some x"
  using mkdirs_node [of fs here cs fs' p] by auto

lemma mkdirs_makes: "mkdirs fs here cs = Some fs' \<Longrightarrow> entry_at fs here = Some Dir \<Longrightarrow> entry_at fs' (here @ cs) = Some Dir"
proof (induction fs here cs rule: mkdirs.induct)
  case (2 fs here c cs)
  show ?case
  proof (cases "entry_at fs (here @ [c])")
    case None
    then show ?thesis using 2(1) [OF None] 2(3) by (simp add: entry_at_update)
  next
    case (Some x)
    then show ?thesis using 2(2,3) by (cases x) auto
  qed
qed simp

lemma atomic_content: "atomic_bytes io fs p b = (fs', ok) \<Longrightarrow> q \<noteq> p \<Longrightarrow> content_at fs' q = content_at fs q"
  by (auto simp: atomic_bytes_def content_at_def entry_at_update dest: mkdirs_content split: option.splits if_splits)

lemma remove_content: "remove_file io p fs = (fs', ok) \<Longrightarrow> p \<noteq> [] \<Longrightarrow> q \<noteq> p \<Longrightarrow> content_at fs' q = content_at fs q"
  by (auto simp: remove_file_def content_at_def entry_at_delete split: if_splits)

lemma move_content:
  "move_file io a b fs = (fs', ok) \<Longrightarrow> q \<noteq> a \<Longrightarrow> q \<noteq> b \<Longrightarrow> content_at fs' q = content_at fs q"
  by (auto simp: move_file_def content_at_def entry_at_def update_conv' delete_conv' split: option.splits file_node.splits if_splits)

section \<open>Nothing outside the approved folders\<close>

definition same_outside :: "path list \<Rightarrow> files \<Rightarrow> files \<Rightarrow> bool" where
  "same_outside roots fs fs' \<longleftrightarrow> (\<forall>p. \<not> inside_root p roots \<longrightarrow> content_at fs' p = content_at fs p)"

lemma same_outside_refl [simp, intro!]: "same_outside roots fs fs"
  by (simp add: same_outside_def)

lemma atomic_outside: "inside_root p roots \<Longrightarrow> atomic_bytes io fs p b = (fs', ok) \<Longrightarrow> same_outside roots fs fs'"
  unfolding same_outside_def using atomic_content by metis

lemma remove_outside: "inside_root p roots \<Longrightarrow> remove_file io p fs = (fs', ok) \<Longrightarrow> p \<noteq> [] \<Longrightarrow> same_outside roots fs fs'"
  unfolding same_outside_def using remove_content by metis

lemma move_outside:
  "inside_root a roots \<Longrightarrow> inside_root b roots \<Longrightarrow> move_file io a b fs = (fs', ok) \<Longrightarrow> same_outside roots fs fs'"
  unfolding same_outside_def using move_content by metis

lemma remember_files [simp]: "dk_files (remember_undo e kind snapshot d) = dk_files d"
  by (simp add: remember_undo_def save_entries_def Let_def)

lemma recorded_outside:
  assumes "recorded ed kind snapshot change failure report d = (d', r)"
    and "\<And>fs ok. change (dk_files d) = (fs, ok) \<Longrightarrow> same_outside roots (dk_files d) fs"
  shows "same_outside roots (dk_files d) (dk_files d')"
  using assms(1) assms(2) [of "fst (change (dk_files d))" "snd (change (dk_files d))"]
  by (auto simp: recorded_def remove_undo_entry_def save_entries_def Let_def split: prod.splits if_splits)

text \<open>A file that is there is not the root directory.\<close>

lemma existing_ne: "existing_bytes limit label t fs p = Inr b \<Longrightarrow> path_exists fs p \<Longrightarrow> p \<noteq> []"
  by (auto simp: existing_bytes_def node_of_def find_path_def split: if_splits option.splits file_node.splits)

lemma change_content_outside:
  assumes "change_content ed operation limit failure payload p old after written d = (d', r)" and "inside_root p roots"
  shows "same_outside roots (dk_files d) (dk_files d')"
  using assms by (auto simp: change_content_def Let_def split: if_splits elim!: recorded_outside intro: atomic_outside)

lemma move_edit_outside: "move_edit ed roots operation payload d = (d', r) \<Longrightarrow> same_outside roots (dk_files d) (dk_files d')"
  by (auto simp: move_edit_def Let_def dest!: local_target_inside split: sum.splits if_splits
      elim!: recorded_outside intro: move_outside)

lemma delete_edit_outside:
  assumes "delete_edit ed payload p old d = (d', r)" and "inside_root p roots" and "existing_file_bytes label (dk_files d) p = Inr old"
  shows "same_outside roots (dk_files d) (dk_files d')"
proof (cases "path_exists (dk_files d) p")
  case True
  then have "p \<noteq> []" using existing_ne assms(3) unfolding existing_file_bytes_def by blast
  then show ?thesis using assms(1,2)
    by (auto simp: delete_edit_def Let_def split: if_splits elim!: recorded_outside intro: remove_outside)
qed (use assms(1) in \<open>simp add: delete_edit_def\<close>)

lemma content_edit_outside: "content_edit ed roots operation payload d = (d', r) \<Longrightarrow> same_outside roots (dk_files d) (dk_files d')"
  by (auto simp: content_edit_def dest!: local_target_inside split: sum.splits if_splits
      intro: change_content_outside delete_edit_outside)

lemma document_edit_outside: "document_edit ed roots operation payload d = (d', r) \<Longrightarrow> same_outside roots (dk_files d) (dk_files d')"
  by (auto simp: document_edit_def Let_def dest: local_target_inside split: sum.splits if_splits
      intro: change_content_outside)

lemma make_directory_outside: "make_directory ed roots payload d = (d', r) \<Longrightarrow> same_outside roots (dk_files d) (dk_files d')"
  by (auto simp: make_directory_def same_outside_def dest: mkdirs_content split: sum.splits if_splits option.splits)

lemma undo_change_outside:
  "undo_change ed roots x d = Inr (fs, ok) \<Longrightarrow> same_outside roots (dk_files d) fs"
  by (auto simp: undo_change_def Let_def existing_file_bytes_def dest: local_target_inside existing_ne
      split: undo_kind.splits if_splits intro: atomic_outside remove_outside move_outside)

lemma undo_edit_outside: "undo_edit ed roots payload d = (d', r) \<Longrightarrow> same_outside roots (dk_files d) (dk_files d')"
  by (cases "py_get ''undo_id'' payload")
    (auto simp: undo_edit_def undo_failed_def save_entries_def split: if_splits option.splits sum.splits
      elim!: undo_change_outside)

lemmas edits_outside = move_edit_outside content_edit_outside document_edit_outside make_directory_outside undo_edit_outside

lemma edits_cases:
  assumes "(if b then x else y) = z"
  obtains "b" "x = z" | "\<not> b" "y = z"
  using assms by (auto split: if_splits)

lemma write_unlocked_outside:
  assumes "write_unlocked ed roots kvs d = (d', r)" and "edit_operation (JObj kvs) \<noteq> JStr ''prepare_workspace''"
  shows "same_outside roots (dk_files d) (dk_files d')"
proof (cases "edit_operation (JObj kvs)")
  case (JStr operation)
  then have "operation \<noteq> ''prepare_workspace''" using assms(2) by simp
  with assms(1) JStr show ?thesis
    unfolding write_unlocked_def Let_def
    by (simp add: unhashable_def split del: if_split) 
      (elim edits_cases; (erule edits_outside | simp))
qed (use assms(1) in \<open>simp_all add: write_unlocked_def unhashable_def\<close>)

section \<open>The machine after an edit\<close>

lemma link_at_eq: "(\<And>p. entry_at fs' p = entry_at fs p \<or> \<not> is_link fs p \<and> \<not> is_link fs' p) \<Longrightarrow> link_at fs' = link_at fs"
proof (rule ext)
  fix p assume "\<And>p. entry_at fs' p = entry_at fs p \<or> \<not> is_link fs p \<and> \<not> is_link fs' p"
  from this [of p] consider "entry_at fs' p = entry_at fs p" | "link_at fs p = None" "link_at fs' p = None"
    unfolding is_link_def by blast
  then show "link_at fs' p = link_at fs p" by cases (simp_all add: link_at_def)
qed

lemma not_link: "entry_at fs p = None \<or> entry_at fs p = Some Dir \<or> entry_at fs p = Some (File b) \<Longrightarrow> \<not> is_link fs p"
  by (auto simp: is_link_def link_at_def)

lemma segments_no_slash: "c \<in> set (segments s) \<Longrightarrow> CHR ''/'' \<notin> set c"
proof (induction s arbitrary: c)
  case (Cons a s)
  have "hd (segments s) \<in> set (segments s)" by (rule hd_in_set) simp
  then have "CHR ''/'' \<notin> set (hd (segments s))" using Cons.IH by blast
  moreover have "c \<in> set (tl (segments s)) \<Longrightarrow> CHR ''/'' \<notin> set c" using Cons.IH list.set_sel(2) [of "segments s" c] by simp
  ultimately show ?case using Cons by (auto split: if_splits)
qed simp

lemma own_name_slash: "own_name p \<Longrightarrow> c \<in> set p \<Longrightarrow> CHR ''/'' \<notin> set c"
proof -
  assume "own_name p" and c: "c \<in> set p"
  then have "p = filter (\<lambda>c. c \<noteq> [] \<and> c \<noteq> ''.'') (segments (posix_text p))" by (simp add: own_name_def parse_path_def)
  with c have "c \<in> set (segments (posix_text p))" by (metis filter_is_subset subsetD)
  then show ?thesis by (rule segments_no_slash)
qed

lemma mkdirs_names:
  "mkdirs fs here cs = Some fs' \<Longrightarrow> names_ok fs \<Longrightarrow> (\<forall>c \<in> set (here @ cs). CHR ''/'' \<notin> set c) \<Longrightarrow> names_ok fs'"
proof (induction fs here cs rule: mkdirs.induct)
  case (2 fs here c cs)
  show ?case
  proof (cases "entry_at fs (here @ [c])")
    case None
    then show ?thesis using 2(1) [OF None] 2(3-) by (auto simp: names_ok_def dom_update)
  next
    case (Some x)
    then show ?thesis using 2(2-) by (cases x) auto
  qed
qed simp

lemma mkdirs_tree: "mkdirs fs here cs = Some fs' \<Longrightarrow> tree_ok fs \<Longrightarrow> entry_at fs here = Some Dir \<Longrightarrow> tree_ok fs'"
proof (induction fs here cs rule: mkdirs.induct)
  case (2 fs here c cs)
  show ?case
  proof (cases "entry_at fs (here @ [c])")
    case None
    have "tree_ok (AList.update (here @ [c]) Dir fs)"
      using 2(4,5) None by (auto simp: tree_ok_def entry_at_update)
    then show ?thesis using 2(1) [OF None] 2(3) None by (auto simp: entry_at_update)
  next
    case (Some x)
    then show ?thesis using 2(2-) by (cases x) auto
  qed
qed simp

text \<open>Putting a file at a path whose folder is there, and taking it away, keeps the tree.\<close>

lemma tree_put:
  assumes "tree_ok fs" and "p \<noteq> []" and "entry_at fs (butlast p) = Some Dir" and "entry_at fs p \<noteq> Some Dir"
  shows "tree_ok (AList.update p (File b) fs)"
proof -
  have "butlast p \<noteq> p" using assms(2) by (metis append_butlast_last_id append_self_conv not_Cons_self2)
  moreover have "butlast q = p \<Longrightarrow> q \<noteq> [] \<Longrightarrow> entry_at fs q = None" for q using assms(1,4) by (auto simp: tree_ok_def)
  ultimately show ?thesis using assms by (auto simp: tree_ok_def entry_at_update)
qed

lemma tree_take:
  assumes "tree_ok fs" and "p \<noteq> []" and "entry_at fs p \<noteq> Some Dir"
  shows "tree_ok (AList.delete p fs)"
proof -
  have "butlast q = p \<Longrightarrow> q \<noteq> [] \<Longrightarrow> entry_at fs q = None" for q using assms(1,3) by (auto simp: tree_ok_def)
  then show ?thesis using assms by (auto simp: tree_ok_def entry_at_delete)
qed

lemma names_put: "names_ok fs \<Longrightarrow> (\<forall>c \<in> set p. CHR ''/'' \<notin> set c) \<Longrightarrow> names_ok (AList.update p x fs)"
  by (simp add: names_ok_def dom_update)

lemma names_take: "names_ok fs \<Longrightarrow> names_ok (AList.delete p fs)"
  using dom_delete_subset [of p fs] by (auto simp: names_ok_def)

text \<open>A path that can be named and holds no link, on a settled machine.\<close>

definition good_place :: "host \<Rightarrow> files \<Rightarrow> path list \<Rightarrow> path \<Rightarrow> bool" where
  "good_place h fs roots p \<longleftrightarrow> settled_host h fs roots \<and> straight fs p \<and> own_name p \<and> inside_root p roots"

lemma straight_not_link: "straight fs p \<Longrightarrow> p \<noteq> [] \<Longrightarrow> \<not> is_link fs p"
  by (cases p rule: rev_cases) (auto simp: straight_def)

lemma good_links: "good_place h fs roots p \<Longrightarrow> link_at fs' = link_at fs \<Longrightarrow> names_ok fs' \<Longrightarrow> tree_ok fs' \<Longrightarrow> good_place h fs' roots p"
  unfolding good_place_def settled_host_def by (drule straight_links) simp

lemma good_target: "good_place h fs roots p \<Longrightarrow> local_target h fs roots False (JStr (posix_text p)) = Inr p"
  by (simp add: good_place_def target_again)

lemma good_exists: "good_place h fs roots p \<Longrightarrow> path_exists fs p \<longleftrightarrow> entry_at fs p \<noteq> None"
  by (simp add: good_place_def settled_host_def path_exists_straight)

lemma good_bytes:
  "good_place h fs roots p \<Longrightarrow> p \<noteq> [] \<Longrightarrow> existing_bytes limit label t fs p = Inr b \<longleftrightarrow>
     entry_at fs p = None \<and> b = [] \<or> entry_at fs p = Some (File b) \<and> byte_size b \<le> limit"
  using straight_not_link [of fs p]
  by (auto simp: existing_bytes_def good_exists good_place_def settled_host_def node_of_straight split: file_node.splits option.splits)

text \<open>A file put at such a place.\<close>

lemma atomic_put:
  assumes "atomic_bytes io fs p b = (fs', True)" and "good_place h fs roots p"
  shows "io \<and> p \<noteq> [] \<and> good_place h fs' roots p \<and> entry_at fs' p = Some (File b)"
proof -
  obtain fs1 where fs1: "mkdirs fs [] (butlast p) = Some fs1" "fs' = AList.update p (File b) fs1"
    and p: "io" "p \<noteq> []" "entry_at fs1 p \<noteq> Some Dir"
    using assms(1) by (auto simp: atomic_bytes_def split: option.splits if_splits)
  note m = mkdirs_node [OF fs1(1)]
  have ok: "names_ok fs" "tree_ok fs" "\<forall>c \<in> set p. CHR ''/'' \<notin> set c"
    using assms(2) own_name_slash by (auto simp: good_place_def settled_host_def)
  have fs1_ok: "names_ok fs1" "tree_ok fs1"
    using mkdirs_names [OF fs1(1) ok(1)] mkdirs_tree [OF fs1(1) ok(2)] ok(3) by (auto dest: in_set_butlastD)
  have parent: "entry_at fs1 (butlast p) = Some Dir" using mkdirs_makes [OF fs1(1)] by simp
  have no_link: "\<not> is_link fs p" using straight_not_link assms(2) p(2) by (simp add: good_place_def)
  have "link_at fs' = link_at fs"
  proof (rule link_at_eq)
    fix q show "entry_at fs' q = entry_at fs q \<or> \<not> is_link fs q \<and> \<not> is_link fs' q"
      using m [of q] no_link not_link [of fs' q b] not_link [of fs q b] p(2) by (auto simp: fs1(2) entry_at_update)
  qed
  then show ?thesis
    using p fs1(2) good_links [OF assms(2)] names_put [OF fs1_ok(1) ok(3)] tree_put [OF fs1_ok(2) p(2) parent p(3)]
    by (simp add: entry_at_update)
qed

lemma place_ne: "p \<noteq> []" if "atomic_bytes io fs p b = (fs', True)"
  using that by (auto simp: atomic_bytes_def split: option.splits if_splits)

section \<open>The undo record\<close>

definition undo_entry_of :: "editor \<Rightarrow> undo_kind \<Rightarrow> string option \<Rightarrow> undo_entry" where
  "undo_entry_of ed kind snapshot =
     \<lparr>ue_id = new_undo_id (ed_env ed), ue_kind = kind,
      ue_snapshot = map_option (\<lambda>_. new_undo_id (ed_env ed) @ ''.bin'') snapshot, ue_created = clk (ed_env ed) 0, ue_undone = None\<rparr>"

text \<open>The random identifier is well formed and new to the ledger.\<close>

definition new_identifier :: "editor \<Rightarrow> disk \<Rightarrow> bool" where
  "new_identifier ed d \<longleftrightarrow> valid_undo_id (new_undo_id (ed_env ed))
     \<and> (\<forall>x \<in> set (dk_ledger d). ue_snapshot x \<noteq> Some (new_undo_id (ed_env ed) @ ''.bin''))"

lemma drop_snapshots: "(\<forall>x \<in> set xs. ue_snapshot x \<noteq> Some n) \<Longrightarrow> map_of (fold drop_snapshot xs s) n = map_of s n"
proof (induction xs arbitrary: s)
  case (Cons x xs)
  then have "map_of (drop_snapshot x s) n = map_of s n"
    by (auto simp: drop_snapshot_def delete_conv' split: option.splits)
  with Cons show ?case by simp
qed simp

lemma valid_snapshot: "valid_undo_id i \<Longrightarrow> valid_snapshot_name (i @ ''.bin'')"
  by (simp add: valid_snapshot_name_def ends_with_def starts_with_def)

lemma recorded_done:
  assumes "recorded ed kind snapshot change failure report d = (d1, Inr r)"
  shows "change (dk_files d) = (dk_files d1, True)" and "r = report (new_undo_id (ed_env ed))"
    and "find_entry (new_undo_id (ed_env ed)) d1 = Some (undo_entry_of ed kind snapshot)"
    and "new_identifier ed d \<Longrightarrow> snapshot = Some b \<Longrightarrow> map_of (dk_snapshots d1) (new_undo_id (ed_env ed) @ ''.bin'') = Some b"
proof -
  obtain fs where fs: "change (dk_files d) = (fs, True)" "d1 = (remember_undo (ed_env ed) kind snapshot d)\<lparr>dk_files := fs\<rparr>"
    "r = report (new_undo_id (ed_env ed))"
    using assms by (auto simp: recorded_def Let_def split: prod.splits if_splits)
  show "change (dk_files d) = (dk_files d1, True)" "r = report (new_undo_id (ed_env ed))" using fs by simp_all
  show "find_entry (new_undo_id (ed_env ed)) d1 = Some (undo_entry_of ed kind snapshot)"
    by (simp add: fs(2) find_entry_def load_entries_def remember_undo_def save_entries_def max_undo_entries_def undo_entry_of_def Let_def)
  assume new: "new_identifier ed d" and b: "snapshot = Some b"
  let ?n = "new_undo_id (ed_env ed) @ ''.bin''"
  have "ue_snapshot x \<noteq> Some ?n" if "x \<in> set (drop max_undo_entries (y # load_entries d))" for x y
  proof -
    from that have "x \<in> set (load_entries d)" by (auto simp: max_undo_entries_def dest: in_set_dropD)
    then show ?thesis using new by (auto simp: load_entries_def new_identifier_def dest: in_set_takeD)
  qed
  then show "map_of (dk_snapshots d1) ?n = Some b"
    by (simp add: fs(2) b remember_undo_def Let_def drop_snapshots update_conv')
qed

text \<open>An edit runs under the lock of its target.\<close>

lemma write_file_outside:
  "write_file ed roots kvs d = (d', r) \<Longrightarrow> edit_operation (JObj kvs) \<noteq> JStr ''prepare_workspace'' \<Longrightarrow>
     same_outside roots (dk_files d) (dk_files d')"
  by (auto simp: write_file_def split: sum.splits intro: write_unlocked_outside)

text \<open>Newer work is not overwritten, and an undo happens once.\<close>

lemma undo_refused:
  assumes "find_entry i d = Some x" and "ue_kind x = U_Content raw existed after limit"
    and "local_target (ed_host ed) (dk_files d) roots False (JStr raw) = Inr p"
    and "existing_file_bytes ''Local file'' (dk_files d) p = Inr now" and "sha256 (ed_env ed) now \<noteq> after"
  shows "\<exists>err. undo_edit ed roots (JObj [(''undo_id'', JStr i)]) d = (d, Inl err)"
  using assms by (auto simp: undo_edit_def undo_change_def py_get_def Let_def)

lemma find_mark: "find (\<lambda>x. ue_id x = i) (mark_undone now i xs) = map_option (ue_undone_update (\<lambda>_. Some now)) (find (\<lambda>x. ue_id x = i) xs)"
  by (induction xs) auto

lemma length_mark [simp]: "length (mark_undone now i xs) = length xs"
  by (induction xs) auto

lemma undo_once:
  assumes "undo_edit ed roots payload d = (d', Inr (Restored i))"
  shows "undo_edit ed' roots' payload d' = (d', Inl (RuntimeError ''That local change has already been undone.''))"
proof -
  obtain x fs where x: "py_get ''undo_id'' payload = JStr i" "valid_undo_id i" "find_entry i d = Some x"
    and d': "d' = save_entries (mark_undone (clk (ed_env ed) 0) i (load_entries d)) (d\<lparr>dk_files := fs\<rparr>)"
    using assms by (cases "py_get ''undo_id'' payload")
      (auto simp: undo_edit_def undo_failed_def split: if_splits option.splits sum.splits)
  have "load_entries d' = mark_undone (clk (ed_env ed) 0) i (load_entries d)"
    by (simp add: d' load_entries_def save_entries_def)
  then show ?thesis using x by (simp add: undo_edit_def find_entry_def find_mark)
qed

section \<open>Undoing an edit\<close>

text \<open>The deepest approved folder of a settled place is found.\<close>

lemma good_workspace: "good_place h fs roots p \<Longrightarrow> \<exists>r. workspace_for_target fs roots p = Inr r"
proof -
  assume g: "good_place h fs roots p"
  then have "each (real_path fs) roots = Inr roots" "real_path fs p = Inr p"
    by (auto simp: good_place_def settled_host_def intro: each_same)
  moreover have "filter (\<lambda>r. prefix r p) roots \<noteq> []" using g by (auto simp: good_place_def inside_root_def filter_empty_conv)
  ultimately show ?thesis by (cases "filter (\<lambda>r. prefix r p) roots") (auto simp: workspace_for_target_def)
qed

definition undo_call :: "string \<Rightarrow> (string \<times> json) list" where
  "undo_call i = [(''operation'', JStr ''undo''), (''undo_id'', JStr i)]"

definition restores :: "editor \<Rightarrow> path list \<Rightarrow> disk \<Rightarrow> disk \<Rightarrow> string \<Rightarrow> bool" where
  "restores ed roots d d1 i \<longleftrightarrow>
     (\<exists>d2. write_file ed roots (undo_call i) d1 = (d2, Inr (Restored i))
        \<and> (\<forall>q. content_at (dk_files d2) q = content_at (dk_files d) q))"

lemma undo_call_unlocked: "write_unlocked ed roots (undo_call i) d = undo_edit ed roots (JObj (undo_call i)) d"
  by (simp add: write_unlocked_def undo_call_def edit_operation_def py_get_def unhashable_def document_suffix_def
      text_or_else_def document_suffixes_def document_operations_def ends_with_def starts_with_def Let_def lower_def)

lemma restoresI:
  assumes x: "find_entry i d1 = Some x" "valid_undo_id i" "ue_undone x = None" "undo_change ed roots x d1 = Inr (fs, True)"
    and place: "recorded_path x = posix_text p" "good_place (ed_host ed) (dk_files d1) roots p"
    and same: "\<And>q. content_at fs q = content_at (dk_files d) q"
  shows "restores ed roots d d1 i"
proof -
  have "lock_path (JObj (undo_call i)) d1 = JStr (posix_text p)"
    using x(1) place(1) by (simp add: lock_path_def undo_call_def py_get_def py_or_def Let_def)
  then have "write_file ed roots (undo_call i) d1 = undo_edit ed roots (JObj (undo_call i)) d1"
    using good_workspace [OF place(2)] good_target [OF place(2)] by (auto simp: write_file_def undo_call_unlocked)
  moreover have "undo_edit ed roots (JObj (undo_call i)) d1
      = (save_entries (mark_undone (clk (ed_env ed) 0) i (load_entries d1)) (d1\<lparr>dk_files := fs\<rparr>), Inr (Restored i))"
    using x by (simp add: undo_edit_def undo_call_def py_get_def)
  ultimately show ?thesis using same by (simp add: restores_def save_entries_def)
qed

lemma tree_dir_prefix: "tree_ok fs \<Longrightarrow> entry_at fs (p @ cs) = Some Dir \<Longrightarrow> entry_at fs p = Some Dir"
  by (cases cs) (auto dest: tree_parent)

lemma mkdirs_there: "tree_ok fs \<Longrightarrow> entry_at fs (here @ cs) = Some Dir \<Longrightarrow> mkdirs fs here cs = Some fs"
proof (induction cs arbitrary: here)
  case (Cons c cs)
  have "entry_at fs (here @ [c]) = Some Dir" using tree_dir_prefix [of fs "here @ [c]" cs] Cons.prems by simp
  then show ?case using Cons by simp
qed simp

text \<open>Writing where a file is, or where its folder is.\<close>

lemma atomic_there:
  assumes "good_place h fs roots p" and "p \<noteq> []" and "entry_at fs (butlast p) = Some Dir" and "entry_at fs p \<noteq> Some Dir"
  shows "atomic_bytes True fs p b = (AList.update p (File b) fs, True)"
proof -
  have t: "tree_ok fs" "last p \<noteq> ''..''"
    using assms(1,2) last_in_set [OF assms(2)] unfolding good_place_def settled_host_def straight_def by metis+
  then show ?thesis using mkdirs_there [of fs "[]" "butlast p"] assms(2-4) by (simp add: atomic_bytes_def)
qed

lemma parent_dir: "good_place h fs roots p \<Longrightarrow> p \<noteq> [] \<Longrightarrow> entry_at fs p \<noteq> None \<Longrightarrow> entry_at fs (butlast p) = Some Dir"
  by (auto simp: good_place_def settled_host_def tree_ok_def)

lemma content_put: "p \<noteq> [] \<Longrightarrow> content_at (AList.update p (File b) fs) q = (if q = p then Some (File b) else content_at fs q)"
  by (simp add: content_at_def entry_at_update)

lemma content_take: "p \<noteq> [] \<Longrightarrow> content_at (AList.delete p fs) q = (if q = p then None else content_at fs q)"
  by (simp add: content_at_def entry_at_delete)

lemma good_take: "good_place h fs roots q \<Longrightarrow> p \<noteq> [] \<Longrightarrow> entry_at fs p = Some (File b) \<Longrightarrow> good_place h (AList.delete p fs) roots q"
proof (rule good_links)
  assume g: "good_place h fs roots q" and p: "p \<noteq> []" "entry_at fs p = Some (File b)"
  show "link_at (AList.delete p fs) = link_at fs"
  proof (rule link_at_eq)
    fix r show "entry_at (AList.delete p fs) r = entry_at fs r \<or> \<not> is_link fs r \<and> \<not> is_link (AList.delete p fs) r"
      using p not_link [of fs p b] not_link [of "AList.delete p fs" p b] by (auto simp: entry_at_delete)
  qed
  show "names_ok (AList.delete p fs)" "tree_ok (AList.delete p fs)"
    using g p names_take tree_take by (auto simp: good_place_def settled_host_def)
qed

lemma change_content_undo:
  assumes run: "change_content ed operation limit failure payload p old after written d = (d1, Inr (Changed op n k pv i))"
    and place: "good_place (ed_host ed) (dk_files d) roots p"
    and old: "existing_bytes limit label t (dk_files d) p = Inr old"
    and new: "new_identifier ed d" and bounds: "byte_size after \<le> max_file_bytes" "1 \<le> limit" "limit \<le> max_file_bytes"
  shows "restores ed roots d d1 i"
proof -
  let ?there = "path_exists (dk_files d) p" and ?e = "ed_env ed"
  let ?kind = "U_Content (posix_text p) ?there (sha256 ?e after) limit" and ?snap = "if ?there then Some old else None"
  have rec: "recorded ed ?kind ?snap (\<lambda>fs. atomic_bytes (ed_io ed) fs p after) failure
      (Changed operation (file_name p) written (Change_Preview operation (file_name p) (old \<noteq> after) (length old) (length after))) d
      = (d1, Inr (Changed op n k pv i))"
    using run by (auto simp: change_content_def Let_def split: if_splits)
  note rec_done = recorded_done [OF rec]
  have i: "i = new_undo_id ?e" using rec_done(2) by simp
  have put: "ed_io ed" "p \<noteq> []" "good_place (ed_host ed) (dk_files d1) roots p" "entry_at (dk_files d1) p = Some (File after)"
    using atomic_put [OF rec_done(1) place] by auto
  have others: "content_at (dk_files d1) q = content_at (dk_files d) q" if "q \<noteq> p" for q
    using atomic_content [OF rec_done(1) that] .
  have now: "existing_file_bytes ''Local file'' (dk_files d1) p = Inr after"
    unfolding existing_file_bytes_def good_bytes [OF put(3,2)] using put(4) bounds(1) by simp
  have valid: "valid_undo_id i" using new by (simp add: new_identifier_def i)
  show ?thesis
  proof (cases ?there)
    case True
    have was: "entry_at (dk_files d) p = Some (File old)" "byte_size old \<le> limit"
      using old True good_bytes [OF place put(2)] good_exists [OF place] by auto
    have "map_of (dk_snapshots d1) (i @ ''.bin'') = Some old" using rec_done(4) [OF new] True by (simp add: i)
    then have "undo_change ed roots (undo_entry_of ed ?kind ?snap) d1 = Inr (AList.update p (File old) (dk_files d1), True)"
      using True put now was(2) bounds(2,3) good_target [OF put(3)] valid valid_snapshot [OF valid]
        atomic_there [OF put(3,2) parent_dir [OF put(3,2)], of old]
      by (simp add: undo_change_def undo_entry_of_def snapshot_of_def Let_def i)
    moreover have "content_at (AList.update p (File old) (dk_files d1)) q = content_at (dk_files d) q" for q
      using others [of q] was(1) put(2) by (auto simp: content_put) (simp add: content_at_def)
    ultimately show ?thesis using rec_done(3) valid put(3)
      by (intro restoresI [where x = "undo_entry_of ed ?kind ?snap" and fs = "AList.update p (File old) (dk_files d1)" and p = p]) (simp_all add: i undo_entry_of_def recorded_path_def)
  next
    case False
    then have was: "entry_at (dk_files d) p = None" using good_exists [OF place] by simp
    have "undo_change ed roots (undo_entry_of ed ?kind ?snap) d1 = Inr (AList.delete p (dk_files d1), True)"
      using False put now bounds(2,3) good_target [OF put(3)] good_exists [OF put(3)]
      by (simp add: undo_change_def undo_entry_of_def remove_file_def Let_def)
    moreover have "content_at (AList.delete p (dk_files d1)) q = content_at (dk_files d) q" for q
      using others [of q] was put(2) by (auto simp: content_take) (simp add: content_at_def)
    ultimately show ?thesis using rec_done(3) valid put(3)
      by (intro restoresI [where x = "undo_entry_of ed ?kind ?snap" and fs = "AList.delete p (dk_files d1)" and p = p]) (simp_all add: i undo_entry_of_def recorded_path_def)
  qed
qed

lemma delete_edit_undo:
  assumes run: "delete_edit ed payload p old d = (d1, Inr (Changed op n k pv i))"
    and place: "good_place (ed_host ed) (dk_files d) roots p"
    and old: "existing_file_bytes label (dk_files d) p = Inr old"
    and new: "new_identifier ed d"
  shows "restores ed roots d d1 i"
proof -
  let ?e = "ed_env ed"
  let ?kind = "U_Delete (posix_text p) (sha256 ?e old)"
  have rec: "recorded ed ?kind (Some old) (remove_file (ed_io ed) p) ''Could not delete the approved file.''
      (Changed ''delete'' (file_name p) 0 (Change_Preview ''delete'' (file_name p) True (length old) 0)) d = (d1, Inr (Changed op n k pv i))"
    and there: "path_exists (dk_files d) p"
    using run by (auto simp: delete_edit_def Let_def split: if_splits)
  note rec_done = recorded_done [OF rec]
  have ne: "p \<noteq> []" using existing_ne old there unfolding existing_file_bytes_def by blast
  have was: "entry_at (dk_files d) p = Some (File old)" "byte_size old \<le> max_file_bytes"
    using old there good_bytes [OF place ne] good_exists [OF place] unfolding existing_file_bytes_def by auto
  have io: "ed_io ed" and fs1: "dk_files d1 = AList.delete p (dk_files d)"
    using rec_done(1) by (auto simp: remove_file_def split: if_splits)
  have i: "i = new_undo_id ?e" using rec_done(2) by simp
  have valid: "valid_undo_id i" using new by (simp add: new_identifier_def i)
  have g1: "good_place (ed_host ed) (dk_files d1) roots p" unfolding fs1 using good_take [OF place ne was(1)] .
  have free: "entry_at (dk_files d1) p = None" using ne by (simp add: fs1 entry_at_delete)
  have "butlast p \<noteq> p" using ne by (metis append_butlast_last_id append_self_conv not_Cons_self2)
  then have parent: "entry_at (dk_files d1) (butlast p) = Some Dir"
    using parent_dir [OF place ne] was(1) ne by (simp add: fs1 entry_at_delete)
  have "map_of (dk_snapshots d1) (i @ ''.bin'') = Some old" using rec_done(4) [OF new] by (simp add: i)
  then have "undo_change ed roots (undo_entry_of ed ?kind (Some old)) d1 = Inr (AList.update p (File old) (dk_files d1), True)"
    using io free was(2) good_target [OF g1] good_exists [OF g1] valid_snapshot [OF valid] atomic_there [OF g1 ne parent, of old]
    by (simp add: undo_change_def undo_entry_of_def snapshot_of_def Let_def i)
  moreover have "content_at (AList.update p (File old) (dk_files d1)) q = content_at (dk_files d) q" for q
    using was(1) ne by (auto simp: content_put content_take fs1) (simp add: content_at_def)
  ultimately show ?thesis using rec_done(3) valid g1
    by (intro restoresI [where x = "undo_entry_of ed ?kind (Some old)" and fs = "AList.update p (File old) (dk_files d1)" and p = p]) (simp_all add: i undo_entry_of_def recorded_path_def)
qed

lemma good_put:
  assumes "good_place h fs roots q" and "good_place h fs roots p" and "p \<noteq> []" and "entry_at fs (butlast p) = Some Dir"
    and "entry_at fs p = None"
  shows "good_place h (AList.update p (File b) fs) roots q"
proof (rule good_links [OF assms(1)])
  show "link_at (AList.update p (File b) fs) = link_at fs"
  proof (rule link_at_eq)
    fix r show "entry_at (AList.update p (File b) fs) r = entry_at fs r \<or> \<not> is_link fs r \<and> \<not> is_link (AList.update p (File b) fs) r"
      using assms(3,5) not_link [of fs p b] not_link [of "AList.update p (File b) fs" p b] by (auto simp: entry_at_update)
  qed
  show "names_ok (AList.update p (File b) fs)" "tree_ok (AList.update p (File b) fs)"
    using assms names_put tree_put own_name_slash by (auto simp: good_place_def settled_host_def)
qed

lemma good_target_there:
  "good_place h fs roots p \<Longrightarrow> entry_at fs p \<noteq> None \<Longrightarrow> local_target h fs roots True (JStr (posix_text p)) = Inr p"
  by (simp add: good_place_def target_again_existing)

text \<open>A move, seen from both ends.\<close>

lemma move_file_done:
  assumes "move_file io a b fs = (fs1, True)" and "good_place h fs roots a" and "good_place h fs roots b" and "a \<noteq> b"
    and "entry_at fs b = None"
  obtains x where "io" and "a \<noteq> []" and "b \<noteq> []" and "entry_at fs a = Some (File x)" and "fs1 = AList.update b (File x) (AList.delete a fs)"
    and "good_place h fs1 roots a" and "good_place h fs1 roots b" and "entry_at fs1 (butlast a) = Some Dir"
proof -
  obtain x where x: "io" "b \<noteq> []" "entry_at fs a = Some (File x)" "entry_at fs (butlast b) = Some Dir"
    "fs1 = AList.update b (File x) (AList.delete a fs)"
    using assms(1) by (auto simp: move_file_def split: option.splits file_node.splits if_splits)
  have a: "a \<noteq> []" using x(3) by auto
  let ?fs = "AList.delete a fs"
  have taken: "good_place h ?fs roots a" "good_place h ?fs roots b" using good_take a x(3) assms(2,3) by blast+
  have free: "entry_at ?fs b = None" "entry_at ?fs (butlast b) = Some Dir"
    using a x(3,4) assms(5) by (auto simp: entry_at_delete)
  have "butlast a \<noteq> a" using a by (metis append_butlast_last_id append_self_conv not_Cons_self2)
  moreover have up: "entry_at fs (butlast a) = Some Dir" using parent_dir [OF assms(2) a] x(3) by simp
  moreover have "butlast a \<noteq> b" using up assms(5) by auto
  ultimately have "entry_at fs1 (butlast a) = Some Dir" using x(2,5) a by (simp add: entry_at_update entry_at_delete)
  then show thesis
    using that [of x] x a good_put [OF taken(1,2) x(2) free(2,1)] good_put [OF taken(2,2) x(2) free(2,1)] by simp
qed

lemma move_edit_undo:
  assumes run: "move_edit ed roots operation payload d = (d1, Inr (Changed op n k pv i))"
    and a: "local_target (ed_host ed) (dk_files d) roots True (py_get ''path'' payload) = Inr a" "good_place (ed_host ed) (dk_files d) roots a"
    and b: "local_target (ed_host ed) (dk_files d) roots False (py_get ''new_path'' payload) = Inr b" "good_place (ed_host ed) (dk_files d) roots b"
    and new: "new_identifier ed d"
  shows "restores ed roots d d1 i"
proof -
  let ?e = "ed_env ed"
  obtain x where x: "existing_file_bytes ''Source file'' (dk_files d) a = Inr x" and ab: "a \<noteq> b" "\<not> path_exists (dk_files d) b"
    and rec: "recorded ed (U_Rename (posix_text a) (posix_text b) (sha256 ?e x)) None (move_file (ed_io ed) a b)
      ''Could not move the approved file atomically.''
      (Changed operation (file_name b) (length x) (Move_Preview operation (file_name a) (file_name b))) d
      = (d1, Inr (Changed op n k pv i))"
    using run a(1) b(1) by (auto simp: move_edit_def Let_def split: sum.splits if_splits)
  note rec_done = recorded_done [OF rec]
  have free: "entry_at (dk_files d) b = None" using ab(2) good_exists [OF b(2)] by simp
  from move_file_done [OF rec_done(1) a(2) b(2) ab(1) free] obtain y where
    y: "ed_io ed" "a \<noteq> []" "b \<noteq> []" "entry_at (dk_files d) a = Some (File y)"
      "dk_files d1 = AList.update b (File y) (AList.delete a (dk_files d))"
    and g: "good_place (ed_host ed) (dk_files d1) roots a" "good_place (ed_host ed) (dk_files d1) roots b"
    and up: "entry_at (dk_files d1) (butlast a) = Some Dir" .
  have xy: "x = y" "byte_size y \<le> max_file_bytes"
    using x y(4) good_bytes [OF a(2) y(2)] unfolding existing_file_bytes_def by auto
  have ends: "entry_at (dk_files d1) a = None" "entry_at (dk_files d1) b = Some (File y)"
    using y ab(1) by (simp_all add: entry_at_update entry_at_delete)
  have now: "existing_file_bytes ''Destination file'' (dk_files d1) b = Inr y"
    unfolding existing_file_bytes_def good_bytes [OF g(2) y(3)] using ends(2) xy(2) by simp
  have last: "last a \<noteq> ''..''" using last_in_set [OF y(2)] g(1) unfolding good_place_def straight_def by metis
  have i: "i = new_undo_id ?e" using rec_done(2) by simp
  have valid: "valid_undo_id i" using new by (simp add: new_identifier_def i)
  let ?x = "undo_entry_of ed (U_Rename (posix_text a) (posix_text b) (sha256 ?e x)) None"
  let ?fs = "AList.update a (File y) (AList.delete b (dk_files d1))"
  have "move_file (ed_io ed) b a (dk_files d1) = (?fs, True)"
    using y(1,2) ends up last by (simp add: move_file_def)
  then have "undo_change ed roots ?x d1 = Inr (?fs, True)"
    using good_target [OF g(1)] good_target_there [OF g(2)] good_exists [OF g(1)] ends now up
    by (simp add: undo_change_def undo_entry_of_def xy(1) Let_def)
  moreover have "content_at ?fs q = content_at (dk_files d) q" for q
    using y ab(1) free by (auto simp: content_put content_take) (simp_all add: content_at_def)
  ultimately show ?thesis using rec_done(3) valid g(2)
    by (intro restoresI [where x = ?x and fs = ?fs and p = b]) (simp_all add: i undo_entry_of_def recorded_path_def)
qed

section \<open>Every edit can be undone\<close>

text \<open>
  The paths a payload names, and what they must be like: a text that leads back to them, no link and no
  \<open>..\<close> at the end.
\<close>

fun reached :: "path result \<Rightarrow> path list" where
  "reached (Inl x) = []"
| "reached (Inr p) = [p]"

definition edit_targets :: "editor \<Rightarrow> path list \<Rightarrow> (string \<times> json) list \<Rightarrow> files \<Rightarrow> path list" where
  "edit_targets ed roots kvs fs =
     reached (local_target (ed_host ed) fs roots False (py_get ''path'' (JObj kvs))) @
     reached (local_target (ed_host ed) fs roots True (py_get ''path'' (JObj kvs))) @
     reached (local_target (ed_host ed) fs roots False (py_get ''new_path'' (JObj kvs)))"

definition plain_place :: "files \<Rightarrow> path \<Rightarrow> bool" where
  "plain_place fs p \<longleftrightarrow> own_name p \<and> \<not> is_link fs p \<and> ''..'' \<notin> set p"

definition plain_edit :: "editor \<Rightarrow> path list \<Rightarrow> (string \<times> json) list \<Rightarrow> disk \<Rightarrow> bool" where
  "plain_edit ed roots kvs d \<longleftrightarrow>
     settled_host (ed_host ed) (dk_files d) roots \<and> list_all (plain_place (dk_files d)) (edit_targets ed roots kvs (dk_files d))"

lemma plain_good:
  assumes "plain_edit ed roots kvs d"
  shows "local_target (ed_host ed) (dk_files d) roots False (py_get ''path'' (JObj kvs)) = Inr p \<Longrightarrow> good_place (ed_host ed) (dk_files d) roots p"
    and "local_target (ed_host ed) (dk_files d) roots True (py_get ''path'' (JObj kvs)) = Inr p \<Longrightarrow> good_place (ed_host ed) (dk_files d) roots p"
    and "local_target (ed_host ed) (dk_files d) roots False (py_get ''new_path'' (JObj kvs)) = Inr p \<Longrightarrow> good_place (ed_host ed) (dk_files d) roots p"
  using assms target_straight [of "ed_host ed" "dk_files d" roots _ p] target_existing_straight [of "ed_host ed" "dk_files d" roots _ p]
    local_target_inside [of "ed_host ed" "dk_files d" roots _ _ p]
  by (auto simp: plain_edit_def edit_targets_def plain_place_def good_place_def)

lemma patched_bound: "patched ed payload old = Inr after \<Longrightarrow> byte_size after \<le> max_file_bytes"
  by (cases "py_get ''find'' payload"; cases "py_get ''replace'' payload")
    (auto simp: patched_def Let_def split: option.splits if_splits)

lemma new_content_bound:
  assumes "new_content ed operation payload fs p old = Inr after" and "operation = ''write'' \<Longrightarrow> byte_size after \<le> max_file_bytes"
  shows "byte_size after \<le> max_file_bytes"
  using assms by (cases "py_get ''content'' payload") (auto simp: new_content_def Let_def patched_bound split: if_splits)

lemma change_content_written:
  "change_content ed operation limit failure payload p old after written d = (d1, Inr (Changed op n k pv i)) \<Longrightarrow> k = written"
  by (auto simp: change_content_def recorded_def Let_def split: if_splits prod.splits)

lemma content_edit_undo:
  assumes run: "content_edit ed roots operation (JObj kvs) d = (d1, Inr (Changed op n k pv i))"
    and plain: "plain_edit ed roots kvs d" and new: "new_identifier ed d" and k: "int k \<le> max_file_bytes"
  shows "restores ed roots d d1 i"
proof -
  let ?payload = "JObj kvs"
  obtain p old where p: "local_target (ed_host ed) (dk_files d) roots False (py_get ''path'' ?payload) = Inr p"
    and old: "existing_file_bytes ''Local file'' (dk_files d) p = Inr old"
    using run by (auto simp: content_edit_def split: sum.splits)
  have place: "good_place (ed_host ed) (dk_files d) roots p" using plain_good(1) [OF plain p] .
  show ?thesis
  proof (cases "operation = ''delete''")
    case True
    then show ?thesis using delete_edit_undo [OF _ place old new] run p old by (simp add: content_edit_def)
  next
    case False
    then obtain after where after: "new_content ed operation ?payload (dk_files d) p old = Inr after"
      and change: "change_content ed operation max_file_bytes ''Could not atomically write the approved file.'' ?payload p old after
        (if operation = ''append'' then length after - length old else length after) d = (d1, Inr (Changed op n k pv i))"
      using run p old by (auto simp: content_edit_def split: sum.splits)
    have "operation = ''write'' \<Longrightarrow> k = length after" using change_content_written [OF change] by simp
    then have "byte_size after \<le> max_file_bytes"
      using new_content_bound [OF after] k by (cases "operation = ''write''") (simp_all add: byte_size_def)
    then show ?thesis
      using change_content_undo [OF change place _ new] old by (simp add: existing_file_bytes_def max_file_bytes_def)
  qed
qed

lemma document_edit_undo:
  assumes run: "document_edit ed roots operation payload d = (d1, Inr (Changed op n k pv i))"
    and path: "py_get ''path'' payload = py_get ''path'' (JObj kvs)"
    and plain: "plain_edit ed roots kvs d" and new: "new_identifier ed d"
  shows "restores ed roots d d1 i"
proof -
  obtain p old after where p: "local_target (ed_host ed) (dk_files d) roots False (py_get ''path'' payload) = Inr p"
    and old: "existing_document_bytes ''Local document'' (dk_files d) p = Inr old"
    and after: "byte_size after \<le> max_document_bytes"
    and change: "change_content ed operation max_document_bytes ''Could not atomically write the local document.'' payload p old after
        (length after) d = (d1, Inr (Changed op n k pv i))"
    using run by (auto simp: document_edit_def Let_def not_less split: sum.splits if_splits)
  have place: "good_place (ed_host ed) (dk_files d) roots p" using plain_good(1) [OF plain] p path by simp
  show ?thesis
    using change_content_undo [OF change place _ new] old after
    by (simp add: existing_document_bytes_def max_file_bytes_def max_document_bytes_def)
qed

lemma move_edit_undone:
  assumes run: "move_edit ed roots operation (JObj kvs) d = (d1, Inr (Changed op n k pv i))"
    and plain: "plain_edit ed roots kvs d" and new: "new_identifier ed d"
  shows "restores ed roots d d1 i"
proof -
  obtain a b where "local_target (ed_host ed) (dk_files d) roots True (py_get ''path'' (JObj kvs)) = Inr a"
    "local_target (ed_host ed) (dk_files d) roots False (py_get ''new_path'' (JObj kvs)) = Inr b"
    using run by (auto simp: move_edit_def Let_def split: sum.splits)
  then show ?thesis using move_edit_undo [OF run _ _ _ _ new] plain_good [OF plain] by blast
qed

lemma write_unlocked_undo:
  assumes run: "write_unlocked ed roots kvs d = (d1, Inr (Changed op n k pv i))"
    and plain: "plain_edit ed roots kvs d" and new: "new_identifier ed d" and k: "int k \<le> max_file_bytes"
  shows "restores ed roots d d1 i"
proof -
  have same_path: "py_get ''path'' (JObj (as_document ed e kvs)) = py_get ''path'' (JObj kvs)" for e
    by (simp add: as_document_def py_get_def Let_def split: prod.splits)
  obtain operation where op: "edit_operation (JObj kvs) = JStr operation"
    using run by (cases "edit_operation (JObj kvs)") (auto simp: write_unlocked_def unhashable_def)
  have "make_directory ed roots payload d \<noteq> (d1, Inr (Changed op n k pv i))" for payload
    by (auto simp: make_directory_def split: sum.splits if_splits option.splits)
  moreover have "undo_edit ed roots payload d \<noteq> (d1, Inr (Changed op n k pv i))" for payload
    by (cases "py_get ''undo_id'' payload")
      (auto simp: undo_edit_def undo_failed_def split: option.splits if_splits sum.splits)
  ultimately show ?thesis
    using run unfolding write_unlocked_def Let_def op
    by (simp add: unhashable_def split del: if_split)
      (elim edits_cases;
       (erule document_edit_undo [OF _ _ plain new]; simp add: same_path |
        erule content_edit_undo [OF _ plain new k] | erule move_edit_undone [OF _ plain new] |
        simp split: prod.splits sum.splits))
qed

end
