(* ===== verification/FileProps.thy ===== *)
theory FileProps
  imports FileUndo Examples
begin

text \<open>
  The properties of the local edits of a desktop (\<open>_write_file\<close> and \<open>_undo_file\<close> in
  \<open>src/smara/desktop_executor.py\<close>).
\<close>

section \<open>An example\<close>

















section \<open>The properties\<close>





end
