(* ===== verification/StepExec.thy ===== *)
theory StepExec
  imports FileEdits HostedWorker
begin

text \<open>
  \<open>src/smara/desktop_executor.py\<close>: the settings of a desktop (\<open>_load_state\<close>, \<open>_load_local_state\<close>) and the
  execution of one step (\<open>execute_step\<close>): its guards, the dispatch to a capability, the job metadata of the
  result. File edits are those of \<open>FileEdits\<close>; every other capability is a parameter that may change the
  disk and the world \<open>'w\<close> the runner shares with it. The settings file is given by its JSON document, \<open>None\<close>
  when it cannot be read. The protection of tokens on Windows is not modelled.
\<close>

section \<open>What stops an execution\<close>

text \<open>
  A cancellation, an HTTP failure (with its status, when there was an answer), a failed command, one of the
  exceptions of the model, or an exception the runners do not catch.
\<close>

datatype stop =
    Cancelled_Step string
  | Hosted_Failed "nat option"
  | Command_Failed string
  | Raised py_error
  | Uncaught

text \<open>The text of the exceptions both runners record as a failure.\<close>

fun exception_text :: "py_error \<Rightarrow> string option" where
  "exception_text (OSError s) = Some s"
| "exception_text (RuntimeError s) = Some s"
| "exception_text (ValueError s) = Some s"
| "exception_text _ = None"

fun stop_text :: "stop \<Rightarrow> string option" where
  "stop_text (Raised x) = exception_text x"
| "stop_text (Command_Failed s) = Some s"
| "stop_text _ = None"

section \<open>Settings\<close>

definition default_capabilities :: "string list" where
  "default_capabilities =
     [''local_file_read'', ''local_file_write'', ''local_terminal'', ''local_browser'', ''local_integration'', ''local_media'',
      ''local_graph'', ''local_python'', ''local_calculate'', ''local_semantic_search'', ''local_git'', ''local_refactor'',
      ''local_test_fixer'', ''sandbox_execute'']"

text \<open>\<open>set(v or [])\<close> of a JSON value, as a list without order.\<close>

fun items_of :: "json \<Rightarrow> json list result" where
  "items_of (JArr xs) = (if list_ex unhashable xs then Inl TypeError else Inr xs)"
| "items_of (JStr s) = Inr (map (\<lambda>c. JStr [c]) s)"
| "items_of (JObj kvs) = Inr (map (JStr \<circ> fst) kvs)"
| "items_of _ = Inl TypeError"

definition set_of :: "json \<Rightarrow> json list result" where
  "set_of v = items_of (py_or v (JArr []))"

definition unavailable :: "string \<Rightarrow> string" where
  "unavailable path = ''Desktop pairing state is unavailable: '' @ path"

definition load_state :: "string \<Rightarrow> json option \<Rightarrow> (string \<times> json) list result" where
  "load_state path file =
     (case file of
        None \<Rightarrow> Inl (RuntimeError (unavailable path))
      | Some (JObj kvs) \<Rightarrow>
          (let v = JObj kvs in
           if \<not> truth (py_get ''executor_id'' v) \<or> \<not> truth (py_get ''token'' v) \<or> \<not> truth (py_get ''smara_url'' v)
           then Inl (RuntimeError ''Desktop pairing state is invalid; pair this device again.'')
           else andThen (set_of (py_get ''capabilities'' v)) (\<lambda>a.
                andThen (set_of (py_get ''local_capabilities'' v)) (\<lambda>b.
                Inr (set_item ''capabilities'' (JArr (remdups (a @ b @ map JStr default_capabilities))) kvs))))
      | Some _ \<Rightarrow> Inl (RuntimeError ''Desktop pairing state is invalid; pair this device again.''))"

fun is_text :: "json \<Rightarrow> bool" where
  "is_text (JStr _) = True"
| "is_text _ = False"

fun text_list :: "json \<Rightarrow> bool" where
  "text_list (JArr xs) = list_all is_text xs"
| "text_list _ = False"

definition local_fields :: "string list" where
  "local_fields = [''allowed_roots'', ''terminal_allowlist'', ''browser_domains'', ''local_capabilities'']"

definition get_default :: "string \<Rightarrow> json \<Rightarrow> json \<Rightarrow> json" where
  "get_default k d v = (case jget k v of None \<Rightarrow> d | Some x \<Rightarrow> x)"

definition load_local_state :: "string \<Rightarrow> json option \<Rightarrow> (string \<times> json) list result" where
  "load_local_state path file =
     (case file of
        None \<Rightarrow> Inl (RuntimeError ''Local Desktop settings are unavailable. Save Local permissions in Settings first.'')
      | Some (JObj kvs) \<Rightarrow>
          (let v = JObj kvs in
           if py_get ''runtime_mode'' v \<noteq> JStr ''local'' then Inl (RuntimeError ''Local-first mode is not active in Desktop Settings.'')
           else (case find (\<lambda>k. \<not> text_list (get_default k (JArr []) v)) local_fields of
                   Some k \<Rightarrow> Inl (RuntimeError (''Local Desktop setting '' @ quoted k @ '' is invalid.''))
                 | None \<Rightarrow>
                     (let caps = (case get_default ''local_capabilities'' (JArr []) v of
                                    JArr xs \<Rightarrow> filter (\<lambda>x. x \<in> set (map JStr default_capabilities)) xs | _ \<Rightarrow> []);
                          caps = (if caps = [] then map JStr default_capabilities else caps)
                      in Inr (set_item ''_state_path'' (JStr path) (set_item ''capabilities'' (JArr caps) kvs)))))
      | Some _ \<Rightarrow> Inl (RuntimeError ''Local-first mode is not active in Desktop Settings.''))"

section \<open>Executing a step\<close>

text \<open>
  The machine a step runs on: the capabilities modelled elsewhere or not at all, JSON, and the editor of
  \<open>FileEdits\<close>. \<open>xm_progress\<close> is a status message, whose failures are ignored.
\<close>

record 'w machine =
  xm_editor :: editor
  xm_perform :: "string \<Rightarrow> json \<Rightarrow> path list \<Rightarrow> disk \<Rightarrow> 'w \<Rightarrow> disk \<times> 'w \<times> (stop + string)"
  xm_git :: "path \<Rightarrow> json \<Rightarrow> disk \<Rightarrow> 'w \<Rightarrow> disk \<times> 'w \<times> (stop + string)"
  xm_progress :: "string \<Rightarrow> 'w \<Rightarrow> 'w"
  xm_coerce :: "json \<Rightarrow> ws_job option"
  xm_encoded :: "json \<Rightarrow> nat option"
  xm_parse :: "string \<Rightarrow> json option"
  xm_dump :: "json \<Rightarrow> string"
  xm_stage :: "stage_result \<Rightarrow> json"
  xm_report :: "edit_report \<Rightarrow> string"

definition declared_capabilities :: "json \<Rightarrow> json list result" where
  "declared_capabilities state =
     (if py_get ''capabilities'' state \<noteq> JNull then set_of (py_get ''capabilities'' state)
      else if py_get ''local_capabilities'' state \<noteq> JNull then set_of (py_get ''local_capabilities'' state)
      else Inr (map JStr default_capabilities))"

text \<open>The folder a git operation works in: any folder the name leads to, else the first approved one.\<close>

definition git_folder :: "editor \<Rightarrow> path list \<Rightarrow> json \<Rightarrow> files \<Rightarrow> path result" where
  "git_folder ed roots payload fs =
     (let name = strip (text_or_else (ed_str ed) (py_or (py_get ''path'' payload) (py_or (py_get ''repo'' payload) (py_get ''repository'' payload))) []);
          default = (if roots = [] then h_cwd (ed_host ed) else hd roots)
      in if name = [] then Inr default
         else andThen (locate_resource (ed_host ed) fs roots name) (\<lambda>found.
                case found of
                  Some p \<Rightarrow> Inr (if node_of fs p = Some Dir then p else default)
                | None \<Rightarrow> Inr default))"

definition handled :: "string list" where
  "handled = skill_names @ [''dynamic_tool_synthesize'', ''dynamic_tool_exec'', ''dynamic_tool_list'']"

definition dispatch ::
  "'w machine \<Rightarrow> string \<Rightarrow> (string \<times> json) list \<Rightarrow> path list \<Rightarrow> disk \<Rightarrow> 'w \<Rightarrow> disk \<times> 'w \<times> (stop + string)" where
  "dispatch M capability payload roots d w =
     (if capability = ''local_file_write'' then
        (case write_file (xm_editor M) roots payload d of
           (d', Inl x) \<Rightarrow> (d', w, Inl (Raised x))
         | (d', Inr answer) \<Rightarrow> (d', w, Inr (xm_report M answer)))
      else if capability = ''local_git'' then
        (case git_folder (xm_editor M) roots (JObj payload) (dk_files d) of
           Inl x \<Rightarrow> (d, w, Inl (Raised x))
         | Inr p \<Rightarrow> xm_git M p (JObj payload) d w)
      else if capability \<in> set handled then xm_perform M capability (JObj payload) roots d w
      else (d, w, Inl (Raised (RuntimeError (''Desktop capability '' @ quoted capability @ '' is not installed.'')))))"

definition max_output_chars :: nat where "max_output_chars = 32000"

definition fallback_stage :: "ws_job \<Rightarrow> string \<Rightarrow> json" where
  "fallback_stage job stage =
     JObj [(''schema_version'', JStr ''smara.workspace.stage.v1''), (''stage'', JStr stage), (''status'', JStr ''completed''),
           (''summary'', JStr ''Local stage completed; detailed proof unavailable.''),
           (''acceptance'', JArr (map (\<lambda>c. JObj [(''check'', JStr c), (''status'', JStr ''pending''),
              (''detail'', JStr ''Awaiting bounded proof.'')]) (jb_checks job)))]"

text \<open>The bounded metadata of the workspace job on a result.\<close>

definition attach_job :: "'w machine \<Rightarrow> ws_job \<Rightarrow> string \<Rightarrow> json \<Rightarrow> string \<Rightarrow> string" where
  "attach_job M job capability payload res =
     (let str = ed_str (xm_editor M);
          kvs = (case xm_parse M res of
                   None \<Rightarrow> [(''result'', JStr (take max_output_chars res))]
                 | Some (JObj kvs) \<Rightarrow> kvs
                 | Some (JStr s) \<Rightarrow> [(''result'', JStr (take max_output_chars s))]
                 | Some v \<Rightarrow> [(''result'', JStr (take max_output_chars (str v)))]);
          kvs = set_item ''workspace_job'' (workspace_job_summary job) kvs;
          stage = py_get ''stage'' payload;
          kvs = (case stage of JStr s \<Rightarrow> if s = [] then kvs else set_item ''stage'' (JStr (take 32 s)) kvs | _ \<Rightarrow> kvs);
          name = (case stage of JStr s \<Rightarrow> s
                  | _ \<Rightarrow> (case default_stage capability of Some s \<Rightarrow> s | None \<Rightarrow> ''report''));
          proof_doc = (case build_stage_result str job name (JObj kvs) ''completed'' of
                         Inr s \<Rightarrow> xm_stage M s | Inl _ \<Rightarrow> fallback_stage job name)
      in xm_dump M (JObj (set_item ''stage_result'' proof_doc kvs)))"

text \<open>The capability and the payload, when they are a text and an object.\<close>

fun call_parts :: "json \<Rightarrow> json \<Rightarrow> (string \<times> (string \<times> json) list) option" where
  "call_parts (JStr c) (JObj payload) = Some (c, payload)"
| "call_parts _ _ = None"

lemma call_parts_Some [simp]: "call_parts a b = Some (c, p) \<longleftrightarrow> a = JStr c \<and> b = JObj p"
  by (cases a; cases b) auto

text \<open>The guards of a step: what it runs, with which contract, key, payload, job and folders.\<close>

definition check_step ::
  "'w machine \<Rightarrow> json \<Rightarrow> json \<Rightarrow> (string \<times> local_skill \<times> string \<times> (string \<times> json) list \<times> ws_job option) result" where
  "check_step M step state =
     (if truth (py_get ''requires_approval'' step)
      then Inl (RuntimeError ''Desktop refused a step that has not passed Smara approval.'')
      else
        andThen (declared_capabilities state) (\<lambda>declared.
        let capability = py_get ''required_capability'' step in
        if unhashable capability then Inl TypeError
        else if capability \<notin> set declared then Inl (RuntimeError ''This desktop capability was not declared during pairing.'')
        else
          andThen (validate_local_step (xm_coerce M) (xm_encoded M) step) (\<lambda>(spec, key).
          case call_parts capability (py_get ''executor_payload'' step) of
            Some (c, payload) \<Rightarrow>
              (case map_of payload ''workspace_job'' of
                 None \<Rightarrow> Inr (c, spec, key, payload, None)
               | Some doc \<Rightarrow> andThen (validate_workspace_job (xm_coerce M) doc) (\<lambda>job. Inr (c, spec, key, payload, Some job)))
          | None \<Rightarrow> Inl (RuntimeError ''The desktop step payload is invalid.''))))"

definition execute_step ::
  "'w machine \<Rightarrow> json \<Rightarrow> json \<Rightarrow> disk \<Rightarrow> 'w \<Rightarrow> disk \<times> 'w \<times> (stop + string)" where
  "execute_step M step state d w =
     (case check_step M step state of
        Inl x \<Rightarrow> (d, w, Inl (Raised x))
      | Inr (capability, spec, key, payload, job) \<Rightarrow>
          (let w = (if job = None then w else xm_progress M ''Validated workspace job contract'' w) in
           case approved_roots (ed_host (xm_editor M)) (dk_files d) state of
             Inl x \<Rightarrow> (d, w, Inl (Raised x))
           | Inr roots \<Rightarrow>
               (case dispatch M capability payload roots d w of
                  (d, w, Inl x) \<Rightarrow> (d, w, Inl x)
                | (d, w, Inr res) \<Rightarrow>
                    (let res = (case job of None \<Rightarrow> res | Some j \<Rightarrow> attach_job M j capability (JObj payload) res)
                     in (d, w, Inr (decorate_local_result (xm_parse M) (xm_dump M) res spec key))))))"

section \<open>Facts\<close>

text \<open>Nothing runs unless it is approved, declared and covered by the contract of its capability.\<close>

lemma check_step_ok:
  assumes "check_step M step state = Inr (capability, spec, key, payload, job)"
  shows "\<not> truth (py_get ''requires_approval'' step)"
    and "\<exists>declared. declared_capabilities state = Inr declared \<and> JStr capability \<in> set declared"
    and "validate_local_step (xm_coerce M) (xm_encoded M) step = Inr (spec, key)"
    and "py_get ''required_capability'' step = JStr capability" and "py_get ''executor_payload'' step = JObj payload"
  using assms by (auto simp: check_step_def Let_def split: if_splits option.splits prod.splits)

lemma refused_step_changes_nothing:
  "check_step M step state = Inl x \<Longrightarrow> execute_step M step state d w = (d, w, Inl (Raised x))"
  by (simp add: execute_step_def)

text \<open>The default capabilities are declared for every paired desktop, whatever it declared itself.\<close>

lemma items_hashable: "items_of v = Inr xs \<Longrightarrow> \<not> list_ex unhashable xs"
  by (cases v) (auto simp: list_ex_iff unhashable_def split: if_splits)

lemma loaded_declares_all:
  assumes "load_state path file = Inr kvs"
  shows "\<exists>declared. declared_capabilities (JObj kvs) = Inr declared \<and> JStr ` set default_capabilities \<subseteq> set declared"
proof -
  obtain a b kvs0 where kvs: "kvs = set_item ''capabilities'' (JArr (remdups (a @ b @ map JStr default_capabilities))) kvs0"
    and ok: "\<not> list_ex unhashable a" "\<not> list_ex unhashable b"
    using assms by (auto simp: load_state_def set_of_def Let_def dest!: items_hashable split: option.splits json.splits if_splits)
  let ?all = "remdups (a @ b @ map JStr default_capabilities)"
  have "?all \<noteq> []" by (simp add: default_capabilities_def)
  then have "set_of (JArr ?all) = Inr ?all"
    using ok by (auto simp: set_of_def py_or_def list_ex_iff unhashable_def simp del: remdups_append2)
  then show ?thesis by (auto simp: kvs declared_capabilities_def py_get_def)
qed

end
