(* ===== verification/DesktopRun.thy ===== *)
theory DesktopRun
  imports StepExec
begin

text \<open>
  \<open>DesktopRunner.run_once\<close> in \<open>src/smara/desktop_executor.py\<close>: one pass of a paired desktop in cloud mode. The
  hosted service is the list of its answers, used up one per request. The journal of the desktop survives
  the pass and blocks the replay of an action whose result the service may not have. \<open>rn_deeds\<close> is what an
  observer sees, newest first: the actions attempted, those left uncertain, those the service settled.
\<close>

section \<open>The hosted service\<close>

datatype answer = No_Answer | Answer nat "json option"

type_synonym net = "answer list"

text \<open>A request with \<open>raise_for_status\<close>; the body is \<open>None\<close> when it is not JSON.\<close>

fun ask :: "net \<Rightarrow> net \<times> (stop + json option)" where
  "ask (Answer code body # net) = (net, if 200 \<le> code \<and> code < 300 then Inr body else Inl (Hosted_Failed (Some code)))"
| "ask net = (tl net, Inl (Hosted_Failed None))"

fun status_of :: "net \<Rightarrow> nat option" where
  "status_of (Answer code body # net) = Some code"
| "status_of net = None"

text \<open>\<open>response.json().get(k)\<close>.\<close>

fun body_get :: "string \<Rightarrow> json option \<Rightarrow> stop + json" where
  "body_get k None = Inl (Raised (ValueError ''JSON''))"
| "body_get k (Some (JObj kvs)) = Inr (py_get k (JObj kvs))"
| "body_get k (Some _) = Inl Uncaught"

section \<open>The runner\<close>

datatype deed =
    Attempted string "string option"
  | Unsure string "string option"
  | Settled string string

record runner =
  rn_journal :: "journal_entry list"
  rn_disk :: disk
  rn_beat :: time
  rn_deeds :: "deed list"

definition did :: "deed \<Rightarrow> runner \<Rightarrow> runner" where
  "did x r = r\<lparr>rn_deeds := x # rn_deeds r\<rparr>"

text \<open>\<open>_record_local_journal\<close>: a refused entry is only logged. Without a step id nothing is recorded.\<close>

record call =
  rc_step :: string
  rc_task :: "string option"
  rc_capability :: "string option"
  rc_key :: "string option"

definition note_step :: "time \<Rightarrow> nat \<Rightarrow> call \<Rightarrow> string \<Rightarrow> string option \<Rightarrow> string option \<Rightarrow> string option \<Rightarrow> runner \<Rightarrow> runner" where
  "note_step now m c status sha err remote r =
     (if rc_step c = [] then r
      else (case journal_record now m (rc_step c) status (rc_task c) (rc_capability c) (rc_key c) sha err remote (rn_journal r) of
              Inl _ \<Rightarrow> r
            | Inr js \<Rightarrow> r\<lparr>rn_journal := js\<rparr>))"

section \<open>Reconciliation\<close>

definition final_states :: "string list" where
  "final_states = [''completed'', ''failed'', ''cancelled'']"

definition settle_entry :: "time \<Rightarrow> nat \<Rightarrow> string \<Rightarrow> string \<Rightarrow> runner \<Rightarrow> runner" where
  "settle_entry now m sid status r = did (Settled sid status) (r\<lparr>rn_journal := journal_reconcile now m sid status (rn_journal r)\<rparr>)"

fun reconcile_loop :: "time \<Rightarrow> nat \<Rightarrow> journal_entry list \<Rightarrow> net \<Rightarrow> runner \<Rightarrow> runner \<times> net \<times> (stop + unit)" where
  "reconcile_loop now m [] net r = (r, net, Inr ())"
| "reconcile_loop now m (x # xs) net r =
     (if je_step x = [] then reconcile_loop now m xs net r
      else if status_of net = Some 404 then reconcile_loop now m xs (tl net) r
      else
        (case ask net of
           (net, Inr (Some body)) \<Rightarrow>
             (case (if is_obj body then py_get ''status'' body else JNull) of
                JStr s \<Rightarrow>
                  if s \<in> set final_states then reconcile_loop now m xs net (settle_entry now m (je_step x) s r)
                  else reconcile_loop now m xs net r
              | v \<Rightarrow> if unhashable v then (r, net, Inl (Raised TypeError)) else reconcile_loop now m xs net r)
         | (net, _) \<Rightarrow> (r, net, Inr ())))"

definition reconcile_journal :: "time \<Rightarrow> nat \<Rightarrow> net \<Rightarrow> runner \<Rightarrow> runner \<times> net \<times> (stop + unit)" where
  "reconcile_journal now m net r =
     reconcile_loop now m (take 20 (filter (\<lambda>x. je_status x = ''uncertain'') (journal_read m (rn_journal r)))) net r"

section \<open>Claiming\<close>

definition keep_alive :: "int \<Rightarrow> time \<Rightarrow> net \<Rightarrow> runner \<Rightarrow> runner \<times> net \<times> (stop + unit)" where
  "keep_alive every now net r =
     (if now - rn_beat r \<ge> every
      then (case ask net of
              (net, Inl x) \<Rightarrow> (r, net, Inl x)
            | (net, Inr _) \<Rightarrow> (r\<lparr>rn_beat := now\<rparr>, net, Inr ()))
      else (r, net, Inr ()))"

text \<open>The approval flags of a claim: desktop policy, never a hosted decision.\<close>

definition claim_flags :: "json \<Rightarrow> bool \<times> bool" where
  "claim_flags state =
     (let auto = get_default ''approval_mode'' (JStr ''ask'') state = JStr ''auto''
      in (py_get ''auto_approve_safe'' state = JBool True \<and> \<not> auto, auto))"

definition claim_step :: "net \<Rightarrow> net \<times> (stop + json option)" where
  "claim_step net =
     (case ask net of
        (net, Inl x) \<Rightarrow> (net, Inl x)
      | (net, Inr body) \<Rightarrow>
          (net, andThen (body_get ''step'' body) (\<lambda>step.
                  if \<not> truth step then Inr None else if is_obj step then Inr (Some step) else Inl Uncaught)))"

fun opt_str :: "json \<Rightarrow> string option" where
  "opt_str (JStr s) = Some s"
| "opt_str _ = None"

section \<open>The result of an action\<close>

text \<open>A request whose address holds \<open>step['step_id']\<close>.\<close>

definition ask_step :: "json \<Rightarrow> net \<Rightarrow> net \<times> (stop + json option)" where
  "ask_step step net = (if jget ''step_id'' step = None then (net, Inl (Raised (KeyError ''step_id''))) else ask net)"

definition withdrawn :: string where
  "withdrawn = ''The task was cancelled before the local result was recorded.''"

text \<open>The last heartbeat and the completion.\<close>

definition post_result :: "json \<Rightarrow> net \<Rightarrow> net \<times> (stop + unit)" where
  "post_result step net =
     (case ask_step step net of
        (net, Inl x) \<Rightarrow> (net, Inl x)
      | (net, Inr body) \<Rightarrow>
          (case body_get ''cancel_requested'' body of
             Inl x \<Rightarrow> (net, Inl x)
           | Inr v \<Rightarrow>
               if truth v then (net, Inl (Cancelled_Step withdrawn))
               else (case ask_step step net of (net, Inl x) \<Rightarrow> (net, Inl x) | (net, Inr _) \<Rightarrow> (net, Inr ()))))"

definition report_failed :: "json \<Rightarrow> net \<Rightarrow> runner \<Rightarrow> runner \<times> net \<times> (stop + bool)" where
  "report_failed step net r =
     (case ask_step step net of (net, Inl x) \<Rightarrow> (r, net, Inl x) | (net, Inr _) \<Rightarrow> (r, net, Inr True))"

text \<open>The handlers of \<open>run_once\<close>; \<open>prepared\<close> tells that the action was done, \<open>side\<close> that it may have effects.\<close>

definition lost_text :: string where
  "lost_text = ''Hosted service became unavailable while recording local work.''"

definition on_stop :: "time \<Rightarrow> nat \<Rightarrow> json \<Rightarrow> call \<Rightarrow> bool \<Rightarrow> bool \<Rightarrow> stop \<Rightarrow> net \<Rightarrow> runner \<Rightarrow> runner \<times> net \<times> (stop + bool)" where
  "on_stop now m step c side prepared x net r =
     (case x of
        Cancelled_Step msg \<Rightarrow> report_failed step net (note_step now m c ''cancelled'' None (Some msg) (Some ''cancelled'') r)
      | Hosted_Failed _ \<Rightarrow>
          (if prepared \<and> side
           then ((if rc_step c = [] then id else did (Unsure (rc_step c) (rc_key c)))
                   (note_step now m c ''uncertain'' None (Some lost_text) None r), net, Inl x)
           else (note_step now m c ''failed'' None (Some lost_text) None r, net, Inl x))
      | _ \<Rightarrow>
          (case stop_text x of
             Some msg \<Rightarrow> report_failed step net (note_step now m c ''failed'' None (Some msg) (Some ''failed'') r)
           | None \<Rightarrow> (r, net, Inl x)))"

definition settle_claim ::
  "env \<Rightarrow> nat \<Rightarrow> json \<Rightarrow> call \<Rightarrow> bool \<Rightarrow> stop + string \<Rightarrow> net \<Rightarrow> runner \<Rightarrow> runner \<times> net \<times> (stop + bool)" where
  "settle_claim e m step c side out net r =
     (case out of
        Inl x \<Rightarrow> on_stop (clk e 3) m step c side False x net r
      | Inr res \<Rightarrow>
          (let sha = Some (sha256 e res); r = note_step (clk e 2) m c ''prepared'' sha None None r in
           case post_result step net of
             (net, Inl x) \<Rightarrow> on_stop (clk e 3) m step c side True x net r
           | (net, Inr _) \<Rightarrow> (note_step (clk e 3) m c ''completed'' sha None (Some ''completed'') r, net, Inr True)))"

definition replay_blocked :: string where
  "replay_blocked = ''A previous local attempt is uncertain; replay is blocked until the hosted task is reconciled.''"

text \<open>The contract of a claimed step, when it has one.\<close>

definition call_of :: "net machine \<Rightarrow> json \<Rightarrow> (call \<times> local_skill option) result" where
  "call_of M step =
     (let v = validate_local_step (xm_coerce M) (xm_encoded M) step;
          c = \<lparr>rc_step = text_or_else (ed_str (xm_editor M)) (py_get ''step_id'' step) [], rc_task = opt_str (py_get ''task_id'' step),
               rc_capability = opt_str (py_get ''required_capability'' step), rc_key = None\<rparr>
      in case v of
           Inr (spec, key) \<Rightarrow> Inr (c\<lparr>rc_key := Some key\<rparr>, Some spec)
         | Inl (RuntimeError s) \<Rightarrow> Inr (c, None)
         | Inl TypeError \<Rightarrow> Inr (c, None)
         | Inl (ValueError s) \<Rightarrow> Inr (c, None)
         | Inl x \<Rightarrow> Inl x)"

definition run_claimed :: "net machine \<Rightarrow> env \<Rightarrow> nat \<Rightarrow> json \<Rightarrow> json \<Rightarrow> net \<Rightarrow> runner \<Rightarrow> runner \<times> net \<times> (stop + bool)" where
  "run_claimed M e m state step net r =
     (case call_of M step of
        Inl x \<Rightarrow> (r, net, Inl (Raised x))
      | Inr (c, spec) \<Rightarrow>
          (if rc_step c \<noteq> [] \<and> journal_uncertain m (rc_step c) (rc_key c) (rn_journal r)
           then (r, net, Inl (Raised (RuntimeError replay_blocked)))
           else
             (let r = did (Attempted (rc_step c) (rc_key c)) (note_step (clk e 1) m c ''claimed'' None None None r);
                  side = (case spec of None \<Rightarrow> True | Some k \<Rightarrow> ls_side k)
              in case execute_step M step state (rn_disk r) net of
                   (d, net, out) \<Rightarrow> settle_claim e m step c side out net (r\<lparr>rn_disk := d\<rparr>))))"

definition run_cloud :: "net machine \<Rightarrow> env \<Rightarrow> nat \<Rightarrow> int \<Rightarrow> json \<Rightarrow> net \<Rightarrow> runner \<Rightarrow> runner \<times> net \<times> (stop + bool)" where
  "run_cloud M e m every state net r =
     (case reconcile_journal (clk e 0) m net r of
        (r, net, Inl x) \<Rightarrow> (r, net, Inl x)
      | (r, net, Inr _) \<Rightarrow>
          (case keep_alive every (clk e 0) net r of
             (r, net, Inl x) \<Rightarrow> (r, net, Inl x)
           | (r, net, Inr _) \<Rightarrow>
               (case claim_step net of
                  (net, Inl x) \<Rightarrow> (r, net, Inl x)
                | (net, Inr None) \<Rightarrow> (r, net, Inr False)
                | (net, Inr (Some step)) \<Rightarrow> run_claimed M e m state step net r)))"

definition run_once ::
  "net machine \<Rightarrow> env \<Rightarrow> nat \<Rightarrow> int \<Rightarrow> string \<Rightarrow> json option \<Rightarrow> net \<Rightarrow> runner \<Rightarrow> runner \<times> net \<times> (stop + bool)" where
  "run_once M e m every path file net r =
     (case load_state path file of
        Inl x \<Rightarrow> (r, net, Inl (Raised x))
      | Inr kvs \<Rightarrow>
          (if get_default ''runtime_mode'' (JStr ''local'') (JObj kvs) \<noteq> JStr ''cloud'' then (r, net, Inr False)
           else run_cloud M e m every (JObj (set_item ''_state_path'' (JStr path) kvs)) net r))"

end
