(* ===== verification/DesktopSafe.thy ===== *)
theory DesktopSafe
  imports DesktopRun
begin

text \<open>
  No action whose outcome is uncertain is attempted again by the passes of \<open>DesktopRun\<close> before the hosted
  service has settled it: the journal keeps the uncertain entry as long as it has room.
\<close>

section \<open>The deeds\<close>

text \<open>What is uncertain after the deeds (newest first), and that no uncertain action was attempted again.\<close>

fun unsettled :: "deed list \<Rightarrow> (string \<times> string option) set" where
  "unsettled [] = {}"
| "unsettled (Attempted s k # ds) = unsettled ds"
| "unsettled (Unsure s k # ds) = insert (s, k) (unsettled ds)"
| "unsettled (Settled s st # ds) = {p \<in> unsettled ds. fst p \<noteq> s}"

text \<open>Two actions are the same when the step or the key is.\<close>

definition same_action :: "string \<Rightarrow> string option \<Rightarrow> string \<times> string option \<Rightarrow> bool" where
  "same_action s k p \<longleftrightarrow> fst p = s \<or> k \<noteq> None \<and> snd p = k"

text \<open>An identifier the journal accepts.\<close>

definition step_id_ok :: "string \<Rightarrow> bool" where
  "step_id_ok s \<longleftrightarrow> s \<noteq> [] \<and> length s \<le> 240"

fun no_replay :: "deed list \<Rightarrow> bool" where
  "no_replay [] = True"
| "no_replay (Attempted s k # ds) =
     (no_replay ds \<and> (step_id_ok s \<longrightarrow> (\<forall>p \<in> unsettled ds. step_id_ok (fst p) \<longrightarrow> \<not> same_action s k p)))"
| "no_replay (_ # ds) = no_replay ds"

lemma unsettled_kept: "p \<in> unsettled ds \<Longrightarrow> (\<forall>st. Settled (fst p) st \<notin> set b) \<Longrightarrow> p \<in> unsettled (b @ ds)"
proof (induction b)
  case (Cons d b)
  then show ?case by (cases d) auto
qed simp

lemma no_replay_split:
  assumes "no_replay (c @ Attempted s k # b @ Unsure s' k' # a)" and "step_id_ok s" and "step_id_ok s'" and "same_action s k (s', k')"
  shows "\<exists>st. Settled s' st \<in> set b"
proof (rule ccontr)
  have drop: "no_replay (c @ ds) \<Longrightarrow> no_replay ds" for c ds
  proof (induction c)
    case (Cons d c)
    then show ?case by (cases d) auto
  qed simp
  assume "\<nexists>st. Settled s' st \<in> set b"
  then have "(s', k') \<in> unsettled (b @ Unsure s' k' # a)" by (intro unsettled_kept) simp_all
  then show False using drop [OF assms(1)] assms(2-4) by auto
qed

section \<open>The journal\<close>

definition others :: "string \<Rightarrow> journal_entry list \<Rightarrow> journal_entry list" where
  "others s js = filter (\<lambda>x. je_step x \<noteq> s) js"

definition journal_ok :: "nat \<Rightarrow> journal_entry list \<Rightarrow> bool" where
  "journal_ok n js \<longleftrightarrow> distinct (map je_step js) \<and> length js \<le> n"

lemma distinct_others: "distinct (map je_step js) \<Longrightarrow> distinct (map je_step (others s js))"
  by (simp add: others_def distinct_map_filter)

lemma put_others:
  assumes "journal_ok m js" and "length (others (je_step j) js) < m"
  shows "journal_put m j js = j # others (je_step j) js" and "others (je_step j) (journal_put m j js) = others (je_step j) js"
    and "distinct (map je_step (journal_put m j js))"
proof -
  show put: "journal_put m j js = j # others (je_step j) js"
    using assms by (simp add: journal_put_def journal_read_def journal_ok_def others_def)
  then show "others (je_step j) (journal_put m j js) = others (je_step j) js" by (simp add: others_def)
  show "distinct (map je_step (journal_put m j js))"
    using distinct_others assms(1) unfolding put by (auto simp: others_def journal_ok_def)
qed

lemma others_length: "distinct (map je_step js) \<Longrightarrow> x \<in> set js \<Longrightarrow> Suc (length (others (je_step x) js)) = length js"
proof (induction js)
  case (Cons y js)
  show ?case
  proof (cases "x = y")
    case True
    then have "others (je_step x) js = js" using Cons.prems(1) unfolding others_def by (simp add: filter_id_conv) (metis image_eqI)
    then show ?thesis using True by (simp add: others_def)
  next
    case False
    then show ?thesis using Cons by (auto simp: others_def)
  qed
qed simp

text \<open>The entries of a pass on the step \<open>s\<close>: the others stay, and there is room for one more.\<close>

definition room :: "nat \<Rightarrow> string \<Rightarrow> journal_entry list \<Rightarrow> journal_entry list \<Rightarrow> bool" where
  "room m s js js' \<longleftrightarrow> distinct (map je_step js') \<and> others s js' = others s js \<and> length js' \<le> m \<and> length js' \<le> Suc (length (others s js))"

lemma room_put:
  assumes "room m s js js'" and "length (others s js) < m" and "je_step j = s"
  shows "room m s js (journal_put m j js')"
proof -
  have ok: "journal_ok m js'" "length (others (je_step j) js') < m" using assms by (simp_all add: room_def journal_ok_def)
  show ?thesis using put_others [OF ok] assms by (simp add: room_def)
qed

lemma note_room:
  assumes "room m (rc_step c) js (rn_journal r)" and "length (others (rc_step c) js) < m"
  shows "room m (rc_step c) js (rn_journal (note_step now m c status sha err remote r))"
  using assms room_put [OF assms] by (auto simp: note_step_def journal_record_def split: sum.splits if_splits)

lemma note_same [simp]:
  "rn_deeds (note_step now m c status sha err remote r) = rn_deeds r"
  "rn_disk (note_step now m c status sha err remote r) = rn_disk r"
  by (auto simp: note_step_def split: sum.splits)

lemma note_writes:
  assumes "step_id_ok (rc_step c)" and "status \<in> set journal_statuses" and "room m (rc_step c) js (rn_journal r)"
    and "length (others (rc_step c) js) < m"
  shows "\<exists>x \<in> set (rn_journal (note_step now m c status sha err remote r)). je_step x = rc_step c \<and> je_key x = rc_key c \<and> je_status x = status"
proof -
  let ?j = "\<lparr>je_step = rc_step c, je_status = status, je_task = rc_task c, je_capability = rc_capability c, je_key = rc_key c,
    je_sha = sha, je_error = (let s = take 2000 (opt_or err []) in if s = [] then None else Some s), je_remote = remote, je_updated = now\<rparr>"
  have ok: "journal_ok m (rn_journal r)" "length (others (je_step ?j) (rn_journal r)) < m"
    using assms(3,4) by (simp_all add: room_def journal_ok_def)
  have "rn_journal (note_step now m c status sha err remote r) = journal_put m ?j (rn_journal r)"
    using assms(1,2) by (simp add: note_step_def journal_record_def step_id_ok_def)
  then show ?thesis using put_others(1) [OF ok] by simp
qed

section \<open>The invariant\<close>

text \<open>Every unsettled action has its uncertain entry, and \<open>n\<close> passes still fit.\<close>

definition uncertain_entry :: "runner \<Rightarrow> string \<times> string option \<Rightarrow> bool" where
  "uncertain_entry r p \<longleftrightarrow> (\<exists>x \<in> set (rn_journal r). je_step x = fst p \<and> je_key x = snd p \<and> je_status x = ''uncertain'')"

definition runner_ok :: "nat \<Rightarrow> runner \<Rightarrow> bool" where
  "runner_ok n r \<longleftrightarrow> journal_ok n (rn_journal r) \<and> no_replay (rn_deeds r)
     \<and> (\<forall>p \<in> unsettled (rn_deeds r). step_id_ok (fst p) \<longrightarrow> uncertain_entry r p)"

lemma runner_ok_mono: "runner_ok n r \<Longrightarrow> n \<le> n' \<Longrightarrow> runner_ok n' r"
  by (auto simp: runner_ok_def journal_ok_def)

text \<open>Settling an entry.\<close>

lemma settle_ok:
  assumes "runner_ok n r" and "n \<le> m"
  shows "runner_ok n (settle_entry now m s st r)"
proof (cases "journal_get m s (rn_journal r)")
  case None
  then show ?thesis using assms by (auto simp: runner_ok_def settle_entry_def did_def journal_reconcile_def uncertain_entry_def)
next
  case (Some x)
  have ok: "journal_ok m (rn_journal r)" using assms by (auto simp: runner_ok_def journal_ok_def)
  have x: "x \<in> set (rn_journal r)" "je_step x = s"
    using Some by (auto simp: journal_get_def journal_read_def find_Some_iff dest: in_set_takeD)
  let ?x = "x\<lparr>je_remote := Some st, je_status := (if st \<in> {''completed'', ''failed'', ''cancelled''} \<and> je_status x \<in> {''claimed'', ''prepared'', ''uncertain''}
      then st else je_status x), je_updated := now\<rparr>"
  have len: "Suc (length (others s (rn_journal r))) = length (rn_journal r)" using others_length x ok by (auto simp: journal_ok_def)
  then have room: "length (others (je_step ?x) (rn_journal r)) < m" using ok x(2) by (simp add: journal_ok_def)
  have js: "journal_reconcile now m s st (rn_journal r) = ?x # others s (rn_journal r)"
    using put_others(1) [OF ok room] Some x(2) by (simp add: journal_reconcile_def Let_def)
  have "distinct (map je_step (?x # others s (rn_journal r)))"
    using distinct_others ok x(2) by (auto simp: others_def journal_ok_def)
  then have journal: "journal_ok n (rn_journal (settle_entry now m s st r))"
    using assms(1) len js by (simp add: runner_ok_def settle_entry_def did_def journal_ok_def)
  have deeds: "rn_deeds (settle_entry now m s st r) = Settled s st # rn_deeds r" by (simp add: settle_entry_def did_def)
  have "uncertain_entry (settle_entry now m s st r) p" if "uncertain_entry r p" "fst p \<noteq> s" for p
  proof -
    from that obtain y where y: "y \<in> set (rn_journal r)" "je_step y = fst p" "je_key y = snd p" "je_status y = ''uncertain''"
      by (auto simp: uncertain_entry_def)
    then have "y \<in> set (others s (rn_journal r))" using that(2) by (simp add: others_def)
    then have "y \<in> set (rn_journal (settle_entry now m s st r))" by (simp add: settle_entry_def did_def js)
    with y show ?thesis by (auto simp: uncertain_entry_def)
  qed
  then show ?thesis using assms(1) journal unfolding runner_ok_def deeds by simp
qed

lemma reconcile_loop_step:
  assumes "reconcile_loop now m (x # xs) net r = (r', net', out)"
  shows "r' = r \<or> (\<exists>net1 r1. (r1 = r \<or> (\<exists>s. r1 = settle_entry now m (je_step x) s r)) \<and> reconcile_loop now m xs net1 r1 = (r', net', out))"
proof (cases "je_step x = [] \<or> status_of net = Some 404")
  case True
  then show ?thesis using assms by (auto split: if_splits)
next
  case False
  obtain net1 a where ask: "ask net = (net1, a)" by (cases "ask net")
  show ?thesis
  proof (cases a)
    case (Inr b)
    then show ?thesis
    proof (cases b)
      case (Some body)
      then show ?thesis using assms False ask Inr
        by (cases "if is_obj body then py_get ''status'' body else JNull") (auto split: if_split_asm)
    qed (use assms False ask in auto)
  qed (use assms False ask in auto)
qed

lemma reconcile_loop_ok:
  "runner_ok n r \<Longrightarrow> n \<le> m \<Longrightarrow> reconcile_loop now m xs net r = (r', net', out) \<Longrightarrow> runner_ok n r'"
proof (induction xs arbitrary: net r)
  case (Cons x xs)
  from reconcile_loop_step [OF Cons.prems(3)] show ?case using Cons.IH Cons.prems(1,2) settle_ok [of n r m] by blast
qed simp

text \<open>The handling of a claimed step.\<close>

lemma journal_uncertain_entry:
  assumes "\<not> journal_uncertain m s k (rn_journal r)" and "length (rn_journal r) \<le> m" and "k \<noteq> Some []" and "uncertain_entry r p"
  shows "\<not> same_action s k p"
  using assms by (cases k) (auto simp: journal_uncertain_def journal_read_def uncertain_entry_def same_action_def)

lemma room_entries:
  "room m s js (rn_journal r') \<Longrightarrow> uncertain_entry r p \<Longrightarrow> rn_journal r = js \<Longrightarrow> fst p \<noteq> s \<Longrightarrow> uncertain_entry r' p"
proof -
  assume r: "room m s js (rn_journal r')" and p: "uncertain_entry r p" and js: "rn_journal r = js" and s: "fst p \<noteq> s"
  then obtain x where x: "x \<in> set js" "je_step x = fst p" "je_key x = snd p" "je_status x = ''uncertain''"
    by (auto simp: uncertain_entry_def)
  then have "x \<in> set (others s js)" using s by (simp add: others_def)
  then have "x \<in> set (others s (rn_journal r'))" using r by (simp add: room_def)
  then have "x \<in> set (rn_journal r')" by (simp add: others_def)
  with x show ?thesis by (auto simp: uncertain_entry_def)
qed

text \<open>The end of a pass: the action was attempted, and when it is uncertain its entry is there.\<close>

definition pass_done :: "nat \<Rightarrow> call \<Rightarrow> journal_entry list \<Rightarrow> deed list \<Rightarrow> runner \<Rightarrow> bool" where
  "pass_done m c js ds r \<longleftrightarrow> room m (rc_step c) js (rn_journal r) \<and>
     (rn_deeds r = ds \<or> rn_deeds r = Unsure (rc_step c) (rc_key c) # ds \<and> (step_id_ok (rc_step c) \<longrightarrow> uncertain_entry r (rc_step c, rc_key c)))"

lemma pass_end:
  assumes ok: "runner_ok n r" and fits: "Suc n \<le> m"
    and free: "step_id_ok (rc_step c) \<longrightarrow> (\<forall>p \<in> unsettled (rn_deeds r). step_id_ok (fst p) \<longrightarrow> \<not> same_action (rc_step c) (rc_key c) p)"
    and fin: "pass_done m c (rn_journal r) (Attempted (rc_step c) (rc_key c) # rn_deeds r) r'"
  shows "runner_ok (Suc n) r'"
proof -
  let ?s = "rc_step c"
  have room: "room m ?s (rn_journal r) (rn_journal r')" using fin by (simp add: pass_done_def)
  have "length (others ?s (rn_journal r)) \<le> length (rn_journal r)" by (simp add: others_def)
  then have journal: "journal_ok (Suc n) (rn_journal r')" using room ok by (auto simp: room_def runner_ok_def journal_ok_def)
  have kept: "uncertain_entry r' p" if "p \<in> unsettled (rn_deeds r)" "step_id_ok (fst p)" for p
  proof (rule room_entries [OF room _ refl])
    show "uncertain_entry r p" using ok that by (simp add: runner_ok_def)
    show "fst p \<noteq> ?s" using free that by (auto simp: same_action_def)
  qed
  from fin consider "rn_deeds r' = Attempted ?s (rc_key c) # rn_deeds r"
    | "rn_deeds r' = Unsure ?s (rc_key c) # Attempted ?s (rc_key c) # rn_deeds r" "step_id_ok ?s \<longrightarrow> uncertain_entry r' (?s, rc_key c)"
    by (auto simp: pass_done_def)
  then show ?thesis
  proof cases
    case 1
    then show ?thesis using ok free journal kept by (auto simp: runner_ok_def)
  next
    case 2
    then show ?thesis using ok free journal kept by (auto simp: runner_ok_def)
  qed
qed

lemma report_failed_same: "report_failed step net r = (r', net', out) \<Longrightarrow> r' = r"
  by (auto simp: report_failed_def split: prod.splits sum.splits)

lemma did_same [simp]: "rn_journal (did x r) = rn_journal r" "rn_deeds (did x r) = x # rn_deeds r" "uncertain_entry (did x r) p = uncertain_entry r p"
  by (simp_all add: did_def uncertain_entry_def)

lemma note_pass:
  assumes "room m (rc_step c) js (rn_journal r)" and "length (others (rc_step c) js) < m" and "rn_deeds r = ds"
  shows "pass_done m c js ds (note_step now m c status sha err remote r)"
  using note_room [OF assms(1,2)] assms(3) by (simp add: pass_done_def)

lemma on_stop_done:
  assumes run: "on_stop now m step c side prepared x net r = (r', net', out)"
    and room: "room m (rc_step c) js (rn_journal r)" and space: "length (others (rc_step c) js) < m" and ds: "rn_deeds r = ds"
  shows "pass_done m c js ds r'"
proof -
  note noted = note_pass [OF room space ds]
  have same: "pass_done m c js ds r" using room ds by (simp add: pass_done_def)
  have unsure: "pass_done m c js ds (did (Unsure (rc_step c) (rc_key c)) (note_step now m c ''uncertain'' None (Some lost_text) None r))"
    using note_room [OF room space] note_writes [OF _ _ room space, of "''uncertain''" now None "Some lost_text" None] ds
    by (auto simp: pass_done_def journal_statuses_def uncertain_entry_def)
  from run consider "r' = r" | st err remote where "r' = note_step now m c st None err remote r"
    | "r' = did (Unsure (rc_step c) (rc_key c)) (note_step now m c ''uncertain'' None (Some lost_text) None r)"
    by (cases x) (auto simp: on_stop_def dest!: report_failed_same split: if_splits option.splits)
  then show ?thesis using noted same unsure by cases simp_all
qed

lemma settle_claim_done:
  assumes run: "settle_claim e m step c side out net r = (r', net', res)"
    and room: "room m (rc_step c) js (rn_journal r)" and space: "length (others (rc_step c) js) < m" and ds: "rn_deeds r = ds"
  shows "pass_done m c js ds r'"
proof (cases out)
  case (Inl x)
  then show ?thesis using on_stop_done [OF _ room space ds] run by (simp add: settle_claim_def)
next
  case (Inr text0)
  let ?r = "note_step (clk e 2) m c ''prepared'' (Some (sha256 e text0)) None None r"
  have room2: "room m (rc_step c) js (rn_journal ?r)" by (rule note_room [OF room space])
  have ds2: "rn_deeds ?r = ds" using ds by simp
  obtain net1 p where post: "post_result step net = (net1, p)" by (cases "post_result step net")
  show ?thesis
  proof (cases p)
    case (Inl x)
    then have "on_stop (clk e 3) m step c side True x net1 ?r = (r', net', res)"
      using run \<open>out = Inr text0\<close> post by (simp add: settle_claim_def Let_def)
    then show ?thesis by (rule on_stop_done [OF _ room2 space ds2])
  next
    case (Inr u)
    then have "r' = note_step (clk e 3) m c ''completed'' (Some (sha256 e text0)) None (Some ''completed'') ?r"
      using run \<open>out = Inr text0\<close> post by (simp add: settle_claim_def Let_def)
    then show ?thesis using note_pass [OF room2 space ds2] by simp
  qed
qed

lemma call_of_key: "call_of M step = Inr (c, spec) \<Longrightarrow> rc_key c \<noteq> Some []"
  by (auto simp: call_of_def Let_def split: sum.splits py_error.splits elim: validate_local_step_Inr)

lemma run_claimed_ok:
  assumes run: "run_claimed M e m state step net r = (r', net', out)" and ok: "runner_ok n r" and fits: "Suc n \<le> m"
  shows "runner_ok (Suc n) r'"
proof -
  have wait: "runner_ok (Suc n) r" using runner_ok_mono [OF ok] by simp
  show ?thesis
  proof (cases "call_of M step")
    case (Inl x)
    then show ?thesis using run wait by (simp add: run_claimed_def)
  next
    case (Inr p)
    obtain c spec where p: "p = (c, spec)" by (cases p)
    let ?s = "rc_step c" and ?js = "rn_journal r"
    show ?thesis
    proof (cases "?s \<noteq> [] \<and> journal_uncertain m ?s (rc_key c) ?js")
      case True
      then show ?thesis using run wait Inr p by (simp add: run_claimed_def)
    next
      case False
      have js: "journal_ok n ?js" using ok by (simp add: runner_ok_def)
      have few: "length (others ?s ?js) \<le> length ?js" by (simp add: others_def)
      have space: "length (others ?s ?js) < m" using few js fits by (simp add: journal_ok_def)
      have "length ?js \<le> Suc (length (others ?s ?js))"
      proof (cases "\<exists>x \<in> set ?js. je_step x = ?s")
        case True
        then show ?thesis using others_length js by (fastforce simp: journal_ok_def)
      next
        case False
        then have "others ?s ?js = ?js" by (auto simp: others_def filter_id_conv)
        then show ?thesis by simp
      qed
      then have room: "room m ?s ?js ?js" using js fits by (simp add: room_def journal_ok_def)
      have free: "step_id_ok ?s \<longrightarrow> (\<forall>q \<in> unsettled (rn_deeds r). step_id_ok (fst q) \<longrightarrow> \<not> same_action ?s (rc_key c) q)"
        using False ok fits journal_uncertain_entry [OF _ _ call_of_key [OF Inr [unfolded p]], of m _ r]
        by (auto simp: step_id_ok_def runner_ok_def journal_ok_def)
      let ?r = "did (Attempted ?s (rc_key c)) (note_step (clk e 1) m c ''claimed'' None None None r)"
      have room2: "room m ?s ?js (rn_journal (?r\<lparr>rn_disk := d\<rparr>))" for d using note_room [OF room space] by simp
      have ds2: "rn_deeds (?r\<lparr>rn_disk := d\<rparr>) = Attempted ?s (rc_key c) # rn_deeds r" for d by simp
      have "pass_done m c ?js (Attempted ?s (rc_key c) # rn_deeds r) r'"
        using run False Inr p settle_claim_done [OF _ room2 space ds2]
        by (auto simp: run_claimed_def Let_def split: prod.splits)
      then show ?thesis using pass_end [OF ok fits free] by blast
    qed
  qed
qed

lemma runner_ok_beat [simp]: "runner_ok n (r\<lparr>rn_beat := t\<rparr>) = runner_ok n r"
  by (simp add: runner_ok_def uncertain_entry_def)

lemma beat_ok: "keep_alive every now net r = (r', net', out) \<Longrightarrow> runner_ok n r \<Longrightarrow> runner_ok n r'"
  by (auto simp: keep_alive_def split: if_splits prod.splits sum.splits)

lemma run_once_ok:
  assumes run: "run_once M e m every path file net r = (r', net', out)" and ok: "runner_ok n r" and fits: "Suc n \<le> m"
  shows "runner_ok (Suc n) r'"
proof -
  have cloud: "runner_ok (Suc n) r'" if "run_cloud M e m every state net r = (r', net', out)" for state
    using that reconcile_loop_ok [OF ok, of m] beat_ok [of every] run_claimed_ok [of M e m state] fits runner_ok_mono [of n _ "Suc n"]
    by (fastforce simp: run_cloud_def reconcile_journal_def split: prod.splits sum.splits option.splits unit.splits)
  then show ?thesis using run runner_ok_mono [OF ok, of "Suc n"]
    by (auto simp: run_once_def split: sum.splits if_splits)
qed

section \<open>Many passes\<close>

text \<open>Each pass with its machine, environment, settings and answers; other programs may change the disk in between.\<close>

type_synonym pass_input = "net machine \<times> env \<times> json option \<times> net \<times> disk"

fun passes :: "nat \<Rightarrow> int \<Rightarrow> string \<Rightarrow> pass_input list \<Rightarrow> runner \<Rightarrow> runner" where
  "passes m every path [] r = r"
| "passes m every path ((M, e, doc, net, d) # ps) r =
     passes m every path ps (fst (run_once M e m every path doc net (r\<lparr>rn_disk := d\<rparr>)))"

lemma runner_ok_disk [simp]: "runner_ok n (r\<lparr>rn_disk := d\<rparr>) = runner_ok n r"
  by (simp add: runner_ok_def uncertain_entry_def)

lemma passes_ok: "runner_ok n r \<Longrightarrow> n + length ps \<le> m \<Longrightarrow> runner_ok (n + length ps) (passes m every path ps r)"
proof (induction ps arbitrary: n r)
  case (Cons p ps)
  obtain M e doc net d where p: "p = (M, e, doc, net, d)" by (cases p)
  obtain r' net' out where run: "run_once M e m every path doc net (r\<lparr>rn_disk := d\<rparr>) = (r', net', out)" by (metis prod_cases3)
  have "runner_ok (Suc n) r'" using run_once_ok [OF run] Cons.prems by simp
  then show ?case using Cons.IH [of "Suc n" r'] Cons.prems(2) run p by simp
qed simp

definition new_runner :: "disk \<Rightarrow> runner" where
  "new_runner d = \<lparr>rn_journal = [], rn_disk = d, rn_beat = 0, rn_deeds = []\<rparr>"

lemma new_runner_ok: "runner_ok 0 (new_runner d)"
  by (simp add: new_runner_def runner_ok_def journal_ok_def)

end
