(* ===== verification/LocalRun.thy ===== *)
theory LocalRun
  imports StepExec LocalLife
begin

text \<open>
  \<open>LocalRunner\<close> in \<open>src/smara/desktop_executor.py\<close>: one task of the private queue (\<open>run_once\<close>) and the whole queue
  (\<open>drain\<close>). The world a capability shares with the runner is the task file: other programs may change it
  while a task runs. \<open>drain\<close> is a partial function; that it returns is a theorem.
\<close>

section \<open>One task\<close>

definition ascii_letter :: "char \<Rightarrow> bool" where
  "ascii_letter c \<longleftrightarrow> upper_char c \<noteq> [lower_char c]"

text \<open>\<open>str.title\<close>; the flag tells that the previous character is a letter.\<close>

fun title_case :: "bool \<Rightarrow> string \<Rightarrow> string" where
  "title_case inword [] = []"
| "title_case inword (c # cs) =
     (if ascii_letter c then (if inword then [lower_char c] else upper_char c) @ title_case True cs else c # title_case False cs)"

definition started_text :: "string \<Rightarrow> string" where
  "started_text capability = title_case False (map (\<lambda>c. if c = CHR ''_'' then CHR '' '' else c) capability) @ '' started''"

definition local_call :: "local_task \<Rightarrow> string \<Rightarrow> json \<Rightarrow> json" where
  "local_call t capability payload =
     JObj [(''step_id'', JStr (lt_id t)), (''task_id'', JStr (lt_id t)), (''requires_approval'', JBool False),
           (''required_capability'', JStr capability), (''executor_payload'', payload),
           (''idempotency_key'', JStr (''local:'' @ lt_id t @ '':attempt:'' @ show_nat (lt_attempt t)))]"

type_synonym local_world = "task_file \<times> disk"

text \<open>A store operation; the file is as it was when it raises.\<close>

definition stored :: "(task_file \<times> 'a) result \<Rightarrow> local_world \<Rightarrow> local_world \<times> (stop + unit)" where
  "stored r s = (case r of Inl x \<Rightarrow> (s, Inl (Raised x)) | Inr (f, _) \<Rightarrow> ((f, snd s), Inr ()))"

definition invalid_task :: string where
  "invalid_task = ''The local task is missing a validated capability payload.''"

definition cancelled_text :: string where
  "cancelled_text = ''The local task was cancelled before its result was committed.''"

text \<open>The body of the \<open>try\<close>: progress, the action, a last look at the cancellation, the result.\<close>

definition try_task ::
  "task_file machine \<Rightarrow> env \<Rightarrow> nat \<Rightarrow> json \<Rightarrow> local_task \<Rightarrow> string \<Rightarrow> json \<Rightarrow> local_world \<Rightarrow> local_world \<times> (stop + unit)" where
  "try_task M e m state t capability payload s =
     (case stored (progress_local (sub_env e 1) m (lt_id t) (started_text capability) (fst s)) s of
        (s, Inl x) \<Rightarrow> (s, Inl x)
      | (s, Inr _) \<Rightarrow>
          (case execute_step M (local_call t capability payload) state (snd s) (fst s) of
             (d, f, Inl x) \<Rightarrow> ((f, d), Inl x)
           | (d, f, Inr res) \<Rightarrow>
               (if local_should_cancel m (lt_id t) f then ((f, d), Inl (Cancelled_Step cancelled_text))
                else stored (complete_local (sub_env e 2) (xm_parse M) (ed_str (xm_editor M)) m (lt_id t) res f) (f, d))))"

text \<open>The handlers.\<close>

definition end_task :: "env \<Rightarrow> nat \<Rightarrow> local_task \<Rightarrow> local_world \<times> (stop + unit) \<Rightarrow> local_world \<times> (stop + unit)" where
  "end_task e m t out =
     (case out of
        (s, Inr _) \<Rightarrow> (s, Inr ())
      | (s, Inl (Cancelled_Step msg)) \<Rightarrow> stored (finish_cancelled (sub_env e 3) m (lt_id t) msg (fst s)) s
      | (s, Inl x) \<Rightarrow>
          (case stop_text x of
             Some msg \<Rightarrow> stored (fail_local (sub_env e 3) m (lt_id t) msg False (fst s)) s
           | None \<Rightarrow> (s, Inl x)))"

definition perform_task :: "task_file machine \<Rightarrow> env \<Rightarrow> nat \<Rightarrow> json \<Rightarrow> local_task \<Rightarrow> local_world \<Rightarrow> local_world \<times> (stop + unit)" where
  "perform_task M e m state t s =
     (case (lt_capability t, lt_payload t) of
        (Some capability, Some payload) \<Rightarrow>
          (if is_obj payload then end_task e m t (try_task M e m state t capability payload s)
           else stored (fail_local (sub_env e 3) m (lt_id t) invalid_task False (fst s)) s)
      | _ \<Rightarrow> stored (fail_local (sub_env e 3) m (lt_id t) invalid_task False (fst s)) s)"

definition run_local ::
  "task_file machine \<Rightarrow> env \<Rightarrow> nat \<Rightarrow> string \<Rightarrow> json option \<Rightarrow> string option \<Rightarrow> local_world \<Rightarrow> local_world \<times> (stop + bool)" where
  "run_local M e m path settings want s =
     (case load_local_state path settings of
        Inl x \<Rightarrow> (s, Inl (Raised x))
      | Inr kvs \<Rightarrow>
          (case claim_local e m want (fst s) of
             Inl x \<Rightarrow> (s, Inl (Raised x))
           | Inr (f, None) \<Rightarrow> ((f, snd s), Inr False)
           | Inr (f, Some t) \<Rightarrow>
               (case perform_task M e m (JObj kvs) t (f, snd s) of
                  (s, Inl x) \<Rightarrow> (s, Inl x)
                | (s, Inr _) \<Rightarrow> (s, Inr True))))"

section \<open>The queue\<close>

text \<open>The settings are read again for every task; \<open>world k\<close> is what the \<open>k\<close>-th one meets.\<close>

type_synonym conditions = "nat \<Rightarrow> task_file machine \<times> env \<times> json option"

partial_function (option) drain_loop ::
  "conditions \<Rightarrow> nat \<Rightarrow> string \<Rightarrow> string option \<Rightarrow> nat \<Rightarrow> local_world \<Rightarrow> (local_world \<times> (stop + nat)) option" where
  "drain_loop world m path want k s =
     (case world k of
        (M, e, settings) \<Rightarrow>
          (case run_local M e m path settings (if k = 0 then want else None) s of
             (s, Inl x) \<Rightarrow> Some (s, Inl x)
           | (s, Inr worked) \<Rightarrow>
               (if \<not> worked then Some (s, Inr k)
                else if want \<noteq> None then Some (s, Inr (Suc k))
                else drain_loop world m path want (Suc k) s)))"

declare drain_loop.simps [code]

definition drain ::
  "conditions \<Rightarrow> env \<Rightarrow> nat \<Rightarrow> string \<Rightarrow> string option \<Rightarrow> local_world \<Rightarrow> (local_world \<times> (stop + nat)) option" where
  "drain world e m path want s = drain_loop world m path want 0 (fst (recover_interrupted e m (fst s)), snd s)"

section \<open>Draining ends\<close>

definition queued :: "task_file \<Rightarrow> string set" where
  "queued f = lt_id ` {t \<in> set f. lt_status t = L_Queued}"

lemma finite_queued [simp]: "finite (queued f)"
  by (simp add: queued_def)

text \<open>A change that queues nothing.\<close>

definition queues_none :: "local_task \<Rightarrow> local_task \<Rightarrow> bool" where
  "queues_none t t' \<longleftrightarrow> (lt_status t' = L_Queued \<longrightarrow> lt_status t = L_Queued)"

definition calmer :: "nat \<Rightarrow> task_file \<Rightarrow> task_file \<Rightarrow> bool" where
  "calmer m f f' \<longleftrightarrow> file_ok m f' \<and> queued f' \<subseteq> queued f"

lemma calmer_trans: "calmer m f f' \<Longrightarrow> calmer m f' f'' \<Longrightarrow> calmer m f f''"
  by (auto simp: calmer_def)

lemma calmer_refl: "file_ok m f \<Longrightarrow> calmer m f f"
  by (simp add: calmer_def)

lemma moved_calmer: "one_moved m i queues_none f f' \<Longrightarrow> calmer m f f'"
proof -
  assume mv: "one_moved m i queues_none f f'"
  then obtain t t' where t: "t \<in> set f" "lt_id t = i" "keeps t t'" "queues_none t t'" "set f' \<subseteq> insert t' {u \<in> set f. lt_id u \<noteq> i}"
    by (auto simp: one_moved_def)
  have "lt_id u \<in> queued f" if "u \<in> set f'" "lt_status u = L_Queued" for u
    using that t by (auto simp: queued_def queues_none_def keeps_def intro!: image_eqI [of "lt_id t'" lt_id t])
  then show ?thesis using mv by (auto simp: calmer_def one_moved_def queued_def)
qed

lemma progress_calmer: "progress_local e m i msg f = Inr (f', t') \<Longrightarrow> file_ok m f \<Longrightarrow> calmer m f f'"
proof -
  assume run: "progress_local e m i msg f = Inr (f', t')" and ok: "file_ok m f"
  obtain change where "mutate m i change f = Inr (f', t')" "lawful queues_none change"
    using run by (auto simp: progress_local_def lawful_def change_simps queues_none_def split: if_splits)
  then show ?thesis using ok mutate_moved moved_calmer by blast
qed

lemma complete_calmer: "complete_local e parse str_of m i result f = Inr (f', t') \<Longrightarrow> file_ok m f \<Longrightarrow> calmer m f f'"
  unfolding complete_local_def Let_def case_prod_beta
  by (rule moved_calmer, rule mutate_moved) (auto simp: lawful_def change_simps queues_none_def split: if_splits)

lemma fail_calmer: "fail_local e m i err False f = Inr (f', t') \<Longrightarrow> file_ok m f \<Longrightarrow> calmer m f f'"
  unfolding fail_local_def
  by (rule moved_calmer, rule mutate_moved) (auto simp: lawful_def change_simps queues_none_def split: if_splits)

lemma finish_calmer: "finish_cancelled e m i err f = Inr (f', t') \<Longrightarrow> file_ok m f \<Longrightarrow> calmer m f f'"
  unfolding finish_cancelled_def
  by (rule moved_calmer, rule mutate_moved)
    (auto simp: lawful_def change_simps terminal_statuses_def queues_none_def split: if_splits)

text \<open>A claim takes one task out of the queue; without one the queue is empty.\<close>

lemma claim_queued:
  assumes "claim_local e m want f = Inr (f', found)" and "file_ok m f"
  shows "file_ok m f'"
    and "found = None \<Longrightarrow> f' = f \<and> (want = None \<longrightarrow> queued f = {})"
    and "found = Some t \<Longrightarrow> \<exists>i \<in> queued f. queued f' \<subseteq> queued f - {i}"
proof -
  have f: "read_tasks m f = f" "write_tasks m f = f" using assms(2) by (simp_all add: read_tasks_def write_tasks_def file_ok_def)
  let ?find = "find (\<lambda>t. lt_status t = L_Queued \<and> (want = None \<or> want = Some (lt_id t))) f"
  show "file_ok m f'" using claim_moved [OF assms] assms(2) one_moved_ok by blast
  show "f' = f \<and> (want = None \<longrightarrow> queued f = {})" if "found = None"
    using assms(1) f that by (cases ?find) (auto simp: claim_local_def Let_def queued_def find_None_iff)
  show "\<exists>i \<in> queued f. queued f' \<subseteq> queued f - {i}" if got: "found = Some t"
  proof -
    obtain u where u: "?find = Some u" using assms(1) f got by (cases ?find) (auto simp: claim_local_def)
    then have uf: "u \<in> set f" "lt_status u = L_Queued" by (auto simp: find_Some_iff)
    from u obtain u' where u': "f' = write_tasks m (put_task u' f)" "keeps u u'" "lt_status u' = L_Running"
      using assms(1) f uf(2) by (auto simp: claim_local_def Let_def change_simps)
    then have "one_moved m (lt_id u) (\<lambda>_ u'. lt_status u' = L_Running) f f'" using put_moved [OF assms(2) uf(1), of u'] by simp
    then have "queued f' \<subseteq> queued f - {lt_id u}" by (auto simp: one_moved_def queued_def keeps_def)
    moreover have "lt_id u \<in> queued f" using uf by (simp add: queued_def)
    ultimately show ?thesis by blast
  qed
qed

text \<open>Capabilities that queue no work while a task runs.\<close>

definition calm_machine :: "nat \<Rightarrow> task_file machine \<Rightarrow> bool" where
  "calm_machine m M \<longleftrightarrow>
     (\<forall>c p rs d f. file_ok m f \<longrightarrow> calmer m f (fst (snd (xm_perform M c p rs d f)))) \<and>
     (\<forall>q p d f. file_ok m f \<longrightarrow> calmer m f (fst (snd (xm_git M q p d f)))) \<and>
     (\<forall>msg f. file_ok m f \<longrightarrow> calmer m f (xm_progress M msg f))"

lemma dispatch_calmer:
  assumes "calm_machine m M" and "dispatch M c payload roots d f = (d', f', out)" and "file_ok m f"
  shows "calmer m f f'"
proof -
  have other: "calmer m f f'" if "xm_perform M c p roots d f = (d', f', out)" for p
    using assms(1,3) that unfolding calm_machine_def by (metis fst_conv snd_conv)
  have git: "calmer m f f'" if "xm_git M q p d f = (d', f', out)" for q p
    using assms(1,3) that unfolding calm_machine_def by (metis fst_conv snd_conv)
  show ?thesis using assms(2) other git calmer_refl [OF assms(3)]
    by (auto simp: dispatch_def split: if_splits prod.splits sum.splits)
qed

lemma execute_calmer:
  assumes calm: "calm_machine m M" and run: "execute_step M step state d f = (d', f', out)" and ok: "file_ok m f"
  shows "calmer m f f'"
proof (cases "check_step M step state")
  case (Inl x)
  then show ?thesis using run calmer_refl [OF ok] by (simp add: execute_step_def)
next
  case (Inr p)
  obtain c spec key payload job where p: "p = (c, spec, key, payload, job)" by (metis prod_cases5)
  let ?f = "if job = None then f else xm_progress M ''Validated workspace job contract'' f"
  have told: "calmer m f ?f" using calm ok calmer_refl [OF ok] by (simp add: calm_machine_def)
  then have ok2: "file_ok m ?f" by (simp add: calmer_def)
  have "f' = ?f \<or> (\<exists>roots d1 out1. dispatch M c payload roots d ?f = (d1, f', out1))"
    using run Inr p by (auto simp: execute_step_def Let_def split: sum.splits prod.splits)
  then show ?thesis using told dispatch_calmer [OF calm _ ok2] calmer_trans by blast
qed

lemma stored_calmer:
  assumes "stored r s = (s', out)" and "file_ok m (fst s)" and "\<And>f x. r = Inr (f, x) \<Longrightarrow> calmer m (fst s) f"
  shows "calmer m (fst s) (fst s')"
  using assms calmer_refl by (auto simp: stored_def split: sum.splits prod.splits)

lemma perform_task_calmer:
  assumes calm: "calm_machine m M" and run: "perform_task M e m state t s = (s', out)" and ok: "file_ok m (fst s)"
  shows "calmer m (fst s) (fst s')"
proof -
  have tried: "calmer m (fst s) (fst s1)" if body: "try_task M e m state t c p s = (s1, out1)" for c p s1 out1
  proof -
    obtain s2 r2 where two: "stored (progress_local (sub_env e 1) m (lt_id t) (started_text c) (fst s)) s = (s2, r2)" by fastforce
    have first: "calmer m (fst s) (fst s2)" using stored_calmer [OF two ok] progress_calmer ok by blast
    then have ok2: "file_ok m (fst s2)" by (simp add: calmer_def)
    obtain d f r3 where three: "execute_step M (local_call t c p) state (snd s2) (fst s2) = (d, f, r3)" by (metis prod_cases3)
    have second: "calmer m (fst s2) f" by (rule execute_calmer [OF calm three ok2])
    then have ok3: "file_ok m (fst (f, d))" by (simp add: calmer_def)
    have "s1 = s2 \<or> fst s1 = f \<or>
        (\<exists>res. stored (complete_local (sub_env e 2) (xm_parse M) (ed_str (xm_editor M)) m (lt_id t) res f) (f, d) = (s1, out1))"
      using body two three by (auto simp: try_task_def split: sum.splits if_splits)
    moreover have "calmer m f (fst s1)"
      if "stored (complete_local (sub_env e 2) (xm_parse M) (ed_str (xm_editor M)) m (lt_id t) res f) (f, d) = (s1, out1)" for res
      using stored_calmer [OF that ok3] complete_calmer ok3 by simp
    ultimately show ?thesis using first second calmer_trans by blast
  qed
  have failed: "calmer m (fst s) (fst s')" if "stored (fail_local (sub_env e 3) m (lt_id t) msg False (fst s)) s = (s', out)" for msg
    using stored_calmer [OF that ok] fail_calmer ok by blast
  have ended: "calmer m (fst s) (fst s')" if fin: "end_task e m t (try_task M e m state t c p s) = (s', out)" for c p
  proof -
    obtain s1 out1 where body: "try_task M e m state t c p s = (s1, out1)" by fastforce
    have one: "calmer m (fst s) (fst s1)" by (rule tried [OF body])
    then have ok1: "file_ok m (fst s1)" by (simp add: calmer_def)
    have "s' = s1 \<or> (\<exists>msg. stored (finish_cancelled (sub_env e 3) m (lt_id t) msg (fst s1)) s1 = (s', out))
        \<or> (\<exists>msg. stored (fail_local (sub_env e 3) m (lt_id t) msg False (fst s1)) s1 = (s', out))"
      using fin body by (auto simp: end_task_def split: sum.splits stop.splits option.splits)
    moreover have "calmer m (fst s1) (fst s')" if "stored (finish_cancelled (sub_env e 3) m (lt_id t) msg (fst s1)) s1 = (s', out)" for msg
      using stored_calmer [OF that ok1] finish_calmer ok1 by blast
    moreover have "calmer m (fst s1) (fst s')" if "stored (fail_local (sub_env e 3) m (lt_id t) msg False (fst s1)) s1 = (s', out)" for msg
      using stored_calmer [OF that ok1] fail_calmer ok1 by blast
    ultimately show ?thesis using one calmer_trans by blast
  qed
  show ?thesis using run failed ended
    by (auto simp: perform_task_def split: option.splits if_splits)
qed

lemma run_local_queued:
  assumes calm: "calm_machine m M" and run: "run_local M e m path settings want s = (s', Inr worked)" and ok: "file_ok m (fst s)"
  shows "file_ok m (fst s')"
    and "\<not> worked \<Longrightarrow> fst s' = fst s \<and> (want = None \<longrightarrow> queued (fst s) = {})"
    and "worked \<Longrightarrow> card (queued (fst s')) < card (queued (fst s))"
proof -
  obtain f found where claim: "claim_local e m want (fst s) = Inr (f, found)"
    using run by (auto simp: run_local_def split: sum.splits)
  note c = claim_queued [OF claim ok]
  consider "found = None" "s' = (f, snd s)" "\<not> worked"
    | t kvs u where "found = Some t" "perform_task M e m (JObj kvs) t (f, snd s) = (s', Inr u)" worked
    using run claim by (cases found) (auto simp: run_local_def split: sum.splits prod.splits)
  then have "file_ok m (fst s') \<and> (\<not> worked \<longrightarrow> fst s' = fst s \<and> (want = None \<longrightarrow> queued (fst s) = {}))
      \<and> (worked \<longrightarrow> card (queued (fst s')) < card (queued (fst s)))"
  proof cases
    case 1
    then show ?thesis using c(1,2) by simp
  next
    case 2
    have "file_ok m (fst (f, snd s))" using c(1) by simp
    from perform_task_calmer [OF calm 2(2) this] have done2: "calmer m f (fst s')" by simp
    obtain i where i: "i \<in> queued (fst s)" "queued f \<subseteq> queued (fst s) - {i}" using c(3) [OF 2(1)] by blast
    then have "queued (fst s') \<subset> queued (fst s)" using done2 by (auto simp: calmer_def)
    then show ?thesis using done2 2(3) by (simp add: calmer_def psubset_card_mono)
  qed
  then show "file_ok m (fst s')" "\<not> worked \<Longrightarrow> fst s' = fst s \<and> (want = None \<longrightarrow> queued (fst s) = {})"
    "worked \<Longrightarrow> card (queued (fst s')) < card (queued (fst s))" by blast+
qed

text \<open>The loop returns; without a wanted task it ends with an empty queue, unless an exception ends it.\<close>

definition drained :: "string option \<Rightarrow> nat \<Rightarrow> local_world \<times> (stop + nat) \<Rightarrow> bool" where
  "drained want n r \<longleftrightarrow>
     (case snd r of
        Inl _ \<Rightarrow> True
      | Inr k \<Rightarrow> k \<le> n \<and> (want = None \<longrightarrow> queued (fst (fst r)) = {}))"

lemma drain_loop_ends:
  assumes calm: "\<And>k. calm_machine m (fst (world k))"
  shows "file_ok m (fst s) \<Longrightarrow> \<exists>r. drain_loop world m path want k s = Some r \<and> drained want (k + card (queued (fst s))) r"
proof (induction "card (queued (fst s))" arbitrary: s k rule: less_induct)
  case less
  obtain M e settings where w: "world k = (M, e, settings)" by (metis prod_cases3)
  have M: "calm_machine m M" using calm [of k] by (simp add: w)
  obtain s' out where run: "run_local M e m path settings (if k = 0 then want else None) s = (s', out)" by fastforce
  show ?case
  proof (cases out)
    case (Inl x)
    then show ?thesis using w run by (subst drain_loop.simps) (simp add: drained_def)
  next
    case (Inr worked)
    note q = run_local_queued [OF M run [unfolded Inr] less.prems]
    consider "\<not> worked" | "worked" "want \<noteq> None" | "worked" "want = None" by blast
    then show ?thesis
    proof cases
      case 1
      then show ?thesis using w run Inr q(2) by (subst drain_loop.simps) (simp add: drained_def)
    next
      case 2
      then show ?thesis using w run Inr q(3) by (subst drain_loop.simps) (auto simp: drained_def)
    next
      case 3
      have fewer: "card (queued (fst s')) < card (queued (fst s))" using q(3) 3 by simp
      obtain r where r: "drain_loop world m path want (Suc k) s' = Some r" "drained want (Suc k + card (queued (fst s'))) r"
        using less.hyps [OF fewer q(1), of "Suc k"] by blast
      moreover have "drained want (k + card (queued (fst s))) r"
        using r(2) fewer by (auto simp: drained_def split: sum.splits)
      ultimately show ?thesis using w run Inr 3 by (subst drain_loop.simps) simp
    qed
  qed
qed

lemma snd_items_in: "(k, t) \<in> set (enumerate_from n f) \<Longrightarrow> t \<in> set f"
  by (auto simp: set_enumerate_from)

lemma recover_queued:
  assumes "recover_interrupted e m f = (f', ids)" and "file_ok m f"
  shows "calmer m f f'"
proof -
  have f': "f' = map (\<lambda>(k, t). interrupt_task e k t) (enumerate_from 0 f)"
    using assms by (auto simp: recover_interrupted_def Let_def read_tasks_def write_tasks_def file_ok_def)
  have "lt_id u \<in> queued f" if u: "u \<in> set f'" "lt_status u = L_Queued" for u
  proof -
    obtain k t where t: "t \<in> set f" "u = interrupt_task e k t" using u(1) by (auto simp: f' dest: snd_items_in)
    then have "lt_status t = L_Queued" using u(2) by (auto simp: interrupt_task_def add_local_event_def split: if_splits)
    moreover have "lt_id u = lt_id t" by (simp add: t(2) interrupt_task_def add_local_event_def)
    ultimately show ?thesis using t(1) by (simp add: queued_def)
  qed
  then show ?thesis using recover_moved(1) [OF assms] by (auto simp: calmer_def queued_def)
qed

lemma drain_ends_lemma:
  assumes calm: "\<And>k. calm_machine m (fst (world k))" and ok: "file_ok m (fst s)"
  shows "\<exists>r. drain world e m path want s = Some r \<and> drained want (card (queued (fst s))) r"
proof -
  obtain f' ids where rec: "recover_interrupted e m (fst s) = (f', ids)" by fastforce
  have calmed: "calmer m (fst s) f'" by (rule recover_queued [OF rec ok])
  then have ok': "file_ok m (fst (f', snd s))" by (simp add: calmer_def)
  obtain r where r: "drain_loop world m path want 0 (f', snd s) = Some r" "drained want (0 + card (queued f')) r"
    using drain_loop_ends [of m world "(f', snd s)" path want 0] calm ok' by auto
  have "card (queued f') \<le> card (queued (fst s))" using calmed by (simp add: calmer_def card_mono)
  then have "drained want (card (queued (fst s))) r" using r(2) by (auto simp: drained_def split: sum.splits)
  then show ?thesis using r(1) rec by (simp add: drain_def)
qed

end
