(* ===== verification/DesktopProps.thy ===== *)
theory DesktopProps
  imports DesktopSafe LocalRun LocalTaskProps
begin

text \<open>
  The properties of the paired desktop (\<open>DesktopRunner.run_once\<close>, \<open>execute_step\<close> in
  \<open>src/smara/desktop_executor.py\<close>).
\<close>

section \<open>An example\<close>



definition ex_call :: json where
  "ex_call = JObj [(''step_id'', JStr ''s1''), (''required_capability'', JStr ''local_terminal''),
     (''executor_payload'', JObj []), (''idempotency_key'', JStr ''k1'')]"

definition ex_answers1 :: net where
  "ex_answers1 = [Answer 200 (Some (JObj [(''step'', ex_call)])), Answer 200 (Some (JObj [])), No_Answer]"


definition ex_place :: disk where
  "ex_place = \<lparr>dk_files = [], dk_ledger = [], dk_snapshots = []\<rparr>"











definition ex_c :: call where
  "ex_c = \<lparr>rc_step = ''s1'', rc_task = None, rc_capability = Some ''local_terminal'', rc_key = Some ''k1''\<rparr>"

text \<open>What a pass leaves when the journal does not block the step.\<close>

definition ex_after :: "net \<Rightarrow> runner \<Rightarrow> runner" where
  "ex_after net r = fst (settle_claim ex_env 10 ex_call ex_c True (Inr ''done'') net
     (did (Attempted ''s1'' (Some ''k1'')) (note_step (clk ex_env 1) 10 ex_c ''claimed'' None None None r)))"



definition ex_lost :: runner where
  "ex_lost = ex_after (tl ex_answers1) (new_runner ex_place)"

lemma ex_lost_deeds: "rn_deeds ex_lost = [Unsure ''s1'' (Some ''k1''), Attempted ''s1'' (Some ''k1'')]"
  by code_simp





section \<open>The properties\<close>



section \<open>The local queue\<close>








end
