(* ===== verification/RestrictedPython.thy ===== *)
theory RestrictedPython
  imports ToolRegistry
begin

text \<open>
  The expression evaluators of \<open>src/smara/tool_registry.py\<close>: the calculator (\<open>_safe_number\<close>) and the restricted
  Python expressions (\<open>_eval_restricted_python\<close>). The syntax tree is that of Python's \<open>ast\<close>; the parser and what
  the operators and built-in functions compute are parameters, which may answer with any value or exception.
\<close>

section \<open>Values and syntax\<close>

text \<open>
  Finite floats are rational; \<open>P_Fun\<close> is a built-in function by name, \<open>P_Other\<close> any other object.
\<close>

datatype pyval =
    P_None
  | P_Bool bool
  | P_Int int
  | P_Float rat
  | P_Nonfinite string
  | P_Str string
  | P_List "pyval list"
  | P_Tuple "pyval list"
  | P_Set "pyval list"
  | P_Dict "(pyval \<times> pyval) list"
  | P_Fun string
  | P_Other

datatype binop = Op_Add | Op_Sub | Op_Mult | Op_Div | Op_FloorDiv | Op_Mod | Op_Pow | Op_Else

datatype unop = Un_Plus | Un_Minus | Un_Not | Un_Invert

datatype cmpop = Cmp_Eq | Cmp_NotEq | Cmp_Lt | Cmp_LtE | Cmp_Gt | Cmp_GtE | Cmp_Else

text \<open>
  \<open>E_Unpack\<close> is the missing key of a dictionary unpacking; the second list of a call is that of its keyword
  values; \<open>E_Else\<close> is any other node, with the number of nodes it has.
\<close>

datatype expr =
    E_Const pyval
  | E_Name string
  | E_List "expr list"
  | E_Tuple "expr list"
  | E_Set "expr list"
  | E_Dict "expr list" "expr list"
  | E_Attr expr string
  | E_Call expr "expr list" "expr list"
  | E_Unary unop expr
  | E_Bin binop expr expr
  | E_Bool bool "expr list"
  | E_Compare expr "cmpop list" "expr list"
  | E_Subscript expr expr
  | E_Unpack
  | E_Else nat

text \<open>The nodes \<open>ast.walk\<close> visits, with the nodes of operators and contexts.\<close>

fun node_count :: "expr \<Rightarrow> nat" and node_counts :: "expr list \<Rightarrow> nat" where
  "node_count (E_Const v) = 1"
| "node_count (E_Name s) = 2"
| "node_count (E_List es) = 2 + node_counts es"
| "node_count (E_Tuple es) = 2 + node_counts es"
| "node_count (E_Set es) = 1 + node_counts es"
| "node_count (E_Dict ks vs) = 1 + node_counts ks + node_counts vs"
| "node_count (E_Attr e s) = 2 + node_count e"
| "node_count (E_Call f es kws) = 1 + node_count f + node_counts es + length kws + node_counts kws"
| "node_count (E_Unary uop e) = 2 + node_count e"
| "node_count (E_Bin bop a b) = 2 + node_count a + node_count b"
| "node_count (E_Bool b es) = 2 + node_counts es"
| "node_count (E_Compare e ops es) = 1 + node_count e + length ops + node_counts es"
| "node_count (E_Subscript a b) = 2 + node_count a + node_count b"
| "node_count E_Unpack = 0"
| "node_count (E_Else n) = n"
| "node_counts [] = 0"
| "node_counts (e # es) = node_count e + node_counts es"

section \<open>Parameters\<close>

text \<open>An operation gives a value or the name of the exception it raises.\<close>

record builtins =
  bi_call :: "string \<Rightarrow> pyval list \<Rightarrow> string + pyval"
  bi_binary :: "binop \<Rightarrow> pyval \<Rightarrow> pyval \<Rightarrow> string + pyval"
  bi_unary :: "unop \<Rightarrow> pyval \<Rightarrow> string + pyval"
  bi_compare :: "cmpop \<Rightarrow> pyval \<Rightarrow> pyval \<Rightarrow> string + bool"
  bi_index :: "pyval \<Rightarrow> pyval \<Rightarrow> string + pyval"
  bi_set :: "pyval list \<Rightarrow> pyval list"
  bi_put :: "pyval \<Rightarrow> pyval \<Rightarrow> (pyval \<times> pyval) list \<Rightarrow> (pyval \<times> pyval) list"

fun raised :: "string + 'a \<Rightarrow> tool_fault + 'a" where
  "raised (Inl s) = Inl (Other_Fault s)"
| "raised (Inr x) = Inr x"

text \<open>\<open>except ToolError: raise; except Exception\<close>: other exceptions become a tool error.\<close>

fun reworded :: "string \<Rightarrow> tool_fault + 'a \<Rightarrow> tool_fault + 'a" where
  "reworded what (Inl (Other_Fault s)) = Inl (Tool_Fault (what @ s @ ''.''))"
| "reworded what r = r"

section \<open>Numbers\<close>

definition value_bound :: int where "value_bound = 1000000000000"

text \<open>\<open>float(n)\<close> of an integer this large raises OverflowError.\<close>

definition float_limit :: int where "float_limit = 2 ^ 1024 - 2 ^ 970"

definition check_int :: "string \<Rightarrow> int \<Rightarrow> tool_fault + unit" where
  "check_int msg n =
     (if \<bar>n\<bar> \<ge> float_limit then Inl (Other_Fault ''OverflowError'')
      else if \<bar>n\<bar> > value_bound then Inl (Tool_Fault msg) else Inr ())"

fun check_number :: "string \<Rightarrow> pyval \<Rightarrow> tool_fault + pyval" where
  "check_number msg (P_Bool b) = Inr (P_Bool b)"
| "check_number msg (P_Int n) = andThen (check_int msg n) (\<lambda>_. Inr (P_Int n))"
| "check_number msg (P_Float x) = (if \<bar>x\<bar> > of_int value_bound then Inl (Tool_Fault msg) else Inr (P_Float x))"
| "check_number msg v = Inl (Tool_Fault msg)"

fun number_ok :: "pyval \<Rightarrow> bool" where
  "number_ok (P_Bool b) = True"
| "number_ok (P_Int n) = (\<bar>n\<bar> \<le> value_bound)"
| "number_ok (P_Float x) = (\<bar>x\<bar> \<le> of_int value_bound)"
| "number_ok v = False"

lemma check_number_ok: "check_number msg v = Inr w \<Longrightarrow> w = v \<and> number_ok v"
  by (cases v) (auto simp: check_int_def not_less split: if_splits)

text \<open>The exponents both evaluators refuse.\<close>

fun large_exponent :: "pyval \<Rightarrow> bool" where
  "large_exponent (P_Int n) = (\<bar>n\<bar> > 12)"
| "large_exponent (P_Float x) = (\<bar>x\<bar> > 12)"
| "large_exponent v = False"

text \<open>The constants of the math module, as the floats they are.\<close>

definition math_constants :: "(string \<times> pyval) list" where
  "math_constants =
     [(''pi'', P_Float (884279719003555 / 281474976710656)), (''e'', P_Float (6121026514868073 / 2251799813685248)),
      (''tau'', P_Float (884279719003555 / 140737488355328))]"

definition math_functions :: "string list" where
  "math_functions =
     [''sqrt'', ''sin'', ''cos'', ''tan'', ''log'', ''log10'', ''log2'', ''exp'', ''abs'', ''round'', ''floor'', ''ceil'', ''min'', ''max'',
      ''sum'', ''pow'']"

lemma math_constants_ok: "map_of math_constants s = Some v \<Longrightarrow> number_ok v"
  by (auto simp: math_constants_def value_bound_def split: if_splits)

section \<open>The calculator\<close>

definition only_numbers :: "tool_fault + 'a" where
  "only_numbers = Inl (Tool_Fault ''Only bounded numeric arithmetic is allowed.'')"

fun math_name :: "expr \<Rightarrow> string option" where
  "math_name (E_Name s) = Some (lower s)"
| "math_name (E_Attr (E_Name m) s) = (if lower m = ''math'' then Some (lower s) else None)"
| "math_name e = None"

text \<open>The name of an exception stands for its text.\<close>

fun math_result :: "tool_fault + pyval \<Rightarrow> tool_fault + pyval" where
  "math_result (Inr v) = Inr v"
| "math_result (Inl (Tool_Fault x)) = Inl (Tool_Fault (''Math function error: '' @ x))"
| "math_result (Inl (Other_Fault x)) = Inl (Tool_Fault (''Math function error: '' @ x))"

lemma math_result_Inr [simp]: "math_result r = Inr v \<longleftrightarrow> r = Inr v"
proof (cases r)
  case (Inl x)
  then show ?thesis by (cases x) auto
qed simp

text \<open>Unary plus and minus of a number.\<close>

fun signed :: "unop \<Rightarrow> pyval \<Rightarrow> pyval" where
  "signed Un_Minus (P_Int n) = P_Int (- n)"
| "signed Un_Minus (P_Float x) = P_Float (- x)"
| "signed u (P_Bool b) = P_Int (if b then (if u = Un_Minus then - 1 else 1) else 0)"
| "signed u v = v"

text \<open>Exceptions of an operator that the calculator catches.\<close>

definition arithmetic_errors :: "string list" where
  "arithmetic_errors = [''ArithmeticError'', ''FloatingPointError'', ''OverflowError'', ''ZeroDivisionError'']"

fun safe_number :: "builtins \<Rightarrow> expr \<Rightarrow> tool_fault + pyval" and safe_numbers :: "builtins \<Rightarrow> expr list \<Rightarrow> tool_fault + pyval list" where
  "safe_number B (E_Const v) =
     (case v of
        P_Int n \<Rightarrow> check_number ''Calculator values must be finite and bounded.'' v
      | P_Float x \<Rightarrow> check_number ''Calculator values must be finite and bounded.'' v
      | P_Nonfinite s \<Rightarrow> check_number ''Calculator values must be finite and bounded.'' v
      | _ \<Rightarrow> only_numbers)"
| "safe_number B (E_Name s) = (case map_of math_constants (lower s) of Some v \<Rightarrow> Inr v | None \<Rightarrow> only_numbers)"
| "safe_number B (E_Call f es kws) =
     (case math_name f of
        None \<Rightarrow> only_numbers
      | Some s \<Rightarrow>
          (if s \<in> set math_functions
           then andThen (safe_numbers B es) (\<lambda>vs.
                  math_result (andThen (raised (bi_call B s vs)) (check_number ''Calculator result is outside safe limits.'')))
           else only_numbers))"
| "safe_number B (E_Unary u e) =
     (if u = Un_Plus \<or> u = Un_Minus then andThen (safe_number B e) (\<lambda>v. Inr (signed u v)) else only_numbers)"
| "safe_number B (E_Bin bop a b) =
     (if bop \<in> {Op_Add, Op_Sub, Op_Mult, Op_Div, Op_Mod, Op_Pow} then
        andThen (safe_number B a) (\<lambda>l.
        andThen (safe_number B b) (\<lambda>r.
        if bop = Op_Pow \<and> large_exponent r then Inl (Tool_Fault ''Calculator exponent is too large.'')
        else (case bi_binary B bop l r of
                Inl x \<Rightarrow> if x \<in> set arithmetic_errors then Inl (Tool_Fault ''Calculator expression is not valid.'') else Inl (Other_Fault x)
              | Inr v \<Rightarrow> check_number ''Calculator result is outside the safe limit.'' v)))
      else only_numbers)"
| "safe_number B (E_List es) = only_numbers"
| "safe_number B (E_Tuple es) = only_numbers"
| "safe_number B (E_Set es) = only_numbers"
| "safe_number B (E_Dict ks vs) = only_numbers"
| "safe_number B (E_Attr e s) = only_numbers"
| "safe_number B (E_Bool c es) = only_numbers"
| "safe_number B (E_Compare e ops es) = only_numbers"
| "safe_number B (E_Subscript a b) = only_numbers"
| "safe_number B E_Unpack = only_numbers"
| "safe_number B (E_Else n) = only_numbers"
| "safe_numbers B [] = Inr []"
| "safe_numbers B (e # es) = andThen (safe_number B e) (\<lambda>v. andThen (safe_numbers B es) (\<lambda>vs. Inr (v # vs)))"

text \<open>\<open>CalculateTool.run\<close>: the parser gives \<open>None\<close> for a syntax error; \<open>show\<close> is \<open>str\<close> of a value.\<close>

definition calculate :: "builtins \<Rightarrow> (string \<Rightarrow> expr option) \<Rightarrow> (pyval \<Rightarrow> string) \<Rightarrow> json \<Rightarrow> tool_fault + tool_result" where
  "calculate B parse show arguments =
     (case py_get ''expression'' arguments of
        JStr s \<Rightarrow>
          (if strip s = [] then Inl (Tool_Fault ''Calculator needs a numeric expression.'')
           else
             (case parse (take 500 (strip s)) of
                None \<Rightarrow> Inl (Tool_Fault ''Calculator expression is not valid.'')
              | Some e \<Rightarrow>
                  (if Suc (node_count e) > 100 then Inl (Tool_Fault ''Calculator expression is too complex.'')
                   else
                     (case safe_number B e of
                        Inr v \<Rightarrow> Inr (plain_result (show v))
                      | Inl (Other_Fault x) \<Rightarrow>
                          (if x \<in> {''SyntaxError'', ''TypeError'', ''ValueError''} then Inl (Tool_Fault ''Calculator expression is not valid.'')
                           else Inl (Other_Fault x))
                      | Inl x \<Rightarrow> Inl x))))
      | _ \<Rightarrow> Inl (Tool_Fault ''Calculator needs a numeric expression.''))"

lemma signed_ok: "number_ok v \<Longrightarrow> number_ok (signed u v)"
  by (cases v; cases u) (auto simp: value_bound_def)

text \<open>Whatever the functions compute, the calculator's result is a finite number within the bound.\<close>

lemma safe_number_ok:
  "safe_number B e = Inr v \<Longrightarrow> number_ok v"
  "safe_numbers B es = Inr vs \<Longrightarrow> list_all number_ok vs"
proof (induction B e and B es arbitrary: v and vs rule: safe_number_safe_numbers.induct)
  case (1 B c)
  then show ?case by (cases c) (auto simp: only_numbers_def check_int_def split: if_splits)
next
  case (2 B s)
  then show ?case by (auto simp: only_numbers_def dest: math_constants_ok split: option.splits)
next
  case (3 B f es kws)
  then show ?case by (auto simp: only_numbers_def dest: check_number_ok split: option.splits if_splits)
next
  case (4 B u e)
  then show ?case by (auto simp: only_numbers_def signed_ok split: if_splits)
next
  case (5 B bop a b)
  then show ?case by (auto simp: only_numbers_def dest: check_number_ok split: if_splits sum.splits)
qed (auto simp: only_numbers_def)

section \<open>Restricted Python\<close>

definition safe_functions :: "string list" where
  "safe_functions =
     [''abs'', ''all'', ''any'', ''bool'', ''dict'', ''float'', ''int'', ''len'', ''list'', ''max'', ''min'', ''round'', ''set'', ''sorted'',
      ''str'', ''sum'', ''tuple'', ''sqrt'', ''sin'', ''cos'', ''tan'', ''log'', ''log10'', ''log2'', ''exp'', ''floor'', ''ceil'', ''pow'']"

definition unbounded :: string where "unbounded = ''Python values must be finite and bounded.''"

text \<open>\<open>_validate_python_value\<close>.\<close>

function (sequential) validate_value :: "pyval \<Rightarrow> tool_fault + pyval" and validate_values :: "pyval list \<Rightarrow> tool_fault + pyval list"
  and validate_pairs :: "(pyval \<times> pyval) list \<Rightarrow> tool_fault + (pyval \<times> pyval) list" where
  "validate_value P_None = Inr P_None"
| "validate_value (P_Str s) = (if length s > 8000 then Inl (Tool_Fault ''Python result is too large.'') else Inr (P_Str s))"
| "validate_value (P_Bool b) = check_number unbounded (P_Bool b)"
| "validate_value (P_Int n) = check_number unbounded (P_Int n)"
| "validate_value (P_Float x) = check_number unbounded (P_Float x)"
| "validate_value (P_Nonfinite s) = check_number unbounded (P_Nonfinite s)"
| "validate_value (P_List vs) =
     (if length vs > 200 then Inl (Tool_Fault ''Python collections are too large.'')
      else andThen (validate_values vs) (\<lambda>ws. Inr (P_List ws)))"
| "validate_value (P_Tuple vs) =
     (if length vs > 200 then Inl (Tool_Fault ''Python collections are too large.'')
      else andThen (validate_values vs) (\<lambda>ws. Inr (P_Tuple ws)))"
| "validate_value (P_Set vs) =
     (if length vs > 200 then Inl (Tool_Fault ''Python collections are too large.'')
      else andThen (validate_values vs) (\<lambda>ws. Inr (P_Set ws)))"
| "validate_value (P_Dict kvs) =
     (if length kvs > 200 then Inl (Tool_Fault ''Python mappings are too large.'')
      else andThen (validate_pairs kvs) (\<lambda>ws. Inr (P_Dict ws)))"
| "validate_value (P_Fun s) = Inl (Tool_Fault ''Python expression returned an unsupported value.'')"
| "validate_value P_Other = Inl (Tool_Fault ''Python expression returned an unsupported value.'')"
| "validate_values [] = Inr []"
| "validate_values (v # vs) = andThen (validate_value v) (\<lambda>w. andThen (validate_values vs) (\<lambda>ws. Inr (w # ws)))"
| "validate_pairs [] = Inr []"
| "validate_pairs ((k, v) # kvs) =
     andThen (validate_value k) (\<lambda>k'. andThen (validate_value v) (\<lambda>v'. andThen (validate_pairs kvs) (\<lambda>ws. Inr ((k', v') # ws))))"
  by pat_completeness auto

termination
  by (relation "measure (case_sum size (case_sum (size_list size) (size_list (size_prod size size))))") auto

text \<open>Values that cannot be an element of a set or a key.\<close>

fun no_hash :: "pyval \<Rightarrow> bool" and no_hashes :: "pyval list \<Rightarrow> bool" where
  "no_hash (P_List vs) = True"
| "no_hash (P_Set vs) = True"
| "no_hash (P_Dict kvs) = True"
| "no_hash (P_Tuple vs) = no_hashes vs"
| "no_hash P_None = False"
| "no_hash (P_Bool b) = False"
| "no_hash (P_Int n) = False"
| "no_hash (P_Float x) = False"
| "no_hash (P_Nonfinite s) = False"
| "no_hash (P_Str s) = False"
| "no_hash (P_Fun s) = False"
| "no_hash P_Other = False"
| "no_hashes [] = False"
| "no_hashes (v # vs) = (no_hash v \<or> no_hashes vs)"

fun py_truth :: "pyval \<Rightarrow> bool" where
  "py_truth P_None = False"
| "py_truth (P_Bool b) = b"
| "py_truth (P_Int n) = (n \<noteq> 0)"
| "py_truth (P_Float x) = (x \<noteq> 0)"
| "py_truth (P_Str s) = (s \<noteq> [])"
| "py_truth (P_List vs) = (vs \<noteq> [])"
| "py_truth (P_Tuple vs) = (vs \<noteq> [])"
| "py_truth (P_Set vs) = (vs \<noteq> [])"
| "py_truth (P_Dict kvs) = (kvs \<noteq> [])"
| "py_truth _ = True"

definition python_only :: "tool_fault + 'a" where
  "python_only = Inl (Tool_Fault ''Only safe Python expressions are supported; statements and imports are blocked.'')"

definition no_attribute :: "tool_fault + 'a" where
  "no_attribute = Inl (Tool_Fault ''Unsafe Python functions and object attribute access are not allowed.'')"

definition named_value :: "string \<Rightarrow> tool_fault + pyval" where
  "named_value name =
     (if lower name \<in> set safe_functions then Inr (P_Fun (lower name))
      else (case map_of math_constants (lower name) of
              Some v \<Rightarrow> Inr v
            | None \<Rightarrow> Inl (Tool_Fault (''Unknown or unsafe Python name: '' @ name @ ''.''))))"

text \<open>\<open>math.name\<close>, the only attributes there are.\<close>

definition math_value :: "expr \<Rightarrow> string \<Rightarrow> tool_fault + pyval" where
  "math_value e attr =
     (if e \<noteq> E_Name ''math'' then no_attribute
      else if attr \<in> set math_functions then Inr (P_Fun attr)
      else (case map_of math_constants attr of Some v \<Rightarrow> Inr v | None \<Rightarrow> no_attribute))"

text \<open>The function a call may run.\<close>

definition allowed_function :: "pyval \<Rightarrow> tool_fault + string" where
  "allowed_function v =
     (case v of
        P_Fun s \<Rightarrow> if s \<in> set safe_functions \<union> set math_functions then Inr s else Inl (Tool_Fault ''Python function is not in the safe allowlist.'')
      | _ \<Rightarrow> Inl (Tool_Fault ''Python function is not in the safe allowlist.''))"

fun is_index :: "pyval \<Rightarrow> bool" where
  "is_index (P_Int n) = True"
| "is_index (P_Bool b) = True"
| "is_index v = False"

text \<open>\<open>except Exception\<close> around an index: one message for every failure.\<close>

fun indexed :: "tool_fault + pyval \<Rightarrow> tool_fault + pyval" where
  "indexed (Inr v) = Inr v"
| "indexed (Inl x) = Inl (Tool_Fault ''Python index is outside the bounded value.'')"

lemma indexed_Inr [simp]: "indexed r = Inr v \<longleftrightarrow> r = Inr v"
  by (cases r) auto

definition large_power :: "binop \<Rightarrow> pyval \<Rightarrow> bool" where
  "large_power bop r \<longleftrightarrow> bop = Op_Pow \<and> large_exponent r"

text \<open>
  \<open>evaluate\<close>. An assignment evaluates its value before its key; the arguments of a call are evaluated inside its
  \<open>try\<close>; the elements of a set are hashed one by one; a conjunction evaluates all its operands.
\<close>

function (sequential) evaluate :: "builtins \<Rightarrow> expr \<Rightarrow> tool_fault + pyval" and evaluate_all :: "builtins \<Rightarrow> bool \<Rightarrow> expr list \<Rightarrow> tool_fault + pyval list"
  and evaluate_dict :: "builtins \<Rightarrow> (pyval \<times> pyval) list \<Rightarrow> expr list \<Rightarrow> expr list \<Rightarrow> tool_fault + (pyval \<times> pyval) list"
  and evaluate_chain :: "builtins \<Rightarrow> pyval \<Rightarrow> bool \<Rightarrow> cmpop list \<Rightarrow> expr list \<Rightarrow> tool_fault + pyval" where
  "evaluate B (E_Const v) = (if v = P_Other then Inl (Tool_Fault ''Unsupported Python constant.'') else validate_value v)"
| "evaluate B (E_Name s) = named_value s"
| "evaluate B (E_List es) = andThen (evaluate_all B False es) (\<lambda>vs. validate_value (P_List vs))"
| "evaluate B (E_Tuple es) = andThen (evaluate_all B False es) (\<lambda>vs. validate_value (P_Tuple vs))"
| "evaluate B (E_Set es) =
     andThen (evaluate_all B True es) (\<lambda>vs. validate_value (P_Set (bi_set B vs)))"
| "evaluate B (E_Dict ks vs) =
     (if length ks > 200 then Inl (Tool_Fault ''Python mappings are too large.'')
      else andThen (evaluate_dict B [] ks vs) (\<lambda>kvs. validate_value (P_Dict kvs)))"
| "evaluate B (E_Attr e s) = math_value e s"
| "evaluate B (E_Call f es kws) =
     (if kws \<noteq> [] \<or> length es > 20 then Inl (Tool_Fault ''Only bounded positional Python calls are allowed.'')
      else
        andThen (evaluate B f) (\<lambda>v.
        andThen (allowed_function v) (\<lambda>s.
        reworded ''Python expression failed: ''
          (andThen (evaluate_all B False es) (\<lambda>vs. andThen (raised (bi_call B s vs)) validate_value)))))"
| "evaluate B (E_Unary u e) =
     (if u = Un_Invert then python_only
      else
        andThen (evaluate B e) (\<lambda>v.
        if u = Un_Not then Inr (P_Bool (\<not> py_truth v)) else andThen (raised (bi_unary B u v)) validate_value))"
| "evaluate B (E_Bin bop a b) =
     (if bop = Op_Else then python_only
      else
        andThen (evaluate B a) (\<lambda>l.
        andThen (evaluate B b) (\<lambda>r.
        if large_power bop r then Inl (Tool_Fault ''Python exponent is too large.'')
        else reworded ''Python arithmetic failed: '' (andThen (raised (bi_binary B bop l r)) validate_value))))"
| "evaluate B (E_Bool every es) =
     andThen (evaluate_all B False es) (\<lambda>vs. Inr (P_Bool (if every then list_all py_truth vs else list_ex py_truth vs)))"
| "evaluate B (E_Compare e ops es) = andThen (evaluate B e) (\<lambda>l. evaluate_chain B l True ops es)"
| "evaluate B (E_Subscript a b) =
     andThen (evaluate B a) (\<lambda>v.
     andThen (evaluate B b) (\<lambda>i.
     if \<not> is_index i then Inl (Tool_Fault ''Python indexes must be integers.'')
     else indexed (andThen (raised (bi_index B v i)) validate_value)))"
| "evaluate B E_Unpack = python_only"
| "evaluate B (E_Else n) = python_only"
| "evaluate_all B hashed [] = Inr []"
| "evaluate_all B hashed (e # es) =
     andThen (evaluate B e) (\<lambda>v.
     if hashed \<and> no_hash v then Inl (Other_Fault ''TypeError'')
     else andThen (evaluate_all B hashed es) (\<lambda>vs. Inr (v # vs)))"
| "evaluate_dict B acc (k # ks) (v # vs) =
     (if k = E_Unpack then Inl (Tool_Fault ''Dictionary unpacking is not supported.'')
      else
        andThen (evaluate B v) (\<lambda>y.
        andThen (evaluate B k) (\<lambda>x.
        if no_hash x then Inl (Other_Fault ''TypeError'') else evaluate_dict B (bi_put B x y acc) ks vs)))"
| "evaluate_dict B acc _ _ = Inr acc"
| "evaluate_chain B l res (c # cs) (e # es) =
     (if c = Cmp_Else then Inl (Tool_Fault ''Unsupported Python comparison.'')
      else
        andThen (evaluate B e) (\<lambda>r.
        if res then andThen (raised (bi_compare B c l r)) (\<lambda>b. evaluate_chain B r b cs es)
        else evaluate_chain B r False cs es))"
| "evaluate_chain B l res _ _ = Inr (P_Bool res)"
  by pat_completeness auto

termination
  by (relation "measure (case_sum (case_sum (\<lambda>(B, e). size e) (\<lambda>(B, hashed, es). size_list size es))
      (case_sum (\<lambda>(B, acc, ks, vs). size_list size ks + size_list size vs) (\<lambda>(B, l, res, cs, es). size_list size es)))") auto

text \<open>\<open>_eval_restricted_python\<close> and \<open>ExecutePythonTool.run\<close>.\<close>

definition eval_restricted :: "builtins \<Rightarrow> (string \<Rightarrow> expr option) \<Rightarrow> string \<Rightarrow> tool_fault + pyval" where
  "eval_restricted B parse s =
     (if strip s = [] then Inl (Tool_Fault ''Python execution requires a non-empty expression.'')
      else
        (case parse (strip (take 8000 s)) of
           None \<Rightarrow> Inl (Tool_Fault ''Only a single safe Python expression is allowed.'')
         | Some e \<Rightarrow> if Suc (node_count e) > 100 then Inl (Tool_Fault ''Python expression is too complex.'') else evaluate B e))"

definition execute_python :: "builtins \<Rightarrow> (string \<Rightarrow> expr option) \<Rightarrow> (pyval \<Rightarrow> string) \<Rightarrow> json \<Rightarrow> tool_fault + tool_result" where
  "execute_python B parse show arguments =
     (case py_get ''code'' arguments of
        JStr s \<Rightarrow>
          (if strip s = [] then Inl (Tool_Fault ''Python execution requires a non-empty expression.'')
           else andThen (reworded ''Python execution failed: '' (eval_restricted B parse s)) (\<lambda>v.
                  Inr (plain_result (bounded_text 4000 (show v)))))
      | _ \<Rightarrow> Inl (Tool_Fault ''Python execution requires a non-empty expression.''))"

section \<open>The values an expression can have\<close>

text \<open>Plain bounded data, at every depth.\<close>

function (sequential) plain_data :: "pyval \<Rightarrow> bool" and plain_pairs :: "(pyval \<times> pyval) list \<Rightarrow> bool" and plain_list :: "pyval list \<Rightarrow> bool" where
  "plain_data P_None = True"
| "plain_data (P_Str s) = (length s \<le> 8000)"
| "plain_data (P_List vs) = (length vs \<le> 200 \<and> plain_list vs)"
| "plain_data (P_Tuple vs) = (length vs \<le> 200 \<and> plain_list vs)"
| "plain_data (P_Set vs) = (length vs \<le> 200 \<and> plain_list vs)"
| "plain_data (P_Dict kvs) = (length kvs \<le> 200 \<and> plain_pairs kvs)"
| "plain_data (P_Fun s) = False"
| "plain_data P_Other = False"
| "plain_data (P_Bool b) = number_ok (P_Bool b)"
| "plain_data (P_Int n) = number_ok (P_Int n)"
| "plain_data (P_Float x) = number_ok (P_Float x)"
| "plain_data (P_Nonfinite s) = number_ok (P_Nonfinite s)"
| "plain_pairs [] = True"
| "plain_pairs ((k, v) # kvs) = (plain_data k \<and> plain_data v \<and> plain_pairs kvs)"
| "plain_list [] = True"
| "plain_list (v # vs) = (plain_data v \<and> plain_list vs)"
  by pat_completeness auto

termination
  by (relation "measure (case_sum size (case_sum (size_list (size_prod size size)) (size_list size)))") auto

lemma number_plain: "number_ok v \<Longrightarrow> plain_data v"
  by (cases v) auto

lemma validate_plain:
  "validate_value v = Inr w \<Longrightarrow> w = v \<and> plain_data v"
  "validate_values vs = Inr ws \<Longrightarrow> ws = vs \<and> plain_list vs"
  "validate_pairs kvs = Inr us \<Longrightarrow> us = kvs \<and> plain_pairs kvs"
proof (induction v and vs and kvs arbitrary: w and ws and us rule: validate_value_validate_values_validate_pairs.induct)
qed (auto split: if_splits dest: check_number_ok simp del: check_number.simps number_ok.simps)

text \<open>A result: plain data, or one of the allowed functions by its name.\<close>

definition safe_result :: "pyval \<Rightarrow> bool" where
  "safe_result v \<longleftrightarrow> plain_data v \<or> (\<exists>s \<in> set safe_functions \<union> set math_functions. v = P_Fun s)"

lemma reworded_Inr [simp]: "reworded what r = Inr v \<longleftrightarrow> r = Inr v"
proof (cases r)
  case (Inl x)
  then show ?thesis by (cases x) auto
qed simp

lemma validate_safe: "validate_value v = Inr w \<Longrightarrow> safe_result w"
  using validate_plain(1) by (auto simp: safe_result_def)

lemma bool_safe [simp]: "safe_result (P_Bool b)"
  by (simp add: safe_result_def)

lemma named_safe: "named_value s = Inr v \<Longrightarrow> safe_result v"
  by (auto simp: named_value_def safe_result_def dest!: math_constants_ok number_plain split: if_splits option.splits)

lemma math_value_safe: "math_value e s = Inr v \<Longrightarrow> safe_result v"
  by (auto simp: math_value_def safe_result_def no_attribute_def dest!: math_constants_ok number_plain split: if_splits option.splits)

lemma chain_bool: "evaluate_chain B l res cs es = Inr v \<Longrightarrow> \<exists>b. v = P_Bool b"
proof (induction cs arbitrary: es l res)
  case (Cons c cs)
  then show ?case by (cases es; cases res) (auto split: if_splits)
qed auto

text \<open>Every form ends in a check, a name or a truth value.\<close>

lemma evaluate_safe: "evaluate B e = Inr v \<Longrightarrow> safe_result v"
  by (cases e)
    (auto simp: python_only_def dest: chain_bool validate_safe named_safe math_value_safe split: if_splits
      simp del: validate_value.simps)

lemma eval_restricted_safe: "eval_restricted B parse s = Inr v \<Longrightarrow> safe_result v"
  by (auto simp: eval_restricted_def dest: evaluate_safe split: if_splits option.splits)

lemma calculate_number:
  assumes "calculate B parse show arguments = Inr r"
  shows "\<exists>v. number_ok v \<and> r = plain_result (show v)"
  using assms safe_number_ok(1)
  by (cases "py_get ''expression'' arguments")
    (auto simp: calculate_def split: if_splits option.splits sum.splits tool_fault.splits)

end
