(* ===== verification/ToolProps.thy ===== *)
theory ToolProps
  imports RestrictedPython
begin

text \<open>
  The properties of the expression tools (\<open>_eval_restricted_python\<close>, \<open>_safe_number\<close> in
  \<open>src/smara/tool_registry.py\<close>).
\<close>

section \<open>An example\<close>

text \<open>Built-ins that only add numbers, and the tree of one sum.\<close>

fun ex_sum :: "binop \<Rightarrow> pyval \<Rightarrow> pyval \<Rightarrow> string + pyval" where
  "ex_sum Op_Add (P_Int a) (P_Int b) = Inr (P_Int (a + b))"
| "ex_sum bop a b = Inl ''TypeError''"

definition ex_builtins :: builtins where
  "ex_builtins = \<lparr>bi_call = (\<lambda>_ _. Inl ''TypeError''), bi_binary = ex_sum, bi_unary = (\<lambda>_ _. Inl ''TypeError''),
     bi_compare = (\<lambda>_ _ _. Inl ''TypeError''), bi_index = (\<lambda>_ _. Inl ''TypeError''), bi_set = (\<lambda>vs. vs), bi_put = (\<lambda>k v kvs. (k, v) # kvs)\<rparr>"

definition ex_tree :: expr where
  "ex_tree = E_List [E_Bin Op_Add (E_Const (P_Int 1)) (E_Const (P_Int 2)), E_Const (P_Str ''a'')]"

lemma ex_value: "eval_restricted ex_builtins (\<lambda>_. Some ex_tree) ''[1 + 2, 1]'' = Inr (P_List [P_Int 3, P_Str ''a''])"
proof -
  have "check_int msg n = Inr ()" if "\<bar>n\<bar> \<le> 3" for msg n
    using that by (simp add: check_int_def float_limit_def value_bound_def)
  then show ?thesis
    by (simp add: eval_restricted_def ex_tree_def ex_builtins_def large_power_def strip_def py_space_def)
qed

section \<open>The properties\<close>

text \<open>C19: an expression can only yield data. Whatever the built-in functions and operators give back or raise, a value the
restricted evaluator returns is plain data - none, booleans, finite numbers up to the bound, texts and collections
of bounded size, at every depth - or one of the functions of its allow list, given by its name; no other object of
the interpreter ever comes out of it.\<close>

theorem expressions_yield_data:
  assumes "eval_restricted B parse s = Inr v"
  shows "plain_data v \<or> (\<exists>f. f \<in> set safe_functions \<union> set math_functions \<and> v = P_Fun f)"
  using eval_restricted_safe [OF assms] by (auto simp: safe_result_def)

theorem expressions_yield_data_witness:
  "plain_data (P_List [P_Int 3, P_Str ''a'']) \<or> (\<exists>f. f \<in> set safe_functions \<union> set math_functions \<and> P_List [P_Int 3, P_Str ''a''] = P_Fun f)"
  by (rule expressions_yield_data [OF ex_value])

end
