(* ===== verification/PatchEngine.thy ===== *)
theory PatchEngine
  imports Prelude
begin

text \<open>
  \<open>src/smara/patch_engine.py\<close>: the replacement of a piece of a file by the agent's edit tool
  (\<open>SmaraPatchEngine.patch\<close>), with its four ways to find the piece. Decoding and encoding, the writing of the
  file, Python's parser and the text of a diff are parameters. Text is that of the characters up to 255.
\<close>

section \<open>Lines\<close>

definition line_end :: "char \<Rightarrow> bool" where
  "line_end c \<longleftrightarrow> of_char c \<in> ({10, 11, 12, 13, 28, 29, 30, 133} :: nat set)"

abbreviation cr :: char where "cr \<equiv> CHR 0x0D"

abbreviation lf :: char where "lf \<equiv> CHR 0x0A"

text \<open>Reading in text mode: every line end becomes a line feed.\<close>

fun universal :: "string \<Rightarrow> string" where
  "universal [] = []"
| "universal (c # cs) = (if c = cr then lf # universal (if cs \<noteq> [] \<and> hd cs = lf then tl cs else cs) else c # universal cs)"

text \<open>\<open>splitlines(keepends=True)\<close> and \<open>splitlines()\<close>.\<close>

fun split_keep :: "string \<Rightarrow> string list" where
  "split_keep [] = []"
| "split_keep (c # cs) =
     (if line_end c
      then (if c = cr \<and> cs \<noteq> [] \<and> hd cs = lf then [cr, lf] # split_keep (tl cs) else [c] # split_keep cs)
      else (case split_keep cs of [] \<Rightarrow> [[c]] | l # ls \<Rightarrow> (c # l) # ls))"

definition split_lines :: "string \<Rightarrow> string list" where
  "split_lines s = map (takeWhile (\<lambda>c. \<not> line_end c)) (split_keep s)"

fun join_lines :: "string list \<Rightarrow> string" where
  "join_lines [] = []"
| "join_lines [l] = l"
| "join_lines (l # ls) = l @ lf # join_lines ls"

section \<open>Finding the piece\<close>

text \<open>A match is its start and its end.\<close>

type_synonym spans = "(nat \<times> nat) list"

definition is_already_applied :: "string \<Rightarrow> string \<Rightarrow> string \<Rightarrow> bool" where
  "is_already_applied content old new \<longleftrightarrow>
     \<not> (new = [] \<or> length (strip new) < 6) \<and> contains new content \<and> (old = new \<or> \<not> contains old content)"

text \<open>\<open>_find_exact\<close>: matches may overlap.\<close>

fun find_all :: "string \<Rightarrow> nat \<Rightarrow> string \<Rightarrow> spans" where
  "find_all w i [] = (if w = [] then [(i, i)] else [])"
| "find_all w i (c # cs) = (if starts_with (c # cs) w then [(i, i + length w)] else []) @ find_all w (Suc i) cs"

definition find_exact :: "string \<Rightarrow> string \<Rightarrow> spans" where
  "find_exact content old = find_all old 0 content"

text \<open>\<open>_find_line_trimmed\<close>: whole lines of the file whose stripped text is that of the lines that are not blank.\<close>

fun trimmed_from :: "string list \<Rightarrow> nat \<Rightarrow> string list \<Rightarrow> spans" where
  "trimmed_from wanted i [] = []"
| "trimmed_from wanted i (l # ls) =
     (let window = take (length wanted) (l # ls) in
      (if map strip window = wanted then [(i, i + length (concat window))] else []) @ trimmed_from wanted (i + length l) ls)"

definition find_line_trimmed :: "string \<Rightarrow> string \<Rightarrow> spans" where
  "find_line_trimmed content old =
     (let wanted = filter (\<lambda>l. l \<noteq> []) (map strip (split_lines old))
      in if wanted = [] then [] else trimmed_from wanted 0 (split_keep content))"

text \<open>
  \<open>_find_whitespace_normalized\<close>. \<open>re.escape\<close> puts a backslash before the usual white space, which the
  substitution of \<open>\s+\<close> for white space leaves: the expression asks there for a backslash and letters \<open>s\<close>. Only
  the white space \<open>re.escape\<close> leaves alone becomes \<open>\s+\<close>.
\<close>

datatype atom = Lit char | Letters_S | Spaces

definition loose_space :: "char \<Rightarrow> bool" where
  "loose_space c \<longleftrightarrow> of_char c \<in> ({28, 29, 30, 31, 133, 160} :: nat set)"

function norm_pattern :: "string \<Rightarrow> atom list" where
  "norm_pattern [] = []"
| "norm_pattern (c # cs) =
     (if \<not> py_space c then Lit c # norm_pattern cs
      else (if loose_space c then [Spaces] else [Lit (CHR 0x5C), Letters_S]) @ norm_pattern (dropWhile loose_space cs))"
  by pat_completeness auto

termination
  by (relation "measure length") (auto simp: less_Suc_eq_le length_dropWhile_le)

fun repeats :: "atom \<Rightarrow> char \<Rightarrow> bool" where
  "repeats (Lit d) c = False"
| "repeats Letters_S c = (c = CHR ''s'')"
| "repeats Spaces c = py_space c"

text \<open>The length of the match at the front of a text; a repetition takes as much as it can.\<close>

fun match_atoms :: "atom list \<Rightarrow> string \<Rightarrow> nat option" where
  "match_atoms [] s = Some 0"
| "match_atoms (a # p) [] = None"
| "match_atoms (a # p) (c # cs) =
     (if a = Lit c then map_option Suc (match_atoms p cs)
      else if repeats a c
      then (case match_atoms (a # p) cs of Some n \<Rightarrow> Some (Suc n) | None \<Rightarrow> map_option Suc (match_atoms p cs))
      else None)"

text \<open>\<open>re.finditer\<close>; \<open>k\<close> characters are still covered by the last match.\<close>

fun find_iter :: "atom list \<Rightarrow> nat \<Rightarrow> nat \<Rightarrow> string \<Rightarrow> spans" where
  "find_iter p i k [] = (if p = [] then [(i, i)] else [])"
| "find_iter p i k (c # cs) =
     (if k > 0 then find_iter p (Suc i) (k - 1) cs
      else (case match_atoms p (c # cs) of
              Some n \<Rightarrow> (i, i + n) # find_iter p (Suc i) (n - 1) cs
            | None \<Rightarrow> find_iter p (Suc i) 0 cs))"

definition find_whitespace_normalized :: "string \<Rightarrow> string \<Rightarrow> spans" where
  "find_whitespace_normalized content old = find_iter (norm_pattern (strip old)) 0 0 content"

datatype strategy = Exact | Line_Trimmed | Whitespace_Normalized | Boundary_Trimmed | No_Strategy

definition fuzzy_find :: "string \<Rightarrow> string \<Rightarrow> spans \<times> strategy" where
  "fuzzy_find content old =
     (let exact = find_exact content old; lines = find_line_trimmed content old; spaces = find_whitespace_normalized content old;
          core = strip old
      in if exact \<noteq> [] then (exact, Exact)
         else if lines \<noteq> [] then (lines, Line_Trimmed)
         else if spaces \<noteq> [] then (spaces, Whitespace_Normalized)
         else if core \<noteq> [] \<and> core \<noteq> old \<and> find_exact content core \<noteq> [] then (find_exact content core, Boundary_Trimmed)
         else ([], No_Strategy))"

section \<open>Replacing it\<close>

text \<open>\<open>_adapt_replacement\<close>: the indentation of the first line and the final line feed of the piece are kept.\<close>

definition indent_new :: "string \<Rightarrow> string \<Rightarrow> string" where
  "indent_new block new =
     (let base = (case split_lines block of [] \<Rightarrow> [] | l # ls \<Rightarrow> takeWhile py_space l); lines = split_lines new
      in if base \<noteq> [] \<and> list_all (\<lambda>l. strip l = [] \<or> \<not> starts_with l base) lines
         then join_lines (map (\<lambda>l. if strip l \<noteq> [] then base @ l else l) lines) else new)"

definition adapt :: "strategy \<Rightarrow> string \<Rightarrow> string \<Rightarrow> string" where
  "adapt strat block new =
     (let repl = (if strat = Line_Trimmed then indent_new block new else new)
      in if ends_with block [lf] \<and> \<not> ends_with repl [lf] then repl @ [lf] else repl)"

definition put_span :: "strategy \<Rightarrow> string \<Rightarrow> string \<Rightarrow> nat \<times> nat \<Rightarrow> string \<Rightarrow> string" where
  "put_span strat original new m updated =
     take (fst m) updated @ adapt strat (take (snd m - fst m) (drop (fst m) original)) new @ drop (snd m) updated"

text \<open>From the last match to the first.\<close>

definition replaced :: "strategy \<Rightarrow> string \<Rightarrow> string \<Rightarrow> bool \<Rightarrow> spans \<Rightarrow> string" where
  "replaced strat original new all matches =
     (if all then foldr (put_span strat original new) matches original
      else put_span strat original new (hd matches) original)"

section \<open>The edit of a file\<close>

text \<open>
  The file is its bytes, \<open>None\<close> when there is none. \<open>pe_decode\<close> gives the text or the message of the exception;
  \<open>pe_write\<close> the bytes the file holds after the write, with the message when it raised; \<open>pe_syntax\<close> the syntax
  error of a Python text.
\<close>

record patcher =
  pe_path :: string
  pe_name :: string
  pe_python :: bool
  pe_decode :: "string \<Rightarrow> string + string"
  pe_write :: "string \<Rightarrow> string \<times> string option"
  pe_syntax :: "string \<Rightarrow> string option"
  pe_diff :: "string \<Rightarrow> string \<Rightarrow> string"

datatype patch_answer =
    Patch_Failed string "nat option"
  | Patch_Present
  | Patch_Applied strategy nat string

definition read_text :: "patcher \<Rightarrow> string \<Rightarrow> string + string" where
  "read_text P bytes = (case pe_decode P bytes of Inl x \<Rightarrow> Inl x | Inr s \<Rightarrow> Inr (universal s))"

definition not_found_text :: "patcher \<Rightarrow> string" where
  "not_found_text P = ''Target string not found in '' @ pe_name P @ ''. Verify exact lines and context.''"

definition ambiguous_text :: "patcher \<Rightarrow> nat \<Rightarrow> string" where
  "ambiguous_text P n =
     ''Found '' @ show_nat n @ '' occurrences of target string in '' @ pe_name P @ ''. Provide more surrounding context lines or set replace_all=True.''"

definition diff_text :: "string \<Rightarrow> string" where
  "diff_text d = or_text d ''(File updated, but no diff generated)''"

definition save_patch :: "patcher \<Rightarrow> strategy \<Rightarrow> nat \<Rightarrow> string \<Rightarrow> string \<Rightarrow> string \<Rightarrow> string option \<times> patch_answer" where
  "save_patch P strat n bytes original updated =
     (case (if pe_python P then pe_syntax P updated else None) of
        Some msg \<Rightarrow> (Some bytes, Patch_Failed (''Python syntax error after applying patch on line '' @ msg) None)
      | None \<Rightarrow>
          (case pe_write P updated of
             (left, Some msg) \<Rightarrow> (Some left, Patch_Failed (''Failed to write file '' @ pe_path P @ '': '' @ msg) None)
           | (left, None) \<Rightarrow> (Some left, Patch_Applied strat n (diff_text (pe_diff P original updated)))))"

definition patch_text :: "patcher \<Rightarrow> string \<Rightarrow> string \<Rightarrow> bool \<Rightarrow> string \<Rightarrow> string \<Rightarrow> string option \<times> patch_answer" where
  "patch_text P old new all bytes original =
     (if is_already_applied original old new then (Some bytes, Patch_Present)
      else
        (case fuzzy_find original old of
           (matches, strat) \<Rightarrow>
             (if matches = [] then (Some bytes, Patch_Failed (not_found_text P) None)
              else if length matches > 1 \<and> \<not> all
              then (Some bytes, Patch_Failed (ambiguous_text P (length matches)) (Some (length matches)))
              else save_patch P strat (length matches) bytes original (replaced strat original new all matches))))"

definition patch :: "patcher \<Rightarrow> string \<Rightarrow> string \<Rightarrow> bool \<Rightarrow> string option \<Rightarrow> string option \<times> patch_answer" where
  "patch P old new all content =
     (case content of
        None \<Rightarrow> (None, Patch_Failed (''File not found: '' @ pe_path P) None)
      | Some bytes \<Rightarrow>
          (case read_text P bytes of
             Inl x \<Rightarrow> (content, Patch_Failed (''Could not read file '' @ pe_path P @ '': '' @ x) None)
           | Inr original \<Rightarrow> patch_text P old new all bytes original))"

end
