(* ===== verification/PatchProps.thy ===== *)
theory PatchProps
  imports PatchEngine "HOL-Library.Sublist"
begin

text \<open>The property of the patch engine (\<open>src/smara/patch_engine.py\<close>): what an edit of one place changes.\<close>

section \<open>Matches\<close>


lemma starts_with_prefix [simp]: "starts_with (w @ q) w"
  by (simp add: starts_with_def)





lemma match_positive: "match_atoms p s = Some n \<Longrightarrow> p \<noteq> [] \<Longrightarrow> 0 < n"
  by (induction p s arbitrary: n rule: match_atoms.induct) (auto split: if_splits option.splits)








text \<open>\<open>re.escape\<close> and the substitution leave a backslash where the wanted text has a space.\<close>

lemma match_literal: "match_atoms p s = Some n \<Longrightarrow> Lit c \<in> set p \<Longrightarrow> c \<in> set s"
proof (induction p s arbitrary: n rule: match_atoms.induct)
  case (3 a p d cs)
  then show ?case by (cases a) (auto split: if_splits option.splits)
qed auto

lemma in_dropWhile: "c \<in> set cs \<Longrightarrow> \<not> P c \<Longrightarrow> c \<in> set (dropWhile P cs)"
  by (induction cs) auto

lemma norm_literal: "c \<in> set s \<Longrightarrow> py_space c \<Longrightarrow> \<not> loose_space c \<Longrightarrow> Lit (CHR 0x5C) \<in> set (norm_pattern s)"
proof (induction s rule: norm_pattern.induct)
  case (2 d cs)
  show ?case
  proof (cases "py_space d")
    case False
    then have "c \<in> set cs" using 2(3,4) by auto
    then show ?thesis using 2(1) [OF False] 2(4,5) False by simp
  next
    case True
    show ?thesis
    proof (cases "loose_space d")
      case loose: True
      then have "c \<in> set (dropWhile loose_space cs)" using 2(3,5) by (auto intro: in_dropWhile)
      then show ?thesis using 2(2) 2(4,5) True by simp
    qed (use True in simp)
  qed
qed simp

lemma iter_match: "m \<in> set (find_iter p i k s) \<Longrightarrow> p \<noteq> [] \<Longrightarrow> \<exists>t n. set t \<subseteq> set s \<and> match_atoms p t = Some n"
proof (induction p i k s rule: find_iter.induct)
  case (2 p i k c cs)
  have later: ?case if "\<exists>t n. set t \<subseteq> set cs \<and> match_atoms p t = Some n" using that by (meson set_subset_Cons subset_trans)
  show ?case
  proof (cases "k > 0")
    case True
    show ?thesis by (rule later) (use 2(1) [OF True] 2(4,5) True in simp)
  next
    case False
    show ?thesis
    proof (cases "match_atoms p (c # cs)")
      case None
      show ?thesis by (rule later) (use 2(2) [OF False None] 2(4,5) False None in simp)
    qed blast
  qed
qed simp

lemma normalized_needs_backslash:
  assumes "c \<in> set (strip old)" and "py_space c" and "\<not> loose_space c" and "CHR 0x5C \<notin> set s"
  shows "find_whitespace_normalized s old = []"
proof (rule ccontr)
  have lit: "Lit (CHR 0x5C) \<in> set (norm_pattern (strip old))" by (rule norm_literal [OF assms(1-3)])
  assume "find_whitespace_normalized s old \<noteq> []"
  then obtain m where "m \<in> set (find_iter (norm_pattern (strip old)) 0 0 s)"
    by (metis find_whitespace_normalized_def list.set_intros(1) neq_Nil_conv)
  then obtain t n where "set t \<subseteq> set s" "match_atoms (norm_pattern (strip old)) t = Some n"
    using iter_match lit by (metis empty_iff empty_set)
  then show False using match_literal [OF _ lit] assms(4) by blast
qed

section \<open>One place\<close>





section \<open>An example\<close>




end
