(* ===== verification/TaskPlanner.thy ===== *)
theory TaskPlanner
  imports Prelude "HOL-Library.Multiset"
begin

text \<open>
  \<open>src/smara/task_planner.py\<close>: the checklist of an agent session (\<open>SmaraTaskPlanner\<close>). A todo is a record, as the
  code only keeps the keys it has validated; \<open>str\<close> is \<open>str\<close> on values that are not text. A list whose entries
  are not all dictionaries makes a merge raise \<open>AttributeError\<close> half-way.
\<close>

section \<open>Todos\<close>

datatype todo_status = Todo_Pending | Todo_In_Progress | Todo_Completed | Todo_Cancelled

definition status_words :: "(string \<times> todo_status) list" where
  "status_words =
     [(''pending'', Todo_Pending), (''in_progress'', Todo_In_Progress), (''completed'', Todo_Completed), (''cancelled'', Todo_Cancelled)]"

fun status_word :: "todo_status \<Rightarrow> string" where
  "status_word Todo_Pending = ''pending''"
| "status_word Todo_In_Progress = ''in_progress''"
| "status_word Todo_Completed = ''completed''"
| "status_word Todo_Cancelled = ''cancelled''"

record todo =
  td_id :: string
  td_content :: string
  td_status :: todo_status
  td_parent :: "string option"

record planner =
  pl_items :: "todo list"
  pl_revision :: int

definition max_todo_content :: nat where "max_todo_content = 4000"

definition max_todo_items :: nat where "max_todo_items = 256"

text \<open>The mark starts with one ellipsis character, written here as character 133.\<close>

definition truncation_marker :: string where
  "truncation_marker = CHR 0x85 # '' [truncated]''"

definition cap_content :: "string \<Rightarrow> string" where
  "cap_content s =
     (if length s > max_todo_content then take (max_todo_content - length truncation_marker) s @ truncation_marker else s)"

fun is_dict :: "json \<Rightarrow> bool" where
  "is_dict (JObj _) = True"
| "is_dict _ = False"

text \<open>\<open>str(item.get(k, d))\<close>.\<close>

fun text_of :: "(json \<Rightarrow> string) \<Rightarrow> json \<Rightarrow> string" where
  "text_of str (JStr s) = s"
| "text_of str v = str v"

definition field_text :: "(json \<Rightarrow> string) \<Rightarrow> string \<Rightarrow> string \<Rightarrow> json \<Rightarrow> string" where
  "field_text str k d item = (case jget k item of None \<Rightarrow> d | Some v \<Rightarrow> text_of str v)"

definition todo_key :: "(json \<Rightarrow> string) \<Rightarrow> json \<Rightarrow> string" where
  "todo_key str item = or_text (strip (field_text str ''id'' [] item)) ''?''"

definition validate_todo :: "(json \<Rightarrow> string) \<Rightarrow> json \<Rightarrow> todo" where
  "validate_todo str item =
     (if \<not> is_dict item then \<lparr>td_id = ''?'', td_content = ''(invalid item)'', td_status = Todo_Pending, td_parent = None\<rparr>
      else
        (let i = todo_key str item; content = strip (field_text str ''content'' [] item);
             status = map_of status_words (lower (strip (field_text str ''status'' ''pending'' item)));
             parent = strip (text_or_empty str (jget ''parent'' item))
         in \<lparr>td_id = i, td_content = (if content = [] then ''(no description)'' else cap_content content),
             td_status = (case status of None \<Rightarrow> Todo_Pending | Some s \<Rightarrow> s),
             td_parent = (if parent \<noteq> [] \<and> parent \<noteq> i then Some parent else None)\<rparr>))"

section \<open>Lists of todos\<close>

text \<open>\<open>_dedupe_by_id\<close>: of the entries with one identifier the last stays.\<close>

definition dedupe_key :: "(json \<Rightarrow> string) \<Rightarrow> nat \<Rightarrow> json \<Rightarrow> string" where
  "dedupe_key str i item = (if is_dict item then todo_key str item else ''__invalid_'' @ show_nat i)"

fun dedupe_from :: "(json \<Rightarrow> string) \<Rightarrow> nat \<Rightarrow> json list \<Rightarrow> json list" where
  "dedupe_from str i [] = []"
| "dedupe_from str i (t # ts) =
     (if dedupe_key str i t \<in> (\<lambda>(j, u). dedupe_key str j u) ` set (enumerate_from (Suc i) ts) then [] else [t])
     @ dedupe_from str (Suc i) ts"

text \<open>\<open>_normalize_order\<close>: without a hierarchy the first todo in progress stands before the pending ones.\<close>

definition normalize_order :: "todo list \<Rightarrow> todo list" where
  "normalize_order items =
     (if list_ex (\<lambda>t. td_parent t \<noteq> None) items then items
      else
        (let pre = takeWhile (\<lambda>t. td_status t \<noteq> Todo_In_Progress) items;
             post = dropWhile (\<lambda>t. td_status t \<noteq> Todo_In_Progress) items;
             earlier = takeWhile (\<lambda>t. td_status t \<noteq> Todo_Pending) pre;
             waiting = dropWhile (\<lambda>t. td_status t \<noteq> Todo_Pending) pre
         in case post of
              [] \<Rightarrow> items
            | active # rest \<Rightarrow> if waiting = [] then items else earlier @ active # waiting @ rest))"

text \<open>\<open>by_id\<close>: of the todos with one identifier the last counts.\<close>

definition last_with :: "string \<Rightarrow> todo list \<Rightarrow> todo option" where
  "last_with i items = (case filter (\<lambda>t. td_id t = i) items of [] \<Rightarrow> None | ts \<Rightarrow> Some (last ts))"

lemma last_with_in: "last_with i items = Some t \<Longrightarrow> t \<in> set items \<and> td_id t = i"
proof -
  assume "last_with i items = Some t"
  then have "filter (\<lambda>t. td_id t = i) items \<noteq> []" "t = last (filter (\<lambda>t. td_id t = i) items)"
    by (auto simp: last_with_def split: list.splits if_splits)
  then show ?thesis using last_in_set [of "filter (\<lambda>t. td_id t = i) items"] by auto
qed

text \<open>
  \<open>_sanitize_parents\<close>: parents that are not in the list are dropped; then, todo by todo, the chain of its
  parents is followed, and when it comes back to a todo it has seen, the todo loses its parent. All parents are
  in the list by then, so the lookup never fails.
\<close>

function cyclic :: "todo list \<Rightarrow> string list \<Rightarrow> string option \<Rightarrow> bool" where
  "cyclic items seen None = False"
| "cyclic items seen (Some p) =
     (if p \<in> set seen then True
      else (case last_with p items of None \<Rightarrow> False | Some node \<Rightarrow> cyclic items (p # seen) (td_parent node)))"
  by pat_completeness auto

termination
proof (relation "measure (\<lambda>(items, seen, p). length (filter (\<lambda>t. td_id t \<notin> set seen) items))")
  fix items seen p node
  assume "p \<notin> set seen" "last_with p items = Some node"
  then have "node \<in> set items" "td_id node = p" by (auto dest: last_with_in)
  let ?unseen = "filter (\<lambda>t. td_id t \<notin> set seen) items"
  from \<open>node \<in> set items\<close> \<open>td_id node = p\<close> \<open>p \<notin> set seen\<close> have "node \<in> set ?unseen" by simp
  then have "length (filter (\<lambda>t. td_id t \<noteq> p) ?unseen) < length ?unseen"
    by (rule length_filter_less) (simp add: \<open>td_id node = p\<close>)
  moreover have "filter (\<lambda>t. td_id t \<notin> set (p # seen)) items = filter (\<lambda>t. td_id t \<noteq> p) ?unseen"
    by (auto intro: filter_cong)
  ultimately have "length (filter (\<lambda>t. td_id t \<notin> set (p # seen)) items) < length ?unseen" by argo
  then show "((items, p # seen, td_parent node), (items, seen, Some p)) \<in> measure (\<lambda>(items, seen, p). length (filter (\<lambda>t. td_id t \<notin> set seen) items))"
    by simp
qed simp

definition known_parents :: "todo list \<Rightarrow> todo list" where
  "known_parents items =
     map (\<lambda>t. case td_parent t of Some p \<Rightarrow> if p \<in> td_id ` set items then t else t\<lparr>td_parent := None\<rparr> | None \<Rightarrow> t) items"

definition break_cycle :: "nat \<Rightarrow> todo list \<Rightarrow> todo list" where
  "break_cycle k items =
     (if cyclic items [td_id (items ! k)] (td_parent (items ! k)) then items[k := (items ! k)\<lparr>td_parent := None\<rparr>] else items)"

definition sanitize_parents :: "todo list \<Rightarrow> todo list" where
  "sanitize_parents items = fold break_cycle [0..<length items] (known_parents items)"

section \<open>Writing\<close>

text \<open>A merge: an entry with a known identifier changes it, others are appended.\<close>

definition merge_fields :: "(json \<Rightarrow> string) \<Rightarrow> json \<Rightarrow> todo \<Rightarrow> todo" where
  "merge_fields str t x =
     (let x = (case jget ''content'' t of Some v \<Rightarrow> if truth v then x\<lparr>td_content := cap_content (strip (text_of str v))\<rparr> else x | None \<Rightarrow> x);
          x = (case jget ''status'' t of
                 Some v \<Rightarrow> if truth v then (case map_of status_words (lower (strip (text_of str v))) of
                             Some s \<Rightarrow> x\<lparr>td_status := s\<rparr> | None \<Rightarrow> x) else x
               | None \<Rightarrow> x)
      in if jget ''parent'' t = None then x
         else (let parent = strip (text_or_empty str (jget ''parent'' t)) in x\<lparr>td_parent := if parent = [] then None else Some parent\<rparr>))"

fun update_last :: "('a \<Rightarrow> bool) \<Rightarrow> ('a \<Rightarrow> 'a) \<Rightarrow> 'a list \<Rightarrow> 'a list" where
  "update_last P f [] = []"
| "update_last P f (x # xs) = (if P x \<and> \<not> list_ex P xs then f x # xs else x # update_last P f xs)"

text \<open>\<open>AttributeError\<close> leaves the todos merged so far.\<close>

fun merge_todos :: "(json \<Rightarrow> string) \<Rightarrow> json list \<Rightarrow> todo list \<Rightarrow> todo list \<times> bool" where
  "merge_todos str [] items = (items, True)"
| "merge_todos str (t # ts) items =
     (if \<not> is_dict t then (items, False)
      else
        (let i = strip (field_text str ''id'' [] t) in
         if i = [] then merge_todos str ts items
         else if i \<in> td_id ` set items then merge_todos str ts (update_last (\<lambda>x. td_id x = i) (merge_fields str t) items)
         else merge_todos str ts (items @ [validate_todo str t])))"

definition rebuild :: "todo list \<Rightarrow> todo list" where
  "rebuild items = map (\<lambda>i. the (last_with i items)) (rev (remdups (rev (map td_id items))))"

text \<open>The end of \<open>write\<close>; the result is \<open>None\<close> when an \<open>AttributeError\<close> is raised.\<close>

definition settle_items :: "todo list \<Rightarrow> planner \<Rightarrow> planner \<times> todo list option" where
  "settle_items items pl =
     (let items = sanitize_parents (take max_todo_items items)
      in (\<lparr>pl_items = items, pl_revision = pl_revision pl + (if items \<noteq> pl_items pl then 1 else 0)\<rparr>, Some items))"

definition write_todos :: "(json \<Rightarrow> string) \<Rightarrow> json list \<Rightarrow> bool \<Rightarrow> planner \<Rightarrow> planner \<times> todo list option" where
  "write_todos str todos merge pl =
     (if \<not> merge then settle_items (normalize_order (map (validate_todo str) (dedupe_from str 0 todos))) pl
      else (case merge_todos str (dedupe_from str 0 todos) (pl_items pl) of
              (items, False) \<Rightarrow> (pl\<lparr>pl_items := items\<rparr>, None)
            | (items, True) \<Rightarrow> settle_items (normalize_order (rebuild items)) pl))"

text \<open>\<open>restore\<close> cuts the list but does not look at the parents.\<close>

definition restore_todos :: "(json \<Rightarrow> string) \<Rightarrow> json list \<Rightarrow> int \<Rightarrow> planner \<Rightarrow> planner" where
  "restore_todos str todos revision pl =
     \<lparr>pl_items = take max_todo_items (normalize_order (map (validate_todo str) (dedupe_from str 0 todos))),
      pl_revision = max 0 revision\<rparr>"

section \<open>Reading\<close>

definition count_status :: "todo_status \<Rightarrow> todo list \<Rightarrow> nat" where
  "count_status s items = length (filter (\<lambda>t. td_status t = s) items)"

definition todo_summary :: "planner \<Rightarrow> nat \<times> nat \<times> nat \<times> nat \<times> nat" where
  "todo_summary pl =
     (length (pl_items pl), count_status Todo_Pending (pl_items pl), count_status Todo_In_Progress (pl_items pl),
      count_status Todo_Completed (pl_items pl), count_status Todo_Cancelled (pl_items pl))"

fun todo_marker :: "todo_status \<Rightarrow> string" where
  "todo_marker Todo_Completed = ''[x]''"
| "todo_marker Todo_In_Progress = ''[>]''"
| "todo_marker Todo_Pending = ''[ ]''"
| "todo_marker Todo_Cancelled = ''[~]''"

definition todo_active :: "todo \<Rightarrow> bool" where
  "todo_active t \<longleftrightarrow> td_status t \<in> {Todo_Pending, Todo_In_Progress}"

definition todo_line :: "nat \<Rightarrow> todo \<Rightarrow> string" where
  "todo_line d t =
     concat (replicate d ''  '') @ ''- '' @ todo_marker (td_status t) @ '' '' @ td_id t @ ''. '' @ td_content t @ '' ('' @ status_word (td_status t) @ '')''"

definition children_of :: "todo list \<Rightarrow> string \<Rightarrow> todo list" where
  "children_of items i = filter (\<lambda>t. td_parent t = Some i) items"

text \<open>\<open>render\<close>, with fuel for the depth; \<open>None\<close> when it does not suffice.\<close>

fun render :: "nat \<Rightarrow> todo list \<Rightarrow> nat \<Rightarrow> todo \<Rightarrow> (bool \<times> string list) option"
  and renders :: "nat \<Rightarrow> todo list \<Rightarrow> nat \<Rightarrow> todo list \<Rightarrow> (bool \<times> string list) option" where
  "render 0 items d t = None"
| "render (Suc n) items d t =
     (case renders n items (Suc d) (children_of items (td_id t)) of
        None \<Rightarrow> None
      | Some (active, lines) \<Rightarrow>
          (let keep = todo_active t \<or> active in Some (keep, if keep then todo_line d t # lines else [])))"
| "renders n items d [] = Some (False, [])"
| "renders n items d (k # ks) =
     (case (render n items d k, renders n items d ks) of
        (Some (a, l), Some (b, ls)) \<Rightarrow> Some (a \<or> b, l @ ls)
      | _ \<Rightarrow> None)"

definition injection_lines :: "todo list \<Rightarrow> string list option" where
  "injection_lines items = map_option snd (renders (length items) items 0 (filter (\<lambda>t. td_parent t = None) items))"

definition injection_header :: string where
  "injection_header = ''[Active Task List Preserved Across Compaction]''"

fun joined :: "string list \<Rightarrow> string" where
  "joined [] = []"
| "joined [l] = l"
| "joined (l # ls) = l @ CHR 0x0A # joined ls"

definition format_for_injection :: "planner \<Rightarrow> string option option" where
  "format_for_injection pl =
     (case injection_lines (pl_items pl) of
        None \<Rightarrow> None
      | Some lines \<Rightarrow> Some (if lines = [] then None else Some (joined (injection_header # lines))))"

end
