(* ===== verification/PlannerProps.thy ===== *)
theory PlannerProps
  imports TaskPlanner
begin

text \<open>
  The checklist of \<open>TaskPlanner\<close> is a forest after every write, and what is put back after a compaction shows every
  active todo (\<open>SmaraTaskPlanner\<close> in \<open>src/smara/task_planner.py\<close>).
\<close>

section \<open>Chains of parents\<close>

inductive chain :: "todo list \<Rightarrow> nat \<Rightarrow> string option \<Rightarrow> bool" for items where
  chain_root: "chain items 0 None"
| chain_up: "last_with p items = Some t \<Longrightarrow> chain items n (td_parent t) \<Longrightarrow> chain items (Suc n) (Some p)"

inductive_cases chain_NoneE: "chain items n None"
inductive_cases chain_SomeE: "chain items n (Some p)"

lemma chain_unique: "chain items n p \<Longrightarrow> chain items m p \<Longrightarrow> n = m"
proof (induction arbitrary: m rule: chain.induct)
  case chain_root
  then show ?case by (auto elim: chain_NoneE)
next
  case (chain_up p t n)
  from chain_up.prems show ?case
    by (rule chain_SomeE) (use chain_up in auto)
qed

definition parents_known :: "todo list \<Rightarrow> bool" where
  "parents_known items \<longleftrightarrow> (\<forall>t \<in> set items. \<forall>p. td_parent t = Some p \<longrightarrow> p \<in> td_id ` set items)"

lemma last_with_known: "p \<in> td_id ` set items \<Longrightarrow> \<exists>t. last_with p items = Some t"
  by (auto simp: last_with_def filter_empty_conv split: list.splits)

lemma not_cyclic_chain:
  "\<not> cyclic items seen p \<Longrightarrow> parents_known items \<Longrightarrow> (\<And>q. p = Some q \<Longrightarrow> q \<in> td_id ` set items) \<Longrightarrow> \<exists>n. chain items n p"
proof (induction items seen p rule: cyclic.induct)
  case (2 items seen p)
  then obtain t where t: "last_with p items = Some t" using last_with_known [of p items] by auto
  have "\<not> cyclic items (p # seen) (td_parent t)" "p \<notin> set seen" using 2(2) t by (auto split: if_splits)
  moreover have "q \<in> td_id ` set items" if "td_parent t = Some q" for q
    using that 2(3) last_with_in [OF t] by (auto simp: parents_known_def)
  ultimately obtain n where "chain items n (td_parent t)" using 2(1) [OF _ t] 2(3) by blast
  then show ?case using chain_up [OF t] by blast
qed (auto intro: chain_root)

definition drop_parent :: "string \<Rightarrow> todo list \<Rightarrow> todo list" where
  "drop_parent i = map (\<lambda>t. if td_id t = i then t\<lparr>td_parent := None\<rparr> else t)"

lemma last_with_map:
  assumes "\<And>t. td_id (f t) = td_id t"
  shows "last_with i (map f items) = map_option f (last_with i items)"
proof -
  have "filter (\<lambda>t. td_id t = i) (map f items) = map f (filter (\<lambda>t. td_id t = i) items)" by (simp add: filter_map o_def assms)
  then show ?thesis by (cases "filter (\<lambda>t. td_id t = i) items") (auto simp: last_with_def last_map)
qed

lemma chain_drop: "chain items n p \<Longrightarrow> \<exists>m. chain (drop_parent i items) m p"
proof (induction rule: chain.induct)
  case chain_root
  show ?case by (blast intro: chain.chain_root)
next
  case (chain_up p t n)
  have found: "last_with p (drop_parent i items) = Some (if td_id t = i then t\<lparr>td_parent := None\<rparr> else t)"
    unfolding drop_parent_def by (subst last_with_map) (simp_all add: chain_up.hyps)
  show ?case
  proof (cases "td_id t = i")
    case True
    then show ?thesis using chain.chain_up [OF found] chain.chain_root by fastforce
  next
    case False
    then show ?thesis using chain.chain_up [OF found] chain_up.IH by auto
  qed
qed

lemma ids_drop [simp]: "map td_id (drop_parent i items) = map td_id items" "td_id ` set (drop_parent i items) = td_id ` set items"
proof -
  show "map td_id (drop_parent i items) = map td_id items" by (simp add: drop_parent_def)
  then show "td_id ` set (drop_parent i items) = td_id ` set items" by (metis set_map)
qed

lemma known_drop: "parents_known items \<Longrightarrow> parents_known (drop_parent i items)"
  unfolding parents_known_def ids_drop by (auto simp: drop_parent_def)

section \<open>The repair of the parents\<close>

lemma update_drop:
  assumes "distinct (map td_id items)" and "k < length items"
  shows "items[k := (items ! k)\<lparr>td_parent := None\<rparr>] = drop_parent (td_id (items ! k)) items"
proof (rule nth_equalityI)
  fix j assume "j < length (items[k := (items ! k)\<lparr>td_parent := None\<rparr>])"
  then have j: "j < length items" by simp
  then have "td_id (items ! j) = td_id (items ! k) \<longleftrightarrow> j = k"
    using assms nth_eq_iff_index_eq [OF assms(1), of j k] by simp
  then show "items[k := (items ! k)\<lparr>td_parent := None\<rparr>] ! j = drop_parent (td_id (items ! k)) items ! j"
    using j by (auto simp: drop_parent_def nth_list_update)
qed (simp add: drop_parent_def)

text \<open>The first \<open>k\<close> todos have a chain of parents that ends.\<close>

definition repaired :: "nat \<Rightarrow> todo list \<Rightarrow> bool" where
  "repaired k items \<longleftrightarrow> distinct (map td_id items) \<and> parents_known items \<and> (\<forall>j < k. \<exists>n. chain items n (td_parent (items ! j)))"

lemma break_cycle_repairs:
  assumes "repaired k items" and "k < length items"
  shows "repaired (Suc k) (break_cycle k items) \<and> map td_id (break_cycle k items) = map td_id items"
proof -
  let ?t = "items ! k"
  have ok: "distinct (map td_id items)" "parents_known items" "\<And>j. j < k \<Longrightarrow> \<exists>n. chain items n (td_parent (items ! j))"
    using assms(1) by (auto simp: repaired_def)
  show ?thesis
  proof (cases "cyclic items [td_id ?t] (td_parent ?t)")
    case True
    let ?new = "drop_parent (td_id ?t) items"
    have new: "break_cycle k items = ?new" using True update_drop [OF ok(1) assms(2)] by (simp add: break_cycle_def)
    have "\<exists>n. chain ?new n (td_parent (?new ! j))" if j: "j < Suc k" for j
    proof (cases "td_id (items ! j) = td_id ?t")
      case True
      then have "td_parent (?new ! j) = None" using j assms(2) by (simp add: drop_parent_def)
      then show ?thesis using chain.chain_root by metis
    next
      case False
      then have "j < k" "td_parent (?new ! j) = td_parent (items ! j)" using j assms(2) less_Suc_eq by (auto simp: drop_parent_def)
      then show ?thesis using ok(3) chain_drop by metis
    qed
    then show ?thesis using new ok(1) known_drop [OF ok(2)] by (simp add: repaired_def)
  next
    case False
    have "\<exists>n. chain items n (td_parent ?t)"
      using not_cyclic_chain [OF False ok(2)] ok(2) nth_mem [OF assms(2)] unfolding parents_known_def by blast
    then show ?thesis using False assms(1) by (auto simp: break_cycle_def repaired_def less_Suc_eq)
  qed
qed

lemma fold_repairs:
  assumes "repaired 0 items" and "k \<le> length items"
  shows "repaired k (fold break_cycle [0..<k] items) \<and> map td_id (fold break_cycle [0..<k] items) = map td_id items"
  using assms(2)
proof (induction k)
  case 0
  then show ?case using assms(1) by simp
next
  case (Suc k)
  let ?items = "fold break_cycle [0..<k] items"
  have IH: "repaired k ?items" "map td_id ?items = map td_id items" using Suc by simp_all
  then have "k < length ?items" using Suc(2) by (metis Suc_le_lessD length_map)
  from break_cycle_repairs [OF IH(1) this] show ?case using IH(2) by simp
qed

text \<open>A forest: every todo stands under its parent, and the chain of parents ends.\<close>

definition forest :: "todo list \<Rightarrow> bool" where
  "forest items \<longleftrightarrow> distinct (map td_id items) \<and> (\<forall>t \<in> set items. \<exists>n. chain items n (td_parent t))"

lemma ids_known_parents [simp]: "map td_id (known_parents items) = map td_id items"
  by (auto simp: known_parents_def split: option.splits)

lemma known_parents_known: "parents_known (known_parents items)"
proof -
  have "td_id ` set (known_parents items) = td_id ` set items" by (metis ids_known_parents set_map)
  then show ?thesis unfolding parents_known_def by (auto simp: known_parents_def split: option.splits if_splits)
qed

lemma sanitize_forest:
  assumes "distinct (map td_id items)"
  shows "forest (sanitize_parents items) \<and> map td_id (sanitize_parents items) = map td_id items"
proof -
  have len: "length (known_parents items) = length items" by (simp add: known_parents_def)
  have "repaired 0 (known_parents items)" using assms by (simp add: repaired_def known_parents_known)
  from fold_repairs [OF this, of "length items"]
  have r: "repaired (length items) (sanitize_parents items)" "map td_id (sanitize_parents items) = map td_id items"
    by (simp_all add: sanitize_parents_def len)
  then have "length (sanitize_parents items) = length items" by (metis length_map)
  then show ?thesis using r by (auto simp: repaired_def forest_def in_set_conv_nth)
qed

section \<open>What a write leaves\<close>

lemma dedupe_sub: "set (dedupe_from str i ts) \<subseteq> set ts"
  by (induction str i ts rule: dedupe_from.induct) auto

lemma dedupe_keys:
  assumes "list_all is_dict ts"
  shows "distinct (map (todo_key str) (dedupe_from str i ts))"
  using assms
proof (induction str i ts rule: dedupe_from.induct)
  case (2 str i t ts)
  have "todo_key str t \<notin> todo_key str ` set (dedupe_from str (Suc i) ts)"
    if "dedupe_key str i t \<notin> (\<lambda>(j, u). dedupe_key str j u) ` set (enumerate_from (Suc i) ts)"
  proof
    assume "todo_key str t \<in> todo_key str ` set (dedupe_from str (Suc i) ts)"
    then obtain u where u: "u \<in> set ts" "todo_key str u = todo_key str t" using dedupe_sub by fastforce
    then obtain k where "k < length ts" "ts ! k = u" by (auto simp: in_set_conv_nth)
    then have "(Suc i + k, u) \<in> set (enumerate_from (Suc i) ts)" by (auto simp: set_enumerate_from)
    moreover have "dedupe_key str (Suc i + k) u = dedupe_key str i t" using u 2(2) by (auto simp: dedupe_key_def list_all_iff)
    ultimately show False using that by force
  qed
  then show ?case using 2 by auto
qed simp

lemma validate_id: "is_dict t \<Longrightarrow> td_id (validate_todo str t) = todo_key str t"
  by (simp add: validate_todo_def Let_def)

lemma normalize_mset: "mset (normalize_order items) = mset items"
proof -
  define pre where "pre = takeWhile (\<lambda>t. td_status t \<noteq> Todo_In_Progress) items"
  define post where "post = dropWhile (\<lambda>t. td_status t \<noteq> Todo_In_Progress) items"
  define earlier where "earlier = takeWhile (\<lambda>t. td_status t \<noteq> Todo_Pending) pre"
  define waiting where "waiting = dropWhile (\<lambda>t. td_status t \<noteq> Todo_Pending) pre"
  have "normalize_order items = items \<or> (\<exists>active rest. post = active # rest \<and> normalize_order items = earlier @ active # waiting @ rest)"
    unfolding normalize_order_def Let_def pre_def [symmetric] post_def [symmetric] earlier_def [symmetric] waiting_def [symmetric]
    by (cases post) auto
  moreover have "items = pre @ post" "pre = earlier @ waiting" by (simp_all add: pre_def post_def earlier_def waiting_def)
  ultimately show ?thesis by auto
qed

lemma normalize_distinct: "distinct (map td_id (normalize_order items)) \<longleftrightarrow> distinct (map td_id items)"
  by (metis distinct_count_atmost_1 mset_map normalize_mset set_mset_mset)

lemma rebuild_distinct: "distinct (map td_id (rebuild items))"
proof -
  have "td_id (the (last_with i items)) = i" if "i \<in> set (rev (remdups (rev (map td_id items))))" for i
    using that last_with_known [of i items] last_with_in [of i items] by fastforce
  then have "map td_id (rebuild items) = rev (remdups (rev (map td_id items)))"
    unfolding rebuild_def map_map by (intro map_idI) simp
  then show ?thesis by simp
qed

lemma settled_forest:
  assumes "distinct (map td_id items)" and "settle_items items pl = (pl', Some out)"
  shows "pl_items pl' = out \<and> forest out \<and> length out \<le> max_todo_items"
proof -
  have out: "out = sanitize_parents (take max_todo_items items)" "pl_items pl' = out" using assms(2) by (auto simp: settle_items_def Let_def)
  have "distinct (map td_id (take max_todo_items items))" using assms(1) by (metis distinct_take take_map)
  from sanitize_forest [OF this] have "forest out" "length out \<le> max_todo_items"
    using out(1) by (auto, metis length_map length_take min.cobounded2)
  then show ?thesis using out(2) by simp
qed

lemma write_forest:
  assumes "write_todos str todos merge pl = (pl', Some items)" and "merge \<or> list_all is_dict todos"
  shows "pl_items pl' = items \<and> forest items \<and> length items \<le> max_todo_items"
proof (cases merge)
  case True
  then obtain merged where "merge_todos str (dedupe_from str 0 todos) (pl_items pl) = (merged, True)"
    "settle_items (normalize_order (rebuild merged)) pl = (pl', Some items)"
    using assms(1) by (auto simp: write_todos_def split: prod.splits bool.splits)
  then show ?thesis using settled_forest [of "normalize_order (rebuild merged)"] by (simp add: normalize_distinct rebuild_distinct)
next
  case False
  let ?new = "map (validate_todo str) (dedupe_from str 0 todos)"
  have dicts: "list_all is_dict todos" using assms(2) False by simp
  then have "map td_id ?new = map (todo_key str) (dedupe_from str 0 todos)"
    using dedupe_sub [of str 0 todos] by (auto simp: list_all_iff validate_id)
  then have "distinct (map td_id (normalize_order ?new))" by (simp only: normalize_distinct dedupe_keys [OF dicts])
  moreover have "settle_items (normalize_order ?new) pl = (pl', Some items)" using assms(1) False by (simp add: write_todos_def)
  ultimately show ?thesis by (rule settled_forest)
qed

section \<open>Every active todo is shown\<close>

text \<open>\<open>below items x t\<close>: \<open>t\<close> is \<open>x\<close> or stands under it.\<close>

inductive below :: "todo list \<Rightarrow> todo \<Rightarrow> todo \<Rightarrow> bool" for items where
  below_refl: "below items x x"
| below_kid: "k \<in> set (children_of items (td_id x)) \<Longrightarrow> below items k t \<Longrightarrow> below items x t"

lemma below_under: "below items x y \<Longrightarrow> t \<in> set (children_of items (td_id y)) \<Longrightarrow> below items x t"
  by (induction rule: below.induct) (auto intro: below.intros)

lemma under_root:
  assumes "chain items n (td_parent t)" and "t \<in> set items"
  shows "\<exists>r \<in> set items. td_parent r = None \<and> below items r t"
proof -
  have "\<forall>t. t \<in> set items \<longrightarrow> td_parent t = p \<longrightarrow> (\<exists>r \<in> set items. td_parent r = None \<and> below items r t)" if "chain items n p" for n p
    using that
  proof (induction rule: chain.induct)
    case chain_root
    show ?case by (blast intro: below_refl)
  next
    case (chain_up p u n)
    then obtain r where r: "r \<in> set items" "td_parent r = None" "below items r u" using last_with_in by blast
    have "td_id u = p" using last_with_in [OF chain_up(1)] by simp
    then have "below items r t" if "t \<in> set items" "td_parent t = Some p" for t
      using that by (auto intro!: below_under [OF r(3)] simp: children_of_def)
    then show ?case using r by blast
  qed
  then show ?thesis using assms by blast
qed

text \<open>The depth of a todo is less than the number of todos.\<close>

lemma depth_bound:
  assumes "chain items n (td_parent t)" and "t \<in> set items"
  shows "n < length items"
proof -
  have levels: "\<exists>u \<in> set items. chain items m (td_parent u)" if "m \<le> n" for m
  proof -
    have "\<forall>m \<le> n. (m = n \<or> (\<exists>u \<in> set items. chain items m (td_parent u)))" if "chain items n p" for n p
      using that
    proof (induction rule: chain.induct)
      case (chain_up p u n)
      then show ?case using last_with_in [OF chain_up(1)] by (metis le_Suc_eq)
    qed simp
    then show ?thesis using that assms by blast
  qed
  define level :: "todo \<Rightarrow> nat" where "level u = (THE m. chain items m (td_parent u))" for u
  have level: "level u = m" if "chain items m (td_parent u)" for u m
    unfolding level_def using that chain_unique by blast
  have "{..n} \<subseteq> level ` set items" using levels level by (metis atMost_iff image_eqI subsetI)
  then have "card {..n} \<le> card (set items)" by (meson card_image_le card_mono finite_imageI finite_set le_trans)
  also have "\<dots> \<le> length items" by (rule card_length)
  finally show ?thesis by simp
qed

text \<open>The fuel suffices.\<close>

lemma renders_all: "(\<And>k. k \<in> set ks \<Longrightarrow> \<exists>r. render n items d k = Some r) \<Longrightarrow> \<exists>r. renders n items d ks = Some r"
  by (induction ks) (fastforce split: option.splits)+

lemma render_returns:
  assumes "forest items" and "t \<in> set items" and "chain items m (td_parent t)" and "length items \<le> n + m"
  shows "\<exists>r. render n items d t = Some r"
  using assms(2-4)
proof (induction n arbitrary: t m d)
  case 0
  then show ?case using depth_bound [of items m t] by simp
next
  case (Suc n)
  have found: "last_with (td_id t) items = Some t"
  proof -
    obtain u where "last_with (td_id t) items = Some u" using last_with_known [of "td_id t" items] Suc(2) by auto
    then show ?thesis using last_with_in [of "td_id t" items u] Suc(2) assms(1) by (metis distinct_map forest_def inj_onD)
  qed
  have "\<exists>r. render n items (Suc d) k = Some r" if "k \<in> set (children_of items (td_id t))" for k
  proof (rule Suc.IH)
    show "k \<in> set items" "chain items (Suc m) (td_parent k)"
      using that chain.chain_up [OF found Suc(3)] by (auto simp: children_of_def)
    show "length items \<le> n + Suc m" using Suc(4) by simp
  qed
  then obtain r where "renders n items (Suc d) (children_of items (td_id t)) = Some r" using renders_all by metis
  then show ?case by (simp add: Let_def split: prod.splits)
qed

lemma renders_member:
  "renders n items d ks = Some (b, ls) \<Longrightarrow> k \<in> set ks \<Longrightarrow>
   \<exists>a l. render n items d k = Some (a, l) \<and> (a \<longrightarrow> b) \<and> set l \<subseteq> set ls"
proof (induction ks arbitrary: b ls)
  case (Cons x xs)
  from Cons.prems(1) obtain a l c m where parts: "render n items d x = Some (a, l)" "renders n items d xs = Some (c, m)"
    "b = (a \<or> c)" "ls = l @ m"
    by (cases "render n items d x"; cases "renders n items d xs") auto
  show ?case
  proof (cases "k = x")
    case False
    then obtain a' l' where "render n items d k = Some (a', l')" "a' \<longrightarrow> c" "set l' \<subseteq> set m" using Cons parts(2) by auto
    then show ?thesis using parts(3,4) by auto
  qed (use parts in auto)
qed simp

lemma render_shows:
  "below items x t \<Longrightarrow> todo_active t \<Longrightarrow> render n items d x = Some (a, ls) \<Longrightarrow> a \<and> (\<exists>d'. todo_line d' t \<in> set ls)"
proof (induction arbitrary: n d a ls rule: below.induct)
  case (below_refl x)
  then show ?case by (cases n) (auto simp: Let_def split: option.splits)
next
  case (below_kid k x t)
  obtain m where m: "n = Suc m" using below_kid.prems(2) by (cases n) auto
  obtain b kls where kids: "renders m items (Suc d) (children_of items (td_id x)) = Some (b, kls)"
    using below_kid.prems(2) m by (auto split: option.splits)
  from renders_member [OF kids below_kid.hyps(1)] obtain c l where kid: "render m items (Suc d) k = Some (c, l)" "c \<longrightarrow> b" "set l \<subseteq> set kls"
    by blast
  from below_kid.IH [OF below_kid.prems(1) kid(1)] obtain d' where "c" "todo_line d' t \<in> set l" by blast
  then have "b" "todo_line d' t \<in> set kls" using kid by auto
  moreover have "a" "ls = todo_line d x # kls" using below_kid.prems(2) kids m \<open>b\<close> by (auto simp: Let_def)
  ultimately show ?case by auto
qed

theorem injection_complete:
  assumes "forest items"
  shows "\<exists>lines. injection_lines items = Some lines \<and> (\<forall>t \<in> set items. todo_active t \<longrightarrow> (\<exists>d. todo_line d t \<in> set lines))"
proof -
  let ?roots = "filter (\<lambda>t. td_parent t = None) items"
  have "\<exists>r. render (length items) items 0 k = Some r" if "k \<in> set ?roots" for k
    using that by (intro render_returns [OF assms, where m = 0]) (auto intro: chain_root)
  then obtain r where "renders (length items) items 0 ?roots = Some r" using renders_all by metis
  then obtain b lines where r: "renders (length items) items 0 ?roots = Some (b, lines)" by (cases r) auto
  have "\<exists>d. todo_line d t \<in> set lines" if t: "t \<in> set items" "todo_active t" for t
  proof -
    obtain n where "chain items n (td_parent t)" using assms t by (auto simp: forest_def)
    then obtain root where root: "root \<in> set ?roots" "below items root t" using under_root t by fastforce
    from renders_member [OF r root(1)] obtain a l where "render (length items) items 0 root = Some (a, l)" "set l \<subseteq> set lines" by blast
    then show ?thesis using render_shows [OF root(2) t(2)] by blast
  qed
  then show ?thesis using r by (simp add: injection_lines_def)
qed

section \<open>The property\<close>

text \<open>C24: a compaction loses no active task. After every \<open>write\<close> that returns, the text kept for the next context holds the
  header and a line for each todo that is pending or in progress, whatever parents the model gave: unknown ones and
  cycles are cut, so every todo hangs below a root, and the rendering ends.\<close>

theorem active_todos_survive:
  assumes "write_todos str todos merge pl = (pl', Some items)" and "merge \<or> list_all is_dict todos" and "t \<in> set items" and "todo_active t"
  shows "\<exists>lines d. format_for_injection pl' = Some (Some (joined (injection_header # lines))) \<and> todo_line d t \<in> set lines"
proof -
  have "pl_items pl' = items" "forest items" using write_forest [OF assms(1,2)] by simp_all
  then show ?thesis using injection_complete [of items] assms(3,4) by (fastforce simp: format_for_injection_def)
qed

definition ex_todos :: "json list" where
  "ex_todos = [JObj [(''id'', JStr ''a''), (''content'', JStr ''Build''), (''parent'', JStr ''b'')],
               JObj [(''id'', JStr ''b''), (''content'', JStr ''Test''), (''parent'', JStr ''a''), (''status'', JStr ''completed'')]]"

definition ex_planner :: planner where
  "ex_planner = \<lparr>pl_items = [], pl_revision = 0\<rparr>"

definition ex_todo :: todo where
  "ex_todo = \<lparr>td_id = ''a'', td_content = ''Build'', td_status = Todo_Pending, td_parent = None\<rparr>"

definition ex_other :: todo where
  "ex_other = \<lparr>td_id = ''b'', td_content = ''Test'', td_status = Todo_Completed, td_parent = Some ''a''\<rparr>"

lemma ex_written: "write_todos (\<lambda>_. []) ex_todos False ex_planner = (\<lparr>pl_items = [ex_todo, ex_other], pl_revision = 1\<rparr>, Some [ex_todo, ex_other])"
  by code_simp

theorem active_todos_survive_witness:
  "\<exists>lines d. format_for_injection \<lparr>pl_items = [ex_todo, ex_other], pl_revision = 1\<rparr> = Some (Some (joined (injection_header # lines))) \<and>
     todo_line d ex_todo \<in> set lines"
  by (rule active_todos_survive [OF ex_written]) (simp_all add: ex_todos_def ex_todo_def todo_active_def)

end
