(* ===== verification/Background.thy ===== *)
theory Background
  imports GoalRun
begin

text \<open>
  \<open>src/smara/native_background.py\<close>: recurring wakes into the goal ledger. The schedules are a table of the
  ledger's database; a round of wakes is one transaction that creates goals with the ledger's own \<open>create\<close>. A
  document that is not a dictionary raises \<open>AttributeError\<close>, here a \<open>TypeError\<close>. The import of the retired
  schedules and the start at login are not modelled.
\<close>

section \<open>Schedules\<close>

record wake =
  wk_id :: string
  wk_name :: string
  wk_spec :: spec
  wk_enabled :: bool
  wk_due :: time
  wk_interval :: int
  wk_max :: int
  wk_runs :: int
  wk_goal :: "string option"
  wk_detail :: string

record background =
  bg_ledger :: goal_db
  bg_wakes :: "wake list"

definition no_background :: background where
  "no_background = \<lparr>bg_ledger = no_goals, bg_wakes = []\<rparr>"

definition set_wakes :: "string \<Rightarrow> (wake \<Rightarrow> wake) \<Rightarrow> background \<Rightarrow> background" where
  "set_wakes wid f b = b\<lparr>bg_wakes := upd (\<lambda>w. wk_id w = wid) f (bg_wakes b)\<rparr>"

definition wake_limits :: string where
  "wake_limits = ''Provide a name, interval 60..31536000 seconds and 1..100 wakes''"

text \<open>\<open>request.get("spec") or {}\<close>.\<close>

definition wake_document :: "request \<Rightarrow> request result" where
  "wake_document v =
     (let x = field ''spec'' JNull v in
      case x of JObj kvs \<Rightarrow> Inr kvs | _ \<Rightarrow> if truth x then Inl TypeError else Inr [])"

definition add_wake :: "(json \<Rightarrow> string) \<Rightarrow> os \<Rightarrow> env \<Rightarrow> request \<Rightarrow> background \<Rightarrow> (background \<times> string) result" where
  "add_wake str os e v b =
     (case (field ''name'' (JStr []) v, field ''interval_seconds'' (JNum 3600) v, field ''max_runs'' (JNum 10) v) of
        (JStr name, JNum interval, JNum maximum) \<Rightarrow>
          (if strip name = [] \<or> 160 < length name \<or> interval < 60 \<or> 31536000 < interval \<or> maximum < 1 \<or> 100 < maximum
           then Inl (ValueError wake_limits)
           else
             andThen (wake_document v) (\<lambda>doc.
             andThen (goal_spec str os doc) (\<lambda>sp.
             if sp_sandbox sp \<noteq> ''read-only'' then Inl (ValueError ''Recurring wakes require read-only scope'')
             else if op_origins (sp_options sp) \<noteq> [] then Inl (ValueError ''Interactive browser sessions require a foreground human'')
             else if uuid e [0] \<in> wk_id ` set (bg_wakes b) then Inl IntegrityError
             else
               Inr (b\<lparr>bg_wakes := bg_wakes b @ [\<lparr>wk_id = uuid e [0], wk_name = strip name, wk_spec = sp, wk_enabled = False, wk_due = clk e 0,
                        wk_interval = interval, wk_max = maximum, wk_runs = 0, wk_goal = None, wk_detail = ''Paused until explicitly enabled''\<rparr>]\<rparr>,
                    uuid e [0]))))
      | _ \<Rightarrow> Inl (ValueError wake_limits))"

definition enable_wake :: "string \<Rightarrow> bool \<Rightarrow> background \<Rightarrow> background result" where
  "enable_wake wid enabled b =
     (case fetchone (filter (\<lambda>w. wk_id w = wid) (bg_wakes b)) of
        None \<Rightarrow> Inl (ValueError ''Schedule not found'')
      | Some w \<Rightarrow>
          if enabled \<and> wk_runs w \<ge> wk_max w then Inl (ValueError ''Wake allowance exhausted; create a new schedule'')
          else Inr (set_wakes wid (\<lambda>w. w\<lparr>wk_enabled := enabled,
                 wk_detail := (if enabled then ''Waiting for next wake / prior result review'' else ''Paused by user'')\<rparr>) b))"

section \<open>A round of wakes\<close>

definition wake_identity :: "wake \<Rightarrow> int \<Rightarrow> string" where
  "wake_identity w n = ''wake'' @ wk_id w @ show_int n"

text \<open>\<open>{**spec, "action": "create", "identity": identity, "options": options}\<close>.\<close>

definition wake_request :: "string \<Rightarrow> spec \<Rightarrow> request" where
  "wake_request gid sp = (''identity'', JStr gid) # (''options'', JObj (options_fields (sp_options sp))) # spec_fields sp"

definition prior_completed :: "wake \<Rightarrow> goal_db \<Rightarrow> bool" where
  "prior_completed w db \<longleftrightarrow>
     opt_or (wk_goal w) [] = [] \<or>
     (case fetchone (filter (\<lambda>g. Some (gl_id g) = wk_goal w) (goals db)) of None \<Rightarrow> False | Some g \<Rightarrow> gl_state g = G_Completed)"

text \<open>One schedule: what is set in its row, and the goal it created.\<close>

definition enqueue_one ::
  "(json \<Rightarrow> string) \<Rightarrow> os \<Rightarrow> env \<Rightarrow> time \<Rightarrow> wake \<Rightarrow> background \<Rightarrow> (background \<times> string option) result" where
  "enqueue_one str os e now w b =
     (if wk_runs w \<ge> wk_max w
      then Inr (set_wakes (wk_id w) (\<lambda>x. x\<lparr>wk_enabled := False, wk_detail := ''Wake allowance exhausted''\<rparr>) b, None)
      else if \<not> prior_completed w (bg_ledger b)
      then Inr (set_wakes (wk_id w) (\<lambda>x. x\<lparr>wk_detail := ''Waiting for prior goal acceptance; no automatic replay''\<rparr>) b, None)
      else
        (let gid = wake_identity w (wk_runs w + 1) in
         andThen (create_goal str os e (wake_request gid (wk_spec w)) (bg_ledger b)) (\<lambda>(db, _).
         Inr (set_wakes (wk_id w) (\<lambda>x. x\<lparr>wk_runs := wk_runs x + 1, wk_goal := Some gid, wk_due := now + seconds (wk_interval w),
                wk_detail := ''Goal queued in shared ledger''\<rparr>) (b\<lparr>bg_ledger := db\<rparr>), Some gid))))"

fun enqueue_loop ::
  "(json \<Rightarrow> string) \<Rightarrow> os \<Rightarrow> env \<Rightarrow> time \<Rightarrow> nat \<Rightarrow> wake list \<Rightarrow> background \<Rightarrow> (background \<times> string list) result" where
  "enqueue_loop str os e now n [] b = Inr (b, [])"
| "enqueue_loop str os e now n (w # ws) b =
     andThen (enqueue_one str os (sub_env e n) now w b) (\<lambda>(b, made).
     andThen (enqueue_loop str os e now (Suc n) ws b) (\<lambda>(b, ids).
     Inr (b, (case made of None \<Rightarrow> ids | Some gid \<Rightarrow> gid # ids))))"

definition due_wakes :: "time \<Rightarrow> background \<Rightarrow> wake list" where
  "due_wakes now b = sort_key wk_due (filter (\<lambda>w. wk_enabled w \<and> wk_due w \<le> now) (bg_wakes b))"

definition enqueue_due :: "(json \<Rightarrow> string) \<Rightarrow> os \<Rightarrow> env \<Rightarrow> background \<Rightarrow> (background \<times> string list) result" where
  "enqueue_due str os e b = enqueue_loop str os e (clk e 0) 1 (due_wakes (clk e 0) b) b"

text \<open>The list a client sees: schedules of a project with the state of their goal.\<close>

definition list_wakes :: "os \<Rightarrow> string option \<Rightarrow> background \<Rightarrow> (wake \<times> string option) list" where
  "list_wakes os workspace b =
     map (\<lambda>w. (w, if opt_or (wk_goal w) [] = [] then None
                  else Some (case fetchone (filter (\<lambda>g. Some (gl_id g) = wk_goal w) (goals (bg_ledger b))) of
                               None \<Rightarrow> ''missing'' | Some g \<Rightarrow> show_goal_state (gl_state g))))
       (filter (\<lambda>w. opt_or workspace [] = [] \<or> workspace_key os (sp_workspace (wk_spec w)) = workspace_key os (the workspace))
         (take 200 (sort_key wk_due (bg_wakes b))))"

section \<open>Every operation in any order\<close>

inductive background_step ::
  "(json \<Rightarrow> string) \<Rightarrow> os \<Rightarrow> (string \<Rightarrow> string \<Rightarrow> output_file option) \<Rightarrow> (cycle_checkpoint \<Rightarrow> json) \<Rightarrow> background \<Rightarrow> background \<Rightarrow> bool"
  for str os current enc where
  bs_ledger: "goal_step str os current enc (bg_ledger b) db \<Longrightarrow> background_step str os current enc b (b\<lparr>bg_ledger := db\<rparr>)"
| bs_add: "add_wake str os e v b = Inr (b', wid) \<Longrightarrow> background_step str os current enc b b'"
| bs_enable: "enable_wake wid enabled b = Inr b' \<Longrightarrow> background_step str os current enc b b'"
| bs_wakes: "enqueue_due str os e b = Inr (b', ids) \<Longrightarrow> background_step str os current enc b b'"

inductive_cases background_stepE: "background_step str os current enc b b'"

section \<open>The invariant\<close>

text \<open>A schedule reads only, without a browser, within its allowance, and knows the goal of its last wake.\<close>

definition wake_ok :: "wake \<Rightarrow> bool" where
  "wake_ok w \<longleftrightarrow> 0 \<le> wk_runs w \<and> wk_runs w \<le> wk_max w \<and> wk_max w \<le> 100 \<and> sp_sandbox (wk_spec w) = ''read-only'' \<and>
     op_origins (sp_options (wk_spec w)) = [] \<and> wk_goal w = (if wk_runs w = 0 then None else Some (wake_identity w (wk_runs w)))"

definition wakes_ok :: "wake list \<Rightarrow> bool" where
  "wakes_ok ws \<longleftrightarrow> distinct (map wk_id ws) \<and> (\<forall>w \<in> set ws. wake_ok w)"

lemma set_wakes_ledger [simp]: "bg_ledger (set_wakes wid f b) = bg_ledger b"
  by (simp add: set_wakes_def)

lemma set_wakes_ok:
  assumes "wakes_ok (bg_wakes b)" and "\<And>w. wk_id (f w) = wk_id w"
    and "\<And>w. w \<in> set (bg_wakes b) \<Longrightarrow> wk_id w = wid \<Longrightarrow> wake_ok w \<Longrightarrow> wake_ok (f w)"
  shows "wakes_ok (bg_wakes (set_wakes wid f b))"
  using assms by (auto simp: wakes_ok_def set_wakes_def map_upd in_upd)

lemma enqueue_one_cases:
  assumes "enqueue_one str os e now w b = Inr (b', made)"
  shows "(made = None \<and> bg_ledger b' = bg_ledger b \<and>
      (b' = set_wakes (wk_id w) (\<lambda>x. x\<lparr>wk_enabled := False, wk_detail := ''Wake allowance exhausted''\<rparr>) b \<or>
       b' = set_wakes (wk_id w) (\<lambda>x. x\<lparr>wk_detail := ''Waiting for prior goal acceptance; no automatic replay''\<rparr>) b)) \<or>
    (\<exists>db i. made = Some (wake_identity w (wk_runs w + 1)) \<and> wk_runs w < wk_max w \<and> prior_completed w (bg_ledger b) \<and>
       create_goal str os e (wake_request (wake_identity w (wk_runs w + 1)) (wk_spec w)) (bg_ledger b) = Inr (db, i) \<and> bg_ledger b' = db \<and>
       b' = set_wakes (wk_id w) (\<lambda>x. x\<lparr>wk_runs := wk_runs x + 1, wk_goal := Some (wake_identity w (wk_runs w + 1)),
              wk_due := now + seconds (wk_interval w), wk_detail := ''Goal queued in shared ledger''\<rparr>) (b\<lparr>bg_ledger := db\<rparr>))"
  using assms by (auto simp: enqueue_one_def Let_def not_le split: if_splits)

lemma wake_identity_cong: "wk_id x = wk_id w \<Longrightarrow> wake_identity x = wake_identity w"
  by (simp add: wake_identity_def fun_eq_iff)

lemma enqueue_one_ok:
  assumes run: "enqueue_one str os e now w b = Inr (b', made)" and ok: "wakes_ok (bg_wakes b)" and mem: "w \<in> set (bg_wakes b)"
  shows "wakes_ok (bg_wakes b')"
proof -
  have same: "x = w" if "x \<in> set (bg_wakes b)" "wk_id x = wk_id w" for x
    using ok mem that by (auto simp: wakes_ok_def distinct_map inj_on_def)
  from enqueue_one_cases [OF run] show ?thesis
  proof (elim disjE conjE exE)
    fix db i assume lt: "wk_runs w < wk_max w"
      and b': "b' = set_wakes (wk_id w) (\<lambda>x. x\<lparr>wk_runs := wk_runs x + 1, wk_goal := Some (wake_identity w (wk_runs w + 1)),
              wk_due := now + seconds (wk_interval w), wk_detail := ''Goal queued in shared ledger''\<rparr>) (b\<lparr>bg_ledger := db\<rparr>)"
    show ?thesis unfolding b'
    proof (rule set_wakes_ok)
      fix x assume "x \<in> set (bg_wakes (b\<lparr>bg_ledger := db\<rparr>))" "wk_id x = wk_id w" "wake_ok x"
      then have "x = w" "wake_ok w" using same by auto
      then show "wake_ok (x\<lparr>wk_runs := wk_runs x + 1, wk_goal := Some (wake_identity w (wk_runs w + 1)),
              wk_due := now + seconds (wk_interval w), wk_detail := ''Goal queued in shared ledger''\<rparr>)"
        using lt by (auto simp: wake_ok_def wake_identity_def)
    qed (use ok in auto)
  qed (auto intro!: set_wakes_ok [OF ok] simp: wake_ok_def wake_identity_def)
qed

end
