(* ===== verification/BackgroundProps.thy ===== *)
theory BackgroundProps
  imports Background GoalProps
begin

text \<open>The property of the recurring wakes (\<open>src/smara/native_background.py\<close>).\<close>

section \<open>The goal of a wake\<close>

lemma wake_field [simp]:
  "map_of (wake_request gid sp) ''sandbox'' = Some (JStr (sp_sandbox sp))"
  "map_of (wake_request gid sp) ''identity'' = Some (JStr gid)"
  "map_of (wake_request gid sp) ''options'' = Some (JObj (options_fields (sp_options sp)))"
  by (simp_all add: wake_request_def spec_fields_def)

lemma wake_spec:
  assumes "goal_spec str os (wake_request gid sp) = Inr sp'"
  shows "sp_sandbox sp' = sp_sandbox sp \<and> (op_origins (sp_options sp) = [] \<longrightarrow> op_origins (sp_options sp') = [])"
proof -
  obtain sandbox opts where parts:
    "spec_choice ''sandbox'' ''read-only'' [''read-only'', ''workspace-write''] ''Choose read-only or project editing access'' (wake_request gid sp) = Inr sandbox"
    "project_options os (let x = field ''options'' JNull (wake_request gid sp) in if truth x then x else JObj []) = Inr opts"
    "sp_sandbox sp' = sandbox" "sp_options sp' = opts"
    using assms by (auto simp: goal_spec_def)
  have "sandbox = sp_sandbox sp" using parts(1) by (simp add: spec_choice_def field_def split: if_splits)
  moreover have "op_origins opts = []" if "op_origins (sp_options sp) = []"
    using parts(2) that by (auto simp: field_def options_fields_def project_options_def spec_origins_def)
  ultimately show ?thesis using parts(3,4) by simp
qed

lemma wake_created:
  assumes "create_goal str os e (wake_request gid sp) db = Inr (db', i)" and "sp_sandbox sp = ''read-only''" and "op_origins (sp_options sp) = []"
    and "gid \<noteq> []"
  shows "set (goals db) \<subseteq> set (goals db') \<and>
    (\<exists>g \<in> set (goals db'). gl_id g = gid \<and> sp_sandbox (gl_spec g) = ''read-only'' \<and> op_origins (sp_options (gl_spec g)) = [])"
proof -
  obtain sp' i' where sp': "goal_spec str os (wake_request gid sp) = Inr sp'" "goal_identity e (wake_request gid sp) = Inr i'"
    using assms(1) by (auto simp: create_goal_def)
  have i': "i' = gid" using sp'(2) assms(4) by (auto simp: goal_identity_def field_def Let_def split: if_splits)
  have ok: "sp_sandbox sp' = ''read-only''" "op_origins (sp_options sp') = []" using wake_spec [OF sp'(1)] assms(2,3) by simp_all
  show ?thesis
  proof (cases "fetchone (filter (\<lambda>g. gl_id g = gid) (goals db))")
    case None
    then show ?thesis using assms(1) sp' i' ok by (auto simp: create_goal_def goal_event_row_def new_goal_def Let_def)
  next
    case (Some g)
    then have "g \<in> set (goals db)" "gl_id g = gid" by (auto dest: fetchone_SomeD)
    moreover have "gl_spec g = sp'" "db' = db" using assms(1) sp' i' Some by (auto simp: create_goal_def split: if_splits)
    ultimately show ?thesis using ok by auto
  qed
qed

section \<open>A round\<close>

text \<open>What a created goal says of the schedule it was created for; \<open>gs\<close> are the goals before, \<open>gs'\<close> those after.\<close>

definition woken :: "goal list \<Rightarrow> goal list \<Rightarrow> wake \<Rightarrow> string \<Rightarrow> bool" where
  "woken gs gs' w gid \<longleftrightarrow>
     wk_runs w < wk_max w \<and> gid = wake_identity w (wk_runs w + 1) \<and>
     (opt_or (wk_goal w) [] = [] \<or> (\<exists>g \<in> set gs. Some (gl_id g) = wk_goal w \<and> gl_state g = G_Completed)) \<and>
     (\<exists>g \<in> set gs'. gl_id g = gid \<and> sp_sandbox (gl_spec g) = ''read-only'' \<and> op_origins (sp_options (gl_spec g)) = [])"

lemma woken_mono: "woken gs gs' w gid \<Longrightarrow> completed_before gs0 gs \<Longrightarrow> set gs' \<subseteq> set gs2 \<Longrightarrow> woken gs0 gs2 w gid"
  unfolding woken_def completed_before_def by (metis subsetD)

lemma prior_goal:
  assumes "prior_completed w db"
  shows "opt_or (wk_goal w) [] = [] \<or> (\<exists>g \<in> set (goals db). Some (gl_id g) = wk_goal w \<and> gl_state g = G_Completed)"
  using assms by (auto simp: prior_completed_def dest!: fetchone_SomeD split: option.splits)

lemma enqueue_one_woken:
  assumes run: "enqueue_one str os e now w b = Inr (b', made)" and ok: "wake_ok w"
  shows "completed_before (goals (bg_ledger b)) (goals (bg_ledger b')) \<and> set (goals (bg_ledger b)) \<subseteq> set (goals (bg_ledger b')) \<and>
    (case made of None \<Rightarrow> True | Some gid \<Rightarrow> woken (goals (bg_ledger b)) (goals (bg_ledger b')) w gid)"
  using enqueue_one_cases [OF run]
proof (elim disjE conjE exE)
  fix db i assume made: "made = Some (wake_identity w (wk_runs w + 1))" and lt: "wk_runs w < wk_max w" and prior: "prior_completed w (bg_ledger b)"
    and create: "create_goal str os e (wake_request (wake_identity w (wk_runs w + 1)) (wk_spec w)) (bg_ledger b) = Inr (db, i)" and db: "bg_ledger b' = db"
  have "wake_identity w (wk_runs w + 1) \<noteq> []" by (simp add: wake_identity_def)
  from wake_created [OF create _ _ this] ok user_action_completed(1) [OF create] prior_goal [OF prior] lt
  show ?thesis unfolding db made woken_def by (auto simp: wake_ok_def)
qed auto

lemma enqueue_one_keeps:
  assumes run: "enqueue_one str os e now w b = Inr (b', made)" and "x \<in> set (bg_wakes b)" and "wk_id x \<noteq> wk_id w"
  shows "x \<in> set (bg_wakes b')"
proof -
  have keep: "x \<in> set (bg_wakes (set_wakes (wk_id w) f (b\<lparr>bg_ledger := db\<rparr>)))" "x \<in> set (bg_wakes (set_wakes (wk_id w) f b))" for f db
    using assms(2,3) by (auto simp: set_wakes_def in_upd)
  show ?thesis using enqueue_one_cases [OF run] by (elim disjE conjE exE) (simp_all add: keep)
qed

lemma enqueue_loop_ok:
  assumes "enqueue_loop str os e now n ws b = Inr (b', ids)" and "wakes_ok (bg_wakes b)" and "set ws \<subseteq> set (bg_wakes b)" and "distinct (map wk_id ws)"
  shows "wakes_ok (bg_wakes b') \<and> completed_before (goals (bg_ledger b)) (goals (bg_ledger b')) \<and>
    set (goals (bg_ledger b)) \<subseteq> set (goals (bg_ledger b')) \<and>
    (\<forall>gid \<in> set ids. \<exists>w \<in> set ws. woken (goals (bg_ledger b)) (goals (bg_ledger b')) w gid)"
  using assms
proof (induction ws arbitrary: n b b' ids)
  case (Cons w ws)
  then obtain b1 made ids1 where one: "enqueue_one str os (sub_env e n) now w b = Inr (b1, made)"
    and rest: "enqueue_loop str os e now (Suc n) ws b1 = Inr (b', ids1)" and ids: "ids = (case made of None \<Rightarrow> ids1 | Some gid \<Rightarrow> gid # ids1)"
    by auto
  have w: "w \<in> set (bg_wakes b)" "wake_ok w" using Cons.prems by (auto simp: wakes_ok_def)
  have "set ws \<subseteq> set (bg_wakes b1)" 
  proof
    fix x assume "x \<in> set ws"
    with Cons.prems(3,4) have "x \<in> set (bg_wakes b)" "wk_id x \<noteq> wk_id w" by (auto simp: image_iff)
    then show "x \<in> set (bg_wakes b1)" by (rule enqueue_one_keeps [OF one])
  qed
  from Cons.IH [OF rest enqueue_one_ok [OF one Cons.prems(2) w(1)] this] Cons.prems(4)
  have later: "wakes_ok (bg_wakes b')" "completed_before (goals (bg_ledger b1)) (goals (bg_ledger b'))"
    "set (goals (bg_ledger b1)) \<subseteq> set (goals (bg_ledger b'))"
    "\<And>gid. gid \<in> set ids1 \<Longrightarrow> \<exists>w \<in> set ws. woken (goals (bg_ledger b1)) (goals (bg_ledger b')) w gid" by auto
  from enqueue_one_woken [OF one w(2)] have now: "completed_before (goals (bg_ledger b)) (goals (bg_ledger b1))"
    "set (goals (bg_ledger b)) \<subseteq> set (goals (bg_ledger b1))"
    "\<And>gid. made = Some gid \<Longrightarrow> woken (goals (bg_ledger b)) (goals (bg_ledger b1)) w gid" by auto
  have "\<exists>w \<in> set (w # ws). woken (goals (bg_ledger b)) (goals (bg_ledger b')) w gid" if "gid \<in> set ids" for gid
  proof (cases "made = Some gid")
    case True
    from woken_mono [OF now(3) [OF True] completed_refl later(3)] show ?thesis by simp
  next
    case False
    then have "gid \<in> set ids1" using that ids by (auto split: option.splits)
    with later(4) obtain w' where "w' \<in> set ws" "woken (goals (bg_ledger b1)) (goals (bg_ledger b')) w' gid" by blast
    then show ?thesis using woken_mono [OF _ now(1) subset_refl] by auto
  qed
  then show ?case using later(1) completed_trans [OF now(1) later(2)] now(2) later(3) by blast
qed simp

lemma due_wakes_sub: "set (due_wakes now b) \<subseteq> set (bg_wakes b)" "wakes_ok (bg_wakes b) \<Longrightarrow> distinct (map wk_id (due_wakes now b))"
  by (auto simp: due_wakes_def wakes_ok_def distinct_map intro: inj_on_subset)

lemmas enqueue_due_ok = enqueue_loop_ok [OF _ _ due_wakes_sub(1) due_wakes_sub(2)]

section \<open>The machine\<close>

lemma add_wake_ok: "add_wake str os e v b = Inr (b', wid) \<Longrightarrow> wakes_ok (bg_wakes b) \<Longrightarrow> wakes_ok (bg_wakes b') \<and> bg_ledger b' = bg_ledger b"
  by (auto simp: add_wake_def wakes_ok_def wake_ok_def image_iff split: json.splits if_splits)

lemma enable_wake_ok: "enable_wake wid enabled b = Inr b' \<Longrightarrow> wakes_ok (bg_wakes b) \<Longrightarrow> wakes_ok (bg_wakes b') \<and> bg_ledger b' = bg_ledger b"
  by (auto simp: enable_wake_def wake_ok_def wake_identity_def intro!: set_wakes_ok split: option.splits if_splits)

interpretation background_machine: inductive_invariant "background_step str os current enc" no_background "\<lambda>b. wakes_ok (bg_wakes b)"
proof
  show "wakes_ok (bg_wakes no_background)" by (simp add: no_background_def wakes_ok_def)
  fix b b' assume "wakes_ok (bg_wakes b)" "background_step str os current enc b b'"
  then show "wakes_ok (bg_wakes b')"
    by (elim background_stepE) (auto simp: enqueue_due_def dest: add_wake_ok enable_wake_ok enqueue_due_ok)
qed

section \<open>The property\<close>

text \<open>C21: a recurring wake waits for the acceptance of its last goal. Whatever was done with schedules and goals before,
  each goal a round of wakes creates belongs to an enabled schedule that is due and has wakes left (at most a hundred),
  is the next one of it, and the schedule's previous goal was completed, which only the user's acceptance does; the new
  goal is in the ledger, read-only and without browser sites.\<close>

theorem wakes_wait_for_acceptance:
  assumes "reach (background_step str os current enc) no_background b" and "enqueue_due str os e b = Inr (b', ids)" and "gid \<in> set ids"
  shows "\<exists>w \<in> set (bg_wakes b). wk_enabled w \<and> wk_due w \<le> clk e 0 \<and> wk_runs w < wk_max w \<and> wk_max w \<le> 100 \<and>
    gid = wake_identity w (wk_runs w + 1) \<and>
    (wk_runs w = 0 \<or> (\<exists>g \<in> set (goals (bg_ledger b)). gl_id g = wake_identity w (wk_runs w) \<and> gl_state g = G_Completed)) \<and>
    (\<exists>g \<in> set (goals (bg_ledger b')). gl_id g = gid \<and> sp_sandbox (gl_spec g) = ''read-only'' \<and> op_origins (sp_options (gl_spec g)) = [])"
proof -
  have ok: "wakes_ok (bg_wakes b)" by (rule background_machine.inv_reach [OF assms(1)])
  from enqueue_due_ok [OF assms(2) [unfolded enqueue_due_def] ok ok] assms(3)
  obtain w where w: "w \<in> set (due_wakes (clk e 0) b)" "woken (goals (bg_ledger b)) (goals (bg_ledger b')) w gid" by blast
  then have "w \<in> set (bg_wakes b)" "wk_enabled w" "wk_due w \<le> clk e 0" by (auto simp: due_wakes_def)
  moreover have "wake_ok w" using ok calculation(1) by (simp add: wakes_ok_def)
  moreover have "opt_or (Some (wake_identity w n)) [] \<noteq> []" for n by (simp add: wake_identity_def)
  ultimately show ?thesis using w(2) unfolding woken_def wake_ok_def by (intro bexI [of _ w]) (auto split: if_splits)
qed

section \<open>An example\<close>

definition ex_wake :: wake where
  "ex_wake = \<lparr>wk_id = ''id0'', wk_name = ''Nightly'', wk_spec = ex_goal_spec, wk_enabled = True, wk_due = 10, wk_interval = 3600, wk_max = 2,
     wk_runs = 0, wk_goal = None, wk_detail = ''Waiting for next wake / prior result review''\<rparr>"

definition ex_background :: background where
  "ex_background = \<lparr>bg_ledger = no_goals, bg_wakes = [ex_wake]\<rparr>"

lemma ex_wake_added:
  "add_wake (\<lambda>_. []) ex_os (ex_goal_env 10) [(''name'', JStr ''Nightly''), (''max_runs'', JNum 2), (''spec'', JObj ex_goal_request)] no_background
     = Inr (no_background\<lparr>bg_wakes := [ex_wake\<lparr>wk_enabled := False, wk_detail := ''Paused until explicitly enabled''\<rparr>]\<rparr>, ''id0'')"
proof -
  have "strip ''Nightly'' = ''Nightly''" "concat (map show_nat [0]) = ''0''" by code_simp+
  moreover have "sp_sandbox ex_goal_spec = ''read-only''" "op_origins (sp_options ex_goal_spec) = []" by (simp_all add: ex_goal_spec_def)
  ultimately show ?thesis
    by (simp add: add_wake_def field_def wake_document_def ex_goal_spec no_background_def ex_goal_env_def ex_wake_def)
qed

lemma ex_background_reach: "reach (background_step (\<lambda>_. []) ex_os current enc) no_background ex_background"
proof -
  have "enable_wake ''id0'' True (no_background\<lparr>bg_wakes := [ex_wake\<lparr>wk_enabled := False, wk_detail := ''Paused until explicitly enabled''\<rparr>]\<rparr>)
      = Inr ex_background"
    by (simp add: enable_wake_def ex_wake_def set_wakes_def no_background_def ex_background_def)
  then show ?thesis
    by (rule reach.more [where step = "background_step (\<lambda>_. []) ex_os current enc",
          OF reach.more [where step = "background_step (\<lambda>_. []) ex_os current enc", OF reach.start bs_add [OF ex_wake_added]] bs_enable])
qed

lemma ex_wake_spec: "goal_spec (\<lambda>_. []) ex_os (wake_request gid ex_goal_spec) = Inr ex_goal_spec"
proof -
  have strips: "strip ''Fix it'' = ''Fix it''" "strip ''It runs'' = ''It runs''" "strip ''main'' = ''main''" by code_simp+
  show ?thesis
    by (simp add: goal_spec_def wake_request_def spec_fields_def options_fields_def ex_goal_spec_def ex_os_def project_folder_def workspace_text_def
        field_def spec_text_def spec_choice_def kinds_def spec_thread_def spec_requirements_def spec_int_def spec_sensitive_def
        spec_allowance_def spec_budgets_def project_options_def option_flag_def spec_origins_def starts_with_def strips Let_def)
qed

lemma ex_woken: "\<exists>b'. enqueue_due (\<lambda>_. []) ex_os (ex_goal_env 20) ex_background = Inr (b', [''wakeid01''])"
proof -
  have gid: "wake_identity ex_wake (wk_runs ex_wake + 1) = ''wakeid01''" by code_simp
  have sp: "wk_spec ex_wake = ex_goal_spec" by (simp add: ex_wake_def)
  have "goal_identity e (wake_request ''wakeid01'' ex_goal_spec) = Inr ''wakeid01''" for e
    by (simp add: goal_identity_def field_def ascii_alnum_def)
  then obtain db where created: "create_goal (\<lambda>_. []) ex_os (sub_env (ex_goal_env 20) 1) (wake_request ''wakeid01'' ex_goal_spec) no_goals = Inr (db, ''wakeid01'')"
    by (auto simp: create_goal_def ex_wake_spec no_goals_def Let_def)
  have due: "due_wakes (clk (ex_goal_env 20) 0) ex_background = [ex_wake]"
    by (simp add: due_wakes_def ex_background_def ex_goal_env_def) (simp add: ex_wake_def)
  have "\<not> wk_runs ex_wake \<ge> wk_max ex_wake" "prior_completed ex_wake no_goals" by (simp_all add: ex_wake_def prior_completed_def)
  then show ?thesis using created
    by (simp add: enqueue_due_def due enqueue_one_def gid sp) (simp add: ex_background_def Let_def)
qed

definition ex_woken_background :: background where
  "ex_woken_background = fst (projr (enqueue_due (\<lambda>_. []) ex_os (ex_goal_env 20) ex_background))"

theorem wakes_wait_for_acceptance_witness:
  "\<exists>g. g \<in> set (goals (bg_ledger ex_woken_background)) \<and> gl_id g = ''wakeid01'' \<and> sp_sandbox (gl_spec g) = ''read-only''"
proof -
  have "enqueue_due (\<lambda>_. []) ex_os (ex_goal_env 20) ex_background = Inr (ex_woken_background, [''wakeid01''])"
    using ex_woken by (auto simp: ex_woken_background_def)
  from wakes_wait_for_acceptance [OF ex_background_reach this, of "''wakeid01''"] show ?thesis by auto
qed

end
