(* ===== verification/Harness.thy ===== *)
theory Harness
  imports Prelude "HOL-Library.AList"
begin

text \<open>
  \<open>src/smara/harness.py\<close> (\<open>SessionEngine\<close>) and \<open>progress.py\<close>: the durable journal of an agent's run. Calls are
  admitted before they run and completed after; budgets are kept in the same database. The state table is a
  record with one field per key. The executor of a call, the workspace \<open>'w\<close> with its revision, the running
  processes, the checks of the output contract and of research, and the text of a stored receipt are parameters; so are the fresh names of reservations; of a result the fields the engine
  reads are kept. Artifacts are named by their content and left out; so is the continuation written by
  \<open>checkpoint\<close>. Every statement commits on its own, so an exception keeps what was written before it.
\<close>

section \<open>Budgets and results\<close>

record budget =
  bd_wall :: time
  bd_tools :: int
  bd_models :: int
  bd_tokens :: int
  bd_dollars :: rat

definition valid_budget :: "budget \<Rightarrow> bool" where
  "valid_budget b \<longleftrightarrow> 0 < bd_wall b \<and> 0 \<le> bd_tools b \<and> 0 \<le> bd_models b \<and> 0 \<le> bd_tokens b \<and> 0 \<le> bd_dollars b"

record usage =
  us_tools :: int
  us_models :: int
  us_tokens :: int
  us_dollars :: rat

definition no_usage :: usage where
  "no_usage = \<lparr>us_tools = 0, us_models = 0, us_tokens = 0, us_dollars = 0\<rparr>"

record receipt =
  rx_call :: string
  rx_status :: string
  rx_text :: string
  rx_exit :: "int option"
  rx_after :: "string option"
  rx_error :: "string option"
  rx_scope :: string

definition receipt_ok :: "receipt \<Rightarrow> bool" where
  "receipt_ok r \<longleftrightarrow> rx_status r = ''ok'' \<and> rx_exit r \<in> {None, Some 0}"

definition error_receipt :: "string \<Rightarrow> string \<Rightarrow> string \<Rightarrow> string option \<Rightarrow> receipt" where
  "error_receipt cid msg kind after =
     \<lparr>rx_call = cid, rx_status = ''error'', rx_text = msg, rx_exit = None, rx_after = after, rx_error = Some kind, rx_scope = ''none''\<rparr>"

datatype call_state = Call_Pending | Call_Admitted | Call_Completed

record call_row =
  cl_id :: string
  cl_position :: nat
  cl_name :: string
  cl_args :: json
  cl_workspace :: string
  cl_mutating :: bool
  cl_state :: call_state
  cl_result :: "receipt option"
  cl_before :: "string option"
  cl_after :: "string option"

record proof_row =
  pf_call :: string
  pf_scope :: string
  pf_revision :: string
  pf_passed :: bool

record progress_record =
  pg_print :: string
  pg_call :: string
  pg_tool :: string
  pg_revision :: string
  pg_hash :: string
  pg_passed :: bool
  pg_material :: bool
  pg_reason :: string

record run_result =
  rr_status :: string
  rr_answer :: string
  rr_receipts :: "receipt list"
  rr_usage :: usage
  rr_unresolved :: "string list"

text \<open>The events, with what their payloads hold.\<close>

datatype journal_event =
    Ev_Started string
  | Ev_Paused
  | Ev_Resumed
  | Ev_Cancel
  | Ev_Admitted string string
  | Ev_Result receipt
  | Ev_Evidence proof_row
  | Ev_Reused string string nat string
  | Ev_Progress progress_record "string option" string
  | Ev_Stall string string string
  | Ev_Exhausted
  | Ev_Interrupted string
  | Ev_Finished string "string list"
  | Ev_Provider_Request string int
  | Ev_Provider_Retry string int rat
  | Ev_Provider_Response string "string option" string "int option" int
  | Ev_Child_Reserved string budget int
  | Ev_Child_Reconciled string usage

record reservation =
  rs_tokens :: int
  rs_dollars :: rat
  rs_attempts :: int

record child =
  ch_budget :: budget
  ch_depth :: int
  ch_usage :: "usage option"

record session =
  sx_request :: "string option"
  sx_started :: "time option"
  sx_paused :: time
  sx_paused_at :: "time option"
  sx_usage :: usage
  sx_budget :: "budget option"
  sx_cancelled :: bool
  sx_web :: bool
  sx_full :: bool
  sx_calls :: "call_row list"
  sx_evidence :: "proof_row list"
  sx_events :: "journal_event list"
  sx_models :: "(string \<times> reservation) list"
  sx_children :: "(string \<times> child) list"
  sx_cache :: "(string \<times> receipt) list"
  sx_reuse :: "(string \<times> nat) list"
  sx_window :: "progress_record list"
  sx_result :: "run_result option"

definition new_session :: session where
  "new_session = \<lparr>sx_request = None, sx_started = None, sx_paused = 0, sx_paused_at = None, sx_usage = no_usage, sx_budget = None,
     sx_cancelled = False, sx_web = False, sx_full = False, sx_calls = [], sx_evidence = [], sx_events = [], sx_models = [], sx_children = [],
     sx_cache = [], sx_reuse = [], sx_window = [], sx_result = None\<rparr>"

definition log_event :: "journal_event \<Rightarrow> session \<Rightarrow> session" where
  "log_event x s = s\<lparr>sx_events := sx_events s @ [x]\<rparr>"

section \<open>The engine\<close>

record tool_call =
  tc_id :: string
  tc_name :: string
  tc_args :: json
  tc_workspace :: string

text \<open>How a call ends; \<open>Broken_Off\<close> is a \<open>KeyboardInterrupt\<close>, \<open>Died\<close> the end of the process.\<close>

datatype run_end = Returned receipt | Wrong_Result | Failed_With string string | Broken_Off | Died

record 'w engine =
  en_budget :: budget
  en_workspace :: string
  en_session :: string
  en_revision :: "'w \<Rightarrow> string"
  en_exec :: "tool_call \<Rightarrow> 'w \<Rightarrow> 'w \<times> bool \<times> run_end"
  en_print :: "string \<Rightarrow> json \<Rightarrow> string \<Rightarrow> string"
  en_hash :: "string \<Rightarrow> string"
  en_open :: "'w \<Rightarrow> string list"
  en_contract :: "string \<Rightarrow> 'w \<Rightarrow> string list \<times> bool"
  en_research :: "string \<Rightarrow> 'w \<Rightarrow> string list"

datatype harness_stop = Over_Budget string | Stop_Raised py_error | Stop_Executor

type_synonym 'a harness_result = "harness_stop + 'a"

definition mutating_tools :: "string list" where
  "mutating_tools = [''write_file'', ''patch_file'', ''run_process'', ''process_start'', ''process_write'', ''process_stdin'']"

definition verify_scopes :: "string list" where
  "verify_scopes = [''syntax'', ''focused'', ''full'']"

definition reusable_reads :: "string list" where
  "reusable_reads = [''read_file'', ''file_read'', ''list_directory'', ''search_files'', ''code_graph'', ''pdf_search'', ''skills_list'', ''skill_view'']"

definition web_only_tools :: "string list" where
  "web_only_tools = [''research_plan'', ''research_search'', ''research_fetch'', ''research_inspect'', ''research_gather'', ''research_analyze'',
     ''research_resolve'', ''research_validate'', ''research_report'']"

definition current_revision :: "'w engine \<Rightarrow> session \<Rightarrow> 'w \<Rightarrow> string" where
  "current_revision E s w =
     (if sx_web s \<and> \<not> sx_full s \<and> list_all (\<lambda>c. cl_name c \<in> set web_only_tools) (sx_calls s) then ''web-only:no-workspace-files''
      else en_revision E w)"

definition elapsed_wall :: "time \<Rightarrow> session \<Rightarrow> time" where
  "elapsed_wall now s =
     max 0 ((case sx_paused_at s of None \<Rightarrow> now | Some t \<Rightarrow> t) - (case sx_started s of None \<Rightarrow> now | Some t \<Rightarrow> t) - sx_paused s)"

definition budget_of :: "'w engine \<Rightarrow> session \<Rightarrow> budget" where
  "budget_of E s = (case sx_budget s of None \<Rightarrow> en_budget E | Some b \<Rightarrow> b)"

definition pause_session :: "time \<Rightarrow> session \<Rightarrow> session" where
  "pause_session now s = (if sx_paused_at s = None then log_event Ev_Paused (s\<lparr>sx_paused_at := Some now\<rparr>) else s)"

definition resume_clock :: "time \<Rightarrow> session \<Rightarrow> session" where
  "resume_clock now s =
     (case sx_paused_at s of
        None \<Rightarrow> s
      | Some t \<Rightarrow> log_event Ev_Resumed (s\<lparr>sx_paused := sx_paused s + max 0 (now - t), sx_paused_at := None\<rparr>))"

definition cancel_session :: "session \<Rightarrow> session" where
  "cancel_session s = log_event Ev_Cancel (s\<lparr>sx_cancelled := True\<rparr>)"

definition start_fields :: "'w engine \<Rightarrow> time \<Rightarrow> string \<Rightarrow> session \<Rightarrow> session" where
  "start_fields E now request s =
     log_event (Ev_Started request)
       (s\<lparr>sx_request := Some request, sx_started := Some now, sx_paused := 0, sx_paused_at := None, sx_usage := no_usage,
          sx_budget := Some (en_budget E)\<rparr>)"

definition begin_incremental :: "'w engine \<Rightarrow> time \<Rightarrow> string \<Rightarrow> session \<Rightarrow> session \<times> unit harness_result" where
  "begin_incremental E now request s =
     (case sx_request s of
        None \<Rightarrow> (start_fields E now request s, Inr ())
      | Some r \<Rightarrow> (s, if r = request then Inr () else Inl (Stop_Raised (ValueError ''session objective does not match persisted request''))))"

section \<open>A planned run\<close>

record planned =
  pc_id :: "string option"
  pc_name :: string
  pc_args :: json
  pc_workspace :: "string option"

definition plan_row :: "'w engine \<Rightarrow> nat \<Rightarrow> planned \<Rightarrow> call_row" where
  "plan_row E pos c =
     \<lparr>cl_id = opt_or (pc_id c) (en_session E @ ''-'' @ show_nat pos), cl_position = pos, cl_name = pc_name c,
      cl_args = (case pc_args c of JObj kvs \<Rightarrow> JObj kvs | v \<Rightarrow> JObj [(''__invalid__'', v)]), cl_workspace = opt_or (pc_workspace c) (en_workspace E),
      cl_mutating = (pc_name c \<in> set mutating_tools \<or> pc_name c = ''agent_turn''), cl_state = Call_Pending, cl_result = None,
      cl_before = None, cl_after = None\<rparr>"

fun insert_plan :: "'w engine \<Rightarrow> nat \<Rightarrow> planned list \<Rightarrow> session \<Rightarrow> session \<times> unit harness_result" where
  "insert_plan E pos [] s = (s, Inr ())"
| "insert_plan E pos (c # cs) s =
     (if cl_id (plan_row E pos c) \<in> cl_id ` set (sx_calls s) then (s, Inl (Stop_Raised IntegrityError))
      else insert_plan E (Suc pos) cs (s\<lparr>sx_calls := sx_calls s @ [plan_row E pos c]\<rparr>))"

definition store_plan :: "'w engine \<Rightarrow> time \<Rightarrow> string \<Rightarrow> planned list \<Rightarrow> bool \<Rightarrow> session \<Rightarrow> session \<times> unit harness_result" where
  "store_plan E now request calls resume s =
     (if resume then (s, if sx_request s = None then Inl (Stop_Raised (ValueError ''uninitialized session'')) else Inr ())
      else if sx_calls s \<noteq> [] then (s, Inl (Stop_Raised (ValueError ''session exists; resume it'')))
      else insert_plan E 0 calls (start_fields E now request s))"

definition set_call :: "string \<Rightarrow> (call_row \<Rightarrow> call_row) \<Rightarrow> session \<Rightarrow> session" where
  "set_call cid f s = s\<lparr>sx_calls := map (\<lambda>c. if cl_id c = cid then f c else c) (sx_calls s)\<rparr>"

definition find_call :: "string \<Rightarrow> session \<Rightarrow> call_row option" where
  "find_call cid s = find (\<lambda>c. cl_id c = cid) (sx_calls s)"

definition by_position :: "session \<Rightarrow> call_row list" where
  "by_position s = sort_key cl_position (sx_calls s)"

definition finish_run :: "string \<Rightarrow> receipt list \<Rightarrow> string list \<Rightarrow> session \<Rightarrow> session \<times> run_result" where
  "finish_run status receipts unresolved s =
     (let answers = map rx_text (List.map_filter cl_result (filter (\<lambda>c. cl_name c = ''agent_turn'') (by_position s)));
          res = \<lparr>rr_status = status, rr_answer = (if answers = [] then [] else last answers), rr_receipts = receipts, rr_usage = sx_usage s,
                 rr_unresolved = unresolved\<rparr>
      in ((if sx_result s \<noteq> Some res then log_event (Ev_Finished status unresolved) else id) (s\<lparr>sx_result := Some res\<rparr>), res))"

text \<open>A call is admitted, counted and journalled before it runs.\<close>

definition admit_call :: "string \<Rightarrow> string \<Rightarrow> string \<Rightarrow> session \<Rightarrow> session" where
  "admit_call cid name before s =
     log_event (Ev_Admitted cid name)
       (set_call cid (\<lambda>c. c\<lparr>cl_state := Call_Admitted, cl_before := Some before\<rparr>)
         (s\<lparr>sx_usage := (sx_usage s)\<lparr>us_tools := us_tools (sx_usage s) + 1\<rparr>\<rparr>))"

definition complete_call :: "string \<Rightarrow> receipt \<Rightarrow> string \<Rightarrow> session \<Rightarrow> session" where
  "complete_call cid r after s =
     log_event (Ev_Result r) (set_call cid (\<lambda>c. c\<lparr>cl_state := Call_Completed, cl_result := Some r, cl_after := Some after\<rparr>) s)"

definition prove_call :: "string \<Rightarrow> receipt \<Rightarrow> string \<Rightarrow> session \<Rightarrow> session" where
  "prove_call cid r after s =
     (if rx_scope r \<in> set verify_scopes
      then (let p = \<lparr>pf_call = cid, pf_scope = rx_scope r, pf_revision = after, pf_passed = receipt_ok r\<rparr>
            in log_event (Ev_Evidence p) (s\<lparr>sx_evidence := sx_evidence s @ [p]\<rparr>))
      else s)"

definition after_revision :: "'w engine \<Rightarrow> receipt \<Rightarrow> session \<Rightarrow> 'w \<Rightarrow> string" where
  "after_revision E r s w = opt_or (rx_after r) (current_revision E s w)"

text \<open>What the run of a call does to the journal while it runs: somebody may cancel the session.\<close>

definition while_run :: "bool \<Rightarrow> session \<Rightarrow> session" where
  "while_run cancelled s = (if cancelled then cancel_session s else s)"

definition call_of_row :: "call_row \<Rightarrow> tool_call" where
  "call_of_row c = \<lparr>tc_id = cl_id c, tc_name = cl_name c, tc_args = cl_args c, tc_workspace = cl_workspace c\<rparr>"

definition mutated :: "session \<Rightarrow> bool" where
  "mutated s \<longleftrightarrow> (\<exists>c \<in> set (sx_calls s). cl_mutating c \<and> cl_state c = Call_Completed \<and> opt_or (cl_before c) [] \<noteq> opt_or (cl_after c) [])"

definition verified :: "string \<Rightarrow> session \<Rightarrow> bool" where
  "verified revision s \<longleftrightarrow> (\<exists>p \<in> set (sx_evidence s). pf_passed p \<and> pf_revision p = revision \<and> pf_scope p \<in> {''focused'', ''full''})"

definition unverified_text :: string where
  "unverified_text = ''workspace changes are unverified at current revision''"

text \<open>The receipt of a call that ran in \<open>continue_run\<close>: every exception is an error of the call.\<close>

definition receipt_of :: "'w engine \<Rightarrow> tool_call \<Rightarrow> run_end \<Rightarrow> session \<Rightarrow> 'w \<Rightarrow> receipt option" where
  "receipt_of E c out s w =
     (case out of
        Returned r \<Rightarrow> Some (if rx_call r = tc_id c then r
                       else error_receipt (tc_id c) ''TypeError: executor returned invalid ToolResult'' ''TypeError'' (Some (current_revision E s w)))
      | Wrong_Result \<Rightarrow> Some (error_receipt (tc_id c) ''TypeError: executor returned invalid ToolResult'' ''TypeError'' (Some (current_revision E s w)))
      | Failed_With kind msg \<Rightarrow> Some (error_receipt (tc_id c) (kind @ '': '' @ msg) kind (Some (current_revision E s w)))
      | _ \<Rightarrow> None)"

text \<open>One call of the plan; \<open>None\<close> goes on with the next one.\<close>

definition run_call ::
  "'w engine \<Rightarrow> time \<Rightarrow> call_row \<Rightarrow> receipt list \<Rightarrow> session \<Rightarrow> 'w \<Rightarrow> session \<times> 'w \<times> (receipt list \<times> run_result option) harness_result" where
  "run_call E now c receipts s w =
     (if cl_state c = Call_Completed
      then (s, w, Inr (case cl_result c of None \<Rightarrow> receipts | Some r \<Rightarrow> receipts @ [r], None))
      else if cl_state c = Call_Admitted \<and> cl_mutating c
      then (case finish_run ''needs_input'' receipts [''uncertain mutation: '' @ cl_id c] s of (s, res) \<Rightarrow> (s, w, Inr (receipts, Some res)))
      else
        (let s = (if cl_state c = Call_Admitted then set_call (cl_id c) (\<lambda>x. x\<lparr>cl_state := Call_Pending\<rparr>) s else s) in
         if sx_cancelled s
         then (case finish_run ''cancelled'' receipts [''cancelled by user''] s of (s, res) \<Rightarrow> (s, w, Inr (receipts, Some res)))
         else if sx_paused_at s \<noteq> None
         then (case finish_run ''interrupted'' receipts [''session is paused''] s of (s, res) \<Rightarrow> (s, w, Inr (receipts, Some res)))
         else if elapsed_wall now s \<ge> bd_wall (budget_of E s) \<or> us_tools (sx_usage s) \<ge> bd_tools (budget_of E s)
         then (case finish_run ''budget_exhausted'' receipts [''budget exhausted''] (log_event Ev_Exhausted s) of
                 (s, res) \<Rightarrow> (s, w, Inr (receipts, Some res)))
         else
           (let before = current_revision E s w; s = admit_call (cl_id c) (cl_name c) before s in
            case en_exec E (call_of_row c) w of
              (w, cancelled, out) \<Rightarrow>
                (let s = while_run cancelled s in
                 case receipt_of E (call_of_row c) out s w of
                   None \<Rightarrow> (if out = Broken_Off then log_event (Ev_Interrupted (cl_id c)) s else s, w, Inl Stop_Executor)
                 | Some r \<Rightarrow>
                     (let after = after_revision E r s w; s = prove_call (cl_id c) r after (complete_call (cl_id c) r after s);
                          receipts = receipts @ [r]
                      in if receipt_ok r then (s, w, Inr (receipts, None))
                         else (case finish_run (if rx_status r = ''denied'' then ''denied'' else if rx_status r = ''cancelled'' then ''cancelled'' else ''tool_error'')
                                      receipts [opt_or (rx_error r) (rx_status r)] s of
                                 (s, res) \<Rightarrow> (s, w, Inr (receipts, Some res))))))))"

fun run_calls ::
  "'w engine \<Rightarrow> env \<Rightarrow> nat \<Rightarrow> call_row list \<Rightarrow> receipt list \<Rightarrow> session \<Rightarrow> 'w \<Rightarrow> session \<times> 'w \<times> run_result harness_result" where
  "run_calls E e n [] receipts s w =
     (case (if mutated s \<and> \<not> verified (current_revision E s w) s then finish_run ''needs_input'' receipts [unverified_text] s
            else finish_run ''completed'' receipts [] s) of
        (s, res) \<Rightarrow> (s, w, Inr res))"
| "run_calls E e n (c # cs) receipts s w =
     (case run_call E (clk e n) c receipts s w of
        (s, w, Inl x) \<Rightarrow> (s, w, Inl x)
      | (s, w, Inr (receipts, Some res)) \<Rightarrow> (s, w, Inr res)
      | (s, w, Inr (receipts, None)) \<Rightarrow> run_calls E e (Suc n) cs receipts s w)"

definition continue_run :: "'w engine \<Rightarrow> env \<Rightarrow> session \<Rightarrow> 'w \<Rightarrow> session \<times> 'w \<times> run_result harness_result" where
  "continue_run E e s w =
     (if sx_cancelled s then (case finish_run ''cancelled'' [] [''cancelled by user''] s of (s, res) \<Rightarrow> (s, w, Inr res))
      else run_calls E e 1 (by_position s) [] s w)"

definition run_plan ::
  "'w engine \<Rightarrow> env \<Rightarrow> string \<Rightarrow> planned list \<Rightarrow> bool \<Rightarrow> session \<Rightarrow> 'w \<Rightarrow> session \<times> 'w \<times> run_result harness_result" where
  "run_plan E e request calls resume s w =
     (case store_plan E (clk e 0) request calls resume s of
        (s, Inl x) \<Rightarrow> (s, w, Inl x)
      | (s, Inr _) \<Rightarrow> continue_run E e s w)"


section \<open>Reservations\<close>

definition stopped :: "session \<Rightarrow> string option" where
  "stopped s = (if sx_cancelled s then Some ''cancelled'' else if sx_paused_at s \<noteq> None then Some ''paused'' else None)"

definition charge_model :: "int \<Rightarrow> rat \<Rightarrow> usage \<Rightarrow> usage" where
  "charge_model tokens dollars u =
     u\<lparr>us_models := us_models u + 1, us_tokens := us_tokens u + tokens, us_dollars := us_dollars u + dollars\<rparr>"

definition model_refusal :: "'w engine \<Rightarrow> time \<Rightarrow> int \<Rightarrow> rat \<Rightarrow> session \<Rightarrow> string option" where
  "model_refusal E now tokens dollars s =
     (let b = budget_of E s; u = sx_usage s in
      if stopped s \<noteq> None then stopped s
      else if elapsed_wall now s \<ge> bd_wall b then Some ''wall_seconds''
      else if us_models u + 1 > bd_models b then Some ''model_calls''
      else if us_tokens u + tokens > bd_tokens b then Some ''billed_tokens''
      else if us_dollars u + dollars > bd_dollars b then Some ''dollars''
      else None)"

definition reserve_model_call ::
  "'w engine \<Rightarrow> time \<Rightarrow> string \<Rightarrow> int \<Rightarrow> rat \<Rightarrow> session \<Rightarrow> session \<times> string harness_result" where
  "reserve_model_call E now rid estimated dollars s =
     (let tokens = max 1 estimated in
      case model_refusal E now tokens dollars s of
        Some why \<Rightarrow> (s, Inl (Over_Budget why))
      | None \<Rightarrow>
          (log_event (Ev_Provider_Request rid tokens)
            (s\<lparr>sx_usage := charge_model tokens dollars (sx_usage s),
               sx_models := AList.update rid \<lparr>rs_tokens = tokens, rs_dollars = dollars, rs_attempts = 1\<rparr> (sx_models s)\<rparr>), Inr rid))"

definition reserve_model_retry :: "'w engine \<Rightarrow> time \<Rightarrow> string \<Rightarrow> session \<Rightarrow> session \<times> unit harness_result" where
  "reserve_model_retry E now rid s =
     (case map_of (sx_models s) rid of
        None \<Rightarrow> (s, Inl (Over_Budget ''missing_retry_reservation''))
      | Some r \<Rightarrow>
          (case model_refusal E now (rs_tokens r) (rs_dollars r) s of
             Some why \<Rightarrow> (s, Inl (Over_Budget why))
           | None \<Rightarrow>
               (log_event (Ev_Provider_Retry rid (rs_attempts r + 1) (rs_dollars r))
                 (s\<lparr>sx_usage := charge_model (rs_tokens r) (rs_dollars r) (sx_usage s),
                    sx_models := AList.update rid (r\<lparr>rs_attempts := rs_attempts r + 1\<rparr>) (sx_models s)\<rparr>), Inr ())))"

definition reconcile_model_call ::
  "string \<Rightarrow> int option \<Rightarrow> string option \<Rightarrow> string \<Rightarrow> int \<Rightarrow> session \<Rightarrow> session" where
  "reconcile_model_call rid actual request status retries s =
     log_event (Ev_Provider_Response rid request status actual retries)
       (case (map_of (sx_models s) rid, actual) of
          (Some r, Some tokens) \<Rightarrow> s\<lparr>sx_usage := (sx_usage s)\<lparr>us_tokens := max 0 (us_tokens (sx_usage s) - rs_tokens r + tokens)\<rparr>\<rparr>
        | _ \<Rightarrow> s)"

definition active_children :: "session \<Rightarrow> budget list" where
  "active_children s = map ch_budget (filter (\<lambda>c. ch_usage c = None) (map snd (sx_children s)))"

definition child_refusal :: "'w engine \<Rightarrow> budget \<Rightarrow> int \<Rightarrow> int \<Rightarrow> nat \<Rightarrow> session \<Rightarrow> string option" where
  "child_refusal E b depth max_depth max_fanout s =
     (let top = budget_of E s; u = sx_usage s; act = active_children s in
      if stopped s \<noteq> None then stopped s
      else if depth > max_depth then Some ''child_depth''
      else if length act \<ge> max_fanout then Some ''child_fanout''
      else if us_tools u + sum_list (map bd_tools act) + bd_tools b > bd_tools top then Some ''child_tool_calls''
      else if us_models u + sum_list (map bd_models act) + bd_models b > bd_models top then Some ''child_model_calls''
      else if us_tokens u + sum_list (map bd_tokens act) + bd_tokens b > bd_tokens top then Some ''child_tokens''
      else if us_dollars u + sum_list (map bd_dollars act) + bd_dollars b > bd_dollars top then Some ''child_dollars''
      else None)"

definition reserve_child_budget ::
  "'w engine \<Rightarrow> string \<Rightarrow> budget \<Rightarrow> int \<Rightarrow> int \<Rightarrow> nat \<Rightarrow> session \<Rightarrow> session \<times> string harness_result" where
  "reserve_child_budget E rid b depth max_depth max_fanout s =
     (case child_refusal E b depth max_depth max_fanout s of
        Some why \<Rightarrow> (s, Inl (Over_Budget why))
      | None \<Rightarrow>
          (log_event (Ev_Child_Reserved rid b depth)
            (s\<lparr>sx_children := AList.update rid \<lparr>ch_budget = b, ch_depth = depth, ch_usage = None\<rparr> (sx_children s)\<rparr>), Inr rid))"

definition child_overrun :: "budget \<Rightarrow> usage \<Rightarrow> string option" where
  "child_overrun b u =
     (if us_tools u > bd_tools b then Some ''child_tool_calls'' else if us_models u > bd_models b then Some ''child_model_calls''
      else if us_tokens u > bd_tokens b then Some ''child_billed_tokens'' else if us_dollars u > bd_dollars b then Some ''child_dollars'' else None)"

definition add_usage :: "usage \<Rightarrow> usage \<Rightarrow> usage" where
  "add_usage u v = \<lparr>us_tools = us_tools u + us_tools v, us_models = us_models u + us_models v, us_tokens = us_tokens u + us_tokens v,
     us_dollars = us_dollars u + us_dollars v\<rparr>"

definition reconcile_child_budget :: "string \<Rightarrow> usage \<Rightarrow> session \<Rightarrow> session \<times> unit harness_result" where
  "reconcile_child_budget rid u s =
     (case map_of (sx_children s) rid of
        None \<Rightarrow> (s, Inl (Stop_Raised (ValueError ''invalid child reservation'')))
      | Some c \<Rightarrow>
          (if ch_usage c \<noteq> None then (s, Inl (Stop_Raised (ValueError ''invalid child reservation'')))
           else
             (case child_overrun (ch_budget c) u of
                Some why \<Rightarrow> (s, Inl (Over_Budget why))
              | None \<Rightarrow>
                  (log_event (Ev_Child_Reconciled rid u)
                    (s\<lparr>sx_usage := add_usage (sx_usage s) u, sx_children := AList.update rid (c\<lparr>ch_usage := Some u\<rparr>) (sx_children s)\<rparr>),
                   Inr ()))))"

section \<open>The progress guard\<close>

definition mutation_names :: "string list" where
  "mutation_names = [''write_file'', ''file_write'', ''patch_file'', ''patch'']"

definition last_n :: "nat \<Rightarrow> 'a list \<Rightarrow> 'a list" where
  "last_n n xs = drop (length xs - n) xs"

definition classify :: "progress_record list \<Rightarrow> progress_record \<Rightarrow> (string \<times> string) option" where
  "classify window current =
     (let records = window @ [current]; tail = last_n 6 records; four = last_n 4 records; revs = map pg_revision four in
      if \<not> pg_passed current \<and> length (filter (\<lambda>p. pg_print p = pg_print current) records) \<ge> 3 then Some (''stop'', ''repeated_identical_failure'')
      else if length tail \<ge> 6 \<and> card (pg_print ` set tail) = 2 \<and> \<not> (\<exists>p \<in> set tail. pg_material p) then Some (''recover'', ''alternating_call_loop'')
      else if length four = 4 \<and> (\<forall>p \<in> set four. pg_tool p \<in> set mutation_names) \<and> revs ! 0 = revs ! 2 \<and> revs ! 1 = revs ! 3 \<and> revs ! 0 \<noteq> revs ! 1
      then Some (''recover'', ''edit_revert_cycle'')
      else if length (filter (\<lambda>p. pg_tool p = ''todo'' \<and> \<not> pg_material p) four) \<ge> 4 then Some (''recover'', ''todo_churn'')
      else None)"

section \<open>One call of the agent\<close>

definition agent_writers :: "string list" where
  "agent_writers = [''patch'', ''file_write'', ''terminal'', ''python_execute'']"

definition next_position :: "session \<Rightarrow> nat" where
  "next_position s = fold max (map (\<lambda>c. Suc (cl_position c)) (sx_calls s)) 0"

definition call_row_of :: "tool_call \<Rightarrow> nat \<Rightarrow> bool \<Rightarrow> call_state \<Rightarrow> call_row" where
  "call_row_of c pos mut st =
     \<lparr>cl_id = tc_id c, cl_position = pos, cl_name = tc_name c, cl_args = tc_args c, cl_workspace = tc_workspace c, cl_mutating = mut,
      cl_state = st, cl_result = None, cl_before = None, cl_after = None\<rparr>"

definition reuse_action :: "nat \<Rightarrow> string" where
  "reuse_action n = (if n = 2 then ''strategy_change'' else if n \<ge> 3 then ''stop'' else ''cached_result'')"

definition strategy_note :: string where
  "strategy_note = (CHR 0x0A) # ''[SMARA: cached observation repeated; choose a materially different strategy.]''"

definition recover_note :: string where
  "recover_note = (CHR 0x0A) # ''[SMARA: progress stalled; make one bounded, materially different recovery attempt.]''"

definition stall_receipt :: "string \<Rightarrow> receipt \<Rightarrow> receipt" where
  "stall_receipt msg r = r\<lparr>rx_status := ''error'', rx_text := msg, rx_error := Some ''stall_detected''\<rparr>"

text \<open>A read whose receipt is in the cache: its row is inserted as completed, with the receipt's text as its revision.\<close>

definition reuse_read :: "(receipt \<Rightarrow> string) \<Rightarrow> tool_call \<Rightarrow> string \<Rightarrow> string \<Rightarrow> receipt \<Rightarrow> session \<Rightarrow> session \<times> receipt" where
  "reuse_read jtext c revision fp r s =
     (let cached = r\<lparr>rx_call := tc_id c\<rparr>;
          s = (if find_call (tc_id c) s = None
               then s\<lparr>sx_calls := sx_calls s @ [(call_row_of c (next_position s) False Call_Completed)\<lparr>cl_before := Some revision, cl_after := Some (jtext cached)\<rparr>]\<rparr>
               else s);
          n = Suc (case map_of (sx_reuse s) fp of None \<Rightarrow> 0 | Some k \<Rightarrow> k);
          act = reuse_action n;
          s = log_event (Ev_Reused (tc_id c) (rx_call r) n act) (s\<lparr>sx_reuse := AList.update fp n (sx_reuse s)\<rparr>);
          s = (if act \<noteq> ''cached_result'' then log_event (Ev_Stall (tc_id c) act ''repeated_cached_read'') s else s)
      in (s, if act = ''strategy_change'' then cached\<lparr>rx_text := rx_text cached @ strategy_note\<rparr>
             else if act = ''stop'' then stall_receipt ''Repeated unchanged read stopped after bounded recovery.'' cached
             else cached))"

definition incremental_receipt :: "tool_call \<Rightarrow> run_end \<Rightarrow> receipt option" where
  "incremental_receipt c out =
     (case out of
        Returned r \<Rightarrow> Some (if rx_call r = tc_id c then r else error_receipt (tc_id c) ''invalid executor result'' ''invalid_result'' None)
      | Wrong_Result \<Rightarrow> Some (error_receipt (tc_id c) ''invalid executor result'' ''invalid_result'' None)
      | _ \<Rightarrow> None)"

definition guard_receipt :: "tool_call \<Rightarrow> string option \<Rightarrow> receipt \<Rightarrow> receipt" where
  "guard_receipt c act r =
     (if starts_with (tc_name c) ''process_''
      then (if act = Some ''stop'' then r\<lparr>rx_status := ''error'', rx_error := Some ''stall_detected''\<rparr> else r)
      else if act = Some ''recover'' then r\<lparr>rx_text := rx_text r @ recover_note\<rparr>
      else if act = Some ''stop'' then stall_receipt ''Repeated identical failure stopped.'' r
      else r)"

definition note_progress :: "'w engine \<Rightarrow> tool_call \<Rightarrow> string \<Rightarrow> string \<Rightarrow> string \<Rightarrow> receipt \<Rightarrow> session \<Rightarrow> session \<times> string option" where
  "note_progress E c fp before after r s =
     (let proving = rx_scope r \<in> set verify_scopes;
          p = \<lparr>pg_print = fp, pg_call = tc_id c, pg_tool = tc_name c, pg_revision = after, pg_hash = en_hash E (rx_text r), pg_passed = receipt_ok r,
               pg_material = (before \<noteq> after \<or> proving),
               pg_reason = (if before \<noteq> after then ''revision_changed'' else if proving then ''evidence'' else ''observation'')\<rparr>;
          verdict = classify (sx_window s) p;
          s = log_event (Ev_Progress p (map_option fst verdict) (case verdict of None \<Rightarrow> [] | Some v \<Rightarrow> snd v))
                (s\<lparr>sx_window := last_n 12 (sx_window s @ [p])\<rparr>)
      in (case verdict of None \<Rightarrow> (s, None) | Some (act, why) \<Rightarrow> (log_event (Ev_Stall (tc_id c) act why) s, Some act)))"

text \<open>The call runs: it is admitted, its receipt and evidence are stored, a good read is cached, the progress noted.\<close>

definition perform_call ::
  "'w engine \<Rightarrow> tool_call \<Rightarrow> string \<Rightarrow> session \<Rightarrow> 'w \<Rightarrow> session \<times> 'w \<times> receipt harness_result" where
  "perform_call E c fp s w =
     (let before = current_revision E s w; s = admit_call (tc_id c) (tc_name c) before s in
      case en_exec E c w of
        (w, cancelled, out) \<Rightarrow>
          (let s = while_run cancelled s in
           case incremental_receipt c out of
             None \<Rightarrow> (s, w, Inl Stop_Executor)
           | Some r \<Rightarrow>
               (let after = after_revision E r s w; s = prove_call (tc_id c) r after (complete_call (tc_id c) r after s);
                    s = (if tc_name c \<in> set reusable_reads \<and> receipt_ok r then s\<lparr>sx_cache := AList.update fp r (sx_cache s)\<rparr> else s)
                in (case note_progress E c fp before after r s of (s, act) \<Rightarrow> (s, w, Inr (guard_receipt c act r))))))"

definition admit_new :: "'w engine \<Rightarrow> tool_call \<Rightarrow> string \<Rightarrow> session \<Rightarrow> 'w \<Rightarrow> session \<times> 'w \<times> receipt harness_result" where
  "admit_new E c fp s w =
     (if us_tools (sx_usage s) + 1 > bd_tools (budget_of E s) then (s, w, Inl (Over_Budget ''tool_calls'')) else perform_call E c fp s w)"

definition execute_incremental ::
  "'w engine \<Rightarrow> (receipt \<Rightarrow> string) \<Rightarrow> time \<Rightarrow> tool_call \<Rightarrow> session \<Rightarrow> 'w \<Rightarrow> session \<times> 'w \<times> receipt harness_result" where
  "execute_incremental E jtext now c s w =
     (let s = (if tc_name c \<in> set web_only_tools then s else s\<lparr>sx_full := True\<rparr>) in
      case stopped s of
        Some why \<Rightarrow> (s, w, Inl (Over_Budget why))
      | None \<Rightarrow>
          if elapsed_wall now s \<ge> bd_wall (budget_of E s) then (s, w, Inl (Over_Budget ''wall_seconds''))
          else
            (let revision = current_revision E s w; fp = en_print E (tc_name c) (tc_args c) revision in
             case (if tc_name c \<in> set reusable_reads then map_of (sx_cache s) fp else None) of
               Some r \<Rightarrow> (case reuse_read jtext c revision fp r s of (s, r) \<Rightarrow> (s, w, Inr r))
             | None \<Rightarrow>
                 (case find_call (tc_id c) s of
                    Some x \<Rightarrow>
                      if cl_state x = Call_Completed
                      then (s, w, case cl_result x of None \<Rightarrow> Inl (Stop_Raised TypeError) | Some r \<Rightarrow> Inr r)
                      else if cl_state x = Call_Admitted \<and> cl_mutating x
                      then (s, w, Inl (Stop_Raised (RuntimeError (''uncertain mutation: '' @ tc_id c))))
                      else admit_new E c fp s w
                  | None \<Rightarrow>
                      admit_new E c fp
                        (s\<lparr>sx_calls := sx_calls s @ [call_row_of c (next_position s)
                              (tc_name c \<in> set mutating_tools \<or> tc_name c \<in> set agent_writers) Call_Pending]\<rparr>) w)))"

section \<open>The end of the run\<close>

definition add_unresolved :: "string list \<Rightarrow> string \<times> string list \<Rightarrow> string \<times> string list" where
  "add_unresolved items r = (if fst r = ''completed'' \<and> items \<noteq> [] then (''needs_input'', snd r @ items) else r)"

definition settle_status :: "'w engine \<Rightarrow> string \<Rightarrow> string \<Rightarrow> string list \<Rightarrow> session \<Rightarrow> 'w \<Rightarrow> string \<times> string list" where
  "settle_status E status answer unresolved s w =
     (case en_contract E answer w of
        (errors, artifact_verified) \<Rightarrow>
          add_unresolved (en_research E answer w)
            (add_unresolved (if mutated s \<and> \<not> (verified (current_revision E s w) s \<or> artifact_verified) then [unverified_text] else [])
              (add_unresolved errors (add_unresolved (en_open E w) (status, unresolved)))))"

definition finish_incremental ::
  "'w engine \<Rightarrow> time \<Rightarrow> string \<Rightarrow> string \<Rightarrow> string list \<Rightarrow> session \<Rightarrow> 'w \<Rightarrow> session \<times> run_result" where
  "finish_incremental E now status0 answer unresolved0 s w =
     (case settle_status E status0 answer unresolved0 s w of
        (status, unresolved) \<Rightarrow>
          (let s = (if status = ''needs_input'' then pause_session now s else s);
               res = \<lparr>rr_status = status, rr_answer = answer, rr_receipts = List.map_filter cl_result (by_position s), rr_usage = sx_usage s,
                      rr_unresolved = unresolved\<rparr>
           in (log_event (Ev_Finished status unresolved) (s\<lparr>sx_result := Some res\<rparr>), res)))"

fun comma_list :: "string list \<Rightarrow> string" where
  "comma_list [] = []"
| "comma_list [x] = x"
| "comma_list (x # xs) = x @ '', '' @ comma_list xs"

text \<open>Taking up an interrupted run; \<open>unfinished\<close> are the processes still running.\<close>

definition prepare_resume :: "string list \<Rightarrow> time \<Rightarrow> session \<Rightarrow> session \<times> unit harness_result" where
  "prepare_resume unfinished now s =
     (let uncertain = filter (\<lambda>c. cl_state c = Call_Admitted \<and> cl_mutating c) (by_position s) in
      if opt_or (sx_request s) [] = [] then (s, Inl (Stop_Raised (ValueError ''No canonical checkpoint is available; start a new turn'')))
      else if sx_cancelled s then (s, Inl (Stop_Raised (ValueError ''This execution was cancelled; start a new turn instead'')))
      else if map_option rr_status (sx_result s) = Some ''completed'' then (s, Inl (Stop_Raised (ValueError ''This execution is already completed'')))
      else if uncertain \<noteq> []
      then (s, Inl (Stop_Raised (ValueError (''Inspect uncertain actions before resuming: '' @ comma_list (map cl_id uncertain)))))
      else if unfinished \<noteq> []
      then (s, Inl (Stop_Raised (ValueError (''Reconcile or cancel unfinished process '' @ hd unfinished @ '' before resuming''))))
      else (resume_clock now s, Inr ()))"

end
