(* ===== verification/HarnessProps.thy ===== *)
theory HarnessProps
  imports Harness Sql
begin

text \<open>
  The steps of a session's journal and what they keep. The world of a step is the list of the calls that really ran: the
  executors are any whose run of a call adds at most that call's name to it (one that dies before it starts adds
  nothing), with whatever result, cancellation or crash. The engine differs from step to step, as each process opens
  the journal with its own.
  The properties: calls that write run at most once, and spending stays within the budget.
\<close>

section \<open>The steps\<close>

definition recording :: "string list engine \<Rightarrow> bool" where
  "recording E \<longleftrightarrow> valid_budget (en_budget E) \<and> (\<forall>c w. fst (en_exec E c w) \<in> {w, w @ [tc_id c]})"

inductive harness_step :: "session \<times> string list \<Rightarrow> session \<times> string list \<Rightarrow> bool" where
  hs_begin: "recording E \<Longrightarrow> begin_incremental E now request s = (t, r) \<Longrightarrow> harness_step (s, w) (t, w)"
| hs_plan: "recording E \<Longrightarrow> run_plan E e request calls resume s w = (t, w', r) \<Longrightarrow> harness_step (s, w) (t, w')"
| hs_resume: "recording E \<Longrightarrow> continue_run E e s w = (t, w', r) \<Longrightarrow> harness_step (s, w) (t, w')"
| hs_execute: "recording E \<Longrightarrow> execute_incremental E jtext now c s w = (t, w', r) \<Longrightarrow> harness_step (s, w) (t, w')"
| hs_finish: "recording E \<Longrightarrow> finish_incremental E now status answer unresolved s w = (t, r) \<Longrightarrow> harness_step (s, w) (t, w)"
| hs_model: "recording E \<Longrightarrow> reserve_model_call E now rid tokens dollars s = (t, r) \<Longrightarrow> harness_step (s, w) (t, w)"
| hs_retry: "recording E \<Longrightarrow> reserve_model_retry E now rid s = (t, r) \<Longrightarrow> harness_step (s, w) (t, w)"
| hs_response: "harness_step (s, w) (reconcile_model_call rid actual request status retries s, w)"
| hs_child: "recording E \<Longrightarrow> reserve_child_budget E rid b depth max_depth max_fanout s = (t, r) \<Longrightarrow> harness_step (s, w) (t, w)"
| hs_child_done: "0 \<le> us_tools u \<Longrightarrow> 0 \<le> us_models u \<Longrightarrow> reconcile_child_budget rid u s = (t, r) \<Longrightarrow> harness_step (s, w) (t, w)"
| hs_pause: "harness_step (s, w) (pause_session now s, w)"
| hs_clock: "harness_step (s, w) (resume_clock now s, w)"
| hs_cancel: "harness_step (s, w) (cancel_session s, w)"
| hs_ready: "prepare_resume unfinished now s = (t, r) \<Longrightarrow> harness_step (s, w) (t, w)"

section \<open>At most one run of a call that writes\<close>

definition calls_once :: "call_row list \<Rightarrow> string list \<Rightarrow> bool" where
  "calls_once cs w \<longleftrightarrow> distinct (map cl_id cs) \<and> set w \<subseteq> cl_id ` set cs \<and>
     (\<forall>c \<in> set cs. cl_mutating c \<longrightarrow> count_list w (cl_id c) \<le> (if cl_state c = Call_Pending then 0 else 1))"

definition once :: "session \<Rightarrow> string list \<Rightarrow> bool" where
  "once s w \<longleftrightarrow> calls_once (sx_calls s) w"

section \<open>What is spent\<close>

fun tools_spent :: "journal_event list \<Rightarrow> nat" where
  "tools_spent [] = 0"
| "tools_spent (Ev_Admitted _ _ # es) = Suc (tools_spent es)"
| "tools_spent (_ # es) = tools_spent es"

fun models_spent :: "journal_event list \<Rightarrow> nat" where
  "models_spent [] = 0"
| "models_spent (Ev_Provider_Request _ _ # es) = Suc (models_spent es)"
| "models_spent (Ev_Provider_Retry _ _ _ # es) = Suc (models_spent es)"
| "models_spent (_ # es) = models_spent es"

fun is_start :: "journal_event \<Rightarrow> bool" where
  "is_start (Ev_Started _) = True"
| "is_start _ = False"

definition since_start :: "journal_event list \<Rightarrow> journal_event list" where
  "since_start es = takeWhile (\<lambda>x. \<not> is_start x) (rev es)"

lemma since_start_snoc [simp]: "since_start (es @ [x]) = (if is_start x then [] else x # since_start es)"
  by (simp add: since_start_def)

definition in_budget :: "session \<Rightarrow> bool" where
  "in_budget s \<longleftrightarrow>
     (case sx_budget s of
        None \<Rightarrow> True
      | Some b \<Rightarrow> 0 \<le> bd_tools b \<and> 0 \<le> bd_models b \<and>
          int (tools_spent (since_start (sx_events s))) \<le> min (us_tools (sx_usage s)) (bd_tools b) \<and>
          int (models_spent (since_start (sx_events s))) \<le> min (us_models (sx_usage s)) (bd_models b))"

definition harness_ok :: "session \<times> string list \<Rightarrow> bool" where
  "harness_ok sw \<longleftrightarrow> once (fst sw) (snd sw) \<and> in_budget (fst sw)"

section \<open>Quiet changes\<close>

text \<open>A change that keeps the budget, spends nothing and neither admits nor adds a call.\<close>

definition settles :: "call_row \<Rightarrow> call_row \<Rightarrow> bool" where
  "settles c d \<longleftrightarrow> cl_id d = cl_id c \<and> cl_mutating d = cl_mutating c \<and> (cl_mutating c \<longrightarrow> cl_state d = Call_Pending \<longrightarrow> cl_state c = Call_Pending)"

definition unspent :: "session \<Rightarrow> session \<Rightarrow> bool" where
  "unspent s t \<longleftrightarrow> list_all2 settles (sx_calls s) (sx_calls t) \<and> sx_budget t = sx_budget s \<and>
     us_tools (sx_usage s) \<le> us_tools (sx_usage t) \<and> us_models (sx_usage s) \<le> us_models (sx_usage t) \<and>
     tools_spent (since_start (sx_events t)) = tools_spent (since_start (sx_events s)) \<and>
     models_spent (since_start (sx_events t)) = models_spent (since_start (sx_events s))"

lemma settles_refl [simp, intro]: "settles c c"
  by (simp add: settles_def)

lemma settles_trans: "settles a b \<Longrightarrow> settles b c \<Longrightarrow> settles a c"
  by (auto simp: settles_def)

lemma all_settle_refl [simp]: "list_all2 settles cs cs"
  by (simp add: list.rel_refl)

lemma unspent_refl [simp, intro]: "unspent s s"
  by (simp add: unspent_def)

lemma unspent_trans [trans]: "unspent s t \<Longrightarrow> unspent t u \<Longrightarrow> unspent s u"
  unfolding unspent_def by (auto intro: list_all2_trans [OF settles_trans] order_trans)

fun spending :: "journal_event \<Rightarrow> bool" where
  "spending (Ev_Started _) = True"
| "spending (Ev_Admitted _ _) = True"
| "spending (Ev_Provider_Request _ _) = True"
| "spending (Ev_Provider_Retry _ _ _) = True"
| "spending _ = False"

lemma not_spending:
  "\<not> spending x \<Longrightarrow> \<not> is_start x" "\<not> spending x \<Longrightarrow> tools_spent (x # es) = tools_spent es" "\<not> spending x \<Longrightarrow> models_spent (x # es) = models_spent es"
  by (cases x; simp)+

lemma unspent_log: "unspent s t \<Longrightarrow> \<not> spending x \<Longrightarrow> unspent s (log_event x t)"
  by (simp add: unspent_def log_event_def not_spending)

lemma calls_once_settle:
  assumes "list_all2 settles cs ds" and "calls_once cs w"
  shows "calls_once ds w"
proof -
  from assms(1) have ids: "map cl_id ds = map cl_id cs"
    by (induction rule: list_all2_induct) (auto simp: settles_def)
  then have set_ids: "cl_id ` set ds = cl_id ` set cs" by (metis list.set_map)
  have "count_list w (cl_id d) \<le> (if cl_state d = Call_Pending then 0 else 1)" if d: "d \<in> set ds" "cl_mutating d" for d
  proof -
    obtain i where i: "i < length ds" "d = ds ! i" using d(1) by (metis in_set_conv_nth)
    then have "settles (cs ! i) d" "cs ! i \<in> set cs" using assms(1) by (auto simp: list_all2_conv_all_nth)
    with assms(2) d(2) show ?thesis by (fastforce simp: calls_once_def settles_def split: if_splits)
  qed
  with assms(2) ids set_ids show ?thesis by (simp add: calls_once_def)
qed

lemma unspent_ok: "unspent s t \<Longrightarrow> harness_ok (s, w) \<Longrightarrow> harness_ok (t, w)"
  by (auto simp: harness_ok_def once_def unspent_def in_budget_def intro: calls_once_settle split: option.splits)


section \<open>The operations that are unspent\<close>

lemma unspent_fields:
  "sx_calls t = sx_calls s \<Longrightarrow> sx_budget t = sx_budget s \<Longrightarrow> sx_usage t = sx_usage s \<Longrightarrow> sx_events t = sx_events s \<Longrightarrow> unspent s t"
  by (simp add: unspent_def)

lemma unspent_set_call: "(\<And>c. c \<in> set (sx_calls s) \<Longrightarrow> cl_id c = cid \<Longrightarrow> settles c (f c)) \<Longrightarrow> unspent s (set_call cid f s)"
  by (auto simp: unspent_def set_call_def list_all2_conv_all_nth)

lemma unspent_cancel: "unspent s (cancel_session s)"
  unfolding cancel_session_def by (intro unspent_log unspent_fields) simp_all

lemma unspent_pause: "unspent s (pause_session now s)"
  unfolding pause_session_def by (auto intro!: unspent_log unspent_fields)

lemma unspent_clock: "unspent s (resume_clock now s)"
  unfolding resume_clock_def by (auto intro!: unspent_log unspent_fields split: option.splits)

lemma unspent_while: "unspent s (while_run b s)"
  by (simp add: while_run_def unspent_cancel)

lemma unspent_finish: "finish_run status rs un s = (t, res) \<Longrightarrow> unspent s t"
  unfolding finish_run_def Let_def by (auto intro!: unspent_log unspent_fields split: if_splits)

lemma unspent_complete: "unspent s (complete_call cid r after s)"
  unfolding complete_call_def by (intro unspent_log unspent_set_call) (simp_all add: settles_def)

lemma unspent_prove: "unspent s (prove_call cid r after s)"
  unfolding prove_call_def Let_def by (auto intro!: unspent_log unspent_fields)

lemma unspent_stored: "unspent s (prove_call cid r after (complete_call cid r after s))"
  by (rule unspent_trans [OF unspent_complete unspent_prove])

lemma unspent_progress: "note_progress E c fp before after r s = (t, act) \<Longrightarrow> unspent s t"
  unfolding note_progress_def Let_def by (auto intro!: unspent_log unspent_fields split: option.splits prod.splits)

lemma unspent_response: "unspent s (reconcile_model_call rid actual request status retries s)"
  unfolding reconcile_model_call_def by (intro unspent_log) (auto simp: unspent_def split: option.splits)

lemma unspent_child: "reserve_child_budget E rid b depth max_depth max_fanout s = (t, r) \<Longrightarrow> unspent s t"
  unfolding reserve_child_budget_def by (auto intro!: unspent_log unspent_fields split: option.splits)

lemma unspent_added: "0 \<le> us_tools u \<Longrightarrow> 0 \<le> us_models u \<Longrightarrow> unspent s (s\<lparr>sx_usage := add_usage (sx_usage s) u, sx_children := cs\<rparr>)"
  by (simp add: unspent_def add_usage_def)

lemma unspent_child_done: "reconcile_child_budget rid u s = (t, r) \<Longrightarrow> 0 \<le> us_tools u \<Longrightarrow> 0 \<le> us_models u \<Longrightarrow> unspent s t"
  unfolding reconcile_child_budget_def by (auto intro!: unspent_log unspent_added split: option.splits if_splits)

lemma unspent_finish_incremental: "finish_incremental E now status answer un s w = (t, r) \<Longrightarrow> unspent s t"
  unfolding finish_incremental_def Let_def
  by (auto intro!: unspent_log intro: unspent_trans [OF unspent_pause unspent_fields] unspent_fields split: prod.splits if_splits)

lemma unspent_ready: "prepare_resume unfinished now s = (t, r) \<Longrightarrow> unspent s t"
  unfolding prepare_resume_def Let_def by (auto intro: unspent_clock split: if_splits)

section \<open>A start, a reservation, an admission\<close>

lemma start_ok: "recording E \<Longrightarrow> harness_ok (s, w) \<Longrightarrow> harness_ok (start_fields E now request s, w)"
  by (simp add: recording_def harness_ok_def once_def in_budget_def start_fields_def log_event_def valid_budget_def no_usage_def)

lemma add_row_ok:
  assumes "harness_ok (s, w)" and "cl_id c \<notin> cl_id ` set (sx_calls s)"
  shows "harness_ok (s\<lparr>sx_calls := sx_calls s @ [c]\<rparr>, w)"
proof -
  have once: "calls_once (sx_calls s) w" using assms(1) by (simp add: harness_ok_def once_def)
  then have "cl_id c \<notin> set w" using assms(2) by (auto simp: calls_once_def)
  then have "calls_once (sx_calls s @ [c]) w" using once assms(2) by (auto simp: calls_once_def)
  with assms(1) show ?thesis by (simp add: harness_ok_def once_def in_budget_def split: option.splits)
qed

lemma insert_plan_ok: "insert_plan E pos cs s = (t, r) \<Longrightarrow> harness_ok (s, w) \<Longrightarrow> harness_ok (t, w)"
  by (induction E pos cs s rule: insert_plan.induct) (auto intro: add_row_ok split: if_splits)

lemma reserved_ok:
  assumes "model_refusal E now tokens dollars s = None" and "harness_ok (s, w)" and "\<not> is_start x" and "tools_spent [x] = 0" and "models_spent [x] = 1"
  shows "harness_ok (log_event x (s\<lparr>sx_usage := charge_model tokens dollars (sx_usage s), sx_models := m\<rparr>), w)"
proof -
  have "tools_spent (x # es) = tools_spent es" "models_spent (x # es) = Suc (models_spent es)" for es
    using assms(4,5) by (cases x; simp)+
  moreover have "us_models (sx_usage s) + 1 \<le> bd_models (budget_of E s)"
    using assms(1) by (simp add: model_refusal_def Let_def split: if_splits)
  ultimately show ?thesis using assms(2,3)
    by (auto simp: harness_ok_def once_def in_budget_def log_event_def charge_model_def budget_of_def split: option.splits)
qed

lemma admit_ok:
  assumes ok: "harness_ok (s, w)" and c: "find_call cid s = Some c" and ready: "cl_mutating c \<Longrightarrow> cl_state c = Call_Pending"
    and spend: "us_tools (sx_usage s) < bd_tools (budget_of E s)" and w': "w' \<in> {w, w @ [cid]}"
  shows "harness_ok (admit_call cid name before s, w')"
proof -
  have c': "c \<in> set (sx_calls s)" "cl_id c = cid" using c by (auto simp: find_call_def find_Some_iff)
  have once: "calls_once (sx_calls s) w" using ok by (simp add: harness_ok_def once_def)
  let ?cs = "sx_calls (admit_call cid name before s)"
  have same: "d = c" if "d \<in> set (sx_calls s)" "cl_id d = cid" for d
    using once that c' by (auto simp: calls_once_def distinct_map inj_on_def)
  have cs: "?cs = map (\<lambda>d. if cl_id d = cid then d\<lparr>cl_state := Call_Admitted, cl_before := Some before\<rparr> else d) (sx_calls s)"
    by (simp add: admit_call_def set_call_def log_event_def)
  have ids: "map cl_id ?cs = map cl_id (sx_calls s)" by (simp add: cs comp_def if_distrib cong: if_cong)
  have "count_list w' (cl_id d) \<le> (if cl_state d = Call_Pending then 0 else 1)" if d: "d \<in> set ?cs" "cl_mutating d" for d
  proof (cases "cl_id d = cid")
    case True
    then obtain x where "x \<in> set (sx_calls s)" "cl_id x = cid" "d = x\<lparr>cl_state := Call_Admitted, cl_before := Some before\<rparr>"
      using d(1) by (auto simp: cs split: if_splits)
    with same [of x] d(2) have "cl_mutating c" "cl_state d = Call_Admitted" by simp_all
    moreover have "count_list w cid = 0" using once c' ready [OF \<open>cl_mutating c\<close>] \<open>cl_mutating c\<close> by (fastforce simp: calls_once_def)
    moreover have "count_list w' cid \<le> Suc (count_list w cid)" using w' by auto
    ultimately show ?thesis using True by simp
  next
    case False
    then have "d \<in> set (sx_calls s)" using d by (auto simp: cs split: if_splits)
    then have "count_list w (cl_id d) \<le> (if cl_state d = Call_Pending then 0 else 1)" using d(2) once by (simp add: calls_once_def)
    moreover have "count_list w' (cl_id d) = count_list w (cl_id d)" using w' False by auto
    ultimately show ?thesis by simp
  qed
  moreover have "cl_id ` set ?cs = cl_id ` set (sx_calls s)" by (metis ids list.set_map)
  ultimately have "calls_once ?cs w'" using once w' c' ids by (auto simp: calls_once_def)
  then show ?thesis using ok spend
    by (auto simp: harness_ok_def once_def in_budget_def admit_call_def set_call_def log_event_def budget_of_def split: option.splits)
qed


section \<open>The planned run\<close>

text \<open>Rows other than one call's stay as they are.\<close>

definition others_kept :: "string \<Rightarrow> session \<Rightarrow> session \<Rightarrow> bool" where
  "others_kept cid s t \<longleftrightarrow> (\<forall>d \<in> set (sx_calls s). cl_id d \<noteq> cid \<longrightarrow> d \<in> set (sx_calls t))"

lemma others_same: "sx_calls t = sx_calls s \<Longrightarrow> others_kept cid s t"
  by (simp add: others_kept_def)

lemma others_trans [trans]: "others_kept cid s t \<Longrightarrow> others_kept cid t u \<Longrightarrow> others_kept cid s u"
  by (auto simp: others_kept_def)

lemma others_set_call: "others_kept cid s (set_call cid f s)"
  by (auto simp: others_kept_def set_call_def image_iff intro!: bexI)

lemma log_event_calls [simp]: "sx_calls (log_event x s) = sx_calls s"
  by (simp add: log_event_def)

lemma finish_run_calls: "finish_run status rs un s = (t, res) \<Longrightarrow> sx_calls t = sx_calls s"
  by (auto simp: finish_run_def Let_def split: if_splits)

lemma others_admit: "others_kept cid s (admit_call cid name before s)"
  by (auto simp: others_kept_def admit_call_def set_call_def image_iff intro!: bexI)

lemma others_stored: "others_kept cid s (prove_call cid r after (complete_call cid r after s))"
  by (auto simp: others_kept_def prove_call_def complete_call_def set_call_def Let_def image_iff intro!: bexI)

lemma others_while: "others_kept cid s (while_run b s)"
  by (simp add: others_kept_def while_run_def cancel_session_def)

lemma find_key: "distinct (map f xs) \<Longrightarrow> x \<in> set xs \<Longrightarrow> find (\<lambda>y. f y = f x) xs = Some x"
  by (induction xs) force+

lemma find_call_in: "distinct (map cl_id (sx_calls s)) \<Longrightarrow> c \<in> set (sx_calls s) \<Longrightarrow> find_call (cl_id c) s = Some c"
  unfolding find_call_def by (rule find_key)

lemma harness_distinct: "harness_ok (s, w) \<Longrightarrow> distinct (map cl_id (sx_calls s))"
  by (simp add: harness_ok_def once_def calls_once_def)

definition reset_read :: "call_row \<Rightarrow> session \<Rightarrow> session" where
  "reset_read c s = (if cl_state c = Call_Admitted then set_call (cl_id c) (\<lambda>x. x\<lparr>cl_state := Call_Pending\<rparr>) s else s)"

lemma reset_read_keeps:
  assumes ok: "harness_ok (s, w)" and c: "c \<in> set (sx_calls s)" and "cl_state c \<noteq> Call_Completed" and "\<not> (cl_state c = Call_Admitted \<and> cl_mutating c)"
  shows "unspent s (reset_read c s)" and "others_kept (cl_id c) s (reset_read c s)"
    and "\<exists>d. find_call (cl_id c) (reset_read c s) = Some d \<and> (cl_mutating d \<longrightarrow> cl_state d = Call_Pending)"
    and "sx_usage (reset_read c s) = sx_usage s" and "budget_of E (reset_read c s) = budget_of E s"
proof -
  have same: "x = c" if "x \<in> set (sx_calls s)" "cl_id x = cl_id c" for x
    using harness_distinct [OF ok] that c by (auto simp: distinct_map inj_on_def)
  show q: "unspent s (reset_read c s)"
  proof (cases "cl_state c = Call_Admitted")
    case True
    then have "settles x (x\<lparr>cl_state := Call_Pending\<rparr>)" if "x \<in> set (sx_calls s)" "cl_id x = cl_id c" for x
      using assms(4) same [OF that] by (simp add: settles_def)
    then show ?thesis by (auto simp: reset_read_def intro: unspent_set_call)
  qed (simp add: reset_read_def)
  show "others_kept (cl_id c) s (reset_read c s)" by (auto simp: reset_read_def others_same intro: others_set_call)
  let ?d = "if cl_state c = Call_Admitted then c\<lparr>cl_state := Call_Pending\<rparr> else c"
  have "?d \<in> set (sx_calls (reset_read c s))" using c by (auto simp: reset_read_def set_call_def image_iff intro!: bexI [of _ c])
  moreover have "distinct (map cl_id (sx_calls (reset_read c s)))" by (rule harness_distinct [OF unspent_ok [OF q ok]])
  moreover have "cl_id ?d = cl_id c" "cl_mutating ?d \<longrightarrow> cl_state ?d = Call_Pending"
    using assms(3,4) by (cases "cl_state c"; simp)+
  ultimately show "\<exists>d. find_call (cl_id c) (reset_read c s) = Some d \<and> (cl_mutating d \<longrightarrow> cl_state d = Call_Pending)"
    using find_call_in [of "reset_read c s" ?d] by (intro exI [of _ ?d]) simp
qed (simp_all add: reset_read_def set_call_def budget_of_def)

lemma run_call_ok:
  assumes rec: "recording E" and ok: "harness_ok (s, w)" and c: "c \<in> set (sx_calls s)" and run: "run_call E now c rs s w = (t, w', r)"
  shows "harness_ok (t, w') \<and> others_kept (cl_id c) s t"
proof (cases "cl_state c = Call_Completed \<or> cl_state c = Call_Admitted \<and> cl_mutating c")
  case True
  then show ?thesis using run ok
    by (auto simp: run_call_def others_same intro: unspent_ok [OF unspent_finish] others_same [OF finish_run_calls] split: prod.splits)
next
  case False
  then have go: "cl_state c \<noteq> Call_Completed" "\<not> (cl_state c = Call_Admitted \<and> cl_mutating c)" by auto
  define s1 where "s1 = reset_read c s"
  note r1 = reset_read_keeps [OF ok c go, folded s1_def]
  from r1(3) obtain d where d: "find_call (cl_id c) s1 = Some d" "cl_mutating d \<Longrightarrow> cl_state d = Call_Pending" by blast
  have ok1: "harness_ok (s1, w)" by (rule unspent_ok [OF r1(1) ok])
  show ?thesis
  proof (cases "sx_cancelled s1 \<or> sx_paused_at s1 \<noteq> None \<or> elapsed_wall now s1 \<ge> bd_wall (budget_of E s1) \<or> us_tools (sx_usage s1) \<ge> bd_tools (budget_of E s1)")
    case True
    have q: "unspent s1 (log_event Ev_Exhausted s1)" by (rule unspent_log) simp_all
    have "unspent s1 t \<and> sx_calls t = sx_calls s1 \<and> w' = w" using run go True
      by (auto simp: run_call_def Let_def reset_read_def [symmetric] s1_def [symmetric] dest: finish_run_calls
          intro: unspent_finish unspent_trans [OF q unspent_finish] split: prod.splits if_splits)
    then show ?thesis using unspent_ok [OF _ ok1] r1(2) others_trans others_same by blast
  next
    case False
    obtain w1 cancelled out where ex: "en_exec E (call_of_row c) w = (w1, cancelled, out)" by (cases "en_exec E (call_of_row c) w") auto
    define s2 where "s2 = admit_call (cl_id c) (cl_name c) (current_revision E s1 w) s1"
    have "w1 \<in> {w, w @ [cl_id c]}" using rec ex unfolding recording_def by (metis call_of_row_def fst_conv tool_call.select_convs(1))
    then have "harness_ok (s2, w1)" unfolding s2_def using False d by (intro admit_ok [OF ok1 d, where E = E]) auto
    moreover have "unspent s2 t \<and> others_kept (cl_id c) s2 t \<and> w' = w1"
    proof (cases "receipt_of E (call_of_row c) out (while_run cancelled s2) w1")
      case None
      let ?t = "if out = Broken_Off then log_event (Ev_Interrupted (cl_id c)) (while_run cancelled s2) else while_run cancelled s2"
      have "unspent s2 ?t" by (simp add: unspent_while unspent_log [OF unspent_while])
      moreover have "others_kept (cl_id c) s2 ?t" by (rule others_trans [OF others_while others_same]) simp
      moreover have "t = ?t" "w' = w1"
        using run go False ex None by (auto simp: run_call_def Let_def reset_read_def [symmetric] s1_def [symmetric] s2_def [symmetric])
      ultimately show ?thesis by simp
    next
      case (Some r0)
      define s3 where "s3 = while_run cancelled s2"
      define s4 where "s4 = prove_call (cl_id c) r0 (after_revision E r0 s3 w1) (complete_call (cl_id c) r0 (after_revision E r0 s3 w1) s3)"
      have q: "unspent s2 s4" unfolding s4_def s3_def by (rule unspent_trans [OF unspent_while unspent_stored])
      have k: "others_kept (cl_id c) s2 s4" unfolding s4_def s3_def by (rule others_trans [OF others_while others_stored])
      have "t = s4 \<or> (\<exists>st rs un res. finish_run st rs un s4 = (t, res))" "w' = w1"
        using run go False ex Some
        by (auto simp: run_call_def Let_def reset_read_def [symmetric] s1_def [symmetric] s2_def [symmetric] s3_def [symmetric] s4_def [symmetric]
            split: prod.splits if_splits)
      with q k show ?thesis using unspent_finish finish_run_calls by (metis others_same others_trans unspent_trans)
    qed
    moreover have "others_kept (cl_id c) s s2" unfolding s2_def by (rule others_trans [OF r1(2) others_admit])
    ultimately show ?thesis using unspent_ok others_trans by blast
  qed
qed

lemma run_calls_ok:
  assumes "recording E" and "run_calls E e n cs rs s w = (t, w', r)" and "harness_ok (s, w)" and "set cs \<subseteq> set (sx_calls s)" and "distinct (map cl_id cs)"
  shows "harness_ok (t, w')"
  using assms(2-)
proof (induction cs arbitrary: n rs s w)
  case Nil
  then show ?case by (auto intro: unspent_ok [OF unspent_finish] split: prod.splits if_splits)
next
  case (Cons c cs)
  obtain s1 w1 r1 where run: "run_call E (clk e n) c rs s w = (s1, w1, r1)" by (cases "run_call E (clk e n) c rs s w") auto
  from run_call_ok [OF assms(1) Cons.prems(2) _ run] Cons.prems(3)
  have ok: "harness_ok (s1, w1)" and kept: "others_kept (cl_id c) s s1" by auto
  have "x \<in> set (sx_calls s1)" if "x \<in> set cs" for x
  proof -
    have "cl_id c \<notin> cl_id ` set cs" using Cons.prems(4) by simp
    then have "cl_id x \<noteq> cl_id c" using that by (metis imageI)
    moreover have "x \<in> set (sx_calls s)" using that Cons.prems(3) by auto
    ultimately show ?thesis using kept by (simp add: others_kept_def)
  qed
  then have "set cs \<subseteq> set (sx_calls s1)" by blast
  with Cons.IH [OF _ ok] Cons.prems(1,4) run ok show ?case by (auto split: sum.splits prod.splits option.splits)
qed

lemma continue_ok:
  assumes "recording E" and "continue_run E e s w = (t, w', r)" and ok: "harness_ok (s, w)"
  shows "harness_ok (t, w')"
proof (cases "sx_cancelled s")
  case True
  with assms(2) ok show ?thesis by (auto simp: continue_run_def intro: unspent_ok [OF unspent_finish] split: prod.splits)
next
  case False
  then have "run_calls E e 1 (by_position s) [] s w = (t, w', r)" using assms(2) by (simp add: continue_run_def)
  from run_calls_ok [OF assms(1) this ok] show ?thesis using harness_distinct [OF ok] by (simp add: by_position_def distinct_map)
qed


lemma begin_ok: "recording E \<Longrightarrow> begin_incremental E now request s = (t, r) \<Longrightarrow> harness_ok (s, w) \<Longrightarrow> harness_ok (t, w)"
  by (auto simp: begin_incremental_def intro: start_ok split: option.splits)

lemma store_plan_ok: "recording E \<Longrightarrow> store_plan E now request calls resume s = (t, r) \<Longrightarrow> harness_ok (s, w) \<Longrightarrow> harness_ok (t, w)"
  by (auto simp: store_plan_def intro: insert_plan_ok start_ok split: if_splits)

lemma run_plan_ok: "recording E \<Longrightarrow> run_plan E e request calls resume s w = (t, w', r) \<Longrightarrow> harness_ok (s, w) \<Longrightarrow> harness_ok (t, w')"
  unfolding run_plan_def by (auto intro: continue_ok dest: store_plan_ok split: prod.splits sum.splits)

section \<open>The call of an agent\<close>

lemma perform_ok:
  assumes rec: "recording E" and ok: "harness_ok (s, w)" and d: "find_call (tc_id c) s = Some d" "cl_mutating d \<Longrightarrow> cl_state d = Call_Pending"
    and spend: "us_tools (sx_usage s) < bd_tools (budget_of E s)" and run: "perform_call E c fp s w = (t, w', r)"
  shows "harness_ok (t, w')"
proof -
  obtain w1 cancelled out where ex: "en_exec E c w = (w1, cancelled, out)" by (cases "en_exec E c w") auto
  define s2 where "s2 = admit_call (tc_id c) (tc_name c) (current_revision E s w) s"
  have "w1 \<in> {w, w @ [tc_id c]}" using rec ex unfolding recording_def by (metis fst_conv)
  then have ok2: "harness_ok (s2, w1)" unfolding s2_def using admit_ok [OF ok d(1) d(2) spend] by blast
  define s3 where "s3 = while_run cancelled s2"
  have q3: "unspent s2 s3" unfolding s3_def by (rule unspent_while)
  have "unspent s2 t \<and> w' = w1"
  proof (cases "incremental_receipt c out")
    case None
    then have "t = s3" "w' = w1" using run ex by (simp_all add: perform_call_def Let_def s2_def [symmetric] s3_def [symmetric])
    with q3 show ?thesis by simp
  next
    case (Some r0)
    define after where "after = after_revision E r0 s3 w1"
    define s4 where "s4 = prove_call (tc_id c) r0 after (complete_call (tc_id c) r0 after s3)"
    define s5 where "s5 = (if tc_name c \<in> set reusable_reads \<and> receipt_ok r0 then s4\<lparr>sx_cache := AList.update fp r0 (sx_cache s4)\<rparr> else s4)"
    obtain u act where note_p: "note_progress E c fp (current_revision E s w) after r0 s5 = (u, act)" by (cases "note_progress E c fp (current_revision E s w) after r0 s5") auto
    have "unspent s2 s4" unfolding s4_def by (rule unspent_trans [OF q3 unspent_stored])
    moreover have "unspent s4 s5" by (simp add: s5_def unspent_def)
    ultimately have "unspent s2 u" using unspent_progress [OF note_p] by (blast intro: unspent_trans)
    moreover have "t = u" "w' = w1"
      using run ex Some note_p unfolding s5_def s4_def after_def s3_def s2_def by (simp_all add: perform_call_def Let_def)
    ultimately show ?thesis by simp
  qed
  then show ?thesis using unspent_ok [OF _ ok2] by simp
qed

lemma admit_new_ok:
  "recording E \<Longrightarrow> harness_ok (s, w) \<Longrightarrow> find_call (tc_id c) s = Some d \<Longrightarrow> (cl_mutating d \<Longrightarrow> cl_state d = Call_Pending) \<Longrightarrow>
     admit_new E c fp s w = (t, w', r) \<Longrightarrow> harness_ok (t, w')"
  by (auto simp: admit_new_def intro: perform_ok split: if_splits)

lemma find_call_None: "find_call cid s = None \<longleftrightarrow> cid \<notin> cl_id ` set (sx_calls s)"
  by (auto simp: find_call_def find_None_iff)

lemma find_snoc: "find P xs = None \<Longrightarrow> P x \<Longrightarrow> find P (xs @ [x]) = Some x"
  by (induction xs) (auto split: if_splits)

lemma find_call_snoc: "find_call cid s = None \<Longrightarrow> cl_id c = cid \<Longrightarrow> find_call cid (s\<lparr>sx_calls := sx_calls s @ [c]\<rparr>) = Some c"
  by (simp add: find_call_def find_snoc)

lemma reuse_ok:
  assumes "reuse_read jtext c revision fp r0 s = (t, r)" and ok: "harness_ok (s, w)"
  shows "harness_ok (t, w)"
proof -
  define row where "row = (call_row_of c (next_position s) False Call_Completed)\<lparr>cl_before := Some revision, cl_after := Some (jtext (r0\<lparr>rx_call := tc_id c\<rparr>))\<rparr>"
  define s1 where "s1 = (if find_call (tc_id c) s = None then s\<lparr>sx_calls := sx_calls s @ [row]\<rparr> else s)"
  have "cl_id row = tc_id c" by (simp add: row_def call_row_of_def)
  then have "harness_ok (s1, w)" using ok add_row_ok [OF ok, of row] by (simp add: s1_def find_call_None)
  moreover have "unspent s1 t" using assms(1) unfolding reuse_read_def Let_def row_def [symmetric] s1_def [symmetric]
    by (auto intro!: unspent_log unspent_fields split: if_splits)
  ultimately show ?thesis by (rule unspent_ok [rotated])
qed

lemma execute_ok:
  assumes rec: "recording E" and run: "execute_incremental E jtext now c s w = (t, w', r)" and ok: "harness_ok (s, w)"
  shows "harness_ok (t, w')"
proof -
  define s1 where "s1 = (if tc_name c \<in> set web_only_tools then s else s\<lparr>sx_full := True\<rparr>)"
  define row where "row = call_row_of c (next_position s1) (tc_name c \<in> set mutating_tools \<or> tc_name c \<in> set agent_writers) Call_Pending"
  have row: "cl_id row = tc_id c" "cl_state row = Call_Pending" by (simp_all add: row_def call_row_of_def)
  have "unspent s s1" unfolding s1_def by (auto intro: unspent_fields)
  then have ok1: "harness_ok (s1, w)" by (rule unspent_ok [OF _ ok])
  note def = run [unfolded execute_incremental_def Let_def, folded s1_def, folded row_def]
  show ?thesis
  proof (cases "stopped s1 \<noteq> None \<or> elapsed_wall now s1 \<ge> bd_wall (budget_of E s1)")
    case True
    with def ok1 show ?thesis by (auto split: option.splits)
  next
    case False
    define fp where "fp = en_print E (tc_name c) (tc_args c) (current_revision E s1 w)"
    note def1 = def [folded fp_def]
    show ?thesis
    proof (cases "if tc_name c \<in> set reusable_reads then map_of (sx_cache s1) fp else None")
      case (Some r0)
      with def1 False ok1 show ?thesis by (auto intro: reuse_ok split: prod.splits)
    next
      case none: None
      show ?thesis
      proof (cases "find_call (tc_id c) s1")
        case None
        have "admit_new E c fp (s1\<lparr>sx_calls := sx_calls s1 @ [row]\<rparr>) w = (t, w', r)" using def1 False none None by simp
        then show ?thesis using None row by (intro admit_new_ok [OF rec add_row_ok [OF ok1] find_call_snoc [OF None row(1)]]) (auto simp: find_call_None)
      next
        case (Some x)
        show ?thesis
        proof (cases "cl_state x = Call_Completed \<or> cl_state x = Call_Admitted \<and> cl_mutating x")
          case True
          with def1 False none Some ok1 show ?thesis by (auto split: option.splits)
        next
          case go: False
          then have "admit_new E c fp s1 w = (t, w', r)" using def1 False none Some by (simp split: if_splits)
          moreover have "cl_mutating x \<Longrightarrow> cl_state x = Call_Pending" using go by (cases "cl_state x") auto
          ultimately show ?thesis by (intro admit_new_ok [OF rec ok1 Some])
        qed
      qed
    qed
  qed
qed

section \<open>Every step\<close>

lemma model_ok: "reserve_model_call E now rid tokens dollars s = (t, r) \<Longrightarrow> harness_ok (s, w) \<Longrightarrow> harness_ok (t, w)"
  by (auto simp: reserve_model_call_def Let_def intro!: reserved_ok split: option.splits)

lemma retry_ok: "reserve_model_retry E now rid s = (t, r) \<Longrightarrow> harness_ok (s, w) \<Longrightarrow> harness_ok (t, w)"
  by (auto simp: reserve_model_retry_def intro!: reserved_ok split: option.splits)

lemma harness_step_ok: "harness_step sw tw \<Longrightarrow> harness_ok sw \<Longrightarrow> harness_ok tw"
  by (induction rule: harness_step.induct)
     (blast intro: begin_ok run_plan_ok continue_ok execute_ok model_ok retry_ok
        unspent_ok [OF unspent_finish_incremental] unspent_ok [OF unspent_response] unspent_ok [OF unspent_child] unspent_ok [OF unspent_child_done]
        unspent_ok [OF unspent_pause] unspent_ok [OF unspent_clock] unspent_ok [OF unspent_cancel] unspent_ok [OF unspent_ready])+

lemma new_session_ok: "harness_ok (new_session, [])"
  by (simp add: harness_ok_def once_def calls_once_def in_budget_def new_session_def)

interpretation harness_machine: inductive_invariant harness_step "(new_session, [])" harness_ok
  by unfold_locales (auto intro: new_session_ok harness_step_ok)

section \<open>An uncertain write is not repeated\<close>

lemma uncertain_not_executed:
  assumes "find_call (tc_id k) s = Some c" and "cl_state c = Call_Admitted" and "cl_mutating c" and "execute_incremental E jtext now k s w = (t, w', r)"
  shows "w' = w"
proof -
  have "find_call (tc_id k) (s\<lparr>sx_full := b\<rparr>) = Some c" for b using assms(1) by (simp add: find_call_def)
  with assms show ?thesis
    by (auto simp: execute_incremental_def Let_def split: option.splits if_splits prod.splits)
qed

text \<open>C8: a call that writes runs at most once in the life of a session, whatever is done with the journal: a planned run or
  its resumption, an agent's own call, in whatever order, by processes with different budgets and executors, with any
  failure, cancellation or crash while a call runs. A call that is still pending has not run. A call that was admitted
  and has no result (the process may have died before or after the write) is never executed again by the agent's
  entry, with any executor and any workspace: the write is left for a human to inspect.\<close>

theorem writes_run_once:
  assumes "reach harness_step (new_session, []) (s, w)" and "c \<in> set (sx_calls s)" and "cl_mutating c"
  shows "count_list w (cl_id c) \<le> 1 \<and> (cl_state c = Call_Pending \<longrightarrow> cl_id c \<notin> set w) \<and>
    (cl_state c = Call_Admitted \<longrightarrow> tc_id k = cl_id c \<longrightarrow> fst (snd (execute_incremental E jtext now k s v)) = v)"
proof -
  have ok: "harness_ok (s, w)" by (rule harness_machine.inv_reach [OF assms(1)])
  then have "count_list w (cl_id c) \<le> (if cl_state c = Call_Pending then 0 else 1)"
    using assms(2,3) by (simp add: harness_ok_def once_def calls_once_def)
  moreover have "fst (snd (execute_incremental E jtext now k s v)) = v" if "cl_state c = Call_Admitted" "tc_id k = cl_id c"
    using uncertain_not_executed [of k s c E jtext now v] find_call_in [OF harness_distinct [OF ok] assms(2)] that assms(3)
    by (metis prod.collapse)
  ultimately show ?thesis by (auto simp: count_list_0_iff split: if_splits)
qed

text \<open>C25: since the session last started, the tools admitted and the provider requests sent, retries included, are no
  more than its stored budget allows, whatever the order of planned runs, agent's calls, reservations, retries,
  reconciliations of models and of children, pauses and crashes; the engine that opens the journal later may carry
  another budget.\<close>

theorem spending_within_budget:
  assumes "reach harness_step (new_session, []) (s, w)" and "sx_budget s = Some b"
  shows "int (tools_spent (since_start (sx_events s))) \<le> bd_tools b \<and> int (models_spent (since_start (sx_events s))) \<le> bd_models b"
proof -
  have "in_budget s" using harness_machine.inv_reach [OF assms(1)] by (simp add: harness_ok_def)
  with assms(2) show ?thesis by (simp add: in_budget_def)
qed

section \<open>An example\<close>

text \<open>A session of one tool; the process dies while the tool writes.\<close>

definition ex_budget :: budget where
  "ex_budget = \<lparr>bd_wall = 60, bd_tools = 1, bd_models = 1, bd_tokens = 100, bd_dollars = 1\<rparr>"

definition ex_engine :: "string list engine" where
  "ex_engine = \<lparr>en_budget = ex_budget, en_workspace = ''ws'', en_session = ''s'', en_revision = (\<lambda>w. concat w),
     en_exec = (\<lambda>c w. (w @ [tc_id c], False, Died)), en_print = (\<lambda>n a r. n @ r), en_hash = (\<lambda>t. t), en_open = (\<lambda>w. []),
     en_contract = (\<lambda>a w. ([], False)), en_research = (\<lambda>a w. [])\<rparr>"

definition ex_call :: tool_call where
  "ex_call = \<lparr>tc_id = ''c1'', tc_name = ''write_file'', tc_args = JObj [], tc_workspace = ''ws''\<rparr>"

definition ex_begun :: session where
  "ex_begun = start_fields ex_engine 0 ''Fix it'' new_session"

definition ex_row :: call_row where
  "ex_row = (call_row_of ex_call 0 True Call_Admitted)\<lparr>cl_before := Some []\<rparr>"

definition ex_broken :: session where
  "ex_broken = ex_begun\<lparr>sx_full := True, sx_calls := [ex_row], sx_usage := no_usage\<lparr>us_tools := 1\<rparr>,
     sx_events := [Ev_Started ''Fix it'', Ev_Admitted ''c1'' ''write_file'']\<rparr>"

lemma ex_recording: "recording ex_engine"
  by (simp add: recording_def ex_engine_def ex_budget_def valid_budget_def)

lemma ex_begin: "begin_incremental ex_engine 0 ''Fix it'' new_session = (ex_begun, Inr ())"
  by (simp add: begin_incremental_def ex_begun_def new_session_def)

lemma ex_executed: "execute_incremental ex_engine (\<lambda>_. []) 1 ex_call ex_begun [] = (ex_broken, [''c1''], Inl Stop_Executor)"
  by (simp add: execute_incremental_def Let_def ex_call_def ex_begun_def start_fields_def new_session_def log_event_def ex_engine_def ex_budget_def
      web_only_tools_def stopped_def elapsed_wall_def budget_of_def reusable_reads_def current_revision_def find_call_def admit_new_def
      perform_call_def admit_call_def set_call_def call_row_of_def next_position_def mutating_tools_def no_usage_def while_run_def
      incremental_receipt_def ex_broken_def ex_row_def)

lemma ex_harness_reach: "reach harness_step (new_session, []) (ex_broken, [''c1''])"
  by (rule reach.more [where step = harness_step, OF reach.more [where step = harness_step, OF reach.start hs_begin [OF ex_recording ex_begin]]
        hs_execute [OF ex_recording ex_executed]])

lemma ex_broken_rows: "sx_calls ex_broken = [ex_row]" "cl_mutating ex_row" "cl_id ex_row = ''c1''" "cl_state ex_row = Call_Admitted"
  by (simp_all add: ex_broken_def ex_row_def call_row_of_def ex_call_def)

theorem writes_run_once_witness:
  "count_list [''c1''] (cl_id ex_row) \<le> 1 \<and> fst (snd (execute_incremental ex_engine (\<lambda>_. []) 2 ex_call ex_broken [''c1''])) = [''c1'']"
  using writes_run_once [OF ex_harness_reach, of ex_row ex_call ex_engine "\<lambda>_. []" 2 "[''c1'']"]
  by (simp add: ex_broken_rows) (simp add: ex_call_def)

theorem spending_within_budget_witness:
  "sx_budget ex_broken = Some ex_budget \<and> int (tools_spent (since_start (sx_events ex_broken))) \<le> bd_tools ex_budget"
proof -
  have "sx_budget ex_broken = Some ex_budget"
    by (simp add: ex_broken_def ex_begun_def start_fields_def log_event_def ex_engine_def)
  with spending_within_budget [OF ex_harness_reach this] show ?thesis by simp
qed

end
