(* ===== verification/Spec2Isabelle.thy ===== *)
theory Spec2Isabelle
  imports Reachable CliAuth Conversations Integrations Notifications Skills PgStore DagRun RateLimit Gateway
    LocalSchedule Admission ProtocolRun Workspace EngineProps LifecycleProps ServiceProps DagProps LimitProps AgentProps
    GoalProps HostedProps LocalTaskProps FileProps DesktopProps ToolProps
    PatchProps PlannerProps BackgroundProps HarnessProps
begin

text \<open>
  Smara runs tasks for the accounts of a service: a hosted API stores tasks, workers and paired
  desktops execute their steps, and a local agent works with its own ledgers on a user's machine. This
  library models the parts that decide what may happen and in which order; it leaves out the code that
  talks to models, browsers, file systems and networks.

  \<^bold>\<open>Conventions.\<close> A database table is the list of its rows (\<open>Sql\<close>); a transaction is a function from the
  database to the database, with a result that is either a Python exception or a value (\<open>result\<close> in
  \<open>Prelude\<close>). An operation that raises inside its transaction leaves the database as it was. The clock,
  random identifiers and secrets, and the digest are the record \<open>env\<close>: \<open>clk e n\<close> is the \<open>n\<close>-th reading
  of the clock in the operation. Times are integer microseconds, Python integers are \<open>int\<close>, text is
  \<open>string\<close>, JSON documents the data type \<open>json\<close>. A loop that may not end is a partial function (the
  advance of a schedule, the cycle search of a workflow, the draining of the local queue) and its end is
  proved; the topological order counts the nodes down, which is enough (\<open>DagOrder\<close>); the resolution of a
  path follows at most 40 links, as the kernel does; the rendering of a checklist has the number of todos as
  its depth, which is enough (\<open>PlannerProps\<close>). Every other loop is a total function.

  \<^bold>\<open>The task store\<close> (\<open>src/smara/store.py\<close>, \<open>models.py\<close>), one record of tables in \<open>Schema\<close>:
  \<^item> \<open>Models\<close>, \<open>TaskStore\<close>: the validation of a step graph and the creation of a task with its steps.
  \<^item> \<open>Lifecycle\<close>: approval, decision, cancellation, retry.
  \<^item> \<open>Worker\<close>: recovery of expired leases, the claim of a step, its completion or failure.
  \<^item> \<open>Executors\<close>: paired desktops, their heartbeats, approvals, claims and results.
  \<^item> \<open>Schedules\<close>, \<open>CliAuth\<close>, \<open>Conversations\<close>, \<open>Integrations\<close>, \<open>Notifications\<close>, \<open>Skills\<close>, \<open>Research\<close>,
    \<open>Accounts\<close>: the other tables with every operation on them.
  \<^item> \<open>PgStore\<close>: the operations the PostgreSQL store overrides; the rows other transactions hold locked
    are a parameter.
  \<^item> \<open>Invariants\<close>, \<open>Engine\<close>, \<open>Reachable\<close>: the step relation of all operations on tasks, the invariant of
    the queue and its preservation; \<open>Examples\<close> the concrete states of the witnesses.

  \<^bold>\<open>The other components.\<close>
  \<^item> \<open>Dag\<close>, \<open>DagOrder\<close>, \<open>DagRun\<close> (\<open>dag_flow.py\<close>): workflows of nodes, their validation by a
    topological order, execution and serialisation; a node's callback is a parameter.
  \<^item> \<open>RateLimit\<close> (\<open>src/rate_limiter\<close>), \<open>Admission\<close> (\<open>native_admission.py\<close>, \<open>hardening.py\<close>): token buckets,
    provider slots and fixed windows. Floating-point seconds and tokens are real numbers.
  \<^item> \<open>Gateway\<close> (\<open>local_gateway.py\<close>), \<open>LocalSchedule\<close> (\<open>local_scheduler.py\<close>): the local message ledger and
    scheduler; handler and callback are parameters.
  \<^item> \<open>RuntimeSession\<close> (\<open>runtime_session.py\<close>), \<open>Protocol\<close>, \<open>ProtocolInv\<close>, \<open>ProtocolRun\<close>
    (\<open>session_protocol.py\<close>): the agent's session ledger and the protocol of turns, items and approvals
    in the same database. Other processes act between the statements of a waiting operation through
    \<open>observation\<close>.
  \<^item> \<open>Workspace\<close> (\<open>workspace_contract.py\<close>): the contract of workspace jobs and their results; pydantic's
    coercion of a document into typed fields is a parameter.
  \<^item> \<open>GoalSpec\<close>, \<open>Goals\<close>, \<open>GoalCycles\<close>, \<open>GoalInv\<close>, \<open>GoalRun\<close> (\<open>native_goals.py\<close>, with the option, acceptance
    and answer checks of \<open>native_management.py\<close>, \<open>native_outcomes.py\<close>, \<open>native_goal_runtime.py\<close>): durable goals,
    their document, ledger, cycle leases and approvals. Path resolution and file hashes are parameters.
  \<^item> \<open>Background\<close> (\<open>native_background.py\<close>): recurring wakes that create goals in the same ledger.
  \<^item> \<open>Harness\<close> (\<open>harness.py\<close>, \<open>progress.py\<close>): the journal of an agent's session, its budgets of tools, models
    and children, planned runs, single calls with the progress guard, resumption. The executors and the
    workspace are parameters. \<open>HarnessProps\<close> holds the steps of a journal and their invariant.
  \<^item> \<open>PatchEngine\<close> (\<open>patch_engine.py\<close>): the replacement of a text found by one of four strategies.
  \<^item> \<open>TaskPlanner\<close> (\<open>task_planner.py\<close>): the agent's checklist and the text of it kept across a compaction.
  \<^item> \<open>GoalEngine\<close>, \<open>GoalEngineRun\<close> (\<open>goal_engine.py\<close>): the planner and the checkpointed runner; the
    model, the executor and the text of values are parameters.

  \<^bold>\<open>Hosted work.\<close>
  \<^item> \<open>LlmErrors\<close> (\<open>llm_errors.py\<close>), \<open>Providers\<close> (\<open>provider_routing.py\<close>), \<open>Streaming\<close> (\<open>streaming.py\<close>): the kinds of a
    provider's failure, the profiles an operator allows with the choice among them, the merging of a streamed
    answer.
  \<^item> \<open>LocalSkills\<close> (\<open>local_agent.py\<close>), \<open>Workflow\<close> (\<open>workflow.py\<close>): the contract of a local step and of a workflow of
    local stages.
  \<^item> \<open>ToolRegistry\<close>, \<open>RestrictedPython\<close> (\<open>tool_registry.py\<close>), \<open>AgentStep\<close> (\<open>agent_step.py\<close>): the tools of an agent step, the
    two expression evaluators, the bounded loop of decisions and tool calls. The model, the parser and what
    built-in functions compute are parameters.
  \<^item> \<open>HostedWorker\<close>, \<open>HostedRun\<close> (\<open>worker.py\<close>): one pass of the worker over the task store, and what it keeps.

  \<^bold>\<open>The desktop.\<close>
  \<^item> \<open>LocalTasks\<close>, \<open>LocalLife\<close> (\<open>local_agent.py\<close>): the private task file with its journal, and the task file as a state
    machine all processes act on.
  \<^item> \<open>LocalPaths\<close> (\<open>path_resolver.py\<close>, \<open>desktop_executor.py\<close>), \<open>FileEdits\<close>, \<open>FileUndo\<close> (\<open>desktop_executor.py\<close>): approved
    folders, the search for a named resource, the edits in them and their undo. A file system is a finite
    list of paths with directories, files and links; building an office document is a parameter.
  \<^item> \<open>StepExec\<close>, \<open>DesktopRun\<close>, \<open>DesktopSafe\<close>, \<open>LocalRun\<close> (\<open>desktop_executor.py\<close>): the settings, the guards of a step, a pass
    of a paired desktop with its journal, and the runner of the private queue. The answers of the service
    are a list used up one per request; the capabilities beside file edits are parameters that may change
    the disk and whatever they share with the runner.

  \<^bold>\<open>Interfaces.\<close> \<open>one_time\<close> (\<open>Sql\<close>) is the contract of a code that works once; the pairing codes, the device
  codes and the OAuth states interpret it. \<open>inductive_invariant\<close> (\<open>Sql\<close>) is the contract of a state machine
  with an invariant; the task engine, the research ledger, the conversations, the skill registry, the
  action outbox, the workflow, the session protocol, the goal ledger, the recurring wakes, the journal of a session
  and the local task file interpret it.
  \<open>executor_calls\<close> (\<open>HostedRun\<close>) is what an executor of the worker may do to the store; the invariant of a pass
  interprets it.

  \<^bold>\<open>Properties.\<close> \<open>EngineProps\<close> (C1 to C6, C10) and \<open>LifecycleProps\<close> (C11, C12, C14, C15) are about tasks:
  dependencies, leases, recorded failures, what a worker or desktop may claim, decisions, cancellation,
  erasure, and the agreement of the two stores. \<open>ServiceProps\<close> (C16 to C18): one-time codes, the end of a
  scheduler round, the outbox; also skills, conversations and the event feed. \<open>DagProps\<close> (C22, C23):
  validation, the dependency gate; also the round trip of a workflow. \<open>LimitProps\<close> (C26): delivery once; also token
  budgets, windows and scheduler ticks. \<open>AgentProps\<close> (C30, C31, C33, C35, C36): cancellation, the protocol's invariant,
  approvals, redaction, paths; also replay. \<open>GoalProps\<close> (C29, C39, C40): accepted plans are carried out, one worker per
  project, completion by the user only. \<open>HostedProps\<close> (C9, C20, C27, C38): a pass of the worker refines the engine,
  records every failure, bounds the agent and leaves its work to approval. \<open>LocalTaskProps\<close> (C13): approval of
  local work. \<open>FileProps\<close> (C7, C28): undo, and edits inside the approved folders. \<open>DesktopProps\<close> (C32, C37): the local
  queue drains, and an uncertain action is not replayed. \<open>ToolProps\<close> (C19): the values of expressions.
  \<open>HarnessProps\<close> (C8, C25): writes run once, spending within the budget. \<open>BackgroundProps\<close> (C21): wakes wait for the user.
  \<open>PlannerProps\<close> (C24): no active task is lost. \<open>PatchProps\<close> (C34): an edit stays where it matched.

  \<^bold>\<open>Limits of the model.\<close> Text functions follow Python on ASCII text. Lengths and types that pydantic checks
  before a request reaches the store are not checked again. Concurrent transactions are taken in the
  order the database serialises them. A crash between two transactions is a run that stops there; the
  machines start from any reachable state, so recovery is covered where the code has it.

  \<^bold>\<open>Not modelled.\<close> The HTTP API, the command line and consoles (request parsing and printing), the
  interactive agent around language models, the terminal, browser, media and office capabilities of the
  desktop and the endless polling loops around its passes, document and voice engines, research over the
  network, the supervisor processes and the Telegram connector, git and process management: input and output
  with little state of their own, or wrappers of third-party code.
\<close>

end
